(* ===== verification/Checksum.thy ===== *)
theory Checksum
  imports Py_Unicode
begin

text \<open>
  \<^verbatim>\<open>app/core/checksum.py\<close>: the check digits of Korean resident registration numbers, Korean
  business registration numbers and payment cards.  The definitions keep the source's errors: a
  character such as a superscript two passes \<^verbatim>\<open>str.isdigit\<close> and then makes \<^verbatim>\<open>int\<close>
  raise.  The lemmas show what the check digits are for: completing a number with its check digit
  makes it valid, no other digit does, and which typing errors each scheme detects.
\<close>

section \<open>Definitions\<close>

definition rrn_weights :: "int list" where
  "rrn_weights = [2, 3, 4, 5, 6, 7, 8, 9, 2, 3, 4, 5]"

definition biz_weights :: "int list" where
  "biz_weights = [1, 3, 7, 1, 3, 7, 1, 3, 5]"

text \<open>\<^verbatim>\<open>[int(c) for c in s]\<close>, raising at the first character that does not convert.\<close>

fun ints_of :: "ustr \<Rightarrow> exn + int list" where
  "ints_of [] = Inr []"
| "ints_of (c # s) =
     (case int_of_char c of
        Inl e \<Rightarrow> Inl e
      | Inr n \<Rightarrow> (case ints_of s of Inl e \<Rightarrow> Inl e | Inr ns \<Rightarrow> Inr (n # ns)))"

text \<open>\<^verbatim>\<open>sum(int(d) * w for d, w in zip(digits, weights, strict=True))\<close>.\<close>

definition weighted_sum :: "int list \<Rightarrow> int list \<Rightarrow> int" where
  "weighted_sum ds ws = sum_list (map2 (*) ds ws)"

definition rrn_checksum :: "ustr \<Rightarrow> exn + int" where
  "rrn_checksum first_twelve =
     (if length first_twelve \<noteq> 12 \<or> \<not> str_isdigit first_twelve then Inl ValueError
      else case ints_of first_twelve of
             Inl e \<Rightarrow> Inl e
           | Inr ds \<Rightarrow> Inr ((11 - weighted_sum ds rrn_weights mod 11) mod 10))"

definition compact :: "ustr \<Rightarrow> ustr" where
  "compact s = strip (replace_all (u ''-'') [] s)"

definition rrn_is_valid :: "ustr \<Rightarrow> exn + bool" where
  "rrn_is_valid rrn =
     (let c = compact rrn in
      if length c \<noteq> 13 \<or> \<not> str_isdigit c then Inr False
      else case int_of_char (c ! 12) of
             Inl e \<Rightarrow> Inl e
           | Inr d \<Rightarrow> (case rrn_checksum (take 12 c) of Inl e \<Rightarrow> Inl e | Inr k \<Rightarrow> Inr (d = k)))"

definition business_num_checksum :: "ustr \<Rightarrow> exn + int" where
  "business_num_checksum first_nine =
     (if length first_nine \<noteq> 9 \<or> \<not> str_isdigit first_nine then Inl ValueError
      else case ints_of first_nine of
             Inl e \<Rightarrow> Inl e
           | Inr ds \<Rightarrow>
               (let s = weighted_sum ds biz_weights; carry = (ds ! 8 * 5) div 10
                in Inr ((10 - (s + carry) mod 10) mod 10)))"

definition business_num_is_valid :: "ustr \<Rightarrow> exn + bool" where
  "business_num_is_valid num =
     (let c = compact num in
      if length c \<noteq> 10 \<or> \<not> str_isdigit c then Inr False
      else case int_of_char (c ! 9) of
             Inl e \<Rightarrow> Inl e
           | Inr d \<Rightarrow>
               (case business_num_checksum (take 9 c) of Inl e \<Rightarrow> Inl e | Inr k \<Rightarrow> Inr (d = k)))"

text \<open>One digit's contribution, doubled with the digit sum folded back in.\<close>

definition luhn_double :: "int \<Rightarrow> int" where
  "luhn_double n = (let m = n * 2 in if m > 9 then m - 9 else m)"

text \<open>The loop of \<open>luhn_check\<close> over the reversed digits, with its index and running total.\<close>

fun luhn_loop :: "nat \<Rightarrow> int \<Rightarrow> ustr \<Rightarrow> exn + int" where
  "luhn_loop i tot [] = Inr tot"
| "luhn_loop i tot (d # ds) =
     (case int_of_char d of
        Inl e \<Rightarrow> Inl e
      | Inr n \<Rightarrow> luhn_loop (Suc i) (tot + (if i mod 2 = 1 then luhn_double n else n)) ds)"

definition luhn_check :: "ustr \<Rightarrow> exn + bool" where
  "luhn_check number =
     (let digits = filter is_digit number in
      if length digits < 2 then Inr False
      else case luhn_loop 0 0 (rev digits) of Inl e \<Rightarrow> Inl e | Inr t \<Rightarrow> Inr (t mod 10 = 0))"

text \<open>The loop of \<open>luhn_check_digit\<close>: the same doubling, one position to the left.\<close>

fun luhn_partial_loop :: "nat \<Rightarrow> int \<Rightarrow> int list \<Rightarrow> int" where
  "luhn_partial_loop i tot [] = tot"
| "luhn_partial_loop i tot (d # ds) =
     luhn_partial_loop (Suc i) (tot + (if i mod 2 = 0 then luhn_double d else d)) ds"

definition luhn_check_digit :: "ustr \<Rightarrow> exn + int" where
  "luhn_check_digit partial =
     (case ints_of (filter is_digit partial) of
        Inl e \<Rightarrow> Inl e
      | Inr ds \<Rightarrow> Inr ((10 - luhn_partial_loop 0 0 (rev ds) mod 10) mod 10))"

section \<open>Decimal strings\<close>

text \<open>A string of decimal digits, the digit a code point stands for, and the digit as a string.\<close>

definition decimals :: "ustr \<Rightarrow> bool" where
  "decimals s \<longleftrightarrow> list_all is_decimal s"

definition dval :: "nat \<Rightarrow> int" where
  "dval c = int (the (decimal_value c))"

definition digit_char :: "int \<Rightarrow> nat" where
  "digit_char d = nat (48 + d)"

lemma dval_range: "is_decimal c \<Longrightarrow> 0 \<le> dval c \<and> dval c \<le> 9"
  by (force simp: is_decimal_def dval_def dest: decimal_value_less_10)

lemma int_of_char_decimal: "is_decimal c \<Longrightarrow> int_of_char c = Inr (dval c)"
  by (auto simp: int_of_char_def is_decimal_def dval_def)

lemma ints_of_decimals: "decimals s \<Longrightarrow> ints_of s = Inr (map dval s)"
  by (induction s) (auto simp: decimals_def int_of_char_decimal)

lemma decimals_append [simp]: "decimals (s @ t) \<longleftrightarrow> decimals s \<and> decimals t"
  by (simp add: decimals_def)

lemma decimals_Cons [simp]: "decimals (c # s) \<longleftrightarrow> is_decimal c \<and> decimals s"
  by (simp add: decimals_def)

lemma decimals_Nil [simp]: "decimals []"
  by (simp add: decimals_def)

lemma str_isdigit_decimals: "decimals s \<Longrightarrow> s \<noteq> [] \<Longrightarrow> str_isdigit s"
  by (auto simp: str_isdigit_def decimals_def list_all_iff is_decimal_is_digit)

lemma filter_digit_decimals: "decimals s \<Longrightarrow> filter is_digit s = s"
  by (induction s) (auto simp: is_decimal_is_digit)

lemma decimal_not_sep: "is_decimal c \<Longrightarrow> c \<noteq> 45 \<and> \<not> is_space c"
proof -
  assume d: "is_decimal c"
  have big: "decimal_in decimal_zeros c \<noteq> None \<Longrightarrow> 128 \<le> c \<Longrightarrow> \<not> in_ranges space_ranges c"
    by (auto simp: decimal_zeros_def space_ranges_def split: if_splits)
  show ?thesis
  proof (cases "c < 128")
    case True
    with d show ?thesis by (auto simp: is_decimal_ascii is_space_ascii)
  next
    case False
    with d big show ?thesis
      by (auto simp: is_decimal_def decimal_value_def is_space_def split: if_splits)
  qed
qed

lemma compact_decimals: "decimals s \<Longrightarrow> compact s = s"
proof -
  assume a: "decimals s"
  have "filter (\<lambda>c. c \<noteq> 45) s = s"
    using a by (induction s) (auto dest: decimal_not_sep)
  moreover have "strip s = s"
    using a by (intro strip_no_space) (auto simp: decimals_def list_all_iff dest: decimal_not_sep)
  ultimately show ?thesis
    by (simp add: compact_def u_def replace_all_char_empty)
qed

lemma digit_char_decimal: "0 \<le> d \<Longrightarrow> d \<le> 9 \<Longrightarrow> is_decimal (digit_char d) \<and> dval (digit_char d) = d"
  by (auto simp: digit_char_def is_decimal_ascii dval_def decimal_value_ascii)

section \<open>Check digits are digits\<close>

lemma rrn_checksum_decimals:
  "decimals p \<Longrightarrow> length p = 12 \<Longrightarrow>
     rrn_checksum p = Inr ((11 - weighted_sum (map dval p) rrn_weights mod 11) mod 10)"
  by (auto simp: rrn_checksum_def ints_of_decimals intro: str_isdigit_decimals)

lemma business_num_checksum_decimals:
  "decimals p \<Longrightarrow> length p = 9 \<Longrightarrow>
     business_num_checksum p =
       Inr ((10 - (weighted_sum (map dval p) biz_weights + (dval (p ! 8) * 5) div 10) mod 10) mod 10)"
  by (auto simp: business_num_checksum_def ints_of_decimals Let_def intro: str_isdigit_decimals)

lemma rrn_checksum_range: "rrn_checksum p = Inr k \<Longrightarrow> 0 \<le> k \<and> k \<le> 9"
  by (auto simp: rrn_checksum_def split: if_splits sum.splits)

lemma business_num_checksum_range: "business_num_checksum p = Inr k \<Longrightarrow> 0 \<le> k \<and> k \<le> 9"
  by (auto simp: business_num_checksum_def Let_def split: if_splits sum.splits)

section \<open>Completing a number with its check digit\<close>

lemma rrn_is_valid_decimals:
  assumes "decimals p" "length p = 12" "is_decimal c"
  shows "rrn_is_valid (p @ [c]) = Inr (rrn_checksum p = Inr (dval c))"
proof -
  have d: "decimals (p @ [c])" using assms by simp
  then have "compact (p @ [c]) = p @ [c]" and "str_isdigit (p @ [c])"
    by (auto simp: compact_decimals intro: str_isdigit_decimals)
  then show ?thesis
    using assms by (auto simp: rrn_is_valid_def Let_def nth_append int_of_char_decimal rrn_checksum_decimals)
qed

lemma business_num_is_valid_decimals:
  assumes "decimals p" "length p = 9" "is_decimal c"
  shows "business_num_is_valid (p @ [c]) = Inr (business_num_checksum p = Inr (dval c))"
proof -
  have d: "decimals (p @ [c])" using assms by simp
  then have "compact (p @ [c]) = p @ [c]" and "str_isdigit (p @ [c])"
    by (auto simp: compact_decimals intro: str_isdigit_decimals)
  then show ?thesis
    using assms
    by (auto simp: business_num_is_valid_def Let_def nth_append int_of_char_decimal
        business_num_checksum_decimals)
qed

section \<open>Weighted sums under a one-digit change\<close>

lemma weighted_sum_update:
  assumes "i < length ds" "i < length ws"
  shows "weighted_sum (ds[i := d]) ws = weighted_sum ds ws + (d - ds ! i) * ws ! i"
  using assms
proof (induction ds arbitrary: i ws)
  case Nil
  then show ?case by simp
next
  case (Cons x ds)
  then show ?case
    by (cases ws; cases i) (auto simp: weighted_sum_def algebra_simps)
qed

lemma decimals_nth: "decimals s \<Longrightarrow> i < length s \<Longrightarrow> is_decimal (s ! i)"
  by (simp add: decimals_def list_all_length)

lemma decimals_update: "decimals s \<Longrightarrow> is_decimal c \<Longrightarrow> decimals (s[i := c])"
  by (auto simp: decimals_def list_all_iff dest!: set_update_subset_insert [THEN subsetD])

text \<open>
  Changing one of the first twelve digits of a resident number changes the sum modulo eleven; the
  check digit can only survive when the two residues are zero and ten.
\<close>

lemma weight_times_diff_mod_11:
  assumes "1 \<le> w" "w \<le> 9" "-9 \<le> x" "x \<le> 9" "x \<noteq> (0::int)"
  shows "(x * w) mod 11 \<noteq> 0"
proof -
  have "w = 1 \<or> w = 2 \<or> w = 3 \<or> w = 4 \<or> w = 5 \<or> w = 6 \<or> w = 7 \<or> w = 8 \<or> w = 9"
    using assms by arith
  then show ?thesis using assms(3-5) by (elim disjE) presburger+
qed

lemma rrn_weights_range: "i < 12 \<Longrightarrow> 1 \<le> rrn_weights ! i \<and> rrn_weights ! i \<le> 9"
  by (auto simp: rrn_weights_def less_Suc_eq numeral_eq_Suc)

lemma rrn_digit_of_residue:
  "0 \<le> r \<Longrightarrow> r \<le> 10 \<Longrightarrow> (11 - r) mod 10 = (if r = 0 then 1 else if r = 1 then 0 else 11 - (r::int))"
  by (auto intro: mod_pos_pos_trivial)

lemma rrn_collision:
  fixes a b :: int
  assumes "(11 - a mod 11) mod 10 = (11 - b mod 11) mod 10" "(a - b) mod 11 \<noteq> 0"
  shows "{a mod 11, b mod 11} = {0, 10}"
proof -
  have r: "0 \<le> a mod 11" "a mod 11 \<le> 10" "0 \<le> b mod 11" "b mod 11 \<le> 10"
    using pos_mod_bound [of 11 a] pos_mod_bound [of 11 b] by simp_all
  moreover have "a mod 11 \<noteq> b mod 11"
    using assms(2) by (metis cancel_comm_monoid_add_class.diff_cancel mod_0 mod_diff_eq)
  ultimately have "a mod 11 = 0 \<and> b mod 11 = 10 \<or> a mod 11 = 10 \<and> b mod 11 = 0"
    using assms(1) unfolding rrn_digit_of_residue [OF r(1,2)] rrn_digit_of_residue [OF r(3,4)]
    by (auto split: if_splits)
  then show ?thesis by auto
qed

section \<open>Luhn sums\<close>

definition luhn_term :: "nat \<Rightarrow> int \<Rightarrow> int" where
  "luhn_term i d = (if i mod 2 = 1 then luhn_double d else d)"

fun luhn_sum :: "nat \<Rightarrow> int list \<Rightarrow> int" where
  "luhn_sum i [] = 0"
| "luhn_sum i (d # ds) = luhn_term i d + luhn_sum (Suc i) ds"

lemma luhn_loop_decimals: "decimals s \<Longrightarrow> luhn_loop i t s = Inr (t + luhn_sum i (map dval s))"
  by (induction s arbitrary: i t) (auto simp: int_of_char_decimal luhn_term_def)

lemma luhn_sum_append: "luhn_sum i (xs @ ys) = luhn_sum i xs + luhn_sum (i + length xs) ys"
  by (induction xs arbitrary: i) auto

lemma luhn_partial_loop_sum: "luhn_partial_loop i t ds = t + luhn_sum (Suc i) ds"
proof (induction ds arbitrary: i t)
  case Nil
  then show ?case by simp
next
  case (Cons d ds)
  have "Suc i mod 2 = 1 \<longleftrightarrow> i mod 2 = 0" by presburger
  with Cons.IH show ?case by (simp add: luhn_term_def)
qed

lemma luhn_check_decimals:
  "decimals s \<Longrightarrow> 2 \<le> length s \<Longrightarrow> luhn_check s = Inr (luhn_sum 0 (rev (map dval s)) mod 10 = 0)"
proof -
  assume a: "decimals s" "2 \<le> length s"
  have "decimals (rev s)" using a(1) by (simp add: decimals_def list_all_iff)
  with a show ?thesis
    by (simp add: luhn_check_def filter_digit_decimals luhn_loop_decimals rev_map)
qed

text \<open>Doubling with the digit sum folded back is a permutation of the ten digits.\<close>

lemma small_multiple_of_10: "-9 \<le> x \<Longrightarrow> x \<le> 9 \<Longrightarrow> x mod 10 = 0 \<Longrightarrow> x = (0::int)"
  by presburger

lemma luhn_double_range: "0 \<le> a \<Longrightarrow> a \<le> 9 \<Longrightarrow> 0 \<le> luhn_double a \<and> luhn_double a \<le> 9"
  by (auto simp: luhn_double_def Let_def)

lemma luhn_double_inj_digits:
  assumes "0 \<le> a" "a \<le> 9" "0 \<le> b" "b \<le> 9" "luhn_double a = luhn_double b"
  shows "a = b"
  using assms by (simp add: luhn_double_def Let_def split: if_splits) presburger+

lemma luhn_term_range:
  assumes "0 \<le> a" "a \<le> 9"
  shows "0 \<le> luhn_term i a \<and> luhn_term i a \<le> 9"
  using assms luhn_double_range [OF assms] unfolding luhn_term_def by (simp split: if_split)

lemma luhn_term_inj_digits:
  assumes "0 \<le> a" "a \<le> 9" "0 \<le> b" "b \<le> 9" "luhn_term i a = luhn_term i b"
  shows "a = b"
proof (cases "i mod 2 = 1")
  case True
  with assms(5) have "luhn_double a = luhn_double b" by (simp add: luhn_term_def)
  with assms(1-4) show ?thesis by (rule luhn_double_inj_digits)
next
  case False
  with assms(5) show ?thesis by (simp add: luhn_term_def)
qed

lemma luhn_term_inj_mod:
  assumes "0 \<le> a" "a \<le> 9" "0 \<le> b" "b \<le> 9" "(luhn_term i a - luhn_term i b) mod 10 = 0"
  shows "a = b"
proof -
  have lo: "-9 \<le> luhn_term i a - luhn_term i b" and hi: "luhn_term i a - luhn_term i b \<le> 9"
    using luhn_term_range [OF assms(1,2), of i] luhn_term_range [OF assms(3,4), of i] by linarith+
  have "luhn_term i a - luhn_term i b = 0"
    using lo hi assms(5) by (rule small_multiple_of_10)
  then have "luhn_term i a = luhn_term i b" by simp
  with assms(1-4) show ?thesis by (rule luhn_term_inj_digits)
qed

lemma luhn_sum_split:
  "luhn_sum 0 (rev (map dval (xs @ c # ys))) =
     luhn_sum 0 (rev (map dval ys)) + luhn_term (length ys) (dval c)
       + luhn_sum (Suc (length ys)) (rev (map dval xs))"
  by (simp add: luhn_sum_append)

text \<open>Two complements to ten agree only when the sums agree modulo ten.\<close>

lemma mod_10_shift: "(r + a) mod 10 = 0 \<Longrightarrow> (a - b) mod 10 \<noteq> 0 \<Longrightarrow> (r + b) mod 10 \<noteq> (0::int)"
  by presburger

lemma ten_complement_residue:
  "0 \<le> r \<Longrightarrow> r < 10 \<Longrightarrow> (10 - r) mod 10 = (if r = 0 then 0 else 10 - (r::int))"
proof (cases "r = 0")
  case False
  assume "0 \<le> r" "r < 10"
  with False have "(10 - r) mod 10 = 10 - r" by (intro mod_pos_pos_trivial) simp_all
  with False show ?thesis by simp
qed simp

lemma ten_complement_eq:
  assumes "(10 - a mod 10) mod 10 = (10 - b mod 10) mod 10"
  shows "(a - b) mod 10 = (0::int)"
proof -
  have r: "0 \<le> a mod 10" "a mod 10 < 10" "0 \<le> b mod 10" "b mod 10 < 10" by simp_all
  have "a mod 10 = b mod 10"
    using assms r unfolding ten_complement_residue [OF r(1,2)] ten_complement_residue [OF r(3,4)]
    by (simp split: if_splits)
  then show ?thesis by (metis cancel_comm_monoid_add_class.diff_cancel mod_0 mod_diff_eq)
qed

lemma ten_complement_iff:
  assumes "0 \<le> d" "d \<le> (9::int)"
  shows "(d + t) mod 10 = 0 \<longleftrightarrow> d = (10 - t mod 10) mod 10"
proof -
  have r: "0 \<le> t mod 10" "t mod 10 < 10" by simp_all
  have small: "x mod 10 = 0 \<longleftrightarrow> x = 0 \<or> x = 10" if "0 \<le> x" "x \<le> 18" for x :: int
    using that by presburger
  have "(d + t) mod 10 = (d + t mod 10) mod 10" by (simp add: mod_add_right_eq)
  also have "\<dots> = 0 \<longleftrightarrow> d + t mod 10 = 0 \<or> d + t mod 10 = 10"
    using assms r by (intro small) linarith+
  finally show ?thesis
    using assms r unfolding ten_complement_residue [OF r] by auto
qed

lemma weight_times_diff_mod_10:
  assumes "w \<in> {1, 3, 7}" "-9 \<le> x" "x \<le> 9" "x \<noteq> (0::int)"
  shows "(x * w) mod 10 \<noteq> 0"
  using assms(1) by (elim insertE emptyE) (use assms(2-4) in \<open>simp, presburger\<close>)+

lemma biz_weights_nth: "i < 8 \<Longrightarrow> biz_weights ! i \<in> {1, 3, 7}"
  by (auto simp: biz_weights_def less_Suc_eq numeral_eq_Suc)

text \<open>The ninth digit's weight with its carry is again a permutation modulo ten.\<close>

lemma biz_ninth_inj:
  assumes "0 \<le> a" "a \<le> 9" "0 \<le> b" "b \<le> (9::int)"
    "(a * 5 + (a * 5) div 10 - (b * 5 + (b * 5) div 10)) mod 10 = 0"
  shows "a = b"
proof -
  have f: "x = 0 \<or> x = 1 \<or> x = 2 \<or> x = 3 \<or> x = 4 \<or> x = 5 \<or> x = 6 \<or> x = 7 \<or> x = 8 \<or> x = 9"
    if "0 \<le> x" "x \<le> 9" for x :: int
    using that by arith
  from f [OF assms(1,2)] f [OF assms(3,4)] assms(5) show ?thesis
    by (elim disjE) simp_all
qed

definition biz_total :: "int list \<Rightarrow> int" where
  "biz_total ds = weighted_sum ds biz_weights + (ds ! 8 * 5) div 10"

lemma biz_total_update:
  assumes "length ds = 9" "i < 9" "\<forall>d \<in> set ds. 0 \<le> d \<and> d \<le> 9" "0 \<le> d" "d \<le> 9" "d \<noteq> ds ! i"
  shows "(biz_total (ds[i := d]) - biz_total ds) mod 10 \<noteq> 0"
proof -
  have w: "weighted_sum (ds[i := d]) biz_weights = weighted_sum ds biz_weights + (d - ds ! i) * biz_weights ! i"
    using assms(1,2) by (intro weighted_sum_update) (simp_all add: biz_weights_def)
  have di: "0 \<le> ds ! i \<and> ds ! i \<le> 9" using assms(1-3) by simp
  show ?thesis
  proof (cases "i = 8")
    case True
    have "biz_total (ds[i := d]) - biz_total ds = d * 5 + (d * 5) div 10 - (ds ! 8 * 5 + (ds ! 8 * 5) div 10)"
      using True assms(1) w by (simp add: biz_total_def biz_weights_def algebra_simps)
    moreover have "d \<noteq> ds ! 8" and "0 \<le> ds ! 8" and "ds ! 8 \<le> 9" using True assms(6) di by auto
    ultimately show ?thesis using biz_ninth_inj [of d "ds ! 8"] assms(4,5) by metis
  next
    case False
    with assms(2) have "i < 8" by simp
    have "biz_total (ds[i := d]) - biz_total ds = (d - ds ! i) * biz_weights ! i"
      using False w by (simp add: biz_total_def)
    with weight_times_diff_mod_10 [OF biz_weights_nth [OF \<open>i < 8\<close>], of "d - ds ! i"] di assms(4-6)
    show ?thesis by simp
  qed
qed

lemma map_dval_range: "decimals p \<Longrightarrow> \<forall>d \<in> set (map dval p). 0 \<le> d \<and> d \<le> 9"
  by (auto simp: decimals_def list_all_iff dest: dval_range)

lemma business_num_checksum_total:
  "decimals p \<Longrightarrow> length p = 9 \<Longrightarrow>
     business_num_checksum p = Inr ((10 - biz_total (map dval p) mod 10) mod 10)"
  by (simp add: business_num_checksum_decimals biz_total_def)

section \<open>The properties\<close>

text \<open>
  Every prefix of twelve decimal digits has exactly one check digit that makes it a valid
  resident registration number, the one \<^verbatim>\<open>rrn_checksum\<close> returns.
\<close>

theorem rrn_unique_check_digit:
  assumes "decimals p" "length p = 12"
  shows "\<exists>k. rrn_checksum p = Inr k \<and> 0 \<le> k \<and> k \<le> 9
           \<and> (\<forall>c. is_decimal c \<longrightarrow> rrn_is_valid (p @ [c]) = Inr (dval c = k))"
proof -
  obtain k where k: "rrn_checksum p = Inr k"
    using rrn_checksum_decimals [OF assms] by blast
  then show ?thesis
    using rrn_checksum_range [OF k] rrn_is_valid_decimals [OF assms] by auto
qed

theorem rrn_unique_check_digit_witness:
  "decimals (u ''900101123456'') \<and> length (u ''900101123456'') = 12 \<and>
   (\<exists>k. rrn_checksum (u ''900101123456'') = Inr k \<and> 0 \<le> k \<and> k \<le> 9
      \<and> (\<forall>c. is_decimal c \<longrightarrow> rrn_is_valid (u ''900101123456'' @ [c]) = Inr (dval c = k)))"
proof -
  have a: "decimals (u ''900101123456'')" and b: "length (u ''900101123456'') = 12"
    by (simp_all add: u_def is_decimal_ascii)
  show ?thesis using a b rrn_unique_check_digit [OF a b] by blast
qed

text \<open>
  A mistyped digit among the first twelve of a valid resident registration number goes
  unnoticed only when the two weighted sums leave the residues zero and ten modulo eleven (both give
  the check digit one); every other one-digit error is detected.
\<close>

theorem rrn_single_digit_error:
  assumes "decimals p" "length p = 12" "i < 12" "is_decimal c" "dval c \<noteq> dval (p ! i)" "is_decimal k"
    and valid: "rrn_is_valid (p @ [k]) = Inr True"
  shows "rrn_is_valid (p[i := c] @ [k]) = Inr False \<or>
     {weighted_sum (map dval p) rrn_weights mod 11,
      weighted_sum (map dval (p[i := c])) rrn_weights mod 11} = {0, 10}"
proof -
  let ?ds = "map dval p" let ?s = "weighted_sum ?ds rrn_weights"
  let ?s' = "weighted_sum (map dval (p[i := c])) rrn_weights"
  have p': "decimals (p[i := c])" "length (p[i := c]) = 12"
    using assms by (simp_all add: decimals_update)
  have s': "?s' = ?s + (dval c - dval (p ! i)) * rrn_weights ! i"
    using assms(2,3) weighted_sum_update [of i ?ds rrn_weights "dval c"]
    by (simp add: map_update rrn_weights_def)
  have pi: "0 \<le> dval (p ! i) \<and> dval (p ! i) \<le> 9"
    using assms(1-3) by (intro dval_range decimals_nth) simp_all
  have "((dval c - dval (p ! i)) * rrn_weights ! i) mod 11 \<noteq> 0"
    using rrn_weights_range [OF assms(3)] dval_range [OF assms(4)] pi assms(5)
    by (intro weight_times_diff_mod_11) simp_all
  with s' have ne: "(?s' - ?s) mod 11 \<noteq> 0" by simp
  show ?thesis
  proof (cases "(11 - ?s' mod 11) mod 10 = (11 - ?s mod 11) mod 10")
    case True
    from rrn_collision [OF this ne] show ?thesis by (auto simp: insert_commute)
  next
    case False
    have "(11 - ?s mod 11) mod 10 = dval k"
      using valid rrn_is_valid_decimals [OF assms(1,2,6)] rrn_checksum_decimals [OF assms(1,2)] by simp
    with False have "rrn_checksum (p[i := c]) \<noteq> Inr (dval k)"
      by (simp only: rrn_checksum_decimals [OF p'] sum.inject) simp
    then show ?thesis using rrn_is_valid_decimals [OF p' assms(6)] by simp
  qed
qed

theorem rrn_single_digit_error_witness:
  "rrn_is_valid (u ''900101123456'' @ u ''8'') = Inr True \<and>
   (rrn_is_valid ((u ''900101123456'')[3 := 57] @ [56]) = Inr False \<or>
     {weighted_sum (map dval (u ''900101123456'')) rrn_weights mod 11,
      weighted_sum (map dval ((u ''900101123456'')[3 := 57])) rrn_weights mod 11} = {0, 10})"
proof -
  have a: "decimals (u ''900101123456'')" "length (u ''900101123456'') = 12" "(3::nat) < 12"
    "is_decimal 57" "is_decimal 56"
    by (simp_all add: u_def is_decimal_ascii)
  have ne: "dval 57 \<noteq> dval (u ''900101123456'' ! 3)"
    by (simp add: u_def dval_def decimal_value_ascii)
  have v: "rrn_is_valid (u ''900101123456'' @ [56]) = Inr True"
    using rrn_is_valid_decimals [OF a(1,2,5)]
    by (simp add: rrn_checksum_decimals a u_def dval_def decimal_value_ascii is_decimal_ascii
        weighted_sum_def rrn_weights_def)
  then show ?thesis
    using rrn_single_digit_error [OF a(1,2,3,4) ne a(5) v] by (simp add: u_def)
qed

text \<open>
  Changing any single digit of a valid business registration number, the check digit included,
  makes it invalid.
\<close>

theorem business_num_single_digit_error:
  assumes "decimals s" "length s = 10" "i < 10" "is_decimal c" "dval c \<noteq> dval (s ! i)"
    and valid: "business_num_is_valid s = Inr True"
  shows "business_num_is_valid (s[i := c]) = Inr False"
proof -
  obtain p k where s: "s = p @ [k]" and p: "length p = 9" "decimals p" "is_decimal k"
    using assms(1,2) by (cases s rule: rev_cases) auto
  have v: "business_num_checksum p = Inr (dval k)"
    using valid s business_num_is_valid_decimals [OF p(2,1,3)] by simp
  show ?thesis
  proof (cases "i = 9")
    case True
    then have "s[i := c] = p @ [c]" using s p by (simp add: list_update_append)
    then show ?thesis
      using True s p v assms(5) business_num_is_valid_decimals [OF p(2,1) assms(4)] by (simp add: nth_append)
  next
    case False
    with assms(3) have i: "i < 9" by simp
    let ?ds = "map dval p"
    have upd: "s[i := c] = p[i := c] @ [k]" using s p i by (simp add: list_update_append)
    have p': "decimals (p[i := c])" "length (p[i := c]) = 9" using p assms(4) by (simp_all add: decimals_update)
    have ne: "(biz_total (?ds[i := dval c]) - biz_total ?ds) mod 10 \<noteq> 0"
      using p i assms(5) s dval_range [OF assms(4)] map_dval_range [OF p(2)]
      by (intro biz_total_update) (auto simp: nth_append)
    have "business_num_checksum (p[i := c]) \<noteq> Inr (dval k)"
    proof
      assume "business_num_checksum (p[i := c]) = Inr (dval k)"
      then have "(10 - biz_total (?ds[i := dval c]) mod 10) mod 10 = (10 - biz_total ?ds mod 10) mod 10"
        using v by (simp only: business_num_checksum_total [OF p'] business_num_checksum_total [OF p(2,1)]
            map_update sum.inject)
      with ne show False using ten_complement_eq by blast
    qed
    then show ?thesis using upd business_num_is_valid_decimals [OF p' p(3)] by simp
  qed
qed

theorem business_num_single_digit_error_witness:
  "business_num_is_valid (u ''1234567891'') = Inr True \<and>
   business_num_is_valid ((u ''1234567891'')[8 := 48]) = Inr False"
proof -
  have a: "decimals (u ''1234567891'')" "length (u ''1234567891'') = 10" "(8::nat) < 10" "is_decimal 48"
    by (simp_all add: u_def is_decimal_ascii)
  have ne: "dval 48 \<noteq> dval (u ''1234567891'' ! 8)"
    by (simp add: u_def dval_def decimal_value_ascii)
  have p: "decimals (u ''123456789'')" "length (u ''123456789'') = 9" "is_decimal 49"
    by (simp_all add: u_def is_decimal_ascii)
  have v: "business_num_is_valid (u ''1234567891'') = Inr True"
    using business_num_is_valid_decimals [OF p]
    by (simp add: business_num_checksum_decimals p u_def dval_def decimal_value_ascii is_decimal_ascii
        weighted_sum_def biz_weights_def)
  then show ?thesis
    using business_num_single_digit_error [OF a ne v] by simp
qed

text \<open>
  Appending the digit \<^verbatim>\<open>luhn_check_digit\<close> computes to a non-empty string of decimal digits
  gives a number that \<^verbatim>\<open>luhn_check\<close> accepts, and no other digit does.
\<close>

theorem luhn_check_digit_completes:
  assumes "decimals p" "p \<noteq> []"
  shows "\<exists>k. luhn_check_digit p = Inr k \<and> 0 \<le> k \<and> k \<le> 9
           \<and> (\<forall>c. is_decimal c \<longrightarrow> luhn_check (p @ [c]) = Inr (dval c = k))"
proof -
  let ?t = "luhn_sum 1 (rev (map dval p))" let ?k = "(10 - ?t mod 10) mod 10"
  have k: "luhn_check_digit p = Inr ?k"
    using assms(1)
    by (simp add: luhn_check_digit_def filter_digit_decimals ints_of_decimals luhn_partial_loop_sum)
  have "luhn_check (p @ [c]) = Inr (dval c = ?k)" if c: "is_decimal c" for c
  proof -
    have l: "2 \<le> length (p @ [c])" using assms(2) by (cases p) auto
    have "luhn_check (p @ [c]) = Inr ((dval c + ?t) mod 10 = 0)"
      using luhn_check_decimals [of "p @ [c]"] assms(1) c l by (simp add: luhn_term_def)
    moreover have "(dval c + ?t) mod 10 = 0 \<longleftrightarrow> dval c = ?k"
      using dval_range [OF c] by (intro ten_complement_iff) simp_all
    ultimately show ?thesis by simp
  qed
  with k show ?thesis by auto
qed

theorem luhn_check_digit_completes_witness:
  "decimals (u ''411111111111111'') \<and>
   (\<exists>k. luhn_check_digit (u ''411111111111111'') = Inr k \<and> 0 \<le> k \<and> k \<le> 9
      \<and> (\<forall>c. is_decimal c \<longrightarrow> luhn_check (u ''411111111111111'' @ [c]) = Inr (dval c = k)))"
proof -
  have a: "decimals (u ''411111111111111'')" and b: "u ''411111111111111'' \<noteq> []"
    by (simp_all add: u_def is_decimal_ascii)
  show ?thesis using a luhn_check_digit_completes [OF a b] by blast
qed

text \<open>
  No one-digit error in a card number with a valid Luhn sum goes unnoticed.
\<close>

theorem luhn_single_digit_error:
  assumes "decimals (xs @ c # ys)" "is_decimal c'" "dval c' \<noteq> dval c" "xs @ ys \<noteq> []"
    and valid: "luhn_check (xs @ c # ys) = Inr True"
  shows "luhn_check (xs @ c' # ys) = Inr False"
proof -
  let ?a = "luhn_term (length ys) (dval c)" let ?b = "luhn_term (length ys) (dval c')"
  let ?r = "luhn_sum 0 (rev (map dval ys)) + luhn_sum (Suc (length ys)) (rev (map dval xs))"
  have l: "2 \<le> length (xs @ c # ys)" "2 \<le> length (xs @ c' # ys)" using assms(4) by (cases xs; cases ys; simp)+
  have "decimals (xs @ c' # ys)" using assms(1,2) by simp
  then have v': "luhn_check (xs @ c' # ys) = Inr ((?r + ?b) mod 10 = 0)"
    using luhn_check_decimals [OF _ l(2)] by (simp only: luhn_sum_split) (simp add: algebra_simps)
  have v: "(?r + ?a) mod 10 = 0"
    using luhn_check_decimals [OF assms(1) l(1)] valid by (simp only: luhn_sum_split) (simp add: algebra_simps)
  have "(?a - ?b) mod 10 \<noteq> 0"
    using luhn_term_inj_mod [of "dval c" "dval c'" "length ys"] dval_range [OF assms(2)] dval_range [of c] assms(1,3)
    by auto
  with v have "(?r + ?b) mod 10 \<noteq> 0" by (rule mod_10_shift)
  with v' show ?thesis by simp
qed

theorem luhn_single_digit_error_witness:
  "luhn_check (u ''4111'' @ 49 # u ''11111111111'') = Inr True \<and>
   luhn_check (u ''4111'' @ 55 # u ''11111111111'') = Inr False"
proof -
  have d: "decimals (u ''4111'' @ 49 # u ''11111111111'')" "is_decimal 55" "dval 55 \<noteq> dval 49"
    "u ''4111'' @ u ''11111111111'' \<noteq> []"
    by (simp_all add: u_def is_decimal_ascii dval_def decimal_value_ascii)
  have v: "luhn_check (u ''4111'' @ 49 # u ''11111111111'') = Inr True"
    using luhn_check_decimals [OF d(1)]
    by (simp add: u_def dval_def decimal_value_ascii luhn_term_def luhn_double_def)
  show ?thesis using v luhn_single_digit_error [OF d v] by simp
qed

end
