(* ===== verification/Codes.thy ===== *)
theory Codes
  imports Prelude
begin

text \<open>
  \<^verbatim>\<open>app/core/codes.py\<close>: the catalogue of response codes.  Each dictionary of the source is an
  association list in source order, \<open>CODES\<close> is their concatenation and \<open>get_code\<close> raises
  \<open>KeyError\<close> on an unknown code.  Message templates are code point lists; runs of ASCII are written
  with \<^const>\<open>u\<close>.  The lemmas show that the catalogue keeps the promises of its module comment: keys
  are unique and equal to the \<^verbatim>\<open>code\<close> field, and the category prefix determines the verdict, the
  HTTP status and who gets a developer message.
\<close>

section \<open>Types\<close>

datatype verdict = PASS | WARN | BLOCK | PROCESSING | ERROR

fun verdict_value :: "verdict \<Rightarrow> string" where
  "verdict_value PASS = ''PASS''"
| "verdict_value WARN = ''WARN''"
| "verdict_value BLOCK = ''BLOCK''"
| "verdict_value PROCESSING = ''PROCESSING''"
| "verdict_value ERROR = ''ERROR''"

record response_code =
  rc_code :: string
  rc_http_status :: nat
  rc_verdict :: verdict
  rc_system_message :: string
  rc_user_message_template :: ustr
  rc_developer_message_template :: "ustr option"
  rc_retryable :: bool

section \<open>The catalogue\<close>

subsection \<open>PASS\<close>

definition PASS_CODES :: "(string \<times> response_code) list" where
  "PASS_CODES =
    [
     (''OK-0000'',
      \<lparr>rc_code = ''OK-0000'', rc_http_status = 200, rc_verdict = PASS,
       rc_system_message = ''No PII detected'',
       rc_user_message_template =
         [44172, 49884, 32, 44032, 45733, 54633, 45768, 45796] @ u ''.'',
       rc_developer_message_template = None,
       rc_retryable = False\<rparr>),
     (''OK-0001'',
      \<lparr>rc_code = ''OK-0001'', rc_http_status = 200, rc_verdict = PASS,
       rc_system_message = ''Weak signals only, policy allows'',
       rc_user_message_template =
         [44172, 49884, 32, 44032, 45733, 54633, 45768, 45796] @ u ''.'',
       rc_developer_message_template = None,
       rc_retryable = False\<rparr>)]"

subsection \<open>WARN (kept for historical audit rows)\<close>

definition WARN_CODES :: "(string \<times> response_code) list" where
  "WARN_CODES =
    [
     (''WARN-1001'',
      \<lparr>rc_code = ''WARN-1001'', rc_http_status = 200, rc_verdict = WARN,
       rc_system_message = ''KR phone-like pattern detected in body'',
       rc_user_message_template =
         [48376, 47928, 50640, 32, 51204, 54868, 48264, 54840, 47196, 32, 48372, 51060, 45716, 32,
         51221, 48372, 44032, 32, 54252, 54632, 46104, 50612, 32, 51080, 49845, 45768, 45796] @
         u ''. '' @ [44277, 44060, 46104, 50612, 46020, 32, 44316, 52270, 51008, 32, 51221, 48372,
         51064, 51648, 32, 54869, 51064, 32, 54980, 32, 44172, 49884, 54644, 51452, 49464, 50836]
         @ u ''.'',
       rc_developer_message_template = None,
       rc_retryable = False\<rparr>),
     (''WARN-1002'',
      \<lparr>rc_code = ''WARN-1002'', rc_http_status = 200, rc_verdict = WARN,
       rc_system_message = ''Email address detected in body'',
       rc_user_message_template =
         [48376, 47928, 50640, 32, 51060, 47700, 51068, 32, 51452, 49548, 44032, 32, 54252, 54632,
         46104, 50612, 32, 51080, 49845, 45768, 45796] @ u ''. '' @ [44277, 44060, 46104, 50612,
         46020, 32, 44316, 52270, 51008, 32, 51221, 48372, 51064, 51648, 32, 54869, 51064, 54644,
         51452, 49464, 50836] @ u ''.'',
       rc_developer_message_template = None,
       rc_retryable = False\<rparr>),
     (''WARN-1003'',
      \<lparr>rc_code = ''WARN-1003'', rc_http_status = 200, rc_verdict = WARN,
       rc_system_message = ''Address-like pattern detected in body'',
       rc_user_message_template =
         [48376, 47928, 50640, 32, 51452, 49548, 47196, 32, 48372, 51060, 45716, 32, 51221, 48372,
         44032, 32, 54252, 54632, 46104, 50612, 32, 51080, 49845, 45768, 45796] @ u ''.'',
       rc_developer_message_template = None,
       rc_retryable = False\<rparr>),
     (''WARN-1004'',
      \<lparr>rc_code = ''WARN-1004'', rc_http_status = 200, rc_verdict = WARN,
       rc_system_message = ''Multiple person names detected in body'',
       rc_user_message_template =
         [48376, 47928, 50640, 32, 49324, 46988, 32, 51060, 47492, 51004, 47196, 32, 48372, 51060,
         45716, 32, 54364, 54788, 51060, 32, 50668, 47084, 32, 44148, 32, 54252, 54632, 46104,
         50612, 32, 51080, 49845, 45768, 45796] @ u ''.'',
       rc_developer_message_template = None,
       rc_retryable = False\<rparr>),
     (''WARN-1005'',
      \<lparr>rc_code = ''WARN-1005'', rc_http_status = 200, rc_verdict = WARN,
       rc_system_message = ''Body person name differs from author'',
       rc_user_message_template =
         [48376, 47928, 50640, 32, 51089, 49457, 51088, 32, 48376, 51064, 51060, 32, 50500, 45772,
         32, 45796, 47480, 32, 49324, 46988, 51032, 32, 51060, 47492, 51060, 32, 54252, 54632,
         46108, 32, 44163, 32, 44057, 49845, 45768, 45796] @ u ''. '' @ [46041, 51032, 32, 50630,
         45716, 32, 53440, 51064, 32, 51221, 48372, 32, 45432, 52636, 50640, 32, 50976, 51032,
         54644, 51452, 49464, 50836] @ u ''.'',
       rc_developer_message_template = None,
       rc_retryable = False\<rparr>),
     (''WARN-1099'',
      \<lparr>rc_code = ''WARN-1099'', rc_http_status = 200, rc_verdict = WARN,
       rc_system_message = ''Other weak PII signal'',
       rc_user_message_template =
         [48376, 47928, 50640, 32, 44060, 51064, 51221, 48372, 47196, 32, 51032, 49900, 46104,
         45716, 32, 54364, 54788, 51060, 32, 54252, 54632, 46104, 50612, 32, 51080, 49845, 45768,
         45796] @ u ''. '' @ [54869, 51064, 32, 54980, 32, 44172, 49884, 54644, 51452, 49464,
         50836] @ u ''.'',
       rc_developer_message_template = None,
       rc_retryable = False\<rparr>),
     (''WARN-1010'',
      \<lparr>rc_code = ''WARN-1010'', rc_http_status = 200, rc_verdict = WARN,
       rc_system_message = ''Sensitive content auto-redacted'',
       rc_user_message_template =
         [48376, 47928, 32, 51068, 48512, 44032, 32, 51088, 46041, 51004, 47196, 32, 44032, 47140,
         51276, 49845, 45768, 45796] @ u ''. '' @ [44032, 47140, 51652, 32, 45236, 50857, 51008,
         32, 44536, 45824, 47196, 32, 44172, 49884, 46121, 45768, 45796] @ u ''.'',
       rc_developer_message_template = None,
       rc_retryable = False\<rparr>)]"

subsection \<open>BLOCK\<close>

definition BLOCK_CODES :: "(string \<times> response_code) list" where
  "BLOCK_CODES =
    [
     (''BLOCK-2001'',
      \<lparr>rc_code = ''BLOCK-2001'', rc_http_status = 200, rc_verdict = BLOCK,
       rc_system_message = ''Korean RRN detected in body'',
       rc_user_message_template =
         [48376, 47928, 50640, 32, 51452, 48124, 46321, 47197, 48264, 54840, 47196, 32, 48372,
         51060, 45716, 32, 51221, 48372, 44032, 32, 54252, 54632, 46104, 50612, 32, 51080, 50612,
         32, 44172, 49884, 54624, 32, 49688, 32, 50630, 49845, 45768, 45796] @ u ''. '' @ [54644,
         45817, 32, 51221, 48372, 47484, 32, 49325, 51228, 54616, 44144, 45208, 32, 44032, 47536,
         32, 54980, 32, 45796, 49884, 32, 49884, 46020, 54644, 51452, 49464, 50836] @ u ''.'',
       rc_developer_message_template = None,
       rc_retryable = False\<rparr>),
     (''BLOCK-2002'',
      \<lparr>rc_code = ''BLOCK-2002'', rc_http_status = 200, rc_verdict = BLOCK,
       rc_system_message = ''Korean driver license detected in body'',
       rc_user_message_template =
         [48376, 47928, 50640, 32, 50868, 51204, 47732, 54728, 48264, 54840, 47196, 32, 48372,
         51060, 45716, 32, 51221, 48372, 44032, 32, 54252, 54632, 46104, 50612, 32, 51080, 50612,
         32, 44172, 49884, 54624, 32, 49688, 32, 50630, 49845, 45768, 45796] @ u ''.'',
       rc_developer_message_template = None,
       rc_retryable = False\<rparr>),
     (''BLOCK-2003'',
      \<lparr>rc_code = ''BLOCK-2003'', rc_http_status = 200, rc_verdict = BLOCK,
       rc_system_message = ''Korean passport detected in body'',
       rc_user_message_template =
         [48376, 47928, 50640, 32, 50668, 44428, 48264, 54840, 47196, 32, 48372, 51060, 45716, 32,
         51221, 48372, 44032, 32, 54252, 54632, 46104, 50612, 32, 51080, 50612, 32, 44172, 49884,
         54624, 32, 49688, 32, 50630, 49845, 45768, 45796] @ u ''.'',
       rc_developer_message_template = None,
       rc_retryable = False\<rparr>),
     (''BLOCK-2004'',
      \<lparr>rc_code = ''BLOCK-2004'', rc_http_status = 200, rc_verdict = BLOCK,
       rc_system_message = ''Foreign registration number detected in body'',
       rc_user_message_template =
         [48376, 47928, 50640, 32, 50808, 44397, 51064, 46321, 47197, 48264, 54840, 47196, 32,
         48372, 51060, 45716, 32, 51221, 48372, 44032, 32, 54252, 54632, 46104, 50612, 32, 51080,
         50612, 32, 44172, 49884, 54624, 32, 49688, 32, 50630, 49845, 45768, 45796] @ u ''.'',
       rc_developer_message_template = None,
       rc_retryable = False\<rparr>),
     (''BLOCK-2005'',
      \<lparr>rc_code = ''BLOCK-2005'', rc_http_status = 200, rc_verdict = BLOCK,
       rc_system_message = ''Credit card detected in body'',
       rc_user_message_template =
         [48376, 47928, 50640, 32, 49888, 50857, 52852, 46300, 48264, 54840, 47196, 32, 48372,
         51060, 45716, 32, 51221, 48372, 44032, 32, 54252, 54632, 46104, 50612, 32, 51080, 50612,
         32, 44172, 49884, 54624, 32, 49688, 32, 50630, 49845, 45768, 45796] @ u ''.'',
       rc_developer_message_template = None,
       rc_retryable = False\<rparr>),
     (''BLOCK-2006'',
      \<lparr>rc_code = ''BLOCK-2006'', rc_http_status = 200, rc_verdict = BLOCK,
       rc_system_message = ''Bank account (strong) detected in body'',
       rc_user_message_template =
         [48376, 47928, 50640, 32, 44228, 51340, 48264, 54840, 47196, 32, 48372, 51060, 45716, 32,
         51221, 48372, 44032, 32, 54252, 54632, 46104, 50612, 32, 51080, 50612, 32, 44172, 49884,
         54624, 32, 49688, 32, 50630, 49845, 45768, 45796] @ u ''. '' @ [44552, 50997, 32, 51221,
         48372, 32, 45432, 52636, 51008, 32, 48372, 51060, 49828, 54588, 49905, 32, 46321, 50640,
         32, 50501, 50857, 46112, 32, 49688, 32, 51080, 49845, 45768, 45796] @ u ''.'',
       rc_developer_message_template = None,
       rc_retryable = False\<rparr>),
     (''BLOCK-2007'',
      \<lparr>rc_code = ''BLOCK-2007'', rc_http_status = 200, rc_verdict = BLOCK,
       rc_system_message = ''Internal name (deny list) detected in body'',
       rc_user_message_template =
         [48376, 47928, 50640, 32, 44592, 44288, 32, 51076, 51649, 50896, 32, 51221, 48372, 44032,
         32, 54252, 54632, 46104, 50612, 32, 51080, 50612, 32, 44172, 49884, 54624, 32, 49688, 32,
         50630, 49845, 45768, 45796] @ u ''. '' @ [51649, 50896, 32, 51221, 48372, 32, 44277,
         44060, 44032, 32, 54596, 50836, 54620, 32, 44221, 50864, 32, 45812, 45817, 32, 48512,
         49436, 47196, 32, 47928, 51032, 54644, 51452, 49464, 50836] @ u ''.'',
       rc_developer_message_template = None,
       rc_retryable = False\<rparr>),
     (''BLOCK-2008'',
      \<lparr>rc_code = ''BLOCK-2008'', rc_http_status = 200, rc_verdict = BLOCK,
       rc_system_message = ''Multiple PII types detected simultaneously'',
       rc_user_message_template =
         [48376, 47928, 50640, 32, 50668, 47084, 32, 51333, 47448, 51032, 32, 44060, 51064, 51221,
         48372, 44032, 32, 54632, 44760, 32, 54252, 54632, 46104, 50612, 32, 51080, 50612, 32,
         44172, 49884, 54624, 32, 49688, 32, 50630, 49845, 45768, 45796] @ u ''. '' @ [54644,
         45817, 32, 51221, 48372, 47484, 32, 47784, 46160, 32, 51228, 44144, 54620, 32, 54980, 32,
         45796, 49884, 32, 49884, 46020, 54644, 51452, 49464, 50836] @ u ''.'',
       rc_developer_message_template = None,
       rc_retryable = False\<rparr>),
     (''BLOCK-2010'',
      \<lparr>rc_code = ''BLOCK-2010'', rc_http_status = 200, rc_verdict = BLOCK,
       rc_system_message = ''PII detected in attachment'',
       rc_user_message_template =
         [52392, 48512, 54028, 51068, 32, 39] @ u ''{filename}'' @ [39, 50640, 32, 44060, 51064,
         51221, 48372, 44032, 32, 54252, 54632, 46104, 50612, 32, 51080, 50612, 32, 44172, 49884,
         54624, 32, 49688, 32, 50630, 49845, 45768, 45796] @ u ''. '' @ [52392, 48512, 54028,
         51068, 51012, 32, 44032, 47532, 44144, 45208, 32, 51228, 44144, 54620, 32, 54980, 32,
         45796, 49884, 32, 49884, 46020, 54644, 51452, 49464, 50836] @ u ''.'',
       rc_developer_message_template = None,
       rc_retryable = False\<rparr>),
     (''BLOCK-2011'',
      \<lparr>rc_code = ''BLOCK-2011'', rc_http_status = 200, rc_verdict = BLOCK,
       rc_system_message = ''PII detected via OCR in image'',
       rc_user_message_template =
         [52392, 48512, 32, 51060, 48120, 51648, 32, 39] @ u ''{filename}'' @ [39, 50640, 49436,
         32, 44060, 51064, 51221, 48372, 44032, 32, 54252, 54632, 46108, 32, 53581, 49828, 53944,
         44032, 32, 48156, 44204, 46104, 50612, 32, 44172, 49884, 54624, 32, 49688, 32, 50630,
         49845, 45768, 45796] @ u ''.'',
       rc_developer_message_template = None,
       rc_retryable = False\<rparr>),
     (''BLOCK-2012'',
      \<lparr>rc_code = ''BLOCK-2012'', rc_http_status = 200, rc_verdict = BLOCK,
       rc_system_message = ''Image looks like an ID card'',
       rc_user_message_template =
         [52392, 48512, 32, 51060, 48120, 51648, 32, 39] @ u ''{filename}'' @ [39, 51060, 32,
         49888, 48516, 51613, 32, 49324, 51652, 51004, 47196, 32, 51032, 49900, 46121, 45768,
         45796] @ u ''. '' @ [49888, 48516, 51613, 32, 51060, 48120, 51648, 45716, 32, 44172,
         49884, 54624, 32, 49688, 32, 50630, 49845, 45768, 45796] @ u ''.'',
       rc_developer_message_template = None,
       rc_retryable = False\<rparr>),
     (''BLOCK-2099'',
      \<lparr>rc_code = ''BLOCK-2099'', rc_http_status = 200, rc_verdict = BLOCK,
       rc_system_message = ''Other strong PII signal'',
       rc_user_message_template =
         [48376, 47928, 50640, 32, 44060, 51064, 51221, 48372, 47196, 32, 54032, 45800, 46104,
         45716, 32, 51221, 48372, 44032, 32, 54252, 54632, 46104, 50612, 32, 51080, 50612, 32,
         44172, 49884, 54624, 32, 49688, 32, 50630, 49845, 45768, 45796] @ u ''.'',
       rc_developer_message_template = None,
       rc_retryable = False\<rparr>)]"

subsection \<open>ACK (PROCESSING)\<close>

definition ACK_CODES :: "(string \<times> response_code) list" where
  "ACK_CODES =
    [
     (''ACK-3001'',
      \<lparr>rc_code = ''ACK-3001'', rc_http_status = 202, rc_verdict = PROCESSING,
       rc_system_message = ''Body passed, attachments queued'',
       rc_user_message_template =
         [48376, 47928, 51008, 32, 51060, 49345, 51060, 32, 50630, 49845, 45768, 45796] @ u ''. ''
         @ [52392, 48512, 54028, 51068, 32, 44160, 49324, 44032, 32, 51652, 54665, 32, 51473,
         51077, 45768, 45796, 32] @ u ''('' @ [50696, 49345, 32] @ u ''{eta_seconds}'' @ [52488,
         32, 51060, 45236] @ u '').'',
       rc_developer_message_template = None,
       rc_retryable = False\<rparr>),
     (''ACK-3002'',
      \<lparr>rc_code = ''ACK-3002'', rc_http_status = 202, rc_verdict = PROCESSING,
       rc_system_message = ''Attachment queue backlog causing delay'',
       rc_user_message_template =
         [52392, 48512, 54028, 51068, 32, 44160, 49324, 44032, 32, 51652, 54665, 32, 51473, 51077,
         45768, 45796] @ u ''. '' @ [54788, 51116, 32, 52376, 47532, 47049, 51060, 32, 47566,
         50500, 32, 54217, 49548, 48372, 45796, 32, 49884, 44036, 51060, 32, 45908, 32, 44152,
         47540, 32, 49688, 32, 51080, 49845, 45768, 45796] @ u ''.'',
       rc_developer_message_template = None,
       rc_retryable = False\<rparr>),
     (''ACK-3010'',
      \<lparr>rc_code = ''ACK-3010'', rc_http_status = 202, rc_verdict = PROCESSING,
       rc_system_message = ''Feedback received'',
       rc_user_message_template =
         [51032, 44204, 51060, 32, 51217, 49688, 46104, 50632, 49845, 45768, 45796] @ u ''. '' @
         [44160, 53664, 32, 54980, 32, 51221, 52293, 50640, 32, 48152, 50689, 54616, 44192, 49845,
         45768, 45796] @ u ''.'',
       rc_developer_message_template = None,
       rc_retryable = False\<rparr>)]"

subsection \<open>REQ (client errors)\<close>

definition REQ_CODES_A :: "(string \<times> response_code) list" where
  "REQ_CODES_A =
    [
     (''REQ-4001'',
      \<lparr>rc_code = ''REQ-4001'', rc_http_status = 400, rc_verdict = ERROR,
       rc_system_message = ''Required field missing'',
       rc_user_message_template =
         [50836, 52397, 32, 51221, 48372, 44032, 32, 48512, 51313, 54633, 45768, 45796] @ u ''.'',
       rc_developer_message_template = Some
         ([45572, 46973, 32, 54596, 46300] @ u '': {fields}''),
       rc_retryable = False\<rparr>),
     (''REQ-4002'',
      \<lparr>rc_code = ''REQ-4002'', rc_http_status = 400, rc_verdict = ERROR,
       rc_system_message = ''Invalid author field format'',
       rc_user_message_template =
         [51089, 49457, 51088, 32, 51221, 48372, 32, 54805, 49885, 51060, 32, 50732, 48148, 47476,
         51648, 32, 50506, 49845, 45768, 45796] @ u ''.'',
       rc_developer_message_template = Some
         (u ''author.{field} '' @ [44160, 51613, 32, 49892, 54056]),
       rc_retryable = False\<rparr>),
     (''REQ-4003'',
      \<lparr>rc_code = ''REQ-4003'', rc_http_status = 400, rc_verdict = ERROR,
       rc_system_message = ''Malformed JSON'',
       rc_user_message_template =
         [50836, 52397, 32, 54805, 49885, 51060, 32, 50732, 48148, 47476, 51648, 32, 50506, 49845,
         45768, 45796] @ u ''.'',
       rc_developer_message_template = Some
         (u ''JSON parse error: {detail}''),
       rc_retryable = False\<rparr>),
     (''REQ-4004'',
      \<lparr>rc_code = ''REQ-4004'', rc_http_status = 400, rc_verdict = ERROR,
       rc_system_message = ''Invalid request_id format'',
       rc_user_message_template =
         [50836, 52397, 32, 49885, 48324, 51088, 32, 54805, 49885, 51060, 32, 50732, 48148, 47476,
         51648, 32, 50506, 49845, 45768, 45796] @ u ''.'',
       rc_developer_message_template = Some
         (u ''UUID v4 '' @ [54805, 49885, 32, 54596, 50836]),
       rc_retryable = False\<rparr>),
     (''REQ-4005'',
      \<lparr>rc_code = ''REQ-4005'', rc_http_status = 400, rc_verdict = ERROR,
       rc_system_message = ''Duplicate request_id (idempotency)'',
       rc_user_message_template =
         [51060, 48120, 32, 52376, 47532, 46108, 32, 50836, 52397, 51077, 45768, 45796] @ u ''.'',
       rc_developer_message_template = Some
         ([51473, 48373, 32, 44160, 52636, 32] @ u ''(idempotency)''),
       rc_retryable = False\<rparr>),
     (''REQ-4010'',
      \<lparr>rc_code = ''REQ-4010'', rc_http_status = 401, rc_verdict = ERROR,
       rc_system_message = ''HMAC signature mismatch'',
       rc_user_message_template =
         [50836, 52397, 32, 51064, 51613, 50640, 32, 49892, 54056, 54664, 49845, 45768, 45796] @
         u ''.'',
       rc_developer_message_template = Some
         (u ''X-Signature '' @ [54756, 45908, 44032, 32, 49436, 48260, 32, 44228, 49328, 44050,
          44284, 32, 51068, 52824, 54616, 51648, 32, 50506, 49845, 45768, 45796] @ u ''. body '' @
          [51649, 47148, 54868, 32, 48169, 49885] @ u ''(JSON canonical form)'' @ [44284, 32] @
          u ''timestamp '' @ [54252, 54632, 32, 50668, 48512, 47484, 32, 54869, 51064, 54616,
          49464, 50836] @ u ''.''),
       rc_retryable = False\<rparr>),
     (''REQ-4011'',
      \<lparr>rc_code = ''REQ-4011'', rc_http_status = 401, rc_verdict = ERROR,
       rc_system_message = ''API key missing or invalid'',
       rc_user_message_template =
         [50836, 52397, 32, 51064, 51613, 50640, 32, 49892, 54056, 54664, 49845, 45768, 45796] @
         u ''.'',
       rc_developer_message_template = Some
         (u ''X-API-Key '' @ [54756, 45908, 32, 45572, 46973, 32, 46608, 45716, 32, 47924, 54952]),
       rc_retryable = False\<rparr>),
     (''REQ-4012'',
      \<lparr>rc_code = ''REQ-4012'', rc_http_status = 401, rc_verdict = ERROR,
       rc_system_message = ''Timestamp out of window'',
       rc_user_message_template =
         [50836, 52397, 32, 49884, 44033, 51060, 32, 50976, 54952, 32, 48276, 50948, 47484, 32,
         48279, 50612, 45228, 49845, 45768, 45796] @ u ''.'',
       rc_developer_message_template = Some
         (u ''timestamp '' @ [50952, 46020, 50864, 32, 177] @ u ''5'' @ [48516, 32, 52488, 44284]),
       rc_retryable = False\<rparr>),
     (''REQ-4013'',
      \<lparr>rc_code = ''REQ-4013'', rc_http_status = 401, rc_verdict = ERROR,
       rc_system_message = ''Replay suspected'',
       rc_user_message_template =
         [51473, 48373, 32, 50836, 52397, 51060, 32, 44048, 51648, 46104, 50632, 49845, 45768,
         45796] @ u ''.'',
       rc_developer_message_template = Some
         ([46041, 51068, 32] @ u ''(timestamp, nonce) '' @ [51116, 51204, 49569]),
       rc_retryable = False\<rparr>),
     (''REQ-4014'',
      \<lparr>rc_code = ''REQ-4014'', rc_http_status = 403, rc_verdict = ERROR,
       rc_system_message = ''API key revoked'',
       rc_user_message_template =
         [50836, 52397, 32, 44428, 54620, 51060, 32, 50630, 49845, 45768, 45796] @ u ''.'',
       rc_developer_message_template = Some
         (u ''API Key'' @ [44032, 32, 48708, 54876, 49457, 32, 49345, 53468]),
       rc_retryable = False\<rparr>),
     (''REQ-4015'',
      \<lparr>rc_code = ''REQ-4015'', rc_http_status = 403, rc_verdict = ERROR,
       rc_system_message = ''IP not in allowlist'',
       rc_user_message_template =
         [50836, 52397, 32, 44428, 54620, 51060, 32, 50630, 49845, 45768, 45796] @ u ''.'',
       rc_developer_message_template = Some
         (u ''IP {ip}'' @ [45716, 32, 54728, 50857, 32, 47785, 47197, 50640, 32, 50630, 51020]),
       rc_retryable = False\<rparr>),
     (''REQ-4020'',
      \<lparr>rc_code = ''REQ-4020'', rc_http_status = 429, rc_verdict = ERROR,
       rc_system_message = ''Rate limit exceeded'',
       rc_user_message_template =
         [50836, 52397, 51060, 32, 45320, 47924, 32, 47566, 49845, 45768, 45796] @ u ''. '' @
         [51104, 49884, 32, 54980, 32, 45796, 49884, 32, 49884, 46020, 54644, 51452, 49464, 50836]
         @ u ''.'',
       rc_developer_message_template = Some
         (u ''rate limit exceeded for this caller''),
       rc_retryable = False\<rparr>),
     (''REQ-4030'',
      \<lparr>rc_code = ''REQ-4030'', rc_http_status = 413, rc_verdict = ERROR,
       rc_system_message = ''Body too long'',
       rc_user_message_template =
         [48376, 47928, 51060, 32, 45320, 47924, 32, 44609, 45768, 45796] @ u ''. '' @ [44600,
         51060, 47484, 32, 51460, 50668, 32, 51452, 49464, 50836] @ u ''.'',
       rc_developer_message_template = Some
         (u ''post body exceeds maximum length''),
       rc_retryable = False\<rparr>),
     (''REQ-4031'',
      \<lparr>rc_code = ''REQ-4031'', rc_http_status = 413, rc_verdict = ERROR,
       rc_system_message = ''Attachment too large'',
       rc_user_message_template =
         [52392, 48512, 54028, 51068, 32, 39] @ u ''{filename}'' @ [39, 51032, 32, 53356, 44592,
         44032, 32, 45320, 47924, 32, 53373, 45768, 45796] @ u ''.'',
       rc_developer_message_template = Some
         (u ''attachment size exceeds maximum''),
       rc_retryable = False\<rparr>),
     (''REQ-4032'',
      \<lparr>rc_code = ''REQ-4032'', rc_http_status = 400, rc_verdict = ERROR,
       rc_system_message = ''Too many attachments'',
       rc_user_message_template =
         [52392, 48512, 54028, 51068, 32, 44060, 49688, 44032, 32, 45320, 47924, 32, 47566, 49845,
         45768, 45796] @ u ''.'',
       rc_developer_message_template = Some
         (u ''too many attachments in request''),
       rc_retryable = False\<rparr>)]"

definition REQ_CODES_B :: "(string \<times> response_code) list" where
  "REQ_CODES_B =
    [
     (''REQ-4033'',
      \<lparr>rc_code = ''REQ-4033'', rc_http_status = 415, rc_verdict = ERROR,
       rc_system_message = ''Unsupported attachment type'',
       rc_user_message_template =
         [52392, 48512, 54028, 51068, 32, 39] @ u ''{filename}'' @ [39, 51032, 32, 54805, 49885,
         51008, 32, 44160, 49324, 44032, 32, 51648, 50896, 46104, 51648, 32, 50506, 49845, 45768,
         45796] @ u ''.'',
       rc_developer_message_template = Some
         (u ''mime_type {mime_type} '' @ [48120, 51648, 50896]),
       rc_retryable = False\<rparr>),
     (''REQ-4034'',
      \<lparr>rc_code = ''REQ-4034'', rc_http_status = 403, rc_verdict = ERROR,
       rc_system_message = ''HWP/HWPX restricted to allowlisted authors'',
       rc_user_message_template =
         [54620, 44544] @ u ''(.hwp/.hwpx) '' @ [54028, 51068, 32, 39] @ u ''{filename}'' @ [39,
         32, 51008] @ u ''('' @ [45716] @ u '') '' @ [46321, 47197, 46108, 32, 51089, 49457,
         51088, 47564, 32, 52392, 48512, 54624, 32, 49688, 32, 51080, 49845, 45768, 45796] @
         u ''.'',
       rc_developer_message_template = Some
         (u ''hwp attachment from non-exception ip '' @ [8212, 32] @
          u ''author={author_ip}, mime={mime_type}. Linux runtime cannot parse hwp/hwpx (pyhwpx is Windows-only); only exception-ip authors who skip PII analysis may attach these formats.''),
       rc_retryable = False\<rparr>),
     (''REQ-4035'',
      \<lparr>rc_code = ''REQ-4035'', rc_http_status = 415, rc_verdict = ERROR,
       rc_system_message = ''Attachment format is on the deny list'',
       rc_user_message_template =
         [52392, 48512, 54028, 51068, 32, 39] @ u ''{filename}'' @ [39, 32, 51032, 32, 54805,
         49885] @ u ''({reason})'' @ [51008, 32, 46321, 47197, 54624, 32, 49688, 32, 50630, 49845,
         45768, 45796] @ u ''.'',
       rc_developer_message_template = Some
         (u ''attachment format blocked '' @ [8212, 32] @
          u ''filename={filename}, mime={mime_type}, match={match_kind}, reason={reason}''),
       rc_retryable = False\<rparr>),
     (''REQ-4040'',
      \<lparr>rc_code = ''REQ-4040'', rc_http_status = 422, rc_verdict = ERROR,
       rc_system_message = ''Attachment fetch failed'',
       rc_user_message_template =
         [52392, 48512, 54028, 51068, 32, 39] @ u ''{filename}'' @ [39, 51012, 32, 44032, 51256,
         50732, 32, 49688, 32, 50630, 49845, 45768, 45796] @ u ''.'',
       rc_developer_message_template = Some
         (u ''fetch_url HTTP {status}''),
       rc_retryable = False\<rparr>),
     (''REQ-4041'',
      \<lparr>rc_code = ''REQ-4041'', rc_http_status = 422, rc_verdict = ERROR,
       rc_system_message = ''Attachment SHA256 mismatch'',
       rc_user_message_template =
         [52392, 48512, 54028, 51068, 32, 39] @ u ''{filename}'' @ [39, 51032, 32, 47924, 44208,
         49457, 32, 44160, 51613, 50640, 32, 49892, 54056, 54664, 49845, 45768, 45796] @ u ''.'',
       rc_developer_message_template = Some
         (u ''sha256 mismatch''),
       rc_retryable = False\<rparr>),
     (''REQ-4042'',
      \<lparr>rc_code = ''REQ-4042'', rc_http_status = 422, rc_verdict = ERROR,
       rc_system_message = ''Attachment corrupted'',
       rc_user_message_template =
         [52392, 48512, 54028, 51068, 32, 39] @ u ''{filename}'' @ [39, 51060, 32, 49552, 49345,
         46104, 50612, 32, 44160, 49324, 54624, 32, 49688, 32, 50630, 49845, 45768, 45796] @
         u ''.'',
       rc_developer_message_template = Some
         ([54028, 49436, 32, 50696, 50808] @ u '': {detail}''),
       rc_retryable = False\<rparr>),
     (''REQ-4043'',
      \<lparr>rc_code = ''REQ-4043'', rc_http_status = 422, rc_verdict = ERROR,
       rc_system_message = ''PDF page count exceeded'',
       rc_user_message_template =
         [52392, 48512, 54028, 51068, 32, 39] @ u ''{filename}'' @ [39, 51032, 32, 54168, 51060,
         51648, 32, 49688, 44032, 32, 45320, 47924, 32, 47566, 49845, 45768, 45796] @ u ''. ('' @
         [52572, 45824, 32] @ u ''{limit}'' @ [54168, 51060, 51648] @ u '')'',
       rc_developer_message_template = Some
         (u ''page count {n} > {limit}''),
       rc_retryable = False\<rparr>),
     (''REQ-4050'',
      \<lparr>rc_code = ''REQ-4050'', rc_http_status = 422, rc_verdict = ERROR,
       rc_system_message = ''Malware detected'',
       rc_user_message_template =
         [52392, 48512, 54028, 51068, 32, 39] @ u ''{filename}'' @ [39, 50640, 49436, 32, 48372,
         50504, 32, 50948, 54801, 51060, 32, 48156, 44204, 46104, 50612, 32, 44160, 49324, 47484,
         32, 51473, 45800, 54664, 49845, 45768, 45796] @ u ''.'',
       rc_developer_message_template = Some
         (u ''ClamAV: {signature}''),
       rc_retryable = False\<rparr>),
     (''REQ-4051'',
      \<lparr>rc_code = ''REQ-4051'', rc_http_status = 422, rc_verdict = ERROR,
       rc_system_message = ''Encrypted/password-protected file'',
       rc_user_message_template =
         [50516, 54840, 44032, 32, 44152, 47536, 32, 52392, 48512, 54028, 51068, 32, 39] @
         u ''{filename}'' @ [39, 51008, 32, 44160, 49324, 54624, 32, 49688, 32, 50630, 49845,
         45768, 45796] @ u ''.'',
       rc_developer_message_template = Some
         ([50516, 54840, 32, 48372, 54840, 32] @ u ''PDF/'' @ [47928, 49436]),
       rc_retryable = False\<rparr>)]"

subsection \<open>SVR (server errors)\<close>

definition SVR_CODES :: "(string \<times> response_code) list" where
  "SVR_CODES =
    [
     (''SVR-5001'',
      \<lparr>rc_code = ''SVR-5001'', rc_http_status = 500, rc_verdict = ERROR,
       rc_system_message = ''Internal analyzer error'',
       rc_user_message_template =
         [44160, 49324, 32, 51473, 32, 51068, 49884, 51201, 32, 50724, 47448, 44032, 32, 48156,
         49373, 54664, 49845, 45768, 45796] @ u ''. '' @ [51104, 49884, 32, 54980, 32, 45796,
         49884, 32, 49884, 46020, 54644, 51452, 49464, 50836] @ u ''.'',
       rc_developer_message_template = None,
       rc_retryable = True\<rparr>),
     (''SVR-5002'',
      \<lparr>rc_code = ''SVR-5002'', rc_http_status = 503, rc_verdict = ERROR,
       rc_system_message = ''Analyzer not ready'',
       rc_user_message_template =
         [44160, 49324, 32, 49436, 48708, 49828, 44032, 32, 51456, 48708, 32, 51473, 51077, 45768,
         45796] @ u ''. '' @ [51104, 49884, 32, 54980, 32, 45796, 49884, 32, 49884, 46020, 54644,
         51452, 49464, 50836] @ u ''.'',
       rc_developer_message_template = None,
       rc_retryable = True\<rparr>),
     (''SVR-5003'',
      \<lparr>rc_code = ''SVR-5003'', rc_http_status = 503, rc_verdict = ERROR,
       rc_system_message = ''Database unavailable'',
       rc_user_message_template =
         [44160, 49324, 32, 49436, 48708, 49828, 32, 51068, 49884, 32, 51109, 50528] @ u ''. '' @
         [51104, 49884, 32, 54980, 32, 45796, 49884, 32, 49884, 46020, 54644, 51452, 49464, 50836]
         @ u ''.'',
       rc_developer_message_template = None,
       rc_retryable = True\<rparr>),
     (''SVR-5004'',
      \<lparr>rc_code = ''SVR-5004'', rc_http_status = 503, rc_verdict = ERROR,
       rc_system_message = ''OCR worker down'',
       rc_user_message_template =
         [51060, 48120, 51648, 32, 44160, 49324, 44032, 32, 51068, 49884, 32, 48520, 44032, 54633,
         45768, 45796] @ u ''. '' @ [53581, 49828, 53944, 47564, 32, 44172, 49884, 54616, 44144,
         45208, 32, 51104, 49884, 32, 54980, 32, 45796, 49884, 32, 49884, 46020, 54644, 51452,
         49464, 50836] @ u ''.'',
       rc_developer_message_template = None,
       rc_retryable = True\<rparr>),
     (''SVR-5005'',
      \<lparr>rc_code = ''SVR-5005'', rc_http_status = 503, rc_verdict = ERROR,
       rc_system_message = ''Queue saturated'',
       rc_user_message_template =
         [54788, 51116, 32, 52376, 47532, 47049, 51060, 32, 54620, 44228, 50640, 32, 46020, 45804,
         54664, 49845, 45768, 45796] @ u ''. '' @ [51104, 49884, 32, 54980, 32, 45796, 49884, 32,
         49884, 46020, 54644, 51452, 49464, 50836] @ u ''.'',
       rc_developer_message_template = None,
       rc_retryable = True\<rparr>),
     (''SVR-5006'',
      \<lparr>rc_code = ''SVR-5006'', rc_http_status = 504, rc_verdict = ERROR,
       rc_system_message = ''Processing timeout'',
       rc_user_message_template =
         [44160, 49324, 32, 49884, 44036, 51060, 32, 52488, 44284, 46104, 50632, 49845, 45768,
         45796] @ u ''. '' @ [52392, 48512, 54028, 51068, 32, 53356, 44592, 47484, 32, 51460,
         51060, 44144, 45208, 32, 51104, 49884, 32, 54980, 32, 45796, 49884, 32, 49884, 46020,
         54644, 51452, 49464, 50836] @ u ''.'',
       rc_developer_message_template = None,
       rc_retryable = True\<rparr>),
     (''SVR-5099'',
      \<lparr>rc_code = ''SVR-5099'', rc_http_status = 500, rc_verdict = ERROR,
       rc_system_message = ''Uncategorized internal error'',
       rc_user_message_template =
         [51068, 49884, 51201, 32, 50724, 47448, 44032, 32, 48156, 49373, 54664, 49845, 45768,
         45796] @ u ''. '' @ [47928, 51228, 44032, 32, 51648, 49549, 46104, 47732, 32, 44288,
         47532, 51088, 50640, 44172, 32, 47928, 51032, 54644, 51452, 49464, 50836] @ u ''.'',
       rc_developer_message_template = None,
       rc_retryable = False\<rparr>)]"

subsection \<open>Master registry\<close>

definition CODES :: "(string \<times> response_code) list" where
  "CODES = PASS_CODES @ WARN_CODES @ BLOCK_CODES @ ACK_CODES @ (REQ_CODES_A @ REQ_CODES_B) @ SVR_CODES"

definition get_code :: "string \<Rightarrow> exn + response_code" where
  "get_code code = (case map_of CODES code of None \<Rightarrow> Inl KeyError | Some rc \<Rightarrow> Inr rc)"

definition FALLBACK_BLOCK :: string where "FALLBACK_BLOCK = ''BLOCK-2099''"

definition FALLBACK_WARN :: string where "FALLBACK_WARN = ''WARN-1099''"

definition FALLBACK_PASS :: string where "FALLBACK_PASS = ''OK-0000''"

section \<open>Lookup\<close>

lemmas catalogue_defs =
  CODES_def PASS_CODES_def WARN_CODES_def BLOCK_CODES_def ACK_CODES_def REQ_CODES_A_def
  REQ_CODES_B_def SVR_CODES_def

lemma CODES_keys: "map fst CODES =
  [''OK-0000'', ''OK-0001'', ''WARN-1001'', ''WARN-1002'', ''WARN-1003'', ''WARN-1004'',
   ''WARN-1005'', ''WARN-1099'', ''WARN-1010'', ''BLOCK-2001'', ''BLOCK-2002'', ''BLOCK-2003'',
   ''BLOCK-2004'', ''BLOCK-2005'', ''BLOCK-2006'', ''BLOCK-2007'', ''BLOCK-2008'',
   ''BLOCK-2010'', ''BLOCK-2011'', ''BLOCK-2012'', ''BLOCK-2099'', ''ACK-3001'', ''ACK-3002'',
   ''ACK-3010'', ''REQ-4001'', ''REQ-4002'', ''REQ-4003'', ''REQ-4004'', ''REQ-4005'',
   ''REQ-4010'', ''REQ-4011'', ''REQ-4012'', ''REQ-4013'', ''REQ-4014'', ''REQ-4015'',
   ''REQ-4020'', ''REQ-4030'', ''REQ-4031'', ''REQ-4032'', ''REQ-4033'', ''REQ-4034'',
   ''REQ-4035'', ''REQ-4040'', ''REQ-4041'', ''REQ-4042'', ''REQ-4043'', ''REQ-4050'',
   ''REQ-4051'', ''SVR-5001'', ''SVR-5002'', ''SVR-5003'', ''SVR-5004'', ''SVR-5005'',
   ''SVR-5006'', ''SVR-5099'']"
  by (simp add: catalogue_defs)

lemma distinct_CODES: "distinct (map fst CODES)"
  unfolding CODES_keys by simp

lemma get_code_eq_Inr_iff: "get_code c = Inr rc \<longleftrightarrow> (c, rc) \<in> set CODES"
  by (auto simp: get_code_def map_of_eq_Some_iff [OF distinct_CODES, symmetric] split: option.splits)

lemma get_code_known_iff: "(\<exists>rc. get_code c = Inr rc) \<longleftrightarrow> c \<in> set (map fst CODES)"
  by (force simp: get_code_eq_Inr_iff)

text \<open>The catalogue folded to the fields the decision logic reads: verdict and HTTP status.\<close>

definition code_summary :: "response_code \<Rightarrow> string \<times> verdict \<times> nat" where
  "code_summary rc = (rc_code rc, rc_verdict rc, rc_http_status rc)"

lemma CODES_summary: "map (\<lambda>(k, rc). (k, code_summary rc)) CODES =
  [(''OK-0000'', ''OK-0000'', PASS, 200), (''OK-0001'', ''OK-0001'', PASS, 200),
   (''WARN-1001'', ''WARN-1001'', WARN, 200), (''WARN-1002'', ''WARN-1002'', WARN, 200),
   (''WARN-1003'', ''WARN-1003'', WARN, 200), (''WARN-1004'', ''WARN-1004'', WARN, 200),
   (''WARN-1005'', ''WARN-1005'', WARN, 200), (''WARN-1099'', ''WARN-1099'', WARN, 200),
   (''WARN-1010'', ''WARN-1010'', WARN, 200), (''BLOCK-2001'', ''BLOCK-2001'', BLOCK, 200),
   (''BLOCK-2002'', ''BLOCK-2002'', BLOCK, 200), (''BLOCK-2003'', ''BLOCK-2003'', BLOCK, 200),
   (''BLOCK-2004'', ''BLOCK-2004'', BLOCK, 200), (''BLOCK-2005'', ''BLOCK-2005'', BLOCK, 200),
   (''BLOCK-2006'', ''BLOCK-2006'', BLOCK, 200), (''BLOCK-2007'', ''BLOCK-2007'', BLOCK, 200),
   (''BLOCK-2008'', ''BLOCK-2008'', BLOCK, 200), (''BLOCK-2010'', ''BLOCK-2010'', BLOCK, 200),
   (''BLOCK-2011'', ''BLOCK-2011'', BLOCK, 200), (''BLOCK-2012'', ''BLOCK-2012'', BLOCK, 200),
   (''BLOCK-2099'', ''BLOCK-2099'', BLOCK, 200), (''ACK-3001'', ''ACK-3001'', PROCESSING, 202),
   (''ACK-3002'', ''ACK-3002'', PROCESSING, 202),
   (''ACK-3010'', ''ACK-3010'', PROCESSING, 202), (''REQ-4001'', ''REQ-4001'', ERROR, 400),
   (''REQ-4002'', ''REQ-4002'', ERROR, 400), (''REQ-4003'', ''REQ-4003'', ERROR, 400),
   (''REQ-4004'', ''REQ-4004'', ERROR, 400), (''REQ-4005'', ''REQ-4005'', ERROR, 400),
   (''REQ-4010'', ''REQ-4010'', ERROR, 401), (''REQ-4011'', ''REQ-4011'', ERROR, 401),
   (''REQ-4012'', ''REQ-4012'', ERROR, 401), (''REQ-4013'', ''REQ-4013'', ERROR, 401),
   (''REQ-4014'', ''REQ-4014'', ERROR, 403), (''REQ-4015'', ''REQ-4015'', ERROR, 403),
   (''REQ-4020'', ''REQ-4020'', ERROR, 429), (''REQ-4030'', ''REQ-4030'', ERROR, 413),
   (''REQ-4031'', ''REQ-4031'', ERROR, 413), (''REQ-4032'', ''REQ-4032'', ERROR, 400),
   (''REQ-4033'', ''REQ-4033'', ERROR, 415), (''REQ-4034'', ''REQ-4034'', ERROR, 403),
   (''REQ-4035'', ''REQ-4035'', ERROR, 415), (''REQ-4040'', ''REQ-4040'', ERROR, 422),
   (''REQ-4041'', ''REQ-4041'', ERROR, 422), (''REQ-4042'', ''REQ-4042'', ERROR, 422),
   (''REQ-4043'', ''REQ-4043'', ERROR, 422), (''REQ-4050'', ''REQ-4050'', ERROR, 422),
   (''REQ-4051'', ''REQ-4051'', ERROR, 422), (''SVR-5001'', ''SVR-5001'', ERROR, 500),
   (''SVR-5002'', ''SVR-5002'', ERROR, 503), (''SVR-5003'', ''SVR-5003'', ERROR, 503),
   (''SVR-5004'', ''SVR-5004'', ERROR, 503), (''SVR-5005'', ''SVR-5005'', ERROR, 503),
   (''SVR-5006'', ''SVR-5006'', ERROR, 504), (''SVR-5099'', ''SVR-5099'', ERROR, 500)]"
  by (simp add: catalogue_defs code_summary_def)

text \<open>The verdict and the HTTP status behind a code.\<close>

definition code_verdict :: "string \<Rightarrow> verdict option" where
  "code_verdict c = (case get_code c of Inl e \<Rightarrow> None | Inr rc \<Rightarrow> Some (rc_verdict rc))"

definition code_status :: "string \<Rightarrow> nat option" where
  "code_status c = (case get_code c of Inl e \<Rightarrow> None | Inr rc \<Rightarrow> Some (rc_http_status rc))"

lemma code_summary_all:
  "list_all (\<lambda>(k, k', v, h). code_verdict k = Some v \<and> code_status k = Some h)
     (map (\<lambda>(k, rc). (k, code_summary rc)) CODES)"
proof -
  have "code_verdict k = Some (rc_verdict rc) \<and> code_status k = Some (rc_http_status rc)"
    if "(k, rc) \<in> set CODES" for k rc
  proof -
    from that have "get_code k = Inr rc" by (simp add: get_code_eq_Inr_iff)
    then show ?thesis by (simp add: code_verdict_def code_status_def)
  qed
  then show ?thesis
    by (fastforce simp: list_all_iff code_summary_def)
qed

text \<open>One rewrite rule per code of the catalogue.\<close>

lemmas code_lookup [simp] =
  code_summary_all [unfolded CODES_summary list.pred_inject prod.case simp_thms]

lemma get_code_verdict: "get_code c = Inr rc \<Longrightarrow> code_verdict c = Some (rc_verdict rc)"
  by (simp add: code_verdict_def)

lemma get_code_status: "get_code c = Inr rc \<Longrightarrow> code_status c = Some (rc_http_status rc)"
  by (simp add: code_status_def)

lemma code_verdictE:
  assumes "code_verdict c = Some v"
  obtains rc where "get_code c = Inr rc" "rc_verdict rc = v"
  using assms by (auto simp: code_verdict_def split: sum.splits)

lemma get_code_rc_code: "get_code c = Inr rc \<Longrightarrow> rc_code rc = c"
proof -
  assume "get_code c = Inr rc"
  then have "(c, rc_code rc) \<in> set (map (\<lambda>(k, s). (k, fst s)) (map (\<lambda>(k, rc). (k, code_summary rc)) CODES))"
    by (force simp: get_code_eq_Inr_iff code_summary_def)
  then show ?thesis
    unfolding CODES_summary by auto
qed

section \<open>The catalogue's promises\<close>

text \<open>
  The table of the module comment: the category of a code determines its verdict and its HTTP
  status, and only errors carry a developer message or are worth retrying.
\<close>

definition category_ok :: "response_code \<Rightarrow> bool" where
  "category_ok rc =
     (let c = rc_code rc; h = rc_http_status rc; v = rc_verdict rc in
      (starts_with c ''OK-'' \<and> v = PASS \<and> h = 200 \<or>
       starts_with c ''WARN-'' \<and> v = WARN \<and> h = 200 \<or>
       starts_with c ''BLOCK-'' \<and> v = BLOCK \<and> h = 200 \<or>
       starts_with c ''ACK-'' \<and> v = PROCESSING \<and> h = 202 \<or>
       starts_with c ''REQ-'' \<and> v = ERROR \<and> 400 \<le> h \<and> h < 500 \<or>
       starts_with c ''SVR-'' \<and> v = ERROR \<and> 500 \<le> h \<and> h < 600) \<and>
      (rc_developer_message_template rc \<noteq> None \<longrightarrow> starts_with c ''REQ-'') \<and>
      (rc_retryable rc \<longrightarrow> starts_with c ''SVR-''))"

lemma category_ok_parts:
  "list_all (category_ok \<circ> snd) PASS_CODES" "list_all (category_ok \<circ> snd) WARN_CODES"
  "list_all (category_ok \<circ> snd) BLOCK_CODES" "list_all (category_ok \<circ> snd) ACK_CODES"
  "list_all (category_ok \<circ> snd) REQ_CODES_A" "list_all (category_ok \<circ> snd) REQ_CODES_B"
  "list_all (category_ok \<circ> snd) SVR_CODES"
  by (simp_all add: PASS_CODES_def WARN_CODES_def BLOCK_CODES_def ACK_CODES_def REQ_CODES_A_def
        REQ_CODES_B_def SVR_CODES_def category_ok_def)

lemma category_ok_CODES: "(c, rc) \<in> set CODES \<Longrightarrow> category_ok rc"
  using category_ok_parts by (auto simp: CODES_def list_all_iff)

text \<open>
  A code that the registry knows is the one its entry names, and its category prefix determines
  what the caller sees: OK, WARN and BLOCK answer 200 with the verdict of the same name, ACK answers
  202 while processing, REQ answers a 4xx error and SVR a 5xx error; only client errors carry a
  developer message and only server errors are marked retryable.
\<close>

theorem catalogue_categories:
  assumes "get_code c = Inr rc"
  shows "rc_code rc = c \<and> category_ok rc"
  using assms get_code_rc_code category_ok_CODES by (auto simp: get_code_eq_Inr_iff)

theorem catalogue_categories_witness:
  "\<exists>rc. get_code ''ACK-3001'' = Inr rc \<and> rc_code rc = ''ACK-3001'' \<and> category_ok rc"
proof -
  obtain rc where rc: "get_code ''ACK-3001'' = Inr rc" "rc_verdict rc = PROCESSING"
    by (rule code_verdictE [of "''ACK-3001''" PROCESSING]) simp_all
  with catalogue_categories [OF rc(1)] show ?thesis by blast
qed

end
