(* ===== verification/Responses.thy ===== *)
theory Responses
  imports Py_Unicode Codes
begin

text \<open>
  \<^verbatim>\<open>app/core/entity_labels.py\<close> and \<^verbatim>\<open>app/api/responses.py\<close>, with the response models of
  \<^verbatim>\<open>app/api/schemas.py\<close>: Korean labels for entity types, rendering of message templates through
  \<^verbatim>\<open>str.format\<close>, the response builder and the static safety check of user messages.  The lemmas
  show that building a response for a catalogued code never raises, and that a user message never
  names a detector or an internal entity code.
\<close>

section \<open>Response models\<close>

type_synonym uuid = nat

record detection =
  d_field :: ustr
  d_entity_type :: string
  d_code :: string
  d_score :: rat
  d_start :: "nat option"
  d_end :: "nat option"
  d_masked_preview :: "ustr option"

record job_info =
  ji_job_id :: ustr
  ji_status_url :: ustr
  ji_estimated_completion_seconds :: nat
  ji_attachment_count :: nat

record body_result =
  br_verdict :: verdict
  br_code :: string
  br_detections :: "detection list"

record detect_response =
  r_request_id :: uuid
  r_verdict :: verdict
  r_code :: string
  r_system_message :: string
  r_user_message :: ustr
  r_developer_message :: "ustr option"
  r_detections :: "detection list"
  r_body_result :: "body_result option"
  r_job :: "job_info option"
  r_processed_at :: rat
  r_processing_ms :: int

text \<open>The model rejects a score outside the unit interval.\<close>

definition mk_detection ::
  "ustr \<Rightarrow> string \<Rightarrow> string \<Rightarrow> rat \<Rightarrow> nat option \<Rightarrow> nat option \<Rightarrow> exn + detection" where
  "mk_detection field entity_type code score st en =
     (if 0 \<le> score \<and> score \<le> 1 then
        Inr \<lparr>d_field = field, d_entity_type = entity_type, d_code = code, d_score = score,
             d_start = st, d_end = en, d_masked_preview = None\<rparr>
      else Inl ValueError)"

section \<open>Labels\<close>

definition ENTITY_LABELS_KR :: "(string \<times> ustr) list" where
  "ENTITY_LABELS_KR =
    [
     (''KR_RRN'', [51452, 48124, 46321, 47197, 48264, 54840]),
     (''KR_DRIVERLICENSE'', [50868, 51204, 47732, 54728, 48264, 54840]),
     (''KR_PASSPORT'', [50668, 44428, 48264, 54840]),
     (''KR_PHONE'', [51204, 54868, 48264, 54840]),
     (''KR_BUSINESS_NUM'', [49324, 50629, 51088, 46321, 47197, 48264, 54840]),
     (''KR_BANK_ACCOUNT'', [44228, 51340, 48264, 54840]),
     (''KR_BANK_ACCOUNT_WEAK'', [44228, 51340, 48264, 54840]),
     (''EMAIL_ADDRESS'', [51060, 47700, 51068]),
     (''CREDIT_CARD'', [49888, 50857, 52852, 46300, 48264, 54840]),
     (''PERSON'', [51060, 47492]),
     (''LOCATION'', [51452, 49548]),
     (''INTERNAL_NAME'', [44592, 44288, 32, 51076, 51649, 50896, 32, 51221, 48372])]"

definition FALLBACK_LABEL :: ustr where
  "FALLBACK_LABEL = [44060, 51064, 51221, 48372]"

definition label_for :: "string \<Rightarrow> ustr" where
  "label_for entity_type =
     (case map_of ENTITY_LABELS_KR entity_type of Some l \<Rightarrow> l | None \<Rightarrow> FALLBACK_LABEL)"

text \<open>The comma-joined labels of the detected kinds, each once, in order of first appearance.\<close>

definition detected_summary_kr :: "detection list \<Rightarrow> ustr" where
  "detected_summary_kr dets = join (u '', '') (dedup {} (map (label_for \<circ> d_entity_type) dets))"

section \<open>Template rendering\<close>

text \<open>
  \<^verbatim>\<open>template.format(**vars)\<close> for templates whose replacement fields are plain names, which is all
  the catalogue has: doubled braces are literal, a positional field is an \<open>IndexError\<close>, an unknown
  name a \<open>KeyError\<close>, an unbalanced brace a \<open>ValueError\<close>; errors surface left to right.
\<close>

definition field_value :: "(string \<times> ustr) list \<Rightarrow> ustr \<Rightarrow> exn + ustr" where
  "field_value vars name =
     (if list_all (\<lambda>c. 48 \<le> c \<and> c \<le> 57) name then Inl IndexError
      else case find (\<lambda>(k, v). u k = name) vars of None \<Rightarrow> Inl KeyError | Some (k, v) \<Rightarrow> Inr v)"

function py_format :: "(string \<times> ustr) list \<Rightarrow> ustr \<Rightarrow> exn + ustr" where
  "py_format vars [] = Inr []"
| "py_format vars (c # s) =
     (if c = 123 then
        (if s = [] then Inl ValueError
         else if hd s = 123 then map_sum id (Cons 123) (py_format vars (tl s))
         else if dropWhile (\<lambda>x. x \<noteq> 125) s = [] then Inl ValueError
         else case field_value vars (takeWhile (\<lambda>x. x \<noteq> 125) s) of
                Inl e \<Rightarrow> Inl e
              | Inr v \<Rightarrow> map_sum id ((@) v) (py_format vars (tl (dropWhile (\<lambda>x. x \<noteq> 125) s))))
      else if c = 125 then
        (if s \<noteq> [] \<and> hd s = 125 then map_sum id (Cons 125) (py_format vars (tl s))
         else Inl ValueError)
      else map_sum id (Cons c) (py_format vars s))"
  by pat_completeness auto
termination
proof (relation "measure (\<lambda>(vars, s). length s)")
  fix c :: nat and s :: ustr and vars :: "(string \<times> ustr) list"
  have "length (dropWhile (\<lambda>x. x \<noteq> 125) s) \<le> length s"
    by (rule length_dropWhile_le)
  then show "((vars, tl (dropWhile (\<lambda>x. x \<noteq> 125) s)), (vars, c # s)) \<in> measure (\<lambda>(vars, s). length s)"
    by simp
qed auto

definition render :: "ustr option \<Rightarrow> (string \<times> ustr) list \<Rightarrow> exn + ustr option" where
  "render template vars =
     (case template of
        None \<Rightarrow> Inr None
      | Some t \<Rightarrow>
          (case py_format vars t of
             Inr s \<Rightarrow> Inr (Some s)
           | Inl e \<Rightarrow> if e = KeyError \<or> e = IndexError then Inr (Some t) else Inl e))"

section \<open>The builder\<close>

definition SUMMARY_PREFIX :: ustr where
  "SUMMARY_PREFIX = [32] @ u ''('' @ [44160, 52636, 46108, 32, 54637, 47785] @ u '': ''"

definition build_response ::
  "uuid \<Rightarrow> string \<Rightarrow> detection list \<Rightarrow> int \<Rightarrow> (string \<times> ustr) list \<Rightarrow> body_result option \<Rightarrow>
     job_info option \<Rightarrow> rat \<Rightarrow> exn + detect_response" where
  "build_response request_id code detections processing_ms tv body_result job now =
     (case get_code code of Inl e \<Rightarrow> Inl e | Inr rc \<Rightarrow>
      case render (Some (rc_user_message_template rc)) tv of Inl e \<Rightarrow> Inl e | Inr um \<Rightarrow>
      (let msg0 = (case um of None \<Rightarrow> [] | Some s \<Rightarrow> s);
           summary = detected_summary_kr detections;
           msg = (if rc_verdict rc = BLOCK \<and> detections \<noteq> [] \<and> summary \<noteq> []
                  then strip (msg0 @ SUMMARY_PREFIX @ summary @ u '')'') else msg0)
       in case (if rc_verdict rc = ERROR then render (rc_developer_message_template rc) tv
                else Inr None) of
            Inl e \<Rightarrow> Inl e
          | Inr dm \<Rightarrow>
              Inr \<lparr>r_request_id = request_id, r_verdict = rc_verdict rc, r_code = rc_code rc,
                   r_system_message = rc_system_message rc, r_user_message = msg,
                   r_developer_message = dm, r_detections = detections,
                   r_body_result = body_result, r_job = job, r_processed_at = now,
                   r_processing_ms = processing_ms\<rparr>))"

section \<open>Safety check of user messages\<close>

definition FORBIDDEN_IN_USER_MESSAGE :: "string list" where
  "FORBIDDEN_IN_USER_MESSAGE =
    [''score'', ''confidence'', ''presidio'', ''spacy'', ''gliner'', ''regex'', ''KR_RRN'',
     ''KR_PHONE'', ''KR_PASSPORT'', ''KR_DRIVERLICENSE'', ''KR_BUSINESS_NUM'',
     ''KR_BANK_ACCOUNT'', ''EMAIL_ADDRESS'', ''CREDIT_CARD'', ''PERSON'', ''LOCATION'',
     ''INTERNAL_NAME'']"

definition user_message_safety_violations :: "ustr \<Rightarrow> string list" where
  "user_message_safety_violations template =
     filter (\<lambda>banned. contains (lower (u banned)) (lower template)) FORBIDDEN_IN_USER_MESSAGE"

definition audit_all_user_messages :: "(string \<times> string list) list" where
  "audit_all_user_messages =
     filter (\<lambda>(code, v). v \<noteq> [])
       (map (\<lambda>(code, rc). (code, user_message_safety_violations (rc_user_message_template rc))) CODES)"

section \<open>Rendering never fails on the catalogue\<close>

text \<open>Balanced braces, whatever the variables.\<close>

function fmt_wf :: "ustr \<Rightarrow> bool" where
  "fmt_wf [] = True"
| "fmt_wf (c # s) =
     (if c = 123 then
        s \<noteq> [] \<and>
        (if hd s = 123 then fmt_wf (tl s)
         else dropWhile (\<lambda>x. x \<noteq> 125) s \<noteq> [] \<and> fmt_wf (tl (dropWhile (\<lambda>x. x \<noteq> 125) s)))
      else if c = 125 then s \<noteq> [] \<and> hd s = 125 \<and> fmt_wf (tl s)
      else fmt_wf s)"
  by pat_completeness auto
termination
proof (relation "measure length")
  fix c :: nat and s :: ustr
  have "length (dropWhile (\<lambda>x. x \<noteq> 125) s) \<le> length s"
    by (rule length_dropWhile_le)
  then show "(tl (dropWhile (\<lambda>x. x \<noteq> 125) s), c # s) \<in> measure length"
    by simp
qed auto

lemma field_value_err: "field_value vars n = Inl e \<Longrightarrow> e = IndexError \<or> e = KeyError"
  by (auto simp: field_value_def split: if_splits option.splits)

lemma map_sum_eq_Inl_iff: "map_sum id f x = Inl e \<longleftrightarrow> x = Inl e"
  by (cases x) auto

lemma map_sum_eq_Inr_iff: "map_sum id f x = Inr y \<longleftrightarrow> (\<exists>z. x = Inr z \<and> y = f z)"
  by (cases x) auto

lemma py_format_wf: "fmt_wf t \<Longrightarrow> py_format vars t = Inl e \<Longrightarrow> e = IndexError \<or> e = KeyError"
proof (induction vars t rule: py_format.induct)
  case (1 vars)
  then show ?case by simp
next
  case (2 vars c s)
  then show ?case
    by (auto simp: map_sum_eq_Inl_iff split: if_splits sum.splits dest: field_value_err)
qed

lemma render_wf:
  assumes "case t of None \<Rightarrow> True | Some s \<Rightarrow> fmt_wf s"
  shows "\<exists>m. render t vars = Inr m"
  using assms by (auto simp: render_def split: option.splits sum.splits dest: py_format_wf)

definition templates_wf :: "response_code \<Rightarrow> bool" where
  "templates_wf rc \<longleftrightarrow> fmt_wf (rc_user_message_template rc) \<and>
     (case rc_developer_message_template rc of None \<Rightarrow> True | Some s \<Rightarrow> fmt_wf s)"

text \<open>Text without braces is balanced, so only the templates with placeholders need a look.\<close>

lemma fmt_wf_no_brace: "list_all (\<lambda>c. c \<noteq> 123 \<and> c \<noteq> 125) t \<Longrightarrow> fmt_wf t"
  by (induction t) auto

lemma templates_wf_parts:
  "list_all (templates_wf \<circ> snd) PASS_CODES" "list_all (templates_wf \<circ> snd) WARN_CODES"
  "list_all (templates_wf \<circ> snd) BLOCK_CODES" "list_all (templates_wf \<circ> snd) ACK_CODES"
  "list_all (templates_wf \<circ> snd) REQ_CODES_A" "list_all (templates_wf \<circ> snd) REQ_CODES_B"
  "list_all (templates_wf \<circ> snd) SVR_CODES"
  unfolding PASS_CODES_def WARN_CODES_def BLOCK_CODES_def ACK_CODES_def REQ_CODES_A_def
        REQ_CODES_B_def SVR_CODES_def templates_wf_def
  by (simp_all add: u_def)

lemma templates_wf_CODES: "(c, rc) \<in> set CODES \<Longrightarrow> templates_wf rc"
  using templates_wf_parts by (auto simp: CODES_def list_all_iff)

text \<open>A response built for a catalogued code: which fields it has.\<close>

lemma build_response_known:
  assumes "get_code code = Inr rc"
  shows "\<exists>r. build_response rid code dets ms tv br job now = Inr r \<and> r_request_id r = rid \<and>
           r_verdict r = rc_verdict rc \<and> r_code r = code \<and> r_detections r = dets \<and>
           r_body_result r = br \<and> r_job r = job \<and> r_processing_ms r = ms \<and>
           r_processed_at r = now \<and>
           (rc_verdict rc \<noteq> ERROR \<longrightarrow> r_developer_message r = None)"
proof -
  have wf: "templates_wf rc"
    using assms templates_wf_CODES by (simp add: get_code_eq_Inr_iff)
  obtain um where um: "render (Some (rc_user_message_template rc)) tv = Inr um"
    using render_wf [of "Some (rc_user_message_template rc)" tv] wf by (auto simp: templates_wf_def)
  obtain dm where dm: "render (rc_developer_message_template rc) tv = Inr dm"
    using render_wf [of "rc_developer_message_template rc" tv] wf by (auto simp: templates_wf_def)
  from assms um dm get_code_rc_code [OF assms] show ?thesis
    by (auto simp: build_response_def Let_def)
qed

lemma build_response_verdict:
  assumes "code_verdict code = Some v"
  obtains r where "build_response rid code dets ms tv br job now = Inr r" "r_request_id r = rid"
    "r_verdict r = v" "r_code r = code" "r_detections r = dets" "r_body_result r = br" "r_job r = job"
  using assms build_response_known [of code] by (metis code_verdictE)

lemma build_response_Inr:
  assumes "build_response rid code dets ms tv br job now = Inr r"
  shows "code_verdict code = Some (r_verdict r) \<and> r_code r = code \<and> r_detections r = dets \<and>
         r_request_id r = rid \<and> r_body_result r = br \<and> r_job r = job"
proof -
  obtain rc where rc: "get_code code = Inr rc"
    using assms by (auto simp: build_response_def split: sum.splits)
  with build_response_known [OF this, of rid dets ms tv br job now] assms show ?thesis
    by (auto simp: get_code_verdict)
qed

section \<open>User messages leak nothing internal\<close>

text \<open>
  Every forbidden word has an ASCII letter that the template does not have, and the labels have no
  ASCII letter at all; so no forbidden word can appear.
\<close>

definition letters :: "ustr \<Rightarrow> nat set" where
  "letters s = {c \<in> set (lower s). 97 \<le> c \<and> c \<le> 122}"

lemma letters_Nil [simp]: "letters [] = {}"
  by (simp add: letters_def)

lemma letters_append: "letters (s @ t) = letters s \<union> letters t"
  by (auto simp: letters_def lower_append)

lemma letters_Cons: "letters (c # s) = letters [c] \<union> letters s"
  using letters_append [of "[c]" s] by simp

lemma letters_conv: "letters s = (\<Union>c \<in> set s. letters [c])"
  by (auto simp: letters_def lower_def)

lemma letters_mono: "set s \<subseteq> set t \<Longrightarrow> letters s \<subseteq> letters t"
  by (subst (1 2) letters_conv) blast

lemma letters_strip: "letters (strip s) \<subseteq> letters s"
  by (rule letters_mono [OF set_strip])

lemma letters_hangul: "44032 \<le> c \<Longrightarrow> c \<le> 55203 \<Longrightarrow> letters [c] = {}"
  by (auto simp: letters_def lower_def lower_char_def)

lemma letters_ascii:
  "c < 128 \<Longrightarrow> letters [c] =
     (if 65 \<le> c \<and> c \<le> 90 then {c + 32} else if 97 \<le> c \<and> c \<le> 122 then {c} else {})"
  by (auto simp: letters_def lower_def lower_char_def)

lemma contains_letters: "contains (lower p) (lower s) \<Longrightarrow> letters p \<subseteq> letters s"
  by (auto simp: contains_iff letters_def)

lemma field_value_set: "field_value vars n = Inr v \<Longrightarrow> v \<in> snd ` set vars"
  by (force simp: field_value_def find_Some_split split: if_splits option.splits)

lemma set_py_format:
  "py_format vars t = Inr s \<Longrightarrow> set s \<subseteq> set t \<union> (\<Union>v \<in> snd ` set vars. set v)"
proof (induction vars t arbitrary: s rule: py_format.induct)
  case (1 vars)
  then show ?case by simp
next
  case (2 vars c x)
  have tl_sub: "set (tl y) \<subseteq> set y" for y :: ustr
    by (cases y) auto
  have tl_drop: "set (tl (dropWhile P y)) \<subseteq> set y" for P and y :: ustr
    using tl_sub set_dropWhileD by fastforce
  consider (esc) z where "c = 123" "x \<noteq> []" "hd x = 123" "py_format vars (tl x) = Inr z" "s = 123 # z"
    | (fld) v z where "c = 123" "x \<noteq> []" "hd x \<noteq> 123" "dropWhile (\<lambda>x. x \<noteq> 125) x \<noteq> []"
        "field_value vars (takeWhile (\<lambda>x. x \<noteq> 125) x) = Inr v"
        "py_format vars (tl (dropWhile (\<lambda>x. x \<noteq> 125) x)) = Inr z" "s = v @ z"
    | (esc') z where "c = 125" "x \<noteq> []" "hd x = 125" "py_format vars (tl x) = Inr z" "s = 125 # z"
    | (lit) z where "c \<noteq> 123" "c \<noteq> 125" "py_format vars x = Inr z" "s = c # z"
    using "2.prems" by (auto simp: map_sum_eq_Inr_iff split: if_splits sum.splits)
  then show ?case
  proof cases
    case esc
    with "2.IH"(1) tl_sub [of x] show ?thesis by fastforce
  next
    case fld
    with "2.IH"(2) [OF fld(1-5) fld(6)] tl_drop [of "\<lambda>x. x \<noteq> 125" x] field_value_set [OF fld(5)]
    show ?thesis by auto
  next
    case esc'
    with "2.IH"(3) tl_sub [of x] show ?thesis by fastforce
  next
    case lit
    with "2.IH"(4) show ?thesis by fastforce
  qed
qed

lemma letters_render:
  assumes "render (Some t) vars = Inr (Some s)" "\<forall>v \<in> snd ` set vars. letters v = {}"
  shows "letters s \<subseteq> letters t"
proof -
  have "set s \<subseteq> set t \<union> (\<Union>v \<in> snd ` set vars. set v)"
    using assms(1) set_py_format by (fastforce simp: render_def split: sum.splits if_splits)
  then have "letters s \<subseteq> (\<Union>c \<in> set t. letters [c]) \<union> (\<Union>v \<in> snd ` set vars. \<Union>c \<in> set v. letters [c])"
    unfolding letters_conv [of s] UN_UN_flatten [symmetric] UN_Un [symmetric]
    by (rule UN_mono) simp
  moreover have "(\<Union>v \<in> snd ` set vars. \<Union>c \<in> set v. letters [c]) = {}"
    using assms(2) unfolding letters_conv [symmetric] by blast
  ultimately show ?thesis
    unfolding letters_conv [of t] by blast
qed

text \<open>Labels and the frame around them are free of ASCII letters.\<close>

lemma label_letters: "letters (label_for et) = {}"
proof -
  have "list_all (\<lambda>(k, l). letters l = {}) ENTITY_LABELS_KR"
    by (simp add: ENTITY_LABELS_KR_def letters_Cons [of _ "_ # _"] letters_hangul letters_ascii)
  moreover have "letters FALLBACK_LABEL = {}"
    by (simp add: FALLBACK_LABEL_def letters_Cons [of _ "_ # _"] letters_hangul letters_ascii)
  ultimately show ?thesis
    by (auto simp: label_for_def list_all_iff split: option.splits dest!: map_of_SomeD)
qed

lemma letters_join: "letters (join sep ps) \<subseteq> letters sep \<union> (\<Union>p \<in> set ps. letters p)"
  by (induction sep ps rule: join.induct) (auto simp: letters_append)

lemma letters_summary: "letters (detected_summary_kr dets) = {}"
  using letters_join [of "u '', ''" "dedup {} (map (label_for \<circ> d_entity_type) dets)"]
  by (auto simp: detected_summary_kr_def set_dedup label_letters u_def letters_ascii
        letters_Cons [of _ "_ # _"])

lemma letters_frame: "letters SUMMARY_PREFIX = {}" "letters (u '')'') = {}"
  by (simp_all add: SUMMARY_PREFIX_def u_def letters_append letters_Cons [of _ "_ # _"]
        letters_hangul letters_ascii)

text \<open>
  The letters of every template of the catalogue lie in one of three small sets (those of the
  placeholders), none of which covers a forbidden word.
\<close>

definition safe_letters :: "nat set list" where
  "safe_letters = [set (u ''filenamehwpxlimit''), set (u ''eta_seconds''), set (u ''filenamereason'')]"

definition template_safe :: "response_code \<Rightarrow> bool" where
  "template_safe rc \<longleftrightarrow> (\<exists>L \<in> set safe_letters. letters (rc_user_message_template rc) \<subseteq> L)"

lemma forbidden_not_covered:
  "b \<in> set FORBIDDEN_IN_USER_MESSAGE \<Longrightarrow> L \<in> set safe_letters \<Longrightarrow> \<not> letters (u b) \<subseteq> L"
  by (auto simp: FORBIDDEN_IN_USER_MESSAGE_def safe_letters_def u_def letters_ascii
        letters_Cons [of _ "_ # _"])

lemma template_safe_parts:
  "list_all (template_safe \<circ> snd) PASS_CODES" "list_all (template_safe \<circ> snd) WARN_CODES"
  "list_all (template_safe \<circ> snd) BLOCK_CODES" "list_all (template_safe \<circ> snd) ACK_CODES"
  "list_all (template_safe \<circ> snd) REQ_CODES_A" "list_all (template_safe \<circ> snd) REQ_CODES_B"
  "list_all (template_safe \<circ> snd) SVR_CODES"
  unfolding PASS_CODES_def WARN_CODES_def BLOCK_CODES_def ACK_CODES_def REQ_CODES_A_def
        REQ_CODES_B_def SVR_CODES_def template_safe_def safe_letters_def
  by (simp_all add: u_def letters_append letters_Cons [of _ "_ # _"] letters_hangul letters_ascii)

lemma template_safe_CODES: "(c, rc) \<in> set CODES \<Longrightarrow> template_safe rc"
  using template_safe_parts by (auto simp: CODES_def list_all_iff)

lemma safe_no_violation:
  assumes "template_safe rc" "letters s \<subseteq> letters (rc_user_message_template rc)"
  shows "user_message_safety_violations s = []"
proof -
  obtain L where L: "L \<in> set safe_letters" "letters s \<subseteq> L"
    using assms by (auto simp: template_safe_def)
  have "\<not> contains (lower (u b)) (lower s)" if "b \<in> set FORBIDDEN_IN_USER_MESSAGE" for b
    using contains_letters [of "u b" s] forbidden_not_covered [OF that L(1)] L(2) by blast
  then show ?thesis
    by (simp add: user_message_safety_violations_def filter_empty_conv)
qed

text \<open>
  User messages leak nothing internal.  Whatever code the response carries, and whatever
  detections it lists, of known or unknown entity types, the user message contains no forbidden word
  (no detector name, no score, no entity code), provided the values substituted into the template
  contain no ASCII letters, as is the case for every message the detector builds about a post body;
  in particular the static audit of the catalogue is clean.
\<close>

theorem user_message_safe:
  assumes "build_response rid code dets ms tv br job now = Inr r"
    and "\<forall>v \<in> snd ` set tv. letters v = {}"
  shows "user_message_safety_violations (r_user_message r) = [] \<and> audit_all_user_messages = []"
proof
  obtain rc where rc: "get_code code = Inr rc"
    using assms(1) by (auto simp: build_response_def split: sum.splits)
  then have safe: "template_safe rc"
    using template_safe_CODES by (simp add: get_code_eq_Inr_iff)
  obtain s where s: "render (Some (rc_user_message_template rc)) tv = Inr (Some s)"
    using assms(1) rc by (auto simp: build_response_def render_def split: sum.splits if_splits)
  have "r_user_message r = s \<or>
        r_user_message r = strip (s @ SUMMARY_PREFIX @ detected_summary_kr dets @ u '')'')"
    using assms(1) rc s by (auto simp: build_response_def Let_def split: sum.splits if_splits)
  then have "letters (r_user_message r) \<subseteq> letters s"
    using letters_strip [of "s @ SUMMARY_PREFIX @ detected_summary_kr dets @ u '')''"]
    by (auto simp: letters_append letters_frame letters_summary)
  then show "user_message_safety_violations (r_user_message r) = []"
    using letters_render [OF s assms(2)] safe_no_violation [OF safe] by blast
next
  show "audit_all_user_messages = []"
    using template_safe_CODES safe_no_violation
    by (fastforce simp: audit_all_user_messages_def filter_empty_conv)
qed

theorem user_message_safe_witness:
  "\<exists>r. build_response 1 ''BLOCK-2099'' [\<lparr>d_field = u ''post.body'', d_entity_type = ''KR_RRN'',
       d_code = ''BLOCK-2001'', d_score = 1, d_start = Some 0, d_end = Some 14,
       d_masked_preview = None\<rparr>] 12 [] None None 0 = Inr r \<and>
     user_message_safety_violations (r_user_message r) = []"
proof -
  let ?d = "[\<lparr>d_field = u ''post.body'', d_entity_type = ''KR_RRN'', d_code = ''BLOCK-2001'',
       d_score = 1, d_start = Some 0, d_end = Some 14, d_masked_preview = None\<rparr>]"
  obtain r where r: "build_response 1 ''BLOCK-2099'' ?d 12 [] None None 0 = Inr r"
    by (rule build_response_verdict [of "''BLOCK-2099''" BLOCK]) simp_all
  from user_message_safe [OF r] r show ?thesis by auto
qed

end
