(* ===== verification/Ip_Allow.thy ===== *)
theory Ip_Allow
  imports Py_Unicode "HOL-Library.Word"
begin

unbundle bit_operations_syntax

text \<open>
  IP addresses and the three CIDR lists that consult them: \<^verbatim>\<open>app/security/ip_allowlist.py\<close>,
  \<^verbatim>\<open>app/core/exception_ip_cache.py\<close> and \<^verbatim>\<open>app/core/api_ip_caller_cache.py\<close>.  The part of the
  standard library's \<^verbatim>\<open>ipaddress\<close> they use is modelled in full: parsing of IPv4 and IPv6
  addresses (compression, embedded IPv4, scope ids) and of networks with a prefix length, a netmask
  or a host mask, on 32-bit and 128-bit words.  The lemmas show that membership compares the leading
  bits, that dotted decimal notation parses to the address it denotes, and, through one locale, that
  each list is searched first match first with malformed entries skipped.
\<close>

section \<open>Addresses\<close>

datatype ip_addr = V4 "32 word" | V6 "128 word"

datatype ip_net = Net4 "32 word" nat | Net6 "128 word" nat

definition ascii_digits :: "ustr \<Rightarrow> bool" where
  "ascii_digits s \<longleftrightarrow> s \<noteq> [] \<and> list_all (\<lambda>c. 48 \<le> c \<and> c \<le> 57) s"

definition int_of_digits :: "ustr \<Rightarrow> nat" where
  "int_of_digits s = foldl (\<lambda>n c. n * 10 + (c - 48)) 0 s"

text \<open>\<^verbatim>\<open>IPv4Address._parse_octet\<close>: at most three digits, no leading zero, at most 255.\<close>

definition parse_octet :: "ustr \<Rightarrow> nat option" where
  "parse_octet s =
     (if \<not> ascii_digits s then None
      else if length s > 3 then None
      else if s \<noteq> [48] \<and> hd s = 48 then None
      else if int_of_digits s > 255 then None
      else Some (int_of_digits s))"

fun parse_octets :: "ustr list \<Rightarrow> 32 word option" where
  "parse_octets [a, b, c, d] =
     (case (parse_octet a, parse_octet b, parse_octet c, parse_octet d) of
        (Some i, Some j, Some k, Some l) \<Rightarrow>
          Some (of_nat (((i * 256 + j) * 256 + k) * 256 + l))
      | _ \<Rightarrow> None)"
| "parse_octets _ = None"

definition parse_ipv4 :: "ustr \<Rightarrow> 32 word option" where
  "parse_ipv4 s = (if s = [] then None else parse_octets (split_on 46 s))"

definition hex_digit :: "nat \<Rightarrow> nat option" where
  "hex_digit c =
     (if 48 \<le> c \<and> c \<le> 57 then Some (c - 48)
      else if 97 \<le> c \<and> c \<le> 102 then Some (c - 87)
      else if 65 \<le> c \<and> c \<le> 70 then Some (c - 55)
      else None)"

fun hex_value :: "nat \<Rightarrow> ustr \<Rightarrow> nat option" where
  "hex_value n [] = Some n"
| "hex_value n (c # s) = (case hex_digit c of None \<Rightarrow> None | Some d \<Rightarrow> hex_value (n * 16 + d) s)"

definition parse_hextet :: "ustr \<Rightarrow> nat option" where
  "parse_hextet s = (if s = [] \<or> length s > 4 then None else hex_value 0 s)"

text \<open>The pieces between colons, the last one possibly an embedded IPv4 address.\<close>

datatype v6_part = Text ustr | Num nat

definition part_empty :: "v6_part \<Rightarrow> bool" where
  "part_empty p \<longleftrightarrow> p = Text []"

fun part_value :: "v6_part \<Rightarrow> nat option" where
  "part_value (Text s) = parse_hextet s"
| "part_value (Num n) = Some n"

definition v6_parts :: "ustr \<Rightarrow> v6_part list option" where
  "v6_parts s =
     (let ps = split_on 58 s in
      if length ps < 3 then None
      else if 46 \<in> set (last ps) then
        (case parse_ipv4 (last ps) of
           None \<Rightarrow> None
         | Some w \<Rightarrow> Some (map Text (butlast ps) @ [Num (unat w div 65536), Num (unat w mod 65536)]))
      else Some (map Text ps))"

fun hextets :: "nat \<Rightarrow> v6_part list \<Rightarrow> nat option" where
  "hextets n [] = Some n"
| "hextets n (p # ps) = (case part_value p of None \<Rightarrow> None | Some v \<Rightarrow> hextets (n * 65536 + v) ps)"

text \<open>The index of the empty pieces strictly inside the list: at most one, the \<^verbatim>\<open>::\<close>.\<close>

definition inner_empty :: "v6_part list \<Rightarrow> nat list" where
  "inner_empty ps = filter (\<lambda>i. part_empty (ps ! i)) [1..<length ps - 1]"

definition parse_ipv6_int :: "ustr \<Rightarrow> 128 word option" where
  "parse_ipv6_int s =
     (if s = [] then None else
      case v6_parts s of None \<Rightarrow> None | Some ps \<Rightarrow>
      if length ps > 9 then None
      else case inner_empty ps of
        [] \<Rightarrow>
          (if length ps \<noteq> 8 \<or> part_empty (hd ps) \<or> part_empty (last ps) then None
           else map_option of_nat (hextets 0 ps))
      | [i] \<Rightarrow>
          (let hi0 = i; lo0 = length ps - i - 1;
               hi = (if part_empty (hd ps) then hi0 - 1 else hi0);
               lo = (if part_empty (last ps) then lo0 - 1 else lo0)
           in if part_empty (hd ps) \<and> hi \<noteq> 0 then None
              else if part_empty (last ps) \<and> lo \<noteq> 0 then None
              else if hi + lo > 7 then None
              else case hextets 0 (take hi ps) of None \<Rightarrow> None | Some n \<Rightarrow>
                   map_option of_nat
                     (hextets (n * 65536 ^ (8 - (hi + lo))) (drop (length ps - lo) ps)))
      | _ \<Rightarrow> None)"

text \<open>\<^verbatim>\<open>_split_scope_id\<close>: a percent sign introduces a non-empty zone without further ones.\<close>

definition parse_ipv6 :: "ustr \<Rightarrow> 128 word option" where
  "parse_ipv6 s =
     (if 37 \<notin> set s then parse_ipv6_int s
      else let zone = tl (dropWhile (\<lambda>c. c \<noteq> 37) s) in
           if zone = [] \<or> 37 \<in> set zone then None
           else parse_ipv6_int (takeWhile (\<lambda>c. c \<noteq> 37) s))"

text \<open>\<^verbatim>\<open>ipaddress.ip_address\<close>: IPv4 first, then IPv6; a slash is refused by both.\<close>

definition ip_address :: "ustr \<Rightarrow> ip_addr option" where
  "ip_address s =
     (if 47 \<in> set s then None
      else case parse_ipv4 s of
             Some w \<Rightarrow> Some (V4 w)
           | None \<Rightarrow> map_option V6 (parse_ipv6 s))"

section \<open>Networks\<close>

definition mask4 :: "nat \<Rightarrow> 32 word" where
  "mask4 p = push_bit (32 - p) (mask p)"

definition mask6 :: "nat \<Rightarrow> 128 word" where
  "mask6 p = push_bit (128 - p) (mask p)"

definition parse_prefix :: "nat \<Rightarrow> ustr \<Rightarrow> nat option" where
  "parse_prefix mx s =
     (if \<not> ascii_digits s then None
      else if int_of_digits s > mx then None
      else Some (int_of_digits s))"

text \<open>\<^verbatim>\<open>_prefix_from_ip_int\<close>: the prefix length of a contiguous netmask.\<close>

definition prefix_of_mask :: "32 word \<Rightarrow> nat option" where
  "prefix_of_mask w = find (\<lambda>p. mask4 p = w) [0..<33]"

definition parse_mask4 :: "ustr \<Rightarrow> nat option" where
  "parse_mask4 s =
     (case parse_prefix 32 s of
        Some p \<Rightarrow> Some p
      | None \<Rightarrow>
          (case parse_ipv4 s of
             None \<Rightarrow> None
           | Some w \<Rightarrow> (case prefix_of_mask w of Some p \<Rightarrow> Some p | None \<Rightarrow> prefix_of_mask (NOT w))))"

definition network4 :: "ustr \<Rightarrow> ip_net option" where
  "network4 s =
     (case split_on 47 s of
        [a] \<Rightarrow> map_option (\<lambda>w. Net4 w 32) (parse_ipv4 a)
      | [a, m] \<Rightarrow>
          (case (parse_ipv4 a, parse_mask4 m) of
             (Some w, Some p) \<Rightarrow> Some (Net4 (w AND mask4 p) p)
           | _ \<Rightarrow> None)
      | _ \<Rightarrow> None)"

definition network6 :: "ustr \<Rightarrow> ip_net option" where
  "network6 s =
     (case split_on 47 s of
        [a] \<Rightarrow> map_option (\<lambda>w. Net6 w 128) (parse_ipv6 a)
      | [a, m] \<Rightarrow>
          (case (parse_ipv6 a, parse_prefix 128 m) of
             (Some w, Some p) \<Rightarrow> Some (Net6 (w AND mask6 p) p)
           | _ \<Rightarrow> None)
      | _ \<Rightarrow> None)"

text \<open>\<^verbatim>\<open>ipaddress.ip_network(s, strict=False)\<close>.\<close>

definition ip_network :: "ustr \<Rightarrow> ip_net option" where
  "ip_network s = (case network4 s of Some n \<Rightarrow> Some n | None \<Rightarrow> network6 s)"

text \<open>\<^verbatim>\<open>addr in net\<close>: different versions never match.\<close>

fun in_net :: "ip_addr \<Rightarrow> ip_net \<Rightarrow> bool" where
  "in_net (V4 a) (Net4 n p) = (a AND mask4 p = n)"
| "in_net (V6 a) (Net6 n p) = (a AND mask6 p = n)"
| "in_net _ _ = False"

section \<open>The three lists\<close>

subsection \<open>Allowlist\<close>

fun matches_loop :: "ip_addr \<Rightarrow> ustr list \<Rightarrow> bool" where
  "matches_loop addr [] = False"
| "matches_loop addr (c # cs) =
     (case ip_network (strip c) of
        None \<Rightarrow> matches_loop addr cs
      | Some net \<Rightarrow> if in_net addr net then True else matches_loop addr cs)"

definition matches :: "ustr \<Rightarrow> ustr list \<Rightarrow> bool" where
  "matches ip cidrs = (case ip_address ip of None \<Rightarrow> False | Some addr \<Rightarrow> matches_loop addr cidrs)"

text \<open>An absent or empty list is no restriction.\<close>

definition is_allowed :: "ustr \<Rightarrow> ustr list option \<Rightarrow> ustr list option \<Rightarrow> bool" where
  "is_allowed ip key_allowlist global_allowlist =
     (\<not> ((case global_allowlist of None \<Rightarrow> False | Some g \<Rightarrow> g \<noteq> [] \<and> \<not> matches ip g) \<or>
         (case key_allowlist of None \<Rightarrow> False | Some k \<Rightarrow> k \<noteq> [] \<and> \<not> matches ip k)))"

text \<open>\<open>Inl ip\<close> is \<^verbatim>\<open>IpNotAllowedError(ip)\<close>.\<close>

definition enforce :: "ustr \<Rightarrow> ustr list option \<Rightarrow> ustr list option \<Rightarrow> ustr + unit" where
  "enforce ip key_allowlist global_allowlist =
     (if \<not> is_allowed ip key_allowlist global_allowlist then Inl ip else Inr ())"

subsection \<open>Exception IPs\<close>

record exception_row =
  ex_cidr :: ustr
  ex_enabled :: bool

text \<open>
  The cache is a Python set; a list stands for it, since the answer does not depend on the order.
  A reload whose query fails (\<open>None\<close>) keeps the previous cache and reports 0.
\<close>

definition reload_exception_ips :: "exception_row list option \<Rightarrow> ustr list \<Rightarrow> nat \<times> ustr list" where
  "reload_exception_ips db cache =
     (case db of
        None \<Rightarrow> (0, cache)
      | Some rows \<Rightarrow>
          (let cidrs = remdups (filter (\<lambda>c. c \<noteq> []) (map ex_cidr (filter ex_enabled rows)))
           in (length cidrs, cidrs)))"

fun exception_loop :: "ip_addr \<Rightarrow> ustr list \<Rightarrow> bool" where
  "exception_loop addr [] = False"
| "exception_loop addr (c # cs) =
     (case ip_network (strip c) of
        None \<Rightarrow> exception_loop addr cs
      | Some net \<Rightarrow> if in_net addr net then True else exception_loop addr cs)"

definition is_exception_ip :: "ustr list \<Rightarrow> ustr \<Rightarrow> bool" where
  "is_exception_ip cache ip =
     (if ip = [] \<or> cache = [] then False
      else case ip_address ip of None \<Rightarrow> False | Some addr \<Rightarrow> exception_loop addr cache)"

subsection \<open>IP callers\<close>

record ip_caller_entry =
  ce_cidr :: ustr
  ce_name :: ustr
  ce_rate_per_minute :: nat
  ce_rate_per_hour :: nat

record ip_caller_row =
  cr_entry :: ip_caller_entry
  cr_enabled :: bool

definition reload_api_ip_callers ::
  "ip_caller_row list option \<Rightarrow> ip_caller_entry list \<Rightarrow> nat \<times> ip_caller_entry list" where
  "reload_api_ip_callers db cache =
     (case db of
        None \<Rightarrow> (0, cache)
      | Some rows \<Rightarrow>
          (let es = filter (\<lambda>e. ce_cidr e \<noteq> []) (map cr_entry (filter cr_enabled rows))
           in (length es, es)))"

fun caller_loop :: "ip_addr \<Rightarrow> ip_caller_entry list \<Rightarrow> ip_caller_entry option" where
  "caller_loop addr [] = None"
| "caller_loop addr (e # es) =
     (case ip_network (strip (ce_cidr e)) of
        None \<Rightarrow> caller_loop addr es
      | Some net \<Rightarrow> if in_net addr net then Some e else caller_loop addr es)"

definition find_caller_by_ip :: "ip_caller_entry list \<Rightarrow> ustr \<Rightarrow> ip_caller_entry option" where
  "find_caller_by_ip cache ip =
     (if ip = [] \<or> cache = [] then None
      else case ip_address ip of None \<Rightarrow> None | Some addr \<Rightarrow> caller_loop addr cache)"

section \<open>Membership compares leading bits\<close>

lemma mask_shift_bit:
  fixes w :: "'a::len word"
  assumes "p \<le> LENGTH('a)"
  shows "bit (push_bit (LENGTH('a) - p) (mask p) :: 'a word) i \<longleftrightarrow>
           i < LENGTH('a) \<and> LENGTH('a) - p \<le> i"
  using assms by (auto simp: bit_simps)

lemma and_mask_eq_iff:
  fixes a n :: "'a::len word"
  assumes "p \<le> LENGTH('a)"
  shows "a AND push_bit (LENGTH('a) - p) (mask p) = n AND push_bit (LENGTH('a) - p) (mask p) \<longleftrightarrow>
         drop_bit (LENGTH('a) - p) a = drop_bit (LENGTH('a) - p) n" (is "?l = ?r")
proof
  assume l: ?l
  show ?r
  proof (rule bit_word_eqI)
    fix i assume "i < LENGTH('a)"
    have "bit (a AND push_bit (LENGTH('a) - p) (mask p)) (LENGTH('a) - p + i) =
          bit (n AND push_bit (LENGTH('a) - p) (mask p)) (LENGTH('a) - p + i)"
      using l by simp
    then show "bit (drop_bit (LENGTH('a) - p) a) i = bit (drop_bit (LENGTH('a) - p) n) i"
      using mask_shift_bit [OF assms, of "LENGTH('a) - p + i"]
      by (auto simp: bit_and_iff bit_drop_bit_eq dest: bit_imp_le_length)
  qed
next
  assume r: ?r
  show ?l
  proof (rule bit_word_eqI)
    fix i assume "i < LENGTH('a)"
    have "bit a i = bit n i" if "LENGTH('a) - p \<le> i"
    proof -
      have "bit (drop_bit (LENGTH('a) - p) a) (i - (LENGTH('a) - p)) =
            bit (drop_bit (LENGTH('a) - p) n) (i - (LENGTH('a) - p))"
        using r by simp
      with that show ?thesis by (simp add: bit_drop_bit_eq)
    qed
    then show "bit (a AND push_bit (LENGTH('a) - p) (mask p)) i =
               bit (n AND push_bit (LENGTH('a) - p) (mask p)) i"
      using mask_shift_bit [OF assms, of i] by (auto simp: bit_and_iff)
  qed
qed

lemma in_net4_iff:
  "p \<le> 32 \<Longrightarrow> in_net (V4 a) (Net4 (w AND mask4 p) p) \<longleftrightarrow> drop_bit (32 - p) a = drop_bit (32 - p) w"
  using and_mask_eq_iff [of p a w] by (simp add: mask4_def)

lemma in_net6_iff:
  "p \<le> 128 \<Longrightarrow> in_net (V6 a) (Net6 (w AND mask6 p) p) \<longleftrightarrow> drop_bit (128 - p) a = drop_bit (128 - p) w"
  using and_mask_eq_iff [of p a w] by (simp add: mask6_def)

section \<open>Dotted decimal notation\<close>

text \<open>The canonical notation of a number below 1000, of an address, and of a network.\<close>

definition show_dec :: "nat \<Rightarrow> ustr" where
  "show_dec n =
     (if n < 10 then [48 + n]
      else if n < 100 then [48 + n div 10, 48 + n mod 10]
      else [48 + n div 100, 48 + n div 10 mod 10, 48 + n mod 10])"

definition octets4 :: "32 word \<Rightarrow> nat list" where
  "octets4 w = (let n = unat w in [n div 16777216, n div 65536 mod 256, n div 256 mod 256, n mod 256])"

definition show_ipv4 :: "32 word \<Rightarrow> ustr" where
  "show_ipv4 w = join [46] (map show_dec (octets4 w))"

definition show_cidr4 :: "32 word \<Rightarrow> nat \<Rightarrow> ustr" where
  "show_cidr4 w p = show_ipv4 w @ 47 # show_dec p"

lemma show_dec_digits: "n < 1000 \<Longrightarrow> c \<in> set (show_dec n) \<Longrightarrow> 48 \<le> c \<and> c \<le> 57"
  by (auto simp: show_dec_def split: if_splits)

lemma int_of_show_dec: "n < 1000 \<Longrightarrow> int_of_digits (show_dec n) = n"
proof -
  have "100 * (n div 100) + n div 10 mod 10 * 10 + n mod 10 = n"
  proof -
    have "n div 10 = 10 * (n div 10 div 10) + n div 10 mod 10" "n = 10 * (n div 10) + n mod 10"
      by simp_all
    moreover have "n div 10 div 10 = n div 100"
      by (simp add: div_mult2_eq [symmetric])
    ultimately show ?thesis by linarith
  qed
  then show "n < 1000 \<Longrightarrow> int_of_digits (show_dec n) = n"
    by (auto simp: show_dec_def int_of_digits_def)
qed

lemma ascii_digits_show_dec: "n < 1000 \<Longrightarrow> ascii_digits (show_dec n)"
  using show_dec_digits [of n] by (auto simp: ascii_digits_def list_all_iff show_dec_def)

lemma parse_octet_show_dec: "n < 256 \<Longrightarrow> parse_octet (show_dec n) = Some n"
proof -
  assume n: "n < 256"
  have "length (show_dec n) \<le> 3" "show_dec n = [48] \<or> hd (show_dec n) \<noteq> 48"
    using n by (auto simp: show_dec_def)
  with n show ?thesis
    by (auto simp: parse_octet_def ascii_digits_show_dec int_of_show_dec)
qed

lemma octets4_less: "n \<in> set (octets4 w) \<Longrightarrow> n < 256"
proof -
  have "unat w < 2 ^ 32"
    using unsigned_less [of w] by simp
  then show "n \<in> set (octets4 w) \<Longrightarrow> n < 256"
    by (auto simp: octets4_def Let_def)
qed

lemma octets4_value:
  "((n div 16777216 * 256 + n div 65536 mod 256) * 256 + n div 256 mod 256) * 256 + n mod 256 = n"
  for n :: nat
proof -
  have "n = n div 256 * 256 + n mod 256" "n div 256 = n div 256 div 256 * 256 + n div 256 mod 256"
    "n div 256 div 256 = n div 256 div 256 div 256 * 256 + n div 256 div 256 mod 256"
    by simp_all
  then show ?thesis
    by (simp only: div_mult2_eq [symmetric]) simp
qed

lemma octet_text: "x \<in> set (map show_dec (octets4 w)) \<Longrightarrow> c \<in> set x \<Longrightarrow> 48 \<le> c \<and> c \<le> 57"
proof -
  assume "x \<in> set (map show_dec (octets4 w))" and c: "c \<in> set x"
  then obtain n where n: "n \<in> set (octets4 w)" "x = show_dec n" by auto
  with octets4_less [OF n(1)] show_dec_digits [of n c] c show ?thesis by simp
qed

lemma show_ipv4_chars: "c \<in> set (show_ipv4 w) \<Longrightarrow> c = 46 \<or> 48 \<le> c \<and> c \<le> 57"
proof -
  have "\<forall>x \<in> set (map show_dec (octets4 w)). \<forall>c \<in> set x. 48 \<le> c \<and> c \<le> 57"
    using octet_text by blast
  moreover have "set (join [46] ps) \<subseteq> {46} \<union> (\<Union>x \<in> set ps. set x)" for ps :: "ustr list"
    by (induction "[46] :: ustr" ps rule: join.induct) auto
  ultimately show "c \<in> set (show_ipv4 w) \<Longrightarrow> c = 46 \<or> 48 \<le> c \<and> c \<le> 57"
    unfolding show_ipv4_def by blast
qed

lemma split_show_ipv4: "split_on 46 (show_ipv4 w) = map show_dec (octets4 w)"
  unfolding show_ipv4_def
proof (rule split_on_join)
  show "map show_dec (octets4 w) \<noteq> []" by (simp add: octets4_def Let_def)
  show "\<forall>x \<in> set (map show_dec (octets4 w)). 46 \<notin> set x"
    using octet_text [of _ w 46] by fastforce
qed

lemma parse_show_ipv4: "parse_ipv4 (show_ipv4 w) = Some w"
proof -
  have ne: "show_ipv4 w \<noteq> []"
    by (simp add: show_ipv4_def octets4_def Let_def)
  obtain a b c d where o: "octets4 w = [a, b, c, d]"
    by (simp add: octets4_def Let_def)
  have v: "((a * 256 + b) * 256 + c) * 256 + d = unat w"
    using o octets4_value [of "unat w"] by (auto simp: octets4_def Let_def)
  have "parse_octet (show_dec a) = Some a" "parse_octet (show_dec b) = Some b"
    "parse_octet (show_dec c) = Some c" "parse_octet (show_dec d) = Some d"
    using octets4_less [of _ w] by (auto simp: o parse_octet_show_dec)
  with ne v show ?thesis
    by (simp add: parse_ipv4_def split_show_ipv4 o)
qed

lemma ip_address_show: "ip_address (show_ipv4 w) = Some (V4 w)"
  using show_ipv4_chars [of 47 w] by (auto simp: ip_address_def parse_show_ipv4)

lemma parse_prefix_show_dec: "n \<le> mx \<Longrightarrow> mx < 1000 \<Longrightarrow> parse_prefix mx (show_dec n) = Some n"
  by (auto simp: parse_prefix_def ascii_digits_show_dec int_of_show_dec)

lemma strip_show_cidr4: "p < 1000 \<Longrightarrow> strip (show_cidr4 w p) = show_cidr4 w p"
proof (rule strip_no_space, rule ballI)
  fix c assume "p < 1000" "c \<in> set (show_cidr4 w p)"
  then have "46 \<le> c \<and> c \<le> 57"
    using show_ipv4_chars [of c w] show_dec_digits [of p c] by (auto simp: show_cidr4_def)
  then show "\<not> is_space c" by (simp add: is_space_ascii)
qed

lemma network_show_cidr4: "p \<le> 32 \<Longrightarrow> ip_network (show_cidr4 w p) = Some (Net4 (w AND mask4 p) p)"
proof -
  assume p: "p \<le> 32"
  have "47 \<notin> set (show_ipv4 w)" "47 \<notin> set (show_dec p)"
    using show_ipv4_chars [of 47 w] show_dec_digits [of p 47] p by auto
  then have "split_on 47 (show_cidr4 w p) = [show_ipv4 w, show_dec p]"
    by (simp add: show_cidr4_def split_on_append_sep split_on_no_sep)
  then show ?thesis
    using p by (simp add: ip_network_def network4_def parse_show_ipv4 parse_mask4_def
        parse_prefix_show_dec)
qed

section \<open>Searching the lists\<close>

text \<open>Whether an entry of a list covers an address; a malformed entry covers nothing.\<close>

definition cidr_has :: "ip_addr \<Rightarrow> ustr \<Rightarrow> bool" where
  "cidr_has addr c = (case ip_network (strip c) of None \<Rightarrow> False | Some net \<Rightarrow> in_net addr net)"

lemma cidr_has_show:
  "p \<le> 32 \<Longrightarrow> cidr_has (V4 a) (show_cidr4 w p) \<longleftrightarrow> drop_bit (32 - p) a = drop_bit (32 - p) w"
  using in_net4_iff [of p a w] by (simp add: cidr_has_def strip_show_cidr4 network_show_cidr4)

locale cidr_scan =
  fixes scan :: "ip_addr \<Rightarrow> 'e list \<Rightarrow> 'res"
    and cidr_of :: "'e \<Rightarrow> ustr"
    and hit :: "'e \<Rightarrow> 'res"
    and miss :: 'res
  assumes scan_Nil: "scan addr [] = miss"
    and scan_Cons: "scan addr (e # es) =
          (case ip_network (strip (cidr_of e)) of
             None \<Rightarrow> scan addr es
           | Some net \<Rightarrow> if in_net addr net then hit e else scan addr es)"
begin

lemma scan_find:
  "scan addr es = (case find (\<lambda>e. cidr_has addr (cidr_of e)) es of None \<Rightarrow> miss | Some e \<Rightarrow> hit e)"
  by (induction es) (auto simp: scan_Nil scan_Cons cidr_has_def split: option.splits)

lemma scan_malformed:
  "ip_network (strip (cidr_of e)) = None \<Longrightarrow> scan addr (as @ e # bs) = scan addr (as @ bs)"
  by (induction as) (auto simp: scan_Cons split: option.splits)

lemma scan_miss_iff:
  assumes "\<And>e. hit e \<noteq> miss"
  shows "scan addr es = miss \<longleftrightarrow> (\<forall>e \<in> set es. \<not> cidr_has addr (cidr_of e))"
  using assms by (auto simp: scan_find find_None_iff_ball find_Some_split split: option.splits)

end

interpretation allow: cidr_scan matches_loop "\<lambda>c. c" "\<lambda>_. True" False
  by unfold_locales simp_all

interpretation exc: cidr_scan exception_loop "\<lambda>c. c" "\<lambda>_. True" False
  by unfold_locales simp_all

interpretation caller: cidr_scan caller_loop ce_cidr Some None
  by unfold_locales simp_all

lemma matches_iff:
  "matches ip cs \<longleftrightarrow> (\<exists>addr. ip_address ip = Some addr \<and> (\<exists>c \<in> set cs. cidr_has addr c))"
  using allow.scan_miss_iff by (auto simp: matches_def split: option.splits)

lemma is_exception_ip_iff:
  "is_exception_ip cs ip \<longleftrightarrow> (\<exists>addr. ip_address ip = Some addr \<and> (\<exists>c \<in> set cs. cidr_has addr c))"
proof -
  have "ip_address [] = None"
    by (simp add: ip_address_def parse_ipv4_def parse_ipv6_def parse_ipv6_int_def)
  then show ?thesis
    using exc.scan_miss_iff by (auto simp: is_exception_ip_def split: option.splits)
qed

lemma find_caller_Some:
  assumes "find_caller_by_ip es ip = Some e"
  shows "\<exists>addr as bs. ip_address ip = Some addr \<and> es = as @ e # bs \<and> cidr_has addr (ce_cidr e) \<and>
           (\<forall>x \<in> set as. \<not> cidr_has addr (ce_cidr x))"
  using assms
  by (auto simp: find_caller_by_ip_def caller.scan_find find_Some_split split: if_splits option.splits)

text \<open>
  CIDR matching means what it says.  For every IPv4 address and every network written in the usual notation,
  both list checks (allowlist and exception list) accept the address exactly when the leading bits
  given by the prefix length agree, wherever the entry stands in the list and whatever malformed
  entries surround it.
\<close>

theorem dotted_cidr_match:
  assumes "p \<le> 32" "\<forall>c \<in> set junk. ip_network (strip c) = None"
  shows "(matches (show_ipv4 a) (junk @ [show_cidr4 w p]) \<longleftrightarrow>
            drop_bit (32 - p) a = drop_bit (32 - p) w) \<and>
         (is_exception_ip (junk @ [show_cidr4 w p]) (show_ipv4 a) \<longleftrightarrow>
            drop_bit (32 - p) a = drop_bit (32 - p) w)"
proof -
  have "\<not> cidr_has (V4 a) c" if "c \<in> set junk" for c
    using assms(2) that by (simp add: cidr_has_def)
  then show ?thesis
    using cidr_has_show [OF assms(1), of a w]
    by (auto simp: matches_iff is_exception_ip_iff ip_address_show)
qed

theorem dotted_cidr_match_witness:
  "matches (show_ipv4 167772165) ([u ''bad''] @ [show_cidr4 167772160 8]) \<and>
   \<not> matches (show_ipv4 184549381) ([u ''bad''] @ [show_cidr4 167772160 8])"
proof -
  have "strip (u ''bad'') = u ''bad''"
    by (rule strip_no_space) (auto simp: u_def is_space_ascii)
  then have bad: "ip_network (strip (u ''bad'')) = None"
    by (simp add: u_def ip_network_def network4_def network6_def parse_ipv4_def parse_ipv6_def
        parse_ipv6_int_def v6_parts_def)
  have d: "drop_bit 24 (167772165 :: 32 word) = drop_bit 24 167772160"
    "drop_bit 24 (184549381 :: 32 word) \<noteq> drop_bit 24 167772160"
    by simp_all
  show ?thesis
    using dotted_cidr_match [of 8 "[u ''bad'']" 167772165 167772160]
      dotted_cidr_match [of 8 "[u ''bad'']" 184549381 167772160] bad d by simp
qed

text \<open>
  An allowlist decision is a conjunction of two independent restrictions.  A request is let
  through exactly when each list that is present and not empty has an entry that covers the caller's
  address; an address that does not parse passes only when neither list restricts, and a refusal
  names the refused address.
\<close>

theorem enforce_iff:
  "(enforce ip key glob = Inr () \<longleftrightarrow>
      (\<forall>l. l \<noteq> [] \<and> (key = Some l \<or> glob = Some l) \<longrightarrow>
         (\<exists>addr. ip_address ip = Some addr \<and> (\<exists>c \<in> set l. cidr_has addr c)))) \<and>
   (enforce ip key glob \<noteq> Inr () \<longrightarrow> enforce ip key glob = Inl ip)"
  by (auto simp: enforce_def is_allowed_def matches_iff split: option.splits)

theorem enforce_iff_witness:
  "enforce (u ''nonsense'') None (Some []) = Inr () \<and>
   enforce (show_ipv4 5) (Some [show_cidr4 4 30]) None = Inr ()"
proof -
  have "cidr_has (V4 5) (show_cidr4 4 30)"
    using cidr_has_show [of 30 5 4] by simp
  then show ?thesis
    using enforce_iff [of "u ''nonsense''" None "Some []"]
      enforce_iff [of "show_ipv4 5" "Some [show_cidr4 4 30]" None] by (auto simp: ip_address_show)
qed

end
