(* ===== verification/Rate_Limit.thy ===== *)
theory Rate_Limit
  imports Prelude "HOL-Library.Sublist"
begin

text \<open>
  \<^verbatim>\<open>app/security/rate_limit.py\<close>: the token bucket that a Lua script runs inside Redis, and the
  limiter's three entry points.  A Redis hash with an expiry is an entry of a store; the script's
  clock argument \<open>now\<close> is the client's and the key's expiry is judged by the server's clock \<open>rnow\<close>.
  Token counts are rationals.  Rates are positive, as the database requires of IP callers; a zero
  rate would make the script divide by zero.  The locale \<open>token_bucket\<close> states what a bucket
  promises and bounds the number of admitted requests; the script is shown to keep the promise even
  when Redis forgets an idle key, as long as the two clocks differ by at most half a minute.
\<close>

section \<open>The script\<close>

record bucket =
  bk_tokens :: rat
  bk_ts :: rat
  bk_expires :: rat

type_synonym redis_store = "ustr \<rightharpoonup> bucket"

text \<open>\<^verbatim>\<open>HMGET\<close>: an expired key reads as absent.\<close>

definition hmget :: "rat \<Rightarrow> bucket option \<Rightarrow> bucket option" where
  "hmget rnow bo = (case bo of None \<Rightarrow> None | Some b \<Rightarrow> if rnow < bk_expires b then Some b else None)"

definition refill :: "rat \<Rightarrow> rat \<Rightarrow> rat \<Rightarrow> bucket option \<Rightarrow> rat" where
  "refill rate capacity now data =
     (let (tokens, ts) = (case data of None \<Rightarrow> (capacity, now) | Some b \<Rightarrow> (bk_tokens b, bk_ts b));
          delta = max 0 (now - ts)
      in min capacity (tokens + delta * rate))"

definition lua_token_bucket ::
  "rat \<Rightarrow> rat \<Rightarrow> rat \<Rightarrow> rat \<Rightarrow> rat \<Rightarrow> bucket option \<Rightarrow> (bool \<times> int \<times> rat) \<times> bucket" where
  "lua_token_bucket rate capacity now cost rnow bo =
     (let tokens = refill rate capacity now (hmget rnow bo);
          allowed = tokens \<ge> cost;
          retry_after = (if allowed then 0 else \<lceil>(cost - tokens) / rate\<rceil>);
          tokens' = (if allowed then tokens - cost else tokens);
          ttl = \<lceil>capacity / rate\<rceil> + 60
      in ((allowed, retry_after, tokens'),
          \<lparr>bk_tokens = tokens', bk_ts = now, bk_expires = rnow + of_int ttl\<rparr>))"

section \<open>The limiter\<close>

record rate_limit_outcome =
  rl_allowed :: bool
  rl_retry_after :: int
  rl_remaining :: rat

text \<open>A Lua number comes back through Redis as an integer, so the remainder loses its fraction.\<close>

definition consume ::
  "ustr \<Rightarrow> rat \<Rightarrow> rat \<Rightarrow> rat \<Rightarrow> rat \<Rightarrow> rat \<Rightarrow> redis_store \<Rightarrow> rate_limit_outcome \<times> redis_store" where
  "consume key capacity rate cost now rnow st =
     (let ((allowed, retry_after, tokens), b) = lua_token_bucket rate capacity now cost rnow (st key)
      in (\<lparr>rl_allowed = allowed, rl_retry_after = retry_after, rl_remaining = of_int \<lfloor>tokens\<rfloor>\<rparr>,
          st(key \<mapsto> b)))"

definition caller_key :: "ustr \<Rightarrow> string \<Rightarrow> ustr" where
  "caller_key key_id win = u ''rl:apikey:'' @ key_id @ u '':'' @ u win"

definition ip_key :: "ustr \<Rightarrow> ustr" where
  "ip_key ip = u ''rl:ip:'' @ ip @ u '':m''"

text \<open>Each of the two buckets reads the clocks anew.\<close>

definition check_caller ::
  "ustr \<Rightarrow> nat \<Rightarrow> nat \<Rightarrow> rat \<times> rat \<Rightarrow> rat \<times> rat \<Rightarrow> redis_store \<Rightarrow> rate_limit_outcome \<times> redis_store" where
  "check_caller key_id per_minute per_hour t1 t2 st =
     (let (m, st') = consume (caller_key key_id ''m'') (of_nat per_minute) (of_nat per_minute / 60) 1
                       (fst t1) (snd t1) st
      in if \<not> rl_allowed m then (m, st')
         else consume (caller_key key_id ''h'') (of_nat per_hour) (of_nat per_hour / 3600) 1
                (fst t2) (snd t2) st')"

definition check_ip :: "ustr \<Rightarrow> nat \<Rightarrow> rat \<times> rat \<Rightarrow> redis_store \<Rightarrow> rate_limit_outcome \<times> redis_store" where
  "check_ip ip per_minute t st =
     consume (ip_key ip) (of_nat per_minute) (of_nat per_minute / 60) 1 (fst t) (snd t) st"

definition seconds_until_refill :: "int \<Rightarrow> exn + int" where
  "seconds_until_refill rate_per_minute =
     (let rate = of_int rate_per_minute / 60 :: rat in
      if rate = 0 then Inl ZeroDivisionError else Inr (max 1 \<lceil>1 / rate\<rceil>))"

section \<open>What a bucket promises\<close>

text \<open>
  \<open>level b t\<close> is what the bucket holds at time \<open>t\<close>, \<open>since b\<close> the time of its last use.  Taking a
  token at a pair of clock readings succeeds exactly when the level reaches one.
\<close>

definition skew_ok :: "rat \<times> rat \<Rightarrow> bool" where
  "skew_ok t \<longleftrightarrow> \<bar>snd t - fst t\<bar> \<le> 30"

locale token_bucket =
  fixes cap rate :: rat
    and good :: "'b \<Rightarrow> bool"
    and since :: "'b \<Rightarrow> rat \<Rightarrow> bool"
    and level :: "'b \<Rightarrow> rat \<Rightarrow> rat"
    and take :: "rat \<times> rat \<Rightarrow> 'b \<Rightarrow> (bool \<times> int) \<times> 'b"
  assumes cap_ge_1: "1 \<le> cap"
    and rate_pos: "0 < rate"
    and level_bounds: "good b \<Longrightarrow> since b t \<Longrightarrow> 0 \<le> level b t \<and> level b t \<le> cap"
    and level_grows: "good b \<Longrightarrow> since b t \<Longrightarrow> t \<le> t' \<Longrightarrow>
          level b t' = min cap (level b t + (t' - t) * rate) \<and> since b t'"
    and take_fst: "good b \<Longrightarrow> since b (fst tt) \<Longrightarrow> skew_ok tt \<Longrightarrow>
          fst (take tt b) = (1 \<le> level b (fst tt),
            if 1 \<le> level b (fst tt) then 0 else \<lceil>(1 - level b (fst tt)) / rate\<rceil>)"
    and take_snd: "good b \<Longrightarrow> since b (fst tt) \<Longrightarrow> skew_ok tt \<Longrightarrow>
          good (snd (take tt b)) \<and> since (snd (take tt b)) (fst tt) \<and>
          level (snd (take tt b)) (fst tt) =
            level b (fst tt) - (if 1 \<le> level b (fst tt) then 1 else 0)"
begin

fun admitted :: "(rat \<times> rat) list \<Rightarrow> 'b \<Rightarrow> nat" where
  "admitted [] b = 0"
| "admitted (t # ts) b = (if fst (fst (take t b)) then 1 else 0) + admitted ts (snd (take t b))"

lemma admitted_le_level:
  assumes "good b" "since b t0" "sorted (t0 # map fst ts)" "list_all skew_ok ts"
  shows "of_nat (admitted ts b) \<le> level b t0 + rate * (last (t0 # map fst ts) - t0)"
  using assms
proof (induction ts arbitrary: b t0)
  case Nil
  then show ?case using level_bounds [of b t0] by simp
next
  case (Cons t ts)
  let ?b' = "snd (take t b)"
  have t: "since b (fst t)" "level b (fst t) \<le> level b t0 + (fst t - t0) * rate" "skew_ok t"
    using level_grows [of b t0 "fst t"] Cons.prems by auto
  note tk = take_fst [OF Cons.prems(1) t(1) t(3)] take_snd [OF Cons.prems(1) t(1) t(3)]
  have IH: "of_nat (admitted ts ?b') \<le> level ?b' (fst t) + rate * (last (fst t # map fst ts) - fst t)"
    using Cons.IH [of ?b' "fst t"] tk Cons.prems by simp
  have "of_nat (admitted (t # ts) b) \<le> level b (fst t) + rate * (last (fst t # map fst ts) - fst t)"
    using IH tk by (auto split: if_splits)
  also have "\<dots> \<le> level b t0 + rate * (last (fst t # map fst ts) - t0)"
    using t(2) by (simp add: algebra_simps)
  finally show ?case by simp
qed

lemma admission_bound:
  assumes "good b" "since b t0" "sorted (t0 # map fst ts)" "list_all skew_ok ts"
  shows "of_nat (admitted ts b) \<le> cap + rate * (last (t0 # map fst ts) - t0)"
  using admitted_le_level [OF assms] level_bounds [OF assms(1,2)] by linarith

lemma retry_after_suffices:
  assumes "good b" "since b (fst t)" "skew_ok t" "fst (take t b) = (False, r)"
    and "fst t + of_int r \<le> fst t'" "skew_ok t'"
  shows "1 \<le> r \<and> fst (fst (take t' (snd (take t b))))"
proof -
  let ?l = "level b (fst t)" and ?b' = "snd (take t b)"
  have l: "?l < 1" "r = \<lceil>(1 - ?l) / rate\<rceil>"
    using take_fst [OF assms(1-3)] assms(4) by (auto split: if_splits)
  have r: "(1 - ?l) / rate \<le> of_int r" "0 < (1 - ?l) / rate"
    using l rate_pos by auto
  then have r1: "1 \<le> r"
    using l(2) by (simp add: le_ceiling_iff) 
  from r(1) rate_pos have suff: "1 \<le> ?l + of_int r * rate"
    by (simp add: field_simps)
  have tk: "good ?b'" "since ?b' (fst t)" "level ?b' (fst t) = ?l"
    using take_snd [OF assms(1-3)] l(1) by auto
  have le: "fst t \<le> fst t'"
  proof -
    have "(0 :: rat) \<le> of_int r" using r1 by simp
    with assms(5) show ?thesis by linarith
  qed
  have "level ?b' (fst t') = min cap (?l + (fst t' - fst t) * rate)" "since ?b' (fst t')"
    using level_grows [OF tk(1,2) le] tk(3) by auto
  moreover have "?l + of_int r * rate \<le> ?l + (fst t' - fst t) * rate"
    using assms(5) rate_pos by simp
  ultimately have "1 \<le> level ?b' (fst t')"
    using suff cap_ge_1 by linarith
  then show ?thesis
    using r1 take_fst [OF tk(1) \<open>since ?b' (fst t')\<close> assms(6)] by simp
qed

end

section \<open>The script keeps the promise\<close>

definition bucket_good :: "rat \<Rightarrow> rat \<Rightarrow> bucket option \<Rightarrow> bool" where
  "bucket_good cap rate bo \<longleftrightarrow>
     (case bo of None \<Rightarrow> True
      | Some b \<Rightarrow> 0 \<le> bk_tokens b \<and> bk_tokens b \<le> cap \<and> bk_ts b + cap / rate + 30 \<le> bk_expires b)"

definition bucket_since :: "bucket option \<Rightarrow> rat \<Rightarrow> bool" where
  "bucket_since bo t \<longleftrightarrow> (case bo of None \<Rightarrow> True | Some b \<Rightarrow> bk_ts b \<le> t)"

definition bucket_level :: "rat \<Rightarrow> rat \<Rightarrow> bucket option \<Rightarrow> rat \<Rightarrow> rat" where
  "bucket_level cap rate bo t =
     (case bo of None \<Rightarrow> cap | Some b \<Rightarrow> min cap (bk_tokens b + (t - bk_ts b) * rate))"

definition bucket_take :: "rat \<Rightarrow> rat \<Rightarrow> rat \<times> rat \<Rightarrow> bucket option \<Rightarrow> (bool \<times> int) \<times> bucket option" where
  "bucket_take cap rate t bo =
     (let ((a, r, x), b) = lua_token_bucket rate cap (fst t) 1 (snd t) bo in ((a, r), Some b))"

text \<open>An expired key would have been full: forgetting it changes nothing.\<close>

lemma refill_level:
  assumes "0 < rate" "0 \<le> cap" "bucket_good cap rate bo" "bucket_since bo (fst t)" "skew_ok t"
  shows "refill rate cap (fst t) (hmget (snd t) bo) = bucket_level cap rate bo (fst t)"
proof (cases bo)
  case None
  then show ?thesis using assms(2) by (simp add: refill_def hmget_def bucket_level_def)
next
  case (Some b)
  have g: "0 \<le> bk_tokens b" "bk_tokens b \<le> cap" "bk_ts b + cap / rate + 30 \<le> bk_expires b"
    and s: "bk_ts b \<le> fst t" and k: "snd t \<le> fst t + 30"
    using assms(3-5) Some by (auto simp: bucket_good_def bucket_since_def skew_ok_def)
  show ?thesis
  proof (cases "snd t < bk_expires b")
    case True
    then show ?thesis
      using Some s by (simp add: refill_def hmget_def bucket_level_def)
  next
    case False
    with g(3) k have "cap / rate \<le> fst t - bk_ts b" by linarith
    with assms(1) have "cap \<le> (fst t - bk_ts b) * rate" by (simp add: field_simps)
    with g(1) have "min cap (bk_tokens b + (fst t - bk_ts b) * rate) = cap" by linarith
    with False Some show ?thesis
      using assms(2) by (simp add: refill_def hmget_def bucket_level_def)
  qed
qed

lemma bucket_level_bounds:
  assumes "0 < rate" "0 \<le> cap" "bucket_good cap rate bo" "bucket_since bo t"
  shows "0 \<le> bucket_level cap rate bo t \<and> bucket_level cap rate bo t \<le> cap"
  using assms by (auto simp: bucket_level_def bucket_good_def bucket_since_def split: option.splits)

lemma min_shift: "min c (min c x + y) = min c (x + y)" if "0 \<le> y" for c x y :: rat
  using that by (auto simp: min_def)

lemma bucket_level_grows:
  assumes "0 < rate" "bucket_since bo t" "t \<le> t'"
  shows "bucket_level cap rate bo t' = min cap (bucket_level cap rate bo t + (t' - t) * rate) \<and>
         bucket_since bo t'"
proof (cases bo)
  case None
  have "0 \<le> (t' - t) * rate" using assms by simp
  with None show ?thesis by (simp add: bucket_level_def bucket_since_def)
next
  case (Some b)
  have "0 \<le> (t' - t) * rate" using assms by simp
  then have "min cap (min cap (bk_tokens b + (t - bk_ts b) * rate) + (t' - t) * rate) =
        min cap (bk_tokens b + (t' - bk_ts b) * rate)"
    by (simp add: min_shift algebra_simps)
  with Some assms show ?thesis by (simp add: bucket_level_def bucket_since_def)
qed

lemma bucket_take_fst:
  assumes "0 < rate" "0 \<le> cap" "bucket_good cap rate bo" "bucket_since bo (fst t)" "skew_ok t"
  shows "fst (bucket_take cap rate t bo) = (1 \<le> bucket_level cap rate bo (fst t),
     if 1 \<le> bucket_level cap rate bo (fst t) then 0
     else \<lceil>(1 - bucket_level cap rate bo (fst t)) / rate\<rceil>)"
  using refill_level [OF assms] by (simp add: bucket_take_def lua_token_bucket_def Let_def)

lemma bucket_take_snd:
  assumes "0 < rate" "0 \<le> cap" "bucket_good cap rate bo" "bucket_since bo (fst t)" "skew_ok t"
  defines "l \<equiv> bucket_level cap rate bo (fst t)"
  defines "bo' \<equiv> snd (bucket_take cap rate t bo)"
  shows "bucket_good cap rate bo' \<and> bucket_since bo' (fst t) \<and>
         bucket_level cap rate bo' (fst t) = l - (if 1 \<le> l then 1 else 0)"
proof -
  have l: "0 \<le> l" "l \<le> cap"
    using bucket_level_bounds [OF assms(1-4)] by (auto simp: l_def)
  have bo': "bo' = Some \<lparr>bk_tokens = (if 1 \<le> l then l - 1 else l), bk_ts = fst t,
      bk_expires = snd t + of_int (\<lceil>cap / rate\<rceil> + 60)\<rparr>"
    using refill_level [OF assms(1-5)]
    by (simp add: bo'_def l_def bucket_take_def lua_token_bucket_def Let_def)
  have "cap / rate \<le> of_int \<lceil>cap / rate\<rceil>" by simp
  moreover have "fst t - 30 \<le> snd t" using assms(5) by (auto simp: skew_ok_def)
  ultimately have "fst t + cap / rate + 30 \<le> snd t + (of_int \<lceil>cap / rate\<rceil> + 60)" by linarith
  with l show ?thesis
    by (auto simp: bo' bucket_good_def bucket_since_def bucket_level_def)
qed

lemma token_bucketI:
  assumes "0 < rate" "1 \<le> cap"
  shows "token_bucket cap rate (bucket_good cap rate) bucket_since (bucket_level cap rate)
           (bucket_take cap rate)"
proof
  show "1 \<le> cap" "0 < rate" using assms by simp_all
  have c: "0 \<le> cap" using assms(2) by simp
  note l = bucket_level_bounds [OF assms(1) c] and g = bucket_level_grows [OF assms(1)]
    and f = bucket_take_fst [OF assms(1) c] and s = bucket_take_snd [OF assms(1) c]
  fix b t t' and tt :: "rat \<times> rat"
  show "bucket_good cap rate b \<Longrightarrow> bucket_since b t \<Longrightarrow>
      0 \<le> bucket_level cap rate b t \<and> bucket_level cap rate b t \<le> cap" by (rule l)
  show "bucket_since b t \<Longrightarrow> t \<le> t' \<Longrightarrow>
      bucket_level cap rate b t' = min cap (bucket_level cap rate b t + (t' - t) * rate) \<and>
      bucket_since b t'" by (rule g)
  show "bucket_good cap rate b \<Longrightarrow> bucket_since b (fst tt) \<Longrightarrow> skew_ok tt \<Longrightarrow>
      fst (bucket_take cap rate tt b) = (1 \<le> bucket_level cap rate b (fst tt),
        if 1 \<le> bucket_level cap rate b (fst tt) then 0
        else \<lceil>(1 - bucket_level cap rate b (fst tt)) / rate\<rceil>)" by (rule f)
  show "bucket_good cap rate b \<Longrightarrow> bucket_since b (fst tt) \<Longrightarrow> skew_ok tt \<Longrightarrow>
      bucket_good cap rate (snd (bucket_take cap rate tt b)) \<and>
      bucket_since (snd (bucket_take cap rate tt b)) (fst tt) \<and>
      bucket_level cap rate (snd (bucket_take cap rate tt b)) (fst tt) =
        bucket_level cap rate b (fst tt) - (if 1 \<le> bucket_level cap rate b (fst tt) then 1 else 0)"
    by (rule s)
qed

text \<open>The buckets the limiter uses: one per minute and one per hour for any positive limit.\<close>

interpretation minute: token_bucket "of_nat (Suc n)" "of_nat (Suc n) / 60"
  "bucket_good (of_nat (Suc n)) (of_nat (Suc n) / 60)" bucket_since
  "bucket_level (of_nat (Suc n)) (of_nat (Suc n) / 60)" "bucket_take (of_nat (Suc n)) (of_nat (Suc n) / 60)"
  for n :: nat
  by (rule token_bucketI) simp_all

interpretation hour: token_bucket "of_nat (Suc n)" "of_nat (Suc n) / 3600"
  "bucket_good (of_nat (Suc n)) (of_nat (Suc n) / 3600)" bucket_since
  "bucket_level (of_nat (Suc n)) (of_nat (Suc n) / 3600)"
  "bucket_take (of_nat (Suc n)) (of_nat (Suc n) / 3600)"
  for n :: nat
  by (rule token_bucketI) simp_all

section \<open>Traffic\<close>

text \<open>Calls of the limiter in the order Redis serialises them, with their clock readings.\<close>

datatype rl_op =
    Op_caller ustr nat nat "rat \<times> rat" "rat \<times> rat"
  | Op_ip ustr nat "rat \<times> rat"

fun run_op :: "rl_op \<Rightarrow> redis_store \<Rightarrow> rate_limit_outcome \<times> redis_store" where
  "run_op (Op_caller k pm ph t1 t2) st = check_caller k pm ph t1 t2 st"
| "run_op (Op_ip ip pm t) st = check_ip ip pm t st"

fun op_times :: "rl_op \<Rightarrow> (rat \<times> rat) list" where
  "op_times (Op_caller k pm ph t1 t2) = [t1, t2]"
| "op_times (Op_ip ip pm t) = [t]"

text \<open>How many of the calls that \<open>who\<close> selects were admitted.\<close>

fun admitted_calls :: "(rl_op \<Rightarrow> bool) \<Rightarrow> rl_op list \<Rightarrow> redis_store \<Rightarrow> nat" where
  "admitted_calls who [] st = 0"
| "admitted_calls who (op # ops) st =
     (if who op \<and> rl_allowed (fst (run_op op st)) then 1 else 0) +
     admitted_calls who ops (snd (run_op op st))"

text \<open>The script invocations behind a sequence of calls: key, capacity, rate, clocks.\<close>

type_synonym prim = "ustr \<times> rat \<times> rat \<times> rat \<times> rat"

definition do_prim :: "prim \<Rightarrow> redis_store \<Rightarrow> rate_limit_outcome \<times> redis_store" where
  "do_prim q st = (case q of (key, cap, rate, t) \<Rightarrow> consume key cap rate 1 (fst t) (snd t) st)"

fun op_prims :: "rl_op \<Rightarrow> redis_store \<Rightarrow> prim list" where
  "op_prims (Op_caller k pm ph t1 t2) st =
     (let q1 = (caller_key k ''m'', of_nat pm, of_nat pm / 60, t1);
          q2 = (caller_key k ''h'', of_nat ph, of_nat ph / 3600, t2)
      in if rl_allowed (fst (do_prim q1 st)) then [q1, q2] else [q1])"
| "op_prims (Op_ip ip pm t) st = [(ip_key ip, of_nat pm, of_nat pm / 60, t)]"

fun run_prims :: "prim list \<Rightarrow> redis_store \<Rightarrow> redis_store" where
  "run_prims [] st = st"
| "run_prims (q # qs) st = run_prims qs (snd (do_prim q st))"

fun prims_of :: "rl_op list \<Rightarrow> redis_store \<Rightarrow> prim list" where
  "prims_of [] st = []"
| "prims_of (op # ops) st = op_prims op st @ prims_of ops (run_prims (op_prims op st) st)"

text \<open>Tokens taken from one key.\<close>

fun spent :: "ustr \<Rightarrow> prim list \<Rightarrow> redis_store \<Rightarrow> nat" where
  "spent key [] st = 0"
| "spent key (q # qs) st =
     (if fst q = key \<and> rl_allowed (fst (do_prim q st)) then 1 else 0) +
     spent key qs (snd (do_prim q st))"

lemma spent_append: "spent key (qs @ rs) st = spent key qs st + spent key rs (run_prims qs st)"
  by (induction qs arbitrary: st) auto

lemma run_op_prims: "snd (run_op op st) = run_prims (op_prims op st) st"
  by (cases op) (auto simp: check_caller_def check_ip_def do_prim_def Let_def split: prod.splits)

lemma do_prim_same:
  "do_prim (key, cap, rate, t) st =
     (let ((a, r, x), b) = lua_token_bucket rate cap (fst t) 1 (snd t) (st key)
      in (\<lparr>rl_allowed = a, rl_retry_after = r, rl_remaining = of_int \<lfloor>x\<rfloor>\<rparr>, st(key \<mapsto> b)))"
  by (simp add: do_prim_def consume_def)

lemma do_prim_take:
  "rl_allowed (fst (do_prim (key, cap, rate, t) st)) = fst (fst (bucket_take cap rate t (st key)))"
  "rl_retry_after (fst (do_prim (key, cap, rate, t) st)) = snd (fst (bucket_take cap rate t (st key)))"
  "snd (do_prim (key, cap, rate, t) st) key = snd (bucket_take cap rate t (st key))"
  "key' \<noteq> key \<Longrightarrow> snd (do_prim (key, cap, rate, t) st) key' = st key'"
  by (simp_all add: do_prim_same bucket_take_def split: prod.splits)

definition times_of :: "ustr \<Rightarrow> prim list \<Rightarrow> (rat \<times> rat) list" where
  "times_of key qs = map (\<lambda>(k, c, r, t). t) (filter (\<lambda>q. fst q = key) qs)"

text \<open>The tokens taken from a key are those its bucket admits at the times the key is used.\<close>

lemma spent_eq_admitted:
  assumes "0 < rate" "1 \<le> cap" "\<forall>(k, c, r, t) \<in> set qs. k = key \<longrightarrow> c = cap \<and> r = rate"
  shows "spent key qs st = token_bucket.admitted (bucket_take cap rate) (times_of key qs) (st key)"
  using assms(3)
proof (induction qs arbitrary: st)
  case Nil
  then show ?case
    by (simp add: times_of_def token_bucket.admitted.simps [OF token_bucketI [OF assms(1,2)]])
next
  case (Cons q qs)
  obtain k c r t where q: "q = (k, c, r, t)" by (cases q) auto
  note IH = Cons.IH [of "snd (do_prim q st)"]
  show ?case
  proof (cases "k = key")
    case True
    with Cons.prems q have cr: "c = cap" "r = rate" by auto
    have "spent key (q # qs) st =
        (if fst (fst (bucket_take cap rate t (st key))) then 1 else 0) +
        token_bucket.admitted (bucket_take cap rate) (times_of key qs) (snd (do_prim q st) key)"
      using IH Cons.prems q True cr by (auto simp: do_prim_take)
    also have "snd (do_prim q st) key = snd (bucket_take cap rate t (st key))"
      using q True cr by (simp add: do_prim_take)
    finally show ?thesis
      using q True by (simp add: times_of_def token_bucket.admitted.simps [OF token_bucketI [OF assms(1,2)]])
  next
    case False
    with q have "snd (do_prim q st) key = st key" by (simp add: do_prim_take)
    with IH Cons.prems q False show ?thesis by (auto simp: times_of_def)
  qed
qed

lemma spent_bound:
  assumes "0 < rate" "1 \<le> cap" "\<forall>(k, c, r, t) \<in> set qs. k = key \<longrightarrow> c = cap \<and> r = rate"
    and "bucket_good cap rate (st key)" "bucket_since (st key) t0"
    and "sorted (t0 # map fst (times_of key qs))" "list_all skew_ok (times_of key qs)"
    and "\<forall>t \<in> fst ` set (times_of key qs). t \<le> t1" "t0 \<le> t1"
  shows "of_nat (spent key qs st) \<le> cap + rate * (t1 - t0)"
proof -
  have "last (t0 # map fst (times_of key qs)) \<le> t1"
    using assms(8,9) by (cases "times_of key qs = []") (auto simp: last_map)
  then have "rate * (last (t0 # map fst (times_of key qs)) - t0) \<le> rate * (t1 - t0)"
    using assms(1) by simp
  moreover have "of_nat (spent key qs st) \<le> cap + rate * (last (t0 # map fst (times_of key qs)) - t0)"
    unfolding spent_eq_admitted [OF assms(1-3)]
    by (rule token_bucket.admission_bound [OF token_bucketI [OF assms(1,2)] assms(4-7)])
  ultimately show ?thesis by linarith
qed

lemma sorted_subseq: "subseq xs ys \<Longrightarrow> sorted ys \<Longrightarrow> sorted xs" for xs :: "'a::linorder list"
proof (induction rule: list_emb.induct)
  case (list_emb_Cons2 x y xs ys)
  then show ?case
    using list_emb_set [of "(=)" xs ys] by fastforce
qed auto

lemma subseq_subset: "subseq xs ys \<Longrightarrow> set xs \<subseteq> set ys"
  by (induction rule: list_emb.induct) auto

text \<open>Every script invocation reads clocks that its call was given, in order.\<close>

lemma times_op_prims: "subseq (times_of key (op_prims op st)) (op_times op)"
  by (cases op) (auto simp: times_of_def Let_def)

lemma times_of_append: "times_of key (qs @ rs) = times_of key qs @ times_of key rs"
  by (simp add: times_of_def)

lemma times_prims_of: "subseq (times_of key (prims_of ops st)) (concat (map op_times ops))"
  by (induction ops arbitrary: st) (auto simp: times_of_def times_of_append intro!: list_emb_append_mono
        times_op_prims [unfolded times_of_def])

definition traffic_ok :: "rat \<Rightarrow> rat \<Rightarrow> rl_op list \<Rightarrow> bool" where
  "traffic_ok t0 t1 ops \<longleftrightarrow>
     (let ts = concat (map op_times ops) in
      sorted (t0 # map fst ts @ [t1]) \<and> list_all skew_ok ts)"

lemma traffic_spent_bound:
  assumes "traffic_ok t0 t1 ops" "0 < rate" "1 \<le> cap"
    and "\<forall>(k, c, r, t) \<in> set (prims_of ops st). k = key \<longrightarrow> c = cap \<and> r = rate"
    and "bucket_good cap rate (st key)" "bucket_since (st key) t0"
  shows "of_nat (spent key (prims_of ops st) st) \<le> cap + rate * (t1 - t0)"
proof -
  let ?ts = "times_of key (prims_of ops st)"
  let ?all = "concat (map op_times ops)"
  have all: "sorted (map fst ?all)" "\<forall>t \<in> set ?all. t0 \<le> fst t \<and> fst t \<le> t1 \<and> skew_ok t" "t0 \<le> t1"
    using assms(1) by (auto simp: traffic_ok_def Let_def sorted_append list_all_iff)
  have sub: "subseq ?ts ?all" by (rule times_prims_of)
  then have set: "set ?ts \<subseteq> set ?all" by (rule subseq_subset)
  have "sorted (map fst ?ts)"
    using sorted_subseq [OF subseq_map [OF sub, of fst]] all(1) by simp
  with set all(2) have "sorted (t0 # map fst ?ts)" "list_all skew_ok ?ts"
    "\<forall>t \<in> fst ` set ?ts. t \<le> t1"
    by (auto simp: list_all_iff)
  with spent_bound [of rate cap "prims_of ops st" key st t0 t1] assms(2-6) all(3)
  show ?thesis by blast
qed

section \<open>Keys\<close>

lemma caller_key_inj: "caller_key k s = caller_key k' s' \<Longrightarrow> length s = length s' \<Longrightarrow> k = k' \<and> s = s'"
  by (auto simp: caller_key_def)

lemma key_distinct [simp]:
  "caller_key k ''m'' \<noteq> caller_key k' ''h''" "caller_key k ''h'' \<noteq> caller_key k' ''m''"
  "caller_key k s \<noteq> ip_key ip" "ip_key ip \<noteq> caller_key k s"
  by (auto simp: ip_key_def caller_key_def u_def dest: caller_key_inj [unfolded caller_key_def])

lemma caller_key_eq [simp]:
  "caller_key k ''m'' = caller_key k' ''m'' \<longleftrightarrow> k = k'" "caller_key k ''h'' = caller_key k' ''h'' \<longleftrightarrow> k = k'"
  by (auto dest: caller_key_inj)

lemma ip_key_eq [simp]: "ip_key a = ip_key b \<longleftrightarrow> a = b"
  by (simp add: ip_key_def)

section \<open>Admission bounds\<close>

fun by_caller :: "ustr \<Rightarrow> rl_op \<Rightarrow> bool" where
  "by_caller k (Op_caller k' _ _ _ _) = (k' = k)"
| "by_caller k (Op_ip _ _ _) = False"

fun by_ip :: "ustr \<Rightarrow> rl_op \<Rightarrow> bool" where
  "by_ip ip (Op_ip ip' _ _) = (ip' = ip)"
| "by_ip ip (Op_caller _ _ _ _ _) = False"

text \<open>An admitted call took a token from each bucket it consults.\<close>

lemma admitted_spent_op:
  "by_caller k op \<and> rl_allowed (fst (run_op op st)) \<Longrightarrow>
     spent (caller_key k ''m'') (op_prims op st) st = 1 \<and>
     spent (caller_key k ''h'') (op_prims op st) st = 1"
  "by_ip ip op \<and> rl_allowed (fst (run_op op st)) \<Longrightarrow> spent (ip_key ip) (op_prims op st) st = 1"
  by (cases op; auto simp: check_caller_def check_ip_def Let_def do_prim_def split: prod.splits if_splits)+

lemma admitted_calls_le_spent:
  assumes "\<And>op st. who op \<and> rl_allowed (fst (run_op op st)) \<Longrightarrow> spent key (op_prims op st) st = 1"
  shows "admitted_calls who ops st \<le> spent key (prims_of ops st) st"
proof (induction ops arbitrary: st)
  case Nil
  then show ?case by simp
next
  case (Cons op ops)
  from Cons.IH [of "run_prims (op_prims op st) st"] assms [of op st] show ?case
    by (auto simp: run_op_prims spent_append)
qed

text \<open>The limits that the calls of one caller, or about one address, carry.\<close>

fun caller_limits :: "ustr \<Rightarrow> nat \<Rightarrow> nat \<Rightarrow> rl_op \<Rightarrow> bool" where
  "caller_limits k pm ph (Op_caller k' pm' ph' _ _) = (k' = k \<longrightarrow> pm' = pm \<and> ph' = ph)"
| "caller_limits k pm ph (Op_ip _ _ _) = True"

fun ip_limits :: "ustr \<Rightarrow> nat \<Rightarrow> rl_op \<Rightarrow> bool" where
  "ip_limits ip pm (Op_ip ip' pm' _) = (ip' = ip \<longrightarrow> pm' = pm)"
| "ip_limits ip pm (Op_caller _ _ _ _ _) = True"

lemma op_prims_limits:
  "caller_limits k pm ph op \<Longrightarrow> (key, c, r, t) \<in> set (op_prims op st) \<Longrightarrow>
     (key = caller_key k ''m'' \<longrightarrow> c = of_nat pm \<and> r = of_nat pm / 60) \<and>
     (key = caller_key k ''h'' \<longrightarrow> c = of_nat ph \<and> r = of_nat ph / 3600)"
  "ip_limits ip pm op \<Longrightarrow> (key, c, r, t) \<in> set (op_prims op st) \<Longrightarrow>
     key = ip_key ip \<longrightarrow> c = of_nat pm \<and> r = of_nat pm / 60"
  by (cases op; auto simp: Let_def split: if_splits)+

lemma prims_of_mem: "q \<in> set (prims_of ops st) \<Longrightarrow> \<exists>op \<in> set ops. \<exists>st'. q \<in> set (op_prims op st')"
  by (induction ops arbitrary: st) auto

lemma prims_of_limits:
  "list_all (caller_limits k pm ph) ops \<Longrightarrow> (key, c, r, t) \<in> set (prims_of ops st) \<Longrightarrow>
     (key = caller_key k ''m'' \<longrightarrow> c = of_nat pm \<and> r = of_nat pm / 60) \<and>
     (key = caller_key k ''h'' \<longrightarrow> c = of_nat ph \<and> r = of_nat ph / 3600)"
  "list_all (ip_limits ip pm) ops \<Longrightarrow> (key, c, r, t) \<in> set (prims_of ops st) \<Longrightarrow>
     key = ip_key ip \<longrightarrow> c = of_nat pm \<and> r = of_nat pm / 60"
  unfolding list_all_iff using op_prims_limits
  by (blast dest!: prims_of_mem, blast dest!: prims_of_mem)

lemma limiter_key_bound:
  assumes "traffic_ok t0 t1 ops" "0 < rate" "1 \<le> cap"
    and "\<And>c r t. (key, c, r, t) \<in> set (prims_of ops Map.empty) \<Longrightarrow> c = cap \<and> r = rate"
    and "\<And>op st. who op \<and> rl_allowed (fst (run_op op st)) \<Longrightarrow> spent key (op_prims op st) st = 1"
  shows "of_nat (admitted_calls who ops Map.empty) \<le> cap + rate * (t1 - t0)"
proof -
  have "of_nat (spent key (prims_of ops Map.empty) Map.empty) \<le> cap + rate * (t1 - t0)"
    by (rule traffic_spent_bound [OF assms(1-3)])
      (use assms(4) in \<open>auto simp: bucket_good_def bucket_since_def\<close>)
  moreover have "admitted_calls who ops Map.empty \<le> spent key (prims_of ops Map.empty) Map.empty"
    by (rule admitted_calls_le_spent) (rule assms(5))
  ultimately show ?thesis
    by (meson of_nat_mono order_trans)
qed

lemma ip_admission_bound:
  assumes "traffic_ok t0 t1 ops" "0 < pa" "list_all (ip_limits ip pa) ops"
  shows "of_nat (admitted_calls (by_ip ip) ops Map.empty) \<le> of_nat pa + of_nat pa / 60 * (t1 - t0)"
  by (rule limiter_key_bound [OF assms(1), where key = "ip_key ip"])
    (use assms prims_of_limits(2) [OF assms(3)] admitted_spent_op(2) in \<open>auto\<close>)

lemma admitted_calls_append:
  "admitted_calls who (xs @ ys) st =
     admitted_calls who xs st + admitted_calls who ys (fold (\<lambda>op s. snd (run_op op s)) xs st)"
  by (induction xs arbitrary: st) auto

text \<open>
  A rejected caller that waits as told gets through.  If the per-address bucket refuses, the
  reported waiting time is at least one second, and a retry after at least that many seconds, with
  no use of the bucket in between, is admitted.
\<close>

theorem retry_after_suffices_ip:
  assumes "bucket_good (of_nat (Suc n)) (of_nat (Suc n) / 60) (st (ip_key ip))"
    and "bucket_since (st (ip_key ip)) (fst t)" "skew_ok t" "skew_ok t'"
    and "check_ip ip (Suc n) t st = (out, st')" "\<not> rl_allowed out"
    and "fst t + of_int (rl_retry_after out) \<le> fst t'"
  shows "1 \<le> rl_retry_after out \<and> rl_allowed (fst (check_ip ip (Suc n) t' st'))"
proof -
  let ?take = "bucket_take (of_nat (Suc n)) (of_nat (Suc n) / 60)"
  have c: "check_ip ip (Suc n) x s = do_prim (ip_key ip, of_nat (Suc n), of_nat (Suc n) / 60, x) s" for x s
    by (simp add: check_ip_def do_prim_def)
  have out: "fst (?take t (st (ip_key ip))) = (False, rl_retry_after out)"
    using assms(5,6) do_prim_take(1,2) [of "ip_key ip" "of_nat (Suc n)" "of_nat (Suc n) / 60" t st]
    unfolding c by (metis fst_conv prod.collapse)
  have st': "st' (ip_key ip) = snd (?take t (st (ip_key ip)))"
    using assms(5) do_prim_take(3) [of "ip_key ip" "of_nat (Suc n)" "of_nat (Suc n) / 60" t st]
    unfolding c by simp
  from minute.retry_after_suffices [OF assms(1-3) out assms(7) assms(4)] show ?thesis
    unfolding c by (simp add: do_prim_take st')
qed

text \<open>A drained bucket of one token per minute.\<close>

definition drained :: redis_store where
  "drained = [ip_key (u ''1.2.3.4'') \<mapsto> \<lparr>bk_tokens = 0, bk_ts = 10, bk_expires = 130\<rparr>]"

theorem retry_after_suffices_ip_witness:
  "rl_allowed (fst (check_ip (u ''1.2.3.4'') (Suc 0) (80, 80)
     (snd (check_ip (u ''1.2.3.4'') (Suc 0) (20, 20) drained))))"
proof -
  let ?k = "u ''1.2.3.4''"
  obtain out st' where c: "check_ip ?k (Suc 0) (20, 20) drained = (out, st')"
    by (cases "check_ip ?k (Suc 0) (20, 20) drained") auto
  have o: "\<not> rl_allowed out" "rl_retry_after out = 50"
    using c by (auto simp: check_ip_def consume_def lua_token_bucket_def hmget_def refill_def drained_def
        Let_def)
  have g: "bucket_good (of_nat (Suc 0)) (of_nat (Suc 0) / 60) (drained (ip_key ?k))"
    "bucket_since (drained (ip_key ?k)) 20"
    by (simp_all add: drained_def bucket_good_def bucket_since_def)
  have "1 \<le> rl_retry_after out \<and> rl_allowed (fst (check_ip ?k (Suc 0) (80, 80) st'))"
    by (rule retry_after_suffices_ip [where t = "(20, 20)", OF _ _ _ _ c o(1)])
      (use g o in \<open>simp_all add: skew_ok_def\<close>)
  with c show ?thesis by simp
qed

lemma seconds_until_refill_tight:
  assumes "0 < n" "seconds_until_refill n = Inr s"
  shows "1 \<le> s \<and> 1 \<le> of_int s * (of_int n / 60 :: rat) \<and> (s = 1 \<or> of_int (s - 1) * (of_int n / 60 :: rat) < 1)"
proof -
  let ?x = "60 / of_int n :: rat"
  have s: "s = max 1 \<lceil>?x\<rceil>" and n: "(0 :: rat) < of_int n"
    using assms by (auto simp: seconds_until_refill_def Let_def)
  have x: "?x \<le> of_int s" "s = 1 \<or> of_int (s - 1) < ?x"
    unfolding s by linarith+
  have "1 \<le> of_int s * (of_int n / 60 :: rat)" "s = 1 \<or> of_int (s - 1) * (of_int n / 60 :: rat) < 1"
    using n x by (simp_all add: field_simps del: of_int_diff)
  with s show ?thesis by simp
qed

end
