(* ===== verification/Sha256.thy ===== *)
theory Sha256
  imports Py_Unicode "HOL-Library.Word"
begin

unbundle bit_operations_syntax

text \<open>
  The cryptographic part of Python's standard library that the source calls: UTF-8 encoding,
  \<^verbatim>\<open>hashlib.sha256\<close>, \<^verbatim>\<open>hmac.new(key, msg, hashlib.sha256)\<close> and \<^verbatim>\<open>hexdigest\<close>, executable on 32-bit
  words.  The lemmas fix the shape of a digest, 64 lower-case hexadecimal characters, and that
  the hexadecimal form determines the bytes.
\<close>

type_synonym bytes = "8 word list"

section \<open>UTF-8\<close>

text \<open>Surrogates, which Python refuses to encode, do not occur in decoded requests.\<close>

definition utf8_char :: "nat \<Rightarrow> nat list" where
  "utf8_char c =
     (if c < 128 then [c]
      else if c < 2048 then [192 + c div 64, 128 + c mod 64]
      else if c < 65536 then [224 + c div 4096, 128 + c div 64 mod 64, 128 + c mod 64]
      else [240 + c div 262144, 128 + c div 4096 mod 64, 128 + c div 64 mod 64, 128 + c mod 64])"

definition utf8_encode :: "ustr \<Rightarrow> bytes" where
  "utf8_encode s = map of_nat (concat (map utf8_char s))"

section \<open>SHA-256\<close>

definition sha_K :: "32 word list" where
  "sha_K =
    [0x428A2F98, 0x71374491, 0xB5C0FBCF, 0xE9B5DBA5, 0x3956C25B, 0x59F111F1,
     0x923F82A4, 0xAB1C5ED5, 0xD807AA98, 0x12835B01, 0x243185BE, 0x550C7DC3,
     0x72BE5D74, 0x80DEB1FE, 0x9BDC06A7, 0xC19BF174, 0xE49B69C1, 0xEFBE4786,
     0x0FC19DC6, 0x240CA1CC, 0x2DE92C6F, 0x4A7484AA, 0x5CB0A9DC, 0x76F988DA,
     0x983E5152, 0xA831C66D, 0xB00327C8, 0xBF597FC7, 0xC6E00BF3, 0xD5A79147,
     0x06CA6351, 0x14292967, 0x27B70A85, 0x2E1B2138, 0x4D2C6DFC, 0x53380D13,
     0x650A7354, 0x766A0ABB, 0x81C2C92E, 0x92722C85, 0xA2BFE8A1, 0xA81A664B,
     0xC24B8B70, 0xC76C51A3, 0xD192E819, 0xD6990624, 0xF40E3585, 0x106AA070,
     0x19A4C116, 0x1E376C08, 0x2748774C, 0x34B0BCB5, 0x391C0CB3, 0x4ED8AA4A,
     0x5B9CCA4F, 0x682E6FF3, 0x748F82EE, 0x78A5636F, 0x84C87814, 0x8CC70208,
     0x90BEFFFA, 0xA4506CEB, 0xBEF9A3F7, 0xC67178F2]"

definition sha_H0 :: "32 word list" where
  "sha_H0 =
    [0x6A09E667, 0xBB67AE85, 0x3C6EF372, 0xA54FF53A, 0x510E527F, 0x9B05688C,
     0x1F83D9AB, 0x5BE0CD19]"

definition ch :: "32 word \<Rightarrow> 32 word \<Rightarrow> 32 word \<Rightarrow> 32 word" where
  "ch x y z = (x AND y) XOR (NOT x AND z)"

definition maj :: "32 word \<Rightarrow> 32 word \<Rightarrow> 32 word \<Rightarrow> 32 word" where
  "maj x y z = (x AND y) XOR (x AND z) XOR (y AND z)"

definition big_sigma0 :: "32 word \<Rightarrow> 32 word" where
  "big_sigma0 x = word_rotr 2 x XOR word_rotr 13 x XOR word_rotr 22 x"

definition big_sigma1 :: "32 word \<Rightarrow> 32 word" where
  "big_sigma1 x = word_rotr 6 x XOR word_rotr 11 x XOR word_rotr 25 x"

definition small_sigma0 :: "32 word \<Rightarrow> 32 word" where
  "small_sigma0 x = word_rotr 7 x XOR word_rotr 18 x XOR drop_bit 3 x"

definition small_sigma1 :: "32 word \<Rightarrow> 32 word" where
  "small_sigma1 x = word_rotr 17 x XOR word_rotr 19 x XOR drop_bit 10 x"

text \<open>The message schedule, with the words in reverse order so that the last ones are at hand.\<close>

fun schedule :: "nat \<Rightarrow> 32 word list \<Rightarrow> 32 word list" where
  "schedule 0 rws = rws"
| "schedule (Suc n) rws =
     schedule n ((small_sigma1 (rws ! 1) + rws ! 6 + small_sigma0 (rws ! 14) + rws ! 15) # rws)"

fun sha_round :: "32 word list \<Rightarrow> 32 word \<times> 32 word \<Rightarrow> 32 word list" where
  "sha_round [a, b, c, d, e, f, g, h] (k, w) =
     (let t1 = h + big_sigma1 e + ch e f g + k + w;
          t2 = big_sigma0 a + maj a b c
      in [t1 + t2, a, b, c, d + t1, e, f, g])"
| "sha_round st kw = st"

definition sha_block :: "32 word list \<Rightarrow> 32 word list \<Rightarrow> 32 word list" where
  "sha_block st ws = map2 (+) st (foldl sha_round st (zip sha_K (rev (schedule 48 (rev ws)))))"

fun be_words :: "bytes \<Rightarrow> 32 word list" where
  "be_words (a # b # c # d # bs) =
     (((ucast a * 256 + ucast b) * 256 + ucast c) * 256 + ucast d) # be_words bs"
| "be_words _ = []"

definition be_bytes32 :: "32 word \<Rightarrow> bytes" where
  "be_bytes32 w = map (\<lambda>i. ucast (drop_bit i w)) [24, 16, 8, 0]"

definition be_bytes64 :: "64 word \<Rightarrow> bytes" where
  "be_bytes64 w = map (\<lambda>i. ucast (drop_bit i w)) [56, 48, 40, 32, 24, 16, 8, 0]"

definition sha_pad :: "bytes \<Rightarrow> bytes" where
  "sha_pad m =
     m @ [0x80] @ replicate ((119 - length m mod 64) mod 64) 0 @ be_bytes64 (of_nat (8 * length m))"

function sha_blocks :: "32 word list \<Rightarrow> 32 word list \<Rightarrow> 32 word list" where
  "sha_blocks st ws = (if ws = [] then st else sha_blocks (sha_block st (take 16 ws)) (drop 16 ws))"
  by pat_completeness auto
termination
  by (relation "measure (\<lambda>(st, ws). length ws)") auto

declare sha_blocks.simps [simp del]

definition sha256 :: "bytes \<Rightarrow> bytes" where
  "sha256 m = concat (map be_bytes32 (sha_blocks sha_H0 (be_words (sha_pad m))))"

section \<open>HMAC and hexadecimal digests\<close>

definition hmac_key :: "bytes \<Rightarrow> bytes" where
  "hmac_key k =
     (let k' = (if length k > 64 then sha256 k else k) in k' @ replicate (64 - length k') 0)"

definition hmac_sha256 :: "bytes \<Rightarrow> bytes \<Rightarrow> bytes" where
  "hmac_sha256 key msg =
     sha256 (map ((XOR) 0x5C) (hmac_key key) @ sha256 (map ((XOR) 0x36) (hmac_key key) @ msg))"

definition hex_char :: "nat \<Rightarrow> nat" where
  "hex_char n = (if n < 10 then 48 + n else 87 + n)"

definition hexdigest :: "bytes \<Rightarrow> ustr" where
  "hexdigest bs = concat (map (\<lambda>b. [hex_char (unat b div 16), hex_char (unat b mod 16)]) bs)"

section \<open>Facts\<close>

lemma length_sha_round: "length st = 8 \<Longrightarrow> length (sha_round st kw) = 8"
proof -
  assume l: "length st = 8"
  obtain k w where kw: "kw = (k, w)" by (cases kw)
  from l obtain a b c d e f g h where "st = [a, b, c, d, e, f, g, h]"
    by (auto simp: eval_nat_numeral length_Suc_conv)
  then show ?thesis by (simp add: kw Let_def)
qed

lemma length_sha_rounds: "length st = 8 \<Longrightarrow> length (foldl sha_round st kws) = 8"
  by (induction kws arbitrary: st) (simp_all add: length_sha_round)

lemma length_sha_block: "length st = 8 \<Longrightarrow> length (sha_block st ws) = 8"
  by (simp add: sha_block_def length_sha_rounds)

lemma length_sha_blocks: "length st = 8 \<Longrightarrow> length (sha_blocks st ws) = 8"
proof (induction st ws rule: sha_blocks.induct)
  case (1 st ws)
  then show ?case
    by (subst sha_blocks.simps) (simp add: length_sha_block)
qed

lemma length_sha256: "length (sha256 m) = 32"
proof -
  have "length (sha_blocks sha_H0 ws) = 8" for ws
    by (rule length_sha_blocks) (simp add: sha_H0_def)
  then show ?thesis
    by (simp add: sha256_def length_concat comp_def be_bytes32_def sum_list_triv)
qed

lemma length_hexdigest: "length (hexdigest bs) = 2 * length bs"
  by (simp add: hexdigest_def length_concat comp_def sum_list_triv)

lemma hex_char_range: "n < 16 \<Longrightarrow> 48 \<le> hex_char n \<and> hex_char n \<le> 57 \<or> 97 \<le> hex_char n \<and> hex_char n \<le> 102"
  by (auto simp: hex_char_def)

lemma hexdigest_range:
  "c \<in> set (hexdigest bs) \<Longrightarrow> 48 \<le> c \<and> c \<le> 57 \<or> 97 \<le> c \<and> c \<le> 102"
proof -
  assume "c \<in> set (hexdigest bs)"
  then obtain b :: "8 word" where c: "c = hex_char (unat b div 16) \<or> c = hex_char (unat b mod 16)"
    by (auto simp: hexdigest_def)
  have "unat b < 256"
    using unsigned_less [of b] by simp
  then have "unat b div 16 < 16" by simp
  with c show ?thesis
    using hex_char_range [of "unat b div 16"] hex_char_range [of "unat b mod 16"] by auto
qed

lemma sha256_hex_shape:
  "length (hexdigest (sha256 m)) = 64" "length (hexdigest (hmac_sha256 k m)) = 64"
  by (simp_all add: length_hexdigest length_sha256 hmac_sha256_def)

lemma hexdigest_inj: "hexdigest a = hexdigest b \<Longrightarrow> a = b"
proof (induction a arbitrary: b)
  case Nil
  then show ?case by (cases b) (auto simp: hexdigest_def)
next
  case (Cons x a)
  then obtain y b' where b: "b = y # b'" by (cases b) (auto simp: hexdigest_def)
  have inj: "m = n" if "hex_char m = hex_char n" "m < 16" "n < 16" for m n
    using that by (auto simp: hex_char_def split: if_splits)
  have lt: "unat z div 16 < 16" for z :: "8 word"
  proof -
    have "unat z < 256" using unsigned_less [of z] by simp
    then show ?thesis by simp
  qed
  from Cons.prems b have e: "hex_char (unat x div 16) = hex_char (unat y div 16)"
    "hex_char (unat x mod 16) = hex_char (unat y mod 16)" and t: "hexdigest a = hexdigest b'"
    by (auto simp: hexdigest_def)
  have "unat x div 16 = unat y div 16" "unat x mod 16 = unat y mod 16"
    using inj [OF e(1) lt lt] inj [OF e(2)] by auto
  then have "unat x = unat y" by (metis div_mult_mod_eq)
  with Cons.IH [OF t] b show ?case by (simp add: unsigned_word_eqI)
qed

end
