(* ===== verification/Hmac_Auth.thy ===== *)
theory Hmac_Auth
  imports Sha256
begin

text \<open>
  \<^verbatim>\<open>app/security/api_key.py\<close> and \<^verbatim>\<open>app/security/hmac_auth.py\<close>: the API key table and its lifecycle,
  the canonical string and its HMAC signature, the timestamp window, the store of used nonces with
  its garbage collector, and \<open>verify_request\<close>.  Clock readings are arguments: the application's
  clock for the window and the collector, the database's for the time a nonce is recorded at.
  Random key ids and secrets are arguments of \<open>issue_api_key\<close>.  The lemmas characterise acceptance
  exactly, show that a signature binds method, path, body digest, timestamp and nonce, that a
  revoked key stays revoked, and that no accepted request can be replayed.
\<close>

section \<open>API keys\<close>

record api_key =
  ak_key_id :: ustr
  ak_secret :: ustr
  ak_name :: ustr
  ak_ip_allowlist :: "ustr list option"
  ak_rate_per_minute :: int
  ak_rate_per_hour :: int
  ak_enabled :: bool
  ak_is_admin :: bool
  ak_created_by :: ustr
  ak_created_at :: rat
  ak_revoked_at :: "rat option"

datatype api_key_error = ApiKeyError

definition find_active_key :: "api_key list \<Rightarrow> ustr \<Rightarrow> api_key option" where
  "find_active_key keys key_id = find (\<lambda>k. ak_key_id k = key_id) keys"

definition issue_api_key ::
  "api_key list \<Rightarrow> ustr \<Rightarrow> ustr \<Rightarrow> ustr \<Rightarrow> ustr list option \<Rightarrow> int \<Rightarrow> int \<Rightarrow> ustr \<Rightarrow> bool \<Rightarrow> rat
     \<Rightarrow> api_key_error + ((api_key \<times> ustr) \<times> api_key list)" where
  "issue_api_key keys key_id secret name allow rpm rph created_by is_admin now =
     (if rpm \<le> 0 \<or> rph \<le> 0 then Inl ApiKeyError
      else
        (let row = \<lparr>ak_key_id = key_id, ak_secret = secret, ak_name = name, ak_ip_allowlist = allow,
                    ak_rate_per_minute = rpm, ak_rate_per_hour = rph, ak_enabled = True,
                    ak_is_admin = is_admin, ak_created_by = created_by, ak_created_at = now,
                    ak_revoked_at = None\<rparr>
         in if key_id \<in> set (map ak_key_id keys) then Inl ApiKeyError
            else Inr ((row, secret), keys @ [row])))"

text \<open>\<^verbatim>\<open>ORDER BY created_at DESC\<close>; rows created at the same instant keep table order.\<close>

definition list_keys :: "api_key list \<Rightarrow> bool \<Rightarrow> api_key list" where
  "list_keys keys include_revoked =
     sort_key (\<lambda>k. - ak_created_at k)
       (filter (\<lambda>k. include_revoked \<or> ak_revoked_at k = None) keys)"

definition update_key :: "ustr \<Rightarrow> (api_key \<Rightarrow> api_key) \<Rightarrow> api_key list \<Rightarrow> api_key list" where
  "update_key key_id f keys = map (\<lambda>k. if ak_key_id k = key_id then f k else k) keys"

definition set_enabled :: "api_key list \<Rightarrow> ustr \<Rightarrow> bool \<Rightarrow> api_key_error + api_key list" where
  "set_enabled keys key_id enabled =
     (case find_active_key keys key_id of
        None \<Rightarrow> Inl ApiKeyError
      | Some row \<Rightarrow> Inr (update_key key_id (\<lambda>k. k\<lparr>ak_enabled := enabled\<rparr>) keys))"

definition revoke :: "api_key list \<Rightarrow> ustr \<Rightarrow> rat \<Rightarrow> api_key_error + api_key list" where
  "revoke keys key_id now =
     (case find_active_key keys key_id of
        None \<Rightarrow> Inl ApiKeyError
      | Some row \<Rightarrow>
          Inr (update_key key_id (\<lambda>k. k\<lparr>ak_enabled := False, ak_revoked_at := Some now\<rparr>) keys))"

section \<open>Requests and callers\<close>

record http_request =
  rq_method :: ustr
  rq_path :: ustr
  rq_body :: bytes
  rq_headers :: "(ustr \<times> ustr) list"
  rq_client :: "ustr option"

record authed_caller =
  ac_key_id :: ustr
  ac_name :: ustr
  ac_rate_per_minute :: int
  ac_rate_per_hour :: int
  ac_ip_allowlist :: "ustr list option"
  ac_client_ip :: ustr
  ac_is_admin :: bool

text \<open>\<open>HmacAuthError code\<close> is the error the dependency maps to a response; a crash is any other.\<close>

datatype auth_error = HmacAuthError string | Crash exn

section \<open>Canonical string and signature\<close>

definition upper_char :: "nat \<Rightarrow> nat" where
  "upper_char c = (if 97 \<le> c \<and> c \<le> 122 then c - 32 else c)"

text \<open>HTTP methods are ASCII, so \<^verbatim>\<open>str.upper\<close> is the ASCII one.\<close>

definition canonical_string :: "ustr \<Rightarrow> ustr \<Rightarrow> ustr \<Rightarrow> ustr \<Rightarrow> bytes \<Rightarrow> ustr" where
  "canonical_string timestamp nonce method path body =
     join [10] [timestamp, nonce, map upper_char method, path, hexdigest (sha256 body)]"

definition compute_signature :: "ustr \<Rightarrow> ustr \<Rightarrow> ustr \<Rightarrow> ustr \<Rightarrow> ustr \<Rightarrow> bytes \<Rightarrow> ustr" where
  "compute_signature secret timestamp nonce method path body =
     hexdigest (hmac_sha256 (utf8_encode secret)
       (utf8_encode (canonical_string timestamp nonce method path body)))"

section \<open>Timestamps\<close>

definition TIMESTAMP_WINDOW_SECONDS :: rat where
  "TIMESTAMP_WINDOW_SECONDS = 5 * 60"

definition NONCE_RETENTION_SECONDS :: rat where
  "NONCE_RETENTION_SECONDS = 10 * 60"

text \<open>
  Python's \<^verbatim>\<open>int(str)\<close>: blanks around, an optional sign, at most 4300 digits with single underscores
  between.
\<close>

fun digits_value :: "int \<Rightarrow> bool \<Rightarrow> ustr \<Rightarrow> int option" where
  "digits_value n prev [] = (if prev then Some n else None)"
| "digits_value n prev (c # s) =
     (if c = 95 then (if prev then digits_value n False s else None)
      else case decimal_value c of
             None \<Rightarrow> None
           | Some d \<Rightarrow> digits_value (n * 10 + int d) True s)"

definition read_digits :: "ustr \<Rightarrow> int option" where
  "read_digits ds = (if 4300 < length (filter (\<lambda>c. c \<noteq> 95) ds) then None else digits_value 0 False ds)"

definition py_int :: "ustr \<Rightarrow> int option" where
  "py_int s =
     (case strip s of
        [] \<Rightarrow> None
      | c # ds \<Rightarrow>
          if c = 45 then map_option uminus (read_digits ds)
          else if c = 43 then read_digits ds
          else read_digits (c # ds))"

text \<open>
  The clock is a float, so the difference converts the integer to one, which fails from
  halfway between the largest float and \<open>2^1024\<close> on.
\<close>

definition FLOAT_LIMIT :: int where
  "FLOAT_LIMIT = 2 ^ 1024 - 2 ^ 970"

definition check_timestamp :: "ustr \<Rightarrow> rat \<Rightarrow> auth_error + unit" where
  "check_timestamp header current =
     (case py_int header of
        None \<Rightarrow> Inl (HmacAuthError ''REQ-4012'')
      | Some ts \<Rightarrow>
          if FLOAT_LIMIT \<le> \<bar>ts\<bar> then Inl (Crash OverflowError)
          else if \<bar>current - of_int ts\<bar> > TIMESTAMP_WINDOW_SECONDS then Inl (HmacAuthError ''REQ-4012'')
          else Inr ())"

section \<open>Nonces\<close>

record nonce_row =
  nn_key_id :: ustr
  nn_nonce :: ustr
  nn_used_at :: rat

text \<open>The nonce column holds 64 characters; a longer value is a database error.\<close>

definition claim_nonce :: "nonce_row list \<Rightarrow> ustr \<Rightarrow> ustr \<Rightarrow> rat \<Rightarrow> (auth_error + unit) \<times> nonce_row list" where
  "claim_nonce ns key_id nonce dbnow =
     (if length nonce > 64 then (Inl (Crash RuntimeError), ns)
      else if (key_id, nonce) \<in> set (map (\<lambda>n. (nn_key_id n, nn_nonce n)) ns)
      then (Inl (HmacAuthError ''REQ-4013''), ns)
      else (Inr (), ns @ [\<lparr>nn_key_id = key_id, nn_nonce = nonce, nn_used_at = dbnow\<rparr>]))"

definition vacuum_old_nonces :: "rat \<Rightarrow> rat \<Rightarrow> nonce_row list \<Rightarrow> nat \<times> nonce_row list" where
  "vacuum_old_nonces retention now ns =
     (let keep = filter (\<lambda>n. \<not> nn_used_at n < now - retention) ns
      in (length ns - length keep, keep))"

section \<open>Verification\<close>

definition header :: "http_request \<Rightarrow> string \<Rightarrow> ustr option" where
  "header rq name = map_of (rq_headers rq) (u name)"

definition client_ip :: "bool \<Rightarrow> http_request \<Rightarrow> ustr" where
  "client_ip trust_forwarded_for rq =
     (let direct = (case rq_client rq of Some h \<Rightarrow> h | None \<Rightarrow> u ''0.0.0.0'') in
      if trust_forwarded_for then
        (case header rq ''x-forwarded-for'' of
           Some fwd \<Rightarrow> if fwd \<noteq> [] then strip (hd (split_on 44 fwd)) else direct
         | None \<Rightarrow> direct)
      else direct)"

record hmac_headers =
  hh_api_key :: "ustr option"
  hh_timestamp :: "ustr option"
  hh_nonce :: "ustr option"
  hh_signature :: "ustr option"

text \<open>\<^verbatim>\<open>not x\<close> on an optional string.\<close>

definition blank :: "ustr option \<Rightarrow> bool" where
  "blank x \<longleftrightarrow> x = None \<or> x = Some []"

text \<open>\<^verbatim>\<open>hmac.compare_digest\<close> refuses strings with characters outside ASCII.\<close>

definition verify_request ::
  "bool \<Rightarrow> api_key list \<Rightarrow> http_request \<Rightarrow> hmac_headers \<Rightarrow> rat \<Rightarrow> rat \<Rightarrow> nonce_row list
     \<Rightarrow> (auth_error + authed_caller) \<times> nonce_row list" where
  "verify_request trust keys rq h now dbnow ns =
     (if blank (hh_api_key h) \<or> blank (hh_timestamp h) \<or> blank (hh_nonce h) \<or> blank (hh_signature h)
      then (Inl (HmacAuthError ''REQ-4011''), ns)
      else
        (let x_api_key = the (hh_api_key h); x_timestamp = the (hh_timestamp h);
             x_nonce = the (hh_nonce h); x_signature = the (hh_signature h)
         in case check_timestamp x_timestamp now of Inl e \<Rightarrow> (Inl e, ns) | Inr _ \<Rightarrow>
            case find_active_key keys x_api_key of
              None \<Rightarrow> (Inl (HmacAuthError ''REQ-4011''), ns)
            | Some row \<Rightarrow>
                if \<not> ak_enabled row \<or> ak_revoked_at row \<noteq> None
                then (Inl (HmacAuthError ''REQ-4014''), ns)
                else if \<not> list_all (\<lambda>c. c < 128) x_signature then (Inl (Crash TypeError), ns)
                else if compute_signature (ak_secret row) x_timestamp x_nonce (rq_method rq)
                          (rq_path rq) (rq_body rq) \<noteq> x_signature
                then (Inl (HmacAuthError ''REQ-4010''), ns)
                else case claim_nonce ns (ak_key_id row) x_nonce dbnow of
                       (Inl e, ns') \<Rightarrow> (Inl e, ns')
                     | (Inr _, ns') \<Rightarrow>
                         (Inr \<lparr>ac_key_id = ak_key_id row, ac_name = ak_name row,
                               ac_rate_per_minute = ak_rate_per_minute row,
                               ac_rate_per_hour = ak_rate_per_hour row,
                               ac_ip_allowlist = (case ak_ip_allowlist row of
                                  None \<Rightarrow> None | Some l \<Rightarrow> if l = [] then None else Some l),
                               ac_client_ip = client_ip trust rq,
                               ac_is_admin = ak_is_admin row\<rparr>, ns')))"

section \<open>Acceptance, exactly\<close>

text \<open>What the four headers must be for the request to be accepted by the row of the key.\<close>

definition acceptable :: "api_key \<Rightarrow> http_request \<Rightarrow> hmac_headers \<Rightarrow> rat \<Rightarrow> nonce_row list \<Rightarrow> bool" where
  "acceptable row rq h now ns \<longleftrightarrow>
     (\<exists>ts ts_text nonce.
        hh_api_key h = Some (ak_key_id row) \<and> ak_key_id row \<noteq> [] \<and>
        hh_timestamp h = Some ts_text \<and> py_int ts_text = Some ts \<and> \<bar>ts\<bar> < FLOAT_LIMIT \<and>
        \<bar>now - of_int ts\<bar> \<le> TIMESTAMP_WINDOW_SECONDS \<and>
        hh_nonce h = Some nonce \<and> nonce \<noteq> [] \<and> length nonce \<le> 64 \<and>
        ak_enabled row \<and> ak_revoked_at row = None \<and>
        hh_signature h = Some (compute_signature (ak_secret row) ts_text nonce (rq_method rq)
          (rq_path rq) (rq_body rq)) \<and>
        (\<forall>n \<in> set ns. \<not> (nn_key_id n = ak_key_id row \<and> nn_nonce n = nonce)))"

lemma find_active_key_Some:
  "find_active_key keys k = Some row \<Longrightarrow> row \<in> set keys \<and> ak_key_id row = k"
  by (auto simp: find_active_key_def find_Some_split)

lemma find_active_key_unique:
  assumes "distinct (map ak_key_id keys)" "row \<in> set keys"
  shows "find_active_key keys (ak_key_id row) = Some row"
proof (cases "find_active_key keys (ak_key_id row)")
  case None
  with assms show ?thesis by (auto simp: find_active_key_def find_None_iff_ball)
next
  case (Some r)
  with find_active_key_Some [OF Some] assms show ?thesis by (auto simp: distinct_map inj_on_def)
qed

lemma compute_signature_shape:
  "length (compute_signature s t n m p b) = 64" "list_all (\<lambda>c. c < 128) (compute_signature s t n m p b)"
proof -
  have "c < 128" if "c \<in> set (hexdigest bs)" for c bs
    using hexdigest_range [OF that] by auto
  then show "length (compute_signature s t n m p b) = 64"
    "list_all (\<lambda>c. c < 128) (compute_signature s t n m p b)"
    by (auto simp: compute_signature_def sha256_hex_shape list_all_iff)
qed

text \<open>The caller that a row of the table makes.\<close>

definition row_caller :: "bool \<Rightarrow> http_request \<Rightarrow> api_key \<Rightarrow> authed_caller" where
  "row_caller trust rq row =
     \<lparr>ac_key_id = ak_key_id row, ac_name = ak_name row, ac_rate_per_minute = ak_rate_per_minute row,
      ac_rate_per_hour = ak_rate_per_hour row,
      ac_ip_allowlist = (if ak_ip_allowlist row = Some [] then None else ak_ip_allowlist row),
      ac_client_ip = client_ip trust rq, ac_is_admin = ak_is_admin row\<rparr>"

lemma verify_request_accepts:
  assumes "verify_request trust keys rq h now dbnow ns = (Inr caller, ns')"
  shows "\<exists>row nonce. row \<in> set keys \<and> acceptable row rq h now ns \<and> hh_nonce h = Some nonce \<and>
           caller = row_caller trust rq row \<and>
           ns' = ns @ [\<lparr>nn_key_id = ak_key_id row, nn_nonce = nonce, nn_used_at = dbnow\<rparr>]"
proof -
  from assms obtain k t n s where h: "hh_api_key h = Some k" "hh_timestamp h = Some t"
    "hh_nonce h = Some n" "hh_signature h = Some s" "k \<noteq> []" "t \<noteq> []" "n \<noteq> []" "s \<noteq> []"
    by (auto simp: verify_request_def blank_def split: if_splits)
  then have b: "\<not> blank (hh_api_key h)" "\<not> blank (hh_timestamp h)" "\<not> blank (hh_nonce h)"
    "\<not> blank (hh_signature h)"
    by (auto simp: blank_def)
  obtain row where row: "check_timestamp t now = Inr ()" "find_active_key keys k = Some row"
    "ak_enabled row" "ak_revoked_at row = None"
    "compute_signature (ak_secret row) t n (rq_method rq) (rq_path rq) (rq_body rq) = s"
    and cl: "claim_nonce ns (ak_key_id row) n dbnow = (Inr (), ns')"
    and c: "caller = row_caller trust rq row"
    using assms b h(1-4)
    by (auto simp: verify_request_def row_caller_def Let_def split: sum.splits option.splits if_splits prod.splits)
  obtain ts where ts: "py_int t = Some ts" "\<bar>ts\<bar> < FLOAT_LIMIT" "\<bar>now - of_int ts\<bar> \<le> TIMESTAMP_WINDOW_SECONDS"
    using row(1) by (auto simp: check_timestamp_def split: option.splits if_splits)
  have n: "length n \<le> 64" "\<forall>x \<in> set ns. \<not> (nn_key_id x = ak_key_id row \<and> nn_nonce x = n)"
    "ns' = ns @ [\<lparr>nn_key_id = ak_key_id row, nn_nonce = n, nn_used_at = dbnow\<rparr>]"
    using cl by (auto simp: claim_nonce_def image_iff split: if_splits)
  have "acceptable row rq h now ns"
    unfolding acceptable_def using h row(3-5) ts n find_active_key_Some [OF row(2)] by auto
  with h(3) n(3) c find_active_key_Some [OF row(2)] show ?thesis by blast
qed

lemma verify_request_complete:
  assumes "distinct (map ak_key_id keys)" "row \<in> set keys" "acceptable row rq h now ns"
  shows "\<exists>caller ns'. verify_request trust keys rq h now dbnow ns = (Inr caller, ns')"
proof -
  from assms(3) obtain ts t n where row: "hh_api_key h = Some (ak_key_id row)"
      "ak_key_id row \<noteq> []" "hh_timestamp h = Some t" "py_int t = Some ts" "\<bar>ts\<bar> < FLOAT_LIMIT"
      "\<bar>now - of_int ts\<bar> \<le> TIMESTAMP_WINDOW_SECONDS" "hh_nonce h = Some n" "n \<noteq> []" "length n \<le> 64"
      "ak_enabled row" "ak_revoked_at row = None"
      "hh_signature h = Some (compute_signature (ak_secret row) t n (rq_method rq) (rq_path rq) (rq_body rq))"
      "\<forall>x \<in> set ns. \<not> (nn_key_id x = ak_key_id row \<and> nn_nonce x = n)"
    unfolding acceptable_def by blast
  have "t \<noteq> []" using row(4) by (auto simp: py_int_def)
  moreover have "compute_signature (ak_secret row) t n (rq_method rq) (rq_path rq) (rq_body rq) \<noteq> []"
    using compute_signature_shape(1) by (metis length_0_conv zero_neq_numeral)
  moreover have "(ak_key_id row, n) \<notin> (\<lambda>x. (nn_key_id x, nn_nonce x)) ` set ns"
    using row(13) by auto
  ultimately show ?thesis
    using row find_active_key_unique [OF assms(1,2)] compute_signature_shape(2)
    by (simp add: verify_request_def blank_def check_timestamp_def claim_nonce_def)
qed

text \<open>
  C5: exactly the properly signed requests are accepted.  With unique key ids, verification succeeds
  if and only if some enabled, unrevoked key of the table matches the key header, the timestamp
  header reads as an integer that a float can hold, within five minutes of the clock, the nonce is
  non-empty, at most 64 characters and not recorded for that key, and the signature header is the HMAC of
  the canonical string under the key's secret.  No lower bound on the nonce is enforced beyond one
  character, although \<^verbatim>\<open>docs/api_integration.md\<close> asks clients for at least sixteen; the two characters
  of the example's nonce are enough.
\<close>

theorem verify_request_iff:
  assumes "distinct (map ak_key_id keys)"
  shows "(\<exists>caller ns'. verify_request trust keys rq h now dbnow ns = (Inr caller, ns')) \<longleftrightarrow>
         (\<exists>row \<in> set keys. acceptable row rq h now ns)"
  using verify_request_accepts verify_request_complete [OF assms] by blast

text \<open>A key and a request signed with it, for the examples.\<close>

definition sample_key :: api_key where
  "sample_key =
     \<lparr>ak_key_id = u ''k_1'', ak_secret = u ''s3cret'', ak_name = u ''board'', ak_ip_allowlist = None,
      ak_rate_per_minute = 60, ak_rate_per_hour = 1000, ak_enabled = True, ak_is_admin = False,
      ak_created_by = u ''cli'', ak_created_at = 0, ak_revoked_at = None\<rparr>"

definition sample_request :: http_request where
  "sample_request =
     \<lparr>rq_method = u ''post'', rq_path = u ''/v1/detect/post'', rq_body = [], rq_headers = [],
      rq_client = Some (u ''10.0.0.1'')\<rparr>"

definition sample_headers :: hmac_headers where
  "sample_headers =
     \<lparr>hh_api_key = Some (u ''k_1''), hh_timestamp = Some (u ''1000''), hh_nonce = Some (u ''n1''),
      hh_signature = Some (compute_signature (u ''s3cret'') (u ''1000'') (u ''n1'') (u ''post'')
        (u ''/v1/detect/post'') [])\<rparr>"

lemma py_int_1000: "py_int (u ''1000'') = Some 1000"
proof -
  have "strip (u ''1000'') = u ''1000''"
    by (rule strip_no_space) (auto simp: u_def is_space_ascii)
  then show ?thesis by (simp add: py_int_def read_digits_def u_def decimal_value_ascii)
qed

lemma sample_acceptable: "acceptable sample_key sample_request sample_headers 900 []"
  unfolding acceptable_def
  by (intro exI [of _ 1000] exI [of _ "u ''1000''"] exI [of _ "u ''n1''"])
    (simp add: sample_key_def sample_request_def sample_headers_def py_int_1000
      TIMESTAMP_WINDOW_SECONDS_def FLOAT_LIMIT_def)

theorem verify_request_iff_witness:
  "\<exists>caller ns'. verify_request False [sample_key] sample_request sample_headers 900 900 [] = (Inr caller, ns')"
  using verify_request_iff [of "[sample_key]" False sample_request sample_headers 900 900 "[]"]
    sample_acceptable by simp

section \<open>A signature binds the request\<close>

lemma canonical_string_inj:
  assumes "canonical_string t n m p b = canonical_string t' n' m' p' b'"
    and "10 \<notin> set t \<union> set n \<union> set m \<union> set p" "10 \<notin> set t' \<union> set n' \<union> set m' \<union> set p'"
  shows "t = t' \<and> n = n' \<and> map upper_char m = map upper_char m' \<and> p = p' \<and> sha256 b = sha256 b'"
proof -
  have up: "10 \<notin> set (map upper_char x)" if "10 \<notin> set x" for x
    using that by (auto simp: upper_char_def split: if_splits)
  have hx: "10 \<notin> set (hexdigest bs)" for bs
    using hexdigest_range [of 10 bs] by auto
  have "split_on 10 (canonical_string t n m p b) = [t, n, map upper_char m, p, hexdigest (sha256 b)]"
    "split_on 10 (canonical_string t' n' m' p' b') = [t', n', map upper_char m', p', hexdigest (sha256 b')]"
    unfolding canonical_string_def using assms(2,3) up hx by (intro split_on_join; simp)+
  with assms(1) show ?thesis
    by (auto dest: hexdigest_inj)
qed

text \<open>
  C17: a signature commits to the request.  Take two requests whose timestamp, nonce, method and
  path contain no line break, as no header or path of an HTTP request does.  If they get the same
  signature under the same secret, then either they agree on timestamp, nonce, method up to case, path
  and body, or the two messages exhibit a collision of HMAC-SHA-256 or of SHA-256 itself.
\<close>

theorem signature_binds_request:
  assumes "compute_signature s t n m p b = compute_signature s t' n' m' p' b'"
    and "10 \<notin> set t \<union> set n \<union> set m \<union> set p" "10 \<notin> set t' \<union> set n' \<union> set m' \<union> set p'"
  shows "(t = t' \<and> n = n' \<and> map upper_char m = map upper_char m' \<and> p = p' \<and> b = b') \<or>
         (b \<noteq> b' \<and> sha256 b = sha256 b') \<or>
         (canonical_string t n m p b \<noteq> canonical_string t' n' m' p' b' \<and>
          hmac_sha256 (utf8_encode s) (utf8_encode (canonical_string t n m p b)) =
            hmac_sha256 (utf8_encode s) (utf8_encode (canonical_string t' n' m' p' b')))"
proof (cases "canonical_string t n m p b = canonical_string t' n' m' p' b'")
  case True
  from canonical_string_inj [OF this assms(2,3)] show ?thesis by blast
next
  case False
  with assms(1) show ?thesis by (auto simp: compute_signature_def dest: hexdigest_inj)
qed

theorem signature_binds_request_witness:
  "map upper_char (u ''post'') = map upper_char (u ''POST'') \<and>
   compute_signature (u ''s'') (u ''1'') (u ''n'') (u ''post'') (u ''/p'') [] =
     compute_signature (u ''s'') (u ''1'') (u ''n'') (u ''POST'') (u ''/p'') []"
proof -
  have m: "map upper_char (u ''post'') = map upper_char (u ''POST'')"
    by (simp add: u_def upper_char_def)
  then have c: "compute_signature (u ''s'') (u ''1'') (u ''n'') (u ''post'') (u ''/p'') [] =
     compute_signature (u ''s'') (u ''1'') (u ''n'') (u ''POST'') (u ''/p'') []"
    by (simp only: compute_signature_def canonical_string_def)
  have nl: "10 \<notin> set (u ''1'') \<union> set (u ''n'') \<union> set (u ''post'') \<union> set (u ''/p'')"
    "10 \<notin> set (u ''1'') \<union> set (u ''n'') \<union> set (u ''POST'') \<union> set (u ''/p'')"
    by (simp_all add: u_def)
  show ?thesis
    using signature_binds_request [OF c nl] c m by blast
qed

section \<open>Key lifecycle\<close>

text \<open>The operations of the command line on the key table.\<close>

datatype key_op =
    K_issue ustr ustr ustr "ustr list option" int int ustr bool rat
  | K_enable ustr
  | K_disable ustr
  | K_revoke ustr rat

definition keep_on_error :: "'a \<Rightarrow> 'e + 'a \<Rightarrow> 'a" where
  "keep_on_error old r = (case r of Inl e \<Rightarrow> old | Inr new \<Rightarrow> new)"

fun run_key_op :: "key_op \<Rightarrow> api_key list \<Rightarrow> api_key list" where
  "run_key_op (K_issue k s nm al rpm rph cb ad now) keys =
     (case issue_api_key keys k s nm al rpm rph cb ad now of Inl e \<Rightarrow> keys | Inr (row, keys') \<Rightarrow> keys')"
| "run_key_op (K_enable k) keys = keep_on_error keys (set_enabled keys k True)"
| "run_key_op (K_disable k) keys = keep_on_error keys (set_enabled keys k False)"
| "run_key_op (K_revoke k now) keys = keep_on_error keys (revoke keys k now)"

definition keys_ok :: "api_key list \<Rightarrow> bool" where
  "keys_ok keys \<longleftrightarrow> distinct (map ak_key_id keys) \<and>
     (\<forall>k \<in> set keys. 0 < ak_rate_per_minute k \<and> 0 < ak_rate_per_hour k)"

text \<open>A key is dead when its row is revoked.\<close>

definition dead :: "ustr \<Rightarrow> api_key list \<Rightarrow> bool" where
  "dead kid keys \<longleftrightarrow> (\<exists>row. find_active_key keys kid = Some row \<and> ak_revoked_at row \<noteq> None)"

lemma find_update_key:
  assumes "\<And>k. ak_key_id (f k) = ak_key_id k"
  shows "find_active_key (update_key kid f keys) kid' =
     map_option (\<lambda>r. if kid' = kid then f r else r) (find_active_key keys kid')"
  unfolding find_active_key_def update_key_def by (induction keys) (auto simp: assms)

lemma map_id_update_key:
  assumes "\<And>k. ak_key_id (f k) = ak_key_id k"
  shows "map ak_key_id (update_key kid f keys) = map ak_key_id keys"
  by (simp add: update_key_def assms)

lemma dead_update_key:
  assumes "\<And>k. ak_key_id (f k) = ak_key_id k" "\<And>k. ak_revoked_at k \<noteq> None \<Longrightarrow> ak_revoked_at (f k) \<noteq> None"
    and "dead kid keys"
  shows "dead kid (update_key kid' f keys)"
proof -
  obtain row where "find_active_key keys kid = Some row" "ak_revoked_at row \<noteq> None"
    using assms(3) by (auto simp: dead_def)
  then show ?thesis
    using assms(2) [of row] by (auto simp: dead_def find_update_key [of f, OF assms(1)])
qed

lemma keys_ok_update_key:
  assumes "\<And>k. ak_key_id (f k) = ak_key_id k"
    "\<And>k. ak_rate_per_minute (f k) = ak_rate_per_minute k \<and> ak_rate_per_hour (f k) = ak_rate_per_hour k"
    and "keys_ok keys"
  shows "keys_ok (update_key kid f keys)"
  using assms(3) map_id_update_key [of f kid keys, OF assms(1)]
  by (auto simp: keys_ok_def update_key_def assms(2) simp del: map_map)

lemmas key_op_defs = issue_api_key_def set_enabled_def revoke_def keep_on_error_def

lemma run_key_op_ok: "keys_ok keys \<Longrightarrow> keys_ok (run_key_op op keys)"
proof (cases op)
  case (K_issue k s nm al rpm rph cb ad now)
  then show "keys_ok keys \<Longrightarrow> ?thesis"
    by (auto simp: keys_ok_def issue_api_key_def Let_def)
qed (auto simp: key_op_defs intro!: keys_ok_update_key split: option.splits)

lemma find_append_other:
  "find_active_key keys kid = Some row \<Longrightarrow> find_active_key (keys @ xs) kid = Some row"
  unfolding find_active_key_def by (induction keys) (auto split: if_splits)

lemma run_key_op_dead: "dead kid keys \<Longrightarrow> dead kid (run_key_op op keys)"
proof (cases op)
  case (K_issue k s nm al rpm rph cb ad now)
  then show "dead kid keys \<Longrightarrow> ?thesis"
    by (auto simp: dead_def issue_api_key_def Let_def dest: find_append_other)
qed (auto simp: key_op_defs intro!: dead_update_key split: option.splits)

section \<open>No replay\<close>

text \<open>What can happen to the nonce store: verifications of any requests and runs of the collector.\<close>

datatype nonce_event =
    N_verify bool "api_key list" http_request hmac_headers rat rat
  | N_vacuum rat

fun run_nonce_event :: "nonce_event \<Rightarrow> nonce_row list \<Rightarrow> nonce_row list" where
  "run_nonce_event (N_verify trust keys rq h now dbnow) ns = snd (verify_request trust keys rq h now dbnow ns)"
| "run_nonce_event (N_vacuum now) ns = snd (vacuum_old_nonces NONCE_RETENTION_SECONDS now ns)"

fun vacuum_by :: "rat \<Rightarrow> nonce_event \<Rightarrow> bool" where
  "vacuum_by t (N_vacuum now) = (now \<le> t)"
| "vacuum_by t _ = True"

lemma claim_nonce_keeps: "claim_nonce ns k n t = (r, ns') \<Longrightarrow> set ns \<subseteq> set ns'"
  by (auto simp: claim_nonce_def split: if_splits)

lemma verify_request_keeps: "set ns \<subseteq> set (snd (verify_request trust keys rq h now dbnow ns))"
  by (auto simp: verify_request_def Let_def split: sum.splits option.splits prod.splits
      dest!: claim_nonce_keeps)

lemma nonce_survives:
  assumes "row \<in> set ns" "list_all (vacuum_by t) es" "t - NONCE_RETENTION_SECONDS \<le> nn_used_at row"
  shows "row \<in> set (fold run_nonce_event es ns)"
  using assms
proof (induction es arbitrary: ns)
  case Nil
  then show ?case by simp
next
  case (Cons e es)
  have "row \<in> set (run_nonce_event e ns)"
  proof (cases e)
    case (N_verify trust keys rq h now dbnow)
    then show ?thesis using Cons.prems verify_request_keeps by fastforce
  next
    case (N_vacuum now)
    then show ?thesis using Cons.prems by (auto simp: vacuum_old_nonces_def Let_def)
  qed
  with Cons show ?case by simp
qed

text \<open>
  C6: no replay.  Suppose a request was accepted and its nonce recorded no earlier than the clock
  reading of its timestamp check.  Then, whatever requests are verified and however often the
  collector runs in between, no request with the same key id, timestamp and nonce headers is accepted
  again, at any later time, by any state of the key table: while the timestamp is still inside the
  window the collector has not yet dropped the nonce.
\<close>

theorem no_replay:
  assumes "verify_request trust keys rq h now dbnow ns = (Inr caller, ns')" "now \<le> dbnow"
    and "list_all (vacuum_by now2) es"
    and "hh_api_key h2 = hh_api_key h" "hh_timestamp h2 = hh_timestamp h" "hh_nonce h2 = hh_nonce h"
  shows "fst (verify_request trust2 keys2 rq2 h2 now2 dbnow2 (fold run_nonce_event es ns')) \<noteq> Inr caller2"
proof
  assume "fst (verify_request trust2 keys2 rq2 h2 now2 dbnow2 (fold run_nonce_event es ns')) = Inr caller2"
  then obtain ns2 where v2: "verify_request trust2 keys2 rq2 h2 now2 dbnow2 (fold run_nonce_event es ns') = (Inr caller2, ns2)"
    by (metis prod.collapse)
  obtain row nonce where r1: "acceptable row rq h now ns" "hh_nonce h = Some nonce"
    "ns' = ns @ [\<lparr>nn_key_id = ak_key_id row, nn_nonce = nonce, nn_used_at = dbnow\<rparr>]"
    using verify_request_accepts [OF assms(1)] by blast
  obtain row2 where r2: "acceptable row2 rq2 h2 now2 (fold run_nonce_event es ns')"
    using verify_request_accepts [OF v2] by blast
  from r1(1) obtain ts t where t: "hh_timestamp h = Some t" "py_int t = Some ts"
    "\<bar>now - of_int ts\<bar> \<le> TIMESTAMP_WINDOW_SECONDS" and k: "hh_api_key h = Some (ak_key_id row)"
    unfolding acceptable_def by blast
  from r2 assms(4-6) t k r1(2) have t2: "\<bar>now2 - of_int ts\<bar> \<le> TIMESTAMP_WINDOW_SECONDS"
    and fresh: "\<forall>n \<in> set (fold run_nonce_event es ns'). \<not> (nn_key_id n = ak_key_id row \<and> nn_nonce n = nonce)"
    unfolding acceptable_def by auto
  have "now2 - NONCE_RETENTION_SECONDS \<le> dbnow"
    using t(3) t2 assms(2) by (simp add: TIMESTAMP_WINDOW_SECONDS_def NONCE_RETENTION_SECONDS_def)
  then have "\<lparr>nn_key_id = ak_key_id row, nn_nonce = nonce, nn_used_at = dbnow\<rparr> \<in> set (fold run_nonce_event es ns')"
    using nonce_survives [OF _ assms(3)] r1(3) by simp
  with fresh show False by fastforce
qed

theorem no_replay_witness:
  "fst (verify_request False [sample_key] sample_request sample_headers 1200 1200
     (fold run_nonce_event [N_vacuum 1000, N_vacuum 1200]
        [\<lparr>nn_key_id = u ''k_1'', nn_nonce = u ''n1'', nn_used_at = 900\<rparr>])) \<notin> range Inr"
proof -
  obtain caller ns' where v: "verify_request False [sample_key] sample_request sample_headers 900 900 [] = (Inr caller, ns')"
    using verify_request_complete [of "[sample_key]", OF _ _ sample_acceptable, of False 900] by auto
  have ns': "ns' = [\<lparr>nn_key_id = u ''k_1'', nn_nonce = u ''n1'', nn_used_at = 900\<rparr>]"
    using verify_request_accepts [OF v] by (auto simp: sample_key_def sample_headers_def)
  from no_replay [OF v, of 1200 "[N_vacuum 1000, N_vacuum 1200]" sample_headers] show ?thesis
    unfolding ns' by auto
qed

end
