(* ===== verification/Auth.thy ===== *)
theory Auth
  imports Responses Ip_Allow Rate_Limit Hmac_Auth
begin

text \<open>
  \<^verbatim>\<open>app/security/auth.py\<close> and the admin gate of \<^verbatim>\<open>app/api/admin_audit.py\<close>: the dependency
  \<open>require_auth\<close> that every endpoint goes through composes HMAC verification or the IP-caller table
  with the allowlists and the rate limiter.  The state it changes is the nonce table, the Redis
  store and the rejection counters.  The lemmas show that nobody gets past the gate without either a
  valid signature or a registered address, that every admitted caller passed both allowlists and both
  rate buckets, that any HMAC header at all rules out the address path, that guessing is throttled
  per address, and that an admin request needs an admin key and an allowed address.
\<close>

section \<open>Settings, state and errors\<close>

record auth_settings =
  cfg_ip_allowlist :: ustr
  cfg_trust_forwarded_for :: bool
  cfg_ip_rate_per_minute :: nat
  cfg_admin_ip_allowlist :: ustr

record auth_state =
  as_keys :: "api_key list"
  as_ip_callers :: "ip_caller_entry list"
  as_nonces :: "nonce_row list"
  as_redis :: redis_store
  as_rejections :: "string list"

text \<open>Clock readings during one request: the application's, the database's, the limiter's calls.\<close>

record auth_clocks =
  ck_now :: rat
  ck_dbnow :: rat
  ck_ip :: "rat \<times> rat"
  ck_minute :: "rat \<times> rat"
  ck_hour :: "rat \<times> rat"

record envelope_error =
  ee_status :: nat
  ee_detail :: detect_response
  ee_headers :: "(string \<times> ustr) list"

datatype gate_error = Envelope envelope_error | Unhandled exn

definition envelope :: "string \<Rightarrow> (string \<times> ustr) list \<Rightarrow> (string \<times> ustr) list \<Rightarrow> rat \<Rightarrow> gate_error" where
  "envelope code headers vars now =
     (case get_code code of Inl e \<Rightarrow> Unhandled e | Inr rc \<Rightarrow>
      case build_response 0 code [] 0 vars None None now of
        Inl e \<Rightarrow> Unhandled e
      | Inr resp \<Rightarrow> Envelope \<lparr>ee_status = rc_http_status rc, ee_detail = resp, ee_headers = headers\<rparr>)"

section \<open>The gate\<close>

definition csv_list :: "ustr \<Rightarrow> ustr list" where
  "csv_list raw = filter (\<lambda>c. c \<noteq> []) (map strip (split_on 44 raw))"

definition global_ip_allowlist :: "auth_settings \<Rightarrow> ustr list" where
  "global_ip_allowlist cfg = csv_list (cfg_ip_allowlist cfg)"

definition ip_failure_burst ::
  "auth_settings \<Rightarrow> http_request \<Rightarrow> auth_clocks \<Rightarrow> auth_state \<Rightarrow> (gate_error + unit) \<times> auth_state" where
  "ip_failure_burst cfg rq ck st =
     (let ip = client_ip (cfg_trust_forwarded_for cfg) rq;
          (out, redis) = check_ip ip (cfg_ip_rate_per_minute cfg) (ck_ip ck) (as_redis st);
          st' = st\<lparr>as_redis := redis\<rparr>
      in if \<not> rl_allowed out then
           (Inl (envelope ''REQ-4020'' [(''Retry-After'', str_int (rl_retry_after out))] [] (ck_now ck)),
            st'\<lparr>as_rejections := as_rejections st' @ [''ip'']\<rparr>)
         else (Inr (), st'))"

definition post_auth_checks ::
  "auth_settings \<Rightarrow> authed_caller \<Rightarrow> auth_clocks \<Rightarrow> auth_state \<Rightarrow> (gate_error + authed_caller) \<times> auth_state" where
  "post_auth_checks cfg caller ck st =
     (let g = global_ip_allowlist cfg in
      case enforce (ac_client_ip caller) (ac_ip_allowlist caller) (if g = [] then None else Some g) of
        Inl ip \<Rightarrow> (Inl (envelope ''REQ-4015'' [] [(''ip'', ip)] (ck_now ck)), st)
      | Inr _ \<Rightarrow>
          (let (out, redis) = check_caller (ac_key_id caller) (nat (ac_rate_per_minute caller))
                 (nat (ac_rate_per_hour caller)) (ck_minute ck) (ck_hour ck) (as_redis st);
               st' = st\<lparr>as_redis := redis\<rparr>
           in if \<not> rl_allowed out then
                (Inl (envelope ''REQ-4020'' [(''Retry-After'', str_int (rl_retry_after out))] [] (ck_now ck)),
                 st'\<lparr>as_rejections := as_rejections st' @ [''caller'']\<rparr>)
              else (Inr caller, st')))"

definition ip_caller :: "ip_caller_entry \<Rightarrow> ustr \<Rightarrow> authed_caller" where
  "ip_caller e ip =
     \<lparr>ac_key_id = u ''ip:'' @ ce_cidr e, ac_name = ce_name e,
      ac_rate_per_minute = int (ce_rate_per_minute e), ac_rate_per_hour = int (ce_rate_per_hour e),
      ac_ip_allowlist = None, ac_client_ip = ip, ac_is_admin = False\<rparr>"

definition no_hmac_headers :: "hmac_headers \<Rightarrow> bool" where
  "no_hmac_headers h \<longleftrightarrow>
     hh_api_key h = None \<and> hh_timestamp h = None \<and> hh_nonce h = None \<and> hh_signature h = None"

definition hmac_path ::
  "auth_settings \<Rightarrow> http_request \<Rightarrow> hmac_headers \<Rightarrow> auth_clocks \<Rightarrow> auth_state
     \<Rightarrow> (gate_error + authed_caller) \<times> auth_state" where
  "hmac_path cfg rq h ck st =
     (let (r, ns) = verify_request (cfg_trust_forwarded_for cfg) (as_keys st) rq h (ck_now ck)
                      (ck_dbnow ck) (as_nonces st);
          st' = st\<lparr>as_nonces := ns\<rparr>
      in case r of
           Inr caller \<Rightarrow> post_auth_checks cfg caller ck st'
         | Inl (Crash e) \<Rightarrow> (Inl (Unhandled e), st')
         | Inl (HmacAuthError code) \<Rightarrow>
             (case ip_failure_burst cfg rq ck st' of
                (Inl e, st'') \<Rightarrow> (Inl e, st'')
              | (Inr _, st'') \<Rightarrow> (Inl (envelope code [] [] (ck_now ck)), st'')))"

definition require_auth ::
  "auth_settings \<Rightarrow> http_request \<Rightarrow> hmac_headers \<Rightarrow> auth_clocks \<Rightarrow> auth_state
     \<Rightarrow> (gate_error + authed_caller) \<times> auth_state" where
  "require_auth cfg rq h ck st =
     (if no_hmac_headers h then
        (let ip = client_ip (cfg_trust_forwarded_for cfg) rq in
         case find_caller_by_ip (as_ip_callers st) ip of
           Some e \<Rightarrow> post_auth_checks cfg (ip_caller e ip) ck st
         | None \<Rightarrow> hmac_path cfg rq h ck st)
      else hmac_path cfg rq h ck st)"

section \<open>The admin gate\<close>

definition admin_allowlist :: "auth_settings \<Rightarrow> ustr list" where
  "admin_allowlist cfg = csv_list (strip (cfg_admin_ip_allowlist cfg))"

definition require_admin :: "auth_settings \<Rightarrow> authed_caller \<Rightarrow> rat \<Rightarrow> gate_error + authed_caller" where
  "require_admin cfg caller now =
     (let refuse = (\<lambda>ip. Inl (envelope ''REQ-4015'' [] [(''ip'', ip)] now)) in
      if \<not> ac_is_admin caller then refuse (ac_client_ip caller)
      else let allow = admin_allowlist cfg in
           if allow = [] then refuse (ac_client_ip caller)
           else case enforce (ac_client_ip caller) None (Some allow) of
                  Inl ip \<Rightarrow> refuse ip
                | Inr _ \<Rightarrow> Inr caller)"

section \<open>Error envelopes\<close>

lemma envelope_known:
  assumes "code_verdict code = Some v" "code_status code = Some s"
  shows "\<exists>r. envelope code hs vars now = Envelope \<lparr>ee_status = s, ee_detail = r, ee_headers = hs\<rparr> \<and>
           r_code r = code \<and> r_verdict r = v"
proof -
  obtain rc where rc: "get_code code = Inr rc" "rc_verdict rc = v"
    using assms(1) by (rule code_verdictE)
  then have s: "rc_http_status rc = s"
    using assms(2) get_code_status by fastforce
  obtain r where r: "build_response 0 code [] 0 vars None None now = Inr r" "r_code r = code" "r_verdict r = v"
    using build_response_verdict [OF assms(1)] by metis
  show ?thesis
    using rc(1) s r by (simp add: envelope_def)
qed

text \<open>The code an error answer carries, if it is an envelope.\<close>

fun gate_code :: "gate_error \<Rightarrow> string option" where
  "gate_code (Envelope e) = Some (r_code (ee_detail e))"
| "gate_code (Unhandled e) = None"

lemma gate_code_envelope: "code_verdict code = Some v \<Longrightarrow> gate_code (envelope code hs vars now) = Some code"
proof -
  assume v: "code_verdict code = Some v"
  then obtain s where "code_status code = Some s"
    by (auto simp: code_verdict_def code_status_def split: sum.splits)
  from envelope_known [OF v this, of hs vars now] show ?thesis by auto
qed

lemma verify_request_codes:
  assumes "fst (verify_request trust keys rq h now dbnow ns) = Inl (HmacAuthError code)"
  shows "code \<in> {''REQ-4010'', ''REQ-4011'', ''REQ-4012'', ''REQ-4013'', ''REQ-4014''}"
  using assms
  by (auto simp: verify_request_def Let_def check_timestamp_def claim_nonce_def
      split: if_splits sum.splits option.splits prod.splits)

section \<open>Who gets through\<close>

text \<open>The caller is allowed: both allowlists and both buckets.\<close>

definition admitted_by ::
  "auth_settings \<Rightarrow> auth_clocks \<Rightarrow> redis_store \<Rightarrow> authed_caller \<Rightarrow> bool" where
  "admitted_by cfg ck redis caller \<longleftrightarrow>
     is_allowed (ac_client_ip caller) (ac_ip_allowlist caller)
       (if global_ip_allowlist cfg = [] then None else Some (global_ip_allowlist cfg)) \<and>
     rl_allowed (fst (check_caller (ac_key_id caller) (nat (ac_rate_per_minute caller))
       (nat (ac_rate_per_hour caller)) (ck_minute ck) (ck_hour ck) redis))"

lemma post_auth_checks_Inr:
  assumes "post_auth_checks cfg caller ck st = (Inr c, st')"
  shows "c = caller \<and> admitted_by cfg ck (as_redis st) caller \<and>
         st' = st\<lparr>as_redis := snd (check_caller (ac_key_id caller) (nat (ac_rate_per_minute caller))
           (nat (ac_rate_per_hour caller)) (ck_minute ck) (ck_hour ck) (as_redis st))\<rparr>"
  using assms
  by (auto simp: post_auth_checks_def admitted_by_def enforce_def Let_def
      split: sum.splits prod.splits if_splits)

lemma post_auth_checks_admitted:
  assumes "admitted_by cfg ck (as_redis st) caller"
  shows "\<exists>st'. post_auth_checks cfg caller ck st = (Inr caller, st')"
  using assms by (auto simp: post_auth_checks_def admitted_by_def enforce_def Let_def split: prod.splits)

lemma hmac_path_Inr:
  assumes "hmac_path cfg rq h ck st = (Inr caller, st')"
  shows "\<exists>ns. verify_request (cfg_trust_forwarded_for cfg) (as_keys st) rq h (ck_now ck) (ck_dbnow ck)
            (as_nonces st) = (Inr caller, ns) \<and> post_auth_checks cfg caller ck (st\<lparr>as_nonces := ns\<rparr>) = (Inr caller, st')"
proof -
  obtain r ns where v: "verify_request (cfg_trust_forwarded_for cfg) (as_keys st) rq h (ck_now ck)
      (ck_dbnow ck) (as_nonces st) = (r, ns)"
    by (cases "verify_request (cfg_trust_forwarded_for cfg) (as_keys st) rq h (ck_now ck)
      (ck_dbnow ck) (as_nonces st)") auto
  then obtain c where c: "r = Inr c" "post_auth_checks cfg c ck (st\<lparr>as_nonces := ns\<rparr>) = (Inr caller, st')"
    using assms by (auto simp: hmac_path_def Let_def split: sum.splits auth_error.splits prod.splits)
  with post_auth_checks_Inr [OF c(2)] v show ?thesis by auto
qed

text \<open>A token has been taken from a bucket: it held one after the refill, and holds one less now.\<close>

definition charged :: "nat \<Rightarrow> rat \<Rightarrow> rat \<times> rat \<Rightarrow> bucket option \<Rightarrow> bucket option \<Rightarrow> bool" where
  "charged n period t before after \<longleftrightarrow>
     (let tokens = refill (of_nat n / period) (of_nat n) (fst t) (hmget (snd t) before) in
      1 \<le> tokens \<and> (\<exists>b. after = Some b \<and> bk_tokens b = tokens - 1 \<and> bk_ts b = fst t))"

lemma consume_charged:
  assumes "consume key (of_nat n) (of_nat n / period) 1 (fst t) (snd t) st = (out, st')" "rl_allowed out"
  shows "charged n period t (st key) (st' key)" "key' \<noteq> key \<Longrightarrow> st' key' = st key'"
  using assms by (auto simp: consume_def lua_token_bucket_def charged_def Let_def split: if_splits)

lemma check_caller_charged:
  assumes "check_caller k pm ph t1 t2 st = (out, st')" "rl_allowed out"
  shows "charged pm 60 t1 (st (caller_key k ''m'')) (st' (caller_key k ''m''))"
    "charged ph 3600 t2 (st (caller_key k ''h'')) (st' (caller_key k ''h''))"
    "key \<noteq> caller_key k ''m'' \<Longrightarrow> key \<noteq> caller_key k ''h'' \<Longrightarrow> st' key = st key"
proof -
  obtain m st1 where m: "consume (caller_key k ''m'') (of_nat pm) (of_nat pm / 60) 1 (fst t1) (snd t1) st = (m, st1)"
    by (cases "consume (caller_key k ''m'') (of_nat pm) (of_nat pm / 60) 1 (fst t1) (snd t1) st") auto
  have ok: "rl_allowed m" and h: "consume (caller_key k ''h'') (of_nat ph) (of_nat ph / 3600) 1 (fst t2) (snd t2) st1 = (out, st')"
    using assms m by (auto simp: check_caller_def split: if_splits)
  note c1 = consume_charged [OF m ok] and c2 = consume_charged [OF h assms(2)]
  show "charged pm 60 t1 (st (caller_key k ''m'')) (st' (caller_key k ''m''))"
    using c1(1) c2(2) [of "caller_key k ''m''"] by simp
  show "charged ph 3600 t2 (st (caller_key k ''h'')) (st' (caller_key k ''h''))"
    using c2(1) c1(2) [of "caller_key k ''h''"] by simp
  show "key \<noteq> caller_key k ''m'' \<Longrightarrow> key \<noteq> caller_key k ''h'' \<Longrightarrow> st' key = st key"
    using c1(2) c2(2) by simp
qed

text \<open>An address list, when it is not empty, has an entry that covers the address.\<close>

definition covered_by :: "ustr \<Rightarrow> ustr list \<Rightarrow> bool" where
  "covered_by ip cidrs \<longleftrightarrow>
     cidrs = [] \<or> (\<exists>addr. ip_address ip = Some addr \<and> (\<exists>c \<in> set cidrs. cidr_has addr c))"

text \<open>Who may pass with these headers from this address, what the nonce store becomes, and which list binds.\<close>

definition signed_by ::
  "auth_settings \<Rightarrow> http_request \<Rightarrow> hmac_headers \<Rightarrow> auth_clocks \<Rightarrow> auth_state \<Rightarrow> api_key \<Rightarrow> authed_caller \<Rightarrow> nonce_row list \<Rightarrow> bool" where
  "signed_by cfg rq h ck st row caller ns \<longleftrightarrow>
     row \<in> set (as_keys st) \<and> acceptable row rq h (ck_now ck) (as_nonces st) \<and>
     ac_key_id caller = ak_key_id row \<and> ac_name caller = ak_name row \<and> ac_is_admin caller = ak_is_admin row \<and>
     ac_rate_per_minute caller = ak_rate_per_minute row \<and> ac_rate_per_hour caller = ak_rate_per_hour row \<and>
     covered_by (ac_client_ip caller) (case ak_ip_allowlist row of None \<Rightarrow> [] | Some l \<Rightarrow> l) \<and>
     (\<exists>nonce. hh_nonce h = Some nonce \<and>
        ns = as_nonces st @ [\<lparr>nn_key_id = ak_key_id row, nn_nonce = nonce, nn_used_at = ck_dbnow ck\<rparr>])"

definition registered_as :: "auth_settings \<Rightarrow> hmac_headers \<Rightarrow> auth_state \<Rightarrow> ip_caller_entry \<Rightarrow> authed_caller \<Rightarrow> nonce_row list \<Rightarrow> bool" where
  "registered_as cfg h st e caller ns \<longleftrightarrow>
     no_hmac_headers h \<and> e \<in> set (as_ip_callers st) \<and>
     (\<exists>addr. ip_address (ac_client_ip caller) = Some addr \<and> cidr_has addr (ce_cidr e)) \<and>
     ac_key_id caller = u ''ip:'' @ ce_cidr e \<and> ac_name caller = ce_name e \<and> \<not> ac_is_admin caller \<and>
     ac_rate_per_minute caller = int (ce_rate_per_minute e) \<and> ac_rate_per_hour caller = int (ce_rate_per_hour e) \<and>
     ns = as_nonces st"

text \<open>
  C9: nobody passes the gate unidentified, unchecked or uncharged.  If \<open>require_auth\<close> lets a request
  through, then either some enabled, unrevoked key of the table signed it freshly, the caller has that
  key's name, rates and admin flag, the key's address list covers the address of the request, and
  the nonce is now recorded; or the request had none of the four HMAC headers, a registered IP
  caller covers its address, and the caller has that entry's rates and is no administrator.  In both
  cases the global list covers the address, and one token has been taken from the caller's
  minute bucket and one from the hour bucket, each of which held one, and from no other bucket.
\<close>

theorem require_auth_sound:
  assumes "require_auth cfg rq h ck st = (Inr caller, st')"
  shows "ac_client_ip caller = client_ip (cfg_trust_forwarded_for cfg) rq \<and>
         ((\<exists>row. signed_by cfg rq h ck st row caller (as_nonces st')) \<or>
          (\<exists>e. registered_as cfg h st e caller (as_nonces st'))) \<and>
         covered_by (ac_client_ip caller) (global_ip_allowlist cfg) \<and>
         charged (nat (ac_rate_per_minute caller)) 60 (ck_minute ck)
           (as_redis st (caller_key (ac_key_id caller) ''m'')) (as_redis st' (caller_key (ac_key_id caller) ''m'')) \<and>
         charged (nat (ac_rate_per_hour caller)) 3600 (ck_hour ck)
           (as_redis st (caller_key (ac_key_id caller) ''h'')) (as_redis st' (caller_key (ac_key_id caller) ''h'')) \<and>
         (\<forall>key. key \<noteq> caller_key (ac_key_id caller) ''m'' \<and> key \<noteq> caller_key (ac_key_id caller) ''h'' \<longrightarrow>
            as_redis st' key = as_redis st key)"
proof -
  let ?ip = "client_ip (cfg_trust_forwarded_for cfg) rq"
  have cov: "covered_by ip (case l of None \<Rightarrow> [] | Some k \<Rightarrow> k) \<and> covered_by ip g"
    if "is_allowed ip l (if g = [] then None else Some g)" for ip l g
    using that by (auto simp: is_allowed_def covered_by_def matches_iff split: option.splits if_splits)
  have gate: "covered_by (ac_client_ip c) (case ac_ip_allowlist c of None \<Rightarrow> [] | Some k \<Rightarrow> k) \<and>
      covered_by (ac_client_ip c) (global_ip_allowlist cfg) \<and>
      charged (nat (ac_rate_per_minute c)) 60 (ck_minute ck)
        (as_redis s (caller_key (ac_key_id c) ''m'')) (as_redis st' (caller_key (ac_key_id c) ''m'')) \<and>
      charged (nat (ac_rate_per_hour c)) 3600 (ck_hour ck)
        (as_redis s (caller_key (ac_key_id c) ''h'')) (as_redis st' (caller_key (ac_key_id c) ''h'')) \<and>
      (\<forall>key. key \<noteq> caller_key (ac_key_id c) ''m'' \<and> key \<noteq> caller_key (ac_key_id c) ''h'' \<longrightarrow>
         as_redis st' key = as_redis s key) \<and> c = caller \<and> as_nonces st' = as_nonces s"
    if "post_auth_checks cfg c ck s = (Inr caller, st')" for c s
    using post_auth_checks_Inr [OF that] cov [of "ac_client_ip c" "ac_ip_allowlist c" "global_ip_allowlist cfg"]
      check_caller_charged [where k = "ac_key_id c", OF surjective_pairing]
    by (auto simp: admitted_by_def)
  consider (ip) e where "no_hmac_headers h" "find_caller_by_ip (as_ip_callers st) ?ip = Some e"
      "post_auth_checks cfg (ip_caller e ?ip) ck st = (Inr caller, st')"
    | (hmac) "hmac_path cfg rq h ck st = (Inr caller, st')"
    using assms by (auto simp: require_auth_def Let_def split: if_splits option.splits)
  then show ?thesis
  proof cases
    case ip
    from gate [OF ip(3)] have c: "caller = ip_caller e ?ip" by simp
    have "registered_as cfg h st e caller (as_nonces st')"
      using find_caller_Some [OF ip(2)] ip(1) gate [OF ip(3)] by (auto simp: registered_as_def c ip_caller_def)
    with gate [OF ip(3)] c show ?thesis by (auto simp: ip_caller_def)
  next
    case hmac
    obtain ns where v: "verify_request (cfg_trust_forwarded_for cfg) (as_keys st) rq h (ck_now ck) (ck_dbnow ck)
        (as_nonces st) = (Inr caller, ns)" and p: "post_auth_checks cfg caller ck (st\<lparr>as_nonces := ns\<rparr>) = (Inr caller, st')"
      using hmac_path_Inr [OF hmac] by blast
    obtain row nonce where row: "row \<in> set (as_keys st)" "acceptable row rq h (ck_now ck) (as_nonces st)"
      "hh_nonce h = Some nonce" "caller = row_caller (cfg_trust_forwarded_for cfg) rq row"
      "ns = as_nonces st @ [\<lparr>nn_key_id = ak_key_id row, nn_nonce = nonce, nn_used_at = ck_dbnow ck\<rparr>]"
      using verify_request_accepts [OF v] by blast
    have "signed_by cfg rq h ck st row caller (as_nonces st')"
      using row gate [OF p] by (auto simp: signed_by_def row_caller_def covered_by_def split: option.splits if_splits)
    with gate [OF p] row(4) show ?thesis by (auto simp: row_caller_def)
  qed
qed

definition sample_settings :: auth_settings where
  "sample_settings = \<lparr>cfg_ip_allowlist = [], cfg_trust_forwarded_for = False,
     cfg_ip_rate_per_minute = 10, cfg_admin_ip_allowlist = []\<rparr>"

definition sample_state :: auth_state where
  "sample_state = \<lparr>as_keys = [sample_key], as_ip_callers = [], as_nonces = [], as_redis = Map.empty,
     as_rejections = []\<rparr>"

definition sample_clocks :: auth_clocks where
  "sample_clocks = \<lparr>ck_now = 900, ck_dbnow = 900, ck_ip = (900, 900), ck_minute = (900, 900),
     ck_hour = (900, 900)\<rparr>"

lemma sample_admitted:
  assumes "ac_rate_per_minute c = 60" "ac_rate_per_hour c = 1000" "ac_ip_allowlist c = None"
  shows "admitted_by sample_settings sample_clocks Map.empty c"
  using assms
  by (simp add: admitted_by_def sample_settings_def sample_clocks_def global_ip_allowlist_def csv_list_def
      is_allowed_def check_caller_def consume_def lua_token_bucket_def refill_def hmget_def Let_def)

lemma sample_auth:
  "\<exists>caller st'. require_auth sample_settings sample_request sample_headers sample_clocks sample_state =
     (Inr caller, st') \<and> \<not> ac_is_admin caller"
proof -
  obtain caller ns where v: "verify_request False [sample_key] sample_request sample_headers 900 900 [] = (Inr caller, ns)"
    using verify_request_complete [of "[sample_key]", OF _ _ sample_acceptable, of False 900] by auto
  have c: "ac_rate_per_minute caller = 60" "ac_rate_per_hour caller = 1000" "ac_ip_allowlist caller = None"
    "\<not> ac_is_admin caller"
    using v by (auto simp: verify_request_def sample_key_def find_active_key_def Let_def
        split: if_splits sum.splits prod.splits)
  have "as_redis (sample_state\<lparr>as_nonces := ns\<rparr>) = Map.empty" by (simp add: sample_state_def)
  then obtain st' where p: "post_auth_checks sample_settings caller sample_clocks (sample_state\<lparr>as_nonces := ns\<rparr>) =
      (Inr caller, st')"
    using post_auth_checks_admitted [of sample_settings sample_clocks "sample_state\<lparr>as_nonces := ns\<rparr>" caller]
      sample_admitted [OF c(1-3)] by metis
  have "hmac_path sample_settings sample_request sample_headers sample_clocks sample_state = (Inr caller, st')"
    using v p by (simp add: hmac_path_def sample_settings_def sample_state_def sample_clocks_def)
  then show ?thesis
    using c(4) by (simp add: require_auth_def no_hmac_headers_def sample_headers_def)
qed

theorem require_auth_sound_witness:
  "\<exists>caller st'. require_auth sample_settings sample_request sample_headers sample_clocks sample_state =
     (Inr caller, st') \<and>
     ((\<exists>row. signed_by sample_settings sample_request sample_headers sample_clocks sample_state row caller (as_nonces st')) \<or>
      (\<exists>e. registered_as sample_settings sample_headers sample_state e caller (as_nonces st')))"
  using sample_auth require_auth_sound by blast

text \<open>
  The address table never rescues a request that carries HMAC headers.  As soon as one of the
  four headers is present, even with an empty or wrong value, the outcome does not depend on the
  registered IP callers at all; and if one of the four is missing or empty, the answer is REQ-4011,
  or REQ-4020 once the address has used up its failures.
\<close>

theorem hmac_header_excludes_ip_path:
  assumes "\<not> no_hmac_headers h"
  shows "require_auth cfg rq h ck (st\<lparr>as_ip_callers := es\<rparr>) =
           map_prod id (\<lambda>s. s\<lparr>as_ip_callers := es\<rparr>) (require_auth cfg rq h ck st) \<and>
         (blank (hh_api_key h) \<or> blank (hh_timestamp h) \<or> blank (hh_nonce h) \<or> blank (hh_signature h) \<longrightarrow>
          (\<exists>e st'. require_auth cfg rq h ck st = (Inl e, st') \<and>
             gate_code e \<in> {Some ''REQ-4011'', Some ''REQ-4020''}))"
proof
  have post: "post_auth_checks cfg c ck (s\<lparr>as_ip_callers := es\<rparr>) =
      map_prod id (\<lambda>s. s\<lparr>as_ip_callers := es\<rparr>) (post_auth_checks cfg c ck s)" for c s
    by (auto simp: post_auth_checks_def Let_def split: sum.splits prod.splits)
  have burst: "ip_failure_burst cfg rq ck (s\<lparr>as_ip_callers := es\<rparr>) =
      map_prod id (\<lambda>s. s\<lparr>as_ip_callers := es\<rparr>) (ip_failure_burst cfg rq ck s)" for s
    by (auto simp: ip_failure_burst_def Let_def split: prod.splits)
  have upd: "s\<lparr>as_ip_callers := es, as_nonces := ns\<rparr> = s\<lparr>as_nonces := ns\<rparr>\<lparr>as_ip_callers := es\<rparr>" for s :: auth_state and ns
    by simp
  have "hmac_path cfg rq h ck (st\<lparr>as_ip_callers := es\<rparr>) =
      map_prod id (\<lambda>s. s\<lparr>as_ip_callers := es\<rparr>) (hmac_path cfg rq h ck st)"
    unfolding hmac_path_def
    by (auto simp: Let_def upd post burst split: sum.splits auth_error.splits prod.splits)
  then show "require_auth cfg rq h ck (st\<lparr>as_ip_callers := es\<rparr>) =
      map_prod id (\<lambda>s. s\<lparr>as_ip_callers := es\<rparr>) (require_auth cfg rq h ck st)"
    using assms by (simp add: require_auth_def)
next
  show "blank (hh_api_key h) \<or> blank (hh_timestamp h) \<or> blank (hh_nonce h) \<or> blank (hh_signature h) \<longrightarrow>
          (\<exists>e st'. require_auth cfg rq h ck st = (Inl e, st') \<and>
             gate_code e \<in> {Some ''REQ-4011'', Some ''REQ-4020''})"
    using assms
    by (auto simp: require_auth_def hmac_path_def verify_request_def ip_failure_burst_def Let_def
        gate_code_envelope split: prod.splits sum.splits)
qed

theorem hmac_header_excludes_ip_path_witness:
  "\<exists>e st'. require_auth sample_settings sample_request
       \<lparr>hh_api_key = Some (u ''k_1''), hh_timestamp = None, hh_nonce = None, hh_signature = None\<rparr>
       sample_clocks sample_state = (Inl e, st') \<and> gate_code e \<in> {Some ''REQ-4011'', Some ''REQ-4020''}"
  using hmac_header_excludes_ip_path
    [where h = "\<lparr>hh_api_key = Some (u ''k_1''), hh_timestamp = None, hh_nonce = None, hh_signature = None\<rparr>"
      and cfg = sample_settings and rq = sample_request and ck = sample_clocks and st = sample_state]
  by (simp add: no_hmac_headers_def blank_def)

text \<open>
  An admin request needs an admin key and an admin address.  If the composed admin gate lets a
  caller through, the request was signed by a key whose admin flag is set, never merely by a
  registered address, and the caller's address is covered by the configured, non-empty admin
  allowlist; every refusal of the admin gate itself is REQ-4015.
\<close>

theorem require_admin_sound:
  assumes "require_auth cfg rq h ck st = (Inr caller, st')"
  shows "(require_admin cfg caller now = Inr c \<longrightarrow>
            c = caller \<and>
            (\<exists>row \<in> set (as_keys st). ak_is_admin row \<and> acceptable row rq h (ck_now ck) (as_nonces st)) \<and>
            (\<exists>addr. ip_address (ac_client_ip caller) = Some addr \<and>
               (\<exists>e \<in> set (admin_allowlist cfg). cidr_has addr e))) \<and>
         (\<forall>e. require_admin cfg caller now = Inl e \<longrightarrow> gate_code e = Some ''REQ-4015'')"
proof -
  let ?ip = "client_ip (cfg_trust_forwarded_for cfg) rq"
  have key: "\<exists>row \<in> set (as_keys st). ak_is_admin row \<and> acceptable row rq h (ck_now ck) (as_nonces st)"
    if adm: "ac_is_admin caller"
  proof -
    have "\<not> ac_is_admin (ip_caller e i)" for e i by (simp add: ip_caller_def)
    then have "hmac_path cfg rq h ck st = (Inr caller, st')"
      using assms adm
      by (auto simp: require_auth_def Let_def split: if_splits option.splits dest: post_auth_checks_Inr)
    then obtain ns where "verify_request (cfg_trust_forwarded_for cfg) (as_keys st) rq h (ck_now ck)
        (ck_dbnow ck) (as_nonces st) = (Inr caller, ns)"
      using hmac_path_Inr by blast
    from verify_request_accepts [OF this] adm show ?thesis by (auto simp: row_caller_def)
  qed
  show ?thesis
    using key by (auto simp: require_admin_def Let_def enforce_def is_allowed_def matches_iff
        gate_code_envelope split: if_splits sum.splits)
qed

theorem require_admin_sound_witness:
  "\<exists>caller st'. require_auth sample_settings sample_request sample_headers sample_clocks sample_state =
     (Inr caller, st') \<and> (\<exists>e. require_admin sample_settings caller 0 = Inl e \<and> gate_code e = Some ''REQ-4015'')"
proof -
  obtain caller st' where r: "require_auth sample_settings sample_request sample_headers sample_clocks
      sample_state = (Inr caller, st')" "\<not> ac_is_admin caller"
    using sample_auth by blast
  obtain e where "require_admin sample_settings caller 0 = Inl e"
    using r(2) by (auto simp: require_admin_def Let_def)
  with require_admin_sound [OF r(1), of 0] r show ?thesis by blast
qed

section \<open>Guessing is throttled\<close>

text \<open>
  A sequence of requests as they reach the gate.  Key table, IP callers and nonces may change
  arbitrarily in between, so each request brings its own; only the Redis store is threaded through.
\<close>

type_synonym gate_request = "http_request \<times> hmac_headers \<times> auth_clocks \<times> auth_state"

definition gate_step ::
  "auth_settings \<Rightarrow> gate_request \<Rightarrow> redis_store \<Rightarrow> (gate_error + authed_caller) \<times> redis_store" where
  "gate_step cfg q redis =
     (case q of (rq, h, ck, st) \<Rightarrow>
        let (r, st') = require_auth cfg rq h ck (st\<lparr>as_redis := redis\<rparr>) in (r, as_redis st'))"

definition told_why :: "gate_error + authed_caller \<Rightarrow> bool" where
  "told_why r \<longleftrightarrow> (\<exists>e. r = Inl e \<and>
     gate_code e \<in> Some ` {''REQ-4010'', ''REQ-4011'', ''REQ-4012'', ''REQ-4013'', ''REQ-4014''})"

text \<open>How many requests from an address were told why their authentication failed.\<close>

fun informative_failures :: "auth_settings \<Rightarrow> ustr \<Rightarrow> gate_request list \<Rightarrow> redis_store \<Rightarrow> nat" where
  "informative_failures cfg ip [] redis = 0"
| "informative_failures cfg ip (q # qs) redis =
     (if client_ip (cfg_trust_forwarded_for cfg) (fst q) = ip \<and> told_why (fst (gate_step cfg q redis))
      then 1 else 0) +
     informative_failures cfg ip qs (snd (gate_step cfg q redis))"

definition gate_times :: "gate_request \<Rightarrow> (rat \<times> rat) list" where
  "gate_times q = (case q of (rq, h, ck, st) \<Rightarrow> [ck_ip ck, ck_minute ck, ck_hour ck])"

text \<open>What one request does to the limiter.\<close>

lemma post_auth_checks_ops:
  assumes "post_auth_checks cfg c ck st = (r, st')"
  shows "\<not> told_why r \<and>
    (\<exists>ops. as_redis st' = fold (\<lambda>op s. snd (run_op op s)) ops (as_redis st) \<and>
       (ops = [] \<or> (\<exists>k pm ph. ops = [Op_caller k pm ph (ck_minute ck) (ck_hour ck)])))"
proof (cases "enforce (ac_client_ip c) (ac_ip_allowlist c)
    (if global_ip_allowlist cfg = [] then None else Some (global_ip_allowlist cfg))")
  case (Inl ip)
  with assms show ?thesis
    by (auto simp: post_auth_checks_def Let_def told_why_def gate_code_envelope intro!: exI [of _ "[]"])
next
  case (Inr x)
  let ?op = "Op_caller (ac_key_id c) (nat (ac_rate_per_minute c)) (nat (ac_rate_per_hour c))
      (ck_minute ck) (ck_hour ck)"
  from assms Inr have "\<not> told_why r" "as_redis st' = snd (run_op ?op (as_redis st))"
    by (auto simp: post_auth_checks_def Let_def told_why_def gate_code_envelope
        split: prod.splits if_splits)
  then show ?thesis by (intro conjI exI [of _ "[?op]"]) auto
qed

lemma hmac_path_ops:
  assumes "hmac_path cfg rq h ck st = (r, st')"
  defines "ip \<equiv> client_ip (cfg_trust_forwarded_for cfg) rq"
  defines "op_ip \<equiv> Op_ip ip (cfg_ip_rate_per_minute cfg) (ck_ip ck)"
  shows "\<exists>ops. as_redis st' = fold (\<lambda>op s. snd (run_op op s)) ops (as_redis st) \<and>
    (\<not> told_why r \<and> (ops = [] \<or> (\<exists>k pm ph. ops = [Op_caller k pm ph (ck_minute ck) (ck_hour ck)])) \<or>
     ops = [op_ip] \<and> (told_why r \<longrightarrow> rl_allowed (fst (run_op op_ip (as_redis st)))))"
proof -
  obtain v ns where v: "verify_request (cfg_trust_forwarded_for cfg) (as_keys st) rq h (ck_now ck)
      (ck_dbnow ck) (as_nonces st) = (v, ns)"
    by fastforce
  let ?st = "st\<lparr>as_nonces := ns\<rparr>"
  consider (ok) c where "v = Inr c" | (crash) e where "v = Inl (Crash e)"
    | (err) code where "v = Inl (HmacAuthError code)"
    by (cases v) (auto, metis auth_error.exhaust)
  then show ?thesis
  proof cases
    case ok
    with assms(1) v have "post_auth_checks cfg c ck ?st = (r, st')" by (simp add: hmac_path_def)
    from post_auth_checks_ops [OF this] show ?thesis by auto
  next
    case crash
    with assms(1) v show ?thesis
      by (intro exI [of _ "[]"]) (auto simp: hmac_path_def told_why_def)
  next
    case err
    with assms(1) v show ?thesis
      by (intro exI [of _ "[op_ip]"])
        (auto simp: hmac_path_def ip_failure_burst_def Let_def told_why_def gate_code_envelope op_ip_def ip_def
          split: prod.splits if_splits)
  qed
qed

lemma gate_step_ops:
  assumes "gate_step cfg q redis = (r, redis')"
  shows "\<exists>ops. redis' = fold (\<lambda>op s. snd (run_op op s)) ops redis \<and>
    subseq (concat (map op_times ops)) (gate_times q) \<and>
    list_all (ip_limits ip (cfg_ip_rate_per_minute cfg)) ops \<and>
    (client_ip (cfg_trust_forwarded_for cfg) (fst q) = ip \<and> told_why r \<longrightarrow>
       1 \<le> admitted_calls (by_ip ip) ops redis)"
proof -
  obtain rq h ck st where q: "q = (rq, h, ck, st)" by (cases q) auto
  let ?st = "st\<lparr>as_redis := redis\<rparr>"
  obtain st' where a: "require_auth cfg rq h ck ?st = (r, st')" "redis' = as_redis st'"
    using assms q by (auto simp: gate_step_def Let_def split: prod.splits)
  let ?op = "Op_ip (client_ip (cfg_trust_forwarded_for cfg) rq) (cfg_ip_rate_per_minute cfg) (ck_ip ck)"
  have "\<exists>ops. as_redis st' = fold (\<lambda>op s. snd (run_op op s)) ops redis \<and>
    (\<not> told_why r \<and> (ops = [] \<or> (\<exists>k pm ph. ops = [Op_caller k pm ph (ck_minute ck) (ck_hour ck)])) \<or>
     ops = [?op] \<and> (told_why r \<longrightarrow> rl_allowed (fst (run_op ?op redis))))"
  proof (cases "\<exists>c. post_auth_checks cfg c ck ?st = (r, st')")
    case True
    then obtain c where "post_auth_checks cfg c ck ?st = (r, st')" by blast
    from post_auth_checks_ops [OF this] show ?thesis by auto
  next
    case False
    with a(1) have "hmac_path cfg rq h ck ?st = (r, st')"
      by (auto simp: require_auth_def Let_def split: if_splits option.splits)
    from hmac_path_ops [OF this] show ?thesis by simp
  qed
  then obtain ops where ops: "as_redis st' = fold (\<lambda>op s. snd (run_op op s)) ops redis"
    "\<not> told_why r \<and> (ops = [] \<or> (\<exists>k pm ph. ops = [Op_caller k pm ph (ck_minute ck) (ck_hour ck)])) \<or>
     ops = [?op] \<and> (told_why r \<longrightarrow> rl_allowed (fst (run_op ?op redis)))"
    by blast
  show ?thesis
    by (rule exI [of _ ops]) (use ops a(2) q in \<open>auto simp: gate_times_def\<close>)
qed

lemma gate_trace_ops:
  "\<exists>ops. informative_failures cfg ip qs redis \<le> admitted_calls (by_ip ip) ops redis \<and>
     subseq (concat (map op_times ops)) (concat (map gate_times qs)) \<and>
     list_all (ip_limits ip (cfg_ip_rate_per_minute cfg)) ops"
proof (induction qs arbitrary: redis)
  case Nil
  show ?case by (rule exI [of _ "[]"]) simp
next
  case (Cons q qs)
  obtain r redis' where g: "gate_step cfg q redis = (r, redis')" by fastforce
  from gate_step_ops [OF g, of ip] obtain xs where xs: "redis' = fold (\<lambda>op s. snd (run_op op s)) xs redis"
    "subseq (concat (map op_times xs)) (gate_times q)"
    "list_all (ip_limits ip (cfg_ip_rate_per_minute cfg)) xs"
    "client_ip (cfg_trust_forwarded_for cfg) (fst q) = ip \<and> told_why r \<longrightarrow>
       1 \<le> admitted_calls (by_ip ip) xs redis"
    by blast
  from Cons.IH [of redis'] obtain ys where ys: "informative_failures cfg ip qs redis' \<le> admitted_calls (by_ip ip) ys redis'"
    "subseq (concat (map op_times ys)) (concat (map gate_times qs))"
    "list_all (ip_limits ip (cfg_ip_rate_per_minute cfg)) ys"
    by blast
  have "informative_failures cfg ip (q # qs) redis \<le> admitted_calls (by_ip ip) (xs @ ys) redis"
    using xs(1,4) ys(1) g by (auto simp: admitted_calls_append)
  moreover have "subseq (concat (map op_times (xs @ ys))) (concat (map gate_times (q # qs)))"
    using xs(2) ys(2) by (simp add: list_emb_append_mono)
  ultimately show ?case
    using xs(3) ys(3) by (intro exI [of _ "xs @ ys"]) simp
qed

text \<open>
  C19: scripted guessing is throttled.  Whatever requests an address sends, and whatever happens to
  keys and nonces meanwhile, the number of answers that tell it why authentication failed (REQ-4010
  to REQ-4014) within an interval of \<open>T\<close> seconds is at most \<open>n + n T / 60\<close> for the configured limit
  \<open>n\<close>; every further failure is answered with 429.
\<close>

theorem failed_auth_throttled:
  assumes "0 < cfg_ip_rate_per_minute cfg"
    and "sorted (t0 # map fst (concat (map gate_times qs)) @ [t1])"
    and "list_all skew_ok (concat (map gate_times qs))"
  shows "of_nat (informative_failures cfg ip qs Map.empty) \<le>
           of_nat (cfg_ip_rate_per_minute cfg) + of_nat (cfg_ip_rate_per_minute cfg) / 60 * (t1 - t0)"
proof -
  obtain ops where ops: "informative_failures cfg ip qs Map.empty \<le> admitted_calls (by_ip ip) ops Map.empty"
    "subseq (concat (map op_times ops)) (concat (map gate_times qs))"
    "list_all (ip_limits ip (cfg_ip_rate_per_minute cfg)) ops"
    using gate_trace_ops by blast
  have "subseq (t0 # map fst (concat (map op_times ops)) @ [t1]) (t0 # map fst (concat (map gate_times qs)) @ [t1])"
    using subseq_map [OF ops(2), of fst] by simp
  then have "sorted (t0 # map fst (concat (map op_times ops)) @ [t1])"
    using assms(2) by (rule sorted_subseq)
  moreover have "list_all skew_ok (concat (map op_times ops))"
    using assms(3) subseq_subset [OF ops(2)] by (auto simp: list_all_iff)
  ultimately have "traffic_ok t0 t1 ops" by (simp only: traffic_ok_def Let_def)
  from ip_admission_bound [OF this assms(1) ops(3)] ops(1) show ?thesis
    by (meson of_nat_mono order_trans)
qed

text \<open>Headers that name a key and carry no signature.\<close>

definition unsigned_headers :: hmac_headers where
  "unsigned_headers = sample_headers\<lparr>hh_signature := None\<rparr>"

theorem failed_auth_throttled_witness:
  "of_nat (informative_failures sample_settings (u ''10.0.0.1'')
     (replicate 40 (sample_request, unsigned_headers, sample_clocks, sample_state)) Map.empty) \<le>
     (of_nat 10 + of_nat 10 / 60 * (906 - 900) :: rat)"
proof -
  have t: "concat (map gate_times (replicate n (sample_request, unsigned_headers, sample_clocks, sample_state))) =
      replicate (3 * n) (900, 900)" for n
    by (induction n) (simp_all add: gate_times_def sample_clocks_def numeral_3_eq_3)
  let ?qs = "replicate 40 (sample_request, unsigned_headers, sample_clocks, sample_state)"
  have "sorted ((900 :: rat) # map fst (concat (map gate_times ?qs)) @ [906])"
    "list_all skew_ok (concat (map gate_times ?qs))" "0 < cfg_ip_rate_per_minute sample_settings"
    unfolding t by (simp_all add: sorted_append skew_ok_def list_all_iff sample_settings_def)
  from failed_auth_throttled [OF this(3,1,2), of "u ''10.0.0.1''"] show ?thesis
    by (simp add: sample_settings_def)
qed

end
