(* ===== verification/Policies.thy ===== *)
theory Policies
  imports Codes "HOL-Library.Product_Lexorder"
begin

text \<open>
  Verdict policy.  \<^verbatim>\<open>app/core/policies.py\<close> (score thresholds, the entity table and
  \<open>map_detection_to_code\<close>), \<^verbatim>\<open>app/core/policy_engine.py\<close> (resolution of a detection through the
  \<^verbatim>\<open>pii_policies\<close> rows) and the policy part of \<^verbatim>\<open>app/db/crud.py\<close> (validation, insertion,
  mode switch and the specificity ordering).  The table is a record of its rows and its id sequence;
  the constraints of \<^verbatim>\<open>app/db/models.py\<close> are the invariant \<open>policies_ok\<close>.  Scores are
  rationals, and a decimal literal denotes that decimal, where they are only compared; the width of a
  band, which the database subtracts, is rounded to doubles.
\<close>

section \<open>Score bands\<close>

datatype strictness = Low | Medium | High

datatype band = Band_pass | Band_block

fun BLOCK_THRESHOLD :: "strictness \<Rightarrow> rat" where
  "BLOCK_THRESHOLD Low = 65 / 100"
| "BLOCK_THRESHOLD Medium = 78 / 100"
| "BLOCK_THRESHOLD High = 88 / 100"

definition score_to_band :: "rat \<Rightarrow> strictness \<Rightarrow> band" where
  "score_to_band score strictness =
     (if score \<ge> BLOCK_THRESHOLD strictness then Band_block else Band_pass)"

definition ENTITY_TO_CODE :: "((string \<times> band) \<times> string) list" where
  "ENTITY_TO_CODE =
    [((''KR_RRN'', Band_block), ''BLOCK-2001''),
     ((''KR_DRIVERLICENSE'', Band_block), ''BLOCK-2002''),
     ((''KR_PASSPORT'', Band_block), ''BLOCK-2003''),
     ((''CREDIT_CARD'', Band_block), ''BLOCK-2005''),
     ((''KR_BANK_ACCOUNT'', Band_block), ''BLOCK-2006''),
     ((''INTERNAL_NAME'', Band_block), ''BLOCK-2007''),
     ((''KR_PHONE'', Band_block), ''BLOCK-2099''),
     ((''EMAIL_ADDRESS'', Band_block), ''BLOCK-2099''),
     ((''LOCATION'', Band_block), ''BLOCK-2099''),
     ((''PERSON'', Band_block), ''BLOCK-2099''),
     ((''KR_BUSINESS_NUM'', Band_block), ''BLOCK-2099''),
     ((''KR_BANK_ACCOUNT_WEAK'', Band_block), ''BLOCK-2099'')]"

text \<open>The field is user-influenced text (an attachment id follows the prefix).\<close>

definition map_detection_to_code :: "string \<Rightarrow> rat \<Rightarrow> ustr \<Rightarrow> strictness \<Rightarrow> string" where
  "map_detection_to_code entity_type score field strictness =
     (let band = score_to_band score strictness in
      if starts_with field (u ''attachment'') then
        (if band = Band_block then ''BLOCK-2010'' else FALLBACK_PASS)
      else if band = Band_pass then FALLBACK_PASS
      else case map_of ENTITY_TO_CODE (entity_type, band) of
             Some code \<Rightarrow> code
           | None \<Rightarrow> FALLBACK_BLOCK)"

section \<open>Policy rows\<close>

record policy =
  pp_id :: nat
  pp_entity_type :: string
  pp_score_min :: rat
  pp_score_max :: rat
  pp_action :: string
  pp_user_message_template :: "ustr option"
  pp_mode :: string
  pp_version :: nat
  pp_created_by :: string

record policy_table =
  pt_rows :: "policy list"
  pt_next_id :: nat

datatype policy_error = PolicyValidationError | IntegrityError

definition POLICY_MODES :: "string list" where
  "POLICY_MODES = [''enabled'', ''shadow'', ''disabled'']"

definition POLICY_ACTIONS :: "string list" where
  "POLICY_ACTIONS = [''BLOCK'', ''WARN'', ''MASK'', ''LOG_ONLY'', ''PASS'']"

definition validate_score :: "rat \<Rightarrow> policy_error + unit" where
  "validate_score score =
     (if \<not> (0 \<le> score \<and> score \<le> 1) then Inl PolicyValidationError else Inr ())"

definition validate_mode :: "string \<Rightarrow> policy_error + unit" where
  "validate_mode m = (if m \<notin> set POLICY_MODES then Inl PolicyValidationError else Inr ())"

definition validate_action :: "string \<Rightarrow> policy_error + unit" where
  "validate_action a = (if a \<notin> set POLICY_ACTIONS then Inl PolicyValidationError else Inr ())"

text \<open>The columns of the table's UNIQUE constraint.\<close>

definition policy_key :: "policy \<Rightarrow> string \<times> rat \<times> rat \<times> string" where
  "policy_key p = (pp_entity_type p, pp_score_min p, pp_score_max p, pp_mode p)"

definition add_policy ::
  "policy_table \<Rightarrow> string \<Rightarrow> rat \<Rightarrow> rat \<Rightarrow> string \<Rightarrow> ustr option \<Rightarrow> string \<Rightarrow> string
     \<Rightarrow> policy_error + (policy \<times> policy_table)" where
  "add_policy t entity_type score_min score_max action template mode created_by =
     (case validate_action action of Inl e \<Rightarrow> Inl e | Inr _ \<Rightarrow>
      case validate_mode mode of Inl e \<Rightarrow> Inl e | Inr _ \<Rightarrow>
      if \<not> (0 \<le> score_min \<and> score_min \<le> score_max \<and> score_max \<le> 1) then Inl PolicyValidationError
      else
        (let row = \<lparr>pp_id = pt_next_id t, pp_entity_type = entity_type, pp_score_min = score_min,
                    pp_score_max = score_max, pp_action = action,
                    pp_user_message_template = template, pp_mode = mode, pp_version = 1,
                    pp_created_by = created_by\<rparr>
         in if policy_key row \<in> set (map policy_key (pt_rows t)) then Inl PolicyValidationError
            else Inr (row, \<lparr>pt_rows = pt_rows t @ [row], pt_next_id = Suc (pt_next_id t)\<rparr>)))"

text \<open>\<open>update_policy_mode\<close> does not catch a violated UNIQUE constraint.\<close>

definition update_policy_mode :: "policy_table \<Rightarrow> nat \<Rightarrow> string \<Rightarrow> policy_error + policy_table" where
  "update_policy_mode t policy_id mode =
     (case validate_mode mode of Inl e \<Rightarrow> Inl e | Inr _ \<Rightarrow>
        (let rows = map (\<lambda>p. if pp_id p = policy_id
                             then p\<lparr>pp_mode := mode, pp_version := pp_version p + 1\<rparr> else p)
                        (pt_rows t)
         in if distinct (map policy_key rows) then Inr (t\<lparr>pt_rows := rows\<rparr>) else Inl IntegrityError))"

definition get_policy :: "policy_table \<Rightarrow> nat \<Rightarrow> policy option" where
  "get_policy t policy_id = find (\<lambda>p. pp_id p = policy_id) (pt_rows t)"

text \<open>
  \<^verbatim>\<open>ORDER BY score_max - score_min ASC, score_min DESC, id ASC\<close>.  The columns are \<^verbatim>\<open>double precision\<close>,
  so the database stores the nearest double of each bound and rounds their difference again.
  \<open>double_of\<close> is that rounding for numbers of at most 1 in size: the exponent \<open>k\<close> is the first at which
  the scaled number has 53 bits, up to the 1074 of the subnormal numbers.
\<close>

fun scale_exp :: "nat \<Rightarrow> nat \<Rightarrow> rat \<Rightarrow> nat" where
  "scale_exp 0 k x = k"
| "scale_exp (Suc n) k x = (if 2 ^ 52 \<le> x * 2 ^ k then k else scale_exp n (Suc k) x)"

definition round_half_even :: "rat \<Rightarrow> int" where
  "round_half_even x =
     (let f = \<lfloor>x\<rfloor>; d = x - of_int f in
      if d < 1 / 2 then f else if 1 / 2 < d then f + 1 else if even f then f else f + 1)"

definition double_of :: "rat \<Rightarrow> rat" where
  "double_of x = (let k = scale_exp 1022 52 \<bar>x\<bar> in of_int (round_half_even (x * 2 ^ k)) / 2 ^ k)"

definition width :: "policy \<Rightarrow> rat" where
  "width p = double_of (double_of (pp_score_max p) - double_of (pp_score_min p))"

definition specificity :: "policy \<Rightarrow> rat \<times> rat \<times> nat" where
  "specificity p = (width p, - pp_score_min p, pp_id p)"

definition list_active_policies :: "policy_table \<Rightarrow> string list \<Rightarrow> policy list" where
  "list_active_policies t modes =
     sort_key specificity (filter (\<lambda>p. pp_mode p \<in> set modes) (pt_rows t))"

section \<open>Resolution\<close>

record resolved_policy =
  rp_action :: string
  rp_code :: string
  rp_user_message :: "ustr option"
  rp_from_db :: bool

definition policy_match :: "string \<Rightarrow> rat \<Rightarrow> policy \<Rightarrow> bool" where
  "policy_match entity_type score p \<longleftrightarrow>
     pp_entity_type p = entity_type \<and> pp_score_min p \<le> score \<and> score \<le> pp_score_max p"

definition action_to_code :: "string \<Rightarrow> string \<Rightarrow> string" where
  "action_to_code action fallback =
     (if action = ''MASK'' then ''WARN-1010''
      else if action \<in> {''LOG_ONLY'', ''PASS''} then ''OK-0000''
      else fallback)"

text \<open>\<^verbatim>\<open>a or b\<close> on an optional string: a missing or empty string falls through.\<close>

definition str_or :: "ustr option \<Rightarrow> ustr option \<Rightarrow> ustr option" where
  "str_or a b = (case a of None \<Rightarrow> b | Some s \<Rightarrow> if s = [] then b else Some s)"

fun resolve_action ::
  "string \<Rightarrow> rat \<Rightarrow> string \<Rightarrow> string \<Rightarrow> ustr option \<Rightarrow> policy list \<Rightarrow> resolved_policy" where
  "resolve_action entity_type score dflt_action dflt_code dflt_message [] =
     \<lparr>rp_action = dflt_action, rp_code = dflt_code, rp_user_message = dflt_message,
      rp_from_db = False\<rparr>"
| "resolve_action entity_type score dflt_action dflt_code dflt_message (p # ps) =
     (if policy_match entity_type score p then
        \<lparr>rp_action = pp_action p, rp_code = action_to_code (pp_action p) dflt_code,
         rp_user_message = str_or (pp_user_message_template p) dflt_message, rp_from_db = True\<rparr>
      else resolve_action entity_type score dflt_action dflt_code dflt_message ps)"

section \<open>Thresholds and codes\<close>

lemma score_to_band_mono:
  "score_to_band s st = Band_block \<Longrightarrow> s \<le> s' \<Longrightarrow> score_to_band s' st = Band_block"
  by (auto simp: score_to_band_def split: if_splits)

lemma score_to_band_block_iff: "score_to_band s st = Band_block \<longleftrightarrow> BLOCK_THRESHOLD st \<le> s"
  by (simp add: score_to_band_def)

lemma score_to_band_pass_iff: "score_to_band s st = Band_pass \<longleftrightarrow> s < BLOCK_THRESHOLD st"
  by (auto simp: score_to_band_def)

lemma ENTITY_TO_CODE_verdict:
  "map_of ENTITY_TO_CODE k = Some c \<Longrightarrow> code_verdict c = Some BLOCK"
  by (drule map_of_SomeD) (auto simp: ENTITY_TO_CODE_def)

text \<open>Every code the mapping can return is in the catalogue, and its verdict is the band.\<close>

lemma map_detection_to_code_verdict:
  "code_verdict (map_detection_to_code et s f st) =
     Some (if BLOCK_THRESHOLD st \<le> s then BLOCK else PASS)"
  by (auto simp: map_detection_to_code_def Let_def score_to_band_def FALLBACK_PASS_def
        FALLBACK_BLOCK_def ENTITY_TO_CODE_verdict split: option.splits)

text \<open>
  Strictness works against its name.  Whatever a detection is, if it is blocked at a stricter
  setting it is blocked at every laxer one, because the thresholds rise with strictness; and a
  score of 0.7 is blocked under \<^verbatim>\<open>low\<close> and passes under \<^verbatim>\<open>medium\<close> and \<^verbatim>\<open>high\<close>, whatever the entity.
\<close>

theorem strictness_antitone:
  "(code_verdict (map_detection_to_code et s f High) = Some BLOCK \<longrightarrow>
      code_verdict (map_detection_to_code et s f Medium) = Some BLOCK) \<and>
   (code_verdict (map_detection_to_code et s f Medium) = Some BLOCK \<longrightarrow>
      code_verdict (map_detection_to_code et s f Low) = Some BLOCK) \<and>
   code_verdict (map_detection_to_code et (7 / 10) f Low) = Some BLOCK \<and>
   code_verdict (map_detection_to_code et (7 / 10) f Medium) = Some PASS \<and>
   code_verdict (map_detection_to_code et (7 / 10) f High) = Some PASS"
  by (auto simp: map_detection_to_code_verdict)

theorem strictness_antitone_witness:
  "code_verdict (map_detection_to_code ''KR_RRN'' 1 (u ''post.body'') Low) = Some BLOCK"
  using strictness_antitone [of "''KR_RRN''" 1 "u ''post.body''"]
  by (simp add: map_detection_to_code_verdict)

section \<open>The resolver\<close>

lemma resolve_action_find:
  "resolve_action et s da dc dm ps =
     (case find (policy_match et s) ps of
        None \<Rightarrow> \<lparr>rp_action = da, rp_code = dc, rp_user_message = dm, rp_from_db = False\<rparr>
      | Some p \<Rightarrow> \<lparr>rp_action = pp_action p, rp_code = action_to_code (pp_action p) dc,
                  rp_user_message = str_or (pp_user_message_template p) dm, rp_from_db = True\<rparr>)"
  by (induction ps) auto

lemma sorted_find_least:
  assumes "find P (sort_key f xs) = Some x"
  shows "x \<in> set xs \<and> P x \<and> (\<forall>y \<in> set xs. P y \<longrightarrow> f x \<le> f y)"
proof -
  from assms obtain as bs where d: "sort_key f xs = as @ x # bs" "P x" "\<forall>a \<in> set as. \<not> P a"
    by (auto simp: find_Some_split)
  have "sorted (map f (as @ x # bs))"
    using d(1) sorted_sort_key [of f xs] by metis
  then have le: "\<forall>y \<in> set bs. f x \<le> f y"
    by (simp add: sorted_append)
  have "set xs = set as \<union> insert x (set bs)"
    using d(1) by (metis Un_insert_right list.set(2) set_append set_sort)
  with d le show ?thesis by auto
qed

lemma specificity_le_iff:
  "specificity p \<le> specificity q \<longleftrightarrow>
     width p < width q \<or> width p = width q \<and>
       (pp_score_min q < pp_score_min p \<or> pp_score_min p = pp_score_min q \<and> pp_id p \<le> pp_id q)"
  by (auto simp: specificity_def less_eq_prod_def less_prod_def)

lemma resolve_least:
  assumes "find (policy_match et s) (list_active_policies t [''enabled'']) = Some p"
  shows "p \<in> set (pt_rows t)" "pp_mode p = ''enabled''" "policy_match et s p"
    "q \<in> set (pt_rows t) \<Longrightarrow> pp_mode q = ''enabled'' \<Longrightarrow> policy_match et s q \<Longrightarrow> specificity p \<le> specificity q"
  using sorted_find_least [OF assms [unfolded list_active_policies_def]] by auto

text \<open>
  C20: resolution picks the most specific enabled row.  If some enabled row is for the detection's
  entity and its band contains the score, the answer comes from such a row: no other is narrower, has
  the same width and a higher lower bound, or equals both and is older, where the width is what the
  database computes, the difference of the stored doubles rounded to a double.  Its action is
  returned; MASK gives WARN-1010, LOG_ONLY and PASS give OK-0000, and the other actions keep the
  default code; its message is used unless it is missing or empty.  Without such a row the
  code-defined default is returned unchanged.
\<close>

theorem resolve_most_specific:
  "let r = resolve_action et s da dc dm (list_active_policies t [''enabled'']);
       eligible = (\<lambda>p. pp_mode p = ''enabled'' \<and> pp_entity_type p = et \<and> pp_score_min p \<le> s \<and> s \<le> pp_score_max p);
       w = (\<lambda>p. double_of (double_of (pp_score_max p) - double_of (pp_score_min p)))
   in if \<exists>p \<in> set (pt_rows t). eligible p
      then \<exists>p \<in> set (pt_rows t). eligible p \<and>
        (\<forall>q \<in> set (pt_rows t). eligible q \<longrightarrow> w p < w q \<or> w p = w q \<and>
           (pp_score_min q < pp_score_min p \<or> pp_score_min p = pp_score_min q \<and> pp_id p \<le> pp_id q)) \<and>
        rp_action r = pp_action p \<and>
        rp_code r = (if pp_action p = ''MASK'' then ''WARN-1010''
                     else if pp_action p = ''LOG_ONLY'' \<or> pp_action p = ''PASS'' then ''OK-0000'' else dc) \<and>
        rp_user_message r = (if pp_user_message_template p \<in> {None, Some []} then dm
                             else pp_user_message_template p) \<and>
        rp_from_db r
      else rp_action r = da \<and> rp_code r = dc \<and> rp_user_message r = dm \<and> \<not> rp_from_db r"
proof (cases "find (policy_match et s) (list_active_policies t [''enabled''])")
  case None
  then have "\<not> (\<exists>p \<in> set (pt_rows t). pp_mode p = ''enabled'' \<and> policy_match et s p)"
    unfolding find_None_iff_ball list_active_policies_def by auto
  with None show ?thesis by (auto simp: resolve_action_find policy_match_def)
next
  case (Some p)
  note p = resolve_least [OF this]
  then have le: "\<forall>q \<in> set (pt_rows t). pp_mode q = ''enabled'' \<and> policy_match et s q \<longrightarrow> specificity p \<le> specificity q"
    by blast
  from p(3) have m: "pp_entity_type p = et \<and> pp_score_min p \<le> s \<and> s \<le> pp_score_max p"
    by (simp add: policy_match_def)
  have "str_or (pp_user_message_template p) dm =
      (if pp_user_message_template p \<in> {None, Some []} then dm else pp_user_message_template p)"
    by (simp add: str_or_def split: option.split)
  with Some have r: "resolve_action et s da dc dm (list_active_policies t [''enabled'']) =
      \<lparr>rp_action = pp_action p, rp_code = action_to_code (pp_action p) dc,
       rp_user_message = (if pp_user_message_template p \<in> {None, Some []} then dm else pp_user_message_template p),
       rp_from_db = True\<rparr>"
    by (simp add: resolve_action_find)
  show ?thesis
    unfolding Let_def r
    by (subst if_P, use p(1,2) m in blast, intro bexI [of _ p] conjI)
      (use p(1,2) m le in \<open>auto simp: action_to_code_def specificity_le_iff width_def policy_match_def\<close>)
qed

text \<open>
  C21: the policy table can only soften a verdict.  A resolved detection carries a BLOCK code only
  if the code-defined mapping had already put it at or above its threshold, so a BLOCK row on a
  score below the threshold keeps the passing code.
\<close>

theorem resolve_never_upgrades:
  assumes "code_verdict (rp_code (resolve_action et s da (map_detection_to_code et s f st) dm ps)) =
             Some BLOCK"
  shows "BLOCK_THRESHOLD st \<le> s \<and>
         rp_code (resolve_action et s da (map_detection_to_code et s f st) dm ps) =
           map_detection_to_code et s f st"
  using assms unfolding resolve_action_find
  by (auto simp: action_to_code_def map_detection_to_code_verdict split: option.splits if_splits)

definition sample_policy :: policy where
  "sample_policy =
     \<lparr>pp_id = 7, pp_entity_type = ''KR_PHONE'', pp_score_min = 1 / 2, pp_score_max = 1,
      pp_action = ''BLOCK'', pp_user_message_template = None, pp_mode = ''enabled'',
      pp_version = 1, pp_created_by = ''cli''\<rparr>"

text \<open>Bands of equal width on paper: as doubles, 0.6 - 0.3 is below 0.8 - 0.5.\<close>

definition sample_table :: policy_table where
  "sample_table =
     \<lparr>pt_rows = [sample_policy\<lparr>pp_id := 3, pp_action := ''LOG_ONLY'', pp_score_min := 5 / 10, pp_score_max := 8 / 10\<rparr>,
                 sample_policy\<lparr>pp_score_min := 3 / 10, pp_score_max := 6 / 10\<rparr>], pt_next_id = 8\<rparr>"

lemma decimal_widths:
  "double_of (double_of (3 / 5) - double_of (3 / 10)) < double_of (double_of (4 / 5) - double_of (1 / 2))"
  by code_simp

theorem resolve_most_specific_witness:
  "rp_action (resolve_action ''KR_PHONE'' (55 / 100) ''PASS'' ''OK-0000'' None
     (list_active_policies sample_table [''enabled''])) = ''BLOCK''"
  using resolve_most_specific [of "''KR_PHONE''" "55 / 100" "''PASS''" "''OK-0000''" None sample_table] decimal_widths
  by (auto simp: Let_def sample_table_def sample_policy_def)

theorem resolve_never_upgrades_witness:
  "BLOCK_THRESHOLD Medium \<le> 9 / 10 \<and>
   code_verdict (rp_code (resolve_action ''KR_PHONE'' (9 / 10) ''BLOCK''
     (map_detection_to_code ''KR_PHONE'' (9 / 10) (u ''post.body'') Medium) None [sample_policy])) =
     Some BLOCK"
proof -
  have b: "code_verdict (rp_code (resolve_action ''KR_PHONE'' (9 / 10) ''BLOCK''
     (map_detection_to_code ''KR_PHONE'' (9 / 10) (u ''post.body'') Medium) None [sample_policy])) =
     Some BLOCK"
    by (simp add: sample_policy_def policy_match_def action_to_code_def map_detection_to_code_verdict)
  from resolve_never_upgrades [OF b] b show ?thesis by blast
qed

section \<open>Table invariant\<close>

definition policies_ok :: "policy_table \<Rightarrow> bool" where
  "policies_ok t \<longleftrightarrow>
     distinct (map pp_id (pt_rows t)) \<and> (\<forall>p \<in> set (pt_rows t). pp_id p < pt_next_id t) \<and>
     distinct (map policy_key (pt_rows t)) \<and>
     (\<forall>p \<in> set (pt_rows t). pp_action p \<in> set POLICY_ACTIONS \<and> pp_mode p \<in> set POLICY_MODES \<and>
        0 \<le> pp_score_min p \<and> pp_score_min p \<le> pp_score_max p \<and> pp_score_max p \<le> 1)"

lemma validate_action_Inr: "validate_action a = Inr x \<longleftrightarrow> a \<in> set POLICY_ACTIONS"
  by (simp add: validate_action_def)

lemma validate_mode_Inr: "validate_mode m = Inr x \<longleftrightarrow> m \<in> set POLICY_MODES"
  by (simp add: validate_mode_def)

lemma add_policy_ok:
  assumes "policies_ok t" "add_policy t et lo hi a tmpl m by = Inr (row, t')"
  shows "policies_ok t' \<and> pt_rows t' = pt_rows t @ [row] \<and> pp_id row \<notin> set (map pp_id (pt_rows t))"
proof -
  from assms(2) have v: "a \<in> set POLICY_ACTIONS" "m \<in> set POLICY_MODES" "0 \<le> lo" "lo \<le> hi" "hi \<le> 1"
    and k: "policy_key row \<notin> set (map policy_key (pt_rows t))"
    and r: "pp_id row = pt_next_id t" "pp_action row = a" "pp_mode row = m" "pp_score_min row = lo"
      "pp_score_max row = hi"
    and t': "t' = \<lparr>pt_rows = pt_rows t @ [row], pt_next_id = Suc (pt_next_id t)\<rparr>"
    by (auto simp: add_policy_def Let_def validate_action_Inr validate_mode_Inr
          split: sum.splits if_splits)
  have "pp_id row \<notin> set (map pp_id (pt_rows t))"
    using assms(1) r(1) by (auto simp: policies_ok_def)
  then show ?thesis
    using assms(1) v k r t' by (auto simp: policies_ok_def less_Suc_eq)
qed

lemma update_policy_mode_ok:
  assumes "policies_ok t" "update_policy_mode t i m = Inr t'"
  shows "policies_ok t'"
proof -
  let ?f = "\<lambda>p. if pp_id p = i then p\<lparr>pp_mode := m, pp_version := pp_version p + 1\<rparr> else p"
  from assms(2) have v: "m \<in> set POLICY_MODES" and t': "t' = t\<lparr>pt_rows := map ?f (pt_rows t)\<rparr>"
    and d: "distinct (map policy_key (map ?f (pt_rows t)))"
    by (auto simp: update_policy_mode_def Let_def validate_mode_Inr split: sum.splits if_splits)
  have "map pp_id (map ?f (pt_rows t)) = map pp_id (pt_rows t)"
    by simp
  then have i: "distinct (map pp_id (map ?f (pt_rows t)))"
    using assms(1) by (simp only: policies_ok_def)
  show ?thesis
    using assms(1) v i d unfolding t' policies_ok_def by (auto simp del: map_map)
qed

text \<open>The operations that change the table, as a step relation, and the tables they reach.\<close>

inductive policy_step :: "policy_table \<Rightarrow> policy_table \<Rightarrow> bool" where
  ps_add: "add_policy t et lo hi a tmpl m by = Inr (row, t') \<Longrightarrow> policy_step t t'"
| ps_mode: "update_policy_mode t i m = Inr t' \<Longrightarrow> policy_step t t'"

inductive_cases policy_stepE: "policy_step t t'"

lemma policy_step_ok: "policy_step t t' \<Longrightarrow> policies_ok t \<Longrightarrow> policies_ok t'"
  by (auto elim!: policy_stepE dest: add_policy_ok update_policy_mode_ok)

text \<open>
  Starting from an empty table, whatever sequence of insertions and mode switches is applied,
  the table keeps its constraints: ids unique and below the sequence, at most one row per entity,
  band and mode, legal actions and modes, and score bands inside the unit interval.
\<close>

theorem policy_table_invariant:
  assumes "policy_step\<^sup>*\<^sup>* \<lparr>pt_rows = [], pt_next_id = 1\<rparr> t"
  shows "policies_ok t"
  using assms
proof (induction rule: rtranclp_induct)
  case base
  then show ?case by (simp add: policies_ok_def)
next
  case (step y z)
  then show ?case by (blast intro: policy_step_ok)
qed

theorem policy_table_invariant_witness:
  "\<exists>t. policy_step\<^sup>*\<^sup>* \<lparr>pt_rows = [], pt_next_id = 1\<rparr> t \<and> length (pt_rows t) = 1 \<and> policies_ok t"
proof -
  obtain row t where a: "add_policy \<lparr>pt_rows = [], pt_next_id = 1\<rparr> ''KR_RRN'' 0 1 ''LOG_ONLY'' None
      ''enabled'' ''cli'' = Inr (row, t)" and l: "length (pt_rows t) = 1"
    by (simp add: add_policy_def validate_action_def validate_mode_def POLICY_ACTIONS_def
          POLICY_MODES_def Let_def)
  have s: "policy_step\<^sup>*\<^sup>* \<lparr>pt_rows = [], pt_next_id = 1\<rparr> t"
    using ps_add [OF a] by blast
  from policy_table_invariant [OF s] s l show ?thesis by blast
qed

end
