(* ===== verification/Idempotency.thy ===== *)
theory Idempotency
  imports Responses
begin

text \<open>
  \<^verbatim>\<open>app/security/idempotency.py\<close>: the in-memory cache of request ids.  The store is a map from
  ids to entries; every operation holds the cache's lock, so operations are atomic and the clock
  reading is an argument.  \<open>view\<close> is the abstract content of the cache at a time, what a caller can
  observe of one id; the locale \<open>idempotency_store\<close> states the contract of the four operations
  over it and derives what the detector relies on: one winner per id, and stable replay.
\<close>

section \<open>State and operations\<close>

datatype reserve_outcome = NEW | IN_PROGRESS | COMPLETED

record 'r idem_entry =
  ie_state :: reserve_outcome
  ie_response :: "'r option"
  ie_created_at :: rat

record 'r idem_cache =
  ic_store :: "uuid \<rightharpoonup> 'r idem_entry"
  ic_ttl :: rat

definition DEFAULT_TTL :: rat where
  "DEFAULT_TTL = 24 * 3600"

definition new_cache :: "rat \<Rightarrow> 'r idem_cache" where
  "new_cache ttl = \<lparr>ic_store = Map.empty, ic_ttl = ttl\<rparr>"

definition evict_expired :: "rat \<Rightarrow> 'r idem_cache \<Rightarrow> 'r idem_cache" where
  "evict_expired now c =
     c\<lparr>ic_store := (\<lambda>k. case ic_store c k of
          None \<Rightarrow> None
        | Some e \<Rightarrow> if ie_created_at e < now - ic_ttl c then None else Some e)\<rparr>"

definition reserve ::
  "uuid \<Rightarrow> rat \<Rightarrow> 'r idem_cache \<Rightarrow> (reserve_outcome \<times> 'r option) \<times> 'r idem_cache" where
  "reserve rid now c =
     (let c' = evict_expired now c in
      case ic_store c' rid of
        None \<Rightarrow>
          ((NEW, None),
           c'\<lparr>ic_store := (ic_store c')(rid \<mapsto>
               \<lparr>ie_state = IN_PROGRESS, ie_response = None, ie_created_at = now\<rparr>)\<rparr>)
      | Some e \<Rightarrow> ((ie_state e, ie_response e), c'))"

definition complete :: "uuid \<Rightarrow> 'r \<Rightarrow> rat \<Rightarrow> 'r idem_cache \<Rightarrow> 'r idem_cache" where
  "complete rid response now c =
     c\<lparr>ic_store := (ic_store c)(rid \<mapsto>
         \<lparr>ie_state = COMPLETED, ie_response = Some response, ie_created_at = now\<rparr>)\<rparr>"

definition release :: "uuid \<Rightarrow> 'r idem_cache \<Rightarrow> 'r idem_cache" where
  "release rid c =
     (case ic_store c rid of
        Some e \<Rightarrow> if ie_state e = IN_PROGRESS then c\<lparr>ic_store := (ic_store c)(rid := None)\<rparr> else c
      | None \<Rightarrow> c)"

definition clear :: "'r idem_cache \<Rightarrow> 'r idem_cache" where
  "clear c = c\<lparr>ic_store := Map.empty\<rparr>"

text \<open>Only in-progress and completed entries are stored, and only completed ones have a response.\<close>

definition cache_ok :: "'r idem_cache \<Rightarrow> bool" where
  "cache_ok c \<longleftrightarrow> (\<forall>k e. ic_store c k = Some e \<longrightarrow>
     ie_state e = IN_PROGRESS \<and> ie_response e = None \<or>
     ie_state e = COMPLETED \<and> ie_response e \<noteq> None)"

section \<open>The observable content\<close>

datatype 'r slot = Free | Busy rat | Done 'r rat

definition view :: "'r idem_cache \<Rightarrow> rat \<Rightarrow> uuid \<Rightarrow> 'r slot" where
  "view c now rid =
     (case ic_store c rid of
        None \<Rightarrow> Free
      | Some e \<Rightarrow>
          if ie_created_at e < now - ic_ttl c then Free
          else case ie_response e of None \<Rightarrow> Busy (ie_created_at e) | Some r \<Rightarrow> Done r (ie_created_at e))"

section \<open>The contract\<close>

datatype 'r idem_event =
    Ev_reserve uuid rat
  | Ev_complete uuid 'r rat
  | Ev_release uuid

text \<open>Whether an event is a reservation no later than \<open>t\<close> or leaves the id alone.\<close>

fun harmless :: "uuid \<Rightarrow> rat \<Rightarrow> 'r idem_event \<Rightarrow> bool" where
  "harmless rid t (Ev_reserve _ now) = (now \<le> t)"
| "harmless rid t (Ev_complete k _ _) = (k \<noteq> rid)"
| "harmless rid t (Ev_release k) = (k \<noteq> rid)"

fun harmless_done :: "uuid \<Rightarrow> rat \<Rightarrow> 'r idem_event \<Rightarrow> bool" where
  "harmless_done rid t (Ev_reserve _ now) = (now \<le> t)"
| "harmless_done rid t (Ev_complete k _ _) = (k \<noteq> rid)"
| "harmless_done rid t (Ev_release k) = True"

locale idempotency_store =
  fixes ok :: "'s \<Rightarrow> bool"
    and ttl :: "'s \<Rightarrow> rat"
    and slot_of :: "'s \<Rightarrow> rat \<Rightarrow> uuid \<Rightarrow> 'r slot"
    and res :: "uuid \<Rightarrow> rat \<Rightarrow> 's \<Rightarrow> (reserve_outcome \<times> 'r option) \<times> 's"
    and comp :: "uuid \<Rightarrow> 'r \<Rightarrow> rat \<Rightarrow> 's \<Rightarrow> 's"
    and rel :: "uuid \<Rightarrow> 's \<Rightarrow> 's"
  assumes expiry_Free: "ok s \<Longrightarrow> slot_of s t k = Free \<Longrightarrow> t \<le> t' \<Longrightarrow> slot_of s t' k = Free"
    and live_Busy: "ok s \<Longrightarrow> slot_of s t k = Busy t0 \<Longrightarrow>
          slot_of s t' k = (if t0 < t' - ttl s then Free else Busy t0)"
    and live_Done: "ok s \<Longrightarrow> slot_of s t k = Done r t0 \<Longrightarrow>
          slot_of s t' k = (if t0 < t' - ttl s then Free else Done r t0)"
    and res_out: "ok s \<Longrightarrow> fst (res k t s) =
          (case slot_of s t k of
             Free \<Rightarrow> (NEW, None) | Busy _ \<Rightarrow> (IN_PROGRESS, None) | Done r _ \<Rightarrow> (COMPLETED, Some r))"
    and res_ok: "ok s \<Longrightarrow> ok (snd (res k t s)) \<and> ttl (snd (res k t s)) = ttl s"
    and res_slot: "ok s \<Longrightarrow> slot_of (snd (res k t s)) t k' =
          (if k' = k \<and> slot_of s t k = Free \<and> 0 \<le> ttl s then Busy t
           else if k' = k \<and> slot_of s t k = Free then Free else slot_of s t k')"
    and comp_ok: "ok s \<Longrightarrow> ok (comp k r t s) \<and> ttl (comp k r t s) = ttl s"
    and comp_slot: "ok s \<Longrightarrow> slot_of (comp k r t s) t' k' =
          (if k' = k then (if t < t' - ttl s then Free else Done r t) else slot_of s t' k')"
    and rel_ok: "ok s \<Longrightarrow> ok (rel k s) \<and> ttl (rel k s) = ttl s"
    and rel_slot: "ok s \<Longrightarrow> slot_of (rel k s) t k' =
          (if k' = k \<and> (\<forall>r t0. slot_of s t k \<noteq> Done r t0) then Free else slot_of s t k')"
begin

fun step :: "'r idem_event \<Rightarrow> 's \<Rightarrow> 's" where
  "step (Ev_reserve k t) s = snd (res k t s)"
| "step (Ev_complete k r t) s = comp k r t s"
| "step (Ev_release k) s = rel k s"

lemma step_ok: "ok s \<Longrightarrow> ok (step e s) \<and> ttl (step e s) = ttl s"
  by (cases e) (simp_all add: res_ok comp_ok rel_ok)

lemma steps_ok: "ok s \<Longrightarrow> ok (fold step es s) \<and> ttl (fold step es s) = ttl s"
proof (induction es arbitrary: s)
  case Nil
  then show ?case by simp
next
  case (Cons e es)
  from Cons.IH [of "step e s"] step_ok [OF Cons.prems, of e] show ?case by simp
qed

lemma Done_step:
  assumes "ok s" "slot_of s t k = Done r t0" "t \<le> t0 + ttl s" "harmless_done k (t0 + ttl s) e"
  shows "\<exists>t'. t' \<le> t0 + ttl s \<and> slot_of (step e s) t' k = Done r t0"
proof (cases e)
  case (Ev_reserve k' t')
  with assms have l: "slot_of s t' k = Done r t0" "t' \<le> t0 + ttl s"
    using live_Done [OF assms(1,2), of t'] by auto
  then have "slot_of (step e s) t' k = Done r t0"
    using Ev_reserve res_slot [OF assms(1), of k' t' k] by auto
  with l(2) show ?thesis by blast
next
  case (Ev_complete k' r' t')
  with assms show ?thesis
    using comp_slot [OF assms(1), of k' r' t' t k] by auto
next
  case (Ev_release k')
  with assms(2) have "slot_of (step e s) t k = Done r t0"
    using rel_slot [OF assms(1), of k' t k] by auto
  with assms(3) show ?thesis by blast
qed

lemma Done_steps:
  assumes "ok s" "slot_of s t k = Done r t0" "t \<le> t0 + ttl s"
    "list_all (harmless_done k (t0 + ttl s)) es"
  shows "\<exists>t' \<le> t0 + ttl s. slot_of (fold step es s) t' k = Done r t0"
  using assms
proof (induction es arbitrary: s t)
  case Nil
  then show ?case by auto
next
  case (Cons e es)
  obtain t' where "t' \<le> t0 + ttl s" "slot_of (step e s) t' k = Done r t0"
    using Done_step [OF Cons.prems(1-3)] Cons.prems(4) by auto
  with Cons.IH [of "step e s" t'] Cons.prems step_ok [OF Cons.prems(1), of e] show ?case by simp
qed

lemma replay:
  assumes "ok s" "0 \<le> ttl s" "list_all (harmless_done k (t0 + ttl s)) es" "t \<le> t0 + ttl s"
  shows "fst (res k t (fold step es (comp k r t0 s))) = (COMPLETED, Some r)"
proof -
  let ?s1 = "comp k r t0 s"
  have s1: "ok ?s1" "ttl ?s1 = ttl s" "slot_of ?s1 t0 k = Done r t0"
    using comp_ok [OF assms(1)] comp_slot [OF assms(1), of k r t0 t0 k] assms(2) by auto
  obtain t' where "slot_of (fold step es ?s1) t' k = Done r t0"
    using Done_steps [OF s1(1,3)] s1(2) assms(2,3) by auto
  then have "slot_of (fold step es ?s1) t k = Done r t0"
    using live_Done [of "fold step es ?s1" t' k r t0 t] steps_ok [OF s1(1), of es] s1(2) assms(4)
    by auto
  then show ?thesis
    using res_out steps_ok [OF s1(1), of es] by simp
qed

lemma Busy_step:
  assumes "ok s" "slot_of s t k = Busy t0" "t \<le> t0 + ttl s" "harmless k (t0 + ttl s) e"
  shows "\<exists>t'. t' \<le> t0 + ttl s \<and> slot_of (step e s) t' k = Busy t0"
proof (cases e)
  case (Ev_reserve k' t')
  with assms have l: "slot_of s t' k = Busy t0" "t' \<le> t0 + ttl s"
    using live_Busy [OF assms(1,2), of t'] by auto
  then have "slot_of (step e s) t' k = Busy t0"
    using Ev_reserve res_slot [OF assms(1), of k' t' k] by auto
  with l(2) show ?thesis by blast
next
  case (Ev_complete k' r' t')
  with assms show ?thesis
    using comp_slot [OF assms(1), of k' r' t' t k] by auto
next
  case (Ev_release k')
  with assms show ?thesis
    using rel_slot [OF assms(1), of k' t k] by auto
qed

lemma Busy_steps:
  assumes "ok s" "slot_of s t k = Busy t0" "t \<le> t0 + ttl s"
    "list_all (harmless k (t0 + ttl s)) es"
  shows "\<exists>t' \<le> t0 + ttl s. slot_of (fold step es s) t' k = Busy t0"
  using assms
proof (induction es arbitrary: s t)
  case Nil
  then show ?case by auto
next
  case (Cons e es)
  obtain t' where "t' \<le> t0 + ttl s" "slot_of (step e s) t' k = Busy t0"
    using Busy_step [OF Cons.prems(1-3)] Cons.prems(4) by auto
  with Cons.IH [of "step e s" t'] Cons.prems step_ok [OF Cons.prems(1), of e] show ?case by simp
qed

lemma single_flight:
  assumes "ok s" "0 \<le> ttl s" "fst (res k t0 s) = (NEW, None)"
    "list_all (harmless k (t0 + ttl s)) es"
  shows "fst (res k t (fold step es (snd (res k t0 s)))) =
           (if t \<le> t0 + ttl s then (IN_PROGRESS, None) else (NEW, None))"
proof -
  let ?s1 = "snd (res k t0 s)"
  have "slot_of s t0 k = Free"
    using res_out [OF assms(1), of k t0] assms(3) by (auto split: slot.splits)
  then have s1: "ok ?s1" "ttl ?s1 = ttl s" "slot_of ?s1 t0 k = Busy t0"
    using res_ok [OF assms(1)] res_slot [OF assms(1), of k t0 k] assms(2) by auto
  obtain t' where "slot_of (fold step es ?s1) t' k = Busy t0"
    using Busy_steps [OF s1(1,3)] s1(2) assms(2,4) by auto
  then have "slot_of (fold step es ?s1) t k = (if t0 < t - ttl s then Free else Busy t0)"
    using live_Busy steps_ok [OF s1(1), of es] s1(2) by auto
  then show ?thesis
    using res_out steps_ok [OF s1(1), of es] by auto
qed

end

section \<open>The cache keeps the contract\<close>

lemma cache_ok_new [simp]: "cache_ok (new_cache ttl)"
  by (simp add: cache_ok_def new_cache_def)

lemmas idem_defs = reserve_def complete_def release_def evict_expired_def view_def cache_ok_def

lemma evict_expired_ok: "cache_ok c \<Longrightarrow> cache_ok (evict_expired t c) \<and> ic_ttl (evict_expired t c) = ic_ttl c"
  by (auto simp: idem_defs split: option.splits if_splits)

lemma evict_store:
  "ic_store (evict_expired t c) k =
     (case ic_store c k of None \<Rightarrow> None
      | Some e \<Rightarrow> if ie_created_at e < t - ic_ttl c then None else Some e)"
  by (simp add: evict_expired_def)

lemma reserve_ok: "cache_ok c \<Longrightarrow> cache_ok (snd (reserve k t c)) \<and> ic_ttl (snd (reserve k t c)) = ic_ttl c"
  using evict_expired_ok [of c t] by (auto simp: reserve_def Let_def cache_ok_def split: option.splits)

lemma reserve_outcome:
  "cache_ok c \<Longrightarrow> fst (reserve k t c) =
     (case view c t k of Free \<Rightarrow> (NEW, None) | Busy _ \<Rightarrow> (IN_PROGRESS, None)
      | Done r _ \<Rightarrow> (COMPLETED, Some r))"
  by (fastforce simp: reserve_def Let_def evict_store view_def cache_ok_def split: option.splits slot.splits)

lemma reserve_view:
  "view (snd (reserve k t c)) t k' =
     (if k' = k \<and> view c t k = Free \<and> 0 \<le> ic_ttl c then Busy t
      else if k' = k \<and> view c t k = Free then Free else view c t k')"
  by (auto simp: reserve_def Let_def evict_store view_def evict_expired_def split: option.splits)

lemma complete_view:
  "view (complete k r t c) t' k' =
     (if k' = k then (if t < t' - ic_ttl c then Free else Done r t) else view c t' k')"
  by (auto simp: complete_def view_def split: option.splits)

lemma release_view:
  "cache_ok c \<Longrightarrow> view (release k c) t k' =
     (if k' = k \<and> (\<forall>r t0. view c t k \<noteq> Done r t0) then Free else view c t k')"
proof (cases "ic_store c k")
  case None
  then show ?thesis by (simp add: release_def view_def)
next
  case (Some e)
  assume "cache_ok c"
  with Some have "ie_state e = IN_PROGRESS \<and> ie_response e = None \<or>
      ie_state e = COMPLETED \<and> ie_response e \<noteq> None"
    by (simp add: cache_ok_def)
  with Some show ?thesis by (auto simp: release_def view_def split: option.splits)
qed

interpretation ic: idempotency_store cache_ok ic_ttl view reserve complete release
proof unfold_locales
  fix s :: "'r idem_cache" and t t' t0 k k' r
  assume ok: "cache_ok s"
  show "view s t k = Free \<Longrightarrow> t \<le> t' \<Longrightarrow> view s t' k = Free"
    by (auto simp: view_def split: option.splits if_splits)
  show "view s t k = Busy t0 \<Longrightarrow> view s t' k = (if t0 < t' - ic_ttl s then Free else Busy t0)"
    "view s t k = Done r t0 \<Longrightarrow> view s t' k = (if t0 < t' - ic_ttl s then Free else Done r t0)"
    by (auto simp: view_def split: option.splits if_splits)
  show "cache_ok (complete k r t s) \<and> ic_ttl (complete k r t s) = ic_ttl s"
    "cache_ok (release k s) \<and> ic_ttl (release k s) = ic_ttl s"
    using ok by (auto simp: complete_def release_def cache_ok_def split: option.splits)
qed (simp_all add: reserve_ok reserve_outcome reserve_view complete_view release_view)

text \<open>One operation of the cache, as the event names it.\<close>

fun run_event :: "'r idem_event \<Rightarrow> 'r idem_cache \<Rightarrow> 'r idem_cache" where
  "run_event (Ev_reserve k t) c = snd (reserve k t c)"
| "run_event (Ev_complete k r t) c = complete k r t c"
| "run_event (Ev_release k) c = release k c"

lemma run_event_step: "run_event = ic.step"
proof (intro ext)
  fix e :: "'r idem_event" and c
  show "run_event e c = ic.step e c"
    by (cases e) simp_all
qed

text \<open>
  Idempotent replay.  Once a response has been recorded for a request id, every later
  reservation of that id inside the TTL answers with exactly that response, whatever other
  reservations, releases, even of the same id, and completions of other ids happen in between.
\<close>

theorem replay_returns_original:
  assumes "cache_ok c" "0 \<le> ic_ttl c"
    and "list_all (harmless_done rid (t0 + ic_ttl c)) es"
    and "t \<le> t0 + ic_ttl c"
  shows "fst (reserve rid t (fold run_event es (complete rid resp t0 c))) = (COMPLETED, Some resp)"
  unfolding run_event_step by (rule ic.replay [OF assms])

theorem replay_returns_original_witness:
  "fst (reserve 5 100 (fold run_event [Ev_reserve 9 20, Ev_release 5, Ev_reserve 5 30]
     (complete 5 ''resp'' 10 (new_cache DEFAULT_TTL)))) = (COMPLETED, Some ''resp'')"
  by (rule replay_returns_original) (simp_all add: new_cache_def DEFAULT_TTL_def cache_ok_def)

text \<open>
  One winner per request id.  After a reservation answered NEW, and while that reservation is
  neither completed nor released, every other reservation of the id inside the TTL is told the
  request is in progress; the first one after the TTL wins again.
\<close>

theorem single_winner:
  assumes "cache_ok c" "0 \<le> ic_ttl c" "fst (reserve rid t0 c) = (NEW, None)"
    and "list_all (harmless rid (t0 + ic_ttl c)) es"
  shows "fst (reserve rid t (fold run_event es (snd (reserve rid t0 c)))) =
           (if t \<le> t0 + ic_ttl c then (IN_PROGRESS, None) else (NEW, None))"
  unfolding run_event_step by (rule ic.single_flight [OF assms])

theorem single_winner_witness:
  "fst (reserve 5 100 (fold run_event [Ev_reserve 5 20, Ev_complete 6 ''x'' 21]
     (snd (reserve 5 10 (new_cache DEFAULT_TTL))))) = (IN_PROGRESS, None)"
proof -
  have "fst (reserve 5 (10 :: rat) (new_cache DEFAULT_TTL :: string idem_cache)) = (NEW, None)"
    by (simp add: reserve_def new_cache_def evict_expired_def)
  from single_winner [OF _ _ this, of "[Ev_reserve 5 20, Ev_complete 6 ''x'' 21]" 100] show ?thesis
    by (simp add: new_cache_def DEFAULT_TTL_def cache_ok_def)
qed

end
