(* ===== verification/Blocklist.thy ===== *)
theory Blocklist
  imports Py_Unicode
begin

text \<open>
  \<^verbatim>\<open>app/core/blocklist_cache.py\<close> and \<^verbatim>\<open>app/api/admin_blocklist.py\<close>: the deny list of attachment
  formats, its table, the in-process cache the detector consults and the admin operations that
  change the table and reload the cache.  The cache's sets are lists here, since only membership
  counts.  A reload whose query fails (\<open>reachable\<close> false) keeps the previous cache.  The lemmas show
  that the cache answers exactly as the rows demand that were enabled when a reload last succeeded,
  and that an added extension blocks every file that ends in it, in any letter case.
\<close>

section \<open>Table and cache\<close>

record block_row =
  bl_id :: nat
  bl_extension :: "ustr option"
  bl_mime_type :: "ustr option"
  bl_reason :: ustr
  bl_enabled :: bool

record block_state =
  bs_rows :: "block_row list"
  bs_next_id :: nat
  bs_extensions :: "ustr list"
  bs_mimes :: "ustr list"

definition norm_ext :: "ustr \<Rightarrow> ustr" where
  "norm_ext s =
     (if s = [] then []
      else lower (strip (if 46 \<in> set s then last (split_on 46 s) else s)))"

definition truthy :: "ustr option \<Rightarrow> bool" where
  "truthy x \<longleftrightarrow> x \<noteq> None \<and> x \<noteq> Some []"

definition ext_set :: "block_row list \<Rightarrow> ustr list" where
  "ext_set rows = remdups (map (norm_ext \<circ> the \<circ> bl_extension)
     (filter (\<lambda>r. bl_enabled r \<and> truthy (bl_extension r)) rows))"

definition mime_set :: "block_row list \<Rightarrow> ustr list" where
  "mime_set rows = remdups (map (lower \<circ> strip \<circ> the \<circ> bl_mime_type)
     (filter (\<lambda>r. bl_enabled r \<and> truthy (bl_mime_type r)) rows))"

definition reload_blocklist :: "bool \<Rightarrow> block_state \<Rightarrow> nat \<times> block_state" where
  "reload_blocklist reachable s =
     (if reachable then
        (let es = ext_set (bs_rows s); ms = mime_set (bs_rows s)
         in (length es + length ms, s\<lparr>bs_extensions := es, bs_mimes := ms\<rparr>))
      else (0, s))"

definition is_blocked :: "block_state \<Rightarrow> ustr \<Rightarrow> ustr \<Rightarrow> bool \<times> string option" where
  "is_blocked s filename mime_type =
     (let ext = norm_ext filename in
      if ext \<noteq> [] \<and> ext \<in> set (bs_extensions s) then (True, Some ''extension'')
      else let mime = lower (strip mime_type) in
           if mime \<noteq> [] \<and> mime \<in> set (bs_mimes s) then (True, Some ''mime'')
           else (False, None))"

section \<open>Admin operations\<close>

datatype block_error = Invalid_payload | Bad_request | Not_found

text \<open>\<^verbatim>\<open>.strip().lower().lstrip(".")\<close> and \<^verbatim>\<open>.strip().lower()\<close>, only on non-empty strings.\<close>

definition norm_payload_ext :: "ustr option \<Rightarrow> ustr option" where
  "norm_payload_ext x =
     (if truthy x then Some (dropWhile (\<lambda>c. c = 46) (lower (strip (the x)))) else None)"

definition norm_payload_mime :: "ustr option \<Rightarrow> ustr option" where
  "norm_payload_mime x = (if truthy x then Some (lower (strip (the x))) else None)"

definition list_blocklist :: "block_state \<Rightarrow> block_row list" where
  "list_blocklist s = sort_key bl_id (bs_rows s)"

definition at_most :: "nat \<Rightarrow> ustr option \<Rightarrow> bool" where
  "at_most n x \<longleftrightarrow> (case x of None \<Rightarrow> True | Some s \<Rightarrow> length s \<le> n)"

text \<open>\<open>db_ok\<close> is whether the insertion succeeds, \<open>reachable\<close> whether the reload after it does.\<close>

definition add_blocklist ::
  "bool \<Rightarrow> bool \<Rightarrow> ustr option \<Rightarrow> ustr option \<Rightarrow> ustr \<Rightarrow> block_state \<Rightarrow> block_error + (block_row \<times> block_state)" where
  "add_blocklist db_ok reachable extension mime_type reason s =
     (if \<not> (at_most 32 extension \<and> at_most 100 mime_type \<and> length reason \<le> 200) then Inl Invalid_payload
      else if \<not> (truthy extension \<or> truthy mime_type) then Inl Invalid_payload
      else if \<not> db_ok then Inl Bad_request
      else let row = \<lparr>bl_id = bs_next_id s, bl_extension = norm_payload_ext extension,
                      bl_mime_type = norm_payload_mime mime_type, bl_reason = reason,
                      bl_enabled = True\<rparr>;
               s' = s\<lparr>bs_rows := bs_rows s @ [row], bs_next_id := Suc (bs_next_id s)\<rparr>
           in Inr (row, snd (reload_blocklist reachable s')))"

definition delete_blocklist :: "bool \<Rightarrow> nat \<Rightarrow> block_state \<Rightarrow> block_error + block_state" where
  "delete_blocklist reachable row_id s =
     (if row_id \<notin> set (map bl_id (bs_rows s)) then Inl Not_found
      else let s' = s\<lparr>bs_rows := filter (\<lambda>r. bl_id r \<noteq> row_id) (bs_rows s)\<rparr>
           in Inr (snd (reload_blocklist reachable s')))"

section \<open>The cache follows the table\<close>

definition coherent :: "block_state \<Rightarrow> bool" where
  "coherent s \<longleftrightarrow> bs_extensions s = ext_set (bs_rows s) \<and> bs_mimes s = mime_set (bs_rows s)"

inductive block_step :: "block_state \<Rightarrow> block_state \<Rightarrow> bool" where
  step_add: "add_blocklist db_ok True e m r s = Inr (row, s') \<Longrightarrow> block_step s s'"
| step_delete: "delete_blocklist True i s = Inr s' \<Longrightarrow> block_step s s'"
| step_reload: "reload_blocklist b s = (n, s') \<Longrightarrow> block_step s s'"

inductive_cases block_stepE: "block_step s s'"

lemma reload_coherent: "coherent (snd (reload_blocklist True s))"
  by (simp add: coherent_def reload_blocklist_def Let_def)

lemma block_step_coherent: "block_step s s' \<Longrightarrow> coherent s \<Longrightarrow> coherent s'"
proof (erule block_stepE)
  fix b n
  assume "coherent s" "reload_blocklist b s = (n, s')"
  then show ?thesis by (auto simp: reload_blocklist_def coherent_def Let_def split: if_splits)
qed (auto simp: add_blocklist_def delete_blocklist_def Let_def reload_coherent split: if_splits)

lemma block_steps_coherent: "block_step\<^sup>*\<^sup>* s s' \<Longrightarrow> coherent s \<Longrightarrow> coherent s'"
  by (induction rule: rtranclp_induct) (auto intro: block_step_coherent)

text \<open>Which files the enabled rows block.\<close>

definition row_blocks :: "block_row \<Rightarrow> ustr \<Rightarrow> ustr \<Rightarrow> bool" where
  "row_blocks r filename mime \<longleftrightarrow> bl_enabled r \<and>
     (truthy (bl_extension r) \<and> norm_ext filename \<noteq> [] \<and> norm_ext (the (bl_extension r)) = norm_ext filename \<or>
      truthy (bl_mime_type r) \<and> lower (strip mime) \<noteq> [] \<and>
        lower (strip (the (bl_mime_type r))) = lower (strip mime))"

lemma is_blocked_coherent:
  "coherent s \<Longrightarrow> fst (is_blocked s filename mime) \<longleftrightarrow> (\<exists>r \<in> set (bs_rows s). row_blocks r filename mime)"
  by (auto simp: is_blocked_def coherent_def ext_set_def mime_set_def row_blocks_def image_iff Let_def)

section \<open>The gate enforces the rows last loaded\<close>

text \<open>
  An admin operation with what the database did during it: whether the insertion went through and
  whether the reload that follows succeeded.  An operation that fails leaves table and cache alone.
\<close>

datatype block_op =
    Op_add bool bool "ustr option" "ustr option" ustr
  | Op_delete bool nat
  | Op_reload bool

fun run_block_op :: "block_op \<Rightarrow> block_state \<Rightarrow> block_state" where
  "run_block_op (Op_add db_ok reachable e m r) s =
     (case add_blocklist db_ok reachable e m r s of Inl _ \<Rightarrow> s | Inr (row, s') \<Rightarrow> s')"
| "run_block_op (Op_delete reachable i) s = (case delete_blocklist reachable i s of Inl _ \<Rightarrow> s | Inr s' \<Rightarrow> s')"
| "run_block_op (Op_reload reachable) s = snd (reload_blocklist reachable s)"

text \<open>Whether the operation reached a reload, and it succeeded.\<close>

fun reloads :: "block_op \<Rightarrow> block_state \<Rightarrow> bool" where
  "reloads (Op_add db_ok reachable e m r) s \<longleftrightarrow> reachable \<and> (\<exists>x. add_blocklist db_ok reachable e m r s = Inr x)"
| "reloads (Op_delete reachable i) s \<longleftrightarrow> reachable \<and> i \<in> set (map bl_id (bs_rows s))"
| "reloads (Op_reload reachable) s \<longleftrightarrow> reachable"

text \<open>The rows of the table when a reload last succeeded.\<close>

fun last_loaded :: "block_row list \<Rightarrow> block_op list \<Rightarrow> block_state \<Rightarrow> block_row list" where
  "last_loaded rows [] s = rows"
| "last_loaded rows (op # ops) s =
     (let s' = run_block_op op s in last_loaded (if reloads op s then bs_rows s' else rows) ops s')"

text \<open>The text behind the last dot, or the whole of a text without one.\<close>

definition after_dot :: "ustr \<Rightarrow> ustr \<Rightarrow> bool" where
  "after_dot s e \<longleftrightarrow> 46 \<notin> set e \<and> (s = e \<or> (\<exists>stem. s = stem @ 46 # e))"

definition same_extension :: "ustr \<Rightarrow> ustr \<Rightarrow> bool" where
  "same_extension a b \<longleftrightarrow> (\<exists>e f. after_dot a e \<and> after_dot b f \<and> lower (strip e) = lower (strip f) \<and> lower (strip e) \<noteq> [])"

lemma split_on_append: "split_on sep (s @ sep # t) = split_on sep s @ split_on sep t"
proof (induction s)
  case Nil
  then show ?case by simp
next
  case (Cons c s)
  then show ?case by (cases "split_on sep s") auto
qed

lemma last_split_on: "sep \<notin> set e \<Longrightarrow> last (split_on sep (stem @ sep # e)) = e"
  by (simp add: split_on_append split_on_no_sep)

lemma after_dot_norm_ext: "after_dot s e \<Longrightarrow> norm_ext s = lower (strip e)"
  by (auto simp: after_dot_def norm_ext_def last_split_on strip_no_space)

lemma after_dot_ex: "\<exists>e. after_dot s e"
proof (cases "46 \<in> set s")
  case True
  then obtain stem e where "s = stem @ 46 # e" "46 \<notin> set e" by (meson split_list_last)
  then show ?thesis by (auto simp: after_dot_def)
qed (auto simp: after_dot_def)

lemma same_extension_iff: "same_extension a b \<longleftrightarrow> norm_ext a = norm_ext b \<and> norm_ext a \<noteq> []"
  unfolding same_extension_def by (metis after_dot_ex after_dot_norm_ext)

definition answers_for :: "block_row list \<Rightarrow> block_state \<Rightarrow> bool" where
  "answers_for rows s \<longleftrightarrow> bs_extensions s = ext_set rows \<and> bs_mimes s = mime_set rows"

lemma run_block_op_answers:
  "answers_for rows s \<Longrightarrow> answers_for (if reloads op s then bs_rows (run_block_op op s) else rows) (run_block_op op s)"
  by (cases op)
    (auto simp: answers_for_def add_blocklist_def delete_blocklist_def reload_blocklist_def Let_def)

lemma last_loaded_answers: "answers_for rows s \<Longrightarrow> answers_for (last_loaded rows ops s) (fold run_block_op ops s)"
proof (induction ops arbitrary: rows s)
  case (Cons op ops)
  then show ?case using run_block_op_answers [of rows s op] by (simp only: last_loaded.simps Let_def fold_simps)
qed simp

lemma is_blocked_answers:
  "answers_for rows s \<Longrightarrow> fst (is_blocked s filename mime) \<longleftrightarrow> (\<exists>r \<in> set rows. row_blocks r filename mime)"
  by (auto simp: is_blocked_def answers_for_def ext_set_def mime_set_def row_blocks_def image_iff Let_def)

text \<open>
  C22: the gate enforces the rows last loaded.  After a successful load and then any sequence of
  additions, deletions and explicit reloads, whichever of them and of the reloads they end with
  fail, a file is refused exactly when a row that was enabled in the table at the last successful
  reload names its extension (the text behind the last dot) or its declared type, up to letter case
  and surrounding blanks.  A mutation whose reload fails is therefore not enforced until a later
  reload succeeds.
\<close>

theorem blocklist_gate_exact:
  "fst (is_blocked (fold run_block_op ops (snd (reload_blocklist True s0))) filename mime) \<longleftrightarrow>
     (\<exists>r \<in> set (last_loaded (bs_rows s0) ops (snd (reload_blocklist True s0))). bl_enabled r \<and>
        ((\<exists>e. bl_extension r = Some e \<and> same_extension e filename) \<or>
         (\<exists>m. bl_mime_type r = Some m \<and> lower (strip m) = lower (strip mime) \<and> lower (strip mime) \<noteq> [])))"
proof -
  have "answers_for (bs_rows s0) (snd (reload_blocklist True s0))"
    by (simp add: answers_for_def reload_blocklist_def Let_def)
  from is_blocked_answers [OF last_loaded_answers [OF this]]
  have "fst (is_blocked (fold run_block_op ops (snd (reload_blocklist True s0))) filename mime) \<longleftrightarrow>
     (\<exists>r \<in> set (last_loaded (bs_rows s0) ops (snd (reload_blocklist True s0))). row_blocks r filename mime)" .
  moreover have "row_blocks r filename mime \<longleftrightarrow> bl_enabled r \<and>
        ((\<exists>e. bl_extension r = Some e \<and> same_extension e filename) \<or>
         (\<exists>m. bl_mime_type r = Some m \<and> lower (strip m) = lower (strip mime) \<and> lower (strip mime) \<noteq> []))" for r
    unfolding row_blocks_def same_extension_iff truthy_def
    by (cases "bl_extension r"; cases "bl_mime_type r")
      (auto simp: norm_ext_def strip_no_space)
  ultimately show ?thesis by simp
qed

section \<open>Added extensions\<close>

definition ascii_alnum :: "nat \<Rightarrow> bool" where
  "ascii_alnum c \<longleftrightarrow> 48 \<le> c \<and> c \<le> 57 \<or> 65 \<le> c \<and> c \<le> 90 \<or> 97 \<le> c \<and> c \<le> 122"

lemma lower_alnum:
  assumes "list_all ascii_alnum s"
  shows "list_all ascii_alnum (lower s)" "lower (lower s) = lower s" "(lower s = []) = (s = [])"
  using assms by (induction s) (auto simp: ascii_alnum_def lower_Cons lower_char_ascii)

lemma strip_alnum: "list_all ascii_alnum s \<Longrightarrow> strip s = s"
  by (rule strip_no_space) (auto simp: list_all_iff ascii_alnum_def is_space_ascii)

lemma alnum_no_dot: "list_all ascii_alnum s \<Longrightarrow> 46 \<notin> set s"
  by (auto simp: list_all_iff ascii_alnum_def)

lemma norm_ext_file: "list_all ascii_alnum e \<Longrightarrow> norm_ext (stem @ 46 # e) = lower e"
  by (simp add: norm_ext_def last_split_on alnum_no_dot strip_alnum)

lemma norm_ext_alnum: "list_all ascii_alnum e \<Longrightarrow> norm_ext e = lower e"
  using alnum_no_dot [of e] by (simp add: norm_ext_def strip_alnum)

lemma dropWhile_alnum: "list_all ascii_alnum s \<Longrightarrow> dropWhile (\<lambda>c. c = 46) s = s"
  by (cases s) (auto simp: ascii_alnum_def)

text \<open>
  Adding an extension takes effect at once and in every spelling.  After an operator adds an
  alphanumeric extension, with or without a leading dot, every file whose name ends in a dot and that
  extension, in any mixture of letter cases, is refused, whatever its declared type.
\<close>

theorem added_extension_blocked:
  assumes "add_blocklist db_ok True (Some (dot @ e)) m reason s = Inr (row, s')"
    and "dot = [] \<or> dot = [46]" "list_all ascii_alnum e" "e \<noteq> []"
    and "list_all ascii_alnum e'" "lower e' = lower e"
  shows "is_blocked s' (stem @ 46 # e') mime = (True, Some ''extension'')"
proof -
  have sd: "strip (dot @ e) = dot @ e"
    using assms(2,3) by (intro strip_no_space) (auto simp: list_all_iff ascii_alnum_def is_space_ascii)
  have low: "lower (dot @ e) = dot @ lower e"
    using assms(2) by (auto simp: lower_Cons lower_char_ascii)
  have ne: "lower e \<noteq> []" using lower_alnum(3) [OF assms(3)] assms(4) by simp
  have "norm_payload_ext (Some (dot @ e)) = Some (lower e)"
    using assms(2,4) sd low dropWhile_alnum [OF lower_alnum(1) [OF assms(3)]]
    by (auto simp: norm_payload_ext_def truthy_def)
  then have "row \<in> set (bs_rows s')" "bl_enabled row" "bl_extension row = Some (lower e)"
    "bs_extensions s' = ext_set (bs_rows s')"
    using assms(1) by (auto simp: add_blocklist_def reload_blocklist_def Let_def split: if_splits)
  then have "norm_ext (lower e) \<in> set (bs_extensions s')"
    using ne by (force simp: ext_set_def truthy_def)
  then have "lower e \<in> set (bs_extensions s')"
    using lower_alnum [OF assms(3)] norm_ext_alnum by simp
  then show ?thesis
    using ne assms(5,6) by (simp add: is_blocked_def norm_ext_file)
qed

definition empty_blocklist :: block_state where
  "empty_blocklist = \<lparr>bs_rows = [], bs_next_id = 1, bs_extensions = [], bs_mimes = []\<rparr>"

text \<open>Two additions: the reload after the second one fails, so \<^verbatim>\<open>exe\<close> is in the table and not enforced.\<close>

definition sample_block_ops :: "block_op list" where
  "sample_block_ops = [Op_add True True (Some (u ''.Zip'')) None [], Op_add True False (Some (u ''exe'')) None [],
     Op_delete True 7]"

theorem blocklist_gate_exact_witness:
  "length (bs_rows (fold run_block_op sample_block_ops (snd (reload_blocklist True empty_blocklist)))) = 2 \<and>
   fst (is_blocked (fold run_block_op sample_block_ops (snd (reload_blocklist True empty_blocklist))) (u ''a.b.ZIP'') []) \<and>
   \<not> fst (is_blocked (fold run_block_op sample_block_ops (snd (reload_blocklist True empty_blocklist))) (u ''a.exe'') [])"
proof -
  have s: "strip (u ''.Zip'') = u ''.Zip''" "strip (u ''exe'') = u ''exe''" "strip (u ''zip'') = u ''zip''"
    "strip (u ''ZIP'') = u ''ZIP''"
    by (rule strip_no_space, simp add: u_def is_space_ascii)+
  have n: "norm_ext (u ''zip'') = u ''zip''" "norm_ext (u ''a.b.ZIP'') = u ''zip''" "norm_ext (u ''a.exe'') = u ''exe''"
    by (simp_all add: norm_ext_def u_def s [unfolded u_def, simplified] lower_Cons lower_char_ascii)
  note defs = sample_block_ops_def add_blocklist_def delete_blocklist_def reload_blocklist_def empty_blocklist_def
    at_most_def truthy_def norm_payload_ext_def norm_payload_mime_def Let_def u_def lower_Cons lower_char_ascii
    s [unfolded u_def, simplified]
  have l: "last_loaded (bs_rows empty_blocklist) sample_block_ops (snd (reload_blocklist True empty_blocklist)) =
      [\<lparr>bl_id = 1, bl_extension = Some (u ''zip''), bl_mime_type = None, bl_reason = [], bl_enabled = True\<rparr>]"
    by (simp add: defs)
  have "length (bs_rows (fold run_block_op sample_block_ops (snd (reload_blocklist True empty_blocklist)))) = 2"
    by (simp add: defs)
  then show ?thesis
    unfolding blocklist_gate_exact l same_extension_iff by (simp add: n)
qed

theorem added_extension_blocked_witness:
  "\<exists>row s'. add_blocklist True True (Some ([46] @ u ''Zip'')) None [] empty_blocklist = Inr (row, s') \<and>
     is_blocked s' (u ''photos'' @ 46 # u ''ZIP'') (u ''image/png'') = (True, Some ''extension'')"
proof -
  obtain row s' where a: "add_blocklist True True (Some ([46] @ u ''Zip'')) None [] empty_blocklist = Inr (row, s')"
    by (auto simp: add_blocklist_def at_most_def truthy_def Let_def u_def)
  have "is_blocked s' (u ''photos'' @ 46 # u ''ZIP'') (u ''image/png'') = (True, Some ''extension'')"
    by (rule added_extension_blocked [OF a])
      (simp_all add: u_def ascii_alnum_def lower_Cons lower_char_ascii)
  with a show ?thesis by blast
qed

end
