(* ===== verification/Jobs.thy ===== *)
theory Jobs
  imports Responses
begin

text \<open>
  Extraction jobs: the \<^verbatim>\<open>extraction_jobs\<close> rows and their operations of \<^verbatim>\<open>app/db/crud.py\<close>, the
  status endpoint of \<^verbatim>\<open>app/api/jobs.py\<close> and the retention sweep of \<^verbatim>\<open>app/workers/job_cleanup.py\<close>.
  The JSON column of attachment results holds the list it encodes, since only this program writes
  it.  A job status is a linear order, the order of the life cycle.  The lemmas show what reading a
  job returns after the operations, and that the sweep removes exactly the expired finished jobs.
\<close>

section \<open>Data\<close>

record attachment =
  at_attachment_id :: ustr
  at_filename :: ustr
  at_size_bytes :: nat
  at_mime_type :: ustr
  at_sha256 :: ustr
  at_fetch_url :: ustr

record attachment_result =
  wr_attachment_id :: ustr
  wr_filename :: ustr
  wr_verdict :: verdict
  wr_code :: string
  wr_detections :: "detection list"

datatype job_status = J_PENDING | J_PROCESSING | J_COMPLETED | J_FAILED

instantiation job_status :: linorder
begin

fun status_rank :: "job_status \<Rightarrow> nat" where
  "status_rank J_PENDING = 0"
| "status_rank J_PROCESSING = 1"
| "status_rank J_COMPLETED = 2"
| "status_rank J_FAILED = 3"

definition less_eq_job_status :: "job_status \<Rightarrow> job_status \<Rightarrow> bool" where
  "less_eq_job_status a b \<longleftrightarrow> status_rank a \<le> status_rank b"

definition less_job_status :: "job_status \<Rightarrow> job_status \<Rightarrow> bool" where
  "less_job_status a b \<longleftrightarrow> status_rank a < status_rank b"

instance
proof
  fix a b c :: job_status
  show "a \<le> b \<Longrightarrow> b \<le> a \<Longrightarrow> a = b"
    by (cases a; cases b) (simp_all add: less_eq_job_status_def)
qed (auto simp: less_eq_job_status_def less_job_status_def)

end

record extraction_job =
  ej_job_id :: ustr
  ej_request_id :: uuid
  ej_callback_url :: "ustr option"
  ej_status :: job_status
  ej_body_code :: "string option"
  ej_body_verdict :: "string option"
  ej_attachments_json :: "attachment_result list option"
  ej_error :: "ustr option"
  ej_created_at :: rat
  ej_completed_at :: "rat option"
  ej_webhook_attempts :: nat
  ej_webhook_delivered_at :: "rat option"

text \<open>The columns an update may set; \<^verbatim>\<open>update_job\<close> drops any other name.\<close>

datatype job_field =
    F_status job_status
  | F_attachments_json "attachment_result list"
  | F_error ustr
  | F_completed_at rat
  | F_webhook_attempts nat
  | F_webhook_delivered_at "rat option"
  | F_unknown string

fun set_field :: "job_field \<Rightarrow> extraction_job \<Rightarrow> extraction_job" where
  "set_field (F_status s) j = j\<lparr>ej_status := s\<rparr>"
| "set_field (F_attachments_json rs) j = j\<lparr>ej_attachments_json := Some rs\<rparr>"
| "set_field (F_error e) j = j\<lparr>ej_error := Some e\<rparr>"
| "set_field (F_completed_at t) j = j\<lparr>ej_completed_at := Some t\<rparr>"
| "set_field (F_webhook_attempts n) j = j\<lparr>ej_webhook_attempts := n\<rparr>"
| "set_field (F_webhook_delivered_at t) j = j\<lparr>ej_webhook_delivered_at := t\<rparr>"
| "set_field (F_unknown c) j = j"

section \<open>Operations\<close>

text \<open>A second row with the same primary key is a database error.\<close>

definition create_job :: "extraction_job \<Rightarrow> extraction_job list \<Rightarrow> exn + extraction_job list" where
  "create_job job jobs =
     (if ej_job_id job \<in> set (map ej_job_id jobs) then Inl RuntimeError else Inr (jobs @ [job]))"

definition get_job :: "extraction_job list \<Rightarrow> ustr \<Rightarrow> extraction_job option" where
  "get_job jobs job_id = find (\<lambda>j. ej_job_id j = job_id) jobs"

fun known_field :: "job_field \<Rightarrow> bool" where
  "known_field (F_unknown c) = False"
| "known_field _ = True"

definition update_job :: "ustr \<Rightarrow> job_field list \<Rightarrow> extraction_job list \<Rightarrow> extraction_job list" where
  "update_job job_id cols jobs =
     (if cols = [] then jobs
      else let payload = filter known_field cols in
           if payload = [] then jobs
           else map (\<lambda>j. if ej_job_id j = job_id then fold set_field payload j else j) jobs)"

text \<open>\<^verbatim>\<open>ORDER BY created_at DESC LIMIT 1\<close>.\<close>

definition get_job_by_request_id :: "extraction_job list \<Rightarrow> uuid \<Rightarrow> extraction_job option" where
  "get_job_by_request_id jobs rid =
     (case sort_key (\<lambda>j. - ej_created_at j) (filter (\<lambda>j. ej_request_id j = rid) jobs) of
        [] \<Rightarrow> None | j # _ \<Rightarrow> Some j)"

definition expired :: "rat \<Rightarrow> extraction_job \<Rightarrow> bool" where
  "expired cutoff j \<longleftrightarrow> (case ej_completed_at j of None \<Rightarrow> False | Some t \<Rightarrow> t < cutoff)"

definition cleanup_expired_jobs :: "nat \<Rightarrow> rat \<Rightarrow> extraction_job list \<Rightarrow> nat \<times> extraction_job list" where
  "cleanup_expired_jobs retention_hours now jobs =
     (let cutoff = now - of_nat (retention_hours * 3600);
          keep = filter (\<lambda>j. \<not> expired cutoff j) jobs
      in (length jobs - length keep, keep))"

section \<open>Status endpoint\<close>

record job_status_response =
  js_job_id :: ustr
  js_request_id :: uuid
  js_status :: job_status
  js_body_code :: "string option"
  js_body_verdict :: "string option"
  js_attachment_results :: "attachment_result list"
  js_error :: "ustr option"
  js_completed_at :: "rat option"
  js_webhook_delivered_at :: "rat option"

text \<open>\<open>None\<close> is the 404 answer.\<close>

definition get_job_status :: "extraction_job list \<Rightarrow> ustr \<Rightarrow> job_status_response option" where
  "get_job_status jobs job_id =
     (case get_job jobs job_id of
        None \<Rightarrow> None
      | Some job \<Rightarrow>
          Some \<lparr>js_job_id = ej_job_id job, js_request_id = ej_request_id job, js_status = ej_status job,
                js_body_code = ej_body_code job, js_body_verdict = ej_body_verdict job,
                js_attachment_results = (case ej_attachments_json job of None \<Rightarrow> [] | Some rs \<Rightarrow> rs),
                js_error = ej_error job, js_completed_at = ej_completed_at job,
                js_webhook_delivered_at = ej_webhook_delivered_at job\<rparr>)"

section \<open>Facts\<close>

lemma set_field_job_id [simp]: "ej_job_id (set_field f j) = ej_job_id j"
  by (cases f) simp_all

lemma fold_set_field_job_id [simp]: "ej_job_id (fold set_field fs j) = ej_job_id j"
  by (induction fs arbitrary: j) simp_all

lemma fold_known_fields: "fold set_field (filter known_field fs) j = fold set_field fs j"
proof (induction fs arbitrary: j)
  case Nil
  then show ?case by simp
next
  case (Cons f fs)
  then show ?case by (cases f) simp_all
qed

lemma update_job_map:
  "update_job job_id fs jobs = map (\<lambda>j. if ej_job_id j = job_id then fold set_field fs j else j) jobs"
proof (cases "filter known_field fs = []")
  case True
  then have "fold set_field fs j = j" for j
    using fold_known_fields [of fs j] by simp
  then show ?thesis by (auto simp: update_job_def Let_def True intro!: map_idI [symmetric])
next
  case False
  then show ?thesis
    by (auto simp: update_job_def Let_def fold_known_fields)
qed

lemma get_job_update:
  "get_job (update_job job_id fs jobs) k =
     map_option (\<lambda>j. if k = job_id then fold set_field fs j else j) (get_job jobs k)"
  unfolding get_job_def update_job_map by (induction jobs) auto

lemma job_ids_update [simp]: "map ej_job_id (update_job job_id fs jobs) = map ej_job_id jobs"
  by (simp add: update_job_map)

lemma get_job_create:
  assumes "create_job job jobs = Inr jobs'"
  shows "get_job jobs' k = (if k = ej_job_id job then Some job else get_job jobs k)"
proof -
  have j: "jobs' = jobs @ [job]" "ej_job_id job \<notin> set (map ej_job_id jobs)"
    using assms by (auto simp: create_job_def split: if_splits)
  have "get_job jobs (ej_job_id job) = None"
    using j(2) by (auto simp: get_job_def find_None_iff_ball image_iff)
  moreover have "get_job (xs @ [job]) k = (case get_job xs k of Some y \<Rightarrow> Some y
      | None \<Rightarrow> if k = ej_job_id job then Some job else None)" for xs
    unfolding get_job_def by (induction xs) auto
  ultimately show ?thesis
    using j(1) by (auto split: option.splits)
qed

lemma get_job_Some: "get_job jobs k = Some j \<Longrightarrow> j \<in> set jobs \<and> ej_job_id j = k"
  by (auto simp: get_job_def find_Some_split)

text \<open>
  Results stay available for the promised day.  Running the retention sweep never removes a job
  that is unfinished or finished less than the retention period ago, so the status endpoint answers
  for it exactly as before; a job finished longer ago is answered with 404 afterwards.
\<close>

theorem job_retention:
  assumes "distinct (map ej_job_id jobs)" "get_job jobs k = Some j"
  shows "(ej_completed_at j = None \<or> (\<exists>t. ej_completed_at j = Some t \<and> now - of_nat (hours * 3600) \<le> t) \<longrightarrow>
            get_job_status (snd (cleanup_expired_jobs hours now jobs)) k = get_job_status jobs k) \<and>
         (\<forall>t. ej_completed_at j = Some t \<and> t < now - of_nat (hours * 3600) \<longrightarrow>
            get_job_status (snd (cleanup_expired_jobs hours now jobs)) k = None)"
proof -
  let ?P = "\<lambda>j. \<not> expired (now - of_nat (hours * 3600)) j"
  have f: "get_job (filter ?P jobs) k = (if ?P j then Some j else None)"
    using assms unfolding get_job_def
  proof (induction jobs)
    case Nil
    then show ?case by simp
  next
    case (Cons x xs)
    show ?case
    proof (cases "ej_job_id x = k")
      case True
      then have "find (\<lambda>j. ej_job_id j = k) (filter ?P xs) = None" "x = j"
        using Cons.prems by (auto simp: find_None_iff_ball image_iff)
      with True show ?thesis by simp
    next
      case False
      with Cons show ?thesis by simp
    qed
  qed
  then show ?thesis
    using assms(2) by (auto simp: get_job_status_def cleanup_expired_jobs_def Let_def expired_def)
qed

definition sample_job :: extraction_job where
  "sample_job = \<lparr>ej_job_id = u ''job_1'', ej_request_id = 7, ej_callback_url = None,
     ej_status = J_COMPLETED, ej_body_code = Some ''OK-0000'', ej_body_verdict = Some ''PASS'',
     ej_attachments_json = Some [], ej_error = None, ej_created_at = 0, ej_completed_at = Some 100,
     ej_webhook_attempts = 1, ej_webhook_delivered_at = None\<rparr>"

theorem job_retention_witness:
  "get_job_status (snd (cleanup_expired_jobs 24 5000 [sample_job])) (u ''job_1'') =
     get_job_status [sample_job] (u ''job_1'') \<and>
   get_job_status (snd (cleanup_expired_jobs 24 90000 [sample_job])) (u ''job_1'') = None"
proof -
  have g: "get_job [sample_job] (u ''job_1'') = Some sample_job"
    by (simp add: get_job_def sample_job_def)
  have c: "ej_completed_at sample_job = Some 100" by (simp add: sample_job_def)
  have d: "distinct (map ej_job_id [sample_job])" by simp
  show ?thesis
    using job_retention [OF d g, of 5000 24] job_retention [OF d g, of 90000 24] c by simp
qed

end
