(* ===== verification/Detect.thy ===== *)
theory Detect
  imports Policies Idempotency Ip_Allow Blocklist Jobs
    "HOL-Library.Char_ord" "HOL-Library.List_Lexorder"
begin

text \<open>
  \<^verbatim>\<open>app/api/detect.py\<close>: the detection endpoint.  The analyzers are parameters (functions from
  text to scored spans that may raise), as are the clocks, the timeout, the fresh job id and the
  caches of other modules; they form the environment record.  The state is the idempotency cache,
  the job table, the background tasks started and the metric samples.  The handler is modelled with
  all its early returns, including the one-sided \<^verbatim>\<open>except\<close> that releases a reservation only when an
  exception is raised.  The lemmas characterise when a post is blocked, that replays repeat the
  original answer without side effects, what Case C guarantees, and what happens to a reservation on
  each kind of failure.
\<close>

section \<open>Requests, analyzers, environment\<close>

record rresult =
  rr_entity_type :: string
  rr_start :: nat
  rr_end :: nat
  rr_score :: rat

type_synonym analyzer = "ustr \<Rightarrow> exn + rresult list"

record detect_request =
  dr_request_id :: uuid
  dr_author_ip :: ustr
  dr_board_id :: ustr
  dr_title :: ustr
  dr_body :: ustr
  dr_attachments :: "attachment list option"
  dr_callback_url :: "ustr option"
  dr_strictness :: strictness

definition has_attachments :: "detect_request \<Rightarrow> bool" where
  "has_attachments req \<longleftrightarrow> (case dr_attachments req of None \<Rightarrow> False | Some as \<Rightarrow> as \<noteq> [])"

definition MAX_TITLE_LEN :: nat where "MAX_TITLE_LEN = 500"
definition MAX_BODY_LEN :: nat where "MAX_BODY_LEN = 50000"
definition MAX_ATTACHMENTS :: nat where "MAX_ATTACHMENTS = 5"
definition MAX_ATTACHMENT_MB :: nat where "MAX_ATTACHMENT_MB = 20"
definition MAX_ATTACHMENT_BYTES :: nat where "MAX_ATTACHMENT_BYTES = MAX_ATTACHMENT_MB * 1024 * 1024"
definition MIN_REPORTABLE_SCORE :: rat where "MIN_REPORTABLE_SCORE = 50 / 100"
definition MAX_DETECTIONS_PER_SPAN :: nat where "MAX_DETECTIONS_PER_SPAN = 3"
definition CASE_C_DEFAULT_ETA_SECONDS :: nat where "CASE_C_DEFAULT_ETA_SECONDS = 30"

definition SUPPORTED_MIME_TYPES :: "string list" where
  "SUPPORTED_MIME_TYPES =
    [''application/pdf'',
     ''application/vnd.openxmlformats-officedocument.wordprocessingml.document'',
     ''application/vnd.openxmlformats-officedocument.spreadsheetml.sheet'',
     ''application/vnd.openxmlformats-officedocument.presentationml.presentation'',
     ''text/plain'', ''text/markdown'',
     ''image/jpeg'', ''image/png'', ''image/tiff'', ''image/bmp'', ''image/webp'', ''image/gif'']"

text \<open>
  \<open>en_runtime\<close> is what the analyzer and policy caches return, or the database failure;
  \<open>en_timed_out\<close> is whether the body analysis overruns its five seconds.
\<close>

record detect_env =
  en_exception_ips :: "ustr list"
  en_blocklist :: block_state
  en_scan_enabled :: bool
  en_poc_mode :: bool
  en_runtime :: "exn + analyzer \<times> analyzer option \<times> policy list"
  en_builtin :: analyzer
  en_timed_out :: bool
  en_job_id :: ustr
  en_now :: rat
  en_ms :: int

datatype task =
    Poc_shadow detect_request bool
  | Attachment_job ustr uuid "attachment list" "ustr option" string string strictness bool bool

record detect_state =
  ds_cache :: "detect_response idem_cache"
  ds_jobs :: "extraction_job list"
  ds_tasks :: "task list"
  ds_requests_seen :: "string list"
  ds_detections_seen :: "(string \<times> string) list"

record audit_payload =
  ap_response_code :: string
  ap_detected_entity_count :: nat
  ap_detected_entity_types :: "string option"
  ap_shadow_hit_types :: "string option"

record http_response =
  hr_status :: nat
  hr_content :: detect_response

section \<open>Verdict of the body\<close>

text \<open>The (entity type, code) pairs whose code is a BLOCK; an unknown code raises.\<close>

fun block_codes :: "detection list \<Rightarrow> exn + (string \<times> string) list" where
  "block_codes [] = Inr []"
| "block_codes (d # ds) =
     (case get_code (d_code d) of Inl e \<Rightarrow> Inl e | Inr rc \<Rightarrow>
      case block_codes ds of Inl e \<Rightarrow> Inl e | Inr bs \<Rightarrow>
      Inr (if rc_verdict rc = BLOCK then (d_entity_type d, d_code d) # bs else bs))"

definition decide_body_code :: "detection list \<Rightarrow> exn + string" where
  "decide_body_code dets =
     (case block_codes dets of Inl e \<Rightarrow> Inl e | Inr bs \<Rightarrow>
      Inr (if bs \<noteq> [] then
             (if card (set (map fst bs)) \<ge> 2 then ''BLOCK-2008'' else snd (hd bs))
           else ''OK-0000''))"

definition to_detection :: "rresult \<Rightarrow> ustr \<Rightarrow> strictness \<Rightarrow> exn + detection" where
  "to_detection r field st =
     mk_detection field (rr_entity_type r)
       (map_detection_to_code (rr_entity_type r) (rr_score r) field st)
       (rr_score r) (Some (rr_start r)) (Some (rr_end r))"

definition band_to_action :: "band \<Rightarrow> string" where
  "band_to_action band = (if band = Band_block then ''BLOCK'' else ''PASS'')"

definition hit_span :: "rresult \<Rightarrow> nat \<times> nat" where
  "hit_span r = (rr_start r, rr_end r)"

definition topk_per_span :: "nat \<Rightarrow> rresult list \<Rightarrow> rresult list" where
  "topk_per_span k raw =
     concat (map (\<lambda>sp. take k (sort_key (\<lambda>h. - rr_score h) (filter (\<lambda>r. hit_span r = sp) raw)))
       (dedup {} (map hit_span raw)))"

definition resolve_hit :: "ustr \<Rightarrow> strictness \<Rightarrow> policy list \<Rightarrow> rresult \<Rightarrow> resolved_policy" where
  "resolve_hit field st pols r =
     resolve_action (rr_entity_type r) (rr_score r)
       (band_to_action (score_to_band (rr_score r) st))
       (map_detection_to_code (rr_entity_type r) (rr_score r) field st) None pols"

text \<open>The loop over the hits: visible detections and the types swallowed by LOG\_ONLY.\<close>

fun analyze_loop ::
  "ustr \<Rightarrow> strictness \<Rightarrow> policy list \<Rightarrow> rresult list \<Rightarrow> exn + detection list \<times> string set" where
  "analyze_loop field st pols [] = Inr ([], {})"
| "analyze_loop field st pols (r # rs) =
     (if rr_score r < MIN_REPORTABLE_SCORE then analyze_loop field st pols rs
      else let res = resolve_hit field st pols r in
        if rp_action res = ''PASS'' then analyze_loop field st pols rs
        else if rp_action res = ''LOG_ONLY'' then
          (case analyze_loop field st pols rs of Inl e \<Rightarrow> Inl e
           | Inr (vis, logs) \<Rightarrow> Inr (vis, insert (rr_entity_type r) logs))
        else case mk_detection field (rr_entity_type r) (rp_code res) (rr_score r)
                    (Some (rr_start r)) (Some (rr_end r)) of
               Inl e \<Rightarrow> Inl e
             | Inr d \<Rightarrow>
                 (case analyze_loop field st pols rs of Inl e \<Rightarrow> Inl e
                  | Inr (vis, logs) \<Rightarrow> Inr (d # vis, logs)))"

definition analyze_field_full ::
  "analyzer \<Rightarrow> ustr \<Rightarrow> strictness \<Rightarrow> policy list \<Rightarrow> ustr \<Rightarrow> exn + detection list \<times> string set" where
  "analyze_field_full engine field st pols txt =
     (if txt = [] then Inr ([], {})
      else case engine txt of Inl e \<Rightarrow> Inl e
           | Inr raw \<Rightarrow> analyze_loop field st pols (topk_per_span MAX_DETECTIONS_PER_SPAN raw))"

definition analyze_field :: "analyzer \<Rightarrow> ustr \<Rightarrow> strictness \<Rightarrow> policy list \<Rightarrow> ustr \<Rightarrow> exn + detection list" where
  "analyze_field engine field st pols txt = map_sum id fst (analyze_field_full engine field st pols txt)"

definition resolve_runtime :: "detect_env \<Rightarrow> analyzer \<times> analyzer option \<times> policy list" where
  "resolve_runtime env = (case en_runtime env of Inr r \<Rightarrow> r | Inl e \<Rightarrow> (en_builtin env, None, []))"

definition resolve_analyzer :: "detect_env \<Rightarrow> analyzer" where
  "resolve_analyzer env = (case en_runtime env of Inr (p, s, ps) \<Rightarrow> p | Inl e \<Rightarrow> en_builtin env)"

section \<open>Answers\<close>

definition join_types :: "string set \<Rightarrow> string option" where
  "join_types ts = (if ts = {} then None else Some (join '','' (sorted_list_of_set ts)))"

text \<open>One metric sample per distinct (entity type, verdict); an unknown code counts as PASS.\<close>

definition detection_samples :: "detection list \<Rightarrow> string set \<Rightarrow> (string \<times> string) list" where
  "detection_samples dets logs =
     dedup {} (map (\<lambda>d. (d_entity_type d,
                         case code_verdict (d_code d) of Some v \<Rightarrow> verdict_value v | None \<Rightarrow> ''PASS'')) dets
               @ map (\<lambda>et. (et, ''LOG_ONLY'')) (sorted_list_of_set logs))"

definition stash_audit ::
  "string \<Rightarrow> detection list \<Rightarrow> string set \<Rightarrow> string set \<Rightarrow> detect_state \<Rightarrow> audit_payload \<times> detect_state" where
  "stash_audit code dets logs shadow st =
     (\<lparr>ap_response_code = code,
       ap_detected_entity_count = length dets + card logs,
       ap_detected_entity_types = join_types (set (map d_entity_type dets) \<union> logs),
       ap_shadow_hit_types = join_types shadow\<rparr>,
      st\<lparr>ds_detections_seen := ds_detections_seen st @ detection_samples dets logs\<rparr>)"

type_synonym answer = "(exn + http_response \<times> audit_payload) \<times> detect_state"

definition detect_envelope ::
  "detect_response \<Rightarrow> detection list \<Rightarrow> string set \<Rightarrow> string set \<Rightarrow> detect_state \<Rightarrow> answer" where
  "detect_envelope resp dets logs shadow st =
     (case get_code (r_code resp) of Inl e \<Rightarrow> (Inl e, st) | Inr rc \<Rightarrow>
      (let (ap, st') = stash_audit (r_code resp) dets logs shadow st
       in (Inr (\<lparr>hr_status = rc_http_status rc, hr_content = resp\<rparr>, ap),
           st'\<lparr>ds_requests_seen := ds_requests_seen st' @ [verdict_value (rc_verdict rc)]\<rparr>)))"

definition detect_error :: "detect_env \<Rightarrow> detect_request \<Rightarrow> string \<Rightarrow> (string \<times> ustr) list \<Rightarrow> detect_state \<Rightarrow> answer" where
  "detect_error env req code vars st =
     (case build_response (dr_request_id req) code [] (en_ms env) vars None None (en_now env) of
        Inl e \<Rightarrow> (Inl e, st)
      | Inr resp \<Rightarrow> detect_envelope resp [] {} {} st)"

section \<open>Pre-flight checks\<close>

text \<open>The first reason to refuse an attachment, with the variables of its message.\<close>

definition check_attachment ::
  "detect_env \<Rightarrow> bool \<Rightarrow> attachment \<Rightarrow> (string \<times> (string \<times> ustr) list) option" where
  "check_attachment env bypass a =
     (if at_size_bytes a > MAX_ATTACHMENT_BYTES then
        Some (''REQ-4031'', [(''filename'', at_filename a), (''limit'', show_nat MAX_ATTACHMENT_MB)])
      else
        (let (blocked, kind) = is_blocked (en_blocklist env) (at_filename a) (at_mime_type a) in
         if \<not> bypass \<and> blocked then
           Some (''REQ-4035'', [(''filename'', at_filename a), (''mime_type'', at_mime_type a),
                 (''match_kind'', u (case kind of None \<Rightarrow> '''' | Some k \<Rightarrow> k)),
                 (''reason'', u ''format on deny list'')])
         else if at_mime_type a \<notin> u ` set SUPPORTED_MIME_TYPES then
           Some (''REQ-4033'', [(''filename'', at_filename a), (''mime_type'', at_mime_type a)])
         else None))"

fun check_attachments ::
  "detect_env \<Rightarrow> bool \<Rightarrow> attachment list \<Rightarrow> (string \<times> (string \<times> ustr) list) option" where
  "check_attachments env bypass [] = None"
| "check_attachments env bypass (a # as) =
     (case check_attachment env bypass a of Some e \<Rightarrow> Some e | None \<Rightarrow> check_attachments env bypass as)"

definition preflight :: "detect_env \<Rightarrow> detect_request \<Rightarrow> (string \<times> (string \<times> ustr) list) option" where
  "preflight env req =
     (if length (dr_title req) > MAX_TITLE_LEN then
        Some (''REQ-4030'', [(''limit'', show_nat MAX_TITLE_LEN), (''n'', show_nat (length (dr_title req)))])
      else if length (dr_body req) > MAX_BODY_LEN then
        Some (''REQ-4030'', [(''limit'', show_nat MAX_BODY_LEN), (''n'', show_nat (length (dr_body req)))])
      else if has_attachments req then
        (if dr_callback_url req = None \<or> dr_callback_url req = Some [] then
           Some (''REQ-4001'', [(''fields'', u ''callback_url'')])
         else let as = the (dr_attachments req) in
           if length as > MAX_ATTACHMENTS then
             Some (''REQ-4032'', [(''limit'', show_nat MAX_ATTACHMENTS), (''n'', show_nat (length as))])
           else check_attachments env (is_exception_ip (en_exception_ips env) (dr_author_ip req)) as)
      else None)"

section \<open>Analysis of a post\<close>

text \<open>Title first, then body; the code before any override.\<close>

definition analyze_body :: "detect_env \<Rightarrow> detect_request \<Rightarrow> exn + detection list \<times> string set" where
  "analyze_body env req =
     (let (engine, shadow, pols) = resolve_runtime env in
      case analyze_field_full engine (u ''post.title'') (dr_strictness req) pols (dr_title req) of
        Inl e \<Rightarrow> Inl e
      | Inr (td, tlog) \<Rightarrow>
          (case analyze_field_full engine (u ''post.body'') (dr_strictness req) pols (dr_body req) of
             Inl e \<Rightarrow> Inl e
           | Inr (bd, blog) \<Rightarrow> Inr (td @ bd, tlog \<union> blog)))"

definition run_shadow :: "analyzer option \<Rightarrow> detect_request \<Rightarrow> string set \<Rightarrow> string set" where
  "run_shadow shadow req production =
     (case shadow of
        None \<Rightarrow> {}
      | Some engine \<Rightarrow>
          (case (engine (dr_title req), engine (dr_body req)) of
             (Inr th, Inr bh) \<Rightarrow>
               set (map rr_entity_type (filter (\<lambda>r. \<not> rr_score r < MIN_REPORTABLE_SCORE) (th @ bh)))
                 - production
           | _ \<Rightarrow> {}))"

section \<open>Case C\<close>

definition enqueue_attachment_job ::
  "detect_env \<Rightarrow> detect_request \<Rightarrow> string \<Rightarrow> detection list \<Rightarrow> string set \<Rightarrow> string set \<Rightarrow> bool \<Rightarrow>
     detect_state \<Rightarrow> answer" where
  "enqueue_attachment_job env req body_code dets logs shadow audit_only st =
     (let job_id = u ''job_'' @ en_job_id env; as = the (dr_attachments req) in
      case get_code body_code of Inl e \<Rightarrow> (Inl e, st) | Inr rc \<Rightarrow>
      case create_job \<lparr>ej_job_id = job_id, ej_request_id = dr_request_id req,
             ej_callback_url = dr_callback_url req, ej_status = J_PENDING,
             ej_body_code = Some body_code, ej_body_verdict = Some (verdict_value (rc_verdict rc)),
             ej_attachments_json = None, ej_error = None, ej_created_at = en_now env,
             ej_completed_at = None, ej_webhook_attempts = 0, ej_webhook_delivered_at = None\<rparr>
             (ds_jobs st) of
        Inl e \<Rightarrow> (Inl e, st)
      | Inr jobs \<Rightarrow>
          (let st1 = st\<lparr>ds_jobs := jobs,
                        ds_tasks := ds_tasks st @ [Attachment_job job_id (dr_request_id req) as
                          (dr_callback_url req) body_code (verdict_value (rc_verdict rc))
                          (dr_strictness req) audit_only False]\<rparr>
           in case build_response (dr_request_id req) ''ACK-3001'' dets (en_ms env)
                     [(''eta_seconds'', show_nat CASE_C_DEFAULT_ETA_SECONDS)]
                     (Some \<lparr>br_verdict = rc_verdict rc, br_code = body_code, br_detections = dets\<rparr>)
                     (Some \<lparr>ji_job_id = job_id, ji_status_url = u ''/v1/jobs/'' @ job_id,
                            ji_estimated_completion_seconds = CASE_C_DEFAULT_ETA_SECONDS,
                            ji_attachment_count = length as\<rparr>)
                     (en_now env) of
                Inl e \<Rightarrow> (Inl e, st1)
              | Inr resp \<Rightarrow>
                  detect_envelope resp dets logs shadow
                    (st1\<lparr>ds_cache := complete (dr_request_id req) resp (en_now env) (ds_cache st1)\<rparr>)))"

section \<open>The handler\<close>

text \<open>An immediate answer that is remembered for replays.\<close>

definition answer_now ::
  "detect_env \<Rightarrow> detect_request \<Rightarrow> string \<Rightarrow> detection list \<Rightarrow> string set \<Rightarrow> string set \<Rightarrow> detect_state \<Rightarrow> answer" where
  "answer_now env req code dets logs shadow st =
     (case build_response (dr_request_id req) code dets (en_ms env) [] None None (en_now env) of
        Inl e \<Rightarrow> (Inl e, st)
      | Inr resp \<Rightarrow>
          detect_envelope resp dets logs shadow
            (st\<lparr>ds_cache := complete (dr_request_id req) resp (en_now env) (ds_cache st)\<rparr>))"

text \<open>The body of the handler's \<^verbatim>\<open>try\<close>.\<close>

definition guarded :: "detect_env \<Rightarrow> detect_request \<Rightarrow> bool \<Rightarrow> detect_state \<Rightarrow> answer" where
  "guarded env req force_pass st =
     (case preflight env req of
        Some (code, vars) \<Rightarrow> detect_error env req code vars st
      | None \<Rightarrow>
          if en_timed_out env then detect_error env req ''SVR-5006'' [] st
          else case analyze_body env req of
            Inl e \<Rightarrow> if e = TimeoutError then detect_error env req ''SVR-5006'' [] st else (Inl e, st)
          | Inr (dets, logs) \<Rightarrow>
              (case decide_body_code dets of Inl e \<Rightarrow> (Inl e, st) | Inr code0 \<Rightarrow>
               (let body_code = (if force_pass then ''OK-0000'' else code0);
                    shadow = run_shadow (fst (snd (resolve_runtime env))) req
                               (set (map d_entity_type dets) \<union> logs)
                in case get_code body_code of Inl e \<Rightarrow> (Inl e, st) | Inr rc \<Rightarrow>
                   if rc_verdict rc = BLOCK then answer_now env req body_code dets logs shadow st
                   else if \<not> has_attachments req \<or> \<not> en_scan_enabled env then
                     answer_now env req body_code dets logs shadow st
                   else enqueue_attachment_job env req body_code dets logs shadow force_pass st)))"

text \<open>\<^verbatim>\<open>except Exception: cache.release(...); raise\<close>: only an exception reaches it.\<close>

definition release_on_raise :: "uuid \<Rightarrow> answer \<Rightarrow> answer" where
  "release_on_raise rid a =
     (case a of
        (Inl e, st) \<Rightarrow> (Inl e, st\<lparr>ds_cache := release rid (ds_cache st)\<rparr>)
      | (Inr r, st) \<Rightarrow> (Inr r, st))"

definition detect_post :: "detect_env \<Rightarrow> detect_request \<Rightarrow> detect_state \<Rightarrow> answer" where
  "detect_post env req st =
     (let ((outcome, cached), cache) = reserve (dr_request_id req) (en_now env) (ds_cache st);
          st1 = st\<lparr>ds_cache := cache\<rparr>
      in if outcome = IN_PROGRESS then detect_error env req ''REQ-4005'' [] st1
         else if outcome = COMPLETED \<and> cached \<noteq> None then
           detect_envelope (the cached) (r_detections (the cached)) {} {} st1
         else
           (let audit_only = is_exception_ip (en_exception_ips env) (dr_author_ip req) in
            if en_poc_mode env then
              (case build_response (dr_request_id req) ''OK-0000'' [] (en_ms env) [] None None (en_now env) of
                 Inl e \<Rightarrow> (Inl e, st1)
               | Inr resp \<Rightarrow>
                   detect_envelope resp [] {} {}
                     (st1\<lparr>ds_cache := complete (dr_request_id req) resp (en_now env) (ds_cache st1),
                          ds_tasks := ds_tasks st1 @ [Poc_shadow req audit_only]\<rparr>))
            else release_on_raise (dr_request_id req) (guarded env req audit_only st1)))"

section \<open>PoC mode\<close>

record poc_entry =
  pe_request_id :: uuid
  pe_actual_code :: string
  pe_actual_verdict :: string
  pe_detections :: "detection list"
  pe_log_only :: "string set"
  pe_shadow :: "string set"
  pe_strictness :: strictness
  pe_audit_only :: bool
  pe_author_ip :: ustr
  pe_board_id :: ustr
  pe_processing_ms :: int

text \<open>The log line is written only while the PoC switch is on.\<close>

definition log_body_decision :: "detect_env \<Rightarrow> poc_entry \<Rightarrow> poc_entry list" where
  "log_body_decision env entry = (if \<not> en_poc_mode env then [] else [entry])"

text \<open>
  The background analysis of PoC mode: oversized posts are skipped, every exception is swallowed,
  the real decision goes to the comparison log, and attachments run through the worker with a
  forced PASS.
\<close>

definition poc_shadow_process ::
  "detect_env \<Rightarrow> detect_request \<Rightarrow> bool \<Rightarrow> detect_state \<Rightarrow> poc_entry list \<times> detect_state" where
  "poc_shadow_process env req audit_only st =
     (if length (dr_title req) > MAX_TITLE_LEN \<or> length (dr_body req) > MAX_BODY_LEN then ([], st)
      else case analyze_body env req of
        Inl e \<Rightarrow> ([], st)
      | Inr (dets, logs) \<Rightarrow>
          (case decide_body_code dets of Inl e \<Rightarrow> ([], st) | Inr code \<Rightarrow>
           case get_code code of Inl e \<Rightarrow> ([], st) | Inr rc \<Rightarrow>
           (let entries = log_body_decision env \<lparr>pe_request_id = dr_request_id req, pe_actual_code = code,
                  pe_actual_verdict = verdict_value (rc_verdict rc), pe_detections = dets,
                  pe_log_only = logs,
                  pe_shadow = run_shadow (fst (snd (resolve_runtime env))) req
                    (set (map d_entity_type dets) \<union> logs),
                  pe_strictness = dr_strictness req, pe_audit_only = audit_only,
                  pe_author_ip = dr_author_ip req, pe_board_id = dr_board_id req,
                  pe_processing_ms = en_ms env\<rparr>
            in if has_attachments req then
                 (let job_id = u ''poc_'' @ en_job_id env in
                  case create_job \<lparr>ej_job_id = job_id, ej_request_id = dr_request_id req,
                         ej_callback_url = dr_callback_url req, ej_status = J_PENDING,
                         ej_body_code = Some ''OK-0000'', ej_body_verdict = Some ''PASS'',
                         ej_attachments_json = None, ej_error = None, ej_created_at = en_now env,
                         ej_completed_at = None, ej_webhook_attempts = 0,
                         ej_webhook_delivered_at = None\<rparr> (ds_jobs st) of
                    Inl e \<Rightarrow> (entries, st)
                  | Inr jobs \<Rightarrow>
                      (entries, st\<lparr>ds_jobs := jobs,
                         ds_tasks := ds_tasks st @ [Attachment_job job_id (dr_request_id req)
                           (the (dr_attachments req)) (dr_callback_url req) ''OK-0000'' ''PASS''
                           (dr_strictness req) True True]\<rparr>))
               else (entries, st))))"

section \<open>Which hits block\<close>

text \<open>A hit blocks when it reaches the threshold and no database policy takes it out.\<close>

definition blocking_hit :: "strictness \<Rightarrow> policy list \<Rightarrow> rresult \<Rightarrow> bool" where
  "blocking_hit st pols r \<longleftrightarrow> BLOCK_THRESHOLD st \<le> rr_score r \<and>
     rp_action (resolve_hit [] st pols r) \<notin> {''PASS'', ''LOG_ONLY'', ''MASK''}"

lemma rp_action_field: "rp_action (resolve_hit f st pols r) = rp_action (resolve_hit [] st pols r)"
  by (simp add: resolve_hit_def resolve_action_find split: option.splits)

lemma resolve_hit_code:
  "rp_code (resolve_hit f st pols r) =
     (case find (policy_match (rr_entity_type r) (rr_score r)) pols of
        None \<Rightarrow> map_detection_to_code (rr_entity_type r) (rr_score r) f st
      | Some p \<Rightarrow> action_to_code (pp_action p)
          (map_detection_to_code (rr_entity_type r) (rr_score r) f st))"
  by (simp add: resolve_hit_def resolve_action_find split: option.splits)

lemma resolve_hit_verdict:
  assumes "rp_action (resolve_hit f st pols r) \<notin> {''PASS'', ''LOG_ONLY''}"
  shows "code_verdict (rp_code (resolve_hit f st pols r)) =
     Some (if blocking_hit st pols r then BLOCK
           else if rp_action (resolve_hit f st pols r) = ''MASK'' then WARN else PASS)"
  using assms
  by (auto simp: blocking_hit_def rp_action_field [of f] resolve_hit_code)
    (auto simp: resolve_hit_def resolve_action_find action_to_code_def map_detection_to_code_verdict
      band_to_action_def split: option.splits if_splits)

lemma threshold_reportable: "MIN_REPORTABLE_SCORE < BLOCK_THRESHOLD st"
  by (cases st) (simp_all add: MIN_REPORTABLE_SCORE_def)

definition visible_hit :: "strictness \<Rightarrow> policy list \<Rightarrow> rresult \<Rightarrow> bool" where
  "visible_hit st pols r \<longleftrightarrow> MIN_REPORTABLE_SCORE \<le> rr_score r \<and>
     rp_action (resolve_hit [] st pols r) \<notin> {''PASS'', ''LOG_ONLY''}"

definition logged_hit :: "strictness \<Rightarrow> policy list \<Rightarrow> rresult \<Rightarrow> bool" where
  "logged_hit st pols r \<longleftrightarrow> MIN_REPORTABLE_SCORE \<le> rr_score r \<and>
     rp_action (resolve_hit [] st pols r) = ''LOG_ONLY''"

lemma blocking_visible: "blocking_hit st pols r \<Longrightarrow> visible_hit st pols r"
  using threshold_reportable [of st] by (auto simp: blocking_hit_def visible_hit_def)

text \<open>The detection made of a visible hit.\<close>

definition hit_detection :: "ustr \<Rightarrow> strictness \<Rightarrow> policy list \<Rightarrow> rresult \<Rightarrow> detection" where
  "hit_detection f st pols r =
     \<lparr>d_field = f, d_entity_type = rr_entity_type r, d_code = rp_code (resolve_hit f st pols r),
      d_score = rr_score r, d_start = Some (rr_start r), d_end = Some (rr_end r),
      d_masked_preview = None\<rparr>"

lemma analyze_loop_eq:
  "analyze_loop f st pols rs =
     (if \<forall>r \<in> set rs. visible_hit st pols r \<longrightarrow> rr_score r \<le> 1
      then Inr (map (hit_detection f st pols) (filter (visible_hit st pols) rs),
                rr_entity_type ` {r \<in> set rs. logged_hit st pols r})
      else Inl ValueError)"
proof (induction rs)
  case Nil
  then show ?case by simp
next
  case (Cons r rs)
  have pos: "0 \<le> rr_score r" if "MIN_REPORTABLE_SCORE \<le> rr_score r"
    using that by (simp add: MIN_REPORTABLE_SCORE_def)
  note act = rp_action_field [of f st pols r]
  have vis: "mk_detection f (rr_entity_type r) (rp_code (resolve_hit f st pols r)) (rr_score r)
      (Some (rr_start r)) (Some (rr_end r)) =
      (if rr_score r \<le> 1 then Inr (hit_detection f st pols r) else Inl ValueError)"
    if "visible_hit st pols r"
    using that pos by (auto simp: mk_detection_def hit_detection_def visible_hit_def)
  have log: "{x \<in> set (r # rs). logged_hit st pols x} =
      (if logged_hit st pols r then insert r {x \<in> set rs. logged_hit st pols x}
       else {x \<in> set rs. logged_hit st pols x})"
    by auto
  consider (low) "rr_score r < MIN_REPORTABLE_SCORE" "\<not> visible_hit st pols r" "\<not> logged_hit st pols r"
    | (pass) "\<not> rr_score r < MIN_REPORTABLE_SCORE" "rp_action (resolve_hit f st pols r) = ''PASS''"
        "\<not> visible_hit st pols r" "\<not> logged_hit st pols r"
    | (logs) "\<not> rr_score r < MIN_REPORTABLE_SCORE" "rp_action (resolve_hit f st pols r) = ''LOG_ONLY''"
        "\<not> visible_hit st pols r" "logged_hit st pols r"
    | (vis) "\<not> rr_score r < MIN_REPORTABLE_SCORE" "rp_action (resolve_hit f st pols r) \<noteq> ''PASS''"
        "rp_action (resolve_hit f st pols r) \<noteq> ''LOG_ONLY''" "visible_hit st pols r" "\<not> logged_hit st pols r"
    by (auto simp: act visible_hit_def logged_hit_def)
  then show ?case
  proof cases
    case low
    then show ?thesis unfolding log using Cons.IH by simp
  next
    case pass
    then show ?thesis unfolding log using Cons.IH by (simp add: Let_def)
  next
    case logs
    then show ?thesis unfolding log using Cons.IH by (simp add: Let_def)
  next
    case vis
    then show ?thesis unfolding log using Cons.IH \<open>visible_hit st pols r \<Longrightarrow> _\<close> by (simp add: Let_def)
  qed
qed

section \<open>Keeping the best hits of a span\<close>

lemma set_topk: "set (topk_per_span k raw) \<subseteq> set raw"
  by (auto simp: topk_per_span_def dest: in_set_takeD)

lemma take_sorted_dominates:
  fixes g :: "'a \<Rightarrow> 'b :: linorder"
  assumes "sorted (map g ys)" "y \<in> set ys" "0 < k"
  shows "\<exists>z \<in> set (take k ys). g z \<le> g y"
proof -
  obtain z zs where ys: "ys = z # zs"
    using assms(2) by (cases ys) auto
  then have "z \<in> set (take k ys)"
    using assms(3) by (cases k) simp_all
  moreover have "g z \<le> g y"
    using assms(1,2) ys by auto
  ultimately show ?thesis by blast
qed

text \<open>A hit that is cut off leaves one of the same span behind that scores at least as high.\<close>

lemma topk_dominates:
  assumes "r \<in> set raw" "0 < k"
  shows "\<exists>r' \<in> set (topk_per_span k raw). hit_span r' = hit_span r \<and> rr_score r \<le> rr_score r'"
proof -
  let ?ys = "sort_key (\<lambda>h. - rr_score h) (filter (\<lambda>x. hit_span x = hit_span r) raw)"
  have "sorted (map (\<lambda>h. - rr_score h) ?ys)"
    by (rule sorted_sort_key)
  from take_sorted_dominates [OF this, of r k] assms obtain z
    where z: "z \<in> set (take k ?ys)" "rr_score r \<le> rr_score z"
    by auto
  then have "hit_span z = hit_span r"
    by (auto dest: in_set_takeD)
  moreover have "z \<in> set (topk_per_span k raw)"
    using z(1) assms(1) unfolding topk_per_span_def set_concat set_map set_dedup by blast
  ultimately show ?thesis
    using z(2) by blast
qed

lemma resolve_hit_no_policy:
  "rp_action (resolve_hit f st [] r) = (if BLOCK_THRESHOLD st \<le> rr_score r then ''BLOCK'' else ''PASS'')"
  by (simp add: resolve_hit_def resolve_action_find band_to_action_def score_to_band_def)

lemma blocking_hit_no_policy: "blocking_hit st [] r \<longleftrightarrow> BLOCK_THRESHOLD st \<le> rr_score r"
  by (simp add: blocking_hit_def resolve_hit_no_policy)

lemma topk_blocking_no_policy:
  assumes "0 < k"
  shows "(\<exists>r \<in> set (topk_per_span k raw). blocking_hit st [] r) \<longleftrightarrow>
         (\<exists>r \<in> set raw. BLOCK_THRESHOLD st \<le> rr_score r)"
  using topk_dominates [OF _ assms] set_topk [of k raw]
  by (auto simp: blocking_hit_no_policy) (meson order_trans)

section \<open>From hits to the body code\<close>

definition kept_hits :: "analyzer \<Rightarrow> ustr \<Rightarrow> rresult list" where
  "kept_hits engine txt =
     (if txt = [] then []
      else case engine txt of Inl e \<Rightarrow> [] | Inr raw \<Rightarrow> topk_per_span MAX_DETECTIONS_PER_SPAN raw)"

text \<open>The engine answers on the text, with scores that are at most one.\<close>

definition engine_ok :: "analyzer \<Rightarrow> ustr \<Rightarrow> bool" where
  "engine_ok engine txt \<longleftrightarrow>
     txt = [] \<or> (case engine txt of Inl e \<Rightarrow> False | Inr raw \<Rightarrow> list_all (\<lambda>r. rr_score r \<le> 1) raw)"

lemma analyze_field_full_eq:
  assumes "engine_ok engine txt"
  shows "analyze_field_full engine f st pols txt =
     Inr (map (hit_detection f st pols) (filter (visible_hit st pols) (kept_hits engine txt)),
          rr_entity_type ` {r \<in> set (kept_hits engine txt). logged_hit st pols r})"
proof (cases "txt = []")
  case True
  then show ?thesis by (simp add: analyze_field_full_def kept_hits_def)
next
  case False
  with assms obtain raw where raw: "engine txt = Inr raw" "\<forall>r \<in> set raw. rr_score r \<le> 1"
    by (auto simp: engine_ok_def list_all_iff split: sum.splits)
  then have "\<forall>r \<in> set (topk_per_span MAX_DETECTIONS_PER_SPAN raw). rr_score r \<le> 1"
    using set_topk [of MAX_DETECTIONS_PER_SPAN raw] by blast
  with raw False show ?thesis
    by (simp add: analyze_field_full_def kept_hits_def analyze_loop_eq)
qed

definition body_hits :: "detect_env \<Rightarrow> detect_request \<Rightarrow> rresult list" where
  "body_hits env req =
     kept_hits (fst (resolve_runtime env)) (dr_title req) @ kept_hits (fst (resolve_runtime env)) (dr_body req)"

definition policies_of :: "detect_env \<Rightarrow> policy list" where
  "policies_of env = snd (snd (resolve_runtime env))"

definition analysis_ok :: "detect_env \<Rightarrow> detect_request \<Rightarrow> bool" where
  "analysis_ok env req \<longleftrightarrow> \<not> en_timed_out env \<and>
     engine_ok (fst (resolve_runtime env)) (dr_title req) \<and> engine_ok (fst (resolve_runtime env)) (dr_body req)"

lemma analyze_body_eq:
  assumes "analysis_ok env req"
  obtains dets where
    "analyze_body env req = Inr (dets, rr_entity_type `
       {r \<in> set (body_hits env req). logged_hit (dr_strictness req) (policies_of env) r})"
    "map d_entity_type dets =
       map rr_entity_type (filter (visible_hit (dr_strictness req) (policies_of env)) (body_hits env req))"
    "\<forall>d \<in> set dets. \<exists>r f. r \<in> set (body_hits env req) \<and>
        visible_hit (dr_strictness req) (policies_of env) r \<and>
        d = hit_detection f (dr_strictness req) (policies_of env) r"
    "\<forall>r \<in> set (body_hits env req). visible_hit (dr_strictness req) (policies_of env) r \<longrightarrow>
        (\<exists>f. hit_detection f (dr_strictness req) (policies_of env) r \<in> set dets)"
proof -
  obtain engine sh pols where rt: "resolve_runtime env = (engine, sh, pols)"
    by (cases "resolve_runtime env")
  let ?h = "\<lambda>f txt. map (hit_detection f (dr_strictness req) pols)
      (filter (visible_hit (dr_strictness req) pols) (kept_hits engine txt))"
  let ?d = "?h (u ''post.title'') (dr_title req) @ ?h (u ''post.body'') (dr_body req)"
  have ok: "engine_ok engine (dr_title req)" "engine_ok engine (dr_body req)"
    using assms rt by (simp_all add: analysis_ok_def)
  show ?thesis
  proof (rule that [of ?d])
    show "analyze_body env req = Inr (?d, rr_entity_type `
       {r \<in> set (body_hits env req). logged_hit (dr_strictness req) (policies_of env) r})"
      by (auto simp: analyze_body_def rt analyze_field_full_eq [OF ok(1)] analyze_field_full_eq [OF ok(2)]
          body_hits_def policies_of_def image_Un)
  qed (auto simp: body_hits_def policies_of_def rt hit_detection_def comp_def)
qed

text \<open>What the verdict depends on: the detections whose code blocks.\<close>

definition blocking_dets :: "detection list \<Rightarrow> detection list" where
  "blocking_dets ds = filter (\<lambda>d. code_verdict (d_code d) = Some BLOCK) ds"

lemma block_codes_eq:
  assumes "\<forall>d \<in> set ds. code_verdict (d_code d) \<noteq> None"
  shows "block_codes ds = Inr (map (\<lambda>d. (d_entity_type d, d_code d)) (blocking_dets ds))"
  using assms
proof (induction ds)
  case Nil
  then show ?case by (simp add: blocking_dets_def)
next
  case (Cons d ds)
  then obtain rc where "get_code (d_code d) = Inr rc"
    by (auto elim: code_verdictE)
  with Cons show ?case by (simp add: blocking_dets_def code_verdict_def)
qed

lemma decide_body_code_eq:
  assumes "\<forall>d \<in> set ds. code_verdict (d_code d) \<noteq> None"
  shows "decide_body_code ds =
     Inr (if blocking_dets ds = [] then ''OK-0000''
          else if 2 \<le> card (d_entity_type ` set (blocking_dets ds)) then ''BLOCK-2008''
          else d_code (hd (blocking_dets ds)))"
proof -
  have "set (map fst (map (\<lambda>d. (d_entity_type d, d_code d)) xs)) = d_entity_type ` set xs"
    "xs \<noteq> [] \<Longrightarrow> snd (hd (map (\<lambda>d. (d_entity_type d, d_code d)) xs)) = d_code (hd xs)" for xs
    by (simp_all add: image_image hd_map)
  then show ?thesis
    unfolding decide_body_code_def block_codes_eq [OF assms] sum.case map_is_Nil_conv
    by (cases "blocking_dets ds") simp_all
qed

lemma decide_body_code_verdict:
  assumes "\<forall>d \<in> set ds. code_verdict (d_code d) \<noteq> None"
  obtains code where "decide_body_code ds = Inr code"
    "code_verdict code = Some (if \<exists>d \<in> set ds. code_verdict (d_code d) = Some BLOCK then BLOCK else PASS)"
    "code = ''BLOCK-2008'' \<or> code = ''OK-0000'' \<or> code \<in> d_code ` set ds"
proof -
  have ex: "(\<exists>d \<in> set ds. code_verdict (d_code d) = Some BLOCK) \<longleftrightarrow> blocking_dets ds \<noteq> []"
    by (auto simp: blocking_dets_def filter_empty_conv)
  have hd: "code_verdict (d_code (hd (blocking_dets ds))) = Some BLOCK \<and> hd (blocking_dets ds) \<in> set ds"
    if "blocking_dets ds \<noteq> []"
    using hd_in_set [OF that] by (simp add: blocking_dets_def)
  show ?thesis
    by (rule that [OF decide_body_code_eq [OF assms]]) (use ex hd in auto)
qed

section \<open>The handler's answers\<close>

lemma detect_envelope_known:
  assumes "code_verdict (r_code resp) = Some v"
  obtains ap st' where "detect_envelope resp dets logs shadow st =
      (Inr (\<lparr>hr_status = the (code_status (r_code resp)), hr_content = resp\<rparr>, ap), st')"
    "ap_response_code ap = r_code resp"
    "ap_detected_entity_types ap = join_types (set (map d_entity_type dets) \<union> logs)"
    "ds_cache st' = ds_cache st" "ds_jobs st' = ds_jobs st" "ds_tasks st' = ds_tasks st"
proof -
  obtain rc where rc: "get_code (r_code resp) = Inr rc"
    using assms by (rule code_verdictE)
  show ?thesis
    by (rule that [of "fst (stash_audit (r_code resp) dets logs shadow st)"
          "(snd (stash_audit (r_code resp) dets logs shadow st))\<lparr>ds_requests_seen :=
             ds_requests_seen st @ [verdict_value (rc_verdict rc)]\<rparr>"])
      (simp_all add: detect_envelope_def rc get_code_status [OF rc] stash_audit_def)
qed

lemma answer_now_known:
  assumes "code_verdict code = Some v"
  obtains resp ap st' where "answer_now env req code dets logs shadow st =
      (Inr (\<lparr>hr_status = the (code_status code), hr_content = resp\<rparr>, ap), st')"
    "r_request_id resp = dr_request_id req" "r_verdict resp = v" "r_code resp = code"
    "r_detections resp = dets" "ap_detected_entity_types ap = join_types (set (map d_entity_type dets) \<union> logs)"
    "ds_cache st' = complete (dr_request_id req) resp (en_now env) (ds_cache st)"
    "ds_jobs st' = ds_jobs st" "ds_tasks st' = ds_tasks st"
proof -
  obtain resp where r: "build_response (dr_request_id req) code dets (en_ms env) [] None None (en_now env) = Inr resp"
      "r_request_id resp = dr_request_id req" "r_verdict resp = v" "r_code resp = code" "r_detections resp = dets"
    using assms by (rule build_response_verdict)
  from assms r(4) have "code_verdict (r_code resp) = Some v" by simp
  from detect_envelope_known [OF this, of dets logs shadow
      "st\<lparr>ds_cache := complete (dr_request_id req) resp (en_now env) (ds_cache st)\<rparr>"] r that
  show ?thesis by (simp add: answer_now_def) metis
qed

text \<open>The row a Case C request inserts.\<close>

definition pending_job :: "detect_env \<Rightarrow> detect_request \<Rightarrow> string \<Rightarrow> extraction_job" where
  "pending_job env req body_code =
     \<lparr>ej_job_id = u ''job_'' @ en_job_id env, ej_request_id = dr_request_id req,
      ej_callback_url = dr_callback_url req, ej_status = J_PENDING, ej_body_code = Some body_code,
      ej_body_verdict = map_option verdict_value (code_verdict body_code), ej_attachments_json = None,
      ej_error = None, ej_created_at = en_now env, ej_completed_at = None, ej_webhook_attempts = 0,
      ej_webhook_delivered_at = None\<rparr>"

lemma enqueue_known:
  assumes v: "code_verdict code = Some v"
    and fresh: "u ''job_'' @ en_job_id env \<notin> set (map ej_job_id (ds_jobs st))"
  obtains resp ap st' where "enqueue_attachment_job env req code dets logs shadow ao st =
      (Inr (\<lparr>hr_status = 202, hr_content = resp\<rparr>, ap), st')"
    "r_request_id resp = dr_request_id req" "r_verdict resp = PROCESSING" "r_code resp = ''ACK-3001''"
    "r_detections resp = dets" "ap_detected_entity_types ap = join_types (set (map d_entity_type dets) \<union> logs)"
    "ds_cache st' = complete (dr_request_id req) resp (en_now env) (ds_cache st)"
    "ds_jobs st' = ds_jobs st @ [pending_job env req code]"
    "ds_tasks st' = ds_tasks st @ [Attachment_job (u ''job_'' @ en_job_id env) (dr_request_id req)
       (the (dr_attachments req)) (dr_callback_url req) code (verdict_value v) (dr_strictness req) ao False]"
    "map_option ji_job_id (r_job resp) = Some (u ''job_'' @ en_job_id env)"
proof -
  obtain rc where rc: "get_code code = Inr rc" "rc_verdict rc = v"
    using v by (rule code_verdictE)
  let ?st1 = "st\<lparr>ds_jobs := ds_jobs st @ [pending_job env req code],
      ds_tasks := ds_tasks st @ [Attachment_job (u ''job_'' @ en_job_id env) (dr_request_id req)
       (the (dr_attachments req)) (dr_callback_url req) code (verdict_value v) (dr_strictness req) ao False]\<rparr>"
  let ?br = "Some \<lparr>br_verdict = v, br_code = code, br_detections = dets\<rparr>"
  let ?job = "Some \<lparr>ji_job_id = u ''job_'' @ en_job_id env,
      ji_status_url = u ''/v1/jobs/'' @ u ''job_'' @ en_job_id env,
      ji_estimated_completion_seconds = CASE_C_DEFAULT_ETA_SECONDS,
      ji_attachment_count = length (the (dr_attachments req))\<rparr>"
  have a: "code_verdict ''ACK-3001'' = Some PROCESSING" by simp
  obtain resp where r: "build_response (dr_request_id req) ''ACK-3001'' dets (en_ms env)
        [(''eta_seconds'', show_nat CASE_C_DEFAULT_ETA_SECONDS)] ?br ?job (en_now env) = Inr resp"
      "r_request_id resp = dr_request_id req" "r_verdict resp = PROCESSING" "r_code resp = ''ACK-3001''"
      "r_detections resp = dets" "r_job resp = ?job"
    using a by (rule build_response_verdict)
  let ?st2 = "?st1\<lparr>ds_cache := complete (dr_request_id req) resp (en_now env) (ds_cache st)\<rparr>"
  have "enqueue_attachment_job env req code dets logs shadow ao st = detect_envelope resp dets logs shadow ?st2"
    using fresh r(1) by (simp add: enqueue_attachment_job_def Let_def rc create_job_def pending_job_def v)
  moreover have "code_verdict (r_code resp) = Some PROCESSING" using r by simp
  then obtain ap st' where "detect_envelope resp dets logs shadow ?st2 =
      (Inr (\<lparr>hr_status = the (code_status (r_code resp)), hr_content = resp\<rparr>, ap), st')"
    "ap_response_code ap = r_code resp"
    "ap_detected_entity_types ap = join_types (set (map d_entity_type dets) \<union> logs)"
    "ds_cache st' = ds_cache ?st2" "ds_jobs st' = ds_jobs ?st2" "ds_tasks st' = ds_tasks ?st2"
    by (rule detect_envelope_known)
  ultimately show ?thesis
    by (intro that [of resp ap st']) (use r in simp_all)
qed

lemma detect_error_known:
  assumes "code_verdict code = Some v"
  obtains resp ap st' where "detect_error env req code vars st =
      (Inr (\<lparr>hr_status = the (code_status code), hr_content = resp\<rparr>, ap), st')"
    "r_request_id resp = dr_request_id req" "r_verdict resp = v" "r_code resp = code" "r_detections resp = []"
    "ds_cache st' = ds_cache st" "ds_jobs st' = ds_jobs st" "ds_tasks st' = ds_tasks st"
proof -
  obtain resp where r: "build_response (dr_request_id req) code [] (en_ms env) vars None None (en_now env) = Inr resp"
      "r_request_id resp = dr_request_id req" "r_verdict resp = v" "r_code resp = code" "r_detections resp = []"
    using assms by (rule build_response_verdict)
  from assms r(4) have "code_verdict (r_code resp) = Some v" by simp
  from detect_envelope_known [OF this, of "[]" "{}" "{}" st] r that show ?thesis
    by (simp add: detect_error_def) metis
qed

section \<open>Pre-flight\<close>

lemma check_attachment_code:
  "check_attachment env b a = Some (code, vars) \<Longrightarrow> code \<in> {''REQ-4031'', ''REQ-4035'', ''REQ-4033''}"
  by (auto simp: check_attachment_def Let_def split: prod.splits if_splits)

lemma check_attachments_code:
  "check_attachments env b as = Some (code, vars) \<Longrightarrow> code \<in> {''REQ-4031'', ''REQ-4035'', ''REQ-4033''}"
  by (induction as) (auto dest: check_attachment_code split: option.splits)

lemma preflight_code:
  "preflight env req = Some (code, vars) \<Longrightarrow>
     code \<in> {''REQ-4030'', ''REQ-4001'', ''REQ-4032'', ''REQ-4031'', ''REQ-4035'', ''REQ-4033''}"
  by (auto simp: preflight_def Let_def dest: check_attachments_code split: if_splits)

lemma preflight_code_verdict: "preflight env req = Some (code, vars) \<Longrightarrow> code_verdict code = Some ERROR"
  using preflight_code [of env req code vars] by auto

text \<open>What an accepted attachment satisfies.\<close>

definition attachment_accepted :: "detect_env \<Rightarrow> bool \<Rightarrow> attachment \<Rightarrow> bool" where
  "attachment_accepted env bypass a \<longleftrightarrow>
     at_size_bytes a \<le> MAX_ATTACHMENT_BYTES \<and> at_mime_type a \<in> u ` set SUPPORTED_MIME_TYPES \<and>
     (bypass \<or> \<not> fst (is_blocked (en_blocklist env) (at_filename a) (at_mime_type a)))"

lemma check_attachment_None: "check_attachment env b a = None \<longleftrightarrow> attachment_accepted env b a"
  by (auto simp: check_attachment_def attachment_accepted_def Let_def split: prod.splits if_splits)

lemma check_attachments_None: "check_attachments env b as = None \<longleftrightarrow> list_all (attachment_accepted env b) as"
  by (induction as) (auto simp: check_attachment_None [symmetric] split: option.splits)

lemma preflight_None:
  "preflight env req = None \<longleftrightarrow>
     length (dr_title req) \<le> MAX_TITLE_LEN \<and> length (dr_body req) \<le> MAX_BODY_LEN \<and>
     (has_attachments req \<longrightarrow>
        dr_callback_url req \<notin> {None, Some []} \<and> length (the (dr_attachments req)) \<le> MAX_ATTACHMENTS \<and>
        list_all (attachment_accepted env (is_exception_ip (en_exception_ips env) (dr_author_ip req)))
          (the (dr_attachments req)))"
  by (auto simp: preflight_def Let_def check_attachments_None)

section \<open>A fresh, analysable post\<close>

lemma detect_post_fresh:
  assumes "cache_ok (ds_cache st)" "view (ds_cache st) (en_now env) (dr_request_id req) = Free" "\<not> en_poc_mode env"
  shows "detect_post env req st =
    release_on_raise (dr_request_id req)
      (guarded env req (is_exception_ip (en_exception_ips env) (dr_author_ip req))
        (st\<lparr>ds_cache := snd (reserve (dr_request_id req) (en_now env) (ds_cache st))\<rparr>))"
proof -
  obtain c where "reserve (dr_request_id req) (en_now env) (ds_cache st) = ((NEW, None), c)"
    using reserve_outcome [OF assms(1), of "dr_request_id req" "en_now env"] assms(2)
    by (cases "reserve (dr_request_id req) (en_now env) (ds_cache st)") simp
  then show ?thesis
    using assms(3) by (simp add: detect_post_def Let_def)
qed

text \<open>The post is new, passes the checks, is analysed in time, and its job id is unused.\<close>

definition analysable :: "detect_env \<Rightarrow> detect_request \<Rightarrow> detect_state \<Rightarrow> bool" where
  "analysable env req st \<longleftrightarrow>
     \<not> en_poc_mode env \<and> cache_ok (ds_cache st) \<and>
     view (ds_cache st) (en_now env) (dr_request_id req) = Free \<and> preflight env req = None \<and>
     analysis_ok env req \<and> u ''job_'' @ en_job_id env \<notin> set (map ej_job_id (ds_jobs st))"

definition blocks :: "detect_env \<Rightarrow> detect_request \<Rightarrow> bool" where
  "blocks env req \<longleftrightarrow> \<not> is_exception_ip (en_exception_ips env) (dr_author_ip req) \<and>
     (\<exists>r \<in> set (body_hits env req). blocking_hit (dr_strictness req) (policies_of env) r)"

lemma hit_detection_verdict:
  assumes "visible_hit st pols r"
  shows "code_verdict (d_code (hit_detection f st pols r)) =
    Some (if blocking_hit st pols r then BLOCK
          else if rp_action (resolve_hit [] st pols r) = ''MASK'' then WARN else PASS)"
  using assms resolve_hit_verdict [of f st pols r] rp_action_field [of f st pols r]
  by (simp add: hit_detection_def visible_hit_def)

lemma decide_analyzed:
  assumes "analysis_ok env req"
  obtains dets logs code where "analyze_body env req = Inr (dets, logs)" "decide_body_code dets = Inr code"
    "code_verdict code = Some (if \<exists>r \<in> set (body_hits env req).
       blocking_hit (dr_strictness req) (policies_of env) r then BLOCK else PASS)"
proof -
  obtain dets where d: "analyze_body env req = Inr (dets, rr_entity_type `
       {r \<in> set (body_hits env req). logged_hit (dr_strictness req) (policies_of env) r})"
    "map d_entity_type dets =
       map rr_entity_type (filter (visible_hit (dr_strictness req) (policies_of env)) (body_hits env req))"
    "\<forall>d \<in> set dets. \<exists>r f. r \<in> set (body_hits env req) \<and>
        visible_hit (dr_strictness req) (policies_of env) r \<and>
        d = hit_detection f (dr_strictness req) (policies_of env) r"
    "\<forall>r \<in> set (body_hits env req). visible_hit (dr_strictness req) (policies_of env) r \<longrightarrow>
        (\<exists>f. hit_detection f (dr_strictness req) (policies_of env) r \<in> set dets)"
    by (rule analyze_body_eq [OF assms])
  have "\<forall>d \<in> set dets. code_verdict (d_code d) \<noteq> None"
    using d(3) hit_detection_verdict by force
  then obtain code where c: "decide_body_code dets = Inr code"
    "code_verdict code = Some (if \<exists>d \<in> set dets. code_verdict (d_code d) = Some BLOCK then BLOCK else PASS)"
    by (rule decide_body_code_verdict)
  have "(\<exists>d \<in> set dets. code_verdict (d_code d) = Some BLOCK) \<longleftrightarrow>
      (\<exists>r \<in> set (body_hits env req). blocking_hit (dr_strictness req) (policies_of env) r)"
  proof
    assume "\<exists>d \<in> set dets. code_verdict (d_code d) = Some BLOCK"
    then obtain r f where "r \<in> set (body_hits env req)" "visible_hit (dr_strictness req) (policies_of env) r"
      "code_verdict (d_code (hit_detection f (dr_strictness req) (policies_of env) r)) = Some BLOCK"
      using d(3) by metis
    then show "\<exists>r \<in> set (body_hits env req). blocking_hit (dr_strictness req) (policies_of env) r"
      using hit_detection_verdict [of "dr_strictness req" "policies_of env" r f] by (auto split: if_splits)
  next
    assume "\<exists>r \<in> set (body_hits env req). blocking_hit (dr_strictness req) (policies_of env) r"
    then obtain r f where "blocking_hit (dr_strictness req) (policies_of env) r"
      "hit_detection f (dr_strictness req) (policies_of env) r \<in> set dets"
      using d(4) blocking_visible by blast
    then show "\<exists>d \<in> set dets. code_verdict (d_code d) = Some BLOCK"
      using blocking_visible by (intro bexI) (auto simp: hit_detection_verdict)
  qed
  with that [OF d(1) c(1)] c(2) show ?thesis by simp
qed

text \<open>Everything an analysable post gets, in one place.\<close>

lemma detect_post_analysable:
  assumes "analysable env req st"
  obtains resp ap st' dets logs code where
    "detect_post env req st =
       (Inr (\<lparr>hr_status = the (code_status (r_code resp)), hr_content = resp\<rparr>, ap), st')"
    "analyze_body env req = Inr (dets, logs)" "r_detections resp = dets"
    "ap_detected_entity_types ap = join_types (set (map d_entity_type dets) \<union> logs)"
    "code_verdict code = Some (if blocks env req then BLOCK else PASS)"
    "ds_cache st' = complete (dr_request_id req) resp (en_now env)
       (snd (reserve (dr_request_id req) (en_now env) (ds_cache st)))"
    "r_request_id resp = dr_request_id req"
    "\<not> blocks env req \<and> has_attachments req \<and> en_scan_enabled env \<Longrightarrow>
       r_code resp = ''ACK-3001'' \<and> r_verdict resp = PROCESSING \<and>
       ds_jobs st' = ds_jobs st @ [pending_job env req code] \<and>
       ds_tasks st' = ds_tasks st @ [Attachment_job (u ''job_'' @ en_job_id env) (dr_request_id req)
         (the (dr_attachments req)) (dr_callback_url req) code ''PASS'' (dr_strictness req)
         (is_exception_ip (en_exception_ips env) (dr_author_ip req)) False] \<and>
       map_option ji_job_id (r_job resp) = Some (u ''job_'' @ en_job_id env)"
    "\<not> (\<not> blocks env req \<and> has_attachments req \<and> en_scan_enabled env) \<Longrightarrow>
       r_code resp = code \<and> r_verdict resp = (if blocks env req then BLOCK else PASS) \<and>
       ds_jobs st' = ds_jobs st \<and> ds_tasks st' = ds_tasks st"
proof -
  let ?ao = "is_exception_ip (en_exception_ips env) (dr_author_ip req)"
  let ?st = "st\<lparr>ds_cache := snd (reserve (dr_request_id req) (en_now env) (ds_cache st))\<rparr>"
  have a: "cache_ok (ds_cache st)" "view (ds_cache st) (en_now env) (dr_request_id req) = Free"
    "\<not> en_poc_mode env" "preflight env req = None" "analysis_ok env req" "\<not> en_timed_out env"
    "u ''job_'' @ en_job_id env \<notin> set (map ej_job_id (ds_jobs ?st))"
    using assms by (simp_all add: analysable_def analysis_ok_def)
  obtain dets logs code0 where d: "analyze_body env req = Inr (dets, logs)"
    "decide_body_code dets = Inr code0"
    "code_verdict code0 = Some (if \<exists>r \<in> set (body_hits env req).
       blocking_hit (dr_strictness req) (policies_of env) r then BLOCK else PASS)"
    by (rule decide_analyzed [OF a(5)])
  let ?code = "if ?ao then ''OK-0000'' else code0"
  let ?shadow = "run_shadow (fst (snd (resolve_runtime env))) req (set (map d_entity_type dets) \<union> logs)"
  have v: "code_verdict ?code = Some (if blocks env req then BLOCK else PASS)"
    using d(3) by (simp add: blocks_def)
  obtain rc where rc: "get_code ?code = Inr rc" "rc_verdict rc = (if blocks env req then BLOCK else PASS)"
    using v by (rule code_verdictE)
  have g: "guarded env req ?ao ?st =
      (if \<not> blocks env req \<and> has_attachments req \<and> en_scan_enabled env
       then enqueue_attachment_job env req ?code dets logs ?shadow ?ao ?st
       else answer_now env req ?code dets logs ?shadow ?st)"
    using rc by (simp add: guarded_def a(4,6) d(1,2) Let_def)
  show ?thesis
  proof (cases "\<not> blocks env req \<and> has_attachments req \<and> en_scan_enabled env")
    case True
    then have "code_verdict ?code = Some PASS" using v by simp
    then obtain resp ap st'
      where e: "enqueue_attachment_job env req ?code dets logs ?shadow ?ao ?st =
        (Inr (\<lparr>hr_status = 202, hr_content = resp\<rparr>, ap), st')"
      "r_request_id resp = dr_request_id req" "r_verdict resp = PROCESSING" "r_code resp = ''ACK-3001''"
      "r_detections resp = dets" "ap_detected_entity_types ap = join_types (set (map d_entity_type dets) \<union> logs)"
      "ds_cache st' = complete (dr_request_id req) resp (en_now env) (ds_cache ?st)"
      "ds_jobs st' = ds_jobs ?st @ [pending_job env req ?code]"
      "ds_tasks st' = ds_tasks ?st @ [Attachment_job (u ''job_'' @ en_job_id env) (dr_request_id req)
         (the (dr_attachments req)) (dr_callback_url req) ?code (verdict_value PASS) (dr_strictness req) ?ao False]"
      "map_option ji_job_id (r_job resp) = Some (u ''job_'' @ en_job_id env)"
      using a(7) by (rule enqueue_known)
    have dp: "detect_post env req st =
        (Inr (\<lparr>hr_status = the (code_status (r_code resp)), hr_content = resp\<rparr>, ap), st')"
      unfolding detect_post_fresh [OF a(1-3)] g if_P [OF True] e(1) by (simp add: release_on_raise_def e(4))
    show ?thesis
      by (rule that [OF dp d(1) e(5,6) v _ e(2)]) (use True e(3,4,7-10) in auto)
  next
    case False
    obtain resp ap st'
      where e: "answer_now env req ?code dets logs ?shadow ?st =
        (Inr (\<lparr>hr_status = the (code_status ?code), hr_content = resp\<rparr>, ap), st')"
      "r_request_id resp = dr_request_id req" "r_verdict resp = (if blocks env req then BLOCK else PASS)"
      "r_code resp = ?code" "r_detections resp = dets"
      "ap_detected_entity_types ap = join_types (set (map d_entity_type dets) \<union> logs)"
      "ds_cache st' = complete (dr_request_id req) resp (en_now env) (ds_cache ?st)"
      "ds_jobs st' = ds_jobs ?st" "ds_tasks st' = ds_tasks ?st"
      by (rule answer_now_known [OF v])
    have dp: "detect_post env req st =
        (Inr (\<lparr>hr_status = the (code_status (r_code resp)), hr_content = resp\<rparr>, ap), st')"
      unfolding detect_post_fresh [OF a(1-3)] g if_not_P [OF False] e(1,4) by (simp add: release_on_raise_def)
    show ?thesis
      by (rule that [OF dp d(1) e(5,6) v _ e(2)]) (use False e(3,4,7-9) in auto)
  qed
qed

section \<open>Properties of the endpoint\<close>

text \<open>Sample data for the witnesses.\<close>

definition demo_engine :: analyzer where
  "demo_engine txt =
     (if length txt < 14 then Inr []
      else Inr [\<lparr>rr_entity_type = ''KR_RRN'', rr_start = 0, rr_end = 14, rr_score = 95 / 100\<rparr>])"

definition demo_env :: detect_env where
  "demo_env = \<lparr>en_exception_ips = [], en_blocklist = \<lparr>bs_rows = [], bs_next_id = 1, bs_extensions = [], bs_mimes = []\<rparr>,
     en_scan_enabled = True, en_poc_mode = False, en_runtime = Inl RuntimeError, en_builtin = demo_engine,
     en_timed_out = False, en_job_id = u ''77'', en_now = 1000, en_ms = 12\<rparr>"

definition demo_request :: detect_request where
  "demo_request = \<lparr>dr_request_id = 5, dr_author_ip = show_ipv4 167772167, dr_board_id = u ''qna'',
     dr_title = u ''hello'', dr_body = u ''900101-1234568 is mine'', dr_attachments = None,
     dr_callback_url = None, dr_strictness = Medium\<rparr>"

definition demo_state :: detect_state where
  "demo_state = \<lparr>ds_cache = new_cache DEFAULT_TTL, ds_jobs = [], ds_tasks = [], ds_requests_seen = [],
     ds_detections_seen = []\<rparr>"

lemmas demo_defs = demo_env_def demo_request_def demo_state_def demo_engine_def

lemma demo_runtime: "resolve_runtime demo_env = (demo_engine, None, [])"
  by (simp add: resolve_runtime_def demo_env_def)

lemma demo_analysable: "analysable demo_env demo_request demo_state"
  by (simp add: analysable_def resolve_runtime_def analysis_ok_def engine_ok_def preflight_None has_attachments_def
      MAX_TITLE_LEN_def MAX_BODY_LEN_def view_def new_cache_def cache_ok_def u_def demo_defs)

text \<open>
  C1: the decision of the endpoint.  For a new, valid, analysable post outside PoC mode the handler
  always answers, and its verdict is BLOCK exactly when the author's address is not an exception
  address and some hit kept by the engine reaches the blocking threshold of the strictness without a
  database policy reducing it to PASS, LOG\_ONLY or MASK.  The response echoes the request id and is
  the one stored for replays.
\<close>

theorem detect_blocks_iff:
  assumes "analysable env req st"
  shows "\<exists>resp ap st'. detect_post env req st =
      (Inr (\<lparr>hr_status = the (code_status (r_code resp)), hr_content = resp\<rparr>, ap), st') \<and>
    r_request_id resp = dr_request_id req \<and>
    (r_verdict resp = BLOCK \<longleftrightarrow>
      \<not> is_exception_ip (en_exception_ips env) (dr_author_ip req) \<and>
      (\<exists>r \<in> set (body_hits env req). blocking_hit (dr_strictness req) (policies_of env) r)) \<and>
    fst (reserve (dr_request_id req) (en_now env) (ds_cache st')) =
      (if 0 \<le> ic_ttl (ds_cache st) then (COMPLETED, Some resp) else (NEW, None))"
proof -
  obtain resp ap st' dets logs code where
    d: "detect_post env req st =
       (Inr (\<lparr>hr_status = the (code_status (r_code resp)), hr_content = resp\<rparr>, ap), st')"
    "ds_cache st' = complete (dr_request_id req) resp (en_now env)
       (snd (reserve (dr_request_id req) (en_now env) (ds_cache st)))"
    "r_request_id resp = dr_request_id req"
    "\<not> blocks env req \<and> has_attachments req \<and> en_scan_enabled env \<Longrightarrow> r_verdict resp = PROCESSING"
    "\<not> (\<not> blocks env req \<and> has_attachments req \<and> en_scan_enabled env) \<Longrightarrow>
       r_verdict resp = (if blocks env req then BLOCK else PASS)"
    by (rule detect_post_analysable [OF assms]) blast
  have ok: "cache_ok (ds_cache st')" "ic_ttl (ds_cache st') = ic_ttl (ds_cache st)"
    using assms d(2) by (simp_all add: analysable_def ic.comp_ok ic.res_ok)
  have "view (ds_cache st') (en_now env) (dr_request_id req) =
      (if 0 \<le> ic_ttl (ds_cache st) then Done resp (en_now env) else Free)"
    using d(2) assms by (simp add: complete_view analysable_def ic.res_ok)
  then have "fst (reserve (dr_request_id req) (en_now env) (ds_cache st')) =
      (if 0 \<le> ic_ttl (ds_cache st) then (COMPLETED, Some resp) else (NEW, None))"
    using reserve_outcome [OF ok(1), of "dr_request_id req" "en_now env"] by simp
  moreover have "r_verdict resp = BLOCK \<longleftrightarrow> blocks env req"
    using d(4,5) by (cases "\<not> blocks env req \<and> has_attachments req \<and> en_scan_enabled env") auto
  ultimately show ?thesis
    using d(1,3) unfolding blocks_def by blast
qed

theorem detect_blocks_iff_witness:
  "\<exists>resp ap st'. detect_post demo_env demo_request demo_state =
      (Inr (\<lparr>hr_status = the (code_status (r_code resp)), hr_content = resp\<rparr>, ap), st') \<and>
    r_verdict resp = BLOCK"
proof -
  have "\<exists>r \<in> set (body_hits demo_env demo_request).
      blocking_hit (dr_strictness demo_request) (policies_of demo_env) r"
    by (simp add: body_hits_def policies_of_def resolve_runtime_def kept_hits_def topk_per_span_def
        MAX_DETECTIONS_PER_SPAN_def blocking_hit_no_policy u_def demo_defs)
  moreover have "\<not> is_exception_ip (en_exception_ips demo_env) (dr_author_ip demo_request)"
    by (simp add: is_exception_ip_def demo_defs)
  ultimately show ?thesis
    using detect_blocks_iff [OF demo_analysable] by blast
qed

text \<open>
  C14: cutting to the best three hits per span loses no block.  When no database policy is
  configured, the handler's verdict is BLOCK exactly when any raw hit of the engine on the title or
  on the body reaches the threshold, however many hits share a span.
\<close>

theorem detect_blocks_iff_raw:
  assumes "analysable env req st" "resolve_runtime env = (engine, shadow, [])"
    and "dr_title req \<noteq> []" "engine (dr_title req) = Inr th"
    and "dr_body req \<noteq> []" "engine (dr_body req) = Inr bh"
    and "\<not> is_exception_ip (en_exception_ips env) (dr_author_ip req)"
  shows "\<exists>hr ap. fst (detect_post env req st) = Inr (hr, ap) \<and>
    (r_verdict (hr_content hr) = BLOCK \<longleftrightarrow>
       (\<exists>r \<in> set th \<union> set bh. BLOCK_THRESHOLD (dr_strictness req) \<le> rr_score r))"
proof -
  have "0 < MAX_DETECTIONS_PER_SPAN" by (simp add: MAX_DETECTIONS_PER_SPAN_def)
  note topk = topk_blocking_no_policy [OF this]
  have b: "blocks env req \<longleftrightarrow> (\<exists>r \<in> set th \<union> set bh. BLOCK_THRESHOLD (dr_strictness req) \<le> rr_score r)"
    using topk [of th "dr_strictness req"] topk [of bh "dr_strictness req"] assms(2-7)
    by (simp add: blocks_def body_hits_def policies_of_def kept_hits_def) blast
  obtain resp ap st' where
    d: "detect_post env req st =
       (Inr (\<lparr>hr_status = the (code_status (r_code resp)), hr_content = resp\<rparr>, ap), st')"
    "\<not> blocks env req \<and> has_attachments req \<and> en_scan_enabled env \<Longrightarrow> r_verdict resp = PROCESSING"
    "\<not> (\<not> blocks env req \<and> has_attachments req \<and> en_scan_enabled env) \<Longrightarrow>
       r_verdict resp = (if blocks env req then BLOCK else PASS)"
    by (rule detect_post_analysable [OF assms(1)]) blast
  have "r_verdict resp = BLOCK \<longleftrightarrow> blocks env req"
    using d(2,3) by (cases "\<not> blocks env req \<and> has_attachments req \<and> en_scan_enabled env") auto
  with b d(1) show ?thesis by simp
qed

theorem detect_blocks_iff_raw_witness:
  "\<exists>hr ap. fst (detect_post demo_env demo_request demo_state) = Inr (hr, ap) \<and>
     r_verdict (hr_content hr) = BLOCK"
proof -
  have "engine_ok demo_engine [] \<and> \<not> is_exception_ip (en_exception_ips demo_env) (dr_author_ip demo_request)"
    by (simp add: is_exception_ip_def engine_ok_def demo_defs)
  then show ?thesis
    using detect_blocks_iff_raw [OF demo_analysable demo_runtime, of "[]"
        "[\<lparr>rr_entity_type = ''KR_RRN'', rr_start = 0, rr_end = 14, rr_score = 95 / 100\<rparr>]"]
    by (simp add: u_def demo_defs)
qed

text \<open>
  C12: an exception address is observed but never blocked.  Whatever the analysis of its author's
  post finds, the answer is OK-0000 or, with attachments to scan, ACK-3001 with a job marked
  audit-only; the response and the audit payload still carry every detection, and the types a
  LOG\_ONLY policy swallowed are in the audit payload.
\<close>

theorem exception_ip_observed:
  assumes "analysable env req st" "is_exception_ip (en_exception_ips env) (dr_author_ip req)"
    and "analyze_body env req = Inr (dets, logs)"
  shows "\<exists>resp status ap st'. detect_post env req st =
      (Inr (\<lparr>hr_status = status, hr_content = resp\<rparr>, ap), st') \<and>
    r_verdict resp \<in> {PASS, PROCESSING} \<and> r_detections resp = dets \<and>
    ap_detected_entity_types ap = join_types (set (map d_entity_type dets) \<union> logs) \<and>
    (has_attachments req \<and> en_scan_enabled env \<longrightarrow>
       (\<exists>jid code. ds_tasks st' = ds_tasks st @ [Attachment_job jid (dr_request_id req)
          (the (dr_attachments req)) (dr_callback_url req) code ''PASS'' (dr_strictness req) True False]))"
proof -
  have nb: "\<not> blocks env req" using assms(2) by (simp add: blocks_def)
  obtain resp ap st' dets' logs' code where
    d: "detect_post env req st =
       (Inr (\<lparr>hr_status = the (code_status (r_code resp)), hr_content = resp\<rparr>, ap), st')"
    "analyze_body env req = Inr (dets', logs')" "r_detections resp = dets'"
    "ap_detected_entity_types ap = join_types (set (map d_entity_type dets') \<union> logs')"
    "has_attachments req \<and> en_scan_enabled env \<Longrightarrow> r_verdict resp = PROCESSING \<and>
       ds_tasks st' = ds_tasks st @ [Attachment_job (u ''job_'' @ en_job_id env) (dr_request_id req)
         (the (dr_attachments req)) (dr_callback_url req) code ''PASS'' (dr_strictness req) True False]"
    "\<not> (has_attachments req \<and> en_scan_enabled env) \<Longrightarrow> r_verdict resp = PASS"
    by (rule detect_post_analysable [OF assms(1)]) (use nb assms(2) in simp)
  with assms(3) show ?thesis
    by (cases "has_attachments req \<and> en_scan_enabled env") auto
qed

definition demo_exempt :: detect_env where
  "demo_exempt = demo_env\<lparr>en_exception_ips := [show_cidr4 167772160 8]\<rparr>"

theorem exception_ip_observed_witness:
  "\<exists>resp status ap st'. detect_post demo_exempt demo_request demo_state =
      (Inr (\<lparr>hr_status = status, hr_content = resp\<rparr>, ap), st') \<and>
    r_verdict resp \<in> {PASS, PROCESSING} \<and> map d_entity_type (r_detections resp) = [''KR_RRN'']"
proof -
  have a: "analysable demo_exempt demo_request demo_state"
    using demo_analysable
    by (simp add: analysable_def analysis_ok_def resolve_runtime_def preflight_None has_attachments_def
        demo_exempt_def demo_request_def demo_env_def)
  have e: "is_exception_ip (en_exception_ips demo_exempt) (dr_author_ip demo_request)"
    using cidr_has_show [of 8 167772167 167772160]
    by (simp add: is_exception_ip_iff ip_address_show demo_exempt_def demo_request_def)
  have "analysis_ok demo_exempt demo_request" using a by (simp add: analysable_def)
  then obtain dets logs where "analyze_body demo_exempt demo_request = Inr (dets, logs)"
    "map d_entity_type dets = map rr_entity_type (filter (visible_hit (dr_strictness demo_request)
       (policies_of demo_exempt)) (body_hits demo_exempt demo_request))"
    by (rule analyze_body_eq) blast
  moreover have "map rr_entity_type (filter (visible_hit (dr_strictness demo_request)
       (policies_of demo_exempt)) (body_hits demo_exempt demo_request)) = [''KR_RRN'']"
    by (simp add: demo_exempt_def body_hits_def policies_of_def resolve_runtime_def kept_hits_def
        topk_per_span_def visible_hit_def
        MAX_DETECTIONS_PER_SPAN_def MIN_REPORTABLE_SCORE_def resolve_hit_no_policy u_def demo_defs)
  ultimately show ?thesis
    using exception_ip_observed [OF a e] by metis
qed

lemma detect_post_replay:
  assumes "fst (reserve (dr_request_id req) (en_now env) (ds_cache st)) = (COMPLETED, Some resp)"
    and "code_verdict (r_code resp) = Some v"
  obtains ap st' where "detect_post env req st =
      (Inr (\<lparr>hr_status = the (code_status (r_code resp)), hr_content = resp\<rparr>, ap), st')"
    "ap_response_code ap = r_code resp"
    "ds_jobs st' = ds_jobs st" "ds_tasks st' = ds_tasks st"
proof -
  obtain c where c: "reserve (dr_request_id req) (en_now env) (ds_cache st) = ((COMPLETED, Some resp), c)"
    using assms(1) by (cases "reserve (dr_request_id req) (en_now env) (ds_cache st)") simp
  obtain ap st' where e: "detect_envelope resp (r_detections resp) {} {} (st\<lparr>ds_cache := c\<rparr>) =
      (Inr (\<lparr>hr_status = the (code_status (r_code resp)), hr_content = resp\<rparr>, ap), st')"
    "ap_response_code ap = r_code resp"
    "ap_detected_entity_types ap = join_types (set (map d_entity_type (r_detections resp)) \<union> {})"
    "ds_cache st' = ds_cache (st\<lparr>ds_cache := c\<rparr>)" "ds_jobs st' = ds_jobs (st\<lparr>ds_cache := c\<rparr>)"
    "ds_tasks st' = ds_tasks (st\<lparr>ds_cache := c\<rparr>)"
    by (rule detect_envelope_known [OF assms(2)])
  show ?thesis
    by (rule that [of ap st']) (use e in \<open>simp_all add: detect_post_def Let_def c\<close>)
qed

text \<open>
  C3: a retry gets the same answer and starts nothing.  After a post was answered, any later post
  with its request id inside the TTL, even with other content and with any interleaved reservations,
  releases and completions of other requests, is answered with the identical status and body; no job
  is inserted and no task started.
\<close>

theorem retry_is_idempotent:
  assumes "analysable env req st" "0 \<le> ic_ttl (ds_cache st)"
    and "detect_post env req st = (Inr (hr, ap), st1)"
    and "ds_cache st2 = fold run_event es (ds_cache st1)"
    and "list_all (harmless_done (dr_request_id req) (en_now env + ic_ttl (ds_cache st))) es"
    and "dr_request_id req' = dr_request_id req" "en_now env' \<le> en_now env + ic_ttl (ds_cache st)"
  shows "\<exists>ap' st3. detect_post env' req' st2 = (Inr (hr, ap'), st3) \<and>
           ds_jobs st3 = ds_jobs st2 \<and> ds_tasks st3 = ds_tasks st2"
proof -
  let ?c = "snd (reserve (dr_request_id req) (en_now env) (ds_cache st))"
  obtain resp code where
    d: "hr = \<lparr>hr_status = the (code_status (r_code resp)), hr_content = resp\<rparr>"
    "code_verdict code = Some (if blocks env req then BLOCK else PASS)"
    "ds_cache st1 = complete (dr_request_id req) resp (en_now env) ?c"
    "r_code resp = ''ACK-3001'' \<or> r_code resp = code"
    by (rule detect_post_analysable [OF assms(1)]) (use assms(3) in auto)
  have c: "cache_ok ?c" "ic_ttl ?c = ic_ttl (ds_cache st)"
    using assms(1) by (simp_all add: analysable_def ic.res_ok)
  have "fst (reserve (dr_request_id req') (en_now env') (ds_cache st2)) = (COMPLETED, Some resp)"
    unfolding assms(4,6) d(3) run_event_step
    by (rule ic.replay [OF c(1)]) (use assms(2,5,7) c(2) in simp_all)
  moreover have "\<exists>v. code_verdict (r_code resp) = Some v"
    using d(2,4) by auto
  ultimately show ?thesis
    using detect_post_replay d(1) by metis
qed

theorem retry_is_idempotent_witness:
  "\<exists>hr ap st1 ap' st3. detect_post demo_env demo_request demo_state = (Inr (hr, ap), st1) \<and>
     detect_post (demo_env\<lparr>en_now := 2000\<rparr>) (demo_request\<lparr>dr_body := []\<rparr>) st1 = (Inr (hr, ap'), st3) \<and>
     ds_tasks st3 = ds_tasks st1"
proof -
  obtain hr ap st1 where h: "detect_post demo_env demo_request demo_state = (Inr (hr, ap), st1)"
    by (rule detect_post_analysable [OF demo_analysable]) blast
  show ?thesis
    using h retry_is_idempotent [OF demo_analysable _ h, of st1 "[]" "demo_request\<lparr>dr_body := []\<rparr>"
        "demo_env\<lparr>en_now := 2000\<rparr>"]
    by (simp add: demo_defs new_cache_def DEFAULT_TTL_def) blast
qed

text \<open>
  C13: a rejected post blocks its own retry.  When a new post fails a pre-flight check or its analysis
  times out, the caller gets the error code, but the reservation stays: every corrected retry with
  the same request id inside the TTL is answered REQ-4005 (already in progress) and is not analysed.
\<close>

theorem rejected_post_stays_reserved:
  assumes "\<not> en_poc_mode env" "cache_ok (ds_cache st)" "0 \<le> ic_ttl (ds_cache st)"
    and "view (ds_cache st) (en_now env) (dr_request_id req) = Free"
    and "preflight env req \<noteq> None \<or> en_timed_out env"
    and "dr_request_id req' = dr_request_id req"
    and "en_now env' \<le> en_now env + ic_ttl (ds_cache st)"
  shows "\<exists>hr ap st1 hr' ap' st2. detect_post env req st = (Inr (hr, ap), st1) \<and>
     r_verdict (hr_content hr) = ERROR \<and>
     detect_post env' req' st1 = (Inr (hr', ap'), st2) \<and> r_code (hr_content hr') = ''REQ-4005''"
proof -
  let ?c = "snd (reserve (dr_request_id req) (en_now env) (ds_cache st))"
  let ?ao = "is_exception_ip (en_exception_ips env) (dr_author_ip req)"
  obtain code vars where g: "guarded env req ?ao (st\<lparr>ds_cache := ?c\<rparr>) =
      detect_error env req code vars (st\<lparr>ds_cache := ?c\<rparr>)" and v: "code_verdict code = Some ERROR"
  proof (cases "preflight env req")
    case None
    with assms(5) that [of "''SVR-5006''" "[]"] show ?thesis by (simp add: guarded_def)
  next
    case (Some cv)
    with that [of "fst cv" "snd cv"] preflight_code_verdict [of env req "fst cv" "snd cv"]
    show ?thesis by (simp add: guarded_def split: prod.splits)
  qed
  obtain resp ap st1 where e: "detect_error env req code vars (st\<lparr>ds_cache := ?c\<rparr>) =
      (Inr (\<lparr>hr_status = the (code_status code), hr_content = resp\<rparr>, ap), st1)"
    "r_request_id resp = dr_request_id req" "r_verdict resp = ERROR" "r_code resp = code" "r_detections resp = []"
    "ds_cache st1 = ds_cache (st\<lparr>ds_cache := ?c\<rparr>)" "ds_jobs st1 = ds_jobs (st\<lparr>ds_cache := ?c\<rparr>)"
    "ds_tasks st1 = ds_tasks (st\<lparr>ds_cache := ?c\<rparr>)"
    by (rule detect_error_known [OF v])
  have "fst (reserve (dr_request_id req) (en_now env) (ds_cache st)) = (NEW, None)"
    using reserve_outcome [OF assms(2), of "dr_request_id req" "en_now env"] assms(4) by simp
  from ic.single_flight [OF assms(2,3) this, of "[]" "en_now env'"] assms(7)
  have "fst (reserve (dr_request_id req') (en_now env') (ds_cache st1)) = (IN_PROGRESS, None)"
    using e(6) assms(6) by simp
  then obtain c' where c': "reserve (dr_request_id req') (en_now env') (ds_cache st1) = ((IN_PROGRESS, None), c')"
    by (cases "reserve (dr_request_id req') (en_now env') (ds_cache st1)") simp
  have r: "code_verdict ''REQ-4005'' = Some ERROR" by simp
  obtain hr' ap' st2 where "detect_error env' req' ''REQ-4005'' [] (st1\<lparr>ds_cache := c'\<rparr>) = (Inr (hr', ap'), st2)"
    "r_code (hr_content hr') = ''REQ-4005''"
    by (rule detect_error_known [OF r, of env' req' "[]" "st1\<lparr>ds_cache := c'\<rparr>"]) auto
  then have "detect_post env' req' st1 = (Inr (hr', ap'), st2)"
    by (simp add: detect_post_def Let_def c')
  moreover have "detect_post env req st =
      (Inr (\<lparr>hr_status = the (code_status code), hr_content = resp\<rparr>, ap), st1)"
    unfolding detect_post_fresh [OF assms(2,4,1)] g e(1) by (simp add: release_on_raise_def)
  ultimately show ?thesis
    using e(3) \<open>r_code (hr_content hr') = _\<close> by (metis http_response.select_convs(2))
qed

theorem rejected_post_stays_reserved_witness:
  "\<exists>hr ap st1 hr' ap' st2.
     detect_post (demo_env\<lparr>en_timed_out := True\<rparr>) demo_request demo_state = (Inr (hr, ap), st1) \<and>
     r_verdict (hr_content hr) = ERROR \<and>
     detect_post (demo_env\<lparr>en_now := 1060\<rparr>) demo_request st1 = (Inr (hr', ap'), st2) \<and>
     r_code (hr_content hr') = ''REQ-4005''"
  by (rule rejected_post_stays_reserved)
    (simp_all add: demo_defs new_cache_def DEFAULT_TTL_def cache_ok_def view_def)

text \<open>
  An engine crash frees the request id.  When the analysis raises anything but a timeout, the
  exception propagates, no answer is stored, nothing is enqueued, and a retry with the same request
  id is treated as new.
\<close>

theorem crash_releases_reservation:
  assumes "\<not> en_poc_mode env" "cache_ok (ds_cache st)"
    and "view (ds_cache st) (en_now env) (dr_request_id req) = Free"
    and "preflight env req = None" "\<not> en_timed_out env"
    and "analyze_body env req = Inl e" "e \<noteq> TimeoutError"
  shows "\<exists>st'. detect_post env req st = (Inl e, st') \<and> ds_jobs st' = ds_jobs st \<and>
           ds_tasks st' = ds_tasks st \<and>
           (\<forall>t \<ge> en_now env. fst (reserve (dr_request_id req) t (ds_cache st')) = (NEW, None))"
proof -
  let ?k = "dr_request_id req"
  let ?c = "snd (reserve ?k (en_now env) (ds_cache st))"
  let ?st' = "st\<lparr>ds_cache := release ?k ?c\<rparr>"
  have "detect_post env req st = (Inl e, ?st')"
    unfolding detect_post_fresh [OF assms(2,3,1)] using assms(4-7)
    by (simp add: guarded_def release_on_raise_def)
  moreover have ok: "cache_ok ?c" "cache_ok (release ?k ?c)"
    using assms(2) by (simp_all add: ic.res_ok ic.rel_ok)
  have "view ?c (en_now env) ?k \<noteq> Done r t" for r t
    using reserve_view [of ?k "en_now env" "ds_cache st" ?k] assms(3) by auto
  then have "view (release ?k ?c) (en_now env) ?k = Free"
    using release_view [OF ok(1), of ?k "en_now env" ?k] by simp
  then have "view (release ?k ?c) t ?k = Free" if "en_now env \<le> t" for t
    using ic.expiry_Free [OF ok(2)] that by blast
  then have "\<forall>t \<ge> en_now env. fst (reserve ?k t (ds_cache ?st')) = (NEW, None)"
    using reserve_outcome [OF ok(2)] by simp
  ultimately show ?thesis by auto
qed

theorem crash_releases_reservation_witness:
  "\<exists>st'. detect_post (demo_env\<lparr>en_builtin := (\<lambda>t. Inl RuntimeError)\<rparr>) demo_request demo_state =
      (Inl RuntimeError, st') \<and> ds_tasks st' = [] \<and> fst (reserve 5 1000 (ds_cache st')) = (NEW, None)"
proof -
  let ?env = "demo_env\<lparr>en_builtin := (\<lambda>t. Inl RuntimeError)\<rparr>"
  have p: "preflight ?env demo_request = None"
    by (simp add: preflight_None has_attachments_def MAX_TITLE_LEN_def MAX_BODY_LEN_def u_def demo_defs)
  have a: "analyze_body ?env demo_request = Inl RuntimeError"
    by (simp add: analyze_body_def resolve_runtime_def analyze_field_full_def u_def demo_defs)
  have "view (ds_cache demo_state) (en_now ?env) (dr_request_id demo_request) = Free"
    "cache_ok (ds_cache demo_state)" "\<not> en_poc_mode ?env" "\<not> en_timed_out ?env"
    "dr_request_id demo_request = 5" "en_now ?env = 1000" "ds_tasks demo_state = []"
    by (simp_all add: demo_defs new_cache_def view_def cache_ok_def)
  then show ?thesis
    using crash_releases_reservation [of ?env demo_state demo_request, OF _ _ _ p _ a] by auto
qed

text \<open>
  C8: what an accepted asynchronous request guarantees.  When the answer to an analysable post is
  ACK-3001, exactly one job was inserted, pending and under the id the answer names, exactly one
  worker task was started for it with the post's attachments, there are between one and five
  attachments, each of at most 20 MiB and of a supported type, none on the deny list unless the
  author is exempt, and the caller gave a callback address.
\<close>

theorem case_c_accepts:
  assumes "analysable env req st" "detect_post env req st = (Inr (hr, ap), st')"
    and "r_code (hr_content hr) = ''ACK-3001''"
  shows "\<exists>code v job_id as url.
     hr_status hr = 202 \<and> r_verdict (hr_content hr) = PROCESSING \<and> v \<noteq> BLOCK \<and>
     map_option ji_job_id (r_job (hr_content hr)) = Some job_id \<and>
     code_verdict code = Some v \<and>
     ds_jobs st' = ds_jobs st @ [pending_job env req code] \<and>
     get_job (ds_jobs st') job_id = Some (pending_job env req code) \<and>
     dr_attachments req = Some as \<and> dr_callback_url req = Some url \<and> url \<noteq> [] \<and>
     (\<exists>ao. ds_tasks st' = ds_tasks st @ [Attachment_job job_id (dr_request_id req) as (Some url) code
        (verdict_value v) (dr_strictness req) ao False]) \<and>
     1 \<le> length as \<and> length as \<le> 5 \<and>
     (\<forall>a \<in> set as. at_size_bytes a \<le> 20 * 1024 * 1024 \<and> at_mime_type a \<in> u ` set SUPPORTED_MIME_TYPES \<and>
        (is_exception_ip (en_exception_ips env) (dr_author_ip req) \<or>
         \<not> fst (is_blocked (en_blocklist env) (at_filename a) (at_mime_type a))))"
proof -
  let ?jid = "u ''job_'' @ en_job_id env"
  obtain resp st1 ap' code where
    d: "detect_post env req st =
       (Inr (\<lparr>hr_status = the (code_status (r_code resp)), hr_content = resp\<rparr>, ap'), st1)"
    "code_verdict code = Some (if blocks env req then BLOCK else PASS)"
    "\<not> blocks env req \<and> has_attachments req \<and> en_scan_enabled env \<Longrightarrow> r_verdict resp = PROCESSING \<and>
       ds_jobs st1 = ds_jobs st @ [pending_job env req code] \<and>
       ds_tasks st1 = ds_tasks st @ [Attachment_job ?jid (dr_request_id req)
         (the (dr_attachments req)) (dr_callback_url req) code ''PASS'' (dr_strictness req)
         (is_exception_ip (en_exception_ips env) (dr_author_ip req)) False] \<and>
       map_option ji_job_id (r_job resp) = Some ?jid"
    "\<not> (\<not> blocks env req \<and> has_attachments req \<and> en_scan_enabled env) \<Longrightarrow> r_code resp = code"
    by (rule detect_post_analysable [OF assms(1)]) blast
  have hr: "hr = \<lparr>hr_status = 202, hr_content = resp\<rparr>" "r_code resp = ''ACK-3001''" "st1 = st'"
    using assms(2,3) d(1) by auto
  have c: "\<not> blocks env req \<and> has_attachments req \<and> en_scan_enabled env"
  proof (rule ccontr)
    assume "\<not> ?thesis"
    with d(4) hr(2) have "code = ''ACK-3001''" by blast
    with d(2) show False by (simp split: if_splits)
  qed
  have p: "preflight env req = None" and fresh: "?jid \<notin> set (map ej_job_id (ds_jobs st))"
    using assms(1) by (simp_all add: analysable_def)
  obtain as url where as: "dr_attachments req = Some as" "dr_callback_url req = Some url" "url \<noteq> []"
    "1 \<le> length as" "length as \<le> 5"
    "list_all (attachment_accepted env (is_exception_ip (en_exception_ips env) (dr_author_ip req))) as"
    using p c by (cases "dr_attachments req"; cases "dr_callback_url req")
      (auto simp: preflight_None has_attachments_def MAX_ATTACHMENTS_def Suc_le_eq)
  have "create_job (pending_job env req code) (ds_jobs st) = Inr (ds_jobs st @ [pending_job env req code])"
    using fresh by (simp add: create_job_def pending_job_def)
  from get_job_create [OF this, of ?jid]
  have "get_job (ds_jobs st @ [pending_job env req code]) ?jid = Some (pending_job env req code)"
    by (simp add: pending_job_def)
  moreover have "\<forall>a \<in> set as. at_size_bytes a \<le> 20 * 1024 * 1024 \<and> at_mime_type a \<in> u ` set SUPPORTED_MIME_TYPES \<and>
        (is_exception_ip (en_exception_ips env) (dr_author_ip req) \<or>
         \<not> fst (is_blocked (en_blocklist env) (at_filename a) (at_mime_type a)))"
    using as(6) by (simp add: list_all_iff attachment_accepted_def MAX_ATTACHMENT_BYTES_def MAX_ATTACHMENT_MB_def)
  ultimately show ?thesis
    using d(2) d(3) [OF c] c hr as(1-5)
    by (intro exI [of _ code] exI [of _ PASS] exI [of _ ?jid] exI [of _ as] exI [of _ url]) simp
qed

definition demo_upload :: detect_request where
  "demo_upload = demo_request\<lparr>dr_body := u ''see file'', dr_callback_url := Some (u ''https://b/cb''),
     dr_attachments := Some [\<lparr>at_attachment_id = u ''a1'', at_filename = u ''cv.txt'', at_size_bytes = 9,
       at_mime_type = u ''text/plain'', at_sha256 = u ''00'', at_fetch_url = u ''https://b/a1''\<rparr>]\<rparr>"

lemma demo_upload_analysable: "analysable demo_env demo_upload demo_state"
  by (simp add: analysable_def resolve_runtime_def analysis_ok_def engine_ok_def preflight_None
      has_attachments_def attachment_accepted_def is_blocked_def Let_def SUPPORTED_MIME_TYPES_def
      MAX_TITLE_LEN_def MAX_BODY_LEN_def MAX_ATTACHMENTS_def MAX_ATTACHMENT_BYTES_def MAX_ATTACHMENT_MB_def
      view_def new_cache_def cache_ok_def u_def demo_upload_def demo_defs)

theorem case_c_accepts_witness:
  "\<exists>hr ap st' job_id code. detect_post demo_env demo_upload demo_state = (Inr (hr, ap), st') \<and>
     hr_status hr = 202 \<and> get_job (ds_jobs st') job_id = Some (pending_job demo_env demo_upload code)"
proof -
  have "\<not> blocks demo_env demo_upload"
    by (simp add: blocks_def body_hits_def resolve_runtime_def kept_hits_def topk_per_span_def u_def
        demo_upload_def demo_defs)
  then have c: "\<not> blocks demo_env demo_upload \<and> has_attachments demo_upload \<and> en_scan_enabled demo_env"
    by (simp add: has_attachments_def demo_upload_def demo_env_def)
  obtain hr ap st' where h: "detect_post demo_env demo_upload demo_state = (Inr (hr, ap), st')"
    "r_code (hr_content hr) = ''ACK-3001''"
    by (rule detect_post_analysable [OF demo_upload_analysable]) (use c in auto)
  from case_c_accepts [OF demo_upload_analysable h] h(1) show ?thesis by metis
qed

section \<open>PoC mode\<close>

lemma resolve_runtime_poc: "resolve_runtime (env\<lparr>en_poc_mode := b\<rparr>) = resolve_runtime env"
  by (cases "en_runtime env") (simp_all add: resolve_runtime_def)

lemma detect_post_poc:
  assumes "cache_ok (ds_cache st)" "view (ds_cache st) (en_now env) (dr_request_id req) = Free" "en_poc_mode env"
  obtains resp ap st' where "detect_post env req st = (Inr (\<lparr>hr_status = 200, hr_content = resp\<rparr>, ap), st')"
    "r_verdict resp = PASS" "r_code resp = ''OK-0000''" "r_detections resp = []"
    "r_request_id resp = dr_request_id req" "ds_jobs st' = ds_jobs st"
    "ds_tasks st' = ds_tasks st @ [Poc_shadow req (is_exception_ip (en_exception_ips env) (dr_author_ip req))]"
proof -
  have v: "code_verdict ''OK-0000'' = Some PASS" by simp
  obtain resp where r: "build_response (dr_request_id req) ''OK-0000'' [] (en_ms env) [] None None (en_now env) = Inr resp"
    "r_request_id resp = dr_request_id req" "r_verdict resp = PASS" "r_code resp = ''OK-0000''"
    "r_detections resp = []" "r_body_result resp = None" "r_job resp = None"
    by (rule build_response_verdict [OF v])
  obtain c where c: "reserve (dr_request_id req) (en_now env) (ds_cache st) = ((NEW, None), c)"
    using reserve_outcome [OF assms(1), of "dr_request_id req" "en_now env"] assms(2)
    by (cases "reserve (dr_request_id req) (en_now env) (ds_cache st)") simp
  let ?st1 = "st\<lparr>ds_cache := complete (dr_request_id req) resp (en_now env) c,
      ds_tasks := ds_tasks st @ [Poc_shadow req (is_exception_ip (en_exception_ips env) (dr_author_ip req))]\<rparr>"
  have dp: "detect_post env req st = detect_envelope resp [] {} {} ?st1"
    using assms(3) r(1) by (simp add: detect_post_def Let_def c)
  have "code_verdict (r_code resp) = Some PASS" using r(4) by simp
  then obtain ap st' where "detect_envelope resp [] {} {} ?st1 =
      (Inr (\<lparr>hr_status = the (code_status (r_code resp)), hr_content = resp\<rparr>, ap), st')"
    "ap_response_code ap = r_code resp"
    "ap_detected_entity_types ap = join_types (set (map d_entity_type ([] :: detection list)) \<union> {})"
    "ds_cache st' = ds_cache ?st1" "ds_jobs st' = ds_jobs ?st1" "ds_tasks st' = ds_tasks ?st1"
    by (rule detect_envelope_known)
  then show ?thesis
    by (intro that [of resp ap st']) (use dp r in simp_all)
qed

text \<open>
  PoC mode compares without interfering.  A new post in PoC mode is answered OK-0000 with no
  detections whatever its content, even an oversized one, and no job is created before the answer;
  the background task it starts records, for a post the enforcing handler would analyse, exactly the
  code that handler would have answered with.
\<close>

theorem poc_mode_shadows:
  assumes "analysable env req st" "\<not> has_attachments req"
    and "\<not> is_exception_ip (en_exception_ips env) (dr_author_ip req)"
  shows "\<exists>hr ap st1. detect_post (env\<lparr>en_poc_mode := True\<rparr>) req st = (Inr (hr, ap), st1) \<and>
     r_verdict (hr_content hr) = PASS \<and> r_detections (hr_content hr) = [] \<and> ds_jobs st1 = ds_jobs st \<and>
     ds_tasks st1 = ds_tasks st @ [Poc_shadow req False] \<and>
     (\<exists>entry hr' ap' st2. poc_shadow_process (env\<lparr>en_poc_mode := True\<rparr>) req False st1 = ([entry], st1) \<and>
        detect_post env req st = (Inr (hr', ap'), st2) \<and>
        pe_actual_code entry = r_code (hr_content hr') \<and>
        pe_actual_verdict entry = verdict_value (r_verdict (hr_content hr')))"
proof -
  let ?env = "env\<lparr>en_poc_mode := True\<rparr>"
  have a: "cache_ok (ds_cache st)" "view (ds_cache st) (en_now env) (dr_request_id req) = Free"
    "\<not> en_poc_mode env" "preflight env req = None" "analysis_ok env req" "\<not> en_timed_out env"
    using assms(1) by (simp_all add: analysable_def analysis_ok_def)
  obtain resp ap st1 where p: "detect_post ?env req st = (Inr (\<lparr>hr_status = 200, hr_content = resp\<rparr>, ap), st1)"
    "r_verdict resp = PASS" "r_code resp = ''OK-0000''" "r_detections resp = []"
    "r_request_id resp = dr_request_id req" "ds_jobs st1 = ds_jobs st"
    "ds_tasks st1 = ds_tasks st @ [Poc_shadow req (is_exception_ip (en_exception_ips ?env) (dr_author_ip req))]"
    by (rule detect_post_poc [of st ?env req]) (use a in auto)
  obtain dets logs code where d: "analyze_body env req = Inr (dets, logs)" "decide_body_code dets = Inr code"
    "code_verdict code = Some (if \<exists>r \<in> set (body_hits env req).
       blocking_hit (dr_strictness req) (policies_of env) r then BLOCK else PASS)"
    by (rule decide_analyzed [OF a(5)])
  then obtain rc where rc: "get_code code = Inr rc" by (auto elim: code_verdictE)
  then have v: "code_verdict code = Some (rc_verdict rc)" by (rule get_code_verdict)
  let ?st = "st\<lparr>ds_cache := snd (reserve (dr_request_id req) (en_now env) (ds_cache st))\<rparr>"
  let ?sh = "run_shadow (fst (snd (resolve_runtime env))) req (set (map d_entity_type dets) \<union> logs)"
  obtain resp' ap' st2 where e: "answer_now env req code dets logs ?sh ?st =
        (Inr (\<lparr>hr_status = the (code_status code), hr_content = resp'\<rparr>, ap'), st2)"
      "r_verdict resp' = rc_verdict rc" "r_code resp' = code"
    by (rule answer_now_known [OF v, of env req dets logs ?sh ?st]) blast
  have "detect_post env req st = (Inr (\<lparr>hr_status = the (code_status code), hr_content = resp'\<rparr>, ap'), st2)"
    using assms(2,3) a(4,6) d(1,2) rc e(1)
    by (simp add: detect_post_fresh [OF a(1-3)] guarded_def Let_def release_on_raise_def)
  moreover have "analyze_body ?env req = Inr (dets, logs)"
    using d(1) by (simp add: analyze_body_def resolve_runtime_poc)
  then have "\<exists>entry. poc_shadow_process ?env req False st1 = ([entry], st1) \<and>
      pe_actual_code entry = code \<and> pe_actual_verdict entry = verdict_value (rc_verdict rc)"
    using a(4) assms(2) d(2) rc
    by (auto simp: preflight_None poc_shadow_process_def log_body_decision_def Let_def)
  ultimately show ?thesis
    using p e(2,3) assms(3) by fastforce
qed

theorem poc_mode_shadows_witness:
  "\<exists>hr ap st1 entry. detect_post (demo_env\<lparr>en_poc_mode := True\<rparr>) demo_request demo_state = (Inr (hr, ap), st1) \<and>
     r_verdict (hr_content hr) = PASS \<and> poc_shadow_process (demo_env\<lparr>en_poc_mode := True\<rparr>) demo_request False st1 = ([entry], st1)"
proof -
  have "\<not> has_attachments demo_request" "\<not> is_exception_ip (en_exception_ips demo_env) (dr_author_ip demo_request)"
    by (simp_all add: has_attachments_def is_exception_ip_def demo_defs)
  from poc_mode_shadows [OF demo_analysable this] show ?thesis by blast
qed

end
