(* ===== verification/Json.thy ===== *)
theory Json
  imports Py_Unicode Sha256
begin

text \<open>
  The part of Python's \<^verbatim>\<open>json\<close> module that the gateway uses: \<open>loads\<close> with its error cases, including
  the recursion limit of the scanner, and \<open>dumps\<close> with and without indentation.  Numbers with a
  fraction or an exponent are decimals (an integer over a power of ten); binary rounding is not
  modelled.  The main lemma is the round trip \<open>loads_dumps\<close>.
\<close>

section \<open>Values and errors\<close>

datatype json =
    JNull
  | JBool bool
  | JInt int
  | JDec int nat
  | JSpecial string
  | JStr ustr
  | JArr "json list"
  | JObj "(ustr \<times> json) list"

text \<open>
  \<open>JSONDecodeError\<close> is a \<^verbatim>\<open>ValueError\<close>; an integer literal of more than 4300 digits raises a plain
  \<^verbatim>\<open>ValueError\<close>; nesting beyond the interpreter's limit raises \<^verbatim>\<open>RecursionError\<close>, which is neither.
\<close>

datatype jerr = JSONDecodeError | IntTooLong | RecursionError

section \<open>Printing\<close>

definition json_char :: "nat \<Rightarrow> ustr" where
  "json_char c =
     (if c = 34 \<or> c = 92 then [92, c]
      else if c = 8 then [92, 98] else if c = 9 then [92, 116] else if c = 10 then [92, 110]
      else if c = 12 then [92, 102] else if c = 13 then [92, 114]
      else if c < 32 then [92, 117, 48, 48, hex_char (c div 16), hex_char (c mod 16)]
      else [c])"

definition json_str :: "ustr \<Rightarrow> ustr" where
  "json_str s = [34] @ concat (map json_char s) @ [34]"

text \<open>A flat object of strings, as the deletion request sends it.\<close>

definition json_object :: "(string \<times> ustr) list \<Rightarrow> ustr" where
  "json_object kvs =
     u ''{'' @ join (u '', '') (map (\<lambda>(k, v). json_str (u k) @ u '': '' @ json_str v) kvs) @ u ''}''"

definition pad_left :: "nat \<Rightarrow> ustr \<Rightarrow> ustr" where
  "pad_left k ds = replicate (k - length ds) 48 @ ds"

definition show_dec :: "int \<Rightarrow> nat \<Rightarrow> ustr" where
  "show_dec m k =
     (if m < 0 then [45] else []) @ show_nat (nat \<bar>m\<bar> div 10 ^ k) @ [46] @ pad_left k (show_nat (nat \<bar>m\<bar> mod 10 ^ k))"

definition newline :: "nat option \<Rightarrow> nat \<Rightarrow> ustr" where
  "newline indent level = (case indent of None \<Rightarrow> [] | Some k \<Rightarrow> 10 # replicate (k * level) 32)"

definition item_sep :: "nat option \<Rightarrow> nat \<Rightarrow> ustr" where
  "item_sep indent level = (case indent of None \<Rightarrow> [44, 32] | Some k \<Rightarrow> 44 # newline indent level)"

definition wrap :: "nat option \<Rightarrow> nat \<Rightarrow> nat \<Rightarrow> nat \<Rightarrow> ustr list \<Rightarrow> ustr" where
  "wrap indent level lb rb items =
     (if items = [] then [lb, rb]
      else [lb] @ newline indent (Suc level) @ join (item_sep indent (Suc level)) items @ newline indent level @ [rb])"

fun dumps :: "nat option \<Rightarrow> nat \<Rightarrow> json \<Rightarrow> ustr" where
  "dumps indent level JNull = u ''null''"
| "dumps indent level (JBool b) = u (if b then ''true'' else ''false'')"
| "dumps indent level (JInt i) = str_int i"
| "dumps indent level (JDec m k) = show_dec m k"
| "dumps indent level (JSpecial n) = u n"
| "dumps indent level (JStr s) = json_str s"
| "dumps indent level (JArr vs) = wrap indent level 91 93 (map (dumps indent (Suc level)) vs)"
| "dumps indent level (JObj kvs) =
     wrap indent level 123 125 (map (\<lambda>(k, v). json_str k @ [58, 32] @ dumps indent (Suc level) v) kvs)"

section \<open>Parsing\<close>

definition is_ws :: "nat \<Rightarrow> bool" where
  "is_ws c \<longleftrightarrow> c = 32 \<or> c = 9 \<or> c = 10 \<or> c = 13"

definition skip_ws :: "ustr \<Rightarrow> ustr" where
  "skip_ws s = dropWhile is_ws s"

definition hex_value :: "nat \<Rightarrow> nat option" where
  "hex_value c =
     (if 48 \<le> c \<and> c \<le> 57 then Some (c - 48)
      else if 97 \<le> c \<and> c \<le> 102 then Some (c - 87)
      else if 65 \<le> c \<and> c \<le> 70 then Some (c - 55) else None)"

fun hex4 :: "ustr \<Rightarrow> (nat \<times> ustr) option" where
  "hex4 (a # b # c # d # s) =
     (case (hex_value a, hex_value b, hex_value c, hex_value d) of
        (Some w, Some x, Some y, Some z) \<Rightarrow> Some (((w * 16 + x) * 16 + y) * 16 + z, s)
      | _ \<Rightarrow> None)"
| "hex4 _ = None"

lemma hex4_shorter: "hex4 s = Some (h, t) \<Longrightarrow> length t < length s"
  by (cases s rule: hex4.cases) (auto split: option.splits)

definition unescape :: "nat \<Rightarrow> nat option" where
  "unescape e =
     (if e = 34 \<or> e = 92 \<or> e = 47 then Some e
      else if e = 98 then Some 8 else if e = 102 then Some 12 else if e = 110 then Some 10
      else if e = 114 then Some 13 else if e = 116 then Some 9 else None)"

text \<open>A low surrogate escape directly after a high one is combined with it.\<close>

definition low_surrogate :: "nat \<Rightarrow> ustr \<Rightarrow> (nat \<times> ustr) option" where
  "low_surrogate h s =
     (if 55296 \<le> h \<and> h \<le> 56319 \<and> starts_with s [92, 117] then
        (case hex4 (drop 2 s) of
           None \<Rightarrow> None
         | Some (l, t) \<Rightarrow> if 56320 \<le> l \<and> l \<le> 57343 then Some (65536 + (h - 55296) * 1024 + (l - 56320), t) else None)
      else None)"

lemma low_surrogate_shorter: "low_surrogate h s = Some (x, t) \<Longrightarrow> length t < length s"
  by (auto simp: low_surrogate_def dest!: hex4_shorter split: if_splits option.splits)

definition add_char :: "nat \<Rightarrow> jerr + ustr \<times> ustr \<Rightarrow> jerr + ustr \<times> ustr" where
  "add_char c r = (case r of Inl e \<Rightarrow> Inl e | Inr (cs, s) \<Rightarrow> Inr (c # cs, s))"

text \<open>The characters up to the closing quote.\<close>

function parse_chars :: "ustr \<Rightarrow> jerr + ustr \<times> ustr" where
  "parse_chars [] = Inl JSONDecodeError"
| "parse_chars (c # s) =
     (if c = 34 then Inr ([], s)
      else if c = 92 then
        (case s of
           [] \<Rightarrow> Inl JSONDecodeError
         | e # s' \<Rightarrow>
             if e = 117 then
               (case hex4 s' of
                  None \<Rightarrow> Inl JSONDecodeError
                | Some (h, s'') \<Rightarrow>
                    (case low_surrogate h s'' of
                       None \<Rightarrow> add_char h (parse_chars s'')
                     | Some (x, t) \<Rightarrow> add_char x (parse_chars t)))
             else (case unescape e of None \<Rightarrow> Inl JSONDecodeError | Some x \<Rightarrow> add_char x (parse_chars s')))
      else if c < 32 then Inl JSONDecodeError
      else add_char c (parse_chars s))"
  by pat_completeness auto
termination
  by (relation "measure length") (auto dest!: hex4_shorter low_surrogate_shorter)

declare parse_chars.simps(2) [simp del]

definition is09 :: "nat \<Rightarrow> bool" where "is09 c \<longleftrightarrow> 48 \<le> c \<and> c \<le> 57"

definition digits_val :: "ustr \<Rightarrow> nat" where
  "digits_val ds = foldl (\<lambda>n c. 10 * n + (c - 48)) 0 ds"

text \<open>The shortest decimal with at least one digit after the point.\<close>

function norm_dec :: "int \<Rightarrow> nat \<Rightarrow> int \<times> nat" where
  "norm_dec m k = (if 1 < k \<and> m mod 10 = 0 then norm_dec (m div 10) (k - 1) else (m, k))"
  by pat_completeness auto
termination
  by (relation "measure snd") auto

declare norm_dec.simps [simp del]

definition make_dec :: "int \<Rightarrow> nat \<Rightarrow> int \<Rightarrow> json" where
  "make_dec m k e =
     (let (m', k') = (if e \<le> 0 then (m * 10, k + nat (- e) + 1)
                      else if nat e \<le> k then (m * 10, k - nat e + 1) else (m * 10 ^ (nat e - k) * 10, 1))
      in (case norm_dec m' k' of (a, b) \<Rightarrow> JDec a b))"

definition scan_frac :: "ustr \<Rightarrow> ustr \<times> ustr" where
  "scan_frac s =
     (let fs = takeWhile is09 (tl s) in
      if starts_with s [46] \<and> fs \<noteq> [] then (fs, drop (Suc (length fs)) s) else ([], s))"

definition scan_exp :: "ustr \<Rightarrow> int option \<times> ustr" where
  "scan_exp s =
     (if s \<noteq> [] \<and> (hd s = 101 \<or> hd s = 69) then
        let neg = starts_with (tl s) [45];
            t = (if neg \<or> starts_with (tl s) [43] then drop 2 s else tl s);
            es = takeWhile is09 t
        in if es = [] then (None, s)
           else (Some (if neg then - int (digits_val es) else int (digits_val es)), drop (length es) t)
      else (None, s))"

definition parse_number :: "ustr \<Rightarrow> jerr + json \<times> ustr" where
  "parse_number s =
     (let neg = starts_with s [45]; t = (if neg then tl s else s); ds = takeWhile is09 t in
      if ds = [] then
        (if neg \<and> starts_with t (u ''Infinity'') then Inr (JSpecial ''-Infinity'', drop 8 t) else Inl JSONDecodeError)
      else
        (let ip = (if hd ds = 48 then [48] else ds); sgn = (if neg then - 1 else 1 :: int) in
         case scan_frac (drop (length ip) t) of (fs, t1) \<Rightarrow>
         case scan_exp t1 of (e, t2) \<Rightarrow>
           if fs = [] \<and> e = None then
             (if length ip > 4300 then Inl IntTooLong else Inr (JInt (sgn * int (digits_val ip)), t2))
           else Inr (make_dec (sgn * int (digits_val (ip @ fs))) (length fs) (case e of None \<Rightarrow> 0 | Some x \<Rightarrow> x), t2)))"

type_synonym value_parser = "ustr \<Rightarrow> jerr + json \<times> ustr"

text \<open>Elements after the opening bracket; the counter bounds the number of elements by the input.\<close>

fun parse_elems :: "value_parser \<Rightarrow> nat \<Rightarrow> ustr \<Rightarrow> jerr + json list \<times> ustr" where
  "parse_elems p 0 s = Inl JSONDecodeError"
| "parse_elems p (Suc n) s =
     (case p s of
        Inl e \<Rightarrow> Inl e
      | Inr (v, t) \<Rightarrow>
          (case skip_ws t of
             [] \<Rightarrow> Inl JSONDecodeError
           | c # t' \<Rightarrow>
               if c = 93 then Inr ([v], t')
               else if c = 44 then
                 (case parse_elems p n (skip_ws t') of Inl e \<Rightarrow> Inl e | Inr (vs, r) \<Rightarrow> Inr (v # vs, r))
               else Inl JSONDecodeError))"

fun parse_members :: "value_parser \<Rightarrow> nat \<Rightarrow> ustr \<Rightarrow> jerr + (ustr \<times> json) list \<times> ustr" where
  "parse_members p 0 s = Inl JSONDecodeError"
| "parse_members p (Suc n) s =
     (if \<not> starts_with s [34] then Inl JSONDecodeError
      else case parse_chars (tl s) of
        Inl e \<Rightarrow> Inl e
      | Inr (k, t) \<Rightarrow>
          (if \<not> starts_with (skip_ws t) [58] then Inl JSONDecodeError
           else case p (skip_ws (tl (skip_ws t))) of
             Inl e \<Rightarrow> Inl e
           | Inr (v, t1) \<Rightarrow>
               (case skip_ws t1 of
                  [] \<Rightarrow> Inl JSONDecodeError
                | c # t2 \<Rightarrow>
                    if c = 125 then Inr ([(k, v)], t2)
                    else if c = 44 then
                      (case parse_members p n (skip_ws t2) of Inl e \<Rightarrow> Inl e | Inr (kvs, r) \<Rightarrow> Inr ((k, v) # kvs, r))
                    else Inl JSONDecodeError)))"

text \<open>A later member with the same key replaces the value and keeps the place.\<close>

fun put :: "'k \<Rightarrow> 'v \<Rightarrow> ('k \<times> 'v) list \<Rightarrow> ('k \<times> 'v) list" where
  "put k v [] = [(k, v)]"
| "put k v ((k', v') # m) = (if k' = k then (k, v) # m else (k', v') # put k v m)"

definition dict_of :: "('k \<times> 'v) list \<Rightarrow> ('k \<times> 'v) list" where
  "dict_of kvs = fold (\<lambda>(k, v) m. put k v m) kvs []"

text \<open>\<open>depth\<close> is the number of containers the interpreter lets nest.\<close>

definition parse_scalar :: value_parser where
  "parse_scalar s =
     (if starts_with s [34] then (case parse_chars (tl s) of Inl e \<Rightarrow> Inl e | Inr (cs, t) \<Rightarrow> Inr (JStr cs, t))
      else if starts_with s (u ''null'') then Inr (JNull, drop 4 s)
      else if starts_with s (u ''true'') then Inr (JBool True, drop 4 s)
      else if starts_with s (u ''false'') then Inr (JBool False, drop 5 s)
      else if starts_with s (u ''NaN'') then Inr (JSpecial ''NaN'', drop 3 s)
      else if starts_with s (u ''Infinity'') then Inr (JSpecial ''Infinity'', drop 8 s)
      else parse_number s)"

primrec parse_value :: "nat \<Rightarrow> value_parser" where
  "parse_value 0 = (\<lambda>s. if starts_with s [91] \<or> starts_with s [123] then Inl RecursionError else parse_scalar s)"
| "parse_value (Suc d) = (\<lambda>s.
     if starts_with s [91] then
       (let t = skip_ws (tl s) in
        if starts_with t [93] then Inr (JArr [], tl t)
        else case parse_elems (parse_value d) (length t) t of Inl e \<Rightarrow> Inl e | Inr (vs, r) \<Rightarrow> Inr (JArr vs, r))
     else if starts_with s [123] then
       (let t = skip_ws (tl s) in
        if starts_with t [125] then Inr (JObj [], tl t)
        else case parse_members (parse_value d) (length t) t of Inl e \<Rightarrow> Inl e | Inr (kvs, r) \<Rightarrow> Inr (JObj (dict_of kvs), r))
     else parse_scalar s)"

definition loads :: "nat \<Rightarrow> ustr \<Rightarrow> jerr + json" where
  "loads depth s =
     (if starts_with s [65279] then Inl JSONDecodeError
      else case parse_value depth (skip_ws s) of
             Inl e \<Rightarrow> Inl e
           | Inr (v, rest) \<Rightarrow> if skip_ws rest = [] then Inr v else Inl JSONDecodeError)"

section \<open>Round trip\<close>

text \<open>Values that \<open>dumps\<close> prints faithfully.\<close>

fun json_wf :: "json \<Rightarrow> bool" where
  "json_wf JNull = True"
| "json_wf (JBool b) = True"
| "json_wf (JInt i) = (length (show_nat (nat \<bar>i\<bar>)) \<le> 4300)"
| "json_wf (JDec m k) = (1 \<le> k \<and> (k = 1 \<or> m mod 10 \<noteq> 0))"
| "json_wf (JSpecial n) = (n = ''NaN'' \<or> n = ''Infinity'' \<or> n = ''-Infinity'')"
| "json_wf (JStr s) = True"
| "json_wf (JArr vs) = list_all json_wf vs"
| "json_wf (JObj kvs) = (distinct (map fst kvs) \<and> list_all (\<lambda>(k, v). json_wf v) kvs)"

fun json_depth :: "json \<Rightarrow> nat" where
  "json_depth (JArr vs) = Suc (foldr max (map json_depth vs) 0)"
| "json_depth (JObj kvs) = Suc (foldr max (map (\<lambda>(k, v). json_depth v) kvs) 0)"
| "json_depth _ = 0"

text \<open>What may follow a number without changing how it is read.\<close>

definition ends_number :: "ustr \<Rightarrow> bool" where
  "ends_number r \<longleftrightarrow> r = [] \<or> \<not> is09 (hd r) \<and> hd r \<noteq> 46 \<and> hd r \<noteq> 101 \<and> hd r \<noteq> 69"

subsection \<open>Strings\<close>

lemma hex_value_hex_char: "n < 16 \<Longrightarrow> hex_value (hex_char n) = Some n"
  by (auto simp: hex_value_def hex_char_def)

lemma parse_json_char: "parse_chars (json_char c @ s) = add_char c (parse_chars s)"
proof (cases "c < 32 \<and> c \<notin> {8, 9, 10, 12, 13}")
  case True
  have v: "hex_value (hex_char (c div 16)) = Some (c div 16)" "hex_value (hex_char (c mod 16)) = Some (c mod 16)"
    using True by (auto intro!: hex_value_hex_char)
  have "hex4 (48 # 48 # hex_char (c div 16) # hex_char (c mod 16) # s) = Some (c, s)"
    by (simp add: v) (simp add: hex_value_def)
  moreover have "low_surrogate c s = None" using True by (simp add: low_surrogate_def)
  ultimately show ?thesis using True by (simp add: json_char_def parse_chars.simps)
next
  case False
  then show ?thesis
    by (auto simp: json_char_def parse_chars.simps(2) [of 92] parse_chars.simps(2) [of c] unescape_def)
qed

lemma parse_json_str: "parse_chars (concat (map json_char s) @ 34 # r) = Inr (s, r)"
proof (induction s)
  case Nil
  then show ?case by (simp add: parse_chars.simps)
next
  case (Cons c s)
  then show ?case by (simp add: parse_json_char) (simp add: add_char_def)
qed

subsection \<open>Numbers\<close>

lemma show_nat_digits: "list_all is09 (show_nat n)"
proof (induction n rule: show_nat.induct)
  case (1 n)
  moreover have "is09 (48 + n mod 10)" "n < 10 \<Longrightarrow> is09 (48 + n)" by (auto simp: is09_def)
  ultimately show ?case by (subst show_nat.simps) simp
qed

lemma show_nat_ne: "show_nat n \<noteq> []"
  by (subst show_nat.simps) simp

lemma digits_val_snoc: "digits_val (ds @ [c]) = 10 * digits_val ds + (c - 48)"
  by (simp add: digits_val_def)

lemma digits_val_show: "digits_val (show_nat n) = n"
proof (induction n rule: show_nat.induct)
  case (1 n)
  show ?case
  proof (cases "n < 10")
    case True
    then show ?thesis by (subst show_nat.simps) (simp add: digits_val_def)
  next
    case False
    with 1 show ?thesis by (subst show_nat.simps) (simp add: digits_val_snoc)
  qed
qed

lemma digits_val_append: "digits_val (a @ b) = digits_val a * 10 ^ length b + digits_val b"
proof (induction b rule: rev_induct)
  case (snoc c b)
  then show ?case by (simp only: append_assoc [symmetric] digits_val_snoc) (simp add: algebra_simps)
qed (simp add: digits_val_def)

lemma digits_val_zeros: "digits_val (replicate n 48 @ ds) = digits_val ds"
proof -
  have "digits_val (replicate n 48) = 0" by (induction n) (simp_all add: digits_val_def)
  then show ?thesis by (simp add: digits_val_append)
qed

text \<open>No leading zero except in \<open>0\<close> itself.\<close>

lemma show_nat_lead: "hd (show_nat n) = 48 \<longleftrightarrow> n = 0"
proof (induction n rule: show_nat.induct)
  case (1 n)
  show ?case
  proof (cases "n < 10")
    case True
    then show ?thesis by (subst show_nat.simps) simp
  next
    case False
    with 1 show_nat_ne [of "n div 10"] show ?thesis by (subst show_nat.simps) (simp add: hd_append)
  qed
qed

lemma show_nat_0: "show_nat 0 = [48]"
  by (subst show_nat.simps) simp

lemma int_part_show: "(if hd (show_nat n) = 48 then [48] else show_nat n) = show_nat n"
  by (simp add: show_nat_lead show_nat_0)

lemma takeWhile_digits: "list_all is09 ds \<Longrightarrow> r = [] \<or> \<not> is09 (hd r) \<Longrightarrow> takeWhile is09 (ds @ r) = ds"
  by (induction ds) (cases r; auto)+

lemma length_show_nat: "n < 10 ^ k \<Longrightarrow> 1 \<le> k \<Longrightarrow> length (show_nat n) \<le> k"
proof (induction k arbitrary: n)
  case (Suc k)
  show ?case
  proof (cases "n < 10")
    case True
    then show ?thesis by (subst show_nat.simps) simp
  next
    case False
    then have "1 \<le> k" using Suc.prems(1) by (cases k) auto
    moreover have "n div 10 < 10 ^ k" using Suc.prems(1) by (simp add: less_mult_imp_div_less mult.commute)
    ultimately have "length (show_nat (n div 10)) \<le> k" using Suc.IH by blast
    with False show ?thesis by (subst show_nat.simps) simp
  qed
qed simp

lemma scan_end: "ends_number r \<Longrightarrow> scan_frac r = ([], r)" "ends_number r \<Longrightarrow> scan_exp r = (None, r)"
  by (auto simp: scan_frac_def scan_exp_def ends_number_def starts_with_iff Let_def)

lemma scan_frac_digits:
  assumes "list_all is09 f" "f \<noteq> []" "ends_number r"
  shows "scan_frac (46 # f @ r) = (f, r)"
proof -
  have "takeWhile is09 (f @ r) = f"
    using assms by (intro takeWhile_digits) (auto simp: ends_number_def)
  then show ?thesis using assms(2) by (simp add: scan_frac_def Let_def starts_with_iff)
qed

text \<open>A literal is its sign, its integer part and what the two scanners take.\<close>

lemma parse_number_literal:
  assumes "t = show_nat n @ t0" "t0 = [] \<or> \<not> is09 (hd t0)" "scan_frac t0 = (fs, t1)" "scan_exp t1 = (e, t2)"
  shows "parse_number ((if neg then [45] else []) @ t) =
     (if fs = [] \<and> e = None then
        (if length (show_nat n) > 4300 then Inl IntTooLong else Inr (JInt ((if neg then - 1 else 1) * int n), t2))
      else Inr (make_dec ((if neg then - 1 else 1) * int (digits_val (show_nat n @ fs))) (length fs)
             (case e of None \<Rightarrow> 0 | Some x \<Rightarrow> x), t2))"
proof -
  have h: "show_nat n \<noteq> []" "hd (show_nat n) \<noteq> 45"
    using show_nat_digits [of n] show_nat_ne [of n] by (cases "show_nat n"; auto simp: is09_def)+
  have w: "takeWhile is09 t = show_nat n"
    unfolding assms(1) using assms(2) by (intro takeWhile_digits show_nat_digits)
  have s: "starts_with ((if neg then [45] else []) @ t) [45] = neg"
    using h assms(1) by (cases "show_nat n") (auto simp: starts_with_iff)
  have tl: "(if neg then tl ((if neg then [45] else []) @ t) else (if neg then [45] else []) @ t) = t" by simp
  have d: "drop (length (show_nat n)) t = t0" using assms(1) by simp
  show ?thesis
    unfolding parse_number_def Let_def s tl w int_part_show d assms(3,4) prod.case digits_val_show
    using h by simp
qed

lemma parse_int:
  assumes "ends_number r" "length (show_nat (nat \<bar>i\<bar>)) \<le> 4300"
  shows "parse_number (str_int i @ r) = Inr (JInt i, r)"
proof -
  have "str_int i @ r = (if i < 0 then [45] else []) @ show_nat (nat \<bar>i\<bar>) @ r" by (simp add: str_int_def)
  moreover have "(if i < 0 then - 1 else 1) * int (nat \<bar>i\<bar>) = i" by simp
  ultimately show ?thesis
    using parse_number_literal [OF refl _ scan_end [OF assms(1)], where n = "nat \<bar>i\<bar>" and neg = "i < 0"] assms
    by (auto simp: ends_number_def)
qed

lemma norm_dec_canonical: "k = 1 \<or> m mod 10 \<noteq> 0 \<Longrightarrow> norm_dec m k = (m, k)"
  by (subst norm_dec.simps) auto

lemma make_dec_canonical: "1 \<le> k \<Longrightarrow> k = 1 \<or> m mod 10 \<noteq> 0 \<Longrightarrow> make_dec m k 0 = JDec m k"
  by (simp add: make_dec_def norm_dec.simps [of "m * 10"] norm_dec_canonical)

lemma parse_dec:
  assumes "ends_number r" "1 \<le> k" "k = 1 \<or> m mod 10 \<noteq> 0"
  shows "parse_number (show_dec m k @ r) = Inr (JDec m k, r)"
proof -
  let ?a = "nat \<bar>m\<bar>"
  let ?d = "show_nat (?a div 10 ^ k)" and ?f = "pad_left k (show_nat (?a mod 10 ^ k))"
  have f: "length ?f = k" "list_all is09 ?f" "digits_val ?f = ?a mod 10 ^ k"
  proof -
    have "length (show_nat (?a mod 10 ^ k)) \<le> k" using assms(2) by (intro length_show_nat) simp_all
    then show "length ?f = k" by (simp add: pad_left_def)
    show "list_all is09 ?f"
      using show_nat_digits [of "?a mod 10 ^ k"] by (auto simp: pad_left_def list_all_iff is09_def)
    show "digits_val ?f = ?a mod 10 ^ k" by (simp add: pad_left_def digits_val_zeros digits_val_show)
  qed
  have ne: "?f \<noteq> []" using f(1) assms(2) by auto
  have e: "show_dec m k @ r = (if m < 0 then [45] else []) @ ?d @ 46 # ?f @ r" by (simp add: show_dec_def)
  have v: "(if m < 0 then - 1 else 1) * int (digits_val (?d @ ?f)) = m"
    by (simp add: digits_val_append digits_val_show f mult.commute)
  show ?thesis
    unfolding e
    by (subst parse_number_literal [OF refl _ scan_frac_digits [OF f(2) ne assms(1)] scan_end(2) [OF assms(1)]])
      (simp_all add: is09_def v ne f(1) make_dec_canonical [OF assms(2,3)])
qed

subsection \<open>Containers\<close>

lemma skip_ws_id: "r = [] \<or> \<not> is_ws (hd r) \<Longrightarrow> skip_ws r = r"
  by (cases r) (auto simp: skip_ws_def)

lemma skip_ws_append: "list_all is_ws w \<Longrightarrow> skip_ws (w @ r) = skip_ws r"
  by (induction w) (auto simp: skip_ws_def)

lemma newline_ws: "list_all is_ws (newline i l)"
  by (auto simp: newline_def list_all_iff is_ws_def split: option.splits)

lemma item_sep_split: "\<exists>w. item_sep i l = 44 # w \<and> list_all is_ws w"
  using newline_ws [of i l] by (auto simp: item_sep_def is_ws_def split: option.splits)

lemma put_fresh: "k \<notin> set (map fst m) \<Longrightarrow> put k v m = m @ [(k, v)]"
  by (induction m) auto

lemma dict_of_distinct: "distinct (map fst kvs) \<Longrightarrow> dict_of kvs = kvs"
proof -
  have "fold (\<lambda>(k, v) m. put k v m) kvs m = m @ kvs" if "distinct (map fst (m @ kvs))" for m
    using that by (induction kvs arbitrary: m) (auto simp: put_fresh)
  then show "distinct (map fst kvs) \<Longrightarrow> dict_of kvs = kvs" by (simp add: dict_of_def)
qed

text \<open>The first character of a printed value.\<close>

lemma show_nat_hd: "c < 48 \<or> 57 < c \<Longrightarrow> hd (show_nat n) \<noteq> c"
  using show_nat_digits [of n] show_nat_ne [of n] by (cases "show_nat n") (auto simp: is09_def)

lemma dumps_hd:
  "json_wf v \<Longrightarrow> dumps i l v \<noteq> [] \<and> \<not> is_ws (hd (dumps i l v)) \<and> hd (dumps i l v) \<notin> {93, 125, 44, 58, 65279}"
  by (cases v)
    (auto simp: str_int_def show_dec_def wrap_def json_str_def u_def is_ws_def hd_append show_nat_ne show_nat_hd)

lemma parse_elems_dumps:
  assumes "vs \<noteq> []" "length vs \<le> n"
    and "\<forall>v \<in> set vs. dumps i (Suc l) v \<noteq> [] \<and> \<not> is_ws (hd (dumps i (Suc l) v))"
    and "\<forall>v \<in> set vs. \<forall>r. ends_number r \<longrightarrow> p (dumps i (Suc l) v @ r) = Inr (v, r)"
  shows "parse_elems p n (join (item_sep i (Suc l)) (map (dumps i (Suc l)) vs) @ newline i l @ 93 # r) = Inr (vs, r)"
  using assms
proof (induction vs arbitrary: n)
  case (Cons v vs)
  then obtain n' where n: "n = Suc n'" by (cases n) auto
  obtain w where w: "item_sep i (Suc l) = 44 # w" "list_all is_ws w" using item_sep_split by blast
  show ?case
  proof (cases "vs = []")
    case True
    have "ends_number (newline i l @ 93 # r)"
      by (auto simp: ends_number_def newline_def is09_def split: option.splits)
    then have "p (dumps i (Suc l) v @ newline i l @ 93 # r) = Inr (v, newline i l @ 93 # r)"
      using Cons.prems by simp
    then show ?thesis
      using True n by (simp add: skip_ws_append newline_ws) (simp add: skip_ws_def is_ws_def)
  next
    case False
    let ?rest = "join (item_sep i (Suc l)) (map (dumps i (Suc l)) vs) @ newline i l @ 93 # r"
    have "p (dumps i (Suc l) v @ 44 # w @ ?rest) = Inr (v, 44 # w @ ?rest)"
      using Cons.prems by (auto simp: ends_number_def is09_def)
    moreover have "skip_ws (w @ ?rest) = ?rest"
    proof -
      obtain x xs where x: "vs = x # xs" using False by (cases vs) auto
      have "skip_ws ?rest = ?rest"
        using Cons.prems(3) x by (intro skip_ws_id) (cases xs; auto simp: hd_append)
      then show ?thesis by (simp add: skip_ws_append w)
    qed
    moreover have "parse_elems p n' ?rest = Inr (vs, r)"
      using Cons.prems n False by (intro Cons.IH) auto
    ultimately show ?thesis
      using False n by (simp add: join_Cons w) (simp add: skip_ws_def is_ws_def)
  qed
qed simp

lemma parse_members_dumps:
  assumes "kvs \<noteq> []" "length kvs \<le> n"
    and "\<forall>(k, v) \<in> set kvs. dumps i (Suc l) v \<noteq> [] \<and> \<not> is_ws (hd (dumps i (Suc l) v))"
    and "\<forall>(k, v) \<in> set kvs. \<forall>r. ends_number r \<longrightarrow> p (dumps i (Suc l) v @ r) = Inr (v, r)"
  shows "parse_members p n
     (join (item_sep i (Suc l)) (map (\<lambda>(k, v). json_str k @ [58, 32] @ dumps i (Suc l) v) kvs) @ newline i l @ 125 # r) =
     Inr (kvs, r)"
  using assms
proof (induction kvs arbitrary: n)
  case (Cons kv kvs)
  obtain k v where kv: "kv = (k, v)" by (cases kv)
  from Cons.prems obtain n' where n: "n = Suc n'" by (cases n) auto
  obtain w where w: "item_sep i (Suc l) = 44 # w" "list_all is_ws w" using item_sep_split by blast
  have head: "parse_members p (Suc n') (json_str k @ [58, 32] @ dumps i (Suc l) v @ t) =
     (case p (dumps i (Suc l) v @ t) of Inl e \<Rightarrow> Inl e
      | Inr (v, t1) \<Rightarrow> (case skip_ws t1 of [] \<Rightarrow> Inl JSONDecodeError
         | c # t2 \<Rightarrow> if c = 125 then Inr ([(k, v)], t2)
             else if c = 44 then
               (case parse_members p n' (skip_ws t2) of Inl e \<Rightarrow> Inl e | Inr (kvs, r) \<Rightarrow> Inr ((k, v) # kvs, r))
             else Inl JSONDecodeError))" for t
  proof -
    have "skip_ws (32 # dumps i (Suc l) v @ t) = dumps i (Suc l) v @ t"
      using Cons.prems(3) kv skip_ws_id [of "dumps i (Suc l) v @ t"]
      by (simp add: skip_ws_append [of "[32]", simplified] is_ws_def hd_append)
    moreover have "skip_ws (58 # t') = 58 # t'" for t' by (simp add: skip_ws_def is_ws_def)
    ultimately show ?thesis
      by (simp add: json_str_def parse_json_str starts_with_iff)
  qed
  show ?case
  proof (cases "kvs = []")
    case True
    have "ends_number (newline i l @ 125 # r)"
      by (auto simp: ends_number_def newline_def is09_def split: option.splits)
    then have "p (dumps i (Suc l) v @ newline i l @ 125 # r) = Inr (v, newline i l @ 125 # r)"
      using Cons.prems kv by simp
    moreover have "skip_ws (newline i l @ 125 # r) = 125 # r"
      by (simp add: skip_ws_append newline_ws) (simp add: skip_ws_def is_ws_def)
    ultimately show ?thesis
      using True n kv head [of "newline i l @ 125 # r"] by simp
  next
    case False
    let ?rest = "join (item_sep i (Suc l)) (map (\<lambda>(k, v). json_str k @ [58, 32] @ dumps i (Suc l) v) kvs) @ newline i l @ 125 # r"
    have "p (dumps i (Suc l) v @ 44 # w @ ?rest) = Inr (v, 44 # w @ ?rest)"
      using Cons.prems kv by (auto simp: ends_number_def is09_def)
    moreover have "skip_ws (w @ ?rest) = ?rest"
    proof -
      obtain x xs where x: "kvs = x # xs" using False by (cases kvs) auto
      have "skip_ws ?rest = ?rest"
        using x by (intro skip_ws_id) (cases xs; cases x; auto simp: hd_append json_str_def is_ws_def)
      then show ?thesis by (simp add: skip_ws_append w)
    qed
    moreover have "skip_ws (44 # t) = 44 # t" for t by (simp add: skip_ws_def is_ws_def)
    moreover have "parse_members p n' ?rest = Inr (kvs, r)"
      using Cons.prems n False by (intro Cons.IH) auto
    ultimately show ?thesis
      using False n kv head [of "44 # w @ ?rest"] by (simp add: join_Cons w)
  qed
qed simp

lemma parse_value_scalar:
  "s \<noteq> [] \<Longrightarrow> hd s \<noteq> 91 \<Longrightarrow> hd s \<noteq> 123 \<Longrightarrow> parse_value d s = parse_scalar s"
  by (cases d; cases s) (auto simp: starts_with_iff)

lemma parse_scalar_number:
  assumes "s \<noteq> []" "is09 (hd s) \<or> hd s = 45"
  shows "parse_scalar (s @ r) = parse_number (s @ r)"
  using assms by (cases s) (auto simp: parse_scalar_def starts_with_iff u_def is09_def)

lemma str_int_hd: "str_int i \<noteq> [] \<and> (is09 (hd (str_int i)) \<or> hd (str_int i) = 45)"
  using show_nat_digits [of "nat i"] show_nat_ne [of "nat i"] by (cases "show_nat (nat i)") (auto simp: str_int_def)

lemma show_dec_hd: "show_dec m k \<noteq> [] \<and> (is09 (hd (show_dec m k)) \<or> hd (show_dec m k) = 45)"
  using show_nat_digits [of "nat m div 10 ^ k"] show_nat_ne [of "nat m div 10 ^ k"]
  by (cases "show_nat (nat m div 10 ^ k)") (auto simp: show_dec_def)

lemma parse_special:
  "parse_scalar (u ''NaN'' @ r) = Inr (JSpecial ''NaN'', r)"
  "parse_scalar (u ''Infinity'' @ r) = Inr (JSpecial ''Infinity'', r)"
  "parse_scalar (u ''-Infinity'' @ r) = Inr (JSpecial ''-Infinity'', r)"
  by (simp_all add: parse_scalar_def parse_number_def u_def is09_def Let_def)

lemma json_wf_SpecialE:
  assumes "json_wf (JSpecial n)"
  obtains "n = ''NaN''" | "n = ''Infinity''" | "n = ''-Infinity''"
  using assms by auto

lemma foldr_max_le: "foldr max (map f xs) 0 \<le> d \<longleftrightarrow> (\<forall>x \<in> set xs. f x \<le> (d :: nat))"
  by (induction xs) auto

lemma length_join_ge: "(\<forall>x \<in> set xs. x \<noteq> []) \<Longrightarrow> length xs \<le> length (join sep xs)"
proof (induction sep xs rule: join.induct)
  case (3 sep p q ps)
  then show ?case by (cases p) (auto simp: join_Cons)
qed (auto simp: Suc_le_eq)

text \<open>Whatever \<open>dumps\<close> prints, the parser reads back, provided the nesting is within the limit.\<close>

lemma parse_value_dumps:
  "json_wf v \<Longrightarrow> json_depth v \<le> d \<Longrightarrow> ends_number r \<Longrightarrow> parse_value d (dumps i l v @ r) = Inr (v, r)"
proof (induction v arbitrary: d l r rule: json_wf.induct)
  case (3 n)
  with str_int_hd [of n] show ?case
    by (subst parse_value_scalar) (auto simp: is09_def parse_scalar_number parse_int)
next
  case (4 m k)
  with show_dec_hd [of m k] show ?case
    by (subst parse_value_scalar) (auto simp: is09_def parse_scalar_number parse_dec)
next
  case (5 n)
  then have "parse_scalar (u n @ r) = Inr (JSpecial n, r)" by (elim json_wf_SpecialE) (simp_all add: parse_special)
  moreover have "u n \<noteq> []" "hd (u n) \<noteq> 91" "hd (u n) \<noteq> 123"
    using 5(1) by (auto simp: u_def)
  ultimately show ?case by (simp add: parse_value_scalar)
next
  case (6 s)
  then show ?case
    by (subst parse_value_scalar) (auto simp: json_str_def parse_scalar_def starts_with_iff parse_json_str)
next
  case (7 vs)
  then obtain d' where d: "d = Suc d'" by (cases d) auto
  have le: "\<forall>v \<in> set vs. json_depth v \<le> d'" using 7(3) d by (simp add: foldr_max_le)
  show ?case
  proof (cases "vs = []")
    case True
    then show ?thesis using d by (simp add: wrap_def starts_with_iff skip_ws_def is_ws_def)
  next
    case False
    let ?t = "join (item_sep i (Suc l)) (map (dumps i (Suc l)) vs) @ newline i l @ 93 # r"
    have hd: "dumps i (Suc l) v \<noteq> [] \<and> \<not> is_ws (hd (dumps i (Suc l) v)) \<and> hd (dumps i (Suc l) v) \<noteq> 93" if "v \<in> set vs" for v
      using dumps_hd [of v i "Suc l"] 7(2) that by (auto simp: list_all_iff)
    obtain v vs' where v: "vs = v # vs'" using False by (cases vs) auto
    have nw: "?t \<noteq> [] \<and> \<not> is_ws (hd ?t) \<and> hd ?t \<noteq> 93"
      using hd [of v] v by (cases vs') (auto simp: hd_append)
    have "length vs \<le> length ?t"
      using length_join_ge [of "map (dumps i (Suc l)) vs" "item_sep i (Suc l)"] hd by simp
    then have e: "parse_elems (parse_value d') (length ?t) ?t = Inr (vs, r)"
      using False hd 7 le by (intro parse_elems_dumps) (auto simp: list_all_iff)
    have sk: "skip_ws (newline i (Suc l) @ ?t) = ?t"
      using nw by (simp add: skip_ws_append newline_ws skip_ws_id)
    have "\<not> starts_with ?t [93]" using nw by (cases ?t) (auto simp: starts_with_iff)
    with e sk show ?thesis using False d by (simp add: wrap_def starts_with_iff)
  qed
next
  case (8 kvs)
  then obtain d' where d: "d = Suc d'" by (cases d) auto
  have le: "\<forall>(k, v) \<in> set kvs. json_depth v \<le> d'" using 8(3) d by (auto simp: foldr_max_le)
  have wf: "\<forall>(k, v) \<in> set kvs. json_wf v" "distinct (map fst kvs)" using 8(2) by (auto simp: list_all_iff)
  show ?case
  proof (cases "kvs = []")
    case True
    then show ?thesis using d by (simp add: wrap_def starts_with_iff skip_ws_def is_ws_def)
  next
    case False
    let ?m = "\<lambda>(k, v). json_str k @ [58, 32] @ dumps i (Suc l) v"
    let ?t = "join (item_sep i (Suc l)) (map ?m kvs) @ newline i l @ 125 # r"
    obtain kv kvs' where v: "kvs = kv # kvs'" using False by (cases kvs) auto
    have nw: "?t \<noteq> [] \<and> \<not> is_ws (hd ?t) \<and> hd ?t \<noteq> 125"
      using v by (cases kvs'; cases kv) (auto simp: hd_append json_str_def is_ws_def)
    have "\<forall>x \<in> set (map ?m kvs). x \<noteq> []" by (auto simp: json_str_def)
    from length_join_ge [OF this, of "item_sep i (Suc l)"] have "length kvs \<le> length ?t" by simp
    moreover have "\<forall>(k, v) \<in> set kvs. dumps i (Suc l) v \<noteq> [] \<and> \<not> is_ws (hd (dumps i (Suc l) v))"
      using wf(1) dumps_hd by blast
    moreover have "\<forall>(k, v) \<in> set kvs. \<forall>r. ends_number r \<longrightarrow> parse_value d' (dumps i (Suc l) v @ r) = Inr (v, r)"
      using 8(1) wf(1) le by blast
    ultimately have e: "parse_members (parse_value d') (length ?t) ?t = Inr (kvs, r)"
      by (intro parse_members_dumps [OF False])
    have sk: "skip_ws (newline i (Suc l) @ ?t) = ?t"
      using nw by (simp add: skip_ws_append newline_ws skip_ws_id)
    have "\<not> starts_with ?t [125]" using nw by (cases ?t) (auto simp: starts_with_iff)
    with e sk show ?thesis using False d wf(2) by (simp add: wrap_def starts_with_iff dict_of_distinct)
  qed
qed (subst parse_value_scalar, auto simp: u_def parse_scalar_def starts_with_iff)+

lemma loads_dumps:
  assumes "json_wf v" "json_depth v \<le> d"
  shows "loads d (dumps i l v) = Inr v"
proof -
  have "skip_ws (dumps i l v) = dumps i l v" "\<not> starts_with (dumps i l v) [65279]"
    using dumps_hd [OF assms(1), of i l] by (auto intro!: skip_ws_id simp: starts_with_iff)
  moreover have "parse_value d (dumps i l v) = Inr (v, [])"
    using parse_value_dumps [OF assms, of "[]" i l] by (simp add: ends_number_def)
  ultimately show ?thesis by (simp add: loads_def skip_ws_def)
qed

section \<open>Parsed values are well formed\<close>

lemma digits_val_bound: "list_all is09 ds \<Longrightarrow> digits_val ds < 10 ^ length ds"
proof (induction ds rule: rev_induct)
  case (snoc c ds)
  then have "digits_val ds < 10 ^ length ds" "c - 48 \<le> 9" by (auto simp: is09_def)
  then have "digits_val ds + 1 \<le> 10 ^ length ds" "c - 48 \<le> 9" by simp_all
  then have "10 * digits_val ds + (c - 48) < 10 * 10 ^ length ds" by linarith
  then show ?case by (simp add: digits_val_snoc)
qed (simp add: digits_val_def)

lemma norm_dec_props: "1 \<le> k \<Longrightarrow> norm_dec m k = (a, b) \<Longrightarrow> 1 \<le> b \<and> (b = 1 \<or> a mod 10 \<noteq> 0)"
proof (induction m k rule: norm_dec.induct)
  case (1 m k)
  show ?case
  proof (cases "1 < k \<and> m mod 10 = 0")
    case True
    have "norm_dec (m div 10) (k - 1) = (a, b)" using 1(3) True by (simp add: norm_dec.simps [of m k])
    moreover have "1 \<le> k - 1" using True by linarith
    ultimately show ?thesis by (intro 1(1) [OF True]) simp_all
  next
    case False
    then show ?thesis using 1(2,3) by (auto simp: norm_dec.simps [of m k])
  qed
qed

lemma make_dec_wf: "json_wf (make_dec m k e) \<and> json_depth (make_dec m k e) = 0"
proof -
  obtain m' k' where mk: "make_dec m k e = (case norm_dec m' k' of (a, b) \<Rightarrow> JDec a b)" "1 \<le> k'"
    unfolding make_dec_def Let_def by (cases "e \<le> 0"; cases "nat e \<le> k"; simp)
  show ?thesis
    using norm_dec_props [OF mk(2)] unfolding mk(1) by (cases "norm_dec m' k'") auto
qed

lemma parsed_int_length:
  assumes "list_all is09 ds" "ds \<noteq> []"
  shows "length (show_nat (digits_val ds)) \<le> length ds"
  using digits_val_bound [OF assms(1)] assms(2) by (intro length_show_nat) (auto simp: Suc_le_eq)

lemma parse_number_wf:
  assumes "parse_number s = Inr (v, r)"
  shows "json_wf v \<and> json_depth v = 0"
proof -
  define t where "t = (if starts_with s [45] then tl s else s)"
  define ds where "ds = takeWhile is09 t"
  define ip where "ip = (if hd ds = 48 then [48] else ds)"
  define sgn where "sgn = (if starts_with s [45] then - 1 else 1 :: int)"
  obtain fs t1 where f: "scan_frac (drop (length ip) t) = (fs, t1)" by fastforce
  obtain e t2 where e: "scan_exp t1 = (e, t2)" by fastforce
  have p: "parse_number s = (if ds = [] then
        (if starts_with s [45] \<and> starts_with t (u ''Infinity'') then Inr (JSpecial ''-Infinity'', drop 8 t) else Inl JSONDecodeError)
      else if fs = [] \<and> e = None then
             (if length ip > 4300 then Inl IntTooLong else Inr (JInt (sgn * int (digits_val ip)), t2))
           else Inr (make_dec (sgn * int (digits_val (ip @ fs))) (length fs) (case e of None \<Rightarrow> 0 | Some x \<Rightarrow> x), t2))"
    unfolding parse_number_def Let_def t_def [symmetric] ds_def [symmetric] ip_def [symmetric] sgn_def [symmetric] f prod.case e ..
  have "list_all is09 ds" unfolding ds_def list_all_iff by (blast dest: set_takeWhileD)
  then have "length (show_nat (digits_val ip)) \<le> length ip" if "ds \<noteq> []"
    using that by (intro parsed_int_length) (auto simp: ip_def is09_def)
  moreover have "nat \<bar>sgn * int n\<bar> = n" for n by (simp add: sgn_def)
  ultimately show ?thesis using assms make_dec_wf unfolding p by (auto split: if_splits)
qed

lemma parse_scalar_wf: "parse_scalar s = Inr (v, r) \<Longrightarrow> json_wf v \<and> json_depth v = 0"
  using parse_number_wf [of s v r] by (auto simp: parse_scalar_def split: if_splits sum.splits)

lemma parse_elems_all:
  "(\<And>s v r. p s = Inr (v, r) \<Longrightarrow> P v) \<Longrightarrow> parse_elems p n s = Inr (vs, r) \<Longrightarrow> list_all P vs"
  by (induction n arbitrary: s vs r) (fastforce split: sum.splits list.splits if_splits)+

lemma parse_members_all:
  "(\<And>s v r. p s = Inr (v, r) \<Longrightarrow> P v) \<Longrightarrow> parse_members p n s = Inr (kvs, r) \<Longrightarrow> list_all (\<lambda>(k, v). P v) kvs"
  by (induction n arbitrary: s kvs r) (fastforce split: sum.splits list.splits if_splits)+

lemma put_keys: "fst ` set (put k v m) = insert k (fst ` set m)"
  by (induction m) (force split: if_splits)+

lemma put_distinct: "distinct (map fst m) \<Longrightarrow> distinct (map fst (put k v m))"
  by (induction m) (auto simp: put_keys)

lemma put_all: "list_all (\<lambda>(k, v). P v) m \<Longrightarrow> P v \<Longrightarrow> list_all (\<lambda>(k, v). P v) (put k v m)"
  by (induction m) auto

lemma dict_of_props:
  "list_all (\<lambda>(k, v). P v) kvs \<Longrightarrow> distinct (map fst (dict_of kvs)) \<and> list_all (\<lambda>(k, v). P v) (dict_of kvs)"
proof -
  have "list_all (\<lambda>(k, v). P v) kvs \<Longrightarrow> distinct (map fst m) \<Longrightarrow> list_all (\<lambda>(k, v). P v) m \<Longrightarrow>
     distinct (map fst (fold (\<lambda>(k, v) m. put k v m) kvs m)) \<and> list_all (\<lambda>(k, v). P v) (fold (\<lambda>(k, v) m. put k v m) kvs m)" for m
    by (induction kvs arbitrary: m) (auto simp: put_distinct put_all)
  from this [of "[]"] show "list_all (\<lambda>(k, v). P v) kvs \<Longrightarrow> ?thesis" by (simp add: dict_of_def)
qed

lemma parse_value_wf: "parse_value d s = Inr (v, r) \<Longrightarrow> json_wf v \<and> json_depth v \<le> d"
proof (induction d arbitrary: s v r)
  case 0
  then show ?case using parse_scalar_wf [of s v r] by (auto split: if_splits)
next
  case (Suc d)
  let ?P = "\<lambda>v. json_wf v \<and> json_depth v \<le> d"
  have a: "list_all ?P vs" if "parse_elems (parse_value d) n t = Inr (vs, q)" for n t vs q
    by (rule parse_elems_all [OF _ that]) (use Suc.IH in blast)
  have m: "list_all (\<lambda>(k, v). ?P v) kvs" if "parse_members (parse_value d) n t = Inr (kvs, q)" for n t kvs q
    by (rule parse_members_all [OF _ that]) (use Suc.IH in blast)
  have "json_wf (JArr vs) \<and> json_depth (JArr vs) \<le> Suc d" if "list_all ?P vs" for vs
    using that by (auto simp: foldr_max_le list_all_iff)
  moreover have "json_wf (JObj (dict_of kvs)) \<and> json_depth (JObj (dict_of kvs)) \<le> Suc d" if "list_all (\<lambda>(k, v). ?P v) kvs" for kvs
    using dict_of_props [OF that] by (fastforce simp: foldr_max_le list_all_iff)
  ultimately show ?case
    using Suc.prems parse_scalar_wf [of s v r] a m
    by (auto simp: Let_def split: if_splits sum.splits)
qed

lemma loads_wf: "loads d s = Inr v \<Longrightarrow> json_wf v \<and> json_depth v \<le> d"
  using parse_value_wf by (auto simp: loads_def split: if_splits sum.splits)

lemma map_of_put: "map_of (put k v m) = (map_of m)(k \<mapsto> v)"
  by (induction m) auto

end
