(* ===== verification/Webhook.thy ===== *)
theory Webhook
  imports Hmac_Auth Jobs Json
begin

text \<open>
  \<^verbatim>\<open>app/workers/webhook_sender.py\<close>: signed delivery of results and of deletion requests.
  The HTTP client is a parameter (what each attempt meets), as are the clock and the nonce source; the
  JSON rendering of the payload is a parameter too (pydantic), while the small JSON body of a
  deletion is written out.  \<^verbatim>\<open>urllib.parse.urlparse\<close> is modelled as far as the code reads it: path
  and query.  The two senders share one retry loop; the locale \<open>retrying_sender\<close> proves its contract
  once (at most five requests, the backoff between them, when it reports success, and that a receiver
  that applies the gateway's own signature scheme accepts every request).
\<close>

section \<open>Payload\<close>

record webhook_payload =
  wp_request_id :: uuid
  wp_job_id :: ustr
  wp_verdict :: verdict
  wp_code :: string
  wp_user_message :: ustr
  wp_attachment_results :: "attachment_result list"
  wp_completed_at :: rat

section \<open>Environment\<close>

record out_request =
  oq_method :: ustr
  oq_url :: ustr
  oq_headers :: "(string \<times> ustr) list"
  oq_body :: bytes

text \<open>
  What an attempt meets: a response, one of the transport errors the loop catches, or an exception it
  does not catch (\<^verbatim>\<open>httpx.InvalidURL\<close> is one).
\<close>

datatype send_outcome = Response nat | Transport_error | Raised exn

record hook_env =
  he_secret :: ustr
  he_netloc_ok :: "ustr \<Rightarrow> bool"
  he_clock :: "nat \<Rightarrow> int"
  he_token :: "nat \<Rightarrow> ustr"
  he_send :: "nat \<Rightarrow> out_request \<Rightarrow> send_outcome"
  he_dump :: "webhook_payload \<Rightarrow> ustr"

datatype hook_event = Slept rat | Sent out_request

section \<open>The signed path\<close>

definition scheme_char :: "nat \<Rightarrow> bool" where
  "scheme_char c \<longleftrightarrow> 97 \<le> c \<and> c \<le> 122 \<or> 65 \<le> c \<and> c \<le> 90 \<or> 48 \<le> c \<and> c \<le> 57 \<or> c \<in> {43, 45, 46}"

definition ascii_alpha :: "nat \<Rightarrow> bool" where
  "ascii_alpha c \<longleftrightarrow> 97 \<le> c \<and> c \<le> 122 \<or> 65 \<le> c \<and> c \<le> 90"

text \<open>Scheme (lower case) and the rest; no scheme when a character before the colon is not allowed.\<close>

definition split_scheme :: "ustr \<Rightarrow> ustr \<times> ustr" where
  "split_scheme url =
     (let s = takeWhile (\<lambda>c. c \<noteq> 58) url in
      if 58 \<in> set url \<and> s \<noteq> [] \<and> ascii_alpha (hd url) \<and> list_all scheme_char s
      then (lower s, drop (Suc (length s)) url) else ([], url))"

text \<open>The last path segment loses its \<^verbatim>\<open>;params\<close>, for the schemes that have them.\<close>

definition uses_params :: "string list" where
  "uses_params = ['''', ''ftp'', ''hdl'', ''prospero'', ''http'', ''https'', ''shttp'', ''rtsp'',
     ''rtsps'', ''sip'', ''sips'', ''mms'', ''sftp'', ''tel'']"

definition drop_params :: "ustr \<Rightarrow> ustr" where
  "drop_params p =
     (let seg = rev (takeWhile (\<lambda>c. c \<noteq> 47) (rev p))
      in take (length p - length seg) p @ takeWhile (\<lambda>c. c \<noteq> 59) seg)"

definition urlparse :: "hook_env \<Rightarrow> ustr \<Rightarrow> exn + ustr \<times> ustr" where
  "urlparse env url0 =
     (let url1 = filter (\<lambda>c. c \<notin> {9, 10, 13}) (dropWhile (\<lambda>c. c \<le> 32) url0);
          (scheme, url2) = split_scheme url1;
          has_netloc = starts_with url2 (u ''//'');
          netloc = (if has_netloc then takeWhile (\<lambda>c. c \<notin> {47, 63, 35}) (drop 2 url2) else []);
          url3 = (if has_netloc then drop (2 + length netloc) url2 else url2)
      in if \<not> he_netloc_ok env netloc then Inl ValueError
         else let url4 = takeWhile (\<lambda>c. c \<noteq> 35) url3;
                  path = takeWhile (\<lambda>c. c \<noteq> 63) url4;
                  query = drop (Suc (length path)) url4
              in Inr (if scheme \<in> u ` set uses_params then drop_params path else path, query))"

definition request_path :: "hook_env \<Rightarrow> ustr \<Rightarrow> exn + ustr" where
  "request_path env url =
     (case urlparse env url of Inl e \<Rightarrow> Inl e
      | Inr (path, query) \<Rightarrow>
          let p = (if path = [] then u ''/'' else path)
          in Inr (if query = [] then p else p @ u ''?'' @ query))"

section \<open>Signing and retrying\<close>

definition RETRY_DELAYS_SECONDS :: "rat list" where
  "RETRY_DELAYS_SECONDS = [1, 4, 16, 64, 256]"

definition MAX_ATTEMPTS :: nat where
  "MAX_ATTEMPTS = length RETRY_DELAYS_SECONDS"

definition sign :: "ustr \<Rightarrow> int \<Rightarrow> ustr \<Rightarrow> ustr \<Rightarrow> ustr \<Rightarrow> bytes \<Rightarrow> (string \<times> ustr) list" where
  "sign secret now nonce method path body =
     (let ts = str_int now;
          canonical = join [10] [ts, nonce, map upper_char method, path, hexdigest (sha256 body)]
      in [(''X-Timestamp'', ts), (''X-Nonce'', nonce),
          (''X-Signature'', hexdigest (hmac_sha256 (utf8_encode secret) (utf8_encode canonical)))])"

definition is_retryable :: "nat \<Rightarrow> bool" where
  "is_retryable status \<longleftrightarrow> status \<ge> 500 \<or> status = 408 \<or> status = 429"

definition build_request :: "hook_env \<Rightarrow> ustr \<Rightarrow> ustr \<Rightarrow> ustr \<Rightarrow> ustr \<Rightarrow> bytes \<Rightarrow> nat \<Rightarrow> out_request" where
  "build_request env secret method url path body attempt =
     \<lparr>oq_method = method, oq_url = url,
      oq_headers = (''content-type'', u ''application/json'') #
        (if secret \<noteq> [] then sign secret (he_clock env attempt) (he_token env attempt) method path body else []),
      oq_body = body\<rparr>"

text \<open>The loop over the attempt numbers, with the sleeps and requests it performs.\<close>

fun attempt_loop ::
  "hook_env \<Rightarrow> ustr \<Rightarrow> ustr \<Rightarrow> ustr \<Rightarrow> ustr \<Rightarrow> bytes \<Rightarrow> nat list \<Rightarrow> (exn + bool) \<times> hook_event list" where
  "attempt_loop env secret method url path body [] = (Inr False, [])"
| "attempt_loop env secret method url path body (a # as) =
     (let pre = (if a > 0 then [Slept (RETRY_DELAYS_SECONDS ! a)] else []);
          req = build_request env secret method url path body a;
          (r, evs) = (case he_send env a req of
              Raised e \<Rightarrow> (Inl e, [])
            | Transport_error \<Rightarrow> attempt_loop env secret method url path body as
            | Response status \<Rightarrow>
                if 200 \<le> status \<and> status < 300 then (Inr True, [])
                else if \<not> is_retryable status then (Inr False, [])
                else attempt_loop env secret method url path body as)
      in (r, pre @ Sent req # evs))"

text \<open>\<open>signing_secret\<close> overrides the configured secret when it is given, even when it is empty.\<close>

definition send_webhook ::
  "hook_env \<Rightarrow> ustr option \<Rightarrow> webhook_payload \<Rightarrow> ustr \<Rightarrow> (exn + bool) \<times> hook_event list" where
  "send_webhook env signing_secret payload callback_url =
     (let secret = (case signing_secret of Some s \<Rightarrow> s | None \<Rightarrow> he_secret env);
          body = utf8_encode (he_dump env payload)
      in case request_path env callback_url of
           Inl e \<Rightarrow> (Inl e, [])
         | Inr path \<Rightarrow> attempt_loop env secret (u ''POST'') callback_url path body [0..<MAX_ATTEMPTS])"

definition DELETE_REASON :: ustr where
  "DELETE_REASON = u ''PII detected in attachment''"

definition delete_body :: "ustr \<Rightarrow> ustr \<Rightarrow> string \<Rightarrow> ustr \<Rightarrow> bytes" where
  "delete_body request_id job_id code reason =
     utf8_encode (json_object
       [(''request_id'', request_id), (''job_id'', job_id), (''code'', u code), (''reason'', reason)])"

definition send_delete_request ::
  "hook_env \<Rightarrow> ustr option \<Rightarrow> ustr \<Rightarrow> ustr \<Rightarrow> string \<Rightarrow> ustr \<Rightarrow> ustr \<Rightarrow> (exn + bool) \<times> hook_event list" where
  "send_delete_request env signing_secret request_id job_id code reason callback_url =
     (let secret = (case signing_secret of Some s \<Rightarrow> s | None \<Rightarrow> he_secret env);
          body = delete_body request_id job_id code reason
      in case request_path env callback_url of
           Inl e \<Rightarrow> (Inl e, [])
         | Inr path \<Rightarrow> attempt_loop env secret (u ''DELETE'') callback_url path body [0..<MAX_ATTEMPTS])"

section \<open>What the loop does\<close>

text \<open>An outcome ends the loop, or the next attempt follows.\<close>

fun stops :: "send_outcome \<Rightarrow> bool" where
  "stops (Response status) = (\<not> is_retryable status)"
| "stops Transport_error = False"
| "stops (Raised e) = True"

fun final_result :: "send_outcome \<Rightarrow> exn + bool" where
  "final_result (Response status) = Inr (200 \<le> status \<and> status < 300)"
| "final_result Transport_error = Inr False"
| "final_result (Raised e) = Inl e"

definition attempt_events :: "(nat \<Rightarrow> out_request) \<Rightarrow> nat \<Rightarrow> hook_event list" where
  "attempt_events req a = (if a > 0 then [Slept (RETRY_DELAYS_SECONDS ! a)] else []) @ [Sent (req a)]"

lemma success_stops: "200 \<le> s \<Longrightarrow> s < 300 \<Longrightarrow> \<not> is_retryable s"
  by (auto simp: is_retryable_def)

lemma attempt_loop_eq:
  assumes "req = build_request env secret method url path body"
  shows "attempt_loop env secret method url path body as =
    (case dropWhile (\<lambda>a. \<not> stops (he_send env a (req a))) as of
       [] \<Rightarrow> (Inr False, concat (map (attempt_events req) as))
     | a # _ \<Rightarrow> (final_result (he_send env a (req a)),
         concat (map (attempt_events req) (takeWhile (\<lambda>a. \<not> stops (he_send env a (req a))) as @ [a]))))"
proof (induction as)
  case Nil
  then show ?case by simp
next
  case (Cons a as)
  let ?P = "\<lambda>a. \<not> stops (he_send env a (req a))"
  have r: "build_request env secret method url path body a = req a" by (simp add: assms)
  show ?case
  proof (cases "he_send env a (req a)")
    case (Response s)
    consider "200 \<le> s \<and> s < 300" | "\<not> (200 \<le> s \<and> s < 300)" "\<not> is_retryable s" | "is_retryable s"
      by blast
    then show ?thesis
    proof cases
      case 3
      with success_stops have n: "\<not> (200 \<le> s \<and> s < 300)" by blast
      show ?thesis
        using Cons.IH Response 3 n
        by (cases "dropWhile ?P as") (simp_all add: Let_def r attempt_events_def del: dropWhile_eq_Nil_conv cong: conj_cong)
    qed (use Response success_stops [of s] in \<open>simp_all add: Let_def r attempt_events_def\<close>)
  next
    case Transport_error
    then show ?thesis
      using Cons.IH by (cases "dropWhile ?P as")
        (simp_all add: Let_def r attempt_events_def del: dropWhile_eq_Nil_conv)
  next
    case (Raised e)
    then show ?thesis
      by (simp add: Let_def r attempt_events_def)
  qed
qed

fun requests_of :: "hook_event list \<Rightarrow> out_request list" where
  "requests_of [] = []"
| "requests_of (Sent r # es) = r # requests_of es"
| "requests_of (Slept t # es) = requests_of es"

fun backoff_of :: "hook_event list \<Rightarrow> rat list" where
  "backoff_of [] = []"
| "backoff_of (Sent r # es) = backoff_of es"
| "backoff_of (Slept t # es) = t # backoff_of es"

lemma requests_of_append [simp]: "requests_of (xs @ ys) = requests_of xs @ requests_of ys"
  by (induction xs rule: requests_of.induct) simp_all

lemma backoff_of_append [simp]: "backoff_of (xs @ ys) = backoff_of xs @ backoff_of ys"
  by (induction xs rule: backoff_of.induct) simp_all

lemma events_upto:
  assumes "n \<le> MAX_ATTEMPTS"
  shows "requests_of (concat (map (attempt_events req) [0..<n])) = map req [0..<n] \<and>
         backoff_of (concat (map (attempt_events req) [0..<n])) = take (n - 1) (tl RETRY_DELAYS_SECONDS)"
  using assms
proof (induction n)
  case 0
  then show ?case by simp
next
  case (Suc n)
  then have n: "n < length RETRY_DELAYS_SECONDS" by (simp add: MAX_ATTEMPTS_def)
  show ?case
  proof (cases n)
    case 0
    then show ?thesis by (simp add: attempt_events_def)
  next
    case (Suc m)
    then have "take (Suc m) (tl RETRY_DELAYS_SECONDS) = take m (tl RETRY_DELAYS_SECONDS) @ [RETRY_DELAYS_SECONDS ! n]"
      using n by (simp add: take_Suc_conv_app_nth nth_tl)
    with Suc.IH Suc.prems Suc show ?thesis by (simp add: attempt_events_def)
  qed
qed

text \<open>Running over all attempt numbers: the first stopping attempt, if any, decides.\<close>

lemma take_drop_upto:
  "dropWhile P [0..<n] = [] \<longleftrightarrow> (\<forall>a < n. P a)"
  "dropWhile P [0..<n] = a # r \<Longrightarrow> a < n \<and> \<not> P a \<and> (\<forall>b < a. P b) \<and> takeWhile P [0..<n] = [0..<a]"
proof -
  show "dropWhile P [0..<n] = [] \<longleftrightarrow> (\<forall>a < n. P a)"
    by (auto simp: dropWhile_eq_Nil_conv)
  assume h: "dropWhile P [0..<n] = a # r"
  let ?t = "takeWhile P [0..<n]"
  have s: "[0..<n] = ?t @ a # r" using takeWhile_dropWhile_id [of P "[0..<n]"] h by simp
  have l: "length ?t < n" using arg_cong [OF s, of length] by simp
  have "[0..<n] ! length ?t = a" using arg_cong [OF s, of "\<lambda>x. x ! length ?t"] by simp
  with l have a: "a = length ?t" by simp
  have "?t = take (length ?t) [0..<n]" by (rule takeWhile_eq_take)
  also have "\<dots> = [0..<a]" using l a by (simp add: take_upt)
  finally have t: "?t = [0..<a]" .
  have "\<forall>b \<in> set ?t. P b" by (auto dest: set_takeWhileD)
  with t have "\<forall>b < a. P b" by auto
  moreover have "\<not> P a" using hd_dropWhile [of P "[0..<n]"] h by simp
  moreover have "a < n" unfolding a by (rule l)
  ultimately show "a < n \<and> \<not> P a \<and> (\<forall>b < a. P b) \<and> ?t = [0..<a]" using t by blast
qed

section \<open>The contract of a retrying sender\<close>

text \<open>A sender for one message: it runs the loop with its method and body.\<close>

locale retrying_sender =
  fixes send :: "hook_env \<Rightarrow> ustr \<Rightarrow> (exn + bool) \<times> hook_event list"
    and verb :: ustr
    and content :: "hook_env \<Rightarrow> bytes"
    and secret_of :: "hook_env \<Rightarrow> ustr"
  assumes runs: "request_path env url = Inr path \<Longrightarrow>
      send env url = attempt_loop env (secret_of env) verb url path (content env) [0..<MAX_ATTEMPTS]"
    and refuses: "request_path env url = Inl e \<Longrightarrow> send env url = (Inl e, [])"
begin

definition req :: "hook_env \<Rightarrow> ustr \<Rightarrow> ustr \<Rightarrow> nat \<Rightarrow> out_request" where
  "req env url path = build_request env (secret_of env) verb url path (content env)"

lemma send_cases:
  assumes "request_path env url = Inr path"
  obtains n where "0 < n" "n \<le> MAX_ATTEMPTS"
    "requests_of (snd (send env url)) = map (req env url path) [0..<n]"
    "backoff_of (snd (send env url)) = take (n - 1) (tl RETRY_DELAYS_SECONDS)"
    "\<forall>a < n - 1. \<not> stops (he_send env a (req env url path a))"
    "fst (send env url) = final_result (he_send env (n - 1) (req env url path (n - 1)))"
    "n < MAX_ATTEMPTS \<longrightarrow> stops (he_send env (n - 1) (req env url path (n - 1)))"
proof -
  let ?P = "\<lambda>a. \<not> stops (he_send env a (req env url path a))"
  note loop = attempt_loop_eq [OF req_def [of env url path], of "[0..<MAX_ATTEMPTS]"]
  show ?thesis
  proof (cases "dropWhile ?P [0..<MAX_ATTEMPTS]")
    case Nil
    then have P: "\<forall>a < MAX_ATTEMPTS. ?P a" by (simp only: take_drop_upto(1))
    have M: "0 < MAX_ATTEMPTS" by (simp add: MAX_ATTEMPTS_def RETRY_DELAYS_SECONDS_def)
    then have "?P (MAX_ATTEMPTS - 1)" using P by simp
    then have "final_result (he_send env (MAX_ATTEMPTS - 1) (req env url path (MAX_ATTEMPTS - 1))) = Inr False"
      using success_stops by (cases "he_send env (MAX_ATTEMPTS - 1) (req env url path (MAX_ATTEMPTS - 1))") auto
    moreover have "send env url = (Inr False, concat (map (attempt_events (req env url path)) [0..<MAX_ATTEMPTS]))"
      unfolding runs [OF assms] loop Nil by simp
    ultimately show ?thesis
      using that [of MAX_ATTEMPTS] events_upto [of MAX_ATTEMPTS "req env url path"] P M by simp
  next
    case (Cons a r)
    from take_drop_upto(2) [OF this]
    have a: "a < MAX_ATTEMPTS" "\<not> ?P a" "\<forall>b < a. ?P b" "takeWhile ?P [0..<MAX_ATTEMPTS] = [0..<a]"
      by simp_all
    have "send env url = (final_result (he_send env a (req env url path a)),
        concat (map (attempt_events (req env url path)) [0..<Suc a]))"
      unfolding runs [OF assms] loop Cons a(4) by simp
    then show ?thesis
      using that [of "Suc a"] a events_upto [of "Suc a" "req env url path"] by simp
  qed
qed

lemma at_most_five:
  assumes "request_path env url = Inr path"
  shows "length (requests_of (snd (send env url))) \<le> 5 \<and> sum_list (backoff_of (snd (send env url))) \<le> 340"
proof -
  obtain n where "n \<le> MAX_ATTEMPTS" "requests_of (snd (send env url)) = map (req env url path) [0..<n]"
    "backoff_of (snd (send env url)) = take (n - 1) (tl RETRY_DELAYS_SECONDS)"
    by (rule send_cases [OF assms])
  moreover then have "n \<in> {0, 1, 2, 3, 4, 5}"
    by (auto simp: MAX_ATTEMPTS_def RETRY_DELAYS_SECONDS_def)
  ultimately show ?thesis
    by (auto simp: MAX_ATTEMPTS_def RETRY_DELAYS_SECONDS_def)
qed

lemma delivered_iff:
  assumes "request_path env url = Inr path"
  shows "fst (send env url) = Inr True \<longleftrightarrow>
    (\<exists>k < MAX_ATTEMPTS. \<exists>s. he_send env k (req env url path k) = Response s \<and> 200 \<le> s \<and> s < 300 \<and>
       (\<forall>j < k. \<not> stops (he_send env j (req env url path j))))"
proof -
  obtain n where n: "0 < n" "n \<le> MAX_ATTEMPTS"
    "\<forall>a < n - 1. \<not> stops (he_send env a (req env url path a))"
    "fst (send env url) = final_result (he_send env (n - 1) (req env url path (n - 1)))"
    "n < MAX_ATTEMPTS \<longrightarrow> stops (he_send env (n - 1) (req env url path (n - 1)))"
    by (rule send_cases [OF assms])
  show ?thesis
  proof
    assume "fst (send env url) = Inr True"
    then obtain s where "he_send env (n - 1) (req env url path (n - 1)) = Response s" "200 \<le> s" "s < 300"
      using n(4) by (cases "he_send env (n - 1) (req env url path (n - 1))") auto
    then show "\<exists>k < MAX_ATTEMPTS. \<exists>s. he_send env k (req env url path k) = Response s \<and> 200 \<le> s \<and> s < 300 \<and>
       (\<forall>j < k. \<not> stops (he_send env j (req env url path j)))"
      using n(1-3) by (intro exI [of _ "n - 1"]) auto
  next
    assume "\<exists>k < MAX_ATTEMPTS. \<exists>s. he_send env k (req env url path k) = Response s \<and> 200 \<le> s \<and> s < 300 \<and>
       (\<forall>j < k. \<not> stops (he_send env j (req env url path j)))"
    then obtain k s where k: "k < MAX_ATTEMPTS" "he_send env k (req env url path k) = Response s" "200 \<le> s"
      "s < 300" "\<forall>j < k. \<not> stops (he_send env j (req env url path j))"
      by blast
    then have "stops (he_send env k (req env url path k))" by (simp add: success_stops)
    then have "\<not> k < n - 1" using n(3) by blast
    moreover have "\<not> n - 1 < k"
    proof
      assume "n - 1 < k"
      then have "stops (he_send env (n - 1) (req env url path (n - 1)))" using n(5) k(1) by linarith
      with k(5) \<open>n - 1 < k\<close> show False by blast
    qed
    ultimately have "k = n - 1" by linarith
    with n(4) k show "fst (send env url) = Inr True" by simp
  qed
qed

lemma requests_signed:
  assumes "request_path env url = Inr path" "secret_of env \<noteq> []" "q \<in> set (requests_of (snd (send env url)))"
  shows "\<exists>a < MAX_ATTEMPTS. oq_method q = verb \<and> oq_url q = url \<and> oq_body q = content env \<and>
     map_of (oq_headers q) ''X-Timestamp'' = Some (str_int (he_clock env a)) \<and>
     map_of (oq_headers q) ''X-Nonce'' = Some (he_token env a) \<and>
     map_of (oq_headers q) ''X-Signature'' = Some (compute_signature (secret_of env) (str_int (he_clock env a))
       (he_token env a) verb path (content env))"
proof -
  obtain n where n: "n \<le> MAX_ATTEMPTS" "requests_of (snd (send env url)) = map (req env url path) [0..<n]"
    by (rule send_cases [OF assms(1)])
  then obtain a where "a < n" "q = req env url path a" using assms(3) by auto
  with n(1) assms(2) show ?thesis
    by (intro exI [of _ a]) (simp add: req_def build_request_def sign_def Let_def compute_signature_def
        canonical_string_def)
qed

lemma requests_plain:
  assumes "request_path env url = Inr path" "q \<in> set (requests_of (snd (send env url)))"
  shows "oq_method q = verb \<and> oq_body q = content env \<and>
    (secret_of env = [] \<longrightarrow> ''X-Signature'' \<notin> fst ` set (oq_headers q))"
proof -
  obtain n where "requests_of (snd (send env url)) = map (req env url path) [0..<n]"
    by (rule send_cases [OF assms(1)])
  then obtain a where "q = req env url path a" using assms(2) by auto
  then show ?thesis by (simp add: req_def build_request_def)
qed

end

definition secret_for :: "ustr option \<Rightarrow> hook_env \<Rightarrow> ustr" where
  "secret_for ss env = (case ss of Some s \<Rightarrow> s | None \<Rightarrow> he_secret env)"

interpretation hook: retrying_sender "\<lambda>env. send_webhook env ss payload" "u ''POST''"
  "\<lambda>env. utf8_encode (he_dump env payload)" "secret_for ss"
  for ss payload
  by unfold_locales (simp_all add: send_webhook_def Let_def secret_for_def)

interpretation del: retrying_sender "\<lambda>env. send_delete_request env ss rid jid code reason" "u ''DELETE''"
  "\<lambda>env. delete_body rid jid code reason" "secret_for ss"
  for ss rid jid code reason
  by unfold_locales (simp_all add: send_delete_request_def Let_def secret_for_def)

text \<open>What one attempt of the webhook met.\<close>

definition webhook_reply :: "hook_env \<Rightarrow> ustr option \<Rightarrow> webhook_payload \<Rightarrow> ustr \<Rightarrow> ustr \<Rightarrow> nat \<Rightarrow> send_outcome" where
  "webhook_reply env ss payload url path a =
     he_send env a (build_request env (secret_for ss env) (u ''POST'') url path (utf8_encode (he_dump env payload)) a)"

text \<open>
  C15: delivery of a result.  For a well-formed callback address the sender issues between one and
  five requests and waits at most 340 seconds in total between them; it reports success exactly when
  one of the five attempts is answered with 2xx after only retryable failures (5xx, 408, 429 or a
  transport error); any other answer is permanent and ends it at once.  In particular a 4xx other than
  408 and 429 is not tried again, and the first wait is four seconds, where
  \<^verbatim>\<open>docs/api_integration.md\<close> promises the board retries after every 4xx, the first after one second.
\<close>

theorem webhook_delivery:
  assumes "request_path env url = Inr path"
  shows "1 \<le> length (requests_of (snd (send_webhook env ss payload url))) \<and>
    length (requests_of (snd (send_webhook env ss payload url))) \<le> 5 \<and>
    sum_list (backoff_of (snd (send_webhook env ss payload url))) \<le> 340 \<and>
    (fst (send_webhook env ss payload url) = Inr True \<longleftrightarrow>
      (\<exists>k < MAX_ATTEMPTS. \<exists>s. webhook_reply env ss payload url path k = Response s \<and> 200 \<le> s \<and> s < 300 \<and>
        (\<forall>j < k. webhook_reply env ss payload url path j = Transport_error \<or>
           (\<exists>s'. webhook_reply env ss payload url path j = Response s' \<and> (s' \<ge> 500 \<or> s' \<in> {408, 429})))))"
proof -
  have "\<not> stops out \<longleftrightarrow> out = Transport_error \<or> (\<exists>s'. out = Response s' \<and> (s' \<ge> 500 \<or> s' \<in> {408, 429}))"
    for out by (cases out) (auto simp: is_retryable_def)
  moreover have "requests_of (snd (send_webhook env ss payload url)) \<noteq> []"
    using assms by (simp add: send_webhook_def Let_def MAX_ATTEMPTS_def RETRY_DELAYS_SECONDS_def upt_rec split: prod.splits)
  ultimately show ?thesis
    using hook.at_most_five [OF assms, of ss payload] hook.delivered_iff [OF assms, of ss payload]
    unfolding hook.req_def webhook_reply_def by (simp add: Suc_le_eq)
qed

definition demo_hook :: hook_env where
  "demo_hook = \<lparr>he_secret = u ''s3'', he_netloc_ok = (\<lambda>n. True), he_clock = (\<lambda>a. 1000 + int a),
     he_token = (\<lambda>a. show_nat a), he_send = (\<lambda>a q. if a = 0 then Transport_error else Response (if a = 1 then 503 else 200)),
     he_dump = (\<lambda>p. u ''{}'')\<rparr>"

definition demo_payload :: webhook_payload where
  "demo_payload = \<lparr>wp_request_id = 5, wp_job_id = u ''job_1'', wp_verdict = PASS, wp_code = ''OK-0000'',
     wp_user_message = [], wp_attachment_results = [], wp_completed_at = 0\<rparr>"

lemma demo_path: "request_path demo_hook (u ''https://b.kr/cb?x=1'') = Inr (u ''/cb?x=1'')"
  unfolding request_path_def urlparse_def split_scheme_def demo_hook_def by code_simp

theorem webhook_delivery_witness:
  "fst (send_webhook demo_hook None demo_payload (u ''https://b.kr/cb?x=1'')) = Inr True"
proof -
  have "\<exists>k < MAX_ATTEMPTS. \<exists>s.
      webhook_reply demo_hook None demo_payload (u ''https://b.kr/cb?x=1'') (u ''/cb?x=1'') k = Response s \<and>
      200 \<le> s \<and> s < 300 \<and>
      (\<forall>j < k. webhook_reply demo_hook None demo_payload (u ''https://b.kr/cb?x=1'') (u ''/cb?x=1'') j = Transport_error \<or>
        (\<exists>s'. webhook_reply demo_hook None demo_payload (u ''https://b.kr/cb?x=1'') (u ''/cb?x=1'') j = Response s' \<and>
           (s' \<ge> 500 \<or> s' \<in> {408, 429})))"
    by (rule exI [of _ 2])
      (auto simp: webhook_reply_def demo_hook_def MAX_ATTEMPTS_def RETRY_DELAYS_SECONDS_def less_Suc_eq numeral_2_eq_2)
  with webhook_delivery [OF demo_path, of None demo_payload] show ?thesis by blast
qed

definition authentic :: "ustr \<Rightarrow> ustr \<Rightarrow> out_request \<Rightarrow> bool" where
  "authentic secret path q \<longleftrightarrow>
     (case (map_of (oq_headers q) ''X-Timestamp'', map_of (oq_headers q) ''X-Nonce'') of
        (Some ts, Some nonce) \<Rightarrow>
          map_of (oq_headers q) ''X-Signature'' =
            Some (compute_signature secret ts nonce (oq_method q) path (oq_body q))
      | _ \<Rightarrow> False)"

text \<open>
  The receiver's check of \<^verbatim>\<open>docs/api_integration.md\<close>, section 6: the path of the callback address,
  without its query, goes into the canonical string.
\<close>

definition verify_webhook :: "hook_env \<Rightarrow> ustr \<Rightarrow> ustr \<Rightarrow> out_request \<Rightarrow> bool" where
  "verify_webhook env secret callback_url q =
     (case urlparse env callback_url of
        Inl e \<Rightarrow> False
      | Inr (path, query) \<Rightarrow> authentic secret (if path = [] then u ''/'' else path) q)"

definition unsigned_request :: "out_request \<Rightarrow> bool" where
  "unsigned_request q \<longleftrightarrow> ''X-Signature'' \<notin> fst ` set (oq_headers q)"

text \<open>The path that is signed, and the requests of a result delivery and of a deletion.\<close>

definition signed_path :: "ustr \<Rightarrow> ustr \<Rightarrow> ustr" where
  "signed_path path query =
     (if path = [] then u ''/'' else path) @ (if query = [] then [] else u ''?'' @ query)"

definition post_requests :: "hook_env \<Rightarrow> ustr option \<Rightarrow> webhook_payload \<Rightarrow> ustr \<Rightarrow> out_request list" where
  "post_requests env ss payload url = requests_of (snd (send_webhook env ss payload url))"

definition delete_requests ::
  "hook_env \<Rightarrow> ustr option \<Rightarrow> ustr \<Rightarrow> ustr \<Rightarrow> string \<Rightarrow> ustr \<Rightarrow> ustr \<Rightarrow> out_request list" where
  "delete_requests env ss rid jid code reason url =
     requests_of (snd (send_delete_request env ss rid jid code reason url))"

text \<open>
  C16: callbacks are signed as the gateway signs, and can be checked as documented when the address
  has no query.  Take a callback address that parses to a path and a query.  With a signing secret,
  every request of a result delivery and of a deletion, retries included, carries timestamp,
  nonce and a signature of its method, its body and the path followed by the query, if there is one.
  When there is none, the receiver's check of the documentation accepts all of them; with a query it
  recomputes the signature for a different path.  Without a secret, which is the default, no request is signed.
\<close>

theorem callbacks_authentic:
  assumes "urlparse env url = Inr (path, query)"
  shows "list_all (\<lambda>q. oq_method q = u ''POST'' \<and> oq_body q = utf8_encode (he_dump env payload)) (post_requests env ss payload url) \<and>
         list_all (\<lambda>q. oq_method q = u ''DELETE'' \<and> oq_body q = delete_body rid jid code reason) (delete_requests env ss rid jid code reason url) \<and>
         (secret_for ss env \<noteq> [] \<longrightarrow> list_all (authentic (secret_for ss env) (signed_path path query)) (post_requests env ss payload url @ delete_requests env ss rid jid code reason url)) \<and>
         (secret_for ss env \<noteq> [] \<and> query = [] \<longrightarrow>
            list_all (verify_webhook env (secret_for ss env) url) (post_requests env ss payload url @ delete_requests env ss rid jid code reason url)) \<and>
         (query \<noteq> [] \<longrightarrow> signed_path path query \<noteq> (if path = [] then u ''/'' else path)) \<and>
         (secret_for ss env = [] \<longrightarrow> list_all unsigned_request (post_requests env ss payload url @ delete_requests env ss rid jid code reason url))"
proof -
  let ?qs = "post_requests env ss payload url @ delete_requests env ss rid jid code reason url"
  have path: "request_path env url = Inr (signed_path path query)"
    using assms(1) by (simp add: request_path_def signed_path_def Let_def)
  have plain: "list_all (\<lambda>q. oq_method q = u ''POST'' \<and> oq_body q = utf8_encode (he_dump env payload)) (post_requests env ss payload url)"
    "list_all (\<lambda>q. oq_method q = u ''DELETE'' \<and> oq_body q = delete_body rid jid code reason) (delete_requests env ss rid jid code reason url)"
    "secret_for ss env = [] \<longrightarrow> list_all unsigned_request ?qs"
    using hook.requests_plain [OF path, of _ ss payload] del.requests_plain [OF path, of _ ss rid jid code reason]
    unfolding post_requests_def delete_requests_def by (auto simp: list_all_iff unsigned_request_def)
  have auth: "list_all (authentic (secret_for ss env) (signed_path path query)) ?qs" if "secret_for ss env \<noteq> []"
  proof -
    have "authentic (secret_for ss env) (signed_path path query) q" if "q \<in> set (post_requests env ss payload url)" for q
      using hook.requests_signed [OF path \<open>secret_for ss env \<noteq> []\<close> that [unfolded post_requests_def]]
      by (auto simp: authentic_def)
    moreover have "authentic (secret_for ss env) (signed_path path query) q" if "q \<in> set (delete_requests env ss rid jid code reason url)" for q
      using del.requests_signed [OF path \<open>secret_for ss env \<noteq> []\<close> that [unfolded delete_requests_def]]
      by (auto simp: authentic_def)
    ultimately show ?thesis by (auto simp: list_all_iff)
  qed
  moreover have "list_all (verify_webhook env (secret_for ss env) url) ?qs" if "secret_for ss env \<noteq> []" "query = []"
    using auth [OF that(1)] that(2) assms(1) by (simp add: verify_webhook_def list_all_iff signed_path_def)
  moreover have "query \<noteq> [] \<longrightarrow> signed_path path query \<noteq> (if path = [] then u ''/'' else path)"
    by (simp add: signed_path_def)
  ultimately show ?thesis using plain by blast
qed

lemma demo_url: "urlparse demo_hook (u ''https://b.kr/cb'') = Inr (u ''/cb'', [])"
  unfolding urlparse_def split_scheme_def demo_hook_def by code_simp

theorem callbacks_authentic_witness:
  "list_all (verify_webhook demo_hook (u ''s3'') (u ''https://b.kr/cb''))
     (post_requests demo_hook None demo_payload (u ''https://b.kr/cb''))"
  using callbacks_authentic [OF demo_url, where ss = None and payload = demo_payload]
  by (simp add: secret_for_def) (simp add: demo_hook_def list_all_append)

end
