(* ===== verification/Extract.thy ===== *)
theory Extract
  imports Py_Unicode Sha256 Codes "HOL-Library.List_Lexorder"
begin

text \<open>
  \<^verbatim>\<open>app/extractors\<close>: text out of attachment bytes.  The parsers (pdfplumber, pypdfium2, python-docx,
  openpyxl, python-pptx, lxml, zipfile, PIL, the OCR engines) are parameters of the model, what each
  returns or raises on the given bytes; the code around them is translated: size, page and encryption
  guards, fallbacks, the walk over the parsed document, the translation of failures into response
  codes, and the MIME dispatch.
\<close>

section \<open>Failures\<close>

text \<open>\<^verbatim>\<open>ExtractionError\<close> with its response code, or any other exception with its message.\<close>

datatype wexn = Extraction_error string | Other_error ustr

type_synonym 'a res = "wexn + 'a"

section \<open>Decoding text\<close>

definition cont :: "nat \<Rightarrow> bool" where
  "cont b \<longleftrightarrow> 128 \<le> b \<and> b \<le> 191"

text \<open>The strict UTF-8 decoder on byte values: no overlong forms, no surrogates, nothing above U+10FFFF.\<close>

fun utf8_dec :: "nat list \<Rightarrow> ustr option" where
  "utf8_dec [] = Some []"
| "utf8_dec (b0 # r) =
     (if b0 < 128 then map_option (Cons b0) (utf8_dec r)
      else if 194 \<le> b0 \<and> b0 \<le> 223 then
        (case r of
           b1 # r1 \<Rightarrow> if cont b1 then map_option (Cons ((b0 - 192) * 64 + (b1 - 128))) (utf8_dec r1) else None
         | [] \<Rightarrow> None)
      else if 224 \<le> b0 \<and> b0 \<le> 239 then
        (case r of
           b1 # b2 # r2 \<Rightarrow>
             if cont b1 \<and> cont b2 \<and> (b0 = 224 \<longrightarrow> 160 \<le> b1) \<and> (b0 = 237 \<longrightarrow> b1 \<le> 159)
             then map_option (Cons ((b0 - 224) * 4096 + (b1 - 128) * 64 + (b2 - 128))) (utf8_dec r2) else None
         | _ \<Rightarrow> None)
      else if 240 \<le> b0 \<and> b0 \<le> 244 then
        (case r of
           b1 # b2 # b3 # r3 \<Rightarrow>
             if cont b1 \<and> cont b2 \<and> cont b3 \<and> (b0 = 240 \<longrightarrow> 144 \<le> b1) \<and> (b0 = 244 \<longrightarrow> b1 \<le> 143)
             then map_option (Cons ((b0 - 240) * 262144 + (b1 - 128) * 4096 + (b2 - 128) * 64 + (b3 - 128)))
                    (utf8_dec r3) else None
         | _ \<Rightarrow> None)
      else None)"

definition utf8_decode :: "bytes \<Rightarrow> ustr option" where
  "utf8_decode bs = utf8_dec (map unat bs)"

section \<open>The parameters\<close>

text \<open>A failure of the PDF opener: whether it is a \<^verbatim>\<open>PdfiumError\<close>, and the message.\<close>

record image =
  im_width :: nat
  im_height :: nat
  im_mode :: string
  im_pixels :: bytes

record ocr_box =
  ob_x1 :: int
  ob_y1 :: int
  ob_x2 :: int
  ob_y2 :: int
  ob_text :: ustr

record ocr_result =
  or_text :: ustr
  or_boxes :: "ocr_box list"
  or_width :: nat
  or_height :: nat

datatype pptx_shape =
    Table_shape "ustr list list"
  | Group_shape "pptx_shape list"
  | Text_shape "ustr list list"
  | Other_shape

record pptx_slide =
  sl_shapes :: "pptx_shape list"
  sl_notes :: "ustr list list option"

text \<open>A document opener fails, or yields a document whose walk fails or gives its content.\<close>

type_synonym 'd opened = "ustr + (ustr + 'd)"

datatype xml_outcome = Parsed "(ustr option \<times> ustr option) list" | Syntax_or_key_error | Zip_raise ustr

datatype page_outcome = Rendered image | Not_an_image | Render_raise ustr

datatype vlm_outcome = Vlm_ok ocr_result | Vlm_error ustr | Vlm_raise ustr

record extract_libs =
  xl_cp949 :: "bytes \<Rightarrow> ustr option"
  xl_pdfium_open :: "bytes \<Rightarrow> (bool \<times> ustr) + nat"
  xl_plumber :: "bytes \<Rightarrow> ustr list \<times> ustr option"
  xl_pdfium_text :: "bytes \<Rightarrow> ustr + ustr list"
  xl_docx :: "bytes \<Rightarrow> (ustr list \<times> ustr list list list) opened"
  xl_xlsx :: "bytes \<Rightarrow> ustr option list list list opened"
  xl_pptx :: "bytes \<Rightarrow> pptx_slide list opened"
  xl_zip :: "bytes \<Rightarrow> ustr list option"
  xl_zip_xml :: "bytes \<Rightarrow> ustr \<Rightarrow> xml_outcome"
  xl_pdf_pages :: "bytes \<Rightarrow> ustr + page_outcome list"
  xl_open_image :: "bytes \<Rightarrow> (image \<times> image list) option"
  xl_transpose :: "image \<Rightarrow> image"
  xl_thumbnail :: "image \<Rightarrow> image"
  xl_convert :: "image \<Rightarrow> image"
  xl_paddle_available :: bool
  xl_paddle :: "image \<Rightarrow> ustr + ocr_result"
  xl_vlm :: "image \<Rightarrow> vlm_outcome"
  xl_ocr_engine :: string
  xl_max_pages :: "nat option"

section \<open>PDF\<close>

definition MAX_PAGES :: nat where "MAX_PAGES = 100"
definition MAX_PDF_SIZE :: nat where "MAX_PDF_SIZE = 50 * 1024 * 1024"

definition ENCRYPTED_HINTS :: "string list" where
  "ENCRYPTED_HINTS = [''encrypted'', ''password'', ''decrypt'']"

definition looks_encrypted :: "ustr \<Rightarrow> bool" where
  "looks_encrypted msg \<longleftrightarrow> list_ex (\<lambda>h. contains (u h) (lower msg)) ENCRYPTED_HINTS"

definition has_encrypt_dict :: "bytes \<Rightarrow> bool" where
  "has_encrypt_dict data =
     contains (utf8_encode (u ''/Encrypt'')) (if length data > 4096 then drop (length data - 4096) data else data)"

definition extract_pdf :: "extract_libs \<Rightarrow> bytes \<Rightarrow> (ustr \<times> bool) res" where
  "extract_pdf lib data =
     (if length data > MAX_PDF_SIZE then Inl (Extraction_error ''REQ-4031'')
      else if has_encrypt_dict data then Inl (Extraction_error ''REQ-4051'')
      else case xl_pdfium_open lib data of
        Inl (is_pdfium, msg) \<Rightarrow>
          Inl (Extraction_error (if is_pdfium \<and> looks_encrypted msg then ''REQ-4051'' else ''REQ-4042''))
      | Inr page_count \<Rightarrow>
          if page_count > MAX_PAGES then Inl (Extraction_error ''REQ-4043'')
          else
            (let (pages, failure) = xl_plumber lib data;
                 txt = strip (join [10] (filter (\<lambda>t. t \<noteq> []) pages))
             in if (case failure of None \<Rightarrow> False | Some msg \<Rightarrow> looks_encrypted msg)
                then Inl (Extraction_error ''REQ-4051'')
                else if txt \<noteq> [] then Inr (txt, False)
                else case xl_pdfium_text lib data of
                  Inl msg \<Rightarrow> Inl (Extraction_error (if looks_encrypted msg then ''REQ-4051'' else ''REQ-4042''))
                | Inr pages_text \<Rightarrow>
                    (let txt = strip (join [10] pages_text)
                     in if txt \<noteq> [] then Inr (txt, False) else Inr ([], True))))"

section \<open>Office formats\<close>

definition is_encrypted_ooxml :: "bytes \<Rightarrow> bool" where
  "is_encrypted_ooxml data \<longleftrightarrow> take 8 data = [0xD0, 0xCF, 0x11, 0xE0, 0xA1, 0xB1, 0x1A, 0xE1]"

text \<open>The shape the three OOXML extractors share: encryption sniff, open, walk.\<close>

definition extract_ooxml :: "(bytes \<Rightarrow> 'd opened) \<Rightarrow> ('d \<Rightarrow> ustr list) \<Rightarrow> bytes \<Rightarrow> ustr res" where
  "extract_ooxml open_doc walk data =
     (if is_encrypted_ooxml data then Inl (Extraction_error ''REQ-4051'')
      else case open_doc data of
        Inl msg \<Rightarrow> Inl (Extraction_error ''REQ-4042'')
      | Inr (Inl msg) \<Rightarrow> Inl (Extraction_error ''REQ-4042'')
      | Inr (Inr doc) \<Rightarrow> Inr (join [10] (walk doc)))"

definition docx_parts :: "ustr list \<times> ustr list list list \<Rightarrow> ustr list" where
  "docx_parts doc = filter (\<lambda>t. t \<noteq> []) (fst doc @ concat (map concat (snd doc)))"

definition extract_docx :: "extract_libs \<Rightarrow> bytes \<Rightarrow> ustr res" where
  "extract_docx lib = extract_ooxml (xl_docx lib) docx_parts"

text \<open>A cell holds nothing or the string of its value.\<close>

definition xlsx_parts :: "ustr option list list list \<Rightarrow> ustr list" where
  "xlsx_parts sheets =
     filter (\<lambda>t. t \<noteq> []) (map strip (List.map_filter id (concat (map concat sheets))))"

definition extract_xlsx :: "extract_libs \<Rightarrow> bytes \<Rightarrow> ustr res" where
  "extract_xlsx lib = extract_ooxml (xl_xlsx lib) xlsx_parts"

definition para_text :: "ustr list list \<Rightarrow> ustr list" where
  "para_text paras =
     map concat (filter (\<lambda>chunks. chunks \<noteq> []) (map (filter (\<lambda>t. t \<noteq> [])) paras))"

fun shape_text :: "pptx_shape \<Rightarrow> ustr list" where
  "shape_text (Table_shape rows) = filter (\<lambda>t. t \<noteq> []) (map strip (concat rows))"
| "shape_text (Group_shape shapes) = concat (map shape_text shapes)"
| "shape_text (Text_shape paras) = para_text paras"
| "shape_text Other_shape = []"

definition pptx_parts :: "pptx_slide list \<Rightarrow> ustr list" where
  "pptx_parts slides =
     concat (map (\<lambda>s. concat (map shape_text (sl_shapes s)) @
       (case sl_notes s of None \<Rightarrow> [] | Some paras \<Rightarrow> para_text paras)) slides)"

definition extract_pptx :: "extract_libs \<Rightarrow> bytes \<Rightarrow> ustr res" where
  "extract_pptx lib = extract_ooxml (xl_pptx lib) pptx_parts"

section \<open>HWPX\<close>

definition HWP5_MIMES :: "string list" where
  "HWP5_MIMES = [''application/x-hwp'', ''application/haansofthwp'']"

definition is_hwpx :: "bytes \<Rightarrow> bool" where
  "is_hwpx data \<longleftrightarrow> take 4 data = [0x50, 0x4B, 3, 4]"

text \<open>\<^verbatim>\<open>tag.split('}', 1)[1]\<close> if there is a brace.\<close>

definition local_name :: "ustr \<Rightarrow> ustr" where
  "local_name tag = (if 125 \<in> set tag then tl (dropWhile (\<lambda>c. c \<noteq> 125) tag) else tag)"

text \<open>
  The text of the elements of one section.  A comment or processing instruction (tag \<open>None\<close>) has no
  string tag: the membership test raises and nothing in the extractor catches it.
\<close>

fun section_parts :: "(ustr option \<times> ustr option) list \<Rightarrow> ustr list res" where
  "section_parts [] = Inr []"
| "section_parts ((None, t) # els) = Inl (Other_error (u ''TypeError''))"
| "section_parts ((Some tag, t) # els) =
     (case section_parts els of Inl e \<Rightarrow> Inl e | Inr ps \<Rightarrow>
      Inr (if local_name tag \<in> {u ''t'', u ''char''}
           then (case t of None \<Rightarrow> ps | Some s \<Rightarrow> if s = [] then ps else s # ps) else ps))"

fun read_sections :: "(ustr \<Rightarrow> xml_outcome) \<Rightarrow> ustr list \<Rightarrow> ustr list res" where
  "read_sections rd [] = Inr []"
| "read_sections rd (n # ns) =
     (case rd n of
        Syntax_or_key_error \<Rightarrow> Inl (Extraction_error ''REQ-4042'')
      | Zip_raise msg \<Rightarrow> Inl (Other_error msg)
      | Parsed els \<Rightarrow>
          (case section_parts els of Inl e \<Rightarrow> Inl e | Inr ps \<Rightarrow>
           case read_sections rd ns of Inl e \<Rightarrow> Inl e | Inr qs \<Rightarrow> Inr (ps @ qs)))"

definition ends_with :: "ustr \<Rightarrow> ustr \<Rightarrow> bool" where
  "ends_with s p = starts_with (rev s) (rev p)"

definition section_names :: "ustr list \<Rightarrow> ustr list" where
  "section_names all =
     (let xml = (\<lambda>n. ends_with n (u ''.xml'') \<and> contains (u ''section'') (lower n));
          names = sort (filter (\<lambda>n. starts_with n (u ''Contents/'') \<and> xml n) all)
      in if names = [] then sort (filter xml all) else names)"

definition extract_hwpx :: "extract_libs \<Rightarrow> bytes \<Rightarrow> ustr \<Rightarrow> ustr res" where
  "extract_hwpx lib data mime =
     (if mime \<in> u ` set HWP5_MIMES then Inl (Extraction_error ''REQ-4033'')
      else if \<not> is_hwpx data then Inl (Extraction_error ''REQ-4033'')
      else case xl_zip lib data of
        None \<Rightarrow> Inl (Extraction_error ''REQ-4042'')
      | Some names \<Rightarrow> map_sum id (join [10]) (read_sections (xl_zip_xml lib data) (section_names names)))"

section \<open>OCR\<close>

definition MAX_OCR_IMAGE_BYTES :: nat where "MAX_OCR_IMAGE_BYTES = 100 * 1024 * 1024"
definition MAX_OCR_DIMENSION :: nat where "MAX_OCR_DIMENSION = 16384"

definition IMAGE_MIME_TYPES :: "string list" where
  "IMAGE_MIME_TYPES = [''image/jpeg'', ''image/png'', ''image/tiff'', ''image/bmp'', ''image/webp'', ''image/gif'']"

definition normalise :: "extract_libs \<Rightarrow> image \<Rightarrow> image" where
  "normalise lib img =
     (let t = xl_transpose lib img;
          t = (if im_width t > MAX_OCR_DIMENSION \<or> im_height t > MAX_OCR_DIMENSION then xl_thumbnail lib t else t)
      in if im_mode t \<notin> {''RGB'', ''L''} then xl_convert lib t else t)"

definition run_engine :: "extract_libs \<Rightarrow> image \<Rightarrow> ocr_result res" where
  "run_engine lib img =
     (let vlm = (case xl_vlm lib img of
            Vlm_ok r \<Rightarrow> Inr r
          | Vlm_error m \<Rightarrow> Inl (Extraction_error ''SVR-5004'')
          | Vlm_raise m \<Rightarrow> Inl (Other_error m))
      in if xl_ocr_engine lib = ''paddle'' \<and> xl_paddle_available lib then
           (case xl_paddle lib img of Inr r \<Rightarrow> Inr r | Inl m \<Rightarrow> vlm)
         else vlm)"

definition shift_boxes :: "ocr_box list \<Rightarrow> int \<Rightarrow> ocr_box list" where
  "shift_boxes boxes dy = map (\<lambda>b. b\<lparr>ob_y1 := ob_y1 b + dy, ob_y2 := ob_y2 b + dy\<rparr>) boxes"

text \<open>The loop over frames or pages, with the running height and width.\<close>

fun ocr_loop :: "extract_libs \<Rightarrow> nat \<Rightarrow> nat \<Rightarrow> image list \<Rightarrow> (ustr list \<times> ocr_box list \<times> nat \<times> nat) res" where
  "ocr_loop lib height width [] = Inr ([], [], width, height)"
| "ocr_loop lib height width (img # imgs) =
     (let n = normalise lib img in
      case run_engine lib n of Inl e \<Rightarrow> Inl e | Inr res \<Rightarrow>
      case ocr_loop lib (height + im_height n) (max width (im_width n)) imgs of
        Inl e \<Rightarrow> Inl e
      | Inr (txts, boxes, w, h) \<Rightarrow>
          Inr (if or_text res \<noteq> [] then or_text res # txts else txts,
               shift_boxes (or_boxes res) (int height) @ boxes, w, h))"

definition ocr_frames :: "extract_libs \<Rightarrow> image list \<Rightarrow> ocr_result res" where
  "ocr_frames lib imgs =
     (case ocr_loop lib 0 0 imgs of Inl e \<Rightarrow> Inl e
      | Inr (txts, boxes, w, h) \<Rightarrow>
          Inr \<lparr>or_text = join [10] txts, or_boxes = boxes, or_width = w, or_height = h\<rparr>)"

definition ocr_image :: "extract_libs \<Rightarrow> bytes \<Rightarrow> ustr \<Rightarrow> ocr_result res" where
  "ocr_image lib data mime =
     (if length data > MAX_OCR_IMAGE_BYTES then Inl (Extraction_error ''REQ-4031'')
      else case xl_open_image lib data of
        None \<Rightarrow> Inl (Extraction_error ''REQ-4042'')
      | Some (base, rest) \<Rightarrow>
          if mime = u ''image/tiff'' \<and> rest \<noteq> [] then ocr_frames lib (base # rest)
          else run_engine lib (normalise lib base))"

definition ocr_pil_pages :: "extract_libs \<Rightarrow> image list \<Rightarrow> ocr_result res" where
  "ocr_pil_pages lib images =
     ocr_frames lib (case xl_max_pages lib of
        Some limit \<Rightarrow> if length images > limit then take limit images else images
      | None \<Rightarrow> images)"

section \<open>Dispatch on the MIME type\<close>

definition PDF_MIMES :: "string list" where "PDF_MIMES = [''application/pdf'']"
definition DOCX_MIMES :: "string list" where
  "DOCX_MIMES = [''application/vnd.openxmlformats-officedocument.wordprocessingml.document'']"
definition XLSX_MIMES :: "string list" where
  "XLSX_MIMES = [''application/vnd.openxmlformats-officedocument.spreadsheetml.sheet'']"
definition PPTX_MIMES :: "string list" where
  "PPTX_MIMES = [''application/vnd.openxmlformats-officedocument.presentationml.presentation'']"
definition HWPX_MIMES :: "string list" where
  "HWPX_MIMES = [''application/hwp+zip'', ''application/x-hwpx'', ''application/haansofthwpx'']"
definition TEXT_MIMES :: "string list" where "TEXT_MIMES = [''text/plain'', ''text/markdown'']"

definition decode_text :: "extract_libs \<Rightarrow> bytes \<Rightarrow> ustr res" where
  "decode_text lib data =
     (case utf8_decode data of Some t \<Rightarrow> Inr t | None \<Rightarrow>
      case xl_cp949 lib data of Some t \<Rightarrow> Inr t | None \<Rightarrow> Inl (Extraction_error ''REQ-4042''))"

fun collect_pages :: "page_outcome list \<Rightarrow> image list res" where
  "collect_pages [] = Inr []"
| "collect_pages (Rendered img # ps) = map_sum id (Cons img) (collect_pages ps)"
| "collect_pages (Not_an_image # ps) = Inl (Extraction_error ''REQ-4042'')"
| "collect_pages (Render_raise m # ps) = Inl (Other_error m)"

definition render_pdf_pages :: "extract_libs \<Rightarrow> bytes \<Rightarrow> image list res" where
  "render_pdf_pages lib data =
     (case xl_pdf_pages lib data of
        Inl msg \<Rightarrow> Inl (Extraction_error ''REQ-4042'')
      | Inr pages \<Rightarrow> collect_pages pages)"

text \<open>\<^verbatim>\<open>extract_image\<close> opens the bytes a second time, unguarded, after the OCR.\<close>

definition extract_image :: "extract_libs \<Rightarrow> bytes \<Rightarrow> ustr \<Rightarrow> ocr_result res" where
  "extract_image lib data mime =
     (case ocr_image lib data mime of Inl e \<Rightarrow> Inl e
      | Inr r \<Rightarrow> (case xl_open_image lib data of None \<Rightarrow> Inl (Other_error []) | Some imgs \<Rightarrow> Inr r))"

definition ocr_scan_pdf :: "extract_libs \<Rightarrow> bytes \<Rightarrow> ustr res" where
  "ocr_scan_pdf lib data =
     (case render_pdf_pages lib data of Inl e \<Rightarrow> Inl e
      | Inr pages \<Rightarrow> if pages = [] then Inr [] else map_sum id or_text (ocr_pil_pages lib pages))"

definition dispatch_extract :: "extract_libs \<Rightarrow> bytes \<Rightarrow> ustr \<Rightarrow> (ustr \<times> bool) res" where
  "dispatch_extract lib data mime =
     (if mime \<in> u ` set PDF_MIMES then
        (case extract_pdf lib data of Inl e \<Rightarrow> Inl e
         | Inr (txt, is_scan) \<Rightarrow>
             if \<not> is_scan then Inr (txt, False) else map_sum id (\<lambda>t. (t, True)) (ocr_scan_pdf lib data))
      else if mime \<in> u ` set DOCX_MIMES then map_sum id (\<lambda>t. (t, False)) (extract_docx lib data)
      else if mime \<in> u ` set XLSX_MIMES then map_sum id (\<lambda>t. (t, False)) (extract_xlsx lib data)
      else if mime \<in> u ` set PPTX_MIMES then map_sum id (\<lambda>t. (t, False)) (extract_pptx lib data)
      else if mime \<in> u ` set HWPX_MIMES then map_sum id (\<lambda>t. (t, False)) (extract_hwpx lib data mime)
      else if mime \<in> u ` set HWP5_MIMES then Inl (Extraction_error ''REQ-4033'')
      else if mime \<in> u ` set IMAGE_MIME_TYPES then
        map_sum id (\<lambda>r. (or_text r, True)) (ocr_image lib data mime)
      else if mime \<in> u ` set TEXT_MIMES then map_sum id (\<lambda>t. (t, False)) (decode_text lib data)
      else Inl (Extraction_error ''REQ-4033''))"

section \<open>Failure codes\<close>

text \<open>The response codes an extractor can end with; \<open>E\<close> collects those of a computation.\<close>

definition fails_with :: "string set \<Rightarrow> 'a res \<Rightarrow> bool" where
  "fails_with E r \<longleftrightarrow> (\<forall>c. r = Inl (Extraction_error c) \<longrightarrow> c \<in> E)"

lemma fails_with_Inr [simp]: "fails_with E (Inr x)"
  and fails_with_Err [simp]: "fails_with E (Inl (Extraction_error c)) \<longleftrightarrow> c \<in> E"
  and fails_with_Other [simp]: "fails_with E (Inl (Other_error m))"
  by (simp_all add: fails_with_def)

lemma fails_with_map [simp]: "fails_with E (map_sum id f r) \<longleftrightarrow> fails_with E r"
  by (cases r) (auto simp: fails_with_def)

lemma fails_with_mono: "fails_with E r \<Longrightarrow> E \<subseteq> F \<Longrightarrow> fails_with F r"
  by (auto simp: fails_with_def)

lemma fails_with_Inl: "fails_with E (Inl e :: 'a res) \<Longrightarrow> fails_with E (Inl e :: 'b res)"
  by (simp add: fails_with_def)

lemma extract_pdf_fails: "fails_with {''REQ-4031'', ''REQ-4051'', ''REQ-4042'', ''REQ-4043''} (extract_pdf lib data)"
  by (auto simp: extract_pdf_def Let_def split: sum.splits prod.splits option.splits)

lemma extract_ooxml_fails: "fails_with {''REQ-4051'', ''REQ-4042''} (extract_ooxml op wk data)"
  by (auto simp: extract_ooxml_def split: sum.splits)

lemma section_parts_fails: "fails_with {} (section_parts els)"
  by (induction els rule: section_parts.induct) (auto split: sum.splits dest: fails_with_Inl)

lemma read_sections_fails: "fails_with {''REQ-4042''} (read_sections rd ns)"
proof (induction ns)
  case Nil
  then show ?case by simp
next
  case (Cons n ns)
  show ?case
  proof (cases "rd n")
    case (Parsed els)
    with Cons section_parts_fails [of els] show ?thesis
      by (auto split: sum.splits simp: fails_with_def)
  qed simp_all
qed

lemma run_engine_fails: "fails_with {''SVR-5004''} (run_engine lib img)"
  by (auto simp: run_engine_def Let_def split: sum.splits vlm_outcome.splits)

lemma ocr_loop_fails: "fails_with {''SVR-5004''} (ocr_loop lib h w imgs)"
proof (induction imgs arbitrary: h w)
  case Nil
  then show ?case by simp
next
  case (Cons img imgs)
  show ?case
    using Cons [of "h + im_height (normalise lib img)" "max w (im_width (normalise lib img))"]
      run_engine_fails [of lib "normalise lib img"]
    by (auto simp: Let_def fails_with_def split: sum.splits)
qed

lemma ocr_frames_fails: "fails_with {''SVR-5004''} (ocr_frames lib imgs)"
  using ocr_loop_fails [of lib 0 0 imgs] by (auto simp: ocr_frames_def fails_with_def split: sum.splits)

lemma ocr_image_fails: "fails_with {''REQ-4031'', ''REQ-4042'', ''SVR-5004''} (ocr_image lib data mime)"
  using fails_with_mono [OF run_engine_fails] fails_with_mono [OF ocr_frames_fails]
  by (auto simp: ocr_image_def split: option.splits)

lemma collect_pages_fails: "fails_with {''REQ-4042''} (collect_pages ps)"
  by (induction ps rule: collect_pages.induct) simp_all

lemma ocr_pil_pages_fails: "fails_with {''SVR-5004''} (ocr_pil_pages lib imgs)"
  unfolding ocr_pil_pages_def by (rule ocr_frames_fails)

lemma render_pdf_pages_fails: "fails_with {''REQ-4042''} (render_pdf_pages lib data)"
  using collect_pages_fails by (auto simp: render_pdf_pages_def split: sum.splits)

lemma ocr_scan_pdf_fails: "fails_with {''REQ-4042'', ''SVR-5004''} (ocr_scan_pdf lib data)"
proof (cases "render_pdf_pages lib data")
  case (Inl e)
  with render_pdf_pages_fails [of lib data] show ?thesis
    by (auto simp: ocr_scan_pdf_def fails_with_def)
next
  case (Inr pages)
  then show ?thesis
    using fails_with_mono [OF ocr_pil_pages_fails, of "{''REQ-4042'', ''SVR-5004''}" lib pages]
    by (simp add: ocr_scan_pdf_def)
qed

lemma extract_hwpx_fails: "fails_with {''REQ-4033'', ''REQ-4042''} (extract_hwpx lib data mime)"
  using fails_with_mono [OF read_sections_fails, of "{''REQ-4033'', ''REQ-4042''}"]
  by (auto simp: extract_hwpx_def split: option.splits)

lemma decode_text_fails: "fails_with {''REQ-4042''} (decode_text lib data)"
  by (auto simp: decode_text_def split: option.splits)

definition EXTRACTION_CODES :: "string set" where
  "EXTRACTION_CODES = {''REQ-4031'', ''REQ-4033'', ''REQ-4042'', ''REQ-4043'', ''REQ-4051'', ''SVR-5004''}"

lemmas extractor_fails =
  extract_pdf_fails ocr_scan_pdf_fails extract_hwpx_fails ocr_image_fails decode_text_fails extract_ooxml_fails

lemma extractor_codes:
  "fails_with EXTRACTION_CODES (extract_pdf lib data)" "fails_with EXTRACTION_CODES (ocr_scan_pdf lib data)"
  "fails_with EXTRACTION_CODES (extract_hwpx lib data mime)" "fails_with EXTRACTION_CODES (ocr_image lib data mime)"
  "fails_with EXTRACTION_CODES (decode_text lib data)" "fails_with EXTRACTION_CODES (extract_ooxml op wk data)"
  by (rule fails_with_mono, rule extractor_fails, simp add: EXTRACTION_CODES_def)+

lemma dispatch_extract_fails: "fails_with EXTRACTION_CODES (dispatch_extract lib data mime)"
proof (cases "mime \<in> u ` set PDF_MIMES")
  case True
  show ?thesis
  proof (cases "extract_pdf lib data")
    case (Inl e)
    with True extractor_codes(1) [of lib data] show ?thesis
      by (auto simp: dispatch_extract_def fails_with_def)
  next
    case (Inr r)
    with True extractor_codes(2) [of lib data] show ?thesis
      by (auto simp: dispatch_extract_def split: prod.splits)
  qed
next
  case False
  have "''REQ-4033'' \<in> EXTRACTION_CODES" by (simp add: EXTRACTION_CODES_def)
  with False show ?thesis
    by (simp add: dispatch_extract_def extract_docx_def extract_xlsx_def extract_pptx_def extractor_codes)
qed

section \<open>Text round trip\<close>

text \<open>A code point that can be encoded: in range and no surrogate.\<close>

definition scalar :: "nat \<Rightarrow> bool" where
  "scalar c \<longleftrightarrow> c < 55296 \<or> 57344 \<le> c \<and> c < 1114112"

lemma utf8_char_bytes: "scalar c \<Longrightarrow> b \<in> set (utf8_char c) \<Longrightarrow> b < 256"
  by (auto simp: scalar_def utf8_char_def split: if_splits)

lemma base64_digits:
  fixes c :: nat
  shows "c = 64 * (c div 64) + c mod 64" "c div 64 = 64 * (c div 4096) + c div 64 mod 64"
    "c div 4096 = 64 * (c div 262144) + c div 4096 mod 64"
  using div_mult2_eq [of c 64 64] div_mult2_eq [of c 4096 64] by simp_all

lemma utf8_dec_char:
  assumes "scalar c"
  shows "utf8_dec (utf8_char c @ r) = map_option (Cons c) (utf8_dec r)"
proof -
  define d where "d = c mod 64"
  define b where "b = c div 64 mod 64"
  define a where "a = c div 4096 mod 64"
  define e where "e = c div 262144"
  have lt: "d < 64" "b < 64" "a < 64" by (simp_all add: d_def b_def a_def)
  have c64: "c div 64 = 64 * (c div 4096) + b" and c4096: "c div 4096 = 64 * e + a"
    and c: "c = 64 * (c div 64) + d"
    using base64_digits [of c] by (simp_all add: d_def b_def a_def e_def)
  note defs = d_def [symmetric] b_def [symmetric] a_def [symmetric] e_def [symmetric]
  have k: "cont (128 + d)" "cont (128 + b)" "cont (128 + a)" using lt by (simp_all add: cont_def)
  consider "c < 128" | "128 \<le> c" "c < 2048" | "2048 \<le> c" "c < 65536" | "65536 \<le> c" "c < 1114112"
    using assms unfolding scalar_def by linarith
  then show ?thesis
  proof cases
    case 1
    then show ?thesis by (simp add: utf8_char_def)
  next
    case 2
    define q where "q = c div 64"
    have q: "c = q * 64 + d" using c by (simp add: q_def)
    have "2 \<le> q" "q \<le> 31" using 2 q lt by linarith+
    moreover have "utf8_char c = [192 + q, 128 + d]" using 2 by (simp add: utf8_char_def defs q_def)
    ultimately show ?thesis using k q by simp
  next
    case 3
    define q where "q = c div 4096"
    have q: "c = 4096 * q + 64 * b + d" using c c64 by (simp add: q_def)
    have "q \<le> 15" using q 3 by linarith
    moreover have "32 \<le> b" if "q = 0" using q 3 lt that by linarith
    moreover have "b \<le> 31" if "q = 13" using q assms lt that unfolding scalar_def by linarith
    moreover have "utf8_char c = [224 + q, 128 + b, 128 + d]" using 3 by (simp add: utf8_char_def defs q_def)
    ultimately show ?thesis using k q by (auto simp: algebra_simps)
  next
    case 4
    have q: "c = 262144 * e + 4096 * a + 64 * b + d" using c c64 c4096 by simp
    have "e \<le> 4" using q 4 by linarith
    moreover have "16 \<le> a" if "e = 0" using q 4 lt that by linarith
    moreover have "a \<le> 15" if "e = 4" using q 4 lt that by linarith
    moreover have "utf8_char c = [240 + e, 128 + a, 128 + b, 128 + d]" using 4 by (simp add: utf8_char_def defs)
    ultimately show ?thesis using k q by (auto simp: algebra_simps)
  qed
qed

lemma utf8_dec_encode: "list_all scalar s \<Longrightarrow> utf8_dec (concat (map utf8_char s)) = Some s"
  by (induction s) (simp_all add: utf8_dec_char)

lemma utf8_roundtrip:
  assumes "list_all scalar s"
  shows "utf8_decode (utf8_encode s) = Some s"
proof -
  have "map unat (map of_nat bs :: bytes) = bs" if "\<forall>b \<in> set bs. b < 256" for bs
    using that by (auto simp: unat_of_nat intro!: map_idI)
  moreover have "\<forall>b \<in> set (concat (map utf8_char s)). b < 256"
    using assms utf8_char_bytes by (auto simp: list_all_iff)
  ultimately show ?thesis
    using utf8_dec_encode [OF assms] by (simp only: utf8_decode_def utf8_encode_def)
qed

section \<open>Properties\<close>

text \<open>Sample parameters: parsers that find nothing, an OCR engine that reads one box per page.\<close>

definition demo_libs :: extract_libs where
  "demo_libs = \<lparr>xl_cp949 = (\<lambda>d. None), xl_pdfium_open = (\<lambda>d. Inr 2), xl_plumber = (\<lambda>d. ([], None)),
     xl_pdfium_text = (\<lambda>d. Inr []), xl_docx = (\<lambda>d. Inr (Inr ([], []))), xl_xlsx = (\<lambda>d. Inr (Inr [])),
     xl_pptx = (\<lambda>d. Inr (Inr [])), xl_zip = (\<lambda>d. None), xl_zip_xml = (\<lambda>d n. Syntax_or_key_error),
     xl_pdf_pages = (\<lambda>d. Inr []), xl_open_image = (\<lambda>d. None), xl_transpose = id, xl_thumbnail = id,
     xl_convert = id, xl_paddle_available = False, xl_paddle = (\<lambda>i. Inl []),
     xl_vlm = (\<lambda>i. Vlm_ok \<lparr>or_text = u ''x'', or_boxes = [\<lparr>ob_x1 = 0, ob_y1 = 1, ob_x2 = 5, ob_y2 = 9, ob_text = u ''x''\<rparr>],
        or_width = im_width i, or_height = im_height i\<rparr>),
     xl_ocr_engine = ''vlm'', xl_max_pages = None\<rparr>"

definition box_in :: "int \<Rightarrow> int \<Rightarrow> ocr_box \<Rightarrow> bool" where
  "box_in lo hi b \<longleftrightarrow> lo \<le> ob_y1 b \<and> ob_y1 b \<le> ob_y2 b \<and> ob_y2 b \<le> hi"

text \<open>The engine's boxes lie inside the image it was given.\<close>

definition boxes_inside :: "extract_libs \<Rightarrow> image \<Rightarrow> bool" where
  "boxes_inside lib img \<longleftrightarrow>
     (case run_engine lib img of Inl e \<Rightarrow> True
      | Inr r \<Rightarrow> list_all (box_in 0 (int (im_height img))) (or_boxes r))"

fun stacked :: "int \<Rightarrow> image list \<Rightarrow> ocr_box list list \<Rightarrow> bool" where
  "stacked y [] [] = True"
| "stacked y (img # imgs) (bs # bss) =
     (list_all (box_in y (y + int (im_height img))) bs \<and> stacked (y + int (im_height img)) imgs bss)"
| "stacked y _ _ = False"

lemma shift_boxes_in:
  "list_all (box_in 0 h) bs \<Longrightarrow> list_all (box_in y (y + h)) (shift_boxes bs y)"
  by (auto simp: list_all_iff shift_boxes_def box_in_def)

lemma ocr_loop_stacked:
  assumes "ocr_loop lib h w imgs = Inr (txts, boxes, w', h')"
    and "\<forall>img \<in> set imgs. boxes_inside lib (normalise lib img)"
  shows "(\<exists>bss. boxes = concat bss \<and> stacked (int h) (map (normalise lib) imgs) bss) \<and>
     h' = h + sum_list (map (im_height \<circ> normalise lib) imgs)"
  using assms
proof (induction imgs arbitrary: h w txts boxes)
  case Nil
  then show ?case by (auto intro: exI [of _ "[]"])
next
  case (Cons img imgs)
  let ?n = "normalise lib img"
  obtain res txts' boxes' where res: "run_engine lib ?n = Inr res"
    "ocr_loop lib (h + im_height ?n) (max w (im_width ?n)) imgs = Inr (txts', boxes', w', h')"
    "boxes = shift_boxes (or_boxes res) (int h) @ boxes'"
    using Cons.prems(1) by (auto simp: Let_def split: sum.splits prod.splits)
  have all: "\<forall>img \<in> set imgs. boxes_inside lib (normalise lib img)"
    using Cons.prems(2) by simp
  from Cons.IH [OF res(2) all] obtain bss where
    "boxes' = concat bss" "stacked (int h + int (im_height ?n)) (map (normalise lib) imgs) bss"
    "h' = h + im_height ?n + sum_list (map (im_height \<circ> normalise lib) imgs)"
    by (auto simp: comp_def)
  moreover have "list_all (box_in (int h) (int h + int (im_height ?n))) (shift_boxes (or_boxes res) (int h))"
    using Cons.prems(2) res(1) by (intro shift_boxes_in) (simp add: boxes_inside_def)
  ultimately show ?case
    using res(3) by (intro conjI exI [of _ "shift_boxes (or_boxes res) (int h) # bss"]) (auto simp: comp_def)
qed

text \<open>
  OCR boxes of a document with several pages never overlap across pages.  When the engine's boxes
  lie inside each page image, the boxes of the combined result are grouped page by page, each group
  inside the vertical strip of its page on the stacked canvas, and the canvas is as high as the pages
  together.
\<close>

theorem ocr_pages_stacked:
  assumes "ocr_pil_pages lib imgs = Inr r" "xl_max_pages lib = None"
    and "\<forall>img \<in> set imgs. boxes_inside lib (normalise lib img)"
  shows "\<exists>bss. or_boxes r = concat bss \<and> stacked 0 (map (normalise lib) imgs) bss \<and>
     or_height r = sum_list (map (im_height \<circ> normalise lib) imgs)"
proof -
  obtain txts boxes w h where "ocr_loop lib 0 0 imgs = Inr (txts, boxes, w, h)"
    "r = \<lparr>or_text = join [10] txts, or_boxes = boxes, or_width = w, or_height = h\<rparr>"
    using assms(1,2) by (auto simp: ocr_pil_pages_def ocr_frames_def split: sum.splits)
  then show ?thesis
    using ocr_loop_stacked [of lib 0 0 imgs txts boxes w h] assms(3) by auto
qed

definition demo_page :: image where
  "demo_page = \<lparr>im_width = 10, im_height = 20, im_mode = ''RGB'', im_pixels = []\<rparr>"

lemma demo_ocr: "run_engine demo_libs (normalise demo_libs demo_page) = Inr
    \<lparr>or_text = u ''x'', or_boxes = [\<lparr>ob_x1 = 0, ob_y1 = 1, ob_x2 = 5, ob_y2 = 9, ob_text = u ''x''\<rparr>],
     or_width = 10, or_height = 20\<rparr>"
  "normalise demo_libs demo_page = demo_page"
  by (simp_all add: run_engine_def normalise_def demo_libs_def demo_page_def MAX_OCR_DIMENSION_def)

theorem ocr_pages_stacked_witness:
  "\<exists>r bss. ocr_pil_pages demo_libs [demo_page, demo_page] = Inr r \<and> or_boxes r = concat bss \<and>
     stacked 0 [demo_page, demo_page] bss \<and> or_height r = 40"
proof -
  obtain r where r: "ocr_pil_pages demo_libs [demo_page, demo_page] = Inr r"
    using demo_ocr by (simp add: ocr_pil_pages_def ocr_frames_def Let_def)
      (simp add: demo_libs_def)
  have "boxes_inside demo_libs (normalise demo_libs demo_page)"
    using demo_ocr by (simp add: boxes_inside_def box_in_def demo_page_def)
  then have "\<forall>img \<in> set [demo_page, demo_page]. boxes_inside demo_libs (normalise demo_libs img)"
    by simp
  from ocr_pages_stacked [OF r _ this] r show ?thesis
    using demo_ocr(2) by (auto simp: demo_libs_def demo_page_def)
qed

text \<open>
  A scanned or text PDF that yields a result is within bounds.  Text extraction succeeds only on a
  file of at most 50 MiB and 100 pages without an encryption dictionary in its tail, and it asks for
  OCR exactly when neither parser finds any visible character.
\<close>

theorem pdf_guards:
  assumes "extract_pdf lib data = Inr (txt, is_scan)"
  shows "length data \<le> 50 * 1024 * 1024 \<and> \<not> has_encrypt_dict data \<and>
     (\<exists>n \<le> 100. xl_pdfium_open lib data = Inr n) \<and>
     (is_scan \<longleftrightarrow> txt = []) \<and>
     (is_scan \<longleftrightarrow> strip (join [10] (filter (\<lambda>t. t \<noteq> []) (fst (xl_plumber lib data)))) = [] \<and>
        (\<exists>ps. xl_pdfium_text lib data = Inr ps \<and> strip (join [10] ps) = []))"
  using assms
  by (auto simp: extract_pdf_def Let_def MAX_PDF_SIZE_def MAX_PAGES_def split: if_splits sum.splits prod.splits)

theorem pdf_guards_witness:
  "extract_pdf demo_libs [] = Inr ([], True) \<and> (\<exists>n \<le> 100. xl_pdfium_open demo_libs [] = Inr n)"
proof -
  have "\<not> has_encrypt_dict []"
    by (simp add: has_encrypt_dict_def utf8_encode_def u_def utf8_char_def)
  then have "extract_pdf demo_libs [] = Inr ([], True)"
    by (simp add: extract_pdf_def demo_libs_def MAX_PDF_SIZE_def MAX_PAGES_def strip_def)
  with pdf_guards [OF this] show ?thesis by blast
qed

end
