(* ===== verification/Attachments.thy ===== *)
theory Attachments
  imports Detect Webhook Extract
begin

text \<open>
  \<^verbatim>\<open>app/workers/attachment_processor.py\<close> with \<^verbatim>\<open>app/extractors/fetcher.py\<close> and
  \<^verbatim>\<open>app/extractors/clamav.py\<close>: the background worker of Case C.  Network, scanner, database and
  senders are parameters that may fail at every call; the worker's state is the job table, the number
  of database writes so far, what was sent and deleted, the PoC log and the job metrics.  The theorems
  follow a job through success, late failure and cancellation.
\<close>

section \<open>Fetching and scanning\<close>

datatype fetch_outcome =
    Got nat bytes
  | Fetch_timeout
  | Fetch_http_error
  | Fetch_raise ustr
  | Fetch_cancelled

text \<open>What ends a job early: cancellation, which only the outermost handler sees, or an exception.\<close>

datatype wfail = Cancelled | Failed ustr

record worker_env =
  we_get :: "ustr \<Rightarrow> fetch_outcome"
  we_clam :: "bytes \<Rightarrow> ustr + string \<times> ustr option"
  we_libs :: extract_libs
  we_analyzer :: "wfail + analyzer"
  we_db :: "nat \<Rightarrow> wfail option"
  we_sender :: "ustr \<Rightarrow> webhook_payload \<Rightarrow> wfail + bool"
  we_deleter :: "ustr \<Rightarrow> uuid \<Rightarrow> ustr \<Rightarrow> string \<Rightarrow> wfail + bool"
  we_poc_setting :: bool
  we_now :: "nat \<Rightarrow> rat"

definition fetch_attachment :: "worker_env \<Rightarrow> attachment \<Rightarrow> wfail + bytes res" where
  "fetch_attachment env att =
     (case we_get env (at_fetch_url att) of
        Fetch_cancelled \<Rightarrow> Inl Cancelled
      | Fetch_timeout \<Rightarrow> Inr (Inl (Extraction_error ''REQ-4040''))
      | Fetch_http_error \<Rightarrow> Inr (Inl (Extraction_error ''REQ-4040''))
      | Fetch_raise m \<Rightarrow> Inr (Inl (Other_error m))
      | Got status data \<Rightarrow> Inr (
          if status \<ge> 400 then Inl (Extraction_error ''REQ-4040'')
          else if lower (hexdigest (sha256 data)) \<noteq> lower (at_sha256 att) then Inl (Extraction_error ''REQ-4041'')
          else Inr data))"

text \<open>Only a confirmed finding stops the attachment.\<close>

definition scan_bytes :: "worker_env \<Rightarrow> bytes \<Rightarrow> unit res" where
  "scan_bytes env data =
     (case we_clam env data of
        Inl m \<Rightarrow> Inr ()
      | Inr (status, signature) \<Rightarrow>
          if status = ''FOUND'' then Inl (Extraction_error ''REQ-4050'') else Inr ())"

section \<open>One attachment\<close>

fun has_block :: "detection list \<Rightarrow> exn + bool" where
  "has_block [] = Inr False"
| "has_block (d # ds) =
     (case get_code (d_code d) of Inl e \<Rightarrow> Inl e
      | Inr rc \<Rightarrow> if rc_verdict rc = BLOCK then Inr True else has_block ds)"

definition decide_attachment_code :: "detection list \<Rightarrow> exn + string \<times> verdict" where
  "decide_attachment_code dets =
     (case has_block dets of Inl e \<Rightarrow> Inl e
      | Inr b \<Rightarrow> Inr (if b then (''BLOCK-2010'', BLOCK) else (''OK-0000'', PASS)))"

definition attachment_field :: "attachment \<Rightarrow> ustr" where
  "attachment_field att = u ''attachment.'' @ at_attachment_id att"

definition mk_result :: "attachment \<Rightarrow> verdict \<Rightarrow> string \<Rightarrow> detection list \<Rightarrow> attachment_result" where
  "mk_result att v code dets =
     \<lparr>wr_attachment_id = at_attachment_id att, wr_filename = at_filename att, wr_verdict = v,
      wr_code = code, wr_detections = dets\<rparr>"

text \<open>The common tail of every branch: analyse the text, without database policies, and decide.\<close>

definition analyze_text :: "analyzer \<Rightarrow> strictness \<Rightarrow> attachment \<Rightarrow> ustr \<Rightarrow> attachment_result res" where
  "analyze_text engine st att txt =
     (case analyze_field engine (attachment_field att) st [] txt of
        Inl e \<Rightarrow> Inl (Other_error [])
      | Inr dets \<Rightarrow>
          (case decide_attachment_code dets of
             Inl e \<Rightarrow> Inl (Other_error [])
           | Inr (code, v) \<Rightarrow> Inr (mk_result att v code dets)))"

definition process_image :: "worker_env \<Rightarrow> analyzer \<Rightarrow> strictness \<Rightarrow> attachment \<Rightarrow> bytes \<Rightarrow> attachment_result res" where
  "process_image env engine st att data =
     (case extract_image (we_libs env) data (at_mime_type att) of Inl e \<Rightarrow> Inl e
      | Inr ocr \<Rightarrow> analyze_text engine st att (or_text ocr))"

definition process_scan_pdf ::
  "worker_env \<Rightarrow> analyzer \<Rightarrow> strictness \<Rightarrow> attachment \<Rightarrow> bytes \<Rightarrow> attachment_result res" where
  "process_scan_pdf env engine st att data =
     (case render_pdf_pages (we_libs env) data of Inl e \<Rightarrow> Inl e
      | Inr pages \<Rightarrow>
          if pages = [] then Inr (mk_result att PASS ''OK-0000'' [])
          else case ocr_pil_pages (we_libs env) pages of Inl e \<Rightarrow> Inl e
               | Inr ocr \<Rightarrow> analyze_text engine st att (or_text ocr))"

text \<open>The body of the \<^verbatim>\<open>try\<close> after the download.\<close>

definition inspect :: "worker_env \<Rightarrow> analyzer \<Rightarrow> strictness \<Rightarrow> attachment \<Rightarrow> bytes \<Rightarrow> attachment_result res" where
  "inspect env engine st att data =
     (case scan_bytes env data of Inl e \<Rightarrow> Inl e | Inr _ \<Rightarrow>
      if at_mime_type att \<in> u ` set IMAGE_MIME_TYPES then process_image env engine st att data
      else if at_mime_type att \<in> u ` set PDF_MIMES then
        (case extract_pdf (we_libs env) data of Inl e \<Rightarrow> Inl e
         | Inr (txt, is_scan) \<Rightarrow>
             if is_scan then process_scan_pdf env engine st att data
             else analyze_text engine st att txt)
      else case dispatch_extract (we_libs env) data (at_mime_type att) of Inl e \<Rightarrow> Inl e
           | Inr (txt, needs_ocr) \<Rightarrow> analyze_text engine st att txt)"

definition error_result :: "attachment \<Rightarrow> wexn \<Rightarrow> attachment_result" where
  "error_result att e =
     (case e of
        Extraction_error code \<Rightarrow> mk_result att ERROR code []
      | Other_error m \<Rightarrow> mk_result att ERROR ''REQ-4042'' [])"

definition process_one_attachment ::
  "worker_env \<Rightarrow> analyzer \<Rightarrow> strictness \<Rightarrow> attachment \<Rightarrow> wfail + attachment_result" where
  "process_one_attachment env engine st att =
     (case fetch_attachment env att of
        Inl f \<Rightarrow> Inl f
      | Inr (Inl e) \<Rightarrow> Inr (error_result att e)
      | Inr (Inr data) \<Rightarrow>
          (case inspect env engine st att data of
             Inl e \<Rightarrow> Inr (error_result att e)
           | Inr r \<Rightarrow> Inr r))"

section \<open>The whole job\<close>

definition overall_verdict :: "string \<Rightarrow> attachment_result list \<Rightarrow> verdict \<times> string" where
  "overall_verdict body_verdict results =
     (if body_verdict = verdict_value BLOCK \<or> list_ex (\<lambda>r. wr_verdict r = BLOCK) results
      then (BLOCK, case find (\<lambda>r. wr_verdict r = BLOCK) results of Some r \<Rightarrow> wr_code r | None \<Rightarrow> ''BLOCK-2008'')
      else (PASS, ''OK-0000''))"

record poc_attachment_entry =
  pa_request_id :: uuid
  pa_job_id :: ustr
  pa_actual_code :: string
  pa_actual_verdict :: string
  pa_results :: "attachment_result list"

record worker_state =
  ws_jobs :: "extraction_job list"
  ws_writes :: nat
  ws_sent :: "(ustr \<times> webhook_payload) list"
  ws_deleted :: "(ustr \<times> uuid \<times> ustr \<times> string) list"
  ws_poc :: "poc_attachment_entry list"
  ws_metrics :: "string list"

type_synonym 'a step = "(wfail + 'a) \<times> worker_state"

definition andthen :: "'a step \<Rightarrow> ('a \<Rightarrow> worker_state \<Rightarrow> 'b step) \<Rightarrow> 'b step" where
  "andthen r k = (case r of (Inl f, s) \<Rightarrow> (Inl f, s) | (Inr x, s) \<Rightarrow> k x s)"

text \<open>One session with one update; the database may fail at any of them.\<close>

definition write_job :: "worker_env \<Rightarrow> ustr \<Rightarrow> job_field list \<Rightarrow> worker_state \<Rightarrow> unit step" where
  "write_job env job_id cols s =
     (case we_db env (ws_writes s) of
        Some f \<Rightarrow> (Inl f, s\<lparr>ws_writes := Suc (ws_writes s)\<rparr>)
      | None \<Rightarrow> (Inr (), s\<lparr>ws_writes := Suc (ws_writes s), ws_jobs := update_job job_id cols (ws_jobs s)\<rparr>))"

definition observe :: "string \<Rightarrow> worker_state \<Rightarrow> worker_state" where
  "observe status s = s\<lparr>ws_metrics := ws_metrics s @ [status]\<rparr>"

text \<open>Attachments in order, each result mirrored into the row; \<open>acc\<close> are the results so far.\<close>

fun attachment_loop ::
  "worker_env \<Rightarrow> analyzer \<Rightarrow> strictness \<Rightarrow> ustr \<Rightarrow> attachment_result list \<Rightarrow> attachment list \<Rightarrow>
     worker_state \<Rightarrow> attachment_result list step" where
  "attachment_loop env engine st job_id acc [] s = (Inr acc, s)"
| "attachment_loop env engine st job_id acc (att # atts) s =
     (case process_one_attachment env engine st att of
        Inl f \<Rightarrow> (Inl f, s)
      | Inr r \<Rightarrow>
          andthen (write_job env job_id [F_attachments_json (acc @ [r])] s)
            (\<lambda>_. attachment_loop env engine st job_id (acc @ [r]) atts))"

definition user_message_for :: "verdict \<Rightarrow> string \<Rightarrow> attachment_result list \<Rightarrow> wfail + ustr" where
  "user_message_for verdict code results =
     (case get_code code of Inl e \<Rightarrow> Inl (Failed (u ''KeyError''))
      | Inr rc \<Rightarrow>
          (let filename = (case find (\<lambda>r. wr_verdict r = BLOCK) results of Some r \<Rightarrow> wr_filename r | None \<Rightarrow> [])
           in case py_format [(''filename'', filename)] (rc_user_message_template rc) of
                Inl e \<Rightarrow>
                  if e = KeyError \<or> e = IndexError then Inr (rc_user_message_template rc) else Inl (Failed (u ''ValueError''))
              | Inr m \<Rightarrow> Inr m))"

definition with_summary :: "verdict \<Rightarrow> attachment_result list \<Rightarrow> ustr \<Rightarrow> ustr" where
  "with_summary verdict results msg =
     (let summary = detected_summary_kr (concat (map wr_detections results))
      in if verdict = BLOCK \<and> summary \<noteq> [] then strip (msg @ SUMMARY_PREFIX @ summary @ u '')'') else msg)"

text \<open>Deliver the payload, record the outcome, and ask for deletion when the verdict is BLOCK.\<close>

definition notify ::
  "worker_env \<Rightarrow> ustr \<Rightarrow> uuid \<Rightarrow> ustr \<Rightarrow> webhook_payload \<Rightarrow> worker_state \<Rightarrow> unit step" where
  "notify env job_id request_id url payload s =
     andthen (we_sender env url payload, s\<lparr>ws_sent := ws_sent s @ [(url, payload)]\<rparr>)
       (\<lambda>delivered s.
          andthen (write_job env job_id
              [F_webhook_attempts (if delivered then 1 else 5),
               F_webhook_delivered_at (if delivered then Some (we_now env 2) else None)] s)
            (\<lambda>_ s.
               if wp_verdict payload = BLOCK then
                 andthen (we_deleter env url request_id job_id (wp_code payload),
                     s\<lparr>ws_deleted := ws_deleted s @ [(url, request_id, job_id, wp_code payload)]\<rparr>)
                   (\<lambda>_ s. (Inr (), s))
               else (Inr (), s)))"

definition after_completed ::
  "worker_env \<Rightarrow> ustr \<Rightarrow> uuid \<Rightarrow> ustr option \<Rightarrow> webhook_payload \<Rightarrow> worker_state \<Rightarrow> unit step" where
  "after_completed env job_id request_id callback_url payload s =
     (let s = observe ''COMPLETED'' s in
      case callback_url of
        Some url \<Rightarrow> if url \<noteq> [] then notify env job_id request_id url payload s else (Inr (), s)
      | None \<Rightarrow> (Inr (), s))"

text \<open>From the results to the completed row and the notification.\<close>

definition finish ::
  "worker_env \<Rightarrow> ustr \<Rightarrow> uuid \<Rightarrow> ustr option \<Rightarrow> string \<Rightarrow> bool \<Rightarrow> bool \<Rightarrow> attachment_result list \<Rightarrow>
     worker_state \<Rightarrow> unit step" where
  "finish env job_id request_id callback_url body_verdict audit_only poc_mode results s =
     (let (v0, code0) = overall_verdict body_verdict results;
          s = (if poc_mode \<and> we_poc_setting env then
                 s\<lparr>ws_poc := ws_poc s @ [\<lparr>pa_request_id = request_id, pa_job_id = job_id, pa_actual_code = code0,
                     pa_actual_verdict = verdict_value v0, pa_results = results\<rparr>]\<rparr> else s);
          (verdict, code) = (if audit_only then (PASS, ''OK-0000'') else (v0, code0))
      in case user_message_for verdict code results of
           Inl f \<Rightarrow> (Inl f, s)
         | Inr msg \<Rightarrow>
             (let payload = \<lparr>wp_request_id = request_id, wp_job_id = job_id, wp_verdict = verdict, wp_code = code,
                    wp_user_message = with_summary verdict results msg, wp_attachment_results = results,
                    wp_completed_at = we_now env 0\<rparr>
              in andthen (write_job env job_id
                     [F_status J_COMPLETED, F_attachments_json (wp_attachment_results payload),
                      F_completed_at (we_now env 1)] s)
                   (\<lambda>_. after_completed env job_id request_id callback_url payload)))"

definition job_body ::
  "worker_env \<Rightarrow> ustr \<Rightarrow> uuid \<Rightarrow> attachment list \<Rightarrow> ustr option \<Rightarrow> string \<Rightarrow> strictness \<Rightarrow> bool \<Rightarrow> bool \<Rightarrow>
     worker_state \<Rightarrow> unit step" where
  "job_body env job_id request_id atts callback_url body_verdict st audit_only poc_mode s =
     andthen (write_job env job_id [F_status J_PROCESSING] s)
       (\<lambda>_ s. let s = observe ''PROCESSING'' s in
          case we_analyzer env of Inl f \<Rightarrow> (Inl f, s)
          | Inr engine \<Rightarrow>
              andthen (attachment_loop env engine st job_id [] atts s)
                (finish env job_id request_id callback_url body_verdict audit_only poc_mode))"

text \<open>The outer handler: cancellation is re-raised, any other failure marks the row, if it can.\<close>

definition process_attachment_job ::
  "worker_env \<Rightarrow> ustr \<Rightarrow> uuid \<Rightarrow> attachment list \<Rightarrow> ustr option \<Rightarrow> string \<Rightarrow> strictness \<Rightarrow> bool \<Rightarrow> bool \<Rightarrow>
     worker_state \<Rightarrow> unit step" where
  "process_attachment_job env job_id request_id atts callback_url body_verdict st audit_only poc_mode s =
     (case job_body env job_id request_id atts callback_url body_verdict st audit_only poc_mode s of
        (Inr _, s') \<Rightarrow> (Inr (), s')
      | (Inl Cancelled, s') \<Rightarrow> (Inl Cancelled, s')
      | (Inl (Failed m), s') \<Rightarrow>
          (case write_job env job_id [F_status J_FAILED, F_error m, F_completed_at (we_now env 3)]
                  (observe ''FAILED'' s') of
             (Inl Cancelled, s'') \<Rightarrow> (Inl Cancelled, s'')
           | (_, s'') \<Rightarrow> (Inr (), s'')))"

section \<open>One attachment against its specification\<close>

text \<open>The worker's own branching on the MIME type reads the same text as the dispatcher.\<close>

lemma extract_image_eq: "extract_image lib data mime = ocr_image lib data mime"
  by (auto simp: extract_image_def ocr_image_def split: sum.splits option.splits)

lemma analyze_text_empty: "analyze_text engine st att [] = Inr (mk_result att PASS ''OK-0000'' [])"
  by (simp add: analyze_text_def analyze_field_def analyze_field_full_def decide_attachment_code_def)

lemma mime_disjoint:
  "mime \<in> u ` set IMAGE_MIME_TYPES \<Longrightarrow>
     mime \<notin> u ` set PDF_MIMES \<and> mime \<notin> u ` set DOCX_MIMES \<and> mime \<notin> u ` set XLSX_MIMES \<and>
     mime \<notin> u ` set PPTX_MIMES \<and> mime \<notin> u ` set HWPX_MIMES \<and> mime \<notin> u ` set HWP5_MIMES"
  by (auto simp: IMAGE_MIME_TYPES_def PDF_MIMES_def DOCX_MIMES_def XLSX_MIMES_def PPTX_MIMES_def
      HWPX_MIMES_def HWP5_MIMES_def)

lemma process_scan_pdf_eq:
  "process_scan_pdf env engine st att data =
     (case ocr_scan_pdf (we_libs env) data of Inl e \<Rightarrow> Inl e | Inr t \<Rightarrow> analyze_text engine st att t)"
  by (auto simp: process_scan_pdf_def ocr_scan_pdf_def analyze_text_empty split: sum.splits)

lemma inspect_eq:
  "inspect env engine st att data =
     (case scan_bytes env data of Inl e \<Rightarrow> Inl e | Inr _ \<Rightarrow>
      case dispatch_extract (we_libs env) data (at_mime_type att) of Inl e \<Rightarrow> Inl e
      | Inr (txt, needs_ocr) \<Rightarrow> analyze_text engine st att txt)"
proof (cases "at_mime_type att \<in> u ` set IMAGE_MIME_TYPES")
  case True
  then show ?thesis
    using mime_disjoint [OF True]
    by (auto simp: inspect_def process_image_def extract_image_eq dispatch_extract_def split: sum.splits)
next
  case False
  then show ?thesis
    by (auto simp: inspect_def process_scan_pdf_eq dispatch_extract_def split: sum.splits prod.splits)
qed

text \<open>Detections come with catalogued codes, so the decision never raises.\<close>

lemma has_block_eq:
  "\<forall>d \<in> set ds. code_verdict (d_code d) \<noteq> None \<Longrightarrow>
     has_block ds = Inr (\<exists>d \<in> set ds. code_verdict (d_code d) = Some BLOCK)"
proof (induction ds)
  case Nil
  then show ?case by simp
next
  case (Cons d ds)
  then obtain rc where "get_code (d_code d) = Inr rc" by (auto elim: code_verdictE)
  with Cons show ?case by (auto simp: code_verdict_def)
qed

lemma visible_no_policy: "visible_hit st [] r \<longleftrightarrow> BLOCK_THRESHOLD st \<le> rr_score r"
  using threshold_reportable [of st] by (auto simp: visible_hit_def resolve_hit_no_policy)

lemma analyze_text_eq:
  assumes "engine_ok engine txt"
  obtains dets where
    "analyze_text engine st att txt =
       Inr (mk_result att (if dets = [] then PASS else BLOCK) (if dets = [] then ''OK-0000'' else ''BLOCK-2010'') dets)"
    "dets = map (hit_detection (attachment_field att) st [])
       (filter (\<lambda>r. BLOCK_THRESHOLD st \<le> rr_score r) (kept_hits engine txt))"
proof -
  let ?hits = "filter (\<lambda>r. BLOCK_THRESHOLD st \<le> rr_score r) (kept_hits engine txt)"
  let ?dets = "map (hit_detection (attachment_field att) st []) ?hits"
  have v: "code_verdict (d_code d) = Some BLOCK" if "d \<in> set ?dets" for d
    using that by (auto simp: hit_detection_verdict visible_no_policy blocking_hit_no_policy)
  then have "has_block ?dets = Inr (?dets \<noteq> [])"
    using has_block_eq [of ?dets] by (cases ?dets) auto
  moreover have "analyze_field engine (attachment_field att) st [] txt = Inr ?dets"
    using analyze_field_full_eq [OF assms, of "attachment_field att" st "[]"]
    by (simp add: analyze_field_def visible_no_policy [abs_def])
  ultimately have "analyze_text engine st att txt =
      Inr (mk_result att (if ?dets = [] then PASS else BLOCK) (if ?dets = [] then ''OK-0000'' else ''BLOCK-2010'') ?dets)"
    by (simp add: analyze_text_def decide_attachment_code_def)
  then show ?thesis by (rule that) simp
qed

text \<open>
  C10: when an attachment is blocked.  An attachment whose download succeeds with the announced
  SHA-256, in which the scanner confirms nothing, and whose text the dispatcher for its MIME type can
  extract, is reported under its own id and file name; its verdict is BLOCK with BLOCK-2010 exactly
  when some hit of the engine on that text reaches the threshold, and PASS otherwise.
\<close>

theorem attachment_blocked_iff:
  assumes "we_get env (at_fetch_url att) = Got status data" "status < 400"
    and "lower (hexdigest (sha256 data)) = lower (at_sha256 att)"
    and "scan_bytes env data = Inr ()"
    and "dispatch_extract (we_libs env) data (at_mime_type att) = Inr (txt, b)"
    and "txt \<noteq> []" "engine txt = Inr raw" "list_all (\<lambda>r. rr_score r \<le> 1) raw"
  shows "\<exists>r. process_one_attachment env engine st att = Inr r \<and>
     wr_attachment_id r = at_attachment_id att \<and> wr_filename r = at_filename att \<and>
     wr_verdict r = (if \<exists>h \<in> set raw. BLOCK_THRESHOLD st \<le> rr_score h then BLOCK else PASS) \<and>
     wr_code r = (if \<exists>h \<in> set raw. BLOCK_THRESHOLD st \<le> rr_score h then ''BLOCK-2010'' else ''OK-0000'')"
proof -
  have ok: "engine_ok engine txt" using assms(7,8) by (simp add: engine_ok_def)
  obtain dets where d: "analyze_text engine st att txt =
       Inr (mk_result att (if dets = [] then PASS else BLOCK) (if dets = [] then ''OK-0000'' else ''BLOCK-2010'') dets)"
    "dets = map (hit_detection (attachment_field att) st [])
       (filter (\<lambda>r. BLOCK_THRESHOLD st \<le> rr_score r) (kept_hits engine txt))"
    by (rule analyze_text_eq [OF ok])
  have "0 < MAX_DETECTIONS_PER_SPAN" by (simp add: MAX_DETECTIONS_PER_SPAN_def)
  from topk_blocking_no_policy [OF this, of raw st]
  have "dets = [] \<longleftrightarrow> \<not> (\<exists>h \<in> set raw. BLOCK_THRESHOLD st \<le> rr_score h)"
    using assms(6,7) by (auto simp: d(2) kept_hits_def blocking_hit_no_policy filter_empty_conv)
  moreover have "process_one_attachment env engine st att =
      Inr (mk_result att (if dets = [] then PASS else BLOCK) (if dets = [] then ''OK-0000'' else ''BLOCK-2010'') dets)"
    using assms(1-5) d(1) by (simp add: process_one_attachment_def fetch_attachment_def inspect_eq)
  ultimately show ?thesis by (auto simp: mk_result_def)
qed

text \<open>Sample worker environment: one text file on the network, everything else quiet.\<close>

definition demo_text :: ustr where
  "demo_text = u ''900101-1234568 is mine''"

definition demo_file :: attachment where
  "demo_file = \<lparr>at_attachment_id = u ''a1'', at_filename = u ''cv.txt'', at_size_bytes = 22,
     at_mime_type = u ''text/plain'', at_sha256 = hexdigest (sha256 (utf8_encode demo_text)),
     at_fetch_url = u ''https://b/a1''\<rparr>"

definition demo_worker :: worker_env where
  "demo_worker = \<lparr>we_get = (\<lambda>url. Got 200 (utf8_encode demo_text)), we_clam = (\<lambda>d. Inl []), we_libs = demo_libs,
     we_analyzer = Inr demo_engine, we_db = (\<lambda>n. None), we_sender = (\<lambda>url p. Inr True),
     we_deleter = (\<lambda>url rid jid c. Inr True), we_poc_setting = False, we_now = (\<lambda>n. of_nat n)\<rparr>"

lemma u_scalar: "list_all scalar (u s)"
proof -
  have "scalar (of_char c)" for c :: char
  proof -
    have "of_char c < (256 :: nat)" by simp
    then show ?thesis unfolding scalar_def by linarith
  qed
  then show ?thesis by (simp add: u_def list_all_iff)
qed

lemma demo_dispatch: "dispatch_extract demo_libs (utf8_encode demo_text) (u ''text/plain'') = Inr (demo_text, False)"
  by (simp add: dispatch_extract_def decode_text_def demo_text_def utf8_roundtrip [OF u_scalar]
      PDF_MIMES_def DOCX_MIMES_def XLSX_MIMES_def PPTX_MIMES_def HWPX_MIMES_def HWP5_MIMES_def
      IMAGE_MIME_TYPES_def TEXT_MIMES_def)

theorem attachment_blocked_iff_witness:
  "\<exists>r. process_one_attachment demo_worker demo_engine Medium demo_file = Inr r \<and> wr_verdict r = BLOCK \<and>
     wr_code r = ''BLOCK-2010''"
proof -
  have "demo_text \<noteq> []" "length demo_text = 22" by (simp_all add: demo_text_def)
  then show ?thesis
    using attachment_blocked_iff [of demo_worker demo_file 200 "utf8_encode demo_text" demo_text False demo_engine
        "[\<lparr>rr_entity_type = ''KR_RRN'', rr_start = 0, rr_end = 14, rr_score = 95 / 100\<rparr>]" Medium] demo_dispatch
    by (auto simp: demo_worker_def demo_file_def scan_bytes_def demo_engine_def)
qed

text \<open>
  Pre-flight and worker agree on formats.  An attachment type the endpoint accepts is never turned
  away by the worker as unsupported: whatever the bytes, extraction ends with text, with an unexpected
  parser failure, or with one of the codes for oversized, damaged, too long, encrypted or OCR failure.
\<close>

theorem supported_never_unsupported:
  assumes "mime \<in> u ` set SUPPORTED_MIME_TYPES"
  shows "dispatch_extract lib data mime \<noteq> Inl (Extraction_error ''REQ-4033'')"
proof -
  have a: "extract_pdf lib data \<noteq> Inl (Extraction_error ''REQ-4033'')"
    "ocr_scan_pdf lib data \<noteq> Inl (Extraction_error ''REQ-4033'')"
    "ocr_image lib data mime \<noteq> Inl (Extraction_error ''REQ-4033'')"
    "decode_text lib data \<noteq> Inl (Extraction_error ''REQ-4033'')"
    using extract_pdf_fails [of lib data] ocr_scan_pdf_fails [of lib data] ocr_image_fails [of lib data mime]
      decode_text_fails [of lib data]
    by (auto simp: fails_with_def)
  have b: "extract_ooxml op wk data \<noteq> Inl (Extraction_error ''REQ-4033'')" for op and wk :: "'d \<Rightarrow> ustr list"
    using extract_ooxml_fails [of op wk data] by (auto simp: fails_with_def)
  have inl: "map_sum id f r = Inl e \<longleftrightarrow> r = Inl e" for f :: "'x \<Rightarrow> 'y" and r :: "'x res" and e
    by (cases r) auto
  show ?thesis
  proof (cases "mime \<in> u ` set PDF_MIMES")
    case True
    then show ?thesis
      using a(1,2) by (auto simp: dispatch_extract_def inl split: sum.splits)
  next
    case False
    then have "mime \<in> u ` set DOCX_MIMES \<union> u ` set XLSX_MIMES \<union> u ` set PPTX_MIMES \<union>
        (u ` set IMAGE_MIME_TYPES \<union> u ` set TEXT_MIMES) \<and> mime \<notin> u ` set HWPX_MIMES \<and> mime \<notin> u ` set HWP5_MIMES"
      using assms by (auto simp: SUPPORTED_MIME_TYPES_def PDF_MIMES_def DOCX_MIMES_def XLSX_MIMES_def
          PPTX_MIMES_def IMAGE_MIME_TYPES_def TEXT_MIMES_def HWPX_MIMES_def HWP5_MIMES_def)
    then show ?thesis
      using False a(3,4)
      by (auto simp: dispatch_extract_def inl b extract_docx_def extract_xlsx_def extract_pptx_def)
  qed
qed

theorem supported_never_unsupported_witness:
  "dispatch_extract demo_libs [] (u ''image/png'') \<noteq> Inl (Extraction_error ''REQ-4033'')"
  by (rule supported_never_unsupported) (simp add: SUPPORTED_MIME_TYPES_def)

section \<open>Invariants of the worker\<close>

text \<open>A successful update of the row.\<close>

definition touch :: "ustr \<Rightarrow> job_field list \<Rightarrow> worker_state \<Rightarrow> worker_state" where
  "touch jid cols s = s\<lparr>ws_writes := Suc (ws_writes s), ws_jobs := update_job jid cols (ws_jobs s)\<rparr>"

lemma write_job_cases:
  "write_job env jid cols s =
     (case we_db env (ws_writes s) of Some f \<Rightarrow> (Inl f, s\<lparr>ws_writes := Suc (ws_writes s)\<rparr>)
      | None \<Rightarrow> (Inr (), touch jid cols s))"
  by (simp add: write_job_def touch_def split: option.splits)

text \<open>
  What has to be checked of a property \<open>P\<close> of the worker's state so that it holds whatever fails and
  whenever: \<open>I\<close> is what holds before the job starts, and each primitive effect keeps \<open>P\<close>.  A payload of
  an audit-only job has verdict PASS, and such a job deletes nothing.
\<close>

locale worker_steps =
  fixes I P :: "worker_state \<Rightarrow> bool"
    and jid :: ustr
    and rid :: uuid
    and ao :: bool
  assumes start: "I s \<Longrightarrow> P s"
    and started: "I s \<Longrightarrow> P (touch jid [F_status J_PROCESSING] s)"
    and mirrored: "P s \<Longrightarrow> P (touch jid [F_attachments_json rs] s)"
    and completed: "P s \<Longrightarrow> P (touch jid [F_status J_COMPLETED, F_attachments_json rs, F_completed_at t] s)"
    and recorded: "P s \<Longrightarrow> P (touch jid [F_webhook_attempts n, F_webhook_delivered_at d] s)"
    and counted: "P s \<Longrightarrow> P (s\<lparr>ws_writes := n\<rparr>)"
    and observed: "P s \<Longrightarrow> P (s\<lparr>ws_metrics := ms\<rparr>)"
    and logged: "P s \<Longrightarrow> P (s\<lparr>ws_poc := ps\<rparr>)"
    and posted: "P s \<Longrightarrow> wp_job_id p = jid \<Longrightarrow> wp_request_id p = rid \<Longrightarrow>
      (ao \<Longrightarrow> wp_verdict p = PASS \<and> wp_code p = ''OK-0000'') \<Longrightarrow> P (s\<lparr>ws_sent := ws_sent s @ [(url, p)]\<rparr>)"
    and deleted: "P s \<Longrightarrow> \<not> ao \<Longrightarrow> P (s\<lparr>ws_deleted := ws_deleted s @ [(url, rid, jid, c)]\<rparr>)"
begin

lemma write_keeps:
  assumes "P s" "P (touch jid cols s)"
  shows "P (snd (write_job env jid cols s))"
  using assms counted by (auto simp: write_job_cases split: option.splits)

lemma andthen_keeps:
  assumes "P (snd r)" "\<And>x s. P s \<Longrightarrow> P (snd (k x s))"
  shows "P (snd (andthen r k))"
  using assms by (auto simp: andthen_def split: prod.splits sum.splits)

lemma loop_keeps: "P s \<Longrightarrow> P (snd (attachment_loop env engine st jid acc atts s))"
proof (induction atts arbitrary: acc s)
  case Nil
  then show ?case by simp
next
  case (Cons att atts)
  show ?case
  proof (cases "process_one_attachment env engine st att")
    case (Inl f)
    with Cons.prems show ?thesis by simp
  next
    case (Inr r)
    have "P (snd (write_job env jid [F_attachments_json (acc @ [r])] s))"
      using Cons.prems by (intro write_keeps mirrored)
    with Inr Cons.IH show ?thesis by (auto intro!: andthen_keeps)
  qed
qed

lemma notify_keeps:
  assumes "P s" "wp_job_id p = jid" "wp_request_id p = rid" "ao \<Longrightarrow> wp_verdict p = PASS \<and> wp_code p = ''OK-0000''"
  shows "P (snd (notify env jid rid url p s))"
  unfolding notify_def
proof (rule andthen_keeps)
  show "P (snd (we_sender env url p, s\<lparr>ws_sent := ws_sent s @ [(url, p)]\<rparr>))"
    using assms by (simp add: posted)
next
  fix delivered s
  assume s: "P s"
  show "P (snd (andthen (write_job env jid [F_webhook_attempts (if delivered then 1 else 5),
      F_webhook_delivered_at (if delivered then Some (we_now env 2) else None)] s)
    (\<lambda>_ s. if wp_verdict p = BLOCK
       then andthen (we_deleter env url rid jid (wp_code p),
              s\<lparr>ws_deleted := ws_deleted s @ [(url, rid, jid, wp_code p)]\<rparr>) (\<lambda>_ s. (Inr (), s))
       else (Inr (), s))))"
  proof (rule andthen_keeps)
    fix s
    assume "P s"
    moreover have "\<not> ao" if "wp_verdict p = BLOCK" using assms(4) that by auto
    ultimately show "P (snd (if wp_verdict p = BLOCK
       then andthen (we_deleter env url rid jid (wp_code p),
              s\<lparr>ws_deleted := ws_deleted s @ [(url, rid, jid, wp_code p)]\<rparr>) (\<lambda>_ s. (Inr (), s))
       else (Inr (), s)))"
      by (auto intro!: andthen_keeps deleted)
  qed (intro write_keeps recorded s)
qed

lemma finish_keeps: "P s \<Longrightarrow> P (snd (finish env jid rid cb bv ao poc results s))"
proof -
  assume s: "P s"
  obtain v0 c0 where v: "overall_verdict bv results = (v0, c0)" by fastforce
  define v where "v = (if ao then PASS else v0)"
  define c where "c = (if ao then ''OK-0000'' else c0)"
  define s1 where "s1 = (if poc \<and> we_poc_setting env then s\<lparr>ws_poc := ws_poc s @ [\<lparr>pa_request_id = rid,
      pa_job_id = jid, pa_actual_code = c0, pa_actual_verdict = verdict_value v0, pa_results = results\<rparr>]\<rparr> else s)"
  have s1: "P s1" using s logged by (simp add: s1_def)
  show "P (snd (finish env jid rid cb bv ao poc results s))"
  proof (cases "user_message_for v c results")
    case (Inl f)
    with s1 show ?thesis by (auto simp: finish_def v Let_def v_def c_def s1_def)
  next
    case (Inr msg)
    define p where "p = \<lparr>wp_request_id = rid, wp_job_id = jid, wp_verdict = v, wp_code = c,
        wp_user_message = with_summary v results msg, wp_attachment_results = results,
        wp_completed_at = we_now env 0\<rparr>"
    have "finish env jid rid cb bv ao poc results s =
        andthen (write_job env jid [F_status J_COMPLETED, F_attachments_json (wp_attachment_results p),
            F_completed_at (we_now env 1)] s1)
          (\<lambda>_. after_completed env jid rid cb p)"
      using Inr by (auto simp: finish_def v Let_def v_def c_def s1_def p_def)
    moreover have "P (snd (after_completed env jid rid cb p s))" if "P s" for s
      using that by (auto simp: after_completed_def observe_def Let_def p_def v_def c_def observed intro!: notify_keeps split: option.splits)
    ultimately show ?thesis
      using s1 by (auto intro!: andthen_keeps write_keeps completed)
  qed
qed

lemma body_keeps:
  assumes "I s"
  shows "P (snd (job_body env jid rid atts cb bv st ao poc s))"
  unfolding job_body_def
proof (rule andthen_keeps)
  show "P (snd (write_job env jid [F_status J_PROCESSING] s))"
    using assms by (intro write_keeps start started)
  fix x s
  assume "P s"
  then show "P (snd (let s = observe ''PROCESSING'' s in
        case we_analyzer env of Inl f \<Rightarrow> (Inl f, s)
        | Inr engine \<Rightarrow> andthen (attachment_loop env engine st jid [] atts s)
            (finish env jid rid cb bv ao poc)))"
    by (auto simp: Let_def observe_def observed intro!: andthen_keeps loop_keeps finish_keeps split: sum.splits)
qed

end

text \<open>With the failure handler's update as well, the property holds after the whole job.\<close>

locale worker_invariant = worker_steps +
  assumes failed: "P s \<Longrightarrow> P (touch jid [F_status J_FAILED, F_error m, F_completed_at t] s)"
begin

lemma job_keeps:
  assumes "I s"
  shows "P (snd (process_attachment_job env jid rid atts cb bv st ao poc s))"
proof -
  have b: "P (snd (job_body env jid rid atts cb bv st ao poc s))"
    by (rule body_keeps [OF assms])
  then have "P (snd (write_job env jid [F_status J_FAILED, F_error m, F_completed_at t]
      (observe ''FAILED'' (snd (job_body env jid rid atts cb bv st ao poc s)))))" for m t
    by (intro write_keeps failed) (simp_all add: observe_def observed)
  with b show ?thesis
    by (auto simp: process_attachment_job_def split: prod.splits sum.splits wfail.splits)
      (metis snd_conv)+
qed

end

subsection \<open>Rows, whatever fails\<close>

lemma get_job_touch:
  "get_job (ws_jobs (touch jid cols s)) k =
     map_option (\<lambda>j. if k = jid then fold set_field cols j else j) (get_job (ws_jobs s) k)"
  by (simp add: touch_def get_job_update)

definition fresh_row :: "ustr \<Rightarrow> worker_state \<Rightarrow> bool" where
  "fresh_row jid s \<longleftrightarrow>
     (\<exists>j. get_job (ws_jobs s) jid = Some j \<and> ej_status j = J_PENDING \<and> ej_completed_at j = None)"

definition stamped_row :: "ustr \<Rightarrow> worker_state \<Rightarrow> bool" where
  "stamped_row jid s \<longleftrightarrow>
     (\<exists>j. get_job (ws_jobs s) jid = Some j \<and>
        (ej_completed_at j = None \<longleftrightarrow> ej_status j \<in> {J_PENDING, J_PROCESSING}))"

interpretation stamp: worker_invariant "fresh_row jid" "stamped_row jid" jid rid ao for jid rid ao
  by unfold_locales (auto simp: fresh_row_def stamped_row_def get_job_touch)

definition same_others :: "ustr \<Rightarrow> worker_state \<Rightarrow> worker_state \<Rightarrow> bool" where
  "same_others jid s0 s \<longleftrightarrow> (\<forall>k. k \<noteq> jid \<longrightarrow> get_job (ws_jobs s) k = get_job (ws_jobs s0) k)"

interpretation others: worker_invariant "\<lambda>s. s = s0" "same_others jid s0" jid rid ao for s0 jid rid ao
  by unfold_locales (auto simp: same_others_def get_job_touch option.map_ident)

definition only_pass_sent :: "worker_state \<Rightarrow> worker_state \<Rightarrow> bool" where
  "only_pass_sent s0 s \<longleftrightarrow> ws_deleted s = ws_deleted s0 \<and>
     (\<exists>ps. ws_sent s = ws_sent s0 @ ps \<and> list_all (\<lambda>(url, p). wp_verdict p = PASS \<and> wp_code p = ''OK-0000'') ps)"

interpretation quiet: worker_invariant "\<lambda>s. s = s0" "only_pass_sent s0" jid rid True for s0 jid rid
proof unfold_locales
  fix s :: worker_state and p :: webhook_payload and url :: ustr
  assume "only_pass_sent s0 s" "wp_job_id p = jid" "wp_request_id p = rid" "True \<Longrightarrow> wp_verdict p = PASS \<and> wp_code p = ''OK-0000''"
  then obtain ps where "ws_deleted s = ws_deleted s0" "ws_sent s = ws_sent s0 @ ps"
    "list_all (\<lambda>(url, p). wp_verdict p = PASS \<and> wp_code p = ''OK-0000'') (ps @ [(url, p)])"
    by (auto simp: only_pass_sent_def)
  then show "only_pass_sent s0 (s\<lparr>ws_sent := ws_sent s @ [(url, p)]\<rparr>)"
    unfolding only_pass_sent_def by (intro conjI exI [of _ "ps @ [(url, p)]"]) simp_all
qed (auto simp: only_pass_sent_def touch_def)

text \<open>
  C11: rows stay well formed under every failure.  For a pending job, however the network, the
  extractors, the database and the senders fail or cancel the worker, afterwards the row is still there and has a
  completion time exactly when its status is COMPLETED or FAILED, so the retention sweep never removes
  an unfinished job, and no other job's row is touched.
\<close>

theorem worker_row_wellformed:
  assumes "get_job (ws_jobs s) jid = Some j" "ej_status j = J_PENDING" "ej_completed_at j = None"
    and "s' = snd (process_attachment_job env jid rid atts cb bv st ao poc s)"
  shows "(\<exists>j'. get_job (ws_jobs s') jid = Some j' \<and>
            (ej_completed_at j' \<noteq> None \<longleftrightarrow> ej_status j' \<in> {J_COMPLETED, J_FAILED})) \<and>
         (\<forall>k. k \<noteq> jid \<longrightarrow> get_job (ws_jobs s') k = get_job (ws_jobs s) k)"
proof -
  have "stamped_row jid s'"
    unfolding assms(4) by (rule stamp.job_keeps) (use assms(1-3) in \<open>simp add: fresh_row_def\<close>)
  moreover have "same_others jid s s'"
    unfolding assms(4) by (rule others.job_keeps) simp
  moreover have "x \<notin> {J_PENDING, J_PROCESSING} \<longleftrightarrow> x \<in> {J_COMPLETED, J_FAILED}" for x
    by (cases x) simp_all
  ultimately show ?thesis
    unfolding stamped_row_def same_others_def by metis
qed

definition demo_job :: extraction_job where
  "demo_job = pending_job demo_env demo_upload ''OK-0000''"

definition demo_start :: worker_state where
  "demo_start = \<lparr>ws_jobs = [demo_job], ws_writes = 0, ws_sent = [], ws_deleted = [], ws_poc = [], ws_metrics = []\<rparr>"

lemma demo_row: "get_job (ws_jobs demo_start) (u ''job_77'') = Some demo_job" "ej_status demo_job = J_PENDING"
  "ej_completed_at demo_job = None"
  by (simp_all add: get_job_def demo_start_def demo_job_def pending_job_def demo_env_def u_append [symmetric])

theorem worker_row_wellformed_witness:
  "\<exists>j'. get_job (ws_jobs (snd (process_attachment_job (demo_worker\<lparr>we_db := (\<lambda>n. if n = 2 then Some Cancelled else None)\<rparr>)
       (u ''job_77'') 5 [demo_file] (Some (u ''https://b/cb'')) ''PASS'' Medium False False demo_start)))
       (u ''job_77'') = Some j' \<and>
     (ej_completed_at j' \<noteq> None \<longleftrightarrow> ej_status j' \<in> {J_COMPLETED, J_FAILED})"
  using worker_row_wellformed [OF demo_row refl] by blast

text \<open>
  An audit-only job never harms its author.  Whatever is found and whatever fails, a job marked
  audit-only (exception address or PoC mode) sends only payloads with verdict PASS and code OK-0000
  and never asks the board to delete the post.
\<close>

theorem audit_only_job_harmless:
  "\<exists>ps. ws_sent (snd (process_attachment_job env jid rid atts cb bv st True poc s)) = ws_sent s @ ps \<and>
     list_all (\<lambda>(url, p). wp_verdict p = PASS \<and> wp_code p = ''OK-0000'') ps \<and>
     ws_deleted (snd (process_attachment_job env jid rid atts cb bv st True poc s)) = ws_deleted s"
  using quiet.job_keeps [of s s env jid rid atts cb bv st poc] unfolding only_pass_sent_def by blast

section \<open>How a job ends\<close>

text \<open>With the database up and nothing cancelled, the loop gathers the results in order.\<close>

definition result_of :: "worker_env \<Rightarrow> analyzer \<Rightarrow> strictness \<Rightarrow> attachment \<Rightarrow> attachment_result" where
  "result_of env engine st att =
     (case process_one_attachment env engine st att of Inr r \<Rightarrow> r | Inl f \<Rightarrow> mk_result att ERROR ''REQ-4042'' [])"

definition not_cancelled :: "worker_env \<Rightarrow> attachment list \<Rightarrow> bool" where
  "not_cancelled env atts \<longleftrightarrow> list_all (\<lambda>a. we_get env (at_fetch_url a) \<noteq> Fetch_cancelled) atts"

lemma process_one_result:
  "we_get env (at_fetch_url a) \<noteq> Fetch_cancelled \<Longrightarrow>
     process_one_attachment env engine st a = Inr (result_of env engine st a)"
  by (auto simp: result_of_def process_one_attachment_def fetch_attachment_def
      split: fetch_outcome.splits sum.splits)

lemma write_job_up: "we_db env = (\<lambda>n. None) \<Longrightarrow> write_job env jid cols s = (Inr (), touch jid cols s)"
  by (simp add: write_job_cases)

lemma attachment_loop_up:
  assumes "we_db env = (\<lambda>n. None)" "not_cancelled env atts"
  shows "\<exists>s'. attachment_loop env engine st jid acc atts s = (Inr (acc @ map (result_of env engine st) atts), s') \<and>
     ws_sent s' = ws_sent s \<and> ws_deleted s' = ws_deleted s \<and>
     (\<forall>j. get_job (ws_jobs s) jid = Some j \<longrightarrow> (\<exists>as. get_job (ws_jobs s') jid = Some (j\<lparr>ej_attachments_json := as\<rparr>)))"
  using assms(2)
proof (induction atts arbitrary: acc s)
  case Nil
  have "\<exists>as. j = j\<lparr>ej_attachments_json := as\<rparr>" for j :: extraction_job
    by (rule exI [of _ "ej_attachments_json j"]) simp
  then show ?case by auto
next
  case (Cons a atts)
  let ?r = "result_of env engine st a"
  let ?s = "touch jid [F_attachments_json (acc @ [?r])] s"
  have "process_one_attachment env engine st a = Inr ?r" "not_cancelled env atts"
    using Cons.prems by (simp_all add: not_cancelled_def process_one_result)
  moreover from Cons.IH [OF this(2), of "acc @ [?r]" ?s] obtain s' where
    "attachment_loop env engine st jid (acc @ [?r]) atts ?s =
       (Inr ((acc @ [?r]) @ map (result_of env engine st) atts), s')"
    "ws_sent s' = ws_sent ?s" "ws_deleted s' = ws_deleted ?s"
    "\<forall>j. get_job (ws_jobs ?s) jid = Some j \<longrightarrow> (\<exists>as. get_job (ws_jobs s') jid = Some (j\<lparr>ej_attachments_json := as\<rparr>))"
    by blast
  ultimately show ?case
    by (auto simp: write_job_up [OF assms(1)] andthen_def get_job_touch) (simp_all add: touch_def)
qed

lemma user_message_known:
  assumes "code_verdict code = Some v"
  shows "\<exists>msg. user_message_for w code results = Inr msg"
proof -
  obtain rc where rc: "get_code code = Inr rc" using assms by (rule code_verdictE)
  then have "templates_wf rc" using templates_wf_CODES by (simp add: get_code_eq_Inr_iff)
  then have wf: "fmt_wf (rc_user_message_template rc)" by (simp add: templates_wf_def)
  show ?thesis
    using py_format_wf [OF wf] by (auto simp: user_message_for_def rc Let_def split: sum.splits)
qed

lemma overall_verdict_code:
  assumes "overall_verdict bv results = (v, c)" "\<forall>r \<in> set results. wr_verdict r = BLOCK \<longrightarrow> wr_code r = ''BLOCK-2010''"
  shows "code_verdict c = Some v \<and> v \<in> {BLOCK, PASS} \<and>
     (v = BLOCK \<longleftrightarrow> bv = ''BLOCK'' \<or> (\<exists>r \<in> set results. wr_verdict r = BLOCK))"
proof (cases "bv = verdict_value BLOCK \<or> list_ex (\<lambda>r. wr_verdict r = BLOCK) results")
  case True
  then have v: "v = BLOCK" "c = (case find (\<lambda>r. wr_verdict r = BLOCK) results of Some r \<Rightarrow> wr_code r | None \<Rightarrow> ''BLOCK-2008'')"
    using assms(1) by (auto simp: overall_verdict_def)
  have "code_verdict c = Some BLOCK"
    using assms(2) by (auto simp: v(2) find_Some_split split: option.splits)
  with v(1) True show ?thesis by (auto simp: list_ex_iff)
next
  case False
  then show ?thesis using assms(1) by (auto simp: overall_verdict_def list_ex_iff)
qed

lemma process_one_block_code:
  assumes "process_one_attachment env engine st a = Inr r" "wr_verdict r = BLOCK"
  shows "wr_code r = ''BLOCK-2010''"
proof -
  have e: "wr_verdict (error_result a e) = ERROR" for e
    by (cases e) (simp_all add: error_result_def mk_result_def)
  have t: "wr_code r = ''BLOCK-2010''" if "analyze_text engine st a body = Inr r" for body
    using that assms(2) by (auto simp: analyze_text_def decide_attachment_code_def mk_result_def split: sum.splits if_splits)
  obtain data where "inspect env engine st a data = Inr r"
    using assms e by (auto simp: process_one_attachment_def split: sum.splits)
  then show ?thesis
    using t by (auto simp: inspect_eq split: sum.splits)
qed

lemma result_of_block_code:
  "wr_verdict (result_of env engine st a) = BLOCK \<Longrightarrow> wr_code (result_of env engine st a) = ''BLOCK-2010''"
  by (auto simp: result_of_def mk_result_def dest: process_one_block_code split: sum.splits)

definition unfailed :: "ustr \<Rightarrow> worker_state \<Rightarrow> bool" where
  "unfailed jid s \<longleftrightarrow> (\<forall>j. get_job (ws_jobs s) jid = Some j \<longrightarrow> ej_status j \<noteq> J_FAILED)"

interpretation unfailed: worker_steps "unfailed jid" "unfailed jid" jid rid ao for jid rid ao
  by unfold_locales (auto simp: unfailed_def get_job_touch)

text \<open>
  A cancelled worker leaves a resumable row.  When the worker is cancelled, at whichever download,
  update or delivery, the job is not marked FAILED: it stays as it was, PROCESSING, or COMPLETED.
\<close>

theorem cancelled_job_not_failed:
  assumes "get_job (ws_jobs s) jid = Some j" "ej_status j \<noteq> J_FAILED"
    and "process_attachment_job env jid rid atts cb bv st ao poc s = (Inl Cancelled, s')"
    and "get_job (ws_jobs s') jid = Some j'"
  shows "ej_status j' \<noteq> J_FAILED"
proof -
  let ?b = "job_body env jid rid atts cb bv st ao poc s"
  have "unfailed jid (snd ?b)"
    by (rule unfailed.body_keeps) (use assms(1,2) in \<open>simp add: unfailed_def\<close>)
  moreover have "ws_jobs s' = ws_jobs (snd ?b)"
    using assms(3)
    by (auto simp: process_attachment_job_def write_job_def observe_def
        split: prod.splits sum.splits wfail.splits option.splits)
  ultimately show ?thesis
    using assms(4) by (simp add: unfailed_def)
qed

definition demo_cancel :: worker_env where
  "demo_cancel = demo_worker\<lparr>we_get := (\<lambda>url. Fetch_cancelled)\<rparr>"

theorem cancelled_job_not_failed_witness:
  "\<exists>s' j'. process_attachment_job demo_cancel (u ''job_77'') 5 [demo_file] None ''PASS'' Medium False False demo_start =
      (Inl Cancelled, s') \<and> get_job (ws_jobs s') (u ''job_77'') = Some j' \<and> ej_status j' \<noteq> J_FAILED"
proof -
  let ?s' = "observe ''PROCESSING'' (touch (u ''job_77'') [F_status J_PROCESSING] demo_start)"
  have p: "process_attachment_job demo_cancel (u ''job_77'') 5 [demo_file] None ''PASS'' Medium False False demo_start =
      (Inl Cancelled, ?s')"
    by (simp add: process_attachment_job_def job_body_def write_job_cases andthen_def process_one_attachment_def
        fetch_attachment_def demo_cancel_def demo_worker_def)
  have g: "get_job (ws_jobs ?s') (u ''job_77'') = Some (demo_job\<lparr>ej_status := J_PROCESSING\<rparr>)"
    using demo_row by (simp add: observe_def get_job_touch)
  from cancelled_job_not_failed [OF demo_row(1) _ p g] p g demo_row(2) show ?thesis by auto
qed

section \<open>Completion and late failure\<close>

text \<open>The verdict a job ends with, and its payload.\<close>

definition job_blocks :: "string \<Rightarrow> bool \<Rightarrow> attachment_result list \<Rightarrow> bool" where
  "job_blocks bv ao results \<longleftrightarrow> \<not> ao \<and> (bv = ''BLOCK'' \<or> (\<exists>r \<in> set results. wr_verdict r = BLOCK))"

lemma finish_up:
  assumes db: "we_db env = (\<lambda>n. None)"
    and codes: "\<forall>r \<in> set results. wr_verdict r = BLOCK \<longrightarrow> wr_code r = ''BLOCK-2010''"
  obtains p s1 where
    "finish env jid rid (Some url) bv ao poc results s = after_completed env jid rid (Some url) p s1"
    "wp_verdict p = (if job_blocks bv ao results then BLOCK else PASS)" "wp_attachment_results p = results"
    "wp_request_id p = rid" "wp_job_id p = jid"
    "ws_sent s1 = ws_sent s" "ws_deleted s1 = ws_deleted s"
    "\<forall>j. get_job (ws_jobs s) jid = Some j \<longrightarrow> get_job (ws_jobs s1) jid =
       Some (j\<lparr>ej_status := J_COMPLETED, ej_attachments_json := Some results, ej_completed_at := Some (we_now env 1)\<rparr>)"
proof -
  obtain v0 c0 where v: "overall_verdict bv results = (v0, c0)" by fastforce
  have c0: "code_verdict c0 = Some v0" "v0 \<in> {BLOCK, PASS}"
    "v0 = BLOCK \<longleftrightarrow> bv = ''BLOCK'' \<or> (\<exists>r \<in> set results. wr_verdict r = BLOCK)"
    using overall_verdict_code [OF v codes] by blast+
  let ?v = "if ao then PASS else v0" and ?c = "if ao then ''OK-0000'' else c0"
  have "code_verdict ?c = Some ?v" using c0 by simp
  then obtain msg where msg: "user_message_for ?v ?c results = Inr msg"
    using user_message_known by blast
  let ?s = "if poc \<and> we_poc_setting env then s\<lparr>ws_poc := ws_poc s @ [\<lparr>pa_request_id = rid,
      pa_job_id = jid, pa_actual_code = c0, pa_actual_verdict = verdict_value v0, pa_results = results\<rparr>]\<rparr> else s"
  let ?p = "\<lparr>wp_request_id = rid, wp_job_id = jid, wp_verdict = ?v, wp_code = ?c,
        wp_user_message = with_summary ?v results msg, wp_attachment_results = results,
        wp_completed_at = we_now env 0\<rparr>"
  let ?s1 = "touch jid [F_status J_COMPLETED, F_attachments_json results, F_completed_at (we_now env 1)] ?s"
  show ?thesis
  proof (rule that [of ?p ?s1])
    show "finish env jid rid (Some url) bv ao poc results s = after_completed env jid rid (Some url) ?p ?s1"
      using msg by (auto simp: finish_def v Let_def write_job_up [OF db] andthen_def)
    show "wp_verdict ?p = (if job_blocks bv ao results then BLOCK else PASS)"
      using c0(2,3) by (auto simp: job_blocks_def)
  qed (auto simp: touch_def get_job_update)
qed

lemma body_up:
  assumes db: "we_db env = (\<lambda>n. None)" and eng: "we_analyzer env = Inr engine"
    and nc: "not_cancelled env atts" and row: "get_job (ws_jobs s) jid = Some j"
  obtains p s1 where
    "job_body env jid rid atts (Some url) bv st ao poc s = after_completed env jid rid (Some url) p s1"
    "wp_verdict p = (if job_blocks bv ao (map (result_of env engine st) atts) then BLOCK else PASS)"
    "wp_attachment_results p = map (result_of env engine st) atts"
    "ws_sent s1 = ws_sent s" "ws_deleted s1 = ws_deleted s"
    "get_job (ws_jobs s1) jid = Some (j\<lparr>ej_status := J_COMPLETED,
       ej_attachments_json := Some (map (result_of env engine st) atts), ej_completed_at := Some (we_now env 1)\<rparr>)"
proof -
  let ?rs = "map (result_of env engine st) atts"
  let ?s0 = "observe ''PROCESSING'' (touch jid [F_status J_PROCESSING] s)"
  have g0: "get_job (ws_jobs ?s0) jid = Some (j\<lparr>ej_status := J_PROCESSING\<rparr>)"
    using row by (simp add: observe_def get_job_touch)
  obtain s' where l: "attachment_loop env engine st jid [] atts ?s0 = (Inr ?rs, s')"
    "ws_sent s' = ws_sent ?s0" "ws_deleted s' = ws_deleted ?s0"
    "\<forall>j. get_job (ws_jobs ?s0) jid = Some j \<longrightarrow> (\<exists>as. get_job (ws_jobs s') jid = Some (j\<lparr>ej_attachments_json := as\<rparr>))"
    using attachment_loop_up [OF db nc, of engine st jid "[]" ?s0] by auto
  then obtain as where g': "get_job (ws_jobs s') jid = Some (j\<lparr>ej_status := J_PROCESSING, ej_attachments_json := as\<rparr>)"
    using g0 by auto
  have "\<forall>r \<in> set ?rs. wr_verdict r = BLOCK \<longrightarrow> wr_code r = ''BLOCK-2010''"
    using result_of_block_code by auto
  from finish_up [OF db this, of jid rid url bv ao poc s'] obtain p s1 where
    f: "finish env jid rid (Some url) bv ao poc ?rs s' = after_completed env jid rid (Some url) p s1"
    "wp_verdict p = (if job_blocks bv ao ?rs then BLOCK else PASS)" "wp_attachment_results p = ?rs"
    "ws_sent s1 = ws_sent s'" "ws_deleted s1 = ws_deleted s'"
    "\<forall>j. get_job (ws_jobs s') jid = Some j \<longrightarrow> get_job (ws_jobs s1) jid =
       Some (j\<lparr>ej_status := J_COMPLETED, ej_attachments_json := Some ?rs, ej_completed_at := Some (we_now env 1)\<rparr>)"
    by metis
  show ?thesis
  proof (rule that [OF _ f(2,3)])
    show "job_body env jid rid atts (Some url) bv st ao poc s = after_completed env jid rid (Some url) p s1"
      using l(1) f(1) eng by (simp add: job_body_def write_job_up [OF db] andthen_def Let_def)
    show "get_job (ws_jobs s1) jid = Some (j\<lparr>ej_status := J_COMPLETED,
       ej_attachments_json := Some ?rs, ej_completed_at := Some (we_now env 1)\<rparr>)"
      using f(6) g' by simp
  qed (use f(4,5) l(2,3) in \<open>simp_all add: observe_def touch_def\<close>)
qed

text \<open>
  C4: a job that runs undisturbed.  With the database up, no cancellation, and senders that answer,
  the job ends COMPLETED with one result per attachment in order; the callback gets exactly one
  payload, whose verdict is BLOCK exactly when the body or some attachment blocks and the job is not
  audit-only; the deletion request is sent exactly in that case, after the payload.
\<close>

theorem job_completes:
  assumes "we_db env = (\<lambda>n. None)" "we_analyzer env = Inr engine" "not_cancelled env atts"
    and "get_job (ws_jobs s) jid = Some j" "url \<noteq> []"
    and "\<forall>p. \<exists>ok. we_sender env url p = Inr ok" "\<forall>c. \<exists>ok. we_deleter env url rid jid c = Inr ok"
  shows "\<exists>s' p j'. process_attachment_job env jid rid atts (Some url) bv st ao poc s = (Inr (), s') \<and>
     get_job (ws_jobs s') jid = Some j' \<and> ej_status j' = J_COMPLETED \<and>
     ej_attachments_json j' = Some (map (result_of env engine st) atts) \<and>
     ws_sent s' = ws_sent s @ [(url, p)] \<and> wp_attachment_results p = map (result_of env engine st) atts \<and>
     wp_verdict p = (if job_blocks bv ao (map (result_of env engine st) atts) then BLOCK else PASS) \<and>
     ws_deleted s' = ws_deleted s @
       (if job_blocks bv ao (map (result_of env engine st) atts) then [(url, rid, jid, wp_code p)] else [])"
proof -
  let ?rs = "map (result_of env engine st) atts"
  obtain p s1 where b: "job_body env jid rid atts (Some url) bv st ao poc s = after_completed env jid rid (Some url) p s1"
    "wp_verdict p = (if job_blocks bv ao ?rs then BLOCK else PASS)" "wp_attachment_results p = ?rs"
    "ws_sent s1 = ws_sent s" "ws_deleted s1 = ws_deleted s"
    "get_job (ws_jobs s1) jid = Some (j\<lparr>ej_status := J_COMPLETED, ej_attachments_json := Some ?rs,
       ej_completed_at := Some (we_now env 1)\<rparr>)"
    by (rule body_up [OF assms(1-4)])
  obtain ok ok' where ok: "we_sender env url p = Inr ok" "we_deleter env url rid jid (wp_code p) = Inr ok'"
    using assms(6,7) by metis
  show ?thesis
    unfolding process_attachment_job_def b(1)
    using ok b(2-6) assms(5)
    by (simp add: after_completed_def notify_def andthen_def write_job_up [OF assms(1)] observe_def Let_def get_job_touch)
      (simp add: touch_def)
qed

theorem job_completes_witness:
  "\<exists>s' p. process_attachment_job demo_worker (u ''job_77'') 5 [demo_file] (Some (u ''https://b/cb'')) ''PASS''
       Medium False False demo_start = (Inr (), s') \<and> ws_sent s' = [(u ''https://b/cb'', p)]"
proof -
  have "we_db demo_worker = (\<lambda>n. None)" "we_analyzer demo_worker = Inr demo_engine"
    "not_cancelled demo_worker [demo_file]" "u ''https://b/cb'' \<noteq> []"
    "\<forall>p. \<exists>ok. we_sender demo_worker (u ''https://b/cb'') p = Inr ok"
    "\<forall>c. \<exists>ok. we_deleter demo_worker (u ''https://b/cb'') 5 (u ''job_77'') c = Inr ok" "ws_sent demo_start = []"
    by (auto simp: demo_worker_def not_cancelled_def demo_start_def)
  with job_completes [OF this(1-3) demo_row(1) this(4-6), where bv = "''PASS''" and st = Medium and ao = False and poc = False]
  show ?thesis by auto
qed

text \<open>
  A failure after completion overwrites it.  When everything up to the stored results succeeds but
  the sender raises (a malformed callback address does), the row that had been COMPLETED ends as
  FAILED with the sender's error, although all results are in it and no deletion was requested.
\<close>

theorem late_failure_overwrites:
  assumes "we_db env = (\<lambda>n. None)" "we_analyzer env = Inr engine" "not_cancelled env atts"
    and "get_job (ws_jobs s) jid = Some j" "url \<noteq> []"
    and "\<forall>p. we_sender env url p = Inl (Failed m)"
  shows "\<exists>s' j'. process_attachment_job env jid rid atts (Some url) bv st ao poc s = (Inr (), s') \<and>
     get_job (ws_jobs s') jid = Some j' \<and> ej_status j' = J_FAILED \<and> ej_error j' = Some m \<and>
     ej_attachments_json j' = Some (map (result_of env engine st) atts) \<and> ws_deleted s' = ws_deleted s"
proof -
  let ?rs = "map (result_of env engine st) atts"
  obtain p s1 where b: "job_body env jid rid atts (Some url) bv st ao poc s = after_completed env jid rid (Some url) p s1"
    "ws_deleted s1 = ws_deleted s"
    "get_job (ws_jobs s1) jid = Some (j\<lparr>ej_status := J_COMPLETED, ej_attachments_json := Some ?rs,
       ej_completed_at := Some (we_now env 1)\<rparr>)"
    by (rule body_up [OF assms(1-4)])
  show ?thesis
    unfolding process_attachment_job_def b(1)
    using b(2,3) assms(5,6)
    by (simp add: after_completed_def notify_def andthen_def write_job_up [OF assms(1)] observe_def Let_def get_job_touch)
      (simp add: touch_def)
qed

text \<open>The default sender, on the webhook model.\<close>

definition default_sender :: "hook_env \<Rightarrow> ustr \<Rightarrow> webhook_payload \<Rightarrow> wfail + bool" where
  "default_sender hook url p = (case fst (send_webhook hook None p url) of Inl e \<Rightarrow> Inl (Failed (u ''ValueError'')) | Inr ok \<Rightarrow> Inr ok)"

theorem late_failure_overwrites_witness:
  "\<exists>s' j'. process_attachment_job (demo_worker\<lparr>we_sender := default_sender (demo_hook\<lparr>he_netloc_ok := (\<lambda>n. False)\<rparr>)\<rparr>)
       (u ''job_77'') 5 [demo_file] (Some (u ''https://[b/cb'')) ''PASS'' Medium False False demo_start = (Inr (), s') \<and>
     get_job (ws_jobs s') (u ''job_77'') = Some j' \<and> ej_status j' = J_FAILED"
proof -
  let ?hook = "demo_hook\<lparr>he_netloc_ok := (\<lambda>n. False)\<rparr>"
  let ?env = "demo_worker\<lparr>we_sender := default_sender ?hook\<rparr>"
  have "request_path ?hook url = Inl ValueError" for url
    by (simp add: request_path_def urlparse_def Let_def split: prod.splits)
  then have "\<forall>p. we_sender ?env (u ''https://[b/cb'') p = Inl (Failed (u ''ValueError''))"
    by (simp add: default_sender_def send_webhook_def Let_def)
  moreover have "we_db ?env = (\<lambda>n. None)" "we_analyzer ?env = Inr demo_engine"
    "not_cancelled ?env [demo_file]" "u ''https://[b/cb'' \<noteq> []"
    by (simp_all add: demo_worker_def not_cancelled_def)
  ultimately show ?thesis
    using late_failure_overwrites [OF _ _ _ demo_row(1), of ?env demo_engine "[demo_file]" "u ''https://[b/cb''"]
    by blast
qed

end
