(* ===== verification/Regex.thy ===== *)
theory Regex
  imports Py_Unicode Prelude
begin

text \<open>
  The part of Python's regular expressions that the recognizers and the log filter use: character
  classes, sequence, alternation, bounded and unbounded greedy repetition, word boundaries and
  one-character negative lookaround.  \<open>ends\<close> lists the end positions of the matches that start at a
  position, in the order a backtracking engine tries them; \<open>finditer\<close> and \<open>sub_all\<close> are the scans
  over a text.  The locale \<open>bounded_pattern\<close> gives, for patterns of fixed shape between digit
  lookarounds, that the scan finds every occurrence.
\<close>

section \<open>Syntax and matching\<close>

datatype cls = Digit | Space | Lit nat | Range nat nat | Either cls cls

fun in_cls :: "cls \<Rightarrow> nat \<Rightarrow> bool" where
  "in_cls Digit c = is_decimal c"
| "in_cls Space c = is_space c"
| "in_cls (Lit n) c = (c = n)"
| "in_cls (Range a b) c = (a \<le> c \<and> c \<le> b)"
| "in_cls (Either p q) c = (in_cls p c \<or> in_cls q c)"

datatype rx =
    RCls cls
  | RSeq rx rx
  | RAlt rx rx
  | RRep rx nat nat
  | RMany cls nat
  | RBound
  | RBehindNot cls
  | RAheadNot cls

text \<open>Between \<open>m\<close> and \<open>n\<close> repetitions, longest first.\<close>

fun rep_ends :: "(nat \<Rightarrow> nat list) \<Rightarrow> nat \<Rightarrow> nat \<Rightarrow> nat \<Rightarrow> nat list" where
  "rep_ends f m 0 i = (if m = 0 then [i] else [])"
| "rep_ends f m (Suc n) i = concat (map (rep_ends f (m - 1) n) (f i)) @ (if m = 0 then [i] else [])"

definition word_at :: "ustr \<Rightarrow> nat \<Rightarrow> bool" where
  "word_at s i \<longleftrightarrow> i < length s \<and> is_word (s ! i)"

primrec ends :: "rx \<Rightarrow> ustr \<Rightarrow> nat \<Rightarrow> nat list" where
  "ends (RCls c) s i = (if i < length s \<and> in_cls c (s ! i) then [Suc i] else [])"
| "ends (RSeq a b) s i = concat (map (ends b s) (ends a s i))"
| "ends (RAlt a b) s i = ends a s i @ ends b s i"
| "ends (RRep a m n) s i = rep_ends (ends a s) m n i"
| "ends (RMany c m) s i =
     (let k = length (takeWhile (in_cls c) (drop i s)) in map (\<lambda>j. i + j) (rev [m..<Suc k]))"
| "ends RBound s i = (if (0 < i \<and> word_at s (i - 1)) \<noteq> word_at s i then [i] else [])"
| "ends (RBehindNot c) s i = (if 0 < i \<and> i \<le> length s \<and> in_cls c (s ! (i - 1)) then [] else [i])"
| "ends (RAheadNot c) s i = (if i < length s \<and> in_cls c (s ! i) then [] else [i])"

subsection \<open>Abbreviations of the syntax\<close>

definition digits :: "nat \<Rightarrow> rx" where "digits n = RRep (RCls Digit) n n"
definition hyphen :: rx where "hyphen = RCls (Lit 45)"

text \<open>\<^verbatim>\<open>\d{m,n}\<close> and an optional class.\<close>

definition digits_between :: "nat \<Rightarrow> nat \<Rightarrow> rx" where "digits_between m n = RRep (RCls Digit) m n"
definition optional :: "cls \<Rightarrow> rx" where "optional c = RRep (RCls c) 0 1"

fun seq :: "rx list \<Rightarrow> rx" where
  "seq [] = RRep RBound 0 0"
| "seq [r] = r"
| "seq (r # rs) = RSeq r (seq rs)"

fun alts :: "rx list \<Rightarrow> rx" where
  "alts [] = RRep RBound 1 0"
| "alts [r] = r"
| "alts (r # rs) = RAlt r (alts rs)"

definition chars :: "string \<Rightarrow> rx" where
  "chars s = seq (map (\<lambda>c. RCls (Lit (of_char c))) s)"

subsection \<open>Scanning a text\<close>

definition match_at :: "rx \<Rightarrow> ustr \<Rightarrow> nat \<Rightarrow> nat option" where
  "match_at r s i = (case ends r s i of [] \<Rightarrow> None | e # _ \<Rightarrow> Some e)"

text \<open>The scan: non-overlapping matches from left to right.\<close>

function find_from :: "rx \<Rightarrow> ustr \<Rightarrow> nat \<Rightarrow> (nat \<times> nat) list" where
  "find_from r s i =
     (if length s < i then []
      else case match_at r s i of
             None \<Rightarrow> find_from r s (Suc i)
           | Some e \<Rightarrow> (i, e) # find_from r s (if e \<le> i then Suc i else e))"
  by pat_completeness auto
termination
  by (relation "measure (\<lambda>(r, s, i). Suc (length s) - i)") (auto split: if_splits)

declare find_from.simps [simp del]

definition finditer :: "rx \<Rightarrow> ustr \<Rightarrow> (nat \<times> nat) list" where
  "finditer r s = find_from r s 0"

text \<open>\<^verbatim>\<open>re.sub\<close> with a constant replacement.\<close>

function sub_from :: "rx \<Rightarrow> ustr \<Rightarrow> ustr \<Rightarrow> nat \<Rightarrow> ustr" where
  "sub_from r rep s i =
     (if length s \<le> i then (case match_at r s i of None \<Rightarrow> [] | Some e \<Rightarrow> rep)
      else case match_at r s i of
             None \<Rightarrow> s ! i # sub_from r rep s (Suc i)
           | Some e \<Rightarrow> rep @ (if e \<le> i then s ! i # sub_from r rep s (Suc i) else sub_from r rep s e))"
  by pat_completeness auto
termination
  by (relation "measure (\<lambda>(r, rep, s, i). length s - i)") auto

declare sub_from.simps [simp del]

definition sub_all :: "rx \<Rightarrow> ustr \<Rightarrow> ustr \<Rightarrow> ustr" where
  "sub_all r rep s = sub_from r rep s 0"

definition substr :: "ustr \<Rightarrow> nat \<Rightarrow> nat \<Rightarrow> ustr" where
  "substr s i e = take (e - i) (drop i s)"

lemma match_at_ends:
  assumes "e \<in> set (ends r s i)"
  obtains e' where "match_at r s i = Some e'"
  using assms by (cases "ends r s i") (auto simp: match_at_def)

section \<open>The scan misses nothing\<close>

lemma find_from_complete:
  assumes m: "match_at r s i = Some e" "i \<le> length s"
    and apart: "\<forall>i' < i. \<forall>e'. match_at r s i' = Some e' \<longrightarrow> e' \<le> i"
    and j: "j \<le> i"
  shows "(i, e) \<in> set (find_from r s j)"
  using j
proof (induction "i - j" arbitrary: j rule: less_induct)
  case less
  show ?case
  proof (cases "j = i")
    case True
    with m show ?thesis by (subst find_from.simps) simp
  next
    case False
    with less.prems have lt: "j < i" by simp
    have step: "(i, e) \<in> set (find_from r s k)" if "j < k" "k \<le> i" for k
      using less.hyps [of k] that by simp
    show ?thesis
    proof (cases "match_at r s j")
      case None
      with lt m(2) step [of "Suc j"] show ?thesis by (subst find_from.simps) simp
    next
      case (Some e')
      with apart lt have "e' \<le> i" by blast
      with Some lt m(2) step [of "Suc j"] step [of e'] show ?thesis
        by (subst find_from.simps) simp
    qed
  qed
qed

lemma finditer_complete:
  assumes "match_at r s i = Some e" "i \<le> length s"
    and "\<forall>i' < i. \<forall>e'. match_at r s i' = Some e' \<longrightarrow> e' \<le> i"
  shows "(i, e) \<in> set (finditer r s)"
  unfolding finditer_def by (rule find_from_complete [OF assms]) simp

lemma find_from_sound: "(i, e) \<in> set (find_from r s j) \<Longrightarrow> match_at r s i = Some e \<and> i \<le> length s"
proof (induction r s j rule: find_from.induct)
  case (1 r s j)
  show ?case
  proof (cases "length s < j")
    case True
    with 1(3) show ?thesis by (simp add: find_from.simps [of r s j])
  next
    case False
    show ?thesis
    proof (cases "match_at r s j")
      case None
      with 1(1) [OF False None] 1(3) False show ?thesis by (simp add: find_from.simps [of r s j])
    next
      case (Some e')
      with 1(2) [OF False Some] 1(3) False show ?thesis by (auto simp: find_from.simps [of r s j])
    qed
  qed
qed

text \<open>A match that the scan does not report starts inside one that it does.\<close>

lemma find_from_covers:
  assumes m: "match_at r s i = Some e" "i \<le> length s" and j: "j \<le> i"
  shows "\<exists>(i', e') \<in> set (find_from r s j). i' \<le> i \<and> (i' = i \<or> i < e')"
  using j
proof (induction "i - j" arbitrary: j rule: less_induct)
  case less
  have step: "\<exists>(i', e') \<in> set (find_from r s k). i' \<le> i \<and> (i' = i \<or> i < e')" if "j < k" "k \<le> i" for k
    using less.hyps [of k] that by simp
  show ?case
  proof (cases "match_at r s j")
    case None
    with m(1) less.prems have "j < i" by (cases "j = i") auto
    with None m(2) step [of "Suc j"] show ?thesis by (subst find_from.simps) simp
  next
    case (Some e')
    have f: "find_from r s j = (j, e') # find_from r s (if e' \<le> j then Suc j else e')"
      using Some less.prems m(2) by (subst find_from.simps) simp
    show ?thesis
    proof (cases "j = i \<or> i < e'")
      case True
      with less.prems f show ?thesis by auto
    next
      case False
      with less.prems step [of "Suc j"] step [of e'] f show ?thesis by auto
    qed
  qed
qed

lemma finditer_covers:
  assumes "match_at r s i = Some e" "i \<le> length s"
  shows "\<exists>(i', e') \<in> set (finditer r s). i' \<le> i \<and> (i' = i \<or> i < e')"
  unfolding finditer_def by (rule find_from_covers [OF assms]) simp

section \<open>Matching and the language of an expression\<close>

text \<open>The words of an expression without lookaround.\<close>

definition conc :: "ustr set \<Rightarrow> ustr set \<Rightarrow> ustr set" where
  "conc A B = {v @ w | v w. v \<in> A \<and> w \<in> B}"

primrec cpow :: "ustr set \<Rightarrow> nat \<Rightarrow> ustr set" where
  "cpow A 0 = {[]}"
| "cpow A (Suc n) = conc A (cpow A n)"

lemma concI: "v \<in> A \<Longrightarrow> w \<in> B \<Longrightarrow> v @ w \<in> conc A B"
  unfolding conc_def by blast

lemma conc_single: "w \<in> conc {[x] |x. P x} B \<longleftrightarrow> (\<exists>a w'. w = a # w' \<and> P a \<and> w' \<in> B)"
proof
  assume "w \<in> conc {[x] |x. P x} B"
  then show "\<exists>a w'. w = a # w' \<and> P a \<and> w' \<in> B" by (auto simp: conc_def)
next
  assume "\<exists>a w'. w = a # w' \<and> P a \<and> w' \<in> B"
  then obtain a w' where "w = [a] @ w'" "P a" "w' \<in> B" by auto
  then show "w \<in> conc {[x] |x. P x} B" unfolding conc_def by blast
qed

lemma cpow_append: "v \<in> cpow A m \<Longrightarrow> w \<in> cpow A n \<Longrightarrow> v @ w \<in> cpow A (m + n)"
  by (induction m arbitrary: v) (fastforce simp: conc_def)+

primrec lang :: "rx \<Rightarrow> ustr set" where
  "lang (RCls c) = {[x] | x. in_cls c x}"
| "lang (RSeq a b) = conc (lang a) (lang b)"
| "lang (RAlt a b) = lang a \<union> lang b"
| "lang (RRep a m n) = (\<Union>k \<in> {m..n}. cpow (lang a) k)"
| "lang (RMany c m) = {w. m \<le> length w \<and> list_all (in_cls c) w}"
| "lang RBound = {}"
| "lang (RBehindNot c) = {}"
| "lang (RAheadNot c) = {}"

primrec plain :: "rx \<Rightarrow> bool" where
  "plain (RCls c) = True"
| "plain (RSeq a b) = (plain a \<and> plain b)"
| "plain (RAlt a b) = (plain a \<and> plain b)"
| "plain (RRep a m n) = plain a"
| "plain (RMany c m) = True"
| "plain RBound = False"
| "plain (RBehindNot c) = False"
| "plain (RAheadNot c) = False"

text \<open>\<open>starts A s i e\<close>: a word of \<open>A\<close> stands in \<open>s\<close> from \<open>i\<close> to \<open>e\<close>.\<close>

definition starts :: "ustr set \<Rightarrow> ustr \<Rightarrow> nat \<Rightarrow> nat \<Rightarrow> bool" where
  "starts A s i e \<longleftrightarrow> (\<exists>w \<in> A. \<exists>q. drop i s = w @ q \<and> e = i + length w)"

lemma starts_bound: "starts A s i e \<Longrightarrow> i \<le> length s \<Longrightarrow> i \<le> e \<and> e \<le> length s"
  unfolding starts_def by (metis append_eq_conv_conj diff_is_0_eq drop_all le_add1 le_add_diff_inverse length_append
      length_drop nat_add_left_cancel_le)

lemma drop_past: "drop i s = v @ q \<Longrightarrow> drop (i + length v) s = q"
  by (metis add.commute append_eq_conv_conj drop_drop)

lemma starts_conc:
  assumes "i \<le> length s"
  shows "starts (conc A B) s i e \<longleftrightarrow> (\<exists>m. starts A s i m \<and> starts B s m e)"
proof
  assume "starts (conc A B) s i e"
  then obtain v w q where "v \<in> A" "w \<in> B" "drop i s = v @ w @ q" "e = i + length v + length w"
    by (auto simp: starts_def conc_def add.assoc)
  moreover from this have "drop (i + length v) s = w @ q" by (blast intro: drop_past)
  ultimately show "\<exists>m. starts A s i m \<and> starts B s m e"
    unfolding starts_def by (metis (no_types))
next
  assume "\<exists>m. starts A s i m \<and> starts B s m e"
  then obtain v w q q' where "v \<in> A" "w \<in> B" "drop i s = v @ q'" "drop (i + length v) s = w @ q" "e = i + length v + length w"
    by (auto simp: starts_def)
  moreover from this have "q' = w @ q" using drop_past by metis
  ultimately show "starts (conc A B) s i e"
    unfolding starts_def conc_def by (intro bexI [of _ "v @ w"] exI [of _ q]) auto
qed

lemma rep_ends_iff:
  "e \<in> set (rep_ends f m n i) \<longleftrightarrow> (\<exists>k. m \<le> k \<and> k \<le> n \<and> (i, e) \<in> {(a, b). b \<in> set (f a)} ^^ k)"
proof (induction n arbitrary: m i)
  case (Suc n)
  let ?R = "{(a, b). b \<in> set (f a)}"
  have "(\<exists>k. m \<le> k \<and> k \<le> Suc n \<and> (i, e) \<in> ?R ^^ k) \<longleftrightarrow>
      (m = 0 \<and> e = i) \<or> (\<exists>k. m - 1 \<le> k \<and> k \<le> n \<and> (i, e) \<in> ?R O ?R ^^ k)" (is "?l \<longleftrightarrow> ?r")
  proof
    assume ?l
    then obtain k where k: "m \<le> k" "k \<le> Suc n" "(i, e) \<in> ?R ^^ k" by blast
    then show ?r
    proof (cases k)
      case (Suc k')
      with k show ?thesis by (intro disjI2 exI [of _ k']) (auto simp: relpow_commute)
    qed auto
  next
    assume ?r
    then show ?l
    proof
      assume "m = 0 \<and> e = i"
      then show ?thesis by (intro exI [of _ 0]) simp
    next
      assume "\<exists>k. m - 1 \<le> k \<and> k \<le> n \<and> (i, e) \<in> ?R O ?R ^^ k"
      then obtain k where "m - 1 \<le> k" "k \<le> n" "(i, e) \<in> ?R O ?R ^^ k" by blast
      then show ?thesis by (intro exI [of _ "Suc k"]) (auto simp: relpow_commute)
    qed
  qed
  also have "\<dots> \<longleftrightarrow> e \<in> set (rep_ends f m (Suc n) i)"
    using Suc.IH [of "m - 1"] by auto
  finally show ?case by blast
qed auto

lemma starts_pow:
  assumes "i \<le> length s" "\<And>a b. a \<le> length s \<Longrightarrow> (a, b) \<in> R \<longleftrightarrow> starts A s a b"
  shows "starts (cpow A k) s i e \<longleftrightarrow> (i, e) \<in> R ^^ k"
  using assms(1)
proof (induction k arbitrary: i)
  case 0
  then show ?case by (auto simp: starts_def)
next
  case (Suc k)
  have "starts (cpow A (Suc k)) s i e \<longleftrightarrow> (\<exists>m. (i, m) \<in> R \<and> starts (cpow A k) s m e)"
    using starts_conc [OF Suc.prems] assms(2) [OF Suc.prems] by simp
  also have "\<dots> \<longleftrightarrow> (\<exists>m. (i, m) \<in> R \<and> (m, e) \<in> R ^^ k)"
    using Suc.IH assms(2) [OF Suc.prems] starts_bound Suc.prems by blast
  also have "\<dots> \<longleftrightarrow> (i, e) \<in> R O R ^^ k" by blast
  finally show ?case by (simp add: relpow_commute)
qed

text \<open>The backtracking matcher finds exactly the words of the language.\<close>

lemma ends_lang:
  "plain r \<Longrightarrow> i \<le> length s \<Longrightarrow> e \<in> set (ends r s i) \<longleftrightarrow> starts (lang r) s i e"
proof (induction r arbitrary: i e)
  case (RCls c)
  then show ?case
    by (cases "drop i s")
      (auto simp: starts_def nth_via_drop, (metis drop_all list.distinct(1) not_le_imp_less)?)
next
  case (RSeq a b)
  have "e \<in> set (ends (RSeq a b) s i) \<longleftrightarrow> (\<exists>m. m \<in> set (ends a s i) \<and> e \<in> set (ends b s m))" by auto
  also have "\<dots> \<longleftrightarrow> (\<exists>m. starts (lang a) s i m \<and> starts (lang b) s m e)"
    using RSeq starts_bound by (metis plain.simps(2))
  finally show ?case using starts_conc [OF RSeq.prems(2)] by simp
next
  case (RAlt a b)
  then show ?case by (auto simp: starts_def)
next
  case (RRep a m n)
  have "starts (cpow (lang a) k) s i e \<longleftrightarrow> (i, e) \<in> {(a', b). b \<in> set (ends a s a')} ^^ k" for k
    by (rule starts_pow [OF RRep.prems(2)]) (use RRep in simp)
  then show ?case by (auto simp: rep_ends_iff starts_def)
next
  case (RMany c m)
  let ?k = "length (takeWhile (in_cls c) (drop i s))"
  have "starts (lang (RMany c m)) s i e \<longleftrightarrow> (\<exists>n. m \<le> n \<and> n \<le> ?k \<and> e = i + n)" (is "?l \<longleftrightarrow> ?r")
  proof
    assume ?l
    then obtain w q where w: "drop i s = w @ q" "m \<le> length w" "list_all (in_cls c) w" "e = i + length w"
      by (auto simp: starts_def)
    then have "length w \<le> ?k" by (simp add: list_all_iff takeWhile_append)
    with w show ?r by blast
  next
    assume ?r
    then obtain n where n: "m \<le> n" "n \<le> ?k" "e = i + n" by blast
    let ?w = "take n (drop i s)"
    have "length ?w = n" using n(2) length_takeWhile_le [of "in_cls c" "drop i s"] by simp
    moreover have "list_all (in_cls c) ?w"
    proof -
      have "?w = take n (takeWhile (in_cls c) (drop i s))"
        using n(2) by (metis append_take_drop_id take_append takeWhile_dropWhile_id diff_is_0_eq' take0 append_Nil2)
      then show ?thesis by (auto simp: list_all_iff dest: in_set_takeD set_takeWhileD)
    qed
    ultimately show ?l
      unfolding starts_def using n(1,3)
      by (intro bexI [of _ ?w] exI [of _ "drop n (drop i s)"]) (simp_all del: drop_drop)
  qed
  then show ?case by (auto simp: Let_def image_iff)
qed simp_all

section \<open>Patterns of fixed shape\<close>

text \<open>The cells of an expression that matches one fixed sequence of classes.\<close>

fun cells_of :: "rx \<Rightarrow> cls list option" where
  "cells_of (RCls c) = Some [c]"
| "cells_of (RRep (RCls c) m n) = (if m = n then Some (replicate m c) else None)"
| "cells_of (RSeq a b) =
     (case (cells_of a, cells_of b) of (Some p, Some q) \<Rightarrow> Some (p @ q) | _ \<Rightarrow> None)"
| "cells_of _ = None"

fun match_cells :: "cls list \<Rightarrow> ustr \<Rightarrow> bool" where
  "match_cells [] s = True"
| "match_cells (c # cs) [] = False"
| "match_cells (c # cs) (x # s) = (in_cls c x \<and> match_cells cs s)"

lemma match_cells_append: "match_cells (p @ q) s \<longleftrightarrow> match_cells p s \<and> match_cells q (drop (length p) s)"
  by (induction p s rule: match_cells.induct) (auto elim: match_cells.elims)

lemma match_cells_iff:
  "match_cells cs s \<longleftrightarrow> length cs \<le> length s \<and> (\<forall>j < length cs. in_cls (cs ! j) (s ! j))"
  by (induction cs s rule: match_cells.induct) (auto simp: less_Suc_eq_0_disj)

lemma rep_ends_exact:
  "rep_ends (ends (RCls c) s) m m i = (if match_cells (replicate m c) (drop i s) then [i + m] else [])"
proof (induction m arbitrary: i)
  case 0
  then show ?case by simp
next
  case (Suc m)
  show ?case
  proof (cases "i < length s")
    case True
    then have "drop i s = s ! i # drop (Suc i) s" by (simp add: Cons_nth_drop_Suc)
    with Suc [of "Suc i"] True show ?thesis by simp
  qed simp
qed

lemma ends_cells:
  "cells_of r = Some cs \<Longrightarrow> ends r s i = (if match_cells cs (drop i s) then [i + length cs] else [])"
proof (induction r arbitrary: cs i rule: cells_of.induct)
  case (1 c)
  then show ?case by (cases "i < length s") (auto simp: Cons_nth_drop_Suc [symmetric])
next
  case (2 c m n)
  then show ?case using rep_ends_exact [of c s m i] by (auto split: if_splits)
next
  case (3 a b)
  then obtain p q where "cells_of a = Some p" "cells_of b = Some q" "cs = p @ q"
    by (auto split: option.splits)
  with 3 show ?case by (auto simp: match_cells_append add.commute)
qed simp_all

text \<open>Two classes no character is in both of, and classes of digits only, as far as it shows syntactically.\<close>

fun cls_apart :: "cls \<Rightarrow> cls \<Rightarrow> bool" where
  "cls_apart Digit (Lit n) = (n < 128 \<and> (n < 48 \<or> 57 < n))"
| "cls_apart (Lit n) Digit = (n < 128 \<and> (n < 48 \<or> 57 < n))"
| "cls_apart (Lit n) (Range a b) = (n < a \<or> b < n)"
| "cls_apart (Range a b) (Lit n) = (n < a \<or> b < n)"
| "cls_apart _ _ = False"

fun cls_digit :: "cls \<Rightarrow> bool" where
  "cls_digit Digit = True"
| "cls_digit (Range a b) = (48 \<le> a \<and> b \<le> 57)"
| "cls_digit (Lit n) = (48 \<le> n \<and> n \<le> 57)"
| "cls_digit (Either p q) = (cls_digit p \<and> cls_digit q)"
| "cls_digit _ = False"

lemma cls_apart_sound: "cls_apart p q \<Longrightarrow> in_cls p c \<Longrightarrow> \<not> in_cls q c"
  by (induction p q rule: cls_apart.induct) (auto simp: is_decimal_ascii)

lemma cls_digit_sound: "cls_digit p \<Longrightarrow> in_cls p c \<Longrightarrow> is_decimal c"
  by (induction p) (auto simp: is_decimal_ascii)

text \<open>No two occurrences of the shape, each between non-digits, can overlap.\<close>

definition overlap_free :: "cls list \<Rightarrow> bool" where
  "overlap_free cs \<longleftrightarrow>
     list_all (\<lambda>k. cls_digit (cs ! (k - 1)) \<or> cls_digit (cs ! (length cs - k)) \<or>
         list_ex (\<lambda>j. cls_apart (cs ! (k + j)) (cs ! j)) [0..<length cs - k])
       [1..<length cs]"

definition between_digits :: "rx \<Rightarrow> rx" where
  "between_digits body = RSeq (RBehindNot Digit) (RSeq body (RAheadNot Digit))"

locale bounded_pattern =
  fixes body :: rx and cs :: "cls list"
  assumes cells: "cells_of body = Some cs"
    and free: "overlap_free cs"
    and nonempty: "cs \<noteq> []"
begin

lemma match_iff:
  assumes "i \<le> length s"
  shows "match_at (between_digits body) s i = Some e \<longleftrightarrow>
     (i = 0 \<or> \<not> is_decimal (s ! (i - 1))) \<and> match_cells cs (drop i s) \<and> e = i + length cs \<and>
     (e = length s \<or> \<not> is_decimal (s ! e))"
proof -
  have "e \<le> length s" if "match_cells cs (drop i s)" "e = i + length cs"
    using that assms by (auto simp: match_cells_iff)
  then show ?thesis
    using assms by (auto simp: match_at_def between_digits_def ends_cells [OF cells] split: list.splits if_splits)
qed

lemma apart:
  assumes i: "match_at (between_digits body) s i = Some e" "i \<le> length s"
    and i': "match_at (between_digits body) s i' = Some e'" "i' < i"
  shows "e' \<le> i"
proof (rule ccontr)
  assume "\<not> e' \<le> i"
  note mi = i(1) [unfolded match_iff [OF i(2)]]
  have il: "i' \<le> length s" using i(2) i'(2) by simp
  note mi' = i'(1) [unfolded match_iff [OF il]]
  define k where "k = i - i'"
  have k: "i = i' + k" "1 \<le> k" "k < length cs"
    using i'(2) mi' \<open>\<not> e' \<le> i\<close> by (simp_all add: k_def)
  have c': "in_cls (cs ! j) (s ! (i' + j))" if "j < length cs" for j
    using mi' that il by (simp add: match_cells_iff)
  have c: "in_cls (cs ! j) (s ! (i + j))" if "j < length cs" for j
    using mi that i(2) by (simp add: match_cells_iff)
  have "\<not> is_decimal (s ! (i' + (k - 1)))" using mi k by simp
  moreover have "in_cls (cs ! (k - 1)) (s ! (i' + (k - 1)))" using c' [of "k - 1"] k by simp
  ultimately have "\<not> cls_digit (cs ! (k - 1))" using cls_digit_sound by blast
  moreover have "\<not> cls_digit (cs ! (length cs - k))"
  proof
    assume d: "cls_digit (cs ! (length cs - k))"
    have "in_cls (cs ! (length cs - k)) (s ! (i + (length cs - k)))" using c [of "length cs - k"] k by simp
    moreover have "i + (length cs - k) = e'" using k mi' by simp
    ultimately have "is_decimal (s ! e')" using cls_digit_sound [OF d] by simp
    moreover have "e' < length s" using mi mi' k i(2) by (auto simp: match_cells_iff)
    ultimately show False using mi' by auto
  qed
  ultimately obtain j where j: "j < length cs - k" "cls_apart (cs ! (k + j)) (cs ! j)"
    using free k by (auto simp: overlap_free_def list_all_iff list_ex_iff)
  have "in_cls (cs ! (k + j)) (s ! (i + j))" using c' [of "k + j"] j(1) k(1) by (simp add: add.assoc)
  moreover have "in_cls (cs ! j) (s ! (i + j))" using c [of j] j(1) by simp
  ultimately show False using cls_apart_sound [OF j(2)] by blast
qed

lemma finds_every_occurrence:
  assumes "length p = length cs" "match_cells cs p"
    and "pre = [] \<or> \<not> is_decimal (last pre)" "post = [] \<or> \<not> is_decimal (hd post)"
  shows "(length pre, length pre + length cs) \<in> set (finditer (between_digits body) (pre @ p @ post))"
proof -
  let ?s = "pre @ p @ post"
  have "match_cells cs (p @ post)"
    using assms(1,2) by (simp add: match_cells_iff nth_append)
  moreover have "?s ! (length pre - 1) = last pre" if "pre \<noteq> []"
    using that by (simp add: nth_append last_conv_nth)
  moreover have "?s ! (length pre + length cs) = hd post" if "post \<noteq> []"
    using that assms(1) by (simp add: nth_append hd_conv_nth)
  ultimately have m: "match_at (between_digits body) ?s (length pre) = Some (length pre + length cs)"
    using assms(1,3,4) by (subst match_iff) auto
  show ?thesis
    by (rule finditer_complete [OF m]) (use apart [OF m] in auto)
qed

lemma finds_only_occurrences:
  assumes "(i, e) \<in> set (finditer (between_digits body) s)"
  shows "e = i + length cs \<and> e \<le> length s \<and> match_cells cs (substr s i e) \<and>
     (i = 0 \<or> \<not> is_decimal (s ! (i - 1))) \<and> (e = length s \<or> \<not> is_decimal (s ! e))"
proof -
  have m: "match_at (between_digits body) s i = Some e" "i \<le> length s"
    using find_from_sound assms by (auto simp: finditer_def)
  note mi = m(1) [unfolded match_iff [OF m(2)]]
  moreover from mi m(2) have "e \<le> length s" by (auto simp: match_cells_iff)
  moreover from mi this have "match_cells cs (substr s i e)" by (auto simp: match_cells_iff substr_def)
  ultimately show ?thesis by blast
qed

end

subsection \<open>First, last and all characters of the words\<close>

primrec nullable :: "rx \<Rightarrow> bool" where
  "nullable (RCls c) = False"
| "nullable (RSeq a b) = (nullable a \<and> nullable b)"
| "nullable (RAlt a b) = (nullable a \<or> nullable b)"
| "nullable (RRep a m n) = (m = 0 \<or> nullable a)"
| "nullable (RMany c m) = (m = 0)"
| "nullable RBound = True"
| "nullable (RBehindNot c) = True"
| "nullable (RAheadNot c) = True"

primrec first_cls :: "rx \<Rightarrow> cls list" where
  "first_cls (RCls c) = [c]"
| "first_cls (RSeq a b) = first_cls a @ (if nullable a then first_cls b else [])"
| "first_cls (RAlt a b) = first_cls a @ first_cls b"
| "first_cls (RRep a m n) = first_cls a"
| "first_cls (RMany c m) = [c]"
| "first_cls RBound = []"
| "first_cls (RBehindNot c) = []"
| "first_cls (RAheadNot c) = []"

primrec last_cls :: "rx \<Rightarrow> cls list" where
  "last_cls (RCls c) = [c]"
| "last_cls (RSeq a b) = last_cls b @ (if nullable b then last_cls a else [])"
| "last_cls (RAlt a b) = last_cls a @ last_cls b"
| "last_cls (RRep a m n) = last_cls a"
| "last_cls (RMany c m) = [c]"
| "last_cls RBound = []"
| "last_cls (RBehindNot c) = []"
| "last_cls (RAheadNot c) = []"

primrec all_cls :: "rx \<Rightarrow> cls list" where
  "all_cls (RCls c) = [c]"
| "all_cls (RSeq a b) = all_cls a @ all_cls b"
| "all_cls (RAlt a b) = all_cls a @ all_cls b"
| "all_cls (RRep a m n) = all_cls a"
| "all_cls (RMany c m) = [c]"
| "all_cls RBound = []"
| "all_cls (RBehindNot c) = []"
| "all_cls (RAheadNot c) = []"

definition some_cls :: "cls list \<Rightarrow> nat \<Rightarrow> bool" where
  "some_cls cs x \<longleftrightarrow> list_ex (\<lambda>c. in_cls c x) cs"

lemma some_cls_append [simp]: "some_cls (cs @ ds) x \<longleftrightarrow> some_cls cs x \<or> some_cls ds x"
  by (simp add: some_cls_def)

lemma some_cls_single [simp]: "some_cls [c] x \<longleftrightarrow> in_cls c x"
  by (simp add: some_cls_def)

lemma cpow_props:
  assumes "\<And>v. v \<in> A \<Longrightarrow> \<forall>x \<in> set v. P x" "\<And>v. v \<in> A \<Longrightarrow> v \<noteq> [] \<Longrightarrow> F (hd v)" "\<And>v. v \<in> A \<Longrightarrow> v \<noteq> [] \<Longrightarrow> L (last v)"
  shows "w \<in> cpow A k \<Longrightarrow> (\<forall>x \<in> set w. P x) \<and> (w \<noteq> [] \<longrightarrow> F (hd w) \<and> L (last w))"
proof (induction k arbitrary: w)
  case (Suc k)
  then obtain v w' where v: "v \<in> A" "w' \<in> cpow A k" "w = v @ w'" by (auto simp: conc_def)
  with Suc.IH [OF v(2)] assms show ?case by (cases "v = []"; cases "w' = []") auto
qed simp

lemma lang_nonempty: "plain r \<Longrightarrow> \<not> nullable r \<Longrightarrow> w \<in> lang r \<Longrightarrow> w \<noteq> []"
proof (induction r arbitrary: w)
  case (RRep a m n)
  then obtain k where k: "m \<le> k" "w \<in> cpow (lang a) k" by auto
  with RRep.prems(2) have "k \<noteq> 0" by (cases k) auto
  with k obtain v w' where "v \<in> lang a" "w = v @ w'" by (cases k) (auto simp: conc_def)
  with RRep show ?case by auto
qed (auto simp: conc_def)

lemma lang_all: "w \<in> lang r \<Longrightarrow> \<forall>x \<in> set w. some_cls (all_cls r) x"
proof (induction r arbitrary: w)
  case (RRep a m n)
  then obtain k where "w \<in> cpow (lang a) k" by auto
  with cpow_props [of "lang a" "some_cls (all_cls a)" "\<lambda>x. True" "\<lambda>x. True"] RRep.IH show ?case by simp
qed (auto simp: conc_def list_all_iff)

lemma lang_first: "plain r \<Longrightarrow> w \<in> lang r \<Longrightarrow> w \<noteq> [] \<Longrightarrow> some_cls (first_cls r) (hd w)"
proof (induction r arbitrary: w)
  case (RSeq a b)
  then obtain v v' where v: "v \<in> lang a" "v' \<in> lang b" "w = v @ v'" by (auto simp: conc_def)
  with RSeq lang_nonempty show ?case by (cases "v = []") auto
next
  case (RRep a m n)
  then obtain k where "w \<in> cpow (lang a) k" by auto
  with cpow_props [of "lang a" "\<lambda>x. True" "some_cls (first_cls a)" "\<lambda>x. True"] RRep show ?case by simp
qed (auto simp: list_all_iff)

lemma lang_last: "plain r \<Longrightarrow> w \<in> lang r \<Longrightarrow> w \<noteq> [] \<Longrightarrow> some_cls (last_cls r) (last w)"
proof (induction r arbitrary: w)
  case (RSeq a b)
  then obtain v v' where v: "v \<in> lang a" "v' \<in> lang b" "w = v @ v'" by (auto simp: conc_def)
  with RSeq lang_nonempty show ?case by (cases "v' = []") auto
next
  case (RRep a m n)
  then obtain k where "w \<in> cpow (lang a) k" by auto
  with cpow_props [of "lang a" "\<lambda>x. True" "\<lambda>x. True" "some_cls (last_cls a)"] RRep show ?case by simp
qed (auto simp: list_all_iff)

text \<open>Expressions that are redacted safely by a replacement.\<close>

definition redactable :: "rx \<Rightarrow> ustr \<Rightarrow> bool" where
  "redactable r rep \<longleftrightarrow> plain r \<and> \<not> nullable r \<and> rep \<noteq> [] \<and>
     list_all (\<lambda>x. \<not> some_cls (first_cls r) x) rep \<and> \<not> some_cls (all_cls r) (hd rep)"

lemma redactable_words: "redactable r rep \<Longrightarrow> w \<in> lang r \<Longrightarrow> w \<noteq> [] \<and> hd w \<notin> set rep \<and> hd rep \<notin> set w"
  unfolding redactable_def using lang_nonempty lang_first lang_all by (metis list_all_iff)

primrec min_len :: "rx \<Rightarrow> nat" where
  "min_len (RCls c) = 1"
| "min_len (RSeq a b) = min_len a + min_len b"
| "min_len (RAlt a b) = min (min_len a) (min_len b)"
| "min_len (RRep a m n) = m * min_len a"
| "min_len (RMany c m) = m"
| "min_len RBound = 0"
| "min_len (RBehindNot c) = 0"
| "min_len (RAheadNot c) = 0"

lemma cpow_length: "(\<And>v. v \<in> A \<Longrightarrow> n \<le> length v) \<Longrightarrow> w \<in> cpow A k \<Longrightarrow> k * n \<le> length w"
  by (induction k arbitrary: w) (fastforce simp: conc_def add_mono)+

lemma lang_length: "w \<in> lang r \<Longrightarrow> min_len r \<le> length w"
proof (induction r arbitrary: w)
  case (RRep a m n)
  then obtain k where k: "m \<le> k" "w \<in> cpow (lang a) k" by auto
  then have "k * min_len a \<le> length w" using RRep.IH by (intro cpow_length)
  with k(1) show ?case by (metis le_trans min_len.simps(4) mult_le_mono1)
qed (auto simp: conc_def add_mono min_le_iff_disj)


section \<open>What a substitution leaves\<close>

definition occurs :: "ustr set \<Rightarrow> ustr \<Rightarrow> bool" where
  "occurs A s \<longleftrightarrow> (\<exists>p w q. w \<in> A \<and> s = p @ w @ q)"

text \<open>A word that stands free: no word character touches it.\<close>

definition stands :: "ustr set \<Rightarrow> ustr \<Rightarrow> bool" where
  "stands A s \<longleftrightarrow> (\<exists>p w q. w \<in> A \<and> s = p @ w @ q \<and>
     (p = [] \<or> \<not> is_word (last p)) \<and> (q = [] \<or> \<not> is_word (hd q)))"

lemma stands_mono: "A \<subseteq> B \<Longrightarrow> stands A s \<Longrightarrow> stands B s"
  unfolding stands_def by blast

definition proper_matches :: "rx \<Rightarrow> ustr \<Rightarrow> bool" where
  "proper_matches r s \<longleftrightarrow> (\<forall>i e. i \<le> length s \<longrightarrow> match_at r s i = Some e \<longrightarrow> i < e \<and> e \<le> length s)"

lemma proper_matchesD: "proper_matches r s \<Longrightarrow> i \<le> length s \<Longrightarrow> match_at r s i = Some e \<Longrightarrow> i < e \<and> e \<le> length s"
  by (simp add: proper_matches_def)

lemma sub_from_end: "proper_matches r s \<Longrightarrow> length s \<le> i \<Longrightarrow> i \<le> length s \<Longrightarrow> sub_from r rep s i = []"
  by (subst sub_from.simps) (auto dest: proper_matchesD split: option.splits)

lemma sub_from_None: "i < length s \<Longrightarrow> match_at r s i = None \<Longrightarrow> sub_from r rep s i = s ! i # sub_from r rep s (Suc i)"
  by (subst sub_from.simps) simp

lemma sub_from_Some:
  "proper_matches r s \<Longrightarrow> i < length s \<Longrightarrow> match_at r s i = Some e \<Longrightarrow> sub_from r rep s i = rep @ sub_from r rep s e"
  using proper_matchesD [of r s i e] by (subst sub_from.simps) auto

text \<open>Up to the next mark, the output is the input.\<close>

lemma sub_from_prefix:
  assumes "proper_matches r s" "rep \<noteq> []"
  shows "i \<le> length s \<Longrightarrow> sub_from r rep s i = w @ q \<Longrightarrow> hd rep \<notin> set w \<Longrightarrow>
     \<exists>q'. drop i s = w @ q' \<and>
       (q = [] \<and> q' = [] \<or> q \<noteq> [] \<and> q' \<noteq> [] \<and> hd q = hd q' \<or>
        q \<noteq> [] \<and> hd q = hd rep \<and> i + length w < length s \<and> match_at r s (i + length w) \<noteq> None)"
proof (induction w arbitrary: i)
  case Nil
  show ?case
  proof (cases "i < length s")
    case False
    with Nil assms show ?thesis by (simp add: sub_from_end)
  next
    case True
    show ?thesis
    proof (cases "match_at r s i")
      case None
      with True Nil(2) show ?thesis by (simp add: sub_from_None hd_drop_conv_nth) (metis hd_drop_conv_nth list.distinct(1) list.sel(1))
    next
      case (Some e)
      with True Nil(2) assms show ?thesis by (simp add: sub_from_Some) (metis append_is_Nil_conv hd_append2)
    qed
  qed
next
  case (Cons x w)
  have i: "i < length s" using Cons.prems(1,2) assms(1) by (cases "i < length s") (simp_all add: sub_from_end)
  have m: "match_at r s i = None"
  proof (cases "match_at r s i")
    case (Some e)
    with i Cons.prems(2) assms have "x = hd rep" by (cases rep) (auto simp: sub_from_Some)
    with Cons.prems(3) show ?thesis by simp
  qed simp
  with i Cons.prems have "x = s ! i" "sub_from r rep s (Suc i) = w @ q" by (simp_all add: sub_from_None)
  with Cons.IH [of "Suc i"] Cons.prems(3) i show ?case
    by (auto simp: Cons_nth_drop_Suc [symmetric])
qed

text \<open>Where a word of the output that does not begin inside a replacement comes from.\<close>

lemma sub_from_origin:
  assumes pm: "proper_matches r s" and re: "rep \<noteq> []" and w: "w \<noteq> []" "hd w \<notin> set rep"
  shows "i \<le> length s \<Longrightarrow> sub_from r rep s i = p @ w @ q \<Longrightarrow>
    \<exists>j. i \<le> j \<and> j < length s \<and> match_at r s j = None \<and> sub_from r rep s j = w @ q \<and>
      (if p = [] then j = i else i < j \<and> last p = s ! (j - 1) \<or> last p = last rep \<and> (\<exists>k < j. match_at r s k = Some j))"
proof (induction "length s - i" arbitrary: i p rule: less_induct)
  case less
  have i: "i < length s" using less.prems w pm by (cases "i < length s") (simp_all add: sub_from_end)
  show ?case
  proof (cases "match_at r s i")
    case None
    show ?thesis
    proof (cases p)
      case Nil
      with less.prems None i show ?thesis by auto
    next
      case (Cons x p')
      with less.prems None i have x: "x = s ! i" "sub_from r rep s (Suc i) = p' @ w @ q" by (simp_all add: sub_from_None)
      obtain j where j: "Suc i \<le> j" "j < length s" "match_at r s j = None" "sub_from r rep s j = w @ q"
        "if p' = [] then j = Suc i else Suc i < j \<and> last p' = s ! (j - 1) \<or> last p' = last rep \<and> (\<exists>k < j. match_at r s k = Some j)"
        using less.hyps [of "Suc i" p', OF diff_less_mono2 [OF lessI i] Suc_leI [OF i] x(2)] by blast
      then show ?thesis using Cons x(1) by (intro exI [of _ j]) (auto split: if_splits)
    qed
  next
    case (Some e)
    with pm i have e: "i < e" "e \<le> length s" using proper_matchesD [of r s i e] by auto
    have out: "rep @ sub_from r rep s e = p @ w @ q" using less.prems Some i pm by (simp add: sub_from_Some)
    have "length rep \<le> length p"
    proof (rule ccontr)
      assume "\<not> length rep \<le> length p"
      then have "rep ! length p = hd w"
        using arg_cong [OF out, of "\<lambda>t. t ! length p"] w(1) by (simp add: nth_append hd_conv_nth)
      with w(2) \<open>\<not> length rep \<le> length p\<close> show False by (metis not_le nth_mem)
    qed
    then obtain p' where p': "p = rep @ p'" "sub_from r rep s e = p' @ w @ q"
      using out by (auto simp: append_eq_append_conv2)
    obtain j where j: "e \<le> j" "j < length s" "match_at r s j = None" "sub_from r rep s j = w @ q"
      "if p' = [] then j = e else e < j \<and> last p' = s ! (j - 1) \<or> last p' = last rep \<and> (\<exists>k < j. match_at r s k = Some j)"
      using less.hyps [of e p', OF diff_less_mono2 [OF e(1) i] e(2) p'(2)] by blast
    show ?thesis
    proof (cases "p' = []")
      case True
      with j p' e Some re show ?thesis by (intro exI [of _ j]) auto
    next
      case False
      with j p' e show ?thesis by (intro exI [of _ j]) auto
    qed
  qed
qed

lemma match_at_None_iff: "match_at r s i = None \<longleftrightarrow> set (ends r s i) = {}"
  by (auto simp: match_at_def split: list.splits)

lemma match_at_SomeD: "match_at r s i = Some e \<Longrightarrow> e \<in> set (ends r s i)"
  by (auto simp: match_at_def split: list.splits)

lemma find_from_Nil: "(\<forall>j \<le> length s. match_at r s j = None) \<Longrightarrow> find_from r s i = []"
proof (induction "Suc (length s) - i" arbitrary: i rule: less_induct)
  case less
  then show ?case by (subst find_from.simps) auto
qed

lemma sub_from_id:
  "(\<forall>j \<le> length s. match_at r s j = None) \<Longrightarrow> i \<le> length s \<Longrightarrow> sub_from r rep s i = drop i s"
proof (induction "length s - i" arbitrary: i rule: less_induct)
  case less
  then show ?case by (subst sub_from.simps) (auto simp: Cons_nth_drop_Suc)
qed

text \<open>
  Redaction: the words of the expression are not empty, do not begin with a character of the
  replacement and do not contain its first character.
\<close>

locale redaction =
  fixes body :: rx and rep :: ustr
  assumes plain_body: "plain body"
    and rep_nonempty: "rep \<noteq> []"
    and words_ok: "w \<in> lang body \<Longrightarrow> w \<noteq> [] \<and> hd w \<notin> set rep \<and> hd rep \<notin> set w"
begin

lemma proper: "proper_matches body s"
proof -
  have "i < e \<and> e \<le> length s" if "i \<le> length s" "match_at body s i = Some e" for i e
  proof -
    have "starts (lang body) s i e"
      using ends_lang [OF plain_body that(1)] match_at_SomeD [OF that(2)] by blast
    then show ?thesis
      using starts_bound [of "lang body" s i e] that(1) words_ok by (auto simp: starts_def)
  qed
  then show ?thesis by (simp add: proper_matches_def)
qed

text \<open>Every word of the output whose shape the replacement cannot fake was in the input.\<close>

lemma words_from_input:
  assumes "w \<noteq> []" "hd w \<notin> set rep" "hd rep \<notin> set w" "sub_all body rep s = p @ w @ q"
  shows "\<exists>j < length s. match_at body s j = None \<and> (\<exists>q'. drop j s = w @ q')"
proof -
  obtain j where "j < length s" "match_at body s j = None" "sub_from body rep s j = w @ q"
    using sub_from_origin [OF proper rep_nonempty assms(1,2)] assms(4) unfolding sub_all_def by blast
  then show ?thesis
    using sub_from_prefix [OF proper rep_nonempty] assms(3) by (metis less_imp_le)
qed

lemma none_left: "\<not> occurs (lang body) (sub_all body rep s)"
proof
  assume "occurs (lang body) (sub_all body rep s)"
  then obtain p w q where w: "w \<in> lang body" "sub_all body rep s = p @ w @ q" by (auto simp: occurs_def)
  then obtain j q' where j: "j < length s" "match_at body s j = None" "drop j s = w @ q'"
    using words_from_input words_ok by meson
  then have "j + length w \<in> set (ends body s j)"
    using w(1) ends_lang [OF plain_body, of j s] by (auto simp: starts_def)
  with j(2) show False by (simp add: match_at_None_iff)
qed

lemma keeps_absence:
  assumes "\<And>w. w \<in> A \<Longrightarrow> w \<noteq> [] \<and> hd w \<notin> set rep \<and> hd rep \<notin> set w" "\<not> occurs A s"
  shows "\<not> occurs A (sub_all body rep s)"
proof
  assume "occurs A (sub_all body rep s)"
  then obtain p w q where w: "w \<in> A" "sub_all body rep s = p @ w @ q" by (auto simp: occurs_def)
  then obtain j q' where "drop j s = w @ q'" using words_from_input assms(1) by meson
  then have "s = take j s @ w @ q'" by (metis append_take_drop_id)
  with w(1) assms(2) show False by (auto simp: occurs_def)
qed

end

text \<open>
  The same between word boundaries, for words that begin and end with a word character, when the
  replacement begins and ends with another character.
\<close>

definition word_bounded :: "rx \<Rightarrow> rx" where
  "word_bounded body = RSeq RBound (RSeq body RBound)"

locale bounded_redaction = redaction +
  assumes words_outer: "w \<in> lang body \<Longrightarrow> is_word (hd w) \<and> is_word (last w)"
    and rep_outer: "\<not> is_word (hd rep)" "\<not> is_word (last rep)"
begin

lemma ends_iff:
  assumes "i \<le> length s"
  shows "e \<in> set (ends (word_bounded body) s i) \<longleftrightarrow>
     starts (lang body) s i e \<and> \<not> (0 < i \<and> is_word (s ! (i - 1))) \<and> \<not> word_at s e"
proof -
  have "word_at s i \<and> (0 < e \<and> word_at s (e - 1))" if st: "starts (lang body) s i e"
  proof -
    obtain w q where w: "w \<in> lang body" "drop i s = w @ q" "e = i + length w" using st by (auto simp: starts_def)
    have ne: "w \<noteq> []" using words_ok [OF w(1)] by simp
    have n: "s ! (i + k) = w ! k \<and> i + k < length s" if "k < length w" for k
      using that arg_cong [OF w(2), of "\<lambda>t. t ! k"] arg_cong [OF w(2), of length] assms
      by (simp add: nth_append)
    have "e - 1 = i + (length w - 1)" using ne w(3) by (cases w) auto
    then have "s ! i = hd w" "i < length s" "s ! (e - 1) = last w" "e - 1 < length s"
      using n [of 0] n [of "length w - 1"] ne by (auto simp: hd_conv_nth last_conv_nth)
    then show ?thesis using words_outer [OF w(1)] ne w(3) by (simp add: word_at_def)
  qed
  moreover have "0 < i \<and> word_at s (i - 1) \<longleftrightarrow> 0 < i \<and> is_word (s ! (i - 1))"
    using assms by (auto simp: word_at_def)
  ultimately show ?thesis
    using ends_lang [OF plain_body assms] by (auto simp: word_bounded_def split: if_splits)
qed

lemma bounded_proper: "proper_matches (word_bounded body) s"
proof -
  have "i < e \<and> e \<le> length s" if "i \<le> length s" "match_at (word_bounded body) s i = Some e" for i e
    using ends_iff [OF that(1)] match_at_SomeD [OF that(2)] starts_bound [of "lang body" s i e] that(1) words_ok
    by (auto simp: starts_def)
  then show ?thesis by (simp add: proper_matches_def)
qed

text \<open>A free word of the output stood free in the input, at a place the scan had rejected.\<close>

lemma stands_from_input:
  assumes w: "w \<noteq> []" "hd w \<notin> set rep" "hd rep \<notin> set w" "is_word (hd w)" "is_word (last w)"
    and out: "sub_all (word_bounded body) rep s = p @ w @ q"
    and free: "p = [] \<or> \<not> is_word (last p)" "q = [] \<or> \<not> is_word (hd q)"
  obtains j q' where "j < length s" "match_at (word_bounded body) s j = None" "drop j s = w @ q'"
    "\<not> (0 < j \<and> is_word (s ! (j - 1)))" "q' = [] \<or> \<not> is_word (hd q')"
proof -
  let ?r = "word_bounded body"
  obtain j where j: "j < length s" "match_at ?r s j = None" "sub_from ?r rep s j = w @ q"
    "if p = [] then j = 0 else 0 < j \<and> last p = s ! (j - 1) \<or> last p = last rep \<and> (\<exists>k < j. match_at ?r s k = Some j)"
    using sub_from_origin [OF bounded_proper rep_nonempty w(1,2), of 0 s p q] out unfolding sub_all_def by blast
  obtain q' where q': "drop j s = w @ q'"
    "q = [] \<and> q' = [] \<or> q \<noteq> [] \<and> q' \<noteq> [] \<and> hd q = hd q' \<or>
     q \<noteq> [] \<and> hd q = hd rep \<and> j + length w < length s \<and> match_at ?r s (j + length w) \<noteq> None"
    using sub_from_prefix [OF bounded_proper rep_nonempty less_imp_le [OF j(1)] j(3) w(3)] by blast
  have sj: "s ! j = hd w" using arg_cong [OF q'(1), of hd] j(1) w(1) by (simp add: hd_drop_conv_nth)
  have "\<not> (0 < j \<and> is_word (s ! (j - 1)))"
  proof
    assume a: "0 < j \<and> is_word (s ! (j - 1))"
    with j(4) free(1) obtain k where "k < j" "match_at ?r s k = Some j" by (auto split: if_splits)
    then have "\<not> word_at s j"
      using ends_iff [of k s j] match_at_SomeD [of ?r s k j] j(1) by auto
    with j(1) sj w(4) show False by (simp add: word_at_def)
  qed
  moreover have "q' = [] \<or> \<not> is_word (hd q')"
  proof (rule ccontr)
    assume "\<not> (q' = [] \<or> \<not> is_word (hd q'))"
    with q'(2) free(2) have k: "j + length w < length s" "match_at ?r s (j + length w) \<noteq> None" by auto
    then obtain e where "e \<in> set (ends ?r s (j + length w))" using match_at_SomeD by blast
    with k(1) ends_iff [of "j + length w" s e] w(1) have "\<not> is_word (s ! (j + length w - 1))" by auto
    moreover have "s ! (j + (length w - 1)) = last w"
      using arg_cong [OF q'(1), of "\<lambda>t. t ! (length w - 1)"] w(1) j(1) k(1) by (simp add: nth_append last_conv_nth)
    ultimately show False using w(1,5) by (simp add: Suc_diff_le) (metis Nat.add_diff_assoc One_nat_def Suc_leI length_greater_0_conv)
  qed
  ultimately show ?thesis using that j(1,2) q'(1) by blast
qed

lemma none_stands: "\<not> stands (lang body) (sub_all (word_bounded body) rep s)"
proof
  assume "stands (lang body) (sub_all (word_bounded body) rep s)"
  then obtain p w q where o: "w \<in> lang body" "sub_all (word_bounded body) rep s = p @ w @ q"
    "p = [] \<or> \<not> is_word (last p)" "q = [] \<or> \<not> is_word (hd q)"
    by (auto simp: stands_def)
  note w = words_ok [OF o(1)] words_outer [OF o(1)]
  obtain j q' where j: "j < length s" "match_at (word_bounded body) s j = None" "drop j s = w @ q'"
    "\<not> (0 < j \<and> is_word (s ! (j - 1)))" "q' = [] \<or> \<not> is_word (hd q')"
    by (rule stands_from_input [OF _ _ _ _ _ o(2-4)]) (use w in auto)
  have "drop (j + length w) s = q'" by (rule drop_past [OF j(3)])
  then have "\<not> word_at s (j + length w)" using j(5) by (cases "j + length w < length s") (auto simp: word_at_def hd_drop_conv_nth)
  then have "j + length w \<in> set (ends (word_bounded body) s j)"
    using ends_iff [of j s] j o(1) by (auto simp: starts_def)
  with j(2) show False by (simp add: match_at_None_iff)
qed

lemma keeps_standing_absence:
  assumes "\<And>w. w \<in> A \<Longrightarrow> w \<noteq> [] \<and> hd w \<notin> set rep \<and> hd rep \<notin> set w \<and> is_word (hd w) \<and> is_word (last w)"
    and "\<not> stands A s"
  shows "\<not> stands A (sub_all (word_bounded body) rep s)"
proof
  assume "stands A (sub_all (word_bounded body) rep s)"
  then obtain p w q where o: "w \<in> A" "sub_all (word_bounded body) rep s = p @ w @ q"
    "p = [] \<or> \<not> is_word (last p)" "q = [] \<or> \<not> is_word (hd q)"
    by (auto simp: stands_def)
  obtain j q' where j: "j < length s" "drop j s = w @ q'"
    "\<not> (0 < j \<and> is_word (s ! (j - 1)))" "q' = [] \<or> \<not> is_word (hd q')"
    by (rule stands_from_input [OF _ _ _ _ _ o(2-4)]) (use assms(1) [OF o(1)] in auto)
  have "s = take j s @ w @ q'" using j(2) by (metis append_take_drop_id)
  moreover have "take j s = [] \<or> \<not> is_word (last (take j s))"
    using j(1,3) by (cases "j = 0") (auto simp: last_conv_nth min_def)
  ultimately show False using assms(2) j(4) o(1) unfolding stands_def by blast
qed

text \<open>No free word means no match.\<close>

lemma no_match:
  assumes "\<not> stands (lang body) s"
  shows "finditer (word_bounded body) s = []"
proof -
  have "match_at (word_bounded body) s j = None" if "j \<le> length s" for j
  proof (rule ccontr)
    assume "match_at (word_bounded body) s j \<noteq> None"
    then obtain e where e: "e \<in> set (ends (word_bounded body) s j)" using match_at_SomeD by blast
    note m = e [unfolded ends_iff [OF that]]
    then obtain w q where w: "w \<in> lang body" "drop j s = w @ q" "e = j + length w" by (auto simp: starts_def)
    have "s = take j s @ w @ q" using w(2) by (metis append_take_drop_id)
    moreover have "take j s = [] \<or> \<not> is_word (last (take j s))"
      using m that by (cases "j = 0") (auto simp: last_conv_nth min_absorb2)
    moreover have "q = [] \<or> \<not> is_word (hd q)"
      using m drop_past [OF w(2)] w(3) by (cases "e < length s") (auto simp: word_at_def hd_drop_conv_nth)
    ultimately show False using assms w(1) unfolding stands_def by blast
  qed
  then show ?thesis unfolding finditer_def by (simp add: find_from_Nil)
qed

end

end
