(* ===== verification/Recognizers.thy ===== *)
theory Recognizers
  imports Regex Checksum "HOL-Library.List_Lexorder"
begin

text \<open>
  \<^verbatim>\<open>app/core/recognizers\<close>: the Korean recognizers.  Each is its patterns with their base scores, its
  context words, and its \<^verbatim>\<open>validate_result\<close>; the deny-list recognizers are built from table rows.
  Running the patterns over a text, boosting by context and combining the results is Presidio's work,
  a parameter elsewhere; what is proved here is what the patterns find and what validation accepts.
\<close>

section \<open>Patterns\<close>

record pattern =
  pt_name :: string
  pt_regex :: rx
  pt_score :: rat

record recognizer =
  rz_class :: string
  rz_entity :: string
  rz_patterns :: "pattern list"
  rz_context :: "ustr list"

subsection \<open>Resident registration number\<close>

definition rrn_hyphen_body :: rx where
  "rrn_hyphen_body = seq [digits 6, hyphen, RCls (Range 49 52), digits 6]"

definition rrn_plain_body :: rx where
  "rrn_plain_body = seq [digits 6, RCls (Range 49 52), digits 6]"

definition KrRrnRecognizer :: recognizer where
  "KrRrnRecognizer = \<lparr>rz_class = ''KrRrnRecognizer'', rz_entity = ''KR_RRN'',
   rz_patterns =
    [\<lparr>pt_name = ''krrrn_hyphen'', pt_regex = between_digits rrn_hyphen_body, pt_score = 60 / 100\<rparr>,
     \<lparr>pt_name = ''krrrn_plain'', pt_regex = between_digits rrn_plain_body, pt_score = 50 / 100\<rparr>],
   rz_context =
     [[51452, 48124], [51452, 48124, 48264, 54840], [51452, 48124, 46321, 47197], u ''RRN'']\<rparr>"

text \<open>The calendar check of \<^verbatim>\<open>datetime.date\<close>.\<close>

definition leap_year :: "int \<Rightarrow> bool" where
  "leap_year y \<longleftrightarrow> y mod 4 = 0 \<and> (y mod 100 \<noteq> 0 \<or> y mod 400 = 0)"

definition days_in_month :: "int \<Rightarrow> int \<Rightarrow> int" where
  "days_in_month y m =
     (if m = 2 then (if leap_year y then 29 else 28) else if m \<in> {4, 6, 9, 11} then 30 else 31)"

definition valid_date :: "int \<Rightarrow> int \<Rightarrow> int \<Rightarrow> bool" where
  "valid_date y m d \<longleftrightarrow> 1 \<le> y \<and> y \<le> 9999 \<and> 1 \<le> m \<and> m \<le> 12 \<and> 1 \<le> d \<and> d \<le> days_in_month y m"

definition GENDER_TO_CENTURY :: "nat \<Rightarrow> int option" where
  "GENDER_TO_CENTURY c = (if c \<in> {49, 50} then Some 1900 else if c \<in> {51, 52} then Some 2000 else None)"

definition two_digits :: "ustr \<Rightarrow> nat \<Rightarrow> int" where
  "two_digits ds i = 10 * dval (ds ! i) + dval (ds ! Suc i)"

definition validate_rrn :: "ustr \<Rightarrow> bool" where
  "validate_rrn pattern_text =
     (let ds = filter is_decimal pattern_text in
      if length ds \<noteq> 13 then False
      else case GENDER_TO_CENTURY (ds ! 6) of
        None \<Rightarrow> False
      | Some century \<Rightarrow>
          if \<not> valid_date (century + two_digits ds 0) (two_digits ds 2) (two_digits ds 4) then False
          else case rrn_checksum (take 6 ds @ [ds ! 6] @ take 5 (drop 7 ds)) of
                 Inl e \<Rightarrow> False
               | Inr expected \<Rightarrow> dval (ds ! 12) = expected)"

subsection \<open>Business number\<close>

definition biz_hyphen_body :: rx where
  "biz_hyphen_body = seq [digits 3, hyphen, digits 2, hyphen, digits 5]"

definition KrBusinessNumRecognizer :: recognizer where
  "KrBusinessNumRecognizer = \<lparr>rz_class = ''KrBusinessNumRecognizer'', rz_entity = ''KR_BUSINESS_NUM'',
   rz_patterns =
    [\<lparr>pt_name = ''krbiz_hyphen'', pt_regex = between_digits biz_hyphen_body, pt_score = 50 / 100\<rparr>,
     \<lparr>pt_name = ''krbiz_plain'', pt_regex = between_digits (digits 10), pt_score = 30 / 100\<rparr>],
   rz_context =
     [[49324, 50629, 51088], [49324, 50629, 51088, 48264, 54840],
      [49324, 50629, 51088, 46321, 47197], [48277, 51064]]\<rparr>"

definition validate_business_num :: "ustr \<Rightarrow> bool" where
  "validate_business_num pattern_text =
     (let ds = filter is_decimal pattern_text in
      if length ds \<noteq> 10 then False
      else case business_num_checksum (take 9 ds) of
             Inl e \<Rightarrow> False
           | Inr expected \<Rightarrow> dval (ds ! 9) = expected)"

subsection \<open>Phone numbers\<close>

definition MOBILE :: rx where
  "MOBILE = seq [chars ''01'', RCls (Either (Lit 48) (Either (Lit 49) (Range 54 57)))]"

definition LANDLINE :: rx where
  "LANDLINE = alts [seq [chars ''050'', RCls Digit], chars ''070'', chars ''080'', chars ''02'',
     seq [chars ''03'', RCls (Range 49 51)], seq [chars ''04'', RCls (Range 49 52)],
     seq [chars ''05'', RCls (Range 49 53)], seq [chars ''06'', RCls (Range 49 52)]]"

definition phone_body :: "rx \<Rightarrow> cls \<Rightarrow> rx" where
  "phone_body prefix sep = seq [prefix, RCls sep, digits_between 3 4, RCls sep, digits 4]"

definition KrPhoneRecognizer :: recognizer where
  "KrPhoneRecognizer = \<lparr>rz_class = ''KrPhoneRecognizer'', rz_entity = ''KR_PHONE'',
   rz_patterns =
    [\<lparr>pt_name = ''krphone_hyphen'', pt_regex = between_digits (phone_body MOBILE (Lit 45)), pt_score = 85 / 100\<rparr>,
     \<lparr>pt_name = ''krphone_space'', pt_regex = between_digits (phone_body MOBILE Space), pt_score = 85 / 100\<rparr>,
     \<lparr>pt_name = ''krphone_plain'', pt_regex = between_digits (seq [MOBILE, digits_between 7 8]), pt_score = 70 / 100\<rparr>,
     \<lparr>pt_name = ''krphone_intl'', pt_regex = seq [chars ''+82'', optional (Either (Lit 45) Space), chars ''1'',
        RCls (Either (Lit 48) (Either (Lit 49) (Range 54 57))), optional (Either (Lit 45) Space), digits_between 3 4, optional (Either (Lit 45) Space), digits 4], pt_score = 85 / 100\<rparr>,
     \<lparr>pt_name = ''krphone_landline_hyphen'', pt_regex = between_digits (phone_body LANDLINE (Lit 45)), pt_score = 85 / 100\<rparr>,
     \<lparr>pt_name = ''krphone_landline_space'', pt_regex = between_digits (phone_body LANDLINE Space), pt_score = 80 / 100\<rparr>,
     \<lparr>pt_name = ''krphone_landline_plain'', pt_regex = between_digits (seq [LANDLINE, digits_between 7 8]), pt_score = 60 / 100\<rparr>,
     \<lparr>pt_name = ''krphone_bare_hyphen'', pt_regex = seq [RBehindNot (Either Digit (Lit 45)), digits_between 3 4, hyphen, digits 4,
        RAheadNot Digit], pt_score = 45 / 100\<rparr>],
   rz_context =
     [[51204, 54868], [51204, 54868, 48264, 54840], [50672, 46973], [50672, 46973, 52376],
      [55092, 45824, 54256], [54648, 46300, 54256], [45236, 49440], [49324, 47924, 49892],
      [54057, 49828], u ''phone'', u ''tel'', u ''mobile'', u ''fax'']\<rparr>"

subsection \<open>Bank account, driver license, passport\<close>

definition bank_3_2_4_3_body :: rx where
  "bank_3_2_4_3_body = seq [digits 3, hyphen, digits 2, hyphen, digits 4, hyphen, digits 3]"
definition bank_3_3_6_body :: rx where
  "bank_3_3_6_body = seq [digits 3, hyphen, digits 3, hyphen, digits 6]"
definition bank_3_4_4_2_body :: rx where
  "bank_3_4_4_2_body = seq [digits 3, hyphen, digits 4, hyphen, digits 4, hyphen, digits 2]"

definition KrBankAccountStrongRecognizer :: recognizer where
  "KrBankAccountStrongRecognizer = \<lparr>rz_class = ''KrBankAccountStrongRecognizer'', rz_entity = ''KR_BANK_ACCOUNT'',
   rz_patterns =
    [\<lparr>pt_name = ''krbank_3_2_4_3'', pt_regex = between_digits bank_3_2_4_3_body, pt_score = 85 / 100\<rparr>,
     \<lparr>pt_name = ''krbank_3_3_6'', pt_regex = between_digits bank_3_3_6_body, pt_score = 85 / 100\<rparr>,
     \<lparr>pt_name = ''krbank_3_4_4_2'', pt_regex = between_digits bank_3_4_4_2_body, pt_score = 85 / 100\<rparr>],
   rz_context =
     [[44228, 51340], [51077, 44552], [49569, 44552], [51008, 54665], [49888, 54620],
      [44397, 48124], [45453, 54801], [50864, 47532]]\<rparr>"

definition KrBankAccountWeakRecognizer :: recognizer where
  "KrBankAccountWeakRecognizer = \<lparr>rz_class = ''KrBankAccountWeakRecognizer'', rz_entity = ''KR_BANK_ACCOUNT_WEAK'',
   rz_patterns =
    [\<lparr>pt_name = ''krbank_bare_digits'', pt_regex = between_digits (digits_between 10 14), pt_score = 50 / 100\<rparr>],
   rz_context =
     [[44228, 51340], [51077, 44552], [49569, 44552], [51008, 54665]]\<rparr>"

definition driver_license_body :: rx where
  "driver_license_body = seq [digits 2, hyphen, digits 2, hyphen, digits 6, hyphen, digits 2]"

definition KrDriverLicenseRecognizer :: recognizer where
  "KrDriverLicenseRecognizer = \<lparr>rz_class = ''KrDriverLicenseRecognizer'', rz_entity = ''KR_DRIVERLICENSE'',
   rz_patterns =
    [\<lparr>pt_name = ''krdl_hyphen'', pt_regex = between_digits driver_license_body, pt_score = 80 / 100\<rparr>],
   rz_context =
     [[50868, 51204, 47732, 54728], [47732, 54728, 48264, 54840], [47732, 54728]]\<rparr>"

text \<open>
  \<^verbatim>\<open>[A-Za-z0-9]\<close> under IGNORECASE: the long s and the Kelvin sign fold to letters.  The prefix classes
  switch the flag off.
\<close>

definition alnum_ci :: cls where
  "alnum_ci = Either (Range 65 90) (Either (Range 97 122) (Either (Range 48 57) (Either (Lit 383) (Lit 8490))))"

definition passport_category :: cls where
  "passport_category = Either (Lit 77) (Either (Lit 83) (Either (Lit 82) (Either (Lit 79)
     (Either (Lit 84) (Either (Lit 80) (Either (Lit 68) (Lit 71)))))))"

definition KrPassportRecognizer :: recognizer where
  "KrPassportRecognizer = \<lparr>rz_class = ''KrPassportRecognizer'', rz_entity = ''KR_PASSPORT'',
   rz_patterns =
    [\<lparr>pt_name = ''krpass_letter_8'', pt_regex = seq [RBehindNot alnum_ci, RCls passport_category, digits 8, RAheadNot alnum_ci], pt_score = 80 / 100\<rparr>,
     \<lparr>pt_name = ''krpass_2letter_7'', pt_regex = seq [RBehindNot alnum_ci, RRep (RCls (Range 65 90)) 2 2, digits 7, RAheadNot alnum_ci], pt_score = 60 / 100\<rparr>],
   rz_context =
     [[50668, 44428], [50668, 44428, 48264, 54840], u ''passport'']\<rparr>"

section \<open>Deny list\<close>

record deny_row =
  dn_entity_type :: string
  dn_value :: ustr
  dn_score :: rat

text \<open>\<^verbatim>\<open>re.escape\<close>; it only decides the order of the alternatives.\<close>

definition re_special :: "nat list" where
  "re_special = map of_char ''()[]{}?*+-|^$.&~# '' @ [92, 9, 10, 13, 11, 12]"

definition re_escape :: "ustr \<Rightarrow> ustr" where
  "re_escape s = concat (map (\<lambda>c. if c \<in> set re_special then [92, c] else [c]) s)"

text \<open>\<open>variants c\<close> are the other characters that match \<open>c\<close> when case is ignored.\<close>

definition literal :: "(nat \<Rightarrow> nat list) \<Rightarrow> ustr \<Rightarrow> rx" where
  "literal variants v = seq (map (\<lambda>c. RCls (foldr (\<lambda>x k. Either (Lit x) k) (variants c) (Lit c))) v)"

definition NON_WORD_LEFT :: cls where "NON_WORD_LEFT = Either alnum_ci (Range 44032 55203)"
definition NON_WORD_RIGHT :: cls where "NON_WORD_RIGHT = alnum_ci"

definition deny_values :: "ustr list \<Rightarrow> ustr list" where
  "deny_values vs = sort_key re_escape (dedup {} (filter (\<lambda>v. v \<noteq> []) vs))"

definition build_alternation :: "(nat \<Rightarrow> nat list) \<Rightarrow> ustr list \<Rightarrow> rx option" where
  "build_alternation variants vs =
     (if deny_values vs = [] then None
      else Some (seq [RBehindNot NON_WORD_LEFT, alts (map (literal variants) (deny_values vs)), RAheadNot NON_WORD_RIGHT]))"

definition build_deny_list_recognizers :: "(nat \<Rightarrow> nat list) \<Rightarrow> deny_row list \<Rightarrow> recognizer list" where
  "build_deny_list_recognizers variants rows =
     List.map_filter (\<lambda>et.
        let group = filter (\<lambda>r. dn_entity_type r = et) rows in
        case build_alternation variants (map dn_value group) of
          None \<Rightarrow> None
        | Some rx \<Rightarrow> Some \<lparr>rz_class = ''PatternRecognizer'', rz_entity = et,
            rz_patterns = [\<lparr>pt_name = ''deny::'' @ et, pt_regex = rx, pt_score = Max (set (map dn_score group))\<rparr>],
            rz_context = []\<rparr>)
       (dedup {} (map dn_entity_type rows))"

section \<open>What the fixed-shape patterns find\<close>

lemma seq_simps: "seq [a, b] = RSeq a b" "seq (a # b # c # rs) = RSeq a (seq (b # c # rs))"
  by simp_all

definition rrn_hyphen_cells :: "cls list" where
  "rrn_hyphen_cells = replicate 6 Digit @ [Lit 45, Range 49 52] @ replicate 6 Digit"

definition rrn_plain_cells :: "cls list" where
  "rrn_plain_cells = replicate 6 Digit @ [Range 49 52] @ replicate 6 Digit"

lemmas body_defs = rrn_hyphen_body_def rrn_plain_body_def biz_hyphen_body_def driver_license_body_def
  bank_3_2_4_3_body_def bank_3_3_6_body_def bank_3_4_4_2_body_def digits_def hyphen_def

lemma upt_numeral: "[m..<numeral k] = (if m < numeral k then m # [Suc m..<numeral k] else [])"
  by (simp add: upt_rec)

interpretation rrn_hyphen: bounded_pattern rrn_hyphen_body rrn_hyphen_cells
  by unfold_locales (simp_all add: body_defs rrn_hyphen_cells_def overlap_free_def upt_numeral numeral_nat)

interpretation rrn_plain: bounded_pattern rrn_plain_body rrn_plain_cells
  by unfold_locales (simp_all add: body_defs rrn_plain_cells_def overlap_free_def upt_numeral numeral_nat)

interpretation biz_hyphen: bounded_pattern biz_hyphen_body
  "replicate 3 Digit @ [Lit 45] @ replicate 2 Digit @ [Lit 45] @ replicate 5 Digit"
  by unfold_locales (simp_all add: body_defs overlap_free_def upt_numeral numeral_nat)

interpretation bank_3_3_6: bounded_pattern bank_3_3_6_body
  "replicate 3 Digit @ [Lit 45] @ replicate 3 Digit @ [Lit 45] @ replicate 6 Digit"
  by unfold_locales (simp_all add: body_defs overlap_free_def upt_numeral numeral_nat)

interpretation bank_3_4_4_2: bounded_pattern bank_3_4_4_2_body
  "replicate 3 Digit @ [Lit 45] @ replicate 4 Digit @ [Lit 45] @ replicate 4 Digit @ [Lit 45] @ replicate 2 Digit"
  by unfold_locales (simp_all add: body_defs overlap_free_def upt_numeral numeral_nat)

section \<open>Resident numbers\<close>

lemma match_replicate_decimals: "decimals p \<Longrightarrow> length p = n \<Longrightarrow> match_cells (replicate n Digit) p"
  by (auto simp: match_cells_iff decimals_nth)

lemma match_cells_glue:
  "match_cells cs p \<Longrightarrow> length p = length cs \<Longrightarrow> match_cells ds q \<Longrightarrow> match_cells (cs @ ds) (p @ q)"
  by (auto simp: match_cells_append match_cells_iff nth_append)

lemma rrn_reported:
  assumes "decimals a" "length a = 6" "c \<in> {49..52}" "decimals b" "length b = 6" "sep \<in> {[], [45]}"
    and "pre = [] \<or> \<not> is_decimal (last pre)" "post = [] \<or> \<not> is_decimal (hd post)"
  shows "\<exists>p \<in> set (rz_patterns KrRrnRecognizer).
     (length pre, length pre + length (a @ sep @ c # b)) \<in>
       set (finditer (pt_regex p) (pre @ (a @ sep @ c # b) @ post))"
proof (cases "sep = []")
  case True
  have "match_cells rrn_plain_cells (a @ [c] @ b)"
    unfolding rrn_plain_cells_def using assms(1-5)
    by (intro match_cells_glue match_replicate_decimals) simp_all
  then have "(length pre, length pre + length rrn_plain_cells) \<in>
      set (finditer (between_digits rrn_plain_body) (pre @ (a @ [c] @ b) @ post))"
    using assms by (intro rrn_plain.finds_every_occurrence) (simp_all add: rrn_plain_cells_def)
  then show ?thesis
    using assms True by (simp add: KrRrnRecognizer_def rrn_plain_cells_def)
next
  case False
  then have sep: "sep = [45]" using assms(6) by simp
  have "match_cells rrn_hyphen_cells (a @ [45, c] @ b)"
    unfolding rrn_hyphen_cells_def using assms(1-5)
    by (intro match_cells_glue match_replicate_decimals) simp_all
  then have "(length pre, length pre + length rrn_hyphen_cells) \<in>
      set (finditer (between_digits rrn_hyphen_body) (pre @ (a @ [45, c] @ b) @ post))"
    using assms by (intro rrn_hyphen.finds_every_occurrence) (simp_all add: rrn_hyphen_cells_def)
  then show ?thesis
    using assms sep by (simp add: KrRrnRecognizer_def rrn_hyphen_cells_def)
qed

text \<open>
  No resident number goes unseen.  Wherever a text holds six digits, optionally a hyphen, a digit
  from one to four and six more digits, not touching further digits on either side, the recognizer's
  patterns report exactly that stretch, whatever surrounds it.
\<close>

theorem rrn_found:
  assumes "decimals a" "length a = 6" "c \<in> {49..52}" "decimals b" "length b = 6" "sep \<in> {[], [45]}"
    and "pre = [] \<or> \<not> is_decimal (last pre)" "post = [] \<or> \<not> is_decimal (hd post)"
  shows "\<exists>p \<in> set (rz_patterns KrRrnRecognizer).
     (length pre, length pre + length (a @ sep @ c # b)) \<in>
       set (finditer (pt_regex p) (pre @ (a @ sep @ c # b) @ post))"
  by (rule rrn_reported [OF assms])

theorem rrn_found_witness:
  "\<exists>p \<in> set (rz_patterns KrRrnRecognizer).
     (3, 17) \<in> set (finditer (pt_regex p) (u ''id '' @ (u ''900101'' @ [45] @ 49 # u ''234568'') @ u '' .''))"
proof -
  have d: "decimals (u ''900101'')" "decimals (u ''234568'')"
    "\<not> is_decimal (last (u ''id ''))" "\<not> is_decimal (hd (u '' .''))"
    by (simp_all add: u_def is_decimal_ascii)
  have l: "length (u ''id '') = 3" "length (u ''900101'' @ [45] @ 49 # u ''234568'') = 14" by simp_all
  have "\<exists>p \<in> set (rz_patterns KrRrnRecognizer).
      (length (u ''id ''), length (u ''id '') + length (u ''900101'' @ [45] @ 49 # u ''234568'')) \<in>
        set (finditer (pt_regex p) (u ''id '' @ (u ''900101'' @ [45] @ 49 # u ''234568'') @ u '' .''))"
    using d by (intro rrn_found) simp_all
  then show ?thesis unfolding l by simp
qed

lemma filter_decimals: "decimals ds \<Longrightarrow> filter is_decimal ds = ds"
  by (induction ds) simp_all

lemma decimals_filter: "decimals (filter is_decimal t)"
  by (induction t) simp_all

text \<open>
  Validation is calendar plus checksum.  A matched text of thirteen digits is accepted exactly
  when the digit after the birth date is one of one to four, the date it announces exists in its
  century (with leap years), and the checksum module calls the digits a valid resident number.
\<close>

theorem rrn_validate_iff:
  assumes "ds = filter is_decimal t" "length ds = 13"
  shows "validate_rrn t \<longleftrightarrow>
     (\<exists>century. GENDER_TO_CENTURY (ds ! 6) = Some century \<and>
        valid_date (century + two_digits ds 0) (two_digits ds 2) (two_digits ds 4)) \<and>
     rrn_is_valid ds = Inr True"
proof -
  have d: "decimals ds" unfolding assms(1) by (rule decimals_filter)
  have "take 6 ds @ [ds ! 6] @ take 5 (drop 7 ds) = take 12 ds"
  proof -
    have "take 12 ds = take 7 ds @ take 5 (drop 7 ds)" using take_add [of 7 5 ds] by simp
    moreover have "take 7 ds = take 6 ds @ [ds ! 6]" using take_Suc_conv_app_nth [of 6 ds] assms(2) by simp
    ultimately show ?thesis by simp
  qed
  moreover have "ds = take 12 ds @ [ds ! 12]" using take_Suc_conv_app_nth [of 12 ds] assms(2) by simp
  moreover have dt: "decimals (take 12 ds)" "is_decimal (ds ! 12)"
    using d assms(2) by (auto simp: decimals_nth decimals_def list_all_iff dest: in_set_takeD)
  moreover have "rrn_is_valid (take 12 ds @ [ds ! 12]) = Inr (rrn_checksum (take 12 ds) = Inr (dval (ds ! 12)))"
    using dt assms(2) by (intro rrn_is_valid_decimals) simp_all
  ultimately have r: "rrn_is_valid ds = Inr (rrn_checksum (take 6 ds @ [ds ! 6] @ take 5 (drop 7 ds)) = Inr (dval (ds ! 12)))"
    by simp
  show ?thesis
    unfolding validate_rrn_def assms(1) [symmetric] r using assms(2)
    by (auto simp: Let_def split: option.splits sum.splits)
qed

theorem rrn_validate_iff_witness:
  "\<not> validate_rrn (u ''900230-1234563'') \<and> length (filter is_decimal (u ''900230-1234563'')) = 13"
proof -
  let ?t = "u ''900230-1234563''"
  have f: "filter is_decimal ?t = u ''9002301234563''"
    by (simp add: u_def is_decimal_ascii)
  have dv: "dval c = int (c - 48)" if "48 \<le> c" "c \<le> 57" for c
    using that by (simp add: dval_def decimal_value_ascii)
  have "GENDER_TO_CENTURY (u ''9002301234563'' ! 6) = Some 1900"
    by (simp add: GENDER_TO_CENTURY_def u_def)
  moreover have "\<not> valid_date (1900 + two_digits (u ''9002301234563'') 0) (two_digits (u ''9002301234563'') 2)
      (two_digits (u ''9002301234563'') 4)"
    by (simp add: valid_date_def two_digits_def u_def dv days_in_month_def leap_year_def)
  ultimately show ?thesis
    using rrn_validate_iff [OF refl, of ?t] f by simp
qed

section \<open>Deny-list names\<close>

lemma ends_seq_classes:
  "v \<noteq> [] \<Longrightarrow> length v \<le> length (drop i s) \<Longrightarrow> \<forall>k < length v. in_cls (v ! k) (s ! (i + k)) \<Longrightarrow>
     i + length v \<in> set (ends (seq (map RCls v)) s i)"
proof (induction v arbitrary: i)
  case Nil
  then show ?case by simp
next
  case (Cons c v)
  have c: "i < length s" "in_cls c (s ! i)" using Cons.prems by (auto dest: spec [of _ 0])
  show ?case
  proof (cases v)
    case Nil
    with c show ?thesis by simp
  next
    case (Cons d w)
    have "\<forall>k < length v. in_cls (v ! k) (s ! (Suc i + k))"
      using Cons.prems(3) by (auto dest: spec [of _ "Suc _"])
    then have "Suc i + length v \<in> set (ends (seq (map RCls v)) s (Suc i))"
      using Cons.IH [of "Suc i"] Cons.prems(2) Cons by auto
    with c Cons show ?thesis by simp
  qed
qed

lemma in_variants: "in_cls (foldr (\<lambda>x k. Either (Lit x) k) vs (Lit c)) c"
  by (induction vs) auto

lemma literal_ends:
  assumes "v \<noteq> []" "take (length v) (drop i s) = v"
  shows "i + length v \<in> set (ends (literal variants v) s i)"
proof -
  let ?cs = "map (\<lambda>c. foldr (\<lambda>x k. Either (Lit x) k) (variants c) (Lit c)) v"
  have l: "length v \<le> length (drop i s)"
    using assms(2) by (metis length_take min.cobounded1 min_def)
  have "s ! (i + k) = v ! k" if "k < length v" for k
    using that assms(2) l by (metis length_drop nth_drop nth_take le_add2 le_trans less_imp_le_nat
        not_less linorder_not_le length_greater_0_conv drop_eq_Nil assms(1) take_Nil)
  then have "i + length ?cs \<in> set (ends (seq (map RCls ?cs)) s i)"
    using assms(1) l in_variants by (intro ends_seq_classes) auto
  then show ?thesis by (simp add: literal_def comp_def)
qed

lemma set_ends_alts: "rs \<noteq> [] \<Longrightarrow> set (ends (alts rs) s i) = (\<Union>r \<in> set rs. set (ends r s i))"
  by (induction rs rule: alts.induct) auto

text \<open>
  Deny-listed names are caught.  When a non-empty value of the table stands in a text without a
  letter, digit or Hangul syllable directly before it and without a letter or digit directly after
  it, the recognizer built for its entity type, whose score is at least that of the row, reports a
  match that starts there or one that covers that place.
\<close>

theorem deny_listed_found:
  assumes "row \<in> set rows" "dn_value row \<noteq> []"
    and "s = pre @ dn_value row @ post"
    and "pre = [] \<or> \<not> in_cls NON_WORD_LEFT (last pre)" "post = [] \<or> \<not> in_cls NON_WORD_RIGHT (hd post)"
  shows "\<exists>rz \<in> set (build_deny_list_recognizers variants rows). \<exists>p \<in> set (rz_patterns rz).
     rz_entity rz = dn_entity_type row \<and> dn_score row \<le> pt_score p \<and>
     (\<exists>(i, e) \<in> set (finditer (pt_regex p) s). i \<le> length pre \<and> (i = length pre \<or> length pre < e))"
proof -
  let ?et = "dn_entity_type row" and ?v = "dn_value row" and ?i = "length pre"
  let ?group = "filter (\<lambda>r. dn_entity_type r = ?et) rows"
  let ?vs = "deny_values (map dn_value ?group)"
  let ?rx = "seq [RBehindNot NON_WORD_LEFT, alts (map (literal variants) ?vs), RAheadNot NON_WORD_RIGHT]"
  have v: "?v \<in> set ?vs"
    using assms(1,2) by (auto simp: deny_values_def set_dedup)
  then have b: "build_alternation variants (map dn_value ?group) = Some ?rx"
    by (auto simp: build_alternation_def)
  let ?p = "\<lparr>pt_name = ''deny::'' @ ?et, pt_regex = ?rx, pt_score = Max (set (map dn_score ?group))\<rparr>"
  let ?rz = "\<lparr>rz_class = ''PatternRecognizer'', rz_entity = ?et, rz_patterns = [?p], rz_context = []\<rparr>"
  have rz: "?rz \<in> set (build_deny_list_recognizers variants rows)"
    using assms(1) b by (auto simp: build_deny_list_recognizers_def map_filter_def set_dedup Let_def image_iff
        intro!: bexI [of _ ?et])
  have score: "dn_score row \<le> Max (set (map dn_score ?group))"
    using assms(1) by (intro Max_ge) auto
  have e: "?i + length ?v \<in> set (ends (literal variants ?v) s ?i)"
    using assms(2,3) by (intro literal_ends) simp_all
  have left: "ends (RBehindNot NON_WORD_LEFT) s ?i = [?i]"
    using assms(3,4) by (auto simp: nth_append last_conv_nth)
  have right: "ends (RAheadNot NON_WORD_RIGHT) s (?i + length ?v) = [?i + length ?v]"
    using assms(3,5) by (auto simp: nth_append hd_conv_nth)
  have "?i + length ?v \<in> set (ends (alts (map (literal variants) ?vs)) s ?i)"
    using v e by (subst set_ends_alts) auto
  then have "?i + length ?v \<in> set (ends ?rx s ?i)"
    using left right unfolding seq.simps ends.simps(2) by auto
  then obtain e' where "match_at ?rx s ?i = Some e'"
    by (rule match_at_ends)
  from finditer_covers [OF this]
  have "\<exists>(i, e) \<in> set (finditer (pt_regex ?p) s). i \<le> ?i \<and> (i = ?i \<or> ?i < e)"
    using assms(3) by simp
  with rz score show ?thesis
    by (intro bexI [of _ ?rz] bexI [of _ ?p]) simp_all
qed

theorem deny_listed_found_witness:
  "\<exists>rz \<in> set (build_deny_list_recognizers (\<lambda>c. [])
       [\<lparr>dn_entity_type = ''INTERNAL_NAME'', dn_value = [54861, 44600, 46041], dn_score = 9 / 10\<rparr>]).
     \<exists>p \<in> set (rz_patterns rz). \<exists>(i, e) \<in> set (finditer (pt_regex p) [54861, 44600, 46041, 51060]). i = 0"
proof -
  let ?row = "\<lparr>dn_entity_type = ''INTERNAL_NAME'', dn_value = [54861, 44600, 46041], dn_score = 9 / 10\<rparr>"
  have "\<exists>rz \<in> set (build_deny_list_recognizers (\<lambda>c. []) [?row]). \<exists>p \<in> set (rz_patterns rz).
     rz_entity rz = dn_entity_type ?row \<and> dn_score ?row \<le> pt_score p \<and>
     (\<exists>(i, e) \<in> set (finditer (pt_regex p) [54861, 44600, 46041, 51060]). i \<le> length ([] :: ustr) \<and>
        (i = length ([] :: ustr) \<or> length ([] :: ustr) < e))"
    by (rule deny_listed_found [where post = "[51060]"])
      (simp_all add: NON_WORD_RIGHT_def alnum_ci_def)
  then show ?thesis by fastforce
qed

end
