(* ===== verification/Log_Filter.thy ===== *)
theory Log_Filter
  imports Regex
begin

text \<open>
  \<^verbatim>\<open>app/security/log_filter.py\<close>: the filter that redacts personal data in log records, with its
  six patterns, the recursive treatment of record arguments, and its installation on the handlers of
  the logging tree.  The theorems say which numbers cannot survive the filter and which do.
\<close>

section \<open>Patterns\<close>

definition RRN :: rx where
  "RRN = seq [digits 6, hyphen, digits 7]"

definition BIZ_NUM :: rx where
  "BIZ_NUM = seq [digits 3, hyphen, digits 2, hyphen, digits 5]"

definition PHONE_HYPHEN :: rx where
  "PHONE_HYPHEN = seq [RCls (Lit 48), digits_between 1 2, hyphen, digits_between 3 4, hyphen, digits 4]"

definition PHONE_PLAIN :: rx where
  "PHONE_PLAIN = seq [RCls (Lit 48), RCls (Lit 49), RCls (Either (Range 48 49) (Range 54 57)), digits_between 7 8]"

text \<open>\<^verbatim>\<open>[A-Za-z0-9._%+-]\<close>, \<^verbatim>\<open>[A-Za-z0-9.-]\<close> and \<^verbatim>\<open>[A-Za-z]\<close>.\<close>

definition alpha :: cls where "alpha = Either (Range 65 90) (Range 97 122)"
definition mail_domain :: cls where
  "mail_domain = Either alpha (Either (Range 48 57) (Either (Lit 46) (Lit 45)))"
definition mail_local :: cls where
  "mail_local = Either mail_domain (Either (Lit 95) (Either (Lit 37) (Lit 43)))"

definition EMAIL :: rx where
  "EMAIL = seq [RMany mail_local 1, RCls (Lit 64), RMany mail_domain 1, RCls (Lit 46), RMany alpha 2]"

definition CARD :: rx where
  "CARD = RSeq (RRep (RSeq (RCls Digit) (optional (Either (Lit 32) (Lit 45)))) 12 18) (RCls Digit)"

definition PATTERNS :: "(rx \<times> ustr) list" where
  "PATTERNS =
    [(word_bounded RRN, u ''[REDACTED-RRN]''),
     (word_bounded BIZ_NUM, u ''[REDACTED-BIZ]''),
     (word_bounded PHONE_HYPHEN, u ''[REDACTED-PHONE]''),
     (word_bounded PHONE_PLAIN, u ''[REDACTED-PHONE]''),
     (EMAIL, u ''[REDACTED-EMAIL]''),
     (word_bounded CARD, u ''[REDACTED-CARD]'')]"

lemmas log_pattern_defs =
  RRN_def BIZ_NUM_def PHONE_HYPHEN_def PHONE_PLAIN_def EMAIL_def CARD_def alpha_def mail_domain_def mail_local_def
  digits_def digits_between_def hyphen_def optional_def

section \<open>Scrubbing texts, values and records\<close>

definition scrub_text :: "ustr \<Rightarrow> ustr" where
  "scrub_text text = (if text = [] then text else fold (\<lambda>(pat, label) t. sub_all pat label t) PATTERNS text)"

text \<open>Python values as they occur in log records; other objects are opaque.\<close>

datatype pyval =
    PStr ustr
  | PTuple "pyval list"
  | PList "pyval list"
  | PDict "(pyval \<times> pyval) list"
  | PObj ustr

fun scrub_value :: "pyval \<Rightarrow> pyval" where
  "scrub_value (PStr s) = PStr (scrub_text s)"
| "scrub_value (PTuple vs) = PTuple (map scrub_value vs)"
| "scrub_value (PList vs) = PList (map scrub_value vs)"
| "scrub_value (PDict kvs) = PDict (map (\<lambda>(k, v). (k, scrub_value v)) kvs)"
| "scrub_value (PObj n) = PObj n"

fun truthy_value :: "pyval \<Rightarrow> bool" where
  "truthy_value (PStr s) = (s \<noteq> [])"
| "truthy_value (PTuple vs) = (vs \<noteq> [])"
| "truthy_value (PList vs) = (vs \<noteq> [])"
| "truthy_value (PDict kvs) = (kvs \<noteq> [])"
| "truthy_value (PObj n) = (n \<noteq> u ''None'')"

record log_record =
  lr_msg :: pyval
  lr_args :: pyval
  lr_exc_text :: "ustr option"
  lr_message :: "pyval option"

text \<open>Strings are scrubbed where they are strings; an object as the message is left alone.\<close>

definition scrub_if_str :: "pyval \<Rightarrow> pyval" where
  "scrub_if_str v = (case v of PStr s \<Rightarrow> PStr (scrub_text s) | _ \<Rightarrow> v)"

definition filter_record :: "log_record \<Rightarrow> log_record" where
  "filter_record r =
     r\<lparr>lr_msg := scrub_if_str (lr_msg r),
       lr_args := (if truthy_value (lr_args r) then scrub_value (lr_args r) else lr_args r),
       lr_exc_text := map_option scrub_text (lr_exc_text r),
       lr_message := map_option scrub_if_str (lr_message r)\<rparr>"

section \<open>Installation\<close>

text \<open>Filters are objects: the scrubbing ones carry their identity, others are told apart by a number.\<close>

datatype log_filter = Scrub nat | Other_filter nat

record logging_tree =
  lt_root_filters :: "log_filter list"
  lt_root_handlers :: "nat list"
  lt_logger_handlers :: "nat list list"
  lt_handler_filters :: "nat \<Rightarrow> log_filter list"
  lt_installed :: bool
  lt_next :: nat

fun is_scrub :: "log_filter \<Rightarrow> bool" where
  "is_scrub (Scrub n) = True"
| "is_scrub (Other_filter n) = False"

definition addFilter :: "log_filter \<Rightarrow> log_filter list \<Rightarrow> log_filter list" where
  "addFilter f fs = (if f \<in> set fs then fs else fs @ [f])"

definition add_to_handler :: "log_filter \<Rightarrow> nat \<Rightarrow> (nat \<Rightarrow> log_filter list) \<Rightarrow> (nat \<Rightarrow> log_filter list)" where
  "add_to_handler f h hf = hf(h := addFilter f (hf h))"

definition strip_handler :: "nat \<Rightarrow> (nat \<Rightarrow> log_filter list) \<Rightarrow> (nat \<Rightarrow> log_filter list)" where
  "strip_handler h hf = hf(h := filter (\<lambda>f. \<not> is_scrub f) (hf h))"

definition install_pii_log_filter :: "logging_tree \<Rightarrow> logging_tree" where
  "install_pii_log_filter t =
     (if lt_installed t then t
      else let flt = Scrub (lt_next t) in
        t\<lparr>lt_root_filters := addFilter flt (lt_root_filters t),
          lt_handler_filters :=
            fold (add_to_handler flt) (lt_root_handlers t @ concat (lt_logger_handlers t)) (lt_handler_filters t),
          lt_installed := True, lt_next := Suc (lt_next t)\<rparr>)"

definition uninstall_pii_log_filter :: "logging_tree \<Rightarrow> logging_tree" where
  "uninstall_pii_log_filter t =
     t\<lparr>lt_root_filters := filter (\<lambda>f. \<not> is_scrub f) (lt_root_filters t),
       lt_handler_filters :=
         fold strip_handler (lt_root_handlers t @ concat (lt_logger_handlers t)) (lt_handler_filters t),
       lt_installed := False\<rparr>"

lemma fold_add_to_handler:
  "fold (add_to_handler f) hs hf h = (if h \<in> set hs then addFilter f (hf h) else hf h)"
  by (induction hs arbitrary: hf) (auto simp: add_to_handler_def addFilter_def)

lemma fold_strip_handler:
  "fold strip_handler hs hf h = (if h \<in> set hs then filter (\<lambda>f. \<not> is_scrub f) (hf h) else hf h)"
  by (induction hs arbitrary: hf) (auto simp: strip_handler_def)

text \<open>
  Installing from a clean tree puts exactly one scrubbing filter on every handler, installing again
  changes nothing, and uninstalling restores the filters that were there.
\<close>

lemma install_once:
  assumes "\<not> lt_installed t" "\<forall>h. list_all (\<lambda>f. \<not> is_scrub f) (lt_handler_filters t h)"
    and "h \<in> set (lt_root_handlers t) \<union> \<Union> (set ` set (lt_logger_handlers t))"
  shows "filter is_scrub (lt_handler_filters (install_pii_log_filter t) h) = [Scrub (lt_next t)]"
    and "install_pii_log_filter (install_pii_log_filter t) = install_pii_log_filter t"
    and "lt_handler_filters (uninstall_pii_log_filter (install_pii_log_filter t)) = lt_handler_filters t"
proof -
  have c: "filter is_scrub (lt_handler_filters t k) = []" "filter (\<lambda>f. \<not> is_scrub f) (lt_handler_filters t k) = lt_handler_filters t k"
    for k using assms(2) by (auto simp: list_all_iff filter_empty_conv filter_id_conv)
  have n: "Scrub m \<notin> set (lt_handler_filters t k)" for k m
    using assms(2) is_scrub.simps(1) unfolding list_all_iff by blast
  show "filter is_scrub (lt_handler_filters (install_pii_log_filter t) h) = [Scrub (lt_next t)]"
    using assms(1,3) c n by (auto simp: install_pii_log_filter_def fold_add_to_handler addFilter_def Let_def)
  show "install_pii_log_filter (install_pii_log_filter t) = install_pii_log_filter t"
    by (simp add: install_pii_log_filter_def Let_def)
  show "lt_handler_filters (uninstall_pii_log_filter (install_pii_log_filter t)) = lt_handler_filters t"
    using assms(1) c n
    by (intro ext) (simp add: install_pii_log_filter_def uninstall_pii_log_filter_def fold_add_to_handler fold_strip_handler
        addFilter_def Let_def)
qed

section \<open>What survives\<close>

lemma bounded_redactionI:
  assumes "redactable r (u l)" "list_all cls_digit (first_cls r)" "list_all cls_digit (last_cls r)"
    "\<not> is_word (hd (u l))" "\<not> is_word (last (u l))"
  shows "bounded_redaction r (u l)"
proof unfold_locales
  show "plain r" "u l \<noteq> []" "\<not> is_word (hd (u l))" "\<not> is_word (last (u l))"
    using assms by (simp_all add: redactable_def)
  fix w assume w: "w \<in> lang r"
  show "w \<noteq> [] \<and> hd w \<notin> set (u l) \<and> hd (u l) \<notin> set w" by (rule redactable_words [OF assms(1) w])
  have "is_decimal x" if "some_cls cs x" "list_all cls_digit cs" for cs x
    using that cls_digit_sound by (auto simp: some_cls_def list_ex_iff list_all_iff)
  then show "is_word (hd w) \<and> is_word (last w)"
    using w assms lang_first [of r w] lang_last [of r w] redactable_words [OF assms(1) w]
    by (auto simp: redactable_def intro: is_decimal_word)
qed

lemmas static_checks = redactable_def some_cls_def u_def is_decimal_ascii is_word_ascii log_pattern_defs

interpretation rrn_log: bounded_redaction RRN "u ''[REDACTED-RRN]''"
  by (rule bounded_redactionI) (simp_all add: static_checks)

interpretation biz_log: bounded_redaction BIZ_NUM "u ''[REDACTED-BIZ]''"
  by (rule bounded_redactionI) (simp_all add: static_checks)

interpretation phone_log: bounded_redaction PHONE_HYPHEN "u ''[REDACTED-PHONE]''"
  by (rule bounded_redactionI) (simp_all add: static_checks)

interpretation mobile_log: bounded_redaction PHONE_PLAIN "u ''[REDACTED-PHONE]''"
  by (rule bounded_redactionI) (simp_all add: static_checks)

interpretation card_log: bounded_redaction CARD "u ''[REDACTED-CARD]''"
  by (rule bounded_redactionI) (simp_all add: static_checks)

lemma lang_digits: "w \<in> lang (digits n) \<longleftrightarrow> length w = n \<and> list_all is_decimal w"
proof -
  have "w \<in> cpow (lang (RCls Digit)) n \<longleftrightarrow> length w = n \<and> list_all is_decimal w"
  proof (induction n arbitrary: w)
    case (Suc n)
    then show ?case by (cases w) (auto simp: conc_single)
  qed auto
  then show ?thesis by (simp add: digits_def)
qed

lemma lang_hyphen: "w \<in> lang hyphen \<longleftrightarrow> w = [45]"
  by (simp add: hyphen_def)

lemma RRN_words:
  assumes "w \<in> lang RRN"
  obtains a b where "w = a @ 45 # b" "length a = 6" "list_all is_decimal a" "length b = 7" "list_all is_decimal b"
  using assms by (auto simp: RRN_def conc_def lang_digits lang_hyphen)

text \<open>A resident number is thirteen digits with one separator, so the card pattern covers it.\<close>

lemma RRN_is_CARD: "lang RRN \<subseteq> lang CARD"
proof
  fix w assume "w \<in> lang RRN"
  then obtain a b where w: "w = a @ 45 # b" "length a = 6" "list_all is_decimal a" "length b = 7" "list_all is_decimal b"
    by (rule RRN_words)
  let ?P = "lang (RSeq (RCls Digit) (optional (Either (Lit 32) (Lit 45))))"
  have o: "[] \<in> lang (optional (Either (Lit 32) (Lit 45)))" "[45] \<in> lang (optional (Either (Lit 32) (Lit 45)))"
    unfolding optional_def lang.simps by (rule UN_I [of 0], simp, simp, rule UN_I [of 1], simp, simp add: conc_def)
  have one: "[x] \<in> ?P" and two: "[x, 45] \<in> ?P" if "is_decimal x" for x
    using that o by (simp_all only: lang.simps in_cls.simps conc_single) blast+
  have many: "v \<in> cpow ?P (length v)" if "list_all is_decimal v" for v
    using that
  proof (induction v)
    case (Cons x v)
    then have "[x] \<in> ?P" "v \<in> cpow ?P (length v)" using one [of x] by simp_all
    then have "[x] @ v \<in> conc ?P (cpow ?P (length v))" unfolding conc_def by blast
    then show ?case by (simp only: cpow.simps list.size append.simps) simp
  qed simp
  obtain a' x b' y where s: "a = a' @ [x]" "b = b' @ [y]"
    using w(2,4) by (cases a rule: rev_cases; cases b rule: rev_cases) auto
  have "a' @ [x, 45] @ b' \<in> cpow ?P (5 + (Suc 0 + 6))"
    using many [of a'] many [of b'] two [of x] w s
    by (intro cpow_append) (auto simp: conc_def)
  moreover have "5 + (Suc 0 + 6) = (12 :: nat)" by simp
  ultimately have c: "a' @ [x, 45] @ b' \<in> (\<Union>k \<in> {12..18}. cpow ?P k)"
    by (intro UN_I [of "12 :: nat"]) (simp_all only:, simp)
  have "is_decimal y" using w(5) s(2) by simp
  then have "(a' @ [x, 45] @ b') @ [y] \<in> conc (lang (RRep (RSeq (RCls Digit) (optional (Either (Lit 32) (Lit 45)))) 12 18)) (lang (RCls Digit))"
    using c by (intro concI) simp_all
  then show "w \<in> lang CARD" using w(1) s by (simp add: CARD_def)
qed

lemma scrub_text_eq:
  "scrub_text s = (if s = [] then [] else sub_all (word_bounded CARD) (u ''[REDACTED-CARD]'')
     (sub_all EMAIL (u ''[REDACTED-EMAIL]'') (sub_all (word_bounded PHONE_PLAIN) (u ''[REDACTED-PHONE]'')
       (sub_all (word_bounded PHONE_HYPHEN) (u ''[REDACTED-PHONE]'') (sub_all (word_bounded BIZ_NUM) (u ''[REDACTED-BIZ]'')
         (sub_all (word_bounded RRN) (u ''[REDACTED-RRN]'') s))))))"
  by (simp add: scrub_text_def PATTERNS_def)

lemma stands_Nil: "(\<And>w. w \<in> A \<Longrightarrow> w \<noteq> []) \<Longrightarrow> \<not> stands A []"
  by (auto simp: stands_def)

lemma scrubbed_no_card: "\<not> stands (lang CARD) (scrub_text s)"
  using card_log.none_stands stands_Nil [of "lang CARD"] card_log.words_ok by (auto simp: scrub_text_eq)

lemma scrubbed_no_rrn: "\<not> stands (lang RRN) (scrub_text s)"
  using scrubbed_no_card RRN_is_CARD stands_mono by blast

lemma sub_all_absent: "(\<forall>j \<le> length s. match_at r s j = None) \<Longrightarrow> sub_all r rep s = s"
  by (simp add: sub_all_def sub_from_id)

lemma email_needs_at:
  assumes "64 \<notin> set s"
  shows "sub_all EMAIL rep s = s"
proof (rule sub_all_absent, intro allI impI, rule ccontr)
  fix j assume j: "j \<le> length s" "match_at EMAIL s j \<noteq> None"
  then obtain e where e: "e \<in> set (ends EMAIL s j)" using match_at_SomeD by blast
  have "plain EMAIL" by (simp add: log_pattern_defs)
  then obtain w q where w: "w \<in> lang EMAIL" "drop j s = w @ q"
    using e ends_lang [of EMAIL j s e] j(1) by (auto simp: starts_def)
  have "64 \<in> set w" using w(1) by (auto simp: EMAIL_def conc_def)
  then have "64 \<in> set (drop j s)" using w(2) by simp
  with assms show False by (meson in_set_dropD)
qed

lemma set_sub_from: "set (sub_from r rep s i) \<subseteq> set s \<union> set rep"
proof (induction r rep s i rule: sub_from.induct)
  case (1 r rep s i)
  then show ?case by (subst sub_from.simps) (auto split: option.split)
qed

text \<open>What one pattern has redacted, a later one does not bring back, as both marks are bracketed.\<close>

lemma later_keeps:
  assumes "bounded_redaction r (u l)" "bounded_redaction r' (u l)" "\<not> stands (lang r') s"
  shows "\<not> stands (lang r') (sub_all (word_bounded r) (u l) s)"
  using bounded_redaction.keeps_standing_absence [OF assms(1) _ assms(3)]
    redaction.words_ok [OF bounded_redaction.axioms(1) [OF assms(2)]] bounded_redaction.words_outer [OF assms(2)]
  by blast

lemma scrubbed_without_mail:
  assumes "64 \<notin> set s"
  shows "\<not> stands (lang BIZ_NUM) (scrub_text s)" "\<not> stands (lang PHONE_HYPHEN) (scrub_text s)"
    "\<not> stands (lang PHONE_PLAIN) (scrub_text s)"
proof -
  let ?b = "sub_all (word_bounded BIZ_NUM) (u ''[REDACTED-BIZ]'') (sub_all (word_bounded RRN) (u ''[REDACTED-RRN]'') s)"
  let ?h = "sub_all (word_bounded PHONE_HYPHEN) (u ''[REDACTED-PHONE]'') ?b"
  let ?p = "sub_all (word_bounded PHONE_PLAIN) (u ''[REDACTED-PHONE]'') ?h"
  have "set (sub_all r (u l) t) \<subseteq> set t \<union> set (u l)" for r l t
    unfolding sub_all_def by (rule set_sub_from)
  moreover have "64 \<notin> set (u l)" if "l \<in> {''[REDACTED-RRN]'', ''[REDACTED-BIZ]'', ''[REDACTED-PHONE]''}" for l
    using that by (auto simp: u_def)
  ultimately have "64 \<notin> set (sub_all r (u l) t)"
    if "64 \<notin> set t" "l \<in> {''[REDACTED-RRN]'', ''[REDACTED-BIZ]'', ''[REDACTED-PHONE]''}" for r l t
    using that by blast
  then have "64 \<notin> set ?p" using assms by simp
  from email_needs_at [OF this] have e: "scrub_text s = (if s = [] then [] else sub_all (word_bounded CARD) (u ''[REDACTED-CARD]'') ?p)"
    by (simp add: scrub_text_eq)
  have k: "bounded_redaction BIZ_NUM (u ''[REDACTED-PHONE]'')" "bounded_redaction BIZ_NUM (u ''[REDACTED-CARD]'')"
    "bounded_redaction PHONE_HYPHEN (u ''[REDACTED-CARD]'')" "bounded_redaction PHONE_PLAIN (u ''[REDACTED-CARD]'')"
    by (rule bounded_redactionI; simp add: static_checks)+
  note r = phone_log.bounded_redaction_axioms mobile_log.bounded_redaction_axioms card_log.bounded_redaction_axioms
  have "\<not> stands (lang BIZ_NUM) ?p"
    by (intro later_keeps r k biz_log.none_stands)
  then show "\<not> stands (lang BIZ_NUM) (scrub_text s)"
    using later_keeps [OF r(3) k(2)] stands_Nil biz_log.words_ok by (simp add: e)
  have "\<not> stands (lang PHONE_HYPHEN) ?p"
    by (intro later_keeps r phone_log.none_stands)
  then show "\<not> stands (lang PHONE_HYPHEN) (scrub_text s)"
    using later_keeps [OF r(3) k(3)] stands_Nil phone_log.words_ok by (simp add: e)
  show "\<not> stands (lang PHONE_PLAIN) (scrub_text s)"
    using later_keeps [OF r(3) k(4) mobile_log.none_stands] stands_Nil mobile_log.words_ok by (simp add: e)
qed

text \<open>The strings of a value; the keys of a dictionary are not touched by the filter and not counted.\<close>

fun strings_of :: "pyval \<Rightarrow> ustr list" where
  "strings_of (PStr s) = [s]"
| "strings_of (PTuple vs) = concat (map strings_of vs)"
| "strings_of (PList vs) = concat (map strings_of vs)"
| "strings_of (PDict kvs) = concat (map (\<lambda>(k, v). strings_of v) kvs)"
| "strings_of (PObj n) = []"

definition record_strings :: "log_record \<Rightarrow> ustr list" where
  "record_strings r =
     (case lr_msg r of PStr s \<Rightarrow> [s] | _ \<Rightarrow> []) @ strings_of (lr_args r) @
     (case lr_exc_text r of None \<Rightarrow> [] | Some t \<Rightarrow> [t]) @
     (case lr_message r of Some (PStr s) \<Rightarrow> [s] | _ \<Rightarrow> [])"

lemma strings_of_scrub: "strings_of (scrub_value v) = map scrub_text (strings_of v)"
proof (induction v rule: scrub_value.induct)
  case (4 kvs)
  then show ?case by (auto simp: map_concat comp_def intro!: arg_cong [where f = concat])
qed (simp_all add: map_concat comp_def cong: map_cong)

lemma strings_of_falsy: "\<not> truthy_value v \<Longrightarrow> strings_of v = [] \<or> v = PStr []"
  by (cases v) auto

lemma record_strings_filter: "record_strings (filter_record r) = map scrub_text (record_strings r)"
proof -
  have "strings_of v = map scrub_text (strings_of v)" if "\<not> truthy_value v" for v
    using strings_of_falsy [OF that] by (auto simp: scrub_text_def)
  then show ?thesis
    by (auto simp: record_strings_def filter_record_def scrub_if_str_def strings_of_scrub split: pyval.splits option.splits)
qed

text \<open>
  C23: what a log record cannot leak.  The filter maps the strings of a record (message, arguments
  with nested tuples, lists and dictionaries, exception text and cached message) one to one.  None of
  the results holds a resident number or a number of thirteen to nineteen digits that stands free
  between word boundaries; and the result of a string with no at-sign holds no business number and
  no phone number, hyphenated or plain, that does.  The condition is needed: an e-mail address is
  redacted after the phone numbers, and its mark is a word boundary.
\<close>

theorem log_record_scrubbed:
  "list_all2 (\<lambda>before after.
       finditer (word_bounded RRN) after = [] \<and> finditer (word_bounded CARD) after = [] \<and>
       (64 \<notin> set before \<longrightarrow> finditer (word_bounded BIZ_NUM) after = [] \<and>
          finditer (word_bounded PHONE_HYPHEN) after = [] \<and> finditer (word_bounded PHONE_PLAIN) after = []))
     (record_strings r) (record_strings (filter_record r))"
  unfolding record_strings_filter list.rel_map
  by (rule list.rel_refl)
    (simp add: rrn_log.no_match card_log.no_match biz_log.no_match phone_log.no_match mobile_log.no_match
      scrubbed_no_card scrubbed_no_rrn scrubbed_without_mail)

definition sample_log_record :: log_record where
  "sample_log_record =
     \<lparr>lr_msg = PStr (u ''tel 010-1234-5678''), lr_args = PTuple [PList [PStr (u ''220-81-62517'')]],
      lr_exc_text = None, lr_message = None\<rparr>"

theorem log_record_scrubbed_witness:
  "finditer (word_bounded PHONE_HYPHEN) (scrub_text (u ''tel 010-1234-5678'')) = [] \<and>
   finditer (word_bounded BIZ_NUM) (scrub_text (u ''220-81-62517'')) = []"
proof -
  have "record_strings (filter_record sample_log_record) =
      [scrub_text (u ''tel 010-1234-5678''), scrub_text (u ''220-81-62517'')]"
    "record_strings sample_log_record = [u ''tel 010-1234-5678'', u ''220-81-62517'']"
    by (simp_all add: record_strings_def filter_record_def sample_log_record_def scrub_if_str_def)
  with log_record_scrubbed [of sample_log_record] show ?thesis
    by (simp add: u_def)
qed

text \<open>The at-sign matters: a mobile number written straight after an address survives the filter.\<close>

lemma phone_after_mail_kept:
  "scrub_text (u ''a@b.kr01012345678'') = u ''[REDACTED-EMAIL]01012345678''"
  by code_simp

subsection \<open>Numbers glued to Hangul\<close>

context bounded_redaction
begin

text \<open>A text in which every boundary is too close to the end or before a character no word begins with.\<close>

lemma no_room:
  assumes "\<forall>j \<le> length s. 0 < j \<and> is_word (s ! (j - 1)) \<or> length s - j < min_len body \<or>
     (j < length s \<and> \<not> some_cls (first_cls body) (s ! j))"
  shows "sub_all (word_bounded body) rep s = s"
proof (rule sub_all_absent, intro allI impI, rule ccontr)
  fix j assume j: "j \<le> length s" "match_at (word_bounded body) s j \<noteq> None"
  then obtain e where "e \<in> set (ends (word_bounded body) s j)" using match_at_SomeD by blast
  then have e: "starts (lang body) s j e" "\<not> (0 < j \<and> is_word (s ! (j - 1)))"
    using ends_iff [OF j(1)] by blast+
  then obtain w q where w: "w \<in> lang body" "drop j s = w @ q" by (auto simp: starts_def)
  have "min_len body \<le> length s - j"
    using lang_length [OF w(1)] arg_cong [OF w(2), of length] by simp
  moreover have "w \<noteq> []" using words_ok [OF w(1)] by simp
  moreover have "some_cls (first_cls body) (s ! j)" if "j < length s"
    using lang_first [OF plain_body w(1) \<open>w \<noteq> []\<close>] arg_cong [OF w(2), of hd] that \<open>w \<noteq> []\<close>
    by (simp add: hd_drop_conv_nth)
  ultimately show False using assms j(1) e(2) by auto
qed

end

text \<open>
  A number glued to Korean text is not redacted.  Hangul syllables are word characters, so there
  is no word boundary between one and a digit: a resident number written directly after a syllable,
  as Korean text does, passes the whole filter unchanged.
\<close>

theorem hangul_glued_rrn_kept:
  assumes h: "44032 \<le> h" "h \<le> 55203"
    and d: "list_all is_decimal a" "length a = 6" "list_all is_decimal b" "length b = 7"
  shows "scrub_text (h # a @ 45 # b) = h # a @ 45 # b"
proof -
  let ?s = "h # a @ 45 # b"
  have nd: "\<not> is_decimal h" using h by (simp add: is_decimal_def decimal_value_def)
  have near: "0 < j \<and> is_word (?s ! (j - 1)) \<or> length ?s - j < 10 \<or> j < length ?s \<and> \<not> is_decimal (?s ! j)"
    if "j \<le> length ?s" for j
  proof (cases "j = 0 \<or> 8 \<le> j")
    case True
    with nd d show ?thesis by auto
  next
    case False
    then have "?s ! (j - 1) = h \<or> ?s ! (j - 1) \<in> set a"
      using d by (cases "j = 1") (auto simp: nth_Cons' nth_append)
    with False d(1) h show ?thesis by (auto simp: list_all_iff is_word_hangul intro: is_decimal_word)
  qed
  have room: "\<forall>j \<le> length ?s. 0 < j \<and> is_word (?s ! (j - 1)) \<or> length ?s - j < min_len r \<or>
     (j < length ?s \<and> \<not> some_cls (first_cls r) (?s ! j))"
    if "10 \<le> min_len r" "list_all cls_digit (first_cls r)" for r
  proof (intro allI impI)
    fix j assume "j \<le> length ?s"
    moreover have "is_decimal x" if "some_cls (first_cls r) x" for x
      using that \<open>list_all cls_digit (first_cls r)\<close> cls_digit_sound by (auto simp: some_cls_def list_ex_iff list_all_iff)
    ultimately show "0 < j \<and> is_word (?s ! (j - 1)) \<or> length ?s - j < min_len r \<or>
        (j < length ?s \<and> \<not> some_cls (first_cls r) (?s ! j))"
      using near [of j] \<open>10 \<le> min_len r\<close> by (meson less_le_trans)
  qed
  have at: "64 \<notin> set ?s"
    using h d(1,3) by (auto simp: list_all_iff is_decimal_ascii)
  have keep: "sub_all (word_bounded RRN) (u ''[REDACTED-RRN]'') ?s = ?s"
    "sub_all (word_bounded BIZ_NUM) (u ''[REDACTED-BIZ]'') ?s = ?s"
    "sub_all (word_bounded PHONE_HYPHEN) (u ''[REDACTED-PHONE]'') ?s = ?s"
    "sub_all (word_bounded PHONE_PLAIN) (u ''[REDACTED-PHONE]'') ?s = ?s"
    "sub_all (word_bounded CARD) (u ''[REDACTED-CARD]'') ?s = ?s"
    by (rule rrn_log.no_room biz_log.no_room phone_log.no_room mobile_log.no_room card_log.no_room, rule room;
        simp add: log_pattern_defs)+
  show ?thesis
    unfolding scrub_text_eq keep email_needs_at [OF at] by simp
qed

theorem hangul_glued_rrn_kept_witness:
  "scrub_text (54840 # u ''900101'' @ 45 # u ''1234568'') = 54840 # u ''900101'' @ 45 # u ''1234568''"
  by (rule hangul_glued_rrn_kept) (simp_all add: u_def is_decimal_ascii)

end
