(* ===== verification/Body_Size.thy ===== *)
theory Body_Size
  imports Hmac_Auth Responses
begin

text \<open>
  \<^verbatim>\<open>app/security/body_size.py\<close>: the middleware that caps the request body.  The ASGI channel is a
  stream of events; reading it is a loop that may not end, so it is a partial function in the option
  monad, where \<open>None\<close> means that the request is never answered.  The theorems give the exact
  condition for an answer, and that a body passed on is the whole body and within the cap.
\<close>

section \<open>Model\<close>

text \<open>What \<^verbatim>\<open>receive()\<close> delivers: a chunk with its \<^verbatim>\<open>more_body\<close> flag, or another event.\<close>

datatype asgi_event = Http_request bytes bool | Other_event string

type_synonym channel = "nat \<Rightarrow> asgi_event"

record inbound =
  ib_content_length :: "ustr option"
  ib_receive :: channel

definition DEFAULT_MAX_BODY_BYTES :: nat where
  "DEFAULT_MAX_BODY_BYTES = 1 * 1024 * 1024"

definition too_large_response :: "rat \<Rightarrow> exn + nat \<times> detect_response" where
  "too_large_response now =
     (case get_code ''REQ-4030'' of Inl e \<Rightarrow> Inl e | Inr rc \<Rightarrow>
      case build_response 0 ''REQ-4030'' [] 0 [] None None now of Inl e \<Rightarrow> Inl e
      | Inr resp \<Rightarrow> Inr (rc_http_status rc, resp))"

datatype stream_result = Too_large | Collected bytes

partial_function (option) read_stream :: "nat \<Rightarrow> channel \<Rightarrow> nat \<Rightarrow> bytes \<Rightarrow> stream_result option" where
  "read_stream max_bytes recv n body =
     (case recv n of
        Other_event t \<Rightarrow> read_stream max_bytes recv (Suc n) body
      | Http_request chunk more_body \<Rightarrow>
          if length (body @ chunk) > max_bytes then Some Too_large
          else if more_body then read_stream max_bytes recv (Suc n) (body @ chunk)
          else Some (Collected (body @ chunk)))"

text \<open>An answer of the middleware, or the untouched channel or collected body handed on.\<close>

datatype gate = Answered "exn + nat \<times> detect_response" | Forwarded "bytes option"

definition body_size_dispatch :: "nat \<Rightarrow> rat \<Rightarrow> inbound \<Rightarrow> gate option" where
  "body_size_dispatch max_bytes now req =
     (let stream = (case read_stream max_bytes (ib_receive req) 0 [] of
                      None \<Rightarrow> None
                    | Some Too_large \<Rightarrow> Some (Answered (too_large_response now))
                    | Some (Collected body) \<Rightarrow> Some (Forwarded (Some body)))
      in case ib_content_length req of
           None \<Rightarrow> stream
         | Some cl \<Rightarrow>
             (case py_int cl of
                None \<Rightarrow> stream
              | Some n \<Rightarrow> if n > int max_bytes then Some (Answered (too_large_response now))
                          else Some (Forwarded None)))"

section \<open>The reading loop\<close>

definition chunk_of :: "asgi_event \<Rightarrow> bytes" where
  "chunk_of e = (case e of Http_request chunk mb \<Rightarrow> chunk | Other_event t \<Rightarrow> [])"

definition is_last :: "asgi_event \<Rightarrow> bool" where
  "is_last e \<longleftrightarrow> (case e of Http_request chunk mb \<Rightarrow> \<not> mb | Other_event t \<Rightarrow> False)"

text \<open>The bytes of the first \<open>n\<close> events, and the events at which the loop stops.\<close>

definition received :: "channel \<Rightarrow> nat \<Rightarrow> bytes" where
  "received recv n = concat (map (chunk_of \<circ> recv) [0..<n])"

definition stops_at :: "nat \<Rightarrow> channel \<Rightarrow> nat \<Rightarrow> bool" where
  "stops_at max_bytes recv n \<longleftrightarrow> is_last (recv n) \<or> max_bytes < length (received recv (Suc n))"

lemma received_Suc: "received recv (Suc n) = received recv n @ chunk_of (recv n)"
  by (simp add: received_def)

lemma received_0 [simp]: "received recv 0 = []"
  by (simp add: received_def)

lemma received_mono: "m \<le> n \<Longrightarrow> length (received recv m) \<le> length (received recv n)"
  by (induction n) (auto simp: received_Suc le_Suc_eq)

lemma read_stream_result:
  assumes "stops_at max_bytes recv n" "\<forall>k. m \<le> k \<longrightarrow> k < n \<longrightarrow> \<not> stops_at max_bytes recv k" "m \<le> n"
    and "length (received recv m) \<le> max_bytes"
  shows "read_stream max_bytes recv m (received recv m) =
     Some (if max_bytes < length (received recv (Suc n)) then Too_large else Collected (received recv (Suc n)))"
  using assms(2-4)
proof (induction "n - m" arbitrary: m)
  case 0
  then show ?case
    using assms(1) by (subst read_stream.simps) (auto simp: stops_at_def is_last_def chunk_of_def received_Suc split: asgi_event.splits)
next
  case (Suc d)
  then have m: "m < n" by simp
  with Suc.prems(1) have g: "\<not> is_last (recv m)" "length (received recv (Suc m)) \<le> max_bytes"
    by (auto simp: stops_at_def)
  have "read_stream max_bytes recv m (received recv m) = read_stream max_bytes recv (Suc m) (received recv (Suc m))"
    using g by (subst read_stream.simps) (auto simp: is_last_def chunk_of_def received_Suc split: asgi_event.splits)
  also have "\<dots> = Some (if max_bytes < length (received recv (Suc n)) then Too_large else Collected (received recv (Suc n)))"
    using Suc.hyps(2) Suc.prems(1) m g(2) by (intro Suc.hyps(1)) auto
  finally show ?case .
qed

text \<open>A result means that some event stopped the loop.\<close>

lemma read_stream_stops:
  assumes "read_stream max_bytes recv m (received recv m) = Some r"
  shows "\<exists>n \<ge> m. stops_at max_bytes recv n"
proof -
  have "recv = recv \<longrightarrow> max_bytes = max_bytes \<longrightarrow> received recv m = received recv m \<longrightarrow> (\<exists>n \<ge> m. stops_at max_bytes recv n)"
  proof (rule read_stream.raw_induct [OF _ assms, where P = "\<lambda>mx rv k body y.
      rv = recv \<longrightarrow> mx = max_bytes \<longrightarrow> body = received recv k \<longrightarrow> (\<exists>n \<ge> k. stops_at max_bytes recv n)"])
    fix rec :: "nat \<Rightarrow> channel \<Rightarrow> nat \<Rightarrow> bytes \<Rightarrow> stream_result option" and mx rv k body y
    assume ih: "\<And>mx rv k body y. rec mx rv k body = Some y \<Longrightarrow>
        rv = recv \<longrightarrow> mx = max_bytes \<longrightarrow> body = received recv k \<longrightarrow> (\<exists>n \<ge> k. stops_at max_bytes recv n)"
      and step: "(case rv k of
        Other_event t \<Rightarrow> rec mx rv (Suc k) body
      | Http_request chunk more_body \<Rightarrow>
          if length (body @ chunk) > mx then Some Too_large
          else if more_body then rec mx rv (Suc k) (body @ chunk)
          else Some (Collected (body @ chunk))) = Some y"
    show "rv = recv \<longrightarrow> mx = max_bytes \<longrightarrow> body = received recv k \<longrightarrow> (\<exists>n \<ge> k. stops_at max_bytes recv n)"
    proof (intro impI)
      assume e: "rv = recv" "mx = max_bytes" "body = received recv k"
      show "\<exists>n \<ge> k. stops_at max_bytes recv n"
      proof (cases "stops_at max_bytes recv k")
        case False
        then have "rec max_bytes recv (Suc k) (received recv (Suc k)) = Some y"
          using step e by (auto simp: stops_at_def is_last_def chunk_of_def received_Suc split: asgi_event.splits if_splits)
        from ih [OF this] obtain n where "Suc k \<le> n" "stops_at max_bytes recv n" by blast
        then show ?thesis by (intro exI [of _ n]) simp
      qed blast
    qed
  qed
  then show ?thesis by simp
qed

lemma read_stream_iff:
  "read_stream max_bytes recv 0 [] =
     (if \<exists>n. stops_at max_bytes recv n
      then let b = received recv (Suc (LEAST n. stops_at max_bytes recv n))
           in Some (if max_bytes < length b then Too_large else Collected b)
      else None)"
proof (cases "\<exists>n. stops_at max_bytes recv n")
  case True
  define n where "n = (LEAST n. stops_at max_bytes recv n)"
  have "stops_at max_bytes recv n" unfolding n_def by (rule LeastI_ex [OF True])
  moreover have "\<forall>k. 0 \<le> k \<longrightarrow> k < n \<longrightarrow> \<not> stops_at max_bytes recv k"
    unfolding n_def using not_less_Least by blast
  ultimately have "read_stream max_bytes recv 0 (received recv 0) =
      Some (if max_bytes < length (received recv (Suc n)) then Too_large else Collected (received recv (Suc n)))"
    by (rule read_stream_result) simp_all
  with True show ?thesis unfolding n_def [symmetric] Let_def received_0 by (simp only: if_True)
next
  case False
  have "read_stream max_bytes recv 0 [] = None"
  proof (rule ccontr)
    assume "read_stream max_bytes recv 0 [] \<noteq> None"
    then obtain r where "read_stream max_bytes recv 0 (received recv 0) = Some r" unfolding received_0 by blast
    with False read_stream_stops show False by blast
  qed
  with False show ?thesis by (simp only: if_False)
qed

definition streamed :: "inbound \<Rightarrow> bool" where
  "streamed req \<longleftrightarrow> (case ib_content_length req of None \<Rightarrow> True | Some cl \<Rightarrow> py_int cl = None)"

lemma dispatch_streamed:
  "streamed req \<Longrightarrow> body_size_dispatch max_bytes now req =
     map_option (\<lambda>r. case r of Too_large \<Rightarrow> Answered (too_large_response now) | Collected b \<Rightarrow> Forwarded (Some b))
       (read_stream max_bytes (ib_receive req) 0 [])"
  by (auto simp: body_size_dispatch_def streamed_def Let_def split: option.splits stream_result.splits)

lemma too_large_413: "\<exists>resp. too_large_response now = Inr (413, resp) \<and> r_code resp = ''REQ-4030''"
proof -
  have "code_status ''REQ-4030'' = Some 413" by simp
  then obtain rc where rc: "get_code ''REQ-4030'' = Inr rc" "rc_http_status rc = 413"
    by (auto simp: code_status_def split: sum.splits)
  with build_response_known [OF rc(1), of 0 "[]" 0 "[]" None None now] show ?thesis
    by (auto simp: too_large_response_def)
qed

text \<open>
  C24: which requests are answered, and how.  A Content-Length that reads as an integer decides at
  once, whatever the client sends: above the cap the answer is REQ-4030 with status 413, otherwise the
  channel is handed on untouched.  Without one the middleware comes back exactly when the client
  finishes the body or sends more than the cap; a client that disconnects before either keeps the
  loop running for ever.
\<close>

theorem body_size_answers_iff:
  "case Option.bind (ib_content_length req) py_int of
     Some n \<Rightarrow>
       if int max_bytes < n
       then \<exists>resp. body_size_dispatch max_bytes now req = Some (Answered (Inr (413, resp))) \<and> r_code resp = ''REQ-4030''
       else body_size_dispatch max_bytes now req = Some (Forwarded None)
   | None \<Rightarrow>
       (\<exists>g. body_size_dispatch max_bytes now req = Some g) \<longleftrightarrow>
       (\<exists>n. is_last (ib_receive req n) \<or> max_bytes < length (received (ib_receive req) (Suc n)))"
proof (cases "Option.bind (ib_content_length req) py_int")
  case None
  then have "streamed req" by (auto simp: streamed_def split: option.split)
  from dispatch_streamed [OF this] None show ?thesis
    unfolding read_stream_iff stops_at_def by (auto simp: Let_def)
next
  case (Some n)
  then obtain cl where "ib_content_length req = Some cl" "py_int cl = Some n" by (auto simp: bind_eq_Some_conv)
  with Some too_large_413 [of now] show ?thesis by (auto simp: body_size_dispatch_def)
qed

definition stalled :: channel where
  "stalled n = (if n = 0 then Http_request [1, 2] True else Other_event ''http.disconnect'')"

theorem body_size_answers_iff_witness:
  "body_size_dispatch 10 0 \<lparr>ib_content_length = None, ib_receive = stalled\<rparr> = None \<and>
   body_size_dispatch 1000 0 \<lparr>ib_content_length = Some (u ''1000''), ib_receive = stalled\<rparr> = Some (Forwarded None)"
proof -
  have "received stalled (Suc n) = [1, 2]" for n
    by (induction n) (simp_all add: received_def chunk_of_def stalled_def)
  then have "\<not> (\<exists>n. is_last (stalled n) \<or> 10 < length (received stalled (Suc n)))"
    by (simp add: is_last_def stalled_def)
  with body_size_answers_iff [where req = "\<lparr>ib_content_length = None, ib_receive = stalled\<rparr>" and max_bytes = 10 and now = 0]
    body_size_answers_iff [where req = "\<lparr>ib_content_length = Some (u ''1000''), ib_receive = stalled\<rparr>" and max_bytes = 1000 and now = 0]
  show ?thesis by (simp add: py_int_1000)
qed

text \<open>
  The cap holds.  A body that the middleware collected itself is complete (every byte up to the
  final chunk, in order) and never longer than the cap, and the only other answer is REQ-4030 with
  status 413, given when the bytes received exceed the cap or the announced length does.
\<close>

theorem body_size_cap:
  assumes "body_size_dispatch max_bytes now req = Some g"
  shows "case g of
     Forwarded (Some b) \<Rightarrow> length b \<le> max_bytes \<and>
       (\<exists>n. is_last (ib_receive req n) \<and> b = received (ib_receive req) (Suc n))
   | Forwarded None \<Rightarrow> (\<exists>cl n. ib_content_length req = Some cl \<and> py_int cl = Some n \<and> n \<le> int max_bytes)
   | Answered a \<Rightarrow> (\<exists>resp. a = Inr (413, resp) \<and> r_code resp = ''REQ-4030'') \<and>
       ((\<exists>cl n. ib_content_length req = Some cl \<and> py_int cl = Some n \<and> int max_bytes < n) \<or>
        (\<exists>n. max_bytes < length (received (ib_receive req) (Suc n))))"
proof (cases "streamed req")
  case True
  let ?n = "LEAST n. stops_at max_bytes (ib_receive req) n"
  let ?b = "received (ib_receive req) (Suc ?n)"
  have st: "\<exists>n. stops_at max_bytes (ib_receive req) n"
    and g: "g = (if max_bytes < length ?b then Answered (too_large_response now) else Forwarded (Some ?b))"
    using assms unfolding dispatch_streamed [OF True] read_stream_iff by (auto simp: Let_def split: if_splits)
  have "stops_at max_bytes (ib_receive req) ?n" using st by (rule LeastI_ex)
  then show ?thesis using g too_large_413 [of now] by (auto simp: stops_at_def)
next
  case False
  then show ?thesis
    using assms too_large_413 [of now] by (auto simp: body_size_dispatch_def streamed_def Let_def split: option.splits if_splits)
qed

theorem body_size_cap_witness:
  "body_size_dispatch 10 0 \<lparr>ib_content_length = None, ib_receive = (\<lambda>n. Http_request [1, 2] False)\<rparr> =
     Some (Forwarded (Some [1, 2])) \<and> length [1, 2 :: 8 word] \<le> 10"
proof -
  let ?req = "\<lparr>ib_content_length = None, ib_receive = (\<lambda>n. Http_request [1, 2] False)\<rparr>"
  have "body_size_dispatch 10 0 ?req = Some (Forwarded (Some [1, 2]))"
    unfolding body_size_dispatch_def by (subst read_stream.simps) simp
  with body_size_cap [OF this] show ?thesis by simp
qed

end
