(* ===== verification/Settings.thy ===== *)
theory Settings
  imports Json
begin

text \<open>
  The runtime settings file (\<^verbatim>\<open>app/core/system_settings.py\<close>): a JSON object on disk that is merged over
  built-in defaults at every read and rewritten as a whole at every write.  The file is a value; a
  write returns the new file and says whether the call raised.  Shown here: a write followed by a
  read is an update of the merged dictionary, under every earlier content of the file, and what an
  unreadable file costs.
\<close>

section \<open>The file\<close>

text \<open>\<open>Undecodable\<close> is a file that is not UTF-8; \<open>Contents\<close> is the text \<^verbatim>\<open>read_text\<close> returns.\<close>

datatype settings_file = Missing | Undecodable | Contents ustr

text \<open>
  How many containers may nest before the scanner and before the printer raise \<^verbatim>\<open>RecursionError\<close>.
\<close>

record recursion_limits =
  load_depth :: nat
  dump_depth :: nat

type_synonym settings_dict = "(ustr \<times> json) list"

definition AUDIT_DETAIL :: ustr where "AUDIT_DETAIL = u ''audit_detail_enabled''"
definition ATTACHMENT_SCAN :: ustr where "ATTACHMENT_SCAN = u ''attachment_scan_enabled''"

definition DEFAULTS :: settings_dict where
  "DEFAULTS = [(AUDIT_DETAIL, JBool True), (ATTACHMENT_SCAN, JBool True)]"

text \<open>\<^verbatim>\<open>d.update(e)\<close>.\<close>

definition dict_update :: "('k \<times> 'v) list \<Rightarrow> ('k \<times> 'v) list \<Rightarrow> ('k \<times> 'v) list" where
  "dict_update d e = fold (\<lambda>(k, v) m. put k v m) e d"

definition get_settings_dict :: "recursion_limits \<Rightarrow> settings_file \<Rightarrow> settings_dict" where
  "get_settings_dict rl f =
     (case f of
        Missing \<Rightarrow> DEFAULTS
      | Undecodable \<Rightarrow> DEFAULTS
      | Contents s \<Rightarrow>
          (case loads (load_depth rl) s of
             Inr (JObj data) \<Rightarrow> dict_update DEFAULTS data
           | _ \<Rightarrow> DEFAULTS))"

definition get_setting :: "recursion_limits \<Rightarrow> settings_file \<Rightarrow> ustr \<Rightarrow> json option" where
  "get_setting rl f = map_of (get_settings_dict rl f)"

text \<open>\<^verbatim>\<open>bool(x)\<close> of a JSON value.\<close>

fun truthy_json :: "json \<Rightarrow> bool" where
  "truthy_json JNull = False"
| "truthy_json (JBool b) = b"
| "truthy_json (JInt i) = (i \<noteq> 0)"
| "truthy_json (JDec m k) = (m \<noteq> 0)"
| "truthy_json (JSpecial n) = True"
| "truthy_json (JStr s) = (s \<noteq> [])"
| "truthy_json (JArr vs) = (vs \<noteq> [])"
| "truthy_json (JObj kvs) = (kvs \<noteq> [])"

datatype write_error = Too_deep | Not_encodable

definition encodable :: "ustr \<Rightarrow> bool" where
  "encodable s = list_all (\<lambda>c. \<not> (55296 \<le> c \<and> c \<le> 57343)) s"

text \<open>
  The text is built before the file is opened, so a \<^verbatim>\<open>RecursionError\<close> leaves the file as it was;
  opening truncates it before the text is encoded, so a lone surrogate leaves it empty.
\<close>

definition set_value :: "recursion_limits \<Rightarrow> ustr \<Rightarrow> json \<Rightarrow> settings_file \<Rightarrow> (write_error + unit) \<times> settings_file" where
  "set_value rl key val f =
     (let cur = put key val (get_settings_dict rl f) in
      if dump_depth rl < json_depth (JObj cur) then (Inl Too_deep, f)
      else let s = dumps (Some 2) 0 (JObj cur) in
        if encodable s then (Inr (), Contents s) else (Inl Not_encodable, Contents []))"

section \<open>Which values can be written\<close>

fun json_encodable :: "json \<Rightarrow> bool" where
  "json_encodable (JStr s) = encodable s"
| "json_encodable (JSpecial n) = encodable (u n)"
| "json_encodable (JArr vs) = list_all json_encodable vs"
| "json_encodable (JObj kvs) = list_all (\<lambda>(k, v). encodable k \<and> json_encodable v) kvs"
| "json_encodable _ = True"

lemma encodable_append [simp]: "encodable (s @ t) \<longleftrightarrow> encodable s \<and> encodable t"
  by (simp add: encodable_def)

lemma encodable_Nil [simp]: "encodable []"
  by (simp add: encodable_def)

lemma encodable_Cons [simp]: "encodable (c # s) \<longleftrightarrow> \<not> (55296 \<le> c \<and> c \<le> 57343) \<and> encodable s"
  by (simp add: encodable_def)

lemma encodable_digits: "list_all is09 s \<Longrightarrow> encodable s"
  by (induction s) (auto simp: is09_def)

lemma encodable_show_nat [simp]: "encodable (show_nat n)"
  by (rule encodable_digits [OF show_nat_digits])

lemma encodable_replicate [simp]: "\<not> (55296 \<le> c \<and> c \<le> 57343) \<Longrightarrow> encodable (replicate n c)"
  by (induction n) auto

lemma encodable_newline [simp]: "encodable (newline i l)" "encodable (item_sep i l)"
  by (auto simp: newline_def item_sep_def split: option.splits)

lemma encodable_show_dec [simp]: "encodable (show_dec m k)" "encodable (str_int n)"
  by (auto simp: show_dec_def str_int_def pad_left_def)

lemma encodable_json_str [simp]: "encodable (json_str s) \<longleftrightarrow> encodable s"
proof -
  have h: "hex_char (c div 16) < 55296" "hex_char (c mod 16) < 55296" if "c < 32" for c
    using that mod_less_divisor [of 16 c] by (auto simp: hex_char_def)
  have "encodable (json_char c) \<longleftrightarrow> encodable [c]" for c
    using h [of c] by (auto simp: json_char_def)
  then have "encodable (concat (map json_char s)) \<longleftrightarrow> encodable s"
    by (induction s) auto
  then show ?thesis by (simp add: json_str_def)
qed

lemma encodable_join: "encodable sep \<Longrightarrow> list_all encodable ss \<Longrightarrow> encodable (join sep ss)"
  by (induction sep ss rule: join.induct) auto

lemma encodable_wrap: "list_all encodable ss \<Longrightarrow> \<not> (55296 \<le> a \<and> a \<le> 57343) \<Longrightarrow> \<not> (55296 \<le> b \<and> b \<le> 57343) \<Longrightarrow>
   encodable (wrap i l a b ss)"
  by (simp add: wrap_def encodable_join)

lemma encodable_dumps: "json_encodable v \<Longrightarrow> encodable (dumps i l v)"
proof (induction i l v rule: dumps.induct)
  case (7 i l vs)
  then show ?case by (auto intro!: encodable_wrap simp: list_all_iff)
next
  case (8 i l kvs)
  then show ?case by (fastforce intro!: encodable_wrap simp: list_all_iff)
qed (simp_all add: u_def)

lemma set_value_succeeds:
  assumes "json_depth (JObj (put k v (get_settings_dict rl f))) \<le> dump_depth rl"
    and "json_encodable (JObj (put k v (get_settings_dict rl f)))"
  shows "fst (set_value rl k v f) = Inr ()"
  using assms(1) encodable_dumps [OF assms(2), of "Some 2" 0] by (simp add: set_value_def Let_def)

section \<open>Dictionaries\<close>

lemma put_absent: "k \<notin> fst ` set m \<Longrightarrow> put k v m = m @ [(k, v)]"
  by (induction m) auto

lemma put_append: "k \<notin> fst ` set p \<Longrightarrow> put k v (p @ m) = p @ put k v m"
  by (induction p) auto

lemma dict_update_Nil [simp]: "dict_update d [] = d"
  by (simp add: dict_update_def)

lemma dict_update_Cons [simp]: "dict_update d ((k, v) # e) = dict_update (put k v d) e"
  by (simp add: dict_update_def)

lemma dict_update_append: "dict_update d (e @ e') = dict_update (dict_update d e) e'"
  by (simp add: dict_update_def)

lemma dict_update_same_keys:
  "map fst e = map fst d \<Longrightarrow> distinct (map fst (p @ d)) \<Longrightarrow> dict_update (p @ d) e = p @ e"
proof (induction e arbitrary: p d)
  case (Cons x e)
  obtain k v w d' where x: "x = (k, v)" "d = (k, w) # d'" "map fst e = map fst d'"
    using Cons.prems(1) by (cases x; cases d) auto
  have "k \<notin> fst ` set p" using Cons.prems(2) x by auto
  then have "dict_update (p @ d) (x # e) = dict_update ((p @ [(k, v)]) @ d') e"
    using x by (simp add: put_append)
  also have "\<dots> = (p @ [(k, v)]) @ e"
    using Cons.prems(2) x by (intro Cons.IH) auto
  finally show ?case using x by simp
qed simp

lemma dict_update_fresh:
  "distinct (map fst (d @ e)) \<Longrightarrow> dict_update d e = d @ e"
proof (induction e arbitrary: d)
  case (Cons x e)
  obtain k v where x: "x = (k, v)" by (cases x)
  have "put k v d = d @ [x]" using Cons.prems x by (intro put_absent [THEN trans]) auto
  then show ?case using Cons.IH [of "d @ [x]"] Cons.prems x by simp
qed simp

lemma dict_update_self:
  assumes "map fst (take (length d) m) = map fst d" "distinct (map fst m)"
  shows "dict_update d m = m"
proof -
  let ?n = "length d"
  have s: "m = take ?n m @ drop ?n m" by simp
  have dd: "distinct (map fst d)"
    using assms by (metis distinct_take take_map)
  have "dict_update d (take ?n m) = take ?n m"
    using dict_update_same_keys [of "take ?n m" d "[]"] assms(1) dd by simp
  moreover have "dict_update (take ?n m) (drop ?n m) = m"
    using dict_update_fresh [of "take ?n m" "drop ?n m"] assms(2) by simp
  ultimately show ?thesis by (subst s) (simp only: dict_update_append)
qed

lemma put_keys_take: "n \<le> length m \<Longrightarrow> map fst (take n (put k v m)) = map fst (take n m)"
proof (induction m arbitrary: n)
  case (Cons x m)
  then show ?case by (cases n; cases x) auto
qed simp

lemma length_put: "length m \<le> length (put k v m)"
  by (induction m) auto

lemma update_keys_take: "n \<le> length m \<Longrightarrow> map fst (take n (dict_update m e)) = map fst (take n m)"
proof (induction e arbitrary: m)
  case (Cons x e)
  obtain k v where x: "x = (k, v)" by (cases x)
  have "n \<le> length (put k v m)" using Cons.prems length_put [of m k v] by linarith
  then show ?case using Cons.IH Cons.prems x by (simp add: put_keys_take)
qed simp

lemma update_distinct: "distinct (map fst m) \<Longrightarrow> distinct (map fst (dict_update m e))"
  by (induction e arbitrary: m) (auto simp: put_distinct)

lemma update_all:
  "list_all (\<lambda>(k, v). P v) m \<Longrightarrow> list_all (\<lambda>(k, v). P v) e \<Longrightarrow> list_all (\<lambda>(k, v). P v) (dict_update m e)"
  by (induction e arbitrary: m) (auto simp: put_all)

section \<open>The merged dictionary is well formed\<close>

definition settings_shape :: "settings_dict \<Rightarrow> bool" where
  "settings_shape m \<longleftrightarrow> map fst (take 2 m) = map fst DEFAULTS \<and> json_wf (JObj m)"

lemma DEFAULTS_shape: "settings_shape DEFAULTS"
  by (simp add: settings_shape_def DEFAULTS_def AUDIT_DETAIL_def ATTACHMENT_SCAN_def)

lemma settings_shape_put: "settings_shape m \<Longrightarrow> json_wf v \<Longrightarrow> settings_shape (put k v m)"
proof -
  assume a: "settings_shape m" "json_wf v"
  then have "2 \<le> length m" by (cases m; cases "tl m") (auto simp: settings_shape_def DEFAULTS_def)
  then show ?thesis
    using a by (simp add: settings_shape_def put_distinct put_all put_keys_take)
qed

lemma settings_shape_get: "settings_shape (get_settings_dict rl f)"
proof (cases "\<exists>s data. f = Contents s \<and> loads (load_depth rl) s = Inr (JObj data)")
  case True
  then obtain s data where s: "f = Contents s" "loads (load_depth rl) s = Inr (JObj data)" by blast
  have "json_wf (JObj data)" using loads_wf [OF s(2)] by blast
  moreover have "map fst (take 2 (dict_update DEFAULTS data)) = map fst DEFAULTS"
    using update_keys_take [of 2 DEFAULTS data] by (simp add: DEFAULTS_def)
  ultimately show ?thesis
    using s DEFAULTS_shape by (simp add: settings_shape_def get_settings_dict_def update_distinct update_all)
next
  case False
  then have "get_settings_dict rl f = DEFAULTS"
    by (auto simp: get_settings_dict_def split: settings_file.splits sum.splits json.splits)
  then show ?thesis by (simp add: DEFAULTS_shape)
qed

lemma merge_shape: "settings_shape m \<Longrightarrow> dict_update DEFAULTS m = m"
  by (intro dict_update_self) (simp_all add: settings_shape_def DEFAULTS_def numeral_2_eq_2)

lemma loads_empty: "loads d [] = Inl JSONDecodeError"
  by (cases d) (simp_all add: loads_def skip_ws_def starts_with_iff parse_scalar_def parse_number_def u_def Let_def)

section \<open>Writing refines a map update\<close>

lemma set_value_dict:
  assumes "set_value rl k v f = (Inr (), f')" "json_wf v" "dump_depth rl \<le> load_depth rl"
  shows "get_settings_dict rl f' = put k v (get_settings_dict rl f)"
proof -
  let ?cur = "put k v (get_settings_dict rl f)"
  have f': "f' = Contents (dumps (Some 2) 0 (JObj ?cur))" and d: "json_depth (JObj ?cur) \<le> dump_depth rl"
    using assms(1) by (auto simp: set_value_def Let_def split: if_splits)
  have sh: "settings_shape ?cur" using settings_shape_get assms(2) by (rule settings_shape_put)
  then have "loads (load_depth rl) (dumps (Some 2) 0 (JObj ?cur)) = Inr (JObj ?cur)"
    using d assms(3) by (intro loads_dumps) (auto simp: settings_shape_def)
  then have "get_settings_dict rl f' = dict_update DEFAULTS ?cur"
    unfolding f' get_settings_dict_def [of rl "Contents (dumps (Some 2) 0 (JObj ?cur))"] settings_file.case by simp
  then show ?thesis by (simp only: merge_shape [OF sh])
qed

text \<open>
  C26: the settings file behaves as a map.  Whatever the file held before, after a successful
  \<open>set_value\<close> every key reads as it did before except the written one, which reads as the written
  value; a failed \<open>set_value\<close> that cannot print the value changes nothing.
\<close>

theorem set_value_refines_update:
  assumes "json_wf v" "dump_depth rl \<le> load_depth rl"
  shows "case set_value rl k v f of
           (Inr _, f') \<Rightarrow> get_setting rl f' = (get_setting rl f)(k \<mapsto> v)
         | (Inl Too_deep, f') \<Rightarrow> f' = f
         | (Inl Not_encodable, f') \<Rightarrow> get_setting rl f' = map_of DEFAULTS"
proof -
  have "get_setting rl f' = (get_setting rl f)(k \<mapsto> v)" if "set_value rl k v f = (Inr (), f')" for f'
    unfolding get_setting_def set_value_dict [OF that assms] by (simp add: map_of_put)
  moreover have "get_setting rl (Contents []) = map_of DEFAULTS"
    by (simp add: get_setting_def get_settings_dict_def loads_empty)
  ultimately show ?thesis
    by (auto simp: set_value_def Let_def split: prod.splits sum.splits write_error.splits if_splits)
qed

theorem set_value_refines_update_witness:
  "get_setting \<lparr>load_depth = 900, dump_depth = 300\<rparr>
     (snd (set_value \<lparr>load_depth = 900, dump_depth = 300\<rparr> ATTACHMENT_SCAN (JBool False) Undecodable)) =
   (map_of DEFAULTS)(ATTACHMENT_SCAN \<mapsto> JBool False)"
proof -
  let ?rl = "\<lparr>load_depth = 900, dump_depth = 300\<rparr>"
  have g: "get_settings_dict ?rl Undecodable = DEFAULTS" by (simp add: get_settings_dict_def)
  have "fst (set_value ?rl ATTACHMENT_SCAN (JBool False) Undecodable) = Inr ()"
    by (rule set_value_succeeds) (simp_all add: g DEFAULTS_def AUDIT_DETAIL_def ATTACHMENT_SCAN_def u_def)
  then show ?thesis
    using set_value_refines_update [where v = "JBool False" and rl = ?rl and k = ATTACHMENT_SCAN and f = Undecodable]
    by (cases "set_value ?rl ATTACHMENT_SCAN (JBool False) Undecodable") (auto simp: get_setting_def g)
qed

end
