(* ===== verification/Overrides.thy ===== *)
theory Overrides
  imports Settings Recognizers
begin

text \<open>
  Operator edits of the recognizers (\<^verbatim>\<open>app/core/recognizer_overrides.py\<close>): patterns and context words
  that replace the ones in the code, kept under one key of the settings file.  The regular
  expression compiler and the constructor of Presidio's \<^verbatim>\<open>Pattern\<close> are parameters; the text that
  \<^verbatim>\<open>str\<close> gives for a container is a parameter too.  The main result is that what is stored is what a
  recognizer built later uses, through the JSON text of the file.
\<close>

section \<open>Values\<close>

text \<open>\<^verbatim>\<open>d.get(k)\<close>.\<close>

definition dict_get :: "settings_dict \<Rightarrow> string \<Rightarrow> json option" where
  "dict_get d k = map_of d (u k)"

definition get_truthy :: "settings_dict \<Rightarrow> string \<Rightarrow> bool" where
  "get_truthy d k = (case dict_get d k of None \<Rightarrow> False | Some v \<Rightarrow> truthy_json v)"

text \<open>\<^verbatim>\<open>str(v)\<close>; \<open>rep\<close> prints containers.\<close>

fun py_str :: "(json \<Rightarrow> ustr) \<Rightarrow> json \<Rightarrow> ustr" where
  "py_str rep (JStr s) = s"
| "py_str rep JNull = u ''None''"
| "py_str rep (JBool b) = u (if b then ''True'' else ''False'')"
| "py_str rep (JInt i) = str_int i"
| "py_str rep (JDec m k) = show_dec m k"
| "py_str rep (JSpecial n) = u (if n = ''NaN'' then ''nan'' else if n = ''Infinity'' then ''inf'' else ''-inf'')"
| "py_str rep v = rep v"

subsection \<open>Floating point numbers written by people\<close>

text \<open>
  \<^verbatim>\<open>float(s)\<close> of a string: surrounding white space is dropped, decimal digits of every script count,
  and single underscores may stand between digits.
\<close>

definition ascii_digit :: "nat \<Rightarrow> nat" where
  "ascii_digit c = (case decimal_value c of Some d \<Rightarrow> 48 + d | None \<Rightarrow> c)"

fun drop_underscores :: "bool \<Rightarrow> ustr \<Rightarrow> ustr option" where
  "drop_underscores after_digit [] = Some []"
| "drop_underscores after_digit (c # s) =
     (if c = 95 then (if after_digit \<and> s \<noteq> [] \<and> is09 (hd s) then drop_underscores False s else None)
      else map_option (Cons c) (drop_underscores (is09 c) s))"

definition float_body :: "int \<Rightarrow> ustr \<Rightarrow> json option" where
  "float_body sg s =
     (let ds = takeWhile is09 s; t = drop (length ds) s;
          fs = (if starts_with t [46] then takeWhile is09 (tl t) else []);
          t' = (if starts_with t [46] then drop (Suc (length fs)) t else t)
      in if ds = [] \<and> fs = [] then None
         else case scan_exp t' of (e, r) \<Rightarrow>
           if r \<noteq> [] then None
           else Some (make_dec (sg * int (digits_val (ds @ fs))) (length fs) (case e of None \<Rightarrow> 0 | Some x \<Rightarrow> x)))"

definition py_float :: "ustr \<Rightarrow> json option" where
  "py_float s =
     (case drop_underscores False (map ascii_digit (strip s)) of
        None \<Rightarrow> None
      | Some t \<Rightarrow>
          (let neg = starts_with t [45]; b = (if neg \<or> starts_with t [43] then tl t else t); lb = lower b in
           if lb = u ''inf'' \<or> lb = u ''infinity'' then Some (JSpecial (if neg then ''-Infinity'' else ''Infinity''))
           else if lb = u ''nan'' then Some (JSpecial ''NaN'')
           else float_body (if neg then - 1 else 1) b))"

text \<open>\<^verbatim>\<open>max(0.0, min(1.0, score))\<close>: a comparison with NaN is false, so NaN becomes one.\<close>

fun clamp_score :: "json \<Rightarrow> json" where
  "clamp_score (JDec m k) = (if m \<ge> 10 ^ k then JDec 10 1 else if m > 0 then JDec m k else JDec 0 1)"
| "clamp_score (JSpecial n) = (if n = ''-Infinity'' then JDec 0 1 else JDec 10 1)"
| "clamp_score v = v"

text \<open>
  \<^verbatim>\<open>float(p.get("score", 0.5))\<close> with 0.5 for what cannot be read; a missing score gives the same as
  \<^verbatim>\<open>None\<close>.  An integer beyond the floats, which would raise, is not passed by any caller.
\<close>

fun read_score :: "json \<Rightarrow> json" where
  "read_score (JDec m k) = JDec m k"
| "read_score (JSpecial n) = JSpecial n"
| "read_score (JInt i) = JDec (i * 10) 1"
| "read_score (JBool b) = JDec (if b then 10 else 0) 1"
| "read_score (JStr s) = (case py_float s of None \<Rightarrow> JDec 5 1 | Some v \<Rightarrow> v)"
| "read_score _ = JDec 5 1"

section \<open>Stored overrides\<close>

definition OVERRIDES_KEY :: ustr where "OVERRIDES_KEY = u ''recognizer_overrides''"

fun obj_members :: "(ustr \<times> json) list \<Rightarrow> (ustr \<times> settings_dict) list" where
  "obj_members [] = []"
| "obj_members ((k, v) # m) = (case v of JObj d \<Rightarrow> (k, d) # obj_members m | _ \<Rightarrow> obj_members m)"

definition get_all_overrides :: "recursion_limits \<Rightarrow> settings_file \<Rightarrow> (ustr \<times> settings_dict) list" where
  "get_all_overrides rl f =
     (case get_setting rl f OVERRIDES_KEY of Some (JObj raw) \<Rightarrow> obj_members raw | _ \<Rightarrow> [])"

definition get_override :: "recursion_limits \<Rightarrow> settings_file \<Rightarrow> ustr \<Rightarrow> settings_dict" where
  "get_override rl f cls = (case map_of (get_all_overrides rl f) cls of None \<Rightarrow> [] | Some d \<Rightarrow> d)"

definition has_override :: "recursion_limits \<Rightarrow> settings_file \<Rightarrow> ustr \<Rightarrow> bool" where
  "has_override rl f cls =
     (let ov = get_override rl f cls in get_truthy ov ''patterns'' \<or> dict_get ov ''context'' \<noteq> None)"

datatype override_error = Invalid_regex ustr ustr | Store_failed write_error

text \<open>A pattern as the caller passes it.\<close>

record pattern_input =
  pi_name :: ustr
  pi_regex :: ustr
  pi_score :: json

fun validate_patterns :: "(ustr \<Rightarrow> ustr option) \<Rightarrow> pattern_input list \<Rightarrow> override_error + pattern_input list" where
  "validate_patterns re_compile [] = Inr []"
| "validate_patterns re_compile (p # ps) =
     (let name = strip (pi_name p) in
      if name = [] \<or> pi_regex p = [] then validate_patterns re_compile ps
      else case re_compile (pi_regex p) of
        Some msg \<Rightarrow> Inl (Invalid_regex name msg)
      | None \<Rightarrow>
          (case validate_patterns re_compile ps of
             Inl e \<Rightarrow> Inl e
           | Inr qs \<Rightarrow> Inr (\<lparr>pi_name = name, pi_regex = pi_regex p, pi_score = clamp_score (read_score (pi_score p))\<rparr> # qs)))"

definition pattern_json :: "pattern_input \<Rightarrow> json" where
  "pattern_json p = JObj [(u ''name'', JStr (pi_name p)), (u ''regex'', JStr (pi_regex p)), (u ''score'', pi_score p)]"

definition clean_context :: "ustr list \<Rightarrow> ustr list" where
  "clean_context ws = dedup {} (filter (\<lambda>w. w \<noteq> []) (map strip ws))"

definition overrides_json :: "(ustr \<times> settings_dict) list \<Rightarrow> json" where
  "overrides_json m = JObj (map (\<lambda>(k, d). (k, JObj d)) m)"

definition store_overrides ::
  "recursion_limits \<Rightarrow> (ustr \<times> settings_dict) list \<Rightarrow> settings_file \<Rightarrow> (override_error + unit) \<times> settings_file" where
  "store_overrides rl m f = apfst (map_sum Store_failed id) (set_value rl OVERRIDES_KEY (overrides_json m) f)"

definition set_override ::
  "recursion_limits \<Rightarrow> (ustr \<Rightarrow> ustr option) \<Rightarrow> ustr \<Rightarrow> pattern_input list option \<Rightarrow> ustr list option \<Rightarrow>
   settings_file \<Rightarrow> (override_error + unit) \<times> settings_file" where
  "set_override rl re_compile cls patterns context_words f =
     (let cur = get_all_overrides rl f;
          entry = (case map_of cur cls of None \<Rightarrow> [] | Some d \<Rightarrow> d);
          with_patterns = (case patterns of
              None \<Rightarrow> Inr entry
            | Some ps \<Rightarrow> map_sum id (\<lambda>qs. put (u ''patterns'') (JArr (map pattern_json qs)) entry) (validate_patterns re_compile ps))
      in case with_patterns of
           Inl e \<Rightarrow> (Inl e, f)
         | Inr e1 \<Rightarrow>
             (let e2 = (case context_words of None \<Rightarrow> e1 | Some ws \<Rightarrow> put (u ''context'') (JArr (map JStr (clean_context ws))) e1)
              in store_overrides rl (put cls e2 cur) f))"

definition reset_recognizer ::
  "recursion_limits \<Rightarrow> ustr \<Rightarrow> settings_file \<Rightarrow> (override_error + unit) \<times> settings_file" where
  "reset_recognizer rl cls f =
     (let cur = get_all_overrides rl f in
      if map_of cur cls \<noteq> None then store_overrides rl (filter (\<lambda>(k, d). k \<noteq> cls) cur) f else (Inr (), f))"

section \<open>Applying them to a recognizer\<close>

text \<open>
  A live recognizer object.  Its patterns are those of the code, modelled as syntax trees, or the
  ones an operator typed.
\<close>

datatype regex_src = Code rx | Typed ustr

datatype pyfloat = Fin rat | NaN | Inf | NegInf

record live_pattern =
  lp_name :: ustr
  lp_regex :: regex_src
  lp_score :: pyfloat

record live_recognizer =
  lr_class :: ustr
  lr_module :: ustr
  lr_entities :: "ustr list"
  lr_patterns :: "live_pattern list"
  lr_context :: "ustr list"

definition dec_rat :: "int \<Rightarrow> nat \<Rightarrow> rat" where
  "dec_rat m k = of_int m / 10 ^ k"

fun special_float :: "string \<Rightarrow> pyfloat" where
  "special_float n = (if n = ''NaN'' then NaN else if n = ''Infinity'' then Inf else NegInf)"

text \<open>\<^verbatim>\<open>float(p["score"])\<close> of a stored value.\<close>

fun stored_float :: "json \<Rightarrow> exn + pyfloat" where
  "stored_float (JDec m k) = Inr (Fin (dec_rat m k))"
| "stored_float (JInt i) = Inr (Fin (of_int i))"
| "stored_float (JBool b) = Inr (Fin (if b then 1 else 0))"
| "stored_float (JSpecial n) = Inr (special_float n)"
| "stored_float (JStr s) =
     (case py_float s of
        Some (JDec m k) \<Rightarrow> Inr (Fin (dec_rat m k))
      | Some (JSpecial n) \<Rightarrow> Inr (special_float n)
      | _ \<Rightarrow> Inl ValueError)"
| "stored_float v = Inl TypeError"

type_synonym pattern_ctor = "ustr \<Rightarrow> ustr \<Rightarrow> pyfloat \<Rightarrow> exn option"

fun make_patterns :: "(json \<Rightarrow> ustr) \<Rightarrow> pattern_ctor \<Rightarrow> json list \<Rightarrow> exn + live_pattern list" where
  "make_patterns rep ctor [] = Inr []"
| "make_patterns rep ctor (JObj d # vs) =
     (if get_truthy d ''name'' \<and> get_truthy d ''regex'' then
        (let name = py_str rep (the (dict_get d ''name'')); rx = py_str rep (the (dict_get d ''regex'')) in
         case dict_get d ''score'' of
           None \<Rightarrow> Inl KeyError
         | Some sv \<Rightarrow>
             (case stored_float sv of
                Inl e \<Rightarrow> Inl e
              | Inr sc \<Rightarrow>
                  (case ctor name rx sc of
                     Some e \<Rightarrow> Inl e
                   | None \<Rightarrow>
                       (case make_patterns rep ctor vs of
                          Inl e \<Rightarrow> Inl e
                        | Inr ps \<Rightarrow> Inr (\<lparr>lp_name = name, lp_regex = Typed rx, lp_score = sc\<rparr> # ps)))))
      else make_patterns rep ctor vs)"
| "make_patterns rep ctor (v # vs) = make_patterns rep ctor vs"

definition apply_to ::
  "recursion_limits \<Rightarrow> (json \<Rightarrow> ustr) \<Rightarrow> pattern_ctor \<Rightarrow> settings_file \<Rightarrow> live_recognizer \<Rightarrow> exn + live_recognizer" where
  "apply_to rl rep ctor f r =
     (let ov = get_override rl f (lr_class r) in
      if ov = [] then Inr r
      else case (case dict_get ov ''patterns'' of Some (JArr vs) \<Rightarrow> make_patterns rep ctor vs | _ \<Rightarrow> Inr (lr_patterns r)) of
             Inl e \<Rightarrow> Inl e
           | Inr ps \<Rightarrow>
               Inr (r\<lparr>lr_patterns := ps,
                      lr_context := (case dict_get ov ''context'' of
                          Some (JArr ws) \<Rightarrow> filter (\<lambda>w. strip w \<noteq> []) (map (py_str rep) ws)
                        | _ \<Rightarrow> lr_context r)\<rparr>))"

section \<open>Storing and reading back\<close>

definition overrides_ok :: "(ustr \<times> settings_dict) list \<Rightarrow> bool" where
  "overrides_ok m \<longleftrightarrow> distinct (map fst m) \<and> list_all (\<lambda>(k, d). json_wf (JObj d)) m"

lemma json_wf_overrides: "overrides_ok m \<Longrightarrow> json_wf (overrides_json m)"
  unfolding overrides_json_def overrides_ok_def by (induction m) (auto simp: image_iff)

lemma obj_members_json: "obj_members (map (\<lambda>(k, d). (k, JObj d)) m) = m"
  by (induction m) auto

lemma set_obj_members: "(k, d) \<in> set (obj_members raw) \<Longrightarrow> (k, JObj d) \<in> set raw"
  by (induction raw rule: obj_members.induct) (auto split: json.splits)

lemma obj_members_distinct: "distinct (map fst raw) \<Longrightarrow> distinct (map fst (obj_members raw))"
  by (induction raw rule: obj_members.induct) (force split: json.splits dest: set_obj_members)+

lemma get_setting_wf: "get_setting rl f k = Some v \<Longrightarrow> json_wf v"
  using settings_shape_get [of rl f]
  by (auto simp: get_setting_def settings_shape_def list_all_iff dest!: map_of_SomeD)

lemma get_all_overrides_ok: "overrides_ok (get_all_overrides rl f)"
proof (cases "\<exists>raw. get_setting rl f OVERRIDES_KEY = Some (JObj raw)")
  case True
  then obtain raw where raw: "get_setting rl f OVERRIDES_KEY = Some (JObj raw)" by blast
  have wf: "distinct (map fst raw)" "list_all (\<lambda>(k, v). json_wf v) raw"
    using get_setting_wf [OF raw] by simp_all
  have "list_all (\<lambda>(k, d). json_wf (JObj d)) (obj_members raw)"
    using wf(2) by (fastforce simp: list_all_iff dest: set_obj_members)
  with wf(1) show ?thesis by (simp add: get_all_overrides_def raw overrides_ok_def obj_members_distinct)
next
  case False
  then show ?thesis by (auto simp: get_all_overrides_def overrides_ok_def split: option.splits json.splits)
qed

lemma overrides_ok_put: "overrides_ok m \<Longrightarrow> json_wf (JObj d) \<Longrightarrow> overrides_ok (put k d m)"
  by (simp add: overrides_ok_def put_distinct put_all)

lemma store_overrides_read:
  assumes "store_overrides rl m f = (Inr (), f')" "overrides_ok m" "dump_depth rl \<le> load_depth rl"
  shows "get_all_overrides rl f' = m" "k \<noteq> OVERRIDES_KEY \<Longrightarrow> get_setting rl f' k = get_setting rl f k"
proof -
  have sv: "set_value rl OVERRIDES_KEY (overrides_json m) f = (Inr (), f')"
    using assms(1) by (cases "set_value rl OVERRIDES_KEY (overrides_json m) f"; cases "fst (set_value rl OVERRIDES_KEY (overrides_json m) f)")
      (auto simp: store_overrides_def)
  have d: "get_setting rl f' = (get_setting rl f)(OVERRIDES_KEY \<mapsto> overrides_json m)"
    unfolding get_setting_def set_value_dict [OF sv json_wf_overrides [OF assms(2)] assms(3)] by (simp add: map_of_put)
  show "get_all_overrides rl f' = m"
    by (simp add: get_all_overrides_def d overrides_json_def obj_members_json)
  show "k \<noteq> OVERRIDES_KEY \<Longrightarrow> get_setting rl f' k = get_setting rl f k" by (simp add: d)
qed

section \<open>Validated input\<close>

definition float_value :: "json \<Rightarrow> bool" where
  "float_value v \<longleftrightarrow> json_wf v \<and> (case v of JDec m k \<Rightarrow> True | JSpecial n \<Rightarrow> True | _ \<Rightarrow> False)"

lemma clamp_score_unit:
  assumes "float_value v"
  shows "\<exists>m k. clamp_score v = JDec m k \<and> json_wf (JDec m k) \<and> 0 \<le> dec_rat m k \<and> dec_rat m k \<le> 1"
proof -
  have ends: "json_wf (JDec 10 1)" "0 \<le> dec_rat 10 1" "dec_rat 10 1 \<le> 1"
    "json_wf (JDec 0 1)" "0 \<le> dec_rat 0 1" "dec_rat 0 1 \<le> 1" by (simp_all add: dec_rat_def)
  have inside: "dec_rat m k \<le> 1" if "\<not> 10 ^ k \<le> m" for m k
  proof -
    have "(of_int m :: rat) \<le> of_int (10 ^ k)" using that by (simp only: of_int_le_iff)
    then show ?thesis by (simp add: dec_rat_def divide_le_eq)
  qed
  have low: "0 \<le> dec_rat m k" if "0 < m" for m k using that by (simp add: dec_rat_def)
  consider m k where "v = JDec m k" | n where "v = JSpecial n"
    using assms by (auto simp: float_value_def split: json.splits)
  then show ?thesis
  proof cases
    case (1 m k)
    then consider "10 ^ k \<le> m" | "\<not> 10 ^ k \<le> m" "0 < m" | "\<not> 10 ^ k \<le> m" "\<not> 0 < m" by blast
    then show ?thesis
    proof cases
      case 2
      then show ?thesis using 1 assms inside low by (intro exI [of _ m] exI [of _ k]) (simp add: float_value_def)
    qed (use 1 ends in auto)
  next
    case (2 n)
    then show ?thesis using ends by (cases "n = ''-Infinity''") auto
  qed
qed

definition valid_pattern :: "(ustr \<Rightarrow> ustr option) \<Rightarrow> pattern_input \<Rightarrow> bool" where
  "valid_pattern re_compile q \<longleftrightarrow>
     pi_name q \<noteq> [] \<and> pi_regex q \<noteq> [] \<and> re_compile (pi_regex q) = None \<and>
     (case pi_score q of JDec m k \<Rightarrow> json_wf (JDec m k) \<and> 0 \<le> dec_rat m k \<and> dec_rat m k \<le> 1 | _ \<Rightarrow> False)"

lemma read_score_float: "float_value v \<Longrightarrow> read_score v = v"
  by (cases v) (auto simp: float_value_def)

lemma validate_patterns_valid:
  "validate_patterns re_compile ps = Inr qs \<Longrightarrow> list_all (\<lambda>p. float_value (pi_score p)) ps \<Longrightarrow>
   list_all (valid_pattern re_compile) qs"
proof (induction ps arbitrary: qs)
  case (Cons p ps)
  obtain m k where c: "clamp_score (pi_score p) = JDec m k" "json_wf (JDec m k)" "0 \<le> dec_rat m k" "dec_rat m k \<le> 1"
    using Cons.prems(2) clamp_score_unit [of "pi_score p"] by auto
  show ?case
    using Cons.prems Cons.IH c by (auto simp: read_score_float valid_pattern_def Let_def split: if_splits option.splits sum.splits)
qed simp

lemma json_wf_pattern: "valid_pattern rc q \<Longrightarrow> json_wf (pattern_json q)"
  by (auto simp: valid_pattern_def pattern_json_def split: json.splits)

definition live_of :: "pattern_input \<Rightarrow> live_pattern" where
  "live_of q = \<lparr>lp_name = pi_name q, lp_regex = Typed (pi_regex q),
     lp_score = (case pi_score q of JDec m k \<Rightarrow> Fin (dec_rat m k) | _ \<Rightarrow> NaN)\<rparr>"

text \<open>
  What the code relies on of Presidio: the constructor accepts a regular expression that compiles
  together with a score between zero and one.
\<close>

definition ctor_accepts :: "(ustr \<Rightarrow> ustr option) \<Rightarrow> pattern_ctor \<Rightarrow> bool" where
  "ctor_accepts re_compile ctor \<longleftrightarrow>
     (\<forall>n rx s. re_compile rx = None \<and> 0 \<le> s \<and> s \<le> 1 \<longrightarrow> ctor n rx (Fin s) = None)"

lemma make_patterns_json:
  assumes "ctor_accepts rc ctor"
  shows "list_all (valid_pattern rc) qs \<Longrightarrow> make_patterns rep ctor (map pattern_json qs) = Inr (map live_of qs)"
proof (induction qs)
  case (Cons q qs)
  then obtain m k where "pi_score q = JDec m k" "0 \<le> dec_rat m k" "dec_rat m k \<le> 1"
    by (auto simp: valid_pattern_def split: json.splits)
  then show ?case
    using Cons assms
    by (auto simp: pattern_json_def valid_pattern_def get_truthy_def dict_get_def live_of_def ctor_accepts_def)
qed simp

lemma strip_idem: "strip (strip s) = strip s"
proof -
  let ?t = "dropWhile is_space s"
  let ?r = "rev (dropWhile is_space (rev ?t))"
  obtain w where w: "?t = ?r @ w"
    by (metis rev_append rev_rev_ident takeWhile_dropWhile_id)
  have "dropWhile is_space ?r = ?r"
  proof (cases ?r)
    case Nil
    then show ?thesis by (simp only: dropWhile.simps)
  next
    case (Cons c r)
    then have "?t = c # r @ w" using w by (metis append_Cons)
    then have "\<not> is_space c" using hd_dropWhile [of is_space s] by fastforce
    with Cons show ?thesis by simp
  qed
  then show ?thesis by (simp add: strip_def)
qed

lemma clean_context_stripped: "filter (\<lambda>w. strip w \<noteq> []) (clean_context ws) = clean_context ws"
proof -
  have "w \<in> set (clean_context ws) \<Longrightarrow> strip w = w \<and> w \<noteq> []" for w
    by (auto simp: clean_context_def set_dedup strip_idem)
  then show ?thesis by (auto simp: filter_id_conv)
qed

section \<open>Edits reach the recognizers\<close>

definition edited_entry :: "settings_dict \<Rightarrow> pattern_input list \<Rightarrow> ustr list \<Rightarrow> settings_dict" where
  "edited_entry entry qs ws =
     put (u ''context'') (JArr (map JStr (clean_context ws))) (put (u ''patterns'') (JArr (map pattern_json qs)) entry)"

lemma json_wf_edited:
  assumes "json_wf (JObj entry)" "list_all (valid_pattern rc) qs"
  shows "json_wf (JObj (edited_entry entry qs ws))"
proof -
  have "list_all json_wf (map pattern_json qs)"
    using assms(2) by (auto simp: list_all_iff json_wf_pattern)
  moreover have "list_all json_wf (map JStr xs)" for xs by (induction xs) auto
  ultimately show ?thesis
    using assms(1) by (simp add: edited_entry_def put_distinct put_all)
qed

lemma edited_entry_get:
  "edited_entry entry qs ws \<noteq> []"
  "dict_get (edited_entry entry qs ws) ''patterns'' = Some (JArr (map pattern_json qs))"
  "dict_get (edited_entry entry qs ws) ''context'' = Some (JArr (map JStr (clean_context ws)))"
proof -
  show "dict_get (edited_entry entry qs ws) ''context'' = Some (JArr (map JStr (clean_context ws)))"
    by (simp add: edited_entry_def dict_get_def map_of_put)
  then show "edited_entry entry qs ws \<noteq> []" by (auto simp: dict_get_def)
qed (simp add: edited_entry_def dict_get_def map_of_put)

lemma set_override_edit:
  assumes "set_override rl rc cls (Some ps) (Some ws) f = (Inr (), f')" "list_all (\<lambda>p. float_value (pi_score p)) ps"
    and "dump_depth rl \<le> load_depth rl"
  shows "\<exists>qs. validate_patterns rc ps = Inr qs \<and>
     get_all_overrides rl f' = put cls (edited_entry (get_override rl f cls) qs ws) (get_all_overrides rl f)"
proof -
  let ?cur = "get_all_overrides rl f" and ?entry = "get_override rl f cls"
  obtain qs where qs: "validate_patterns rc ps = Inr qs"
    "store_overrides rl (put cls (edited_entry ?entry qs ws) ?cur) f = (Inr (), f')"
    using assms(1)
    by (auto simp: set_override_def get_override_def edited_entry_def Let_def map_sum_def split: sum.splits)
  have "json_wf (JObj ?entry)"
    using get_all_overrides_ok [of rl f]
    by (auto simp: get_override_def overrides_ok_def list_all_iff dest!: map_of_SomeD split: option.splits)
  then have "overrides_ok (put cls (edited_entry ?entry qs ws) ?cur)"
    using validate_patterns_valid [OF qs(1) assms(2)] get_all_overrides_ok by (intro overrides_ok_put json_wf_edited)
  then show ?thesis using store_overrides_read(1) [OF qs(2) _ assms(3)] qs(1) by blast
qed

text \<open>
  C25: an edit is what the next recognizer of that class uses.  When \<open>set_override\<close> accepts patterns
  and context words, a recognizer of the edited class built afterwards has exactly the validated
  patterns, with their scores brought into the unit interval, and the cleaned context words, whatever
  the settings file held before; recognizers of other classes are built as before.
\<close>

theorem override_round_trip:
  assumes "set_override rl rc cls (Some ps) (Some ws) f = (Inr (), f')"
    and "list_all (\<lambda>p. float_value (pi_score p)) ps" "dump_depth rl \<le> load_depth rl" "ctor_accepts rc ctor"
  shows "\<exists>qs. validate_patterns rc ps = Inr qs \<and> list_all (valid_pattern rc) qs \<and>
     (\<forall>r. apply_to rl rep ctor f' r =
        (if lr_class r = cls then Inr (r\<lparr>lr_patterns := map live_of qs, lr_context := clean_context ws\<rparr>)
         else apply_to rl rep ctor f r))"
proof -
  obtain qs where qs: "validate_patterns rc ps = Inr qs"
    and all: "get_all_overrides rl f' = put cls (edited_entry (get_override rl f cls) qs ws) (get_all_overrides rl f)"
    using set_override_edit [OF assms(1-3)] by blast
  have v: "list_all (valid_pattern rc) qs" by (rule validate_patterns_valid [OF qs assms(2)])
  have get: "get_override rl f' c = (if c = cls then edited_entry (get_override rl f cls) qs ws else get_override rl f c)" for c
    by (simp add: get_override_def [of rl f'] all map_of_put) (simp add: get_override_def)
  have mk: "make_patterns rep ctor (map pattern_json qs) = Inr (map live_of qs)"
    by (rule make_patterns_json [OF assms(4) v])
  have ctx: "map (py_str rep) (map JStr xs) = xs" for xs by (induction xs) auto
  have "apply_to rl rep ctor f' r =
        (if lr_class r = cls then Inr (r\<lparr>lr_patterns := map live_of qs, lr_context := clean_context ws\<rparr>)
         else apply_to rl rep ctor f r)" for r
    by (simp add: apply_to_def get edited_entry_get mk ctx clean_context_stripped del: map_map)
  with qs v show ?thesis by blast
qed

definition demo_limits :: recursion_limits where
  "demo_limits = \<lparr>load_depth = 900, dump_depth = 300\<rparr>"

definition demo_pattern :: pattern_input where
  "demo_pattern = \<lparr>pi_name = u ''wide'', pi_regex = u ''x+'', pi_score = JDec 75 1\<rparr>"

definition demo_recognizer :: live_recognizer where
  "demo_recognizer = \<lparr>lr_class = u ''KrRrnRecognizer'', lr_module = u ''app.core.recognizers.kr_rrn'',
     lr_entities = [u ''KR_RRN''], lr_patterns = [], lr_context = []\<rparr>"

lemma demo_strip: "strip (u ''wide'') = u ''wide''" "strip (u ''id'') = u ''id''"
  by (simp_all add: strip_def u_def is_space_ascii)

lemma demo_edit_stored:
  "fst (set_override demo_limits (\<lambda>_. None) (u ''KrRrnRecognizer'') (Some [demo_pattern]) (Some [u ''id'']) Missing) = Inr ()"
proof -
  have g: "get_settings_dict rl Missing = DEFAULTS" for rl by (simp add: get_settings_dict_def)
  have "get_all_overrides demo_limits Missing = []"
    by (simp add: get_all_overrides_def get_setting_def g DEFAULTS_def OVERRIDES_KEY_def AUDIT_DETAIL_def ATTACHMENT_SCAN_def)
  then have "set_override demo_limits (\<lambda>_. None) (u ''KrRrnRecognizer'') (Some [demo_pattern]) (Some [u ''id'']) Missing =
     store_overrides demo_limits [(u ''KrRrnRecognizer'', edited_entry [] [demo_pattern\<lparr>pi_score := JDec 10 1\<rparr>] [u ''id''])] Missing"
    by (simp add: set_override_def demo_pattern_def demo_strip edited_entry_def)
  moreover have "fst (set_value demo_limits OVERRIDES_KEY
      (overrides_json [(u ''KrRrnRecognizer'', edited_entry [] [demo_pattern\<lparr>pi_score := JDec 10 1\<rparr>] [u ''id''])]) Missing) = Inr ()"
    by (rule set_value_succeeds)
      (simp_all add: g DEFAULTS_def OVERRIDES_KEY_def AUDIT_DETAIL_def ATTACHMENT_SCAN_def overrides_json_def edited_entry_def
        demo_pattern_def pattern_json_def clean_context_def demo_strip demo_limits_def, simp_all add: u_def)
  ultimately show ?thesis by (simp add: store_overrides_def)
qed

theorem override_round_trip_witness:
  "\<exists>f'. set_override demo_limits (\<lambda>_. None) (u ''KrRrnRecognizer'') (Some [demo_pattern]) (Some [u ''id'']) Missing = (Inr (), f') \<and>
     apply_to demo_limits (\<lambda>_. []) (\<lambda>_ _ _. None) f' demo_recognizer =
       Inr (demo_recognizer\<lparr>lr_patterns := [\<lparr>lp_name = u ''wide'', lp_regex = Typed (u ''x+''), lp_score = Fin 1\<rparr>],
            lr_context := [u ''id'']\<rparr>)"
proof -
  obtain f' where f': "set_override demo_limits (\<lambda>_. None) (u ''KrRrnRecognizer'') (Some [demo_pattern]) (Some [u ''id'']) Missing = (Inr (), f')"
    using demo_edit_stored by (metis prod.collapse)
  have c: "lr_class demo_recognizer = u ''KrRrnRecognizer''" by (simp add: demo_recognizer_def)
  show ?thesis
    using override_round_trip [OF f', where ctor = "\<lambda>_ _ _. None" and rep = "\<lambda>_. []"]
    by (intro exI [of _ f'] conjI f') (auto simp: c demo_pattern_def float_value_def demo_limits_def ctor_accepts_def demo_strip Let_def
        live_of_def clean_context_def dec_rat_def)
qed

end
