(* ===== verification/Analyzer.thy ===== *)
theory Analyzer
  imports Overrides Policies
begin

text \<open>
  How the analyzer engine comes about and how long it lives: the candidate recognizers and the
  registry (\<^verbatim>\<open>app/core/analyzer.py\<close>), the process-wide engine and policy caches
  (\<^verbatim>\<open>analyzer_cache.py\<close>, \<^verbatim>\<open>policy_engine.py\<close>), the deny-list table (\<^verbatim>\<open>app/db/crud.py\<close>) and the pattern
  pages of the dashboard (\<^verbatim>\<open>app/api/dashboard.py\<close>) that edit what the registry is built from.  An
  engine is represented by its registry; Presidio's recognizers and constructors are parameters.
\<close>

section \<open>Parameters\<close>

record presidio =
  ps_limits :: recursion_limits
  ps_rep :: "json \<Rightarrow> ustr"
  ps_compile :: "ustr \<Rightarrow> ustr option"
  ps_pattern :: pattern_ctor
  ps_builtin :: "string \<Rightarrow> live_recognizer"
  ps_variants :: "nat \<Rightarrow> nat list"
  ps_codec_message :: ustr

type_synonym engine = "live_recognizer list"

section \<open>Candidates and registry\<close>

definition of_code :: "string \<Rightarrow> recognizer \<Rightarrow> live_recognizer" where
  "of_code m r =
     \<lparr>lr_class = u (rz_class r), lr_module = u m, lr_entities = [u (rz_entity r)],
      lr_patterns = map (\<lambda>p. \<lparr>lp_name = u (pt_name p), lp_regex = Code (pt_regex p), lp_score = Fin (pt_score p)\<rparr>) (rz_patterns r),
      lr_context = rz_context r\<rparr>"

definition BUILTIN_CLASSES :: "string list" where
  "BUILTIN_CLASSES = [''EmailRecognizer'', ''CreditCardRecognizer'', ''IpRecognizer'', ''UrlRecognizer'',
     ''IbanRecognizer'', ''CryptoRecognizer'']"

definition code_candidates :: "presidio \<Rightarrow> live_recognizer list" where
  "code_candidates L =
     [of_code ''app.core.recognizers.kr_rrn'' KrRrnRecognizer,
      of_code ''app.core.recognizers.kr_phone'' KrPhoneRecognizer,
      of_code ''app.core.recognizers.kr_business_num'' KrBusinessNumRecognizer,
      of_code ''app.core.recognizers.kr_bank_account'' KrBankAccountStrongRecognizer,
      of_code ''app.core.recognizers.kr_bank_account'' KrBankAccountWeakRecognizer,
      of_code ''app.core.recognizers.kr_driver_license'' KrDriverLicenseRecognizer,
      of_code ''app.core.recognizers.kr_passport'' KrPassportRecognizer]
     @ map (ps_builtin L) BUILTIN_CLASSES"

fun map_exn :: "('a \<Rightarrow> exn + 'b) \<Rightarrow> 'a list \<Rightarrow> exn + 'b list" where
  "map_exn g [] = Inr []"
| "map_exn g (x # xs) =
     (case g x of Inl e \<Rightarrow> Inl e | Inr y \<Rightarrow> (case map_exn g xs of Inl e \<Rightarrow> Inl e | Inr ys \<Rightarrow> Inr (y # ys)))"

definition all_recognizer_candidates :: "presidio \<Rightarrow> settings_file \<Rightarrow> exn + live_recognizer list" where
  "all_recognizer_candidates L f =
     map_exn (apply_to (ps_limits L) (ps_rep L) (ps_pattern L) f) (code_candidates L)"

definition DISABLED_KEY :: ustr where "DISABLED_KEY = u ''disabled_recognizers''"

definition disabled_recognizer_names :: "presidio \<Rightarrow> settings_file \<Rightarrow> ustr set" where
  "disabled_recognizer_names L f =
     (case get_setting (ps_limits L) f DISABLED_KEY of
        Some (JArr raw) \<Rightarrow> set (map (py_str (ps_rep L)) raw)
      | _ \<Rightarrow> {})"

definition make_registry :: "presidio \<Rightarrow> settings_file \<Rightarrow> exn + engine" where
  "make_registry L f =
     map_sum id (filter (\<lambda>r. lr_class r \<notin> disabled_recognizer_names L f)) (all_recognizer_candidates L f)"

definition classify_source :: "live_recognizer \<Rightarrow> string" where
  "classify_source r =
     (if starts_with (lr_module r) (u ''presidio_analyzer.predefined_recognizers'') then ''presidio_builtin''
      else if starts_with (lr_module r) (u ''app.core.recognizers'') then ''custom_kr''
      else ''db_deny_list'')"

record candidate_info =
  ci_recognizer :: live_recognizer
  ci_source :: string
  ci_enabled :: bool
  ci_has_override :: bool

definition inspect_all_candidates :: "presidio \<Rightarrow> settings_file \<Rightarrow> exn + candidate_info list" where
  "inspect_all_candidates L f =
     map_sum id (map (\<lambda>r. \<lparr>ci_recognizer = r, ci_source = classify_source r,
         ci_enabled = (lr_class r \<notin> disabled_recognizer_names L f),
         ci_has_override = has_override (ps_limits L) f (lr_class r)\<rparr>))
       (all_recognizer_candidates L f)"

definition inspect_recognizers :: "engine \<Rightarrow> (live_recognizer \<times> string) list" where
  "inspect_recognizers e = map (\<lambda>r. (r, classify_source r)) e"

section \<open>Deny list\<close>

record deny_entry =
  de_id :: nat
  de_row :: deny_row
  de_note :: "ustr option"
  de_created_by :: ustr

definition add_deny_entry ::
  "deny_entry list \<Rightarrow> nat \<Rightarrow> deny_row \<Rightarrow> ustr option \<Rightarrow> ustr \<Rightarrow> policy_error + deny_entry \<times> deny_entry list" where
  "add_deny_entry rows next_id row note created_by =
     (case validate_score (dn_score row) of
        Inl e \<Rightarrow> Inl e
      | Inr _ \<Rightarrow>
          if (dn_entity_type row, dn_value row) \<in> set (map (\<lambda>d. (dn_entity_type (de_row d), dn_value (de_row d))) rows)
          then Inl PolicyValidationError
          else (let d = \<lparr>de_id = next_id, de_row = row, de_note = note, de_created_by = created_by\<rparr> in Inr (d, rows @ [d])))"

definition list_deny_entries :: "deny_entry list \<Rightarrow> string option \<Rightarrow> deny_entry list" where
  "list_deny_entries rows et = filter (\<lambda>d. et = None \<or> Some (dn_entity_type (de_row d)) = et) rows"

definition deny_recognizers :: "presidio \<Rightarrow> deny_entry list \<Rightarrow> engine" where
  "deny_recognizers L rows =
     map (of_code ''presidio_analyzer.pattern_recognizer'')
       (build_deny_list_recognizers (ps_variants L) (map de_row (list_deny_entries rows None)))"

text \<open>\<open>db\<close> is whether the query of the deny list is answered.\<close>

definition build_analyzer_with_deny_list ::
  "presidio \<Rightarrow> bool \<Rightarrow> settings_file \<Rightarrow> deny_entry list \<Rightarrow> exn + engine" where
  "build_analyzer_with_deny_list L db f rows =
     (case make_registry L f of Inl e \<Rightarrow> Inl e
      | Inr registry \<Rightarrow> if db then Inr (registry @ deny_recognizers L rows) else Inl RuntimeError)"

section \<open>The caches of a process\<close>

record process =
  pr_file :: settings_file
  pr_lru :: "engine option"
  pr_engine :: "engine option"
  pr_reload_pending :: bool
  pr_reload_count :: nat
  pr_policies :: "policy list"
  pr_policies_pending :: bool
  pr_deny :: "deny_entry list"
  pr_deny_next :: nat
  pr_policy_table :: policy_table

text \<open>A start of the service on the files and tables of \<open>p\<close>.\<close>

definition restart :: "process \<Rightarrow> process" where
  "restart p = p\<lparr>pr_lru := None, pr_engine := None, pr_reload_pending := True, pr_reload_count := 0,
     pr_policies := [], pr_policies_pending := True\<rparr>"

definition build_analyzer :: "presidio \<Rightarrow> process \<Rightarrow> (exn + engine) \<times> process" where
  "build_analyzer L p =
     (case pr_lru p of
        Some e \<Rightarrow> (Inr e, p)
      | None \<Rightarrow>
          (case make_registry L (pr_file p) of
             Inl x \<Rightarrow> (Inl x, p)
           | Inr e \<Rightarrow> (Inr e, p\<lparr>pr_lru := Some e\<rparr>)))"

definition reset_analyzer_cache :: "process \<Rightarrow> process" where
  "reset_analyzer_cache p = p\<lparr>pr_lru := None\<rparr>"

definition request_reload :: "process \<Rightarrow> process" where
  "request_reload p = p\<lparr>pr_reload_pending := True\<rparr>"

text \<open>Both caches query the database only to rebuild; a failed query leaves them as they were.\<close>

definition analyzer_cache_get :: "presidio \<Rightarrow> bool \<Rightarrow> process \<Rightarrow> (exn + engine) \<times> process" where
  "analyzer_cache_get L db p =
     (case (pr_reload_pending p, pr_engine p) of
        (False, Some e) \<Rightarrow> (Inr e, p)
      | _ \<Rightarrow>
          (case build_analyzer_with_deny_list L db (pr_file p) (pr_deny p) of
             Inl x \<Rightarrow> (Inl x, p)
           | Inr e \<Rightarrow> (Inr e, p\<lparr>pr_engine := Some e, pr_reload_count := Suc (pr_reload_count p), pr_reload_pending := False\<rparr>)))"

definition policy_cache_get :: "bool \<Rightarrow> process \<Rightarrow> (exn + policy list) \<times> process" where
  "policy_cache_get db p =
     (if \<not> pr_policies_pending p then (Inr (pr_policies p), p)
      else if \<not> db then (Inl RuntimeError, p)
      else (let ps = list_active_policies (pr_policy_table p) [''enabled''] in
            (Inr ps, p\<lparr>pr_policies := ps, pr_policies_pending := False\<rparr>)))"

text \<open>
  What a request for inspection runs with; \<open>deny_db\<close> and \<open>policy_db\<close> say whether the database answers
  the two queries, should they be sent.  The engine is resolved before the policies, opening a session
  sends nothing, and every failure falls back to the engine of the code without policies.
\<close>

definition resolve_engine :: "presidio \<Rightarrow> bool \<Rightarrow> bool \<Rightarrow> process \<Rightarrow> (exn + engine \<times> policy list) \<times> process" where
  "resolve_engine L deny_db policy_db p =
     (let fallback = (\<lambda>p1. case build_analyzer L p1 of (r, p2) \<Rightarrow> (map_sum id (\<lambda>e. (e, [])) r, p2))
      in case analyzer_cache_get L deny_db p of
           (Inl x, p1) \<Rightarrow> fallback p1
         | (Inr e, p1) \<Rightarrow>
             (case policy_cache_get policy_db p1 of
                (Inl x, p2) \<Rightarrow> fallback p2
              | (Inr ps, p2) \<Rightarrow> (Inr (e, ps), p2)))"

section \<open>The pattern pages of the dashboard\<close>

datatype page = Redirect ustr | Edit_form candidate_info | Server_error

definition PATTERNS_URL :: ustr where "PATTERNS_URL = u ''/admin/patterns''"

definition patterns_list :: "presidio \<Rightarrow> process \<Rightarrow> exn + (string \<times> candidate_info list) list \<times> nat" where
  "patterns_list L p =
     map_sum id (\<lambda>all_known.
         (map (\<lambda>src. (src, filter (\<lambda>c. ci_source c = src) all_known)) [''custom_kr'', ''presidio_builtin'', ''db_deny_list''],
          length (filter (\<lambda>c. \<not> ci_enabled c) all_known)))
       (inspect_all_candidates L (pr_file p))"

definition patterns_edit_form :: "presidio \<Rightarrow> ustr \<Rightarrow> process \<Rightarrow> page" where
  "patterns_edit_form L cls p =
     (case inspect_all_candidates L (pr_file p) of
        Inl e \<Rightarrow> Server_error
      | Inr all_known \<Rightarrow>
          (case find (\<lambda>c. lr_class (ci_recognizer c) = cls) all_known of
             None \<Rightarrow> Redirect PATTERNS_URL
           | Some c \<Rightarrow> if ci_source c = ''db_deny_list'' then Redirect PATTERNS_URL else Edit_form c))"

definition patterns_toggle :: "presidio \<Rightarrow> ustr \<Rightarrow> ustr \<Rightarrow> process \<Rightarrow> page \<times> process" where
  "patterns_toggle L cls action p =
     (let current = (case get_setting (ps_limits L) (pr_file p) DISABLED_KEY of Some (JArr raw) \<Rightarrow> raw | _ \<Rightarrow> []);
          current' = (if action = u ''disable'' \<and> JStr cls \<notin> set current then current @ [JStr cls]
                      else if action = u ''enable'' then filter (\<lambda>c. c \<noteq> JStr cls) current
                      else current)
      in case set_value (ps_limits L) DISABLED_KEY (JArr current') (pr_file p) of
           (Inl e, f) \<Rightarrow> (Server_error, p\<lparr>pr_file := f\<rparr>)
         | (Inr _, f) \<Rightarrow> (Redirect PATTERNS_URL, reset_analyzer_cache (p\<lparr>pr_file := f\<rparr>)))"

text \<open>\<^verbatim>\<open>s.splitlines()\<close>.\<close>

definition is_line_break :: "nat \<Rightarrow> bool" where
  "is_line_break c \<longleftrightarrow> c \<in> {10, 11, 12, 13, 28, 29, 30, 133, 8232, 8233}"

fun splitlines :: "ustr \<Rightarrow> ustr list" where
  "splitlines [] = []"
| "splitlines (c # s) =
     (if is_line_break c then [] # splitlines (if c = 13 \<and> s \<noteq> [] \<and> hd s = 10 then tl s else s)
      else case splitlines s of [] \<Rightarrow> [[c]] | l # ls \<Rightarrow> (c # l) # ls)"

definition nth_or :: "ustr list \<Rightarrow> nat \<Rightarrow> ustr" where
  "nth_or xs i = (if i < length xs then xs ! i else [])"

definition form_patterns :: "ustr list \<Rightarrow> ustr list \<Rightarrow> ustr list \<Rightarrow> pattern_input list" where
  "form_patterns names regexes scores =
     List.map_filter (\<lambda>i.
        let name = strip (nth_or names i); rx = nth_or regexes i; score_raw = strip (nth_or scores i) in
        if name = [] \<and> rx = [] then None
        else Some \<lparr>pi_name = name, pi_regex = rx,
               pi_score = (if score_raw = [] then JDec 5 1 else case py_float score_raw of None \<Rightarrow> JDec 5 1 | Some v \<Rightarrow> v)\<rparr>)
       [0..<max (length names) (max (length regexes) (length scores))]"

definition form_context :: "ustr \<Rightarrow> ustr list" where
  "form_context s = map strip (filter (\<lambda>l. strip l \<noteq> []) (splitlines s))"

definition invalid_regex_text :: "ustr \<Rightarrow> ustr \<Rightarrow> ustr" where
  "invalid_regex_text name msg = u ''invalid regex for pattern '' @ [39] @ name @ [39] @ u '': '' @ msg"

definition patterns_edit_save ::
  "presidio \<Rightarrow> (ustr \<Rightarrow> ustr) \<Rightarrow> ustr \<Rightarrow> ustr list \<Rightarrow> ustr list \<Rightarrow> ustr list \<Rightarrow> ustr \<Rightarrow> process \<Rightarrow> page \<times> process" where
  "patterns_edit_save L quote cls names regexes scores context_text p =
     (case set_override (ps_limits L) (ps_compile L) cls (Some (form_patterns names regexes scores))
             (Some (form_context context_text)) (pr_file p) of
        (Inl (Invalid_regex name msg), f) \<Rightarrow>
          (Redirect (u ''/admin/patterns/edit?class='' @ quote cls @ u ''&error='' @ quote (invalid_regex_text name msg)),
           p\<lparr>pr_file := f\<rparr>)
      | (Inl (Store_failed Not_encodable), f) \<Rightarrow>
          (Redirect (u ''/admin/patterns/edit?class='' @ quote cls @ u ''&error='' @ quote (ps_codec_message L)), p\<lparr>pr_file := f\<rparr>)
      | (Inl (Store_failed Too_deep), f) \<Rightarrow> (Server_error, p\<lparr>pr_file := f\<rparr>)
      | (Inr _, f) \<Rightarrow> (Redirect PATTERNS_URL, reset_analyzer_cache (p\<lparr>pr_file := f\<rparr>)))"

definition patterns_reset :: "presidio \<Rightarrow> ustr \<Rightarrow> process \<Rightarrow> page \<times> process" where
  "patterns_reset L cls p =
     (case reset_recognizer (ps_limits L) cls (pr_file p) of
        (Inl e, f) \<Rightarrow> (Server_error, p\<lparr>pr_file := f\<rparr>)
      | (Inr _, f) \<Rightarrow> (Redirect PATTERNS_URL, reset_analyzer_cache (p\<lparr>pr_file := f\<rparr>)))"

section \<open>What a rebuilt engine contains\<close>

lemma apply_to_cong:
  "get_setting rl f' OVERRIDES_KEY = get_setting rl f OVERRIDES_KEY \<Longrightarrow> apply_to rl rep ctor f' = apply_to rl rep ctor f"
  by (simp add: apply_to_def get_override_def get_all_overrides_def fun_eq_iff)

lemma set_value_gets:
  assumes "set_value rl k v f = (Inr (), f')" "json_wf v" "dump_depth rl \<le> load_depth rl"
  shows "get_setting rl f' = (get_setting rl f)(k \<mapsto> v)"
  unfolding get_setting_def set_value_dict [OF assms] by (simp add: map_of_put)

lemma disabled_list_wf:
  "json_wf (JArr (case get_setting rl f DISABLED_KEY of Some (JArr raw) \<Rightarrow> raw | _ \<Rightarrow> []))"
  using get_setting_wf [of rl f DISABLED_KEY] by (auto split: option.splits json.splits)

lemma json_wf_filter: "json_wf (JArr vs) \<Longrightarrow> json_wf (JArr (filter P vs))"
  by (auto simp: list_all_iff)

lemma toggle_written:
  assumes "patterns_toggle L cls action p = (Redirect url, p')" "dump_depth (ps_limits L) \<le> load_depth (ps_limits L)"
    and "raw = (case get_setting (ps_limits L) (pr_file p) DISABLED_KEY of Some (JArr r) \<Rightarrow> r | _ \<Rightarrow> [])"
  shows "get_setting (ps_limits L) (pr_file p') = (get_setting (ps_limits L) (pr_file p))(DISABLED_KEY \<mapsto>
     JArr (if action = u ''disable'' \<and> JStr cls \<notin> set raw then raw @ [JStr cls]
           else if action = u ''enable'' then filter (\<lambda>c. c \<noteq> JStr cls) raw else raw))"
proof -
  let ?new = "if action = u ''disable'' \<and> JStr cls \<notin> set raw then raw @ [JStr cls]
           else if action = u ''enable'' then filter (\<lambda>c. c \<noteq> JStr cls) raw else raw"
  obtain f' where f': "set_value (ps_limits L) DISABLED_KEY (JArr ?new) (pr_file p) = (Inr (), f')" "pr_file p' = f'"
    using assms(1) unfolding patterns_toggle_def Let_def assms(3) [symmetric]
    by (auto simp: reset_analyzer_cache_def split: prod.splits sum.splits)
  have "json_wf (JArr raw)" unfolding assms(3) by (rule disabled_list_wf)
  then have "json_wf (JArr ?new)" using json_wf_filter by auto
  with set_value_gets [OF f'(1) _ assms(2)] f'(2) show ?thesis by simp
qed

lemma DISABLED_OVERRIDES_keys: "DISABLED_KEY \<noteq> OVERRIDES_KEY"
  by (simp add: DISABLED_KEY_def OVERRIDES_KEY_def)

lemma candidates_after_toggle:
  assumes "patterns_toggle L cls action p = (Redirect url, p')" "dump_depth (ps_limits L) \<le> load_depth (ps_limits L)"
  shows "all_recognizer_candidates L (pr_file p') = all_recognizer_candidates L (pr_file p)"
  using toggle_written [OF assms refl] DISABLED_OVERRIDES_keys
  by (simp add: all_recognizer_candidates_def apply_to_cong [of _ "pr_file p'" "pr_file p"])

definition names_only :: "presidio \<Rightarrow> settings_file \<Rightarrow> bool" where
  "names_only L f =
     (case get_setting (ps_limits L) f DISABLED_KEY of
        Some (JArr raw) \<Rightarrow> list_all (\<lambda>v. case v of JStr s \<Rightarrow> True | _ \<Rightarrow> False) raw
      | _ \<Rightarrow> True)"

lemma disabled_after_toggle:
  assumes "patterns_toggle L cls action p = (Redirect url, p')" "dump_depth (ps_limits L) \<le> load_depth (ps_limits L)"
    and "names_only L (pr_file p)"
  shows "disabled_recognizer_names L (pr_file p') =
     (if action = u ''disable'' then insert cls (disabled_recognizer_names L (pr_file p))
      else if action = u ''enable'' then disabled_recognizer_names L (pr_file p) - {cls}
      else disabled_recognizer_names L (pr_file p))"
proof -
  define raw where "raw = (case get_setting (ps_limits L) (pr_file p) DISABLED_KEY of Some (JArr r) \<Rightarrow> r | _ \<Rightarrow> [])"
  have d: "disabled_recognizer_names L (pr_file p) = set (map (py_str (ps_rep L)) raw)"
    by (auto simp: disabled_recognizer_names_def raw_def split: option.splits json.splits)
  obtain names where n: "raw = map JStr names"
  proof -
    have "list_all (\<lambda>v. case v of JStr s \<Rightarrow> True | _ \<Rightarrow> False) raw"
      using assms(3) by (auto simp: names_only_def raw_def split: option.splits json.splits)
    then have "\<exists>names. raw = map JStr names"
      by (induction raw) (auto split: json.splits simp: Cons_eq_map_conv)
    then show ?thesis using that by blast
  qed
  have "py_str (ps_rep L) ` JStr ` set xs = set xs" for xs by force
  moreover have "filter (\<lambda>c. c \<noteq> JStr cls) (map JStr xs) = map JStr (filter (\<lambda>c. c \<noteq> cls) xs)" for xs by (induction xs) auto
  ultimately show ?thesis
    using toggle_written [OF assms(1,2) raw_def] unfolding d n
    by (auto simp: disabled_recognizer_names_def image_iff)
qed

text \<open>
  A toggled recognizer leaves or joins the next engine.  After a switch on the pattern page, an
  engine built from the settings holds exactly the candidates that are not switched off: disabling
  removes the named class and nothing else, enabling brings it back, and the candidates themselves
  stay as they were.
\<close>

theorem toggle_rebuilds_registry:
  assumes "patterns_toggle L cls action p = (Redirect url, p')" "dump_depth (ps_limits L) \<le> load_depth (ps_limits L)"
    and "names_only L (pr_file p)" "all_recognizer_candidates L (pr_file p) = Inr cands"
  shows "make_registry L (pr_file p') = Inr (filter (\<lambda>r. lr_class r \<notin>
     (if action = u ''disable'' then insert cls (disabled_recognizer_names L (pr_file p))
      else if action = u ''enable'' then disabled_recognizer_names L (pr_file p) - {cls}
      else disabled_recognizer_names L (pr_file p))) cands)"
  using assms(4) disabled_after_toggle [OF assms(1-3)] candidates_after_toggle [OF assms(1,2)]
  by (simp add: make_registry_def)

section \<open>What a running process serves\<close>

text \<open>What operators can do while the service runs: the pattern pages and writes to the two tables.\<close>

datatype admin_op =
    Toggle ustr ustr
  | Edit ustr "ustr list" "ustr list" "ustr list" ustr
  | Reset ustr
  | Deny deny_row "ustr option" ustr
  | New_policy string rat rat string "ustr option" string string
  | Policy_mode nat string

fun admin_step :: "presidio \<Rightarrow> (ustr \<Rightarrow> ustr) \<Rightarrow> process \<Rightarrow> admin_op \<Rightarrow> process" where
  "admin_step L quote p (Toggle cls action) = snd (patterns_toggle L cls action p)"
| "admin_step L quote p (Edit cls names regexes scores ctx) = snd (patterns_edit_save L quote cls names regexes scores ctx p)"
| "admin_step L quote p (Reset cls) = snd (patterns_reset L cls p)"
| "admin_step L quote p (Deny row note by_whom) =
     (case add_deny_entry (pr_deny p) (pr_deny_next p) row note by_whom of
        Inl e \<Rightarrow> p
      | Inr (d, rows) \<Rightarrow> p\<lparr>pr_deny := rows, pr_deny_next := Suc (pr_deny_next p)\<rparr>)"
| "admin_step L quote p (New_policy et lo hi action template mode by_whom) =
     (case add_policy (pr_policy_table p) et lo hi action template mode by_whom of
        Inl e \<Rightarrow> p | Inr (row, t) \<Rightarrow> p\<lparr>pr_policy_table := t\<rparr>)"
| "admin_step L quote p (Policy_mode i mode) =
     (case update_policy_mode (pr_policy_table p) i mode of Inl e \<Rightarrow> p | Inr t \<Rightarrow> p\<lparr>pr_policy_table := t\<rparr>)"

definition warm :: "engine \<Rightarrow> policy list \<Rightarrow> process \<Rightarrow> bool" where
  "warm e ps p \<longleftrightarrow> pr_engine p = Some e \<and> \<not> pr_reload_pending p \<and> pr_policies p = ps \<and> \<not> pr_policies_pending p"

lemma warm_resolves: "warm e ps p \<Longrightarrow> resolve_engine L deny_db policy_db p = (Inr (e, ps), p)"
  by (simp add: warm_def resolve_engine_def analyzer_cache_get_def policy_cache_get_def)

lemma admin_step_warm: "warm e ps p \<Longrightarrow> warm e ps (admin_step L quote p op)"
  by (cases op)
    (auto simp: warm_def patterns_toggle_def patterns_edit_save_def patterns_reset_def reset_analyzer_cache_def Let_def
      split: prod.splits sum.splits override_error.splits write_error.splits)

lemma admin_steps_warm: "warm e ps p \<Longrightarrow> warm e ps (foldl (admin_step L quote) p ops)"
  by (induction ops arbitrary: p) (auto simp: admin_step_warm)

lemma served_is_warm:
  assumes "fst (analyzer_cache_get L True p) = Inr e" "fst (policy_cache_get True p) = Inr ps"
  shows "\<exists>p'. resolve_engine L True True p = (Inr (e, ps), p') \<and> warm e ps p'"
  using assms
  by (auto simp: resolve_engine_def analyzer_cache_get_def policy_cache_get_def warm_def Let_def
      split: option.splits sum.splits bool.splits if_splits)

text \<open>
  C27: no administrative change reaches a process that has filled its caches.  Once a request has been
  served with an engine and policies from them (the database having answered whichever query they
  needed), every later request is served with the same two and leaves the process as it is, whether
  or not the database answers, and whatever recognizers are toggled, edited or reset on the
  dashboard and whatever rows are added or switched in the deny list and the policy table in
  between; the application calls no operation that marks the caches stale.
\<close>

theorem admin_changes_not_served:
  assumes "fst (analyzer_cache_get L True p) = Inr e" "fst (policy_cache_get True p) = Inr ps"
  shows "\<exists>p'. resolve_engine L True True p = (Inr (e, ps), p') \<and>
     (\<forall>ops deny_db policy_db. resolve_engine L deny_db policy_db (foldl (admin_step L quote) p' ops) =
        (Inr (e, ps), foldl (admin_step L quote) p' ops))"
  using served_is_warm [OF assms] admin_steps_warm warm_resolves by metis

section \<open>A concrete process\<close>

definition demo_presidio :: presidio where
  "demo_presidio = \<lparr>ps_limits = demo_limits, ps_rep = (\<lambda>_. []), ps_compile = (\<lambda>_. None), ps_pattern = (\<lambda>_ _ _. None),
     ps_builtin = (\<lambda>c. \<lparr>lr_class = u c, lr_module = u ''presidio_analyzer.predefined_recognizers'', lr_entities = [],
       lr_patterns = [], lr_context = []\<rparr>), ps_variants = (\<lambda>_. []), ps_codec_message = []\<rparr>"

definition demo_process :: process where
  "demo_process = \<lparr>pr_file = Missing, pr_lru = None, pr_engine = None, pr_reload_pending = True, pr_reload_count = 0,
     pr_policies = [], pr_policies_pending = True, pr_deny = [], pr_deny_next = 1, pr_policy_table = \<lparr>pt_rows = [], pt_next_id = 1\<rparr>\<rparr>"

lemma missing_settings: "get_setting rl Missing = map_of DEFAULTS"
  by (simp add: get_setting_def get_settings_dict_def)

lemma missing_candidates: "all_recognizer_candidates L Missing = Inr (code_candidates L)"
proof -
  have "get_override rl Missing c = []" for rl c
    by (simp add: get_override_def get_all_overrides_def missing_settings DEFAULTS_def OVERRIDES_KEY_def AUDIT_DETAIL_def ATTACHMENT_SCAN_def)
  then have a: "apply_to rl rep ctor Missing = Inr" for rl rep ctor by (simp add: apply_to_def fun_eq_iff)
  have "map_exn Inr xs = Inr xs" for xs :: "live_recognizer list" by (induction xs) auto
  then show ?thesis by (simp add: all_recognizer_candidates_def a)
qed

lemma missing_disabled:
  "names_only L Missing" "disabled_recognizer_names L Missing = {}" "get_setting rl Missing DISABLED_KEY = None"
  by (simp_all add: names_only_def disabled_recognizer_names_def missing_settings DEFAULTS_def DISABLED_KEY_def AUDIT_DETAIL_def ATTACHMENT_SCAN_def)

lemma demo_engine_built:
  "fst (analyzer_cache_get demo_presidio True demo_process) = Inr (code_candidates demo_presidio)"
  by (simp add: analyzer_cache_get_def build_analyzer_with_deny_list_def make_registry_def missing_candidates missing_disabled demo_process_def
      deny_recognizers_def list_deny_entries_def build_deny_list_recognizers_def map_filter_simps)

lemma demo_toggle:
  "\<exists>p'. patterns_toggle demo_presidio (u ''KrRrnRecognizer'') (u ''disable'') demo_process = (Redirect PATTERNS_URL, p')"
proof -
  have "fst (set_value demo_limits DISABLED_KEY (JArr [JStr (u ''KrRrnRecognizer'')]) Missing) = Inr ()"
    by (rule set_value_succeeds)
      (simp_all add: get_settings_dict_def DEFAULTS_def DISABLED_KEY_def AUDIT_DETAIL_def ATTACHMENT_SCAN_def demo_limits_def, simp_all add: u_def)
  then obtain f' where f': "set_value demo_limits DISABLED_KEY (JArr [JStr (u ''KrRrnRecognizer'')]) Missing = (Inr (), f')"
    by (metis prod.collapse)
  then show ?thesis
    by (simp add: patterns_toggle_def demo_presidio_def demo_process_def missing_disabled)
qed

lemma demo_first_candidate:
  "lr_class (hd (code_candidates demo_presidio)) = u ''KrRrnRecognizer''" "code_candidates demo_presidio \<noteq> []"
  by (simp_all add: code_candidates_def of_code_def KrRrnRecognizer_def)

theorem toggle_rebuilds_registry_witness:
  "\<exists>p'. patterns_toggle demo_presidio (u ''KrRrnRecognizer'') (u ''disable'') demo_process = (Redirect PATTERNS_URL, p') \<and>
     make_registry demo_presidio (pr_file p') =
       Inr (filter (\<lambda>r. lr_class r \<noteq> u ''KrRrnRecognizer'') (code_candidates demo_presidio))"
proof -
  obtain p' where p': "patterns_toggle demo_presidio (u ''KrRrnRecognizer'') (u ''disable'') demo_process = (Redirect PATTERNS_URL, p')"
    using demo_toggle by blast
  have "dump_depth (ps_limits demo_presidio) \<le> load_depth (ps_limits demo_presidio)"
    by (simp add: demo_presidio_def demo_limits_def)
  from toggle_rebuilds_registry [OF p' this, of "code_candidates demo_presidio"] p' show ?thesis
    by (simp add: demo_process_def missing_disabled missing_candidates)
qed

theorem admin_changes_not_served_witness:
  "\<exists>p'. resolve_engine demo_presidio True True demo_process = (Inr (code_candidates demo_presidio, []), p') \<and>
     lr_class (hd (code_candidates demo_presidio)) = u ''KrRrnRecognizer'' \<and>
     fst (resolve_engine demo_presidio False True (foldl (admin_step demo_presidio id) p'
       [Toggle (u ''KrRrnRecognizer'') (u ''disable''), New_policy ''KR_RRN'' 0 1 ''LOG_ONLY'' None ''enabled'' ''cli''])) =
       Inr (code_candidates demo_presidio, [])"
proof -
  have "fst (policy_cache_get True demo_process) = Inr []"
    by (simp add: policy_cache_get_def demo_process_def list_active_policies_def)
  from admin_changes_not_served [OF demo_engine_built this, of id] demo_first_candidate(1) show ?thesis
    by (metis fst_conv)
qed

end
