(* ===== verification/Keyset.thy ===== *)
theory Keyset
  imports Prelude "HOL-Library.Product_Lexorder"
begin

text \<open>
  Keyset pagination, newest row first, as the audit and the feedback listings do it: a page holds
  the first rows after a cursor, and the cursor of a full page is the key of its last row.  The
  locale \<open>keyset\<close> states what a listing promises; inside it is shown that the page after a cursor is
  the start of what the pages before it left.
\<close>

type_synonym stamp = "rat \<times> nat"

definition newest_first :: "('r \<Rightarrow> stamp) \<Rightarrow> 'r list \<Rightarrow> 'r list" where
  "newest_first key rows = rev (sort_key key rows)"

text \<open>\<^verbatim>\<open>created_at < c  OR  (created_at = c AND id < i)\<close>.\<close>

definition before :: "stamp option \<Rightarrow> stamp \<Rightarrow> bool" where
  "before c k = (case c of None \<Rightarrow> True | Some (t, i) \<Rightarrow> fst k < t \<or> (fst k = t \<and> snd k < i))"

definition page_size :: "int \<Rightarrow> nat" where
  "page_size limit = nat (min (max limit 1) 500)"

lemma before_Some: "before (Some c) k \<longleftrightarrow> k < c"
  by (cases c; cases k) (auto simp: before_def)

lemma before_None [simp]: "before None k"
  by (simp add: before_def)

lemma set_newest_first [simp]: "set (newest_first key rows) = set rows"
  by (simp add: newest_first_def)

lemma newest_first_sorted: "sorted_wrt (\<ge>) (map key (newest_first key rows))"
  using sorted_sort_key [of key rows] unfolding newest_first_def by (simp add: sorted_wrt_rev sorted_wrt_map)

lemma newest_first_distinct: "distinct (map key rows) \<Longrightarrow> distinct (map key (newest_first key rows))"
  by (simp add: newest_first_def rev_map distinct_map inj_on_def)

lemma newest_first_strict: "distinct (map key rows) \<Longrightarrow> sorted_wrt (>) (map key (newest_first key rows))"
proof -
  have "sorted_wrt (>) xs" if "sorted_wrt (\<ge>) xs" "distinct xs" for xs :: "stamp list"
    using that by (induction xs) (auto simp: order_less_le)
  then show "distinct (map key rows) \<Longrightarrow> ?thesis"
    using newest_first_sorted newest_first_distinct by blast
qed

text \<open>In a strictly falling list, what lies after the cursor of a prefix is the rest.\<close>

lemma filter_before_prefix:
  "sorted_wrt (>) (map key (xs @ ys)) \<Longrightarrow> xs \<noteq> [] \<Longrightarrow>
   filter (\<lambda>r. before (Some (key (last xs))) (key r)) (xs @ ys) = ys"
proof -
  assume a: "sorted_wrt (>) (map key (xs @ ys))" "xs \<noteq> []"
  have "x \<in> set xs \<Longrightarrow> key (last xs) \<le> key x" for x
  proof -
    assume "x \<in> set xs"
    then have "x \<in> set (butlast xs) \<or> x = last xs"
      using a(2) by (metis append_butlast_last_id in_set_conv_decomp_last rotate1.simps(2) set_ConsD set_rotate1)
    moreover have "sorted_wrt (>) (map key (butlast xs @ [last xs]))"
      using a by (simp add: sorted_wrt_append)
    ultimately show ?thesis by (auto simp: sorted_wrt_append intro: less_imp_le)
  qed
  then have "filter (\<lambda>r. before (Some (key (last xs))) (key r)) xs = []"
    by (auto simp: filter_empty_conv before_Some not_less)
  moreover have "filter (\<lambda>r. before (Some (key (last xs))) (key r)) ys = ys"
    using a last_in_set [OF a(2)] by (auto simp: filter_id_conv before_Some sorted_wrt_append)
  ultimately show ?thesis by simp
qed

locale keyset =
  fixes key :: "'r \<Rightarrow> stamp"
    and selects :: "'q \<Rightarrow> 'r \<Rightarrow> bool"
    and listing :: "'q \<Rightarrow> stamp option \<Rightarrow> int \<Rightarrow> 'r list \<Rightarrow> 'r list"
  assumes listing_page:
    "listing q c limit rows = take (page_size limit) (filter (\<lambda>r. selects q r \<and> before c (key r)) (newest_first key rows))"
begin

lemma listing_subset: "set (listing q c limit rows) \<subseteq> set rows"
  by (auto simp: listing_page dest!: in_set_takeD)

lemma sel_strict:
  assumes "distinct (map key rows)"
  shows "sorted_wrt (>) (map key (filter (selects q) (newest_first key rows)))"
proof -
  have "sorted_wrt (\<lambda>a b. key a > key b) (filter (selects q) (newest_first key rows))"
    using newest_first_strict [OF assms] by (simp add: sorted_wrt_map sorted_wrt_filter)
  then show ?thesis by (simp add: sorted_wrt_map)
qed

lemma listing_rest:
  assumes "distinct (map key rows)" "filter (selects q) (newest_first key rows) = xs @ ys" "1 \<le> n" "n \<le> 500"
    and "c = (if xs = [] then None else Some (key (last xs)))"
  shows "listing q c (int n) rows = take n ys"
proof -
  have n: "page_size (int n) = n" using assms(3,4) by (simp add: page_size_def)
  have "filter (\<lambda>r. selects q r \<and> before c (key r)) (newest_first key rows) = filter (\<lambda>r. before c (key r)) (xs @ ys)"
    using assms(2) by (metis (no_types, lifting) filter_cong filter_filter)
  also have "\<dots> = ys"
    using filter_before_prefix [of key xs ys] sel_strict [OF assms(1), of q] assms(2,5) by (cases "xs = []") simp_all
  finally show ?thesis by (simp add: listing_page n)
qed

text \<open>Rows that arrive later, with newer keys, do not disturb a page behind a cursor.\<close>

lemma later_rows_invisible:
  assumes "distinct (map key (rows @ new))" "\<forall>r \<in> set new. \<not> key r < c"
  shows "listing q (Some c) limit (rows @ new) = listing q (Some c) limit rows"
proof -
  let ?P = "\<lambda>r. selects q r \<and> before (Some c) (key r)"
  have "filter ?P new = []" using assms(2) by (auto simp: filter_empty_conv before_Some)
  then have "filter ?P (sort_key key (rows @ new)) = filter ?P (sort_key key rows)"
    by (simp flip: sort_key_simps add: filter_sort)
  then have "filter ?P (newest_first key (rows @ new)) = filter ?P (newest_first key rows)"
    by (simp add: newest_first_def flip: rev_filter)
  then show ?thesis by (simp add: listing_page)
qed

end

end
