(* ===== verification/Cursor.thy ===== *)
theory Cursor
  imports Json Extract Keyset
begin

text \<open>
  The opaque pagination cursors of the admin listings (\<^verbatim>\<open>app/api/admin_audit.py\<close>): a small JSON object
  in URL-safe base64.  The decoder is the lenient one of Python, which skips foreign characters and
  stops at complete padding.  Times are rational seconds; \<^verbatim>\<open>isoformat\<close> and \<^verbatim>\<open>fromisoformat\<close> are
  parameters.  Shown: a cursor decodes to the key it was made from, and which cursors crash the
  endpoint instead of being refused.
\<close>

section \<open>URL-safe base64\<close>

definition b64_char :: "nat \<Rightarrow> nat" where
  "b64_char v =
     (if v < 26 then 65 + v else if v < 52 then 71 + v else if v < 62 then v - 4 else if v = 62 then 45 else 95)"

definition b64_value :: "nat \<Rightarrow> nat option" where
  "b64_value c =
     (if 65 \<le> c \<and> c \<le> 90 then Some (c - 65)
      else if 97 \<le> c \<and> c \<le> 122 then Some (c - 71)
      else if 48 \<le> c \<and> c \<le> 57 then Some (c + 4)
      else if c = 45 \<or> c = 43 then Some 62
      else if c = 95 \<or> c = 47 then Some 63 else None)"

fun b64_encode :: "nat list \<Rightarrow> ustr" where
  "b64_encode [] = []"
| "b64_encode [a] = [b64_char (a div 4), b64_char (a mod 4 * 16), 61, 61]"
| "b64_encode [a, b] = [b64_char (a div 4), b64_char (a mod 4 * 16 + b div 16), b64_char (b mod 16 * 4), 61]"
| "b64_encode (a # b # c # s) =
     [b64_char (a div 4), b64_char (a mod 4 * 16 + b div 16), b64_char (b mod 16 * 4 + c div 64), b64_char (c mod 64)]
     @ b64_encode s"

text \<open>
  The scanner of \<^verbatim>\<open>binascii.a2b_base64\<close> in its lenient mode: position in the group of four, bits
  carried over, and the padding characters seen since the last data character.  None is
  \<^verbatim>\<open>binascii.Error\<close>.
\<close>

fun b64_scan :: "nat \<Rightarrow> nat \<Rightarrow> nat \<Rightarrow> ustr \<Rightarrow> nat list option" where
  "b64_scan pos left pads [] = (if pos = 0 then Some [] else None)"
| "b64_scan pos left pads (c # s) =
     (if c = 61 then
        (if 2 \<le> pos then (if 4 \<le> pos + Suc pads then Some [] else b64_scan pos left (Suc pads) s)
         else b64_scan pos left pads s)
      else case b64_value c of
        None \<Rightarrow> b64_scan pos left pads s
      | Some v \<Rightarrow>
          if pos = 0 then b64_scan 1 v 0 s
          else if pos = 1 then map_option (Cons (left * 4 + v div 16)) (b64_scan 2 (v mod 16) 0 s)
          else if pos = 2 then map_option (Cons (left * 16 + v div 4)) (b64_scan 3 (v mod 4) 0 s)
          else map_option (Cons (left * 64 + v)) (b64_scan 0 0 0 s))"

definition urlsafe_b64decode :: "ustr \<Rightarrow> nat list option" where
  "urlsafe_b64decode s = b64_scan 0 0 0 s"

lemma b64_value_char [simp]: "v < 64 \<Longrightarrow> b64_value (b64_char v) = Some v"
  by (auto simp: b64_value_def b64_char_def)

lemma b64_char_no_pad [simp]: "v < 64 \<Longrightarrow> b64_char v \<noteq> 61"
  by (auto simp: b64_char_def)

lemma b64_scan_char:
  "v < 64 \<Longrightarrow> b64_scan pos left pads (b64_char v # s) =
     (if pos = 0 then b64_scan 1 v 0 s
      else if pos = 1 then map_option (Cons (left * 4 + v div 16)) (b64_scan 2 (v mod 16) 0 s)
      else if pos = 2 then map_option (Cons (left * 16 + v div 4)) (b64_scan 3 (v mod 4) 0 s)
      else map_option (Cons (left * 64 + v)) (b64_scan 0 0 0 s))"
  by simp

declare b64_scan.simps(2) [simp del]

lemma b64_scan_pad: "b64_scan 2 l 0 (61 # 61 # s) = Some []" "b64_scan 3 l 0 (61 # s) = Some []"
  by (simp_all add: b64_scan.simps)

lemma sextets:
  assumes "a < 256" "b < 256" "c < (256 :: nat)"
  shows "a div 4 < 64" "a mod 4 * 16 < 64" "a mod 4 * 16 + b div 16 < 64" "b mod 16 * 4 < 64" "b mod 16 * 4 + c div 64 < 64" "c mod 64 < 64"
proof -
  have d: "b div 16 < 16" "c div 64 < 4" "a mod 4 < 4" "b mod 16 < 16" using assms by simp_all
  then show "a mod 4 * 16 < 64" "a mod 4 * 16 + b div 16 < 64" "b mod 16 * 4 < 64" "b mod 16 * 4 + c div 64 < 64"
    by linarith+
  show "a div 4 < 64" "c mod 64 < 64" using assms by simp_all
qed

lemma high_bits:
  "b < 256 \<Longrightarrow> b div 16 div 16 = 0" "b < 256 \<Longrightarrow> b div 16 mod 16 = b div 16"
  "b < 256 \<Longrightarrow> b div 64 div 4 = 0" "b < 256 \<Longrightarrow> b div 64 mod 4 = b div 64" for b :: nat
  by simp_all

lemma b64_round_trip: "list_all (\<lambda>b. b < 256) bs \<Longrightarrow> urlsafe_b64decode (b64_encode bs) = Some bs"
  unfolding urlsafe_b64decode_def
proof (induction bs rule: b64_encode.induct)
  case (2 a)
  then show ?case by (simp add: b64_scan_char b64_scan_pad sextets(1-6) [of a 0 0])
next
  case (3 a b)
  then show ?case by (simp add: b64_scan_char b64_scan_pad sextets(1-6) [of a b 0] high_bits)
next
  case (4 a b c s)
  then show ?case by (simp add: b64_scan_char sextets(1-6) [of a b c] high_bits)
qed simp

section \<open>JSON from bytes\<close>

text \<open>
  \<^verbatim>\<open>json.loads\<close> guesses the encoding of bytes.  Text without a byte order mark and without a zero
  among the first two bytes is UTF-8; \<open>other\<close> decodes the remaining cases (UTF-16, UTF-32 and the
  surrogates that \<^verbatim>\<open>surrogatepass\<close> lets through).
\<close>

definition looks_utf8 :: "nat list \<Rightarrow> bool" where
  "looks_utf8 bs \<longleftrightarrow>
     \<not> starts_with bs [239, 187, 191] \<and> \<not> starts_with bs [254, 255] \<and> \<not> starts_with bs [255, 254] \<and>
     (length bs = 2 \<or> 4 \<le> length bs \<longrightarrow> bs ! 0 \<noteq> 0 \<and> bs ! 1 \<noteq> 0)"

definition json_text :: "(nat list \<Rightarrow> ustr option) \<Rightarrow> nat list \<Rightarrow> ustr option" where
  "json_text other bs =
     (if looks_utf8 bs then (case utf8_dec bs of Some s \<Rightarrow> Some s | None \<Rightarrow> other bs) else other bs)"

datatype loads_error = Undecodable_text | Json_error jerr

definition loads_bytes :: "(nat list \<Rightarrow> ustr option) \<Rightarrow> nat \<Rightarrow> nat list \<Rightarrow> loads_error + json" where
  "loads_bytes other depth bs =
     (case json_text other bs of
        None \<Rightarrow> Inl Undecodable_text
      | Some s \<Rightarrow> map_sum Json_error id (loads depth s))"

lemma utf8_dec_ascii: "list_all (\<lambda>c. c < 128) s \<Longrightarrow> utf8_dec s = Some s"
  by (induction s) auto

definition ascii_text :: "ustr \<Rightarrow> bool" where
  "ascii_text s = list_all (\<lambda>c. 1 \<le> c \<and> c < 128) s"

lemma json_text_ascii:
  assumes "ascii_text s"
  shows "json_text other s = Some s"
proof -
  have c: "\<forall>c \<in> set s. 1 \<le> c \<and> c < 128" using assms by (simp add: ascii_text_def list_all_iff)
  have "looks_utf8 s"
    unfolding looks_utf8_def using c by (cases s; cases "tl s") (auto simp: starts_with_iff)
  moreover have "list_all (\<lambda>c. c < 128) s" using c by (auto simp: list_all_iff)
  ultimately show ?thesis by (simp add: json_text_def utf8_dec_ascii)
qed

section \<open>Cursors\<close>

record calendar =
  cal_isoformat :: "rat \<Rightarrow> ustr"
  cal_fromisoformat :: "ustr \<Rightarrow> rat option"

definition encode_cursor :: "calendar \<Rightarrow> stamp \<Rightarrow> ustr" where
  "encode_cursor cal k =
     b64_encode (dumps None 0 (JObj [(u ''o'', JStr (cal_isoformat cal (fst k))), (u ''i'', JInt (int (snd k)))]))"

text \<open>\<open>Rejected\<close> is the REQ-4003 envelope; \<open>Crashed\<close> is an exception the handler does not catch.\<close>

datatype cursor_result = Cursor "rat \<times> int" | Rejected | Crashed exn

text \<open>\<^verbatim>\<open>int(v)\<close>; \<open>num\<close> reads a string.  \<^verbatim>\<open>int(inf)\<close> raises \<^verbatim>\<open>OverflowError\<close>, which is no \<^verbatim>\<open>ValueError\<close>.\<close>

fun int_of_json :: "(ustr \<Rightarrow> int option) \<Rightarrow> json \<Rightarrow> cursor_result + int" where
  "int_of_json num (JInt i) = Inr i"
| "int_of_json num (JBool b) = Inr (if b then 1 else 0)"
| "int_of_json num (JDec m k) = Inr (if m < 0 then - (- m div 10 ^ k) else m div 10 ^ k)"
| "int_of_json num (JSpecial n) = Inl (if n = ''NaN'' then Rejected else Crashed OverflowError)"
| "int_of_json num (JStr s) = (case num s of None \<Rightarrow> Inl Rejected | Some i \<Rightarrow> Inr i)"
| "int_of_json num v = Inl (Crashed TypeError)"

definition decode_payload :: "(ustr \<Rightarrow> int option) \<Rightarrow> calendar \<Rightarrow> json \<Rightarrow> cursor_result" where
  "decode_payload num cal v =
     (case v of
        JObj d \<Rightarrow>
          (case map_of d (u ''o'') of
             None \<Rightarrow> Rejected
           | Some (JStr s) \<Rightarrow>
               (case cal_fromisoformat cal s of
                  None \<Rightarrow> Rejected
                | Some t \<Rightarrow>
                    (case map_of d (u ''i'') of
                       None \<Rightarrow> Rejected
                     | Some iv \<Rightarrow> (case int_of_json num iv of Inl r \<Rightarrow> r | Inr i \<Rightarrow> Cursor (t, i))))
           | Some _ \<Rightarrow> Crashed TypeError)
      | _ \<Rightarrow> Crashed TypeError)"

definition decode_cursor ::
  "(nat list \<Rightarrow> ustr option) \<Rightarrow> nat \<Rightarrow> (ustr \<Rightarrow> int option) \<Rightarrow> calendar \<Rightarrow> ustr \<Rightarrow> cursor_result" where
  "decode_cursor other depth num cal cursor =
     (if \<not> list_all (\<lambda>c. c < 128) cursor then Rejected
      else case urlsafe_b64decode cursor of
        None \<Rightarrow> Rejected
      | Some raw \<Rightarrow>
          (case loads_bytes other depth raw of
             Inl (Json_error RecursionError) \<Rightarrow> Crashed RuntimeError
           | Inl _ \<Rightarrow> Rejected
           | Inr v \<Rightarrow> decode_payload num cal v))"

definition iso_faithful :: "calendar \<Rightarrow> rat \<Rightarrow> bool" where
  "iso_faithful cal t \<longleftrightarrow>
     cal_fromisoformat cal (cal_isoformat cal t) = Some t \<and> list_all (\<lambda>c. 32 \<le> c \<and> c < 127) (cal_isoformat cal t)"

lemma b64_encode_ascii: "list_all (\<lambda>c. c < 128) (b64_encode bs)"
proof -
  have "b64_char v < 128" for v by (auto simp: b64_char_def)
  then show ?thesis by (induction bs rule: b64_encode.induct) auto
qed

lemma b64_decode_ascii: "ascii_text s \<Longrightarrow> urlsafe_b64decode (b64_encode s) = Some s"
  by (rule b64_round_trip) (auto simp: ascii_text_def list_all_iff)

lemma ascii_text_append [simp]: "ascii_text (s @ t) \<longleftrightarrow> ascii_text s \<and> ascii_text t"
  by (simp add: ascii_text_def)

lemma ascii_text_Cons [simp]: "ascii_text (c # s) \<longleftrightarrow> 1 \<le> c \<and> c < 128 \<and> ascii_text s"
  by (simp add: ascii_text_def)

lemma ascii_text_Nil [simp]: "ascii_text []"
  by (simp add: ascii_text_def)

lemma ascii_show_nat: "ascii_text (show_nat n)"
  using show_nat_digits [of n] by (auto simp: ascii_text_def list_all_iff is09_def)

lemma ascii_json_str: "list_all (\<lambda>c. 32 \<le> c \<and> c < 127) s \<Longrightarrow> ascii_text (json_str s)"
proof -
  have "ascii_text (json_char c)" if "32 \<le> c" "c < 127" for c using that by (simp add: json_char_def)
  then have "list_all (\<lambda>c. 32 \<le> c \<and> c < 127) s \<Longrightarrow> ascii_text (concat (map json_char s))"
    by (induction s) auto
  then show "list_all (\<lambda>c. 32 \<le> c \<and> c < 127) s \<Longrightarrow> ?thesis" by (simp add: json_str_def)
qed

lemma cursor_round_trip:
  assumes "iso_faithful cal (fst k)" "1 \<le> depth" "length (show_nat (snd k)) \<le> 4300"
  shows "decode_cursor other depth num cal (encode_cursor cal k) = Cursor (fst k, int (snd k))"
proof -
  let ?v = "JObj [(u ''o'', JStr (cal_isoformat cal (fst k))), (u ''i'', JInt (int (snd k)))]"
  have a: "ascii_text (dumps None 0 ?v)"
    using assms(1)
    by (simp add: wrap_def newline_def item_sep_def join_Cons str_int_def ascii_show_nat iso_faithful_def ascii_json_str)
      (simp add: u_def ascii_json_str)
  have "loads depth (dumps None 0 ?v) = Inr ?v"
    using assms(2,3) by (intro loads_dumps) simp_all
  then have "loads_bytes other depth (dumps None 0 ?v) = Inr ?v"
    unfolding loads_bytes_def json_text_ascii [OF a] by simp
  moreover have "urlsafe_b64decode (encode_cursor cal k) = Some (dumps None 0 ?v)"
    unfolding encode_cursor_def by (rule b64_decode_ascii [OF a])
  moreover have "list_all (\<lambda>c. c < 128) (encode_cursor cal k)"
    unfolding encode_cursor_def by (rule b64_encode_ascii)
  moreover have "decode_payload num cal ?v = Cursor (fst k, int (snd k))"
    using assms(1) by (simp add: decode_payload_def iso_faithful_def)
  ultimately show ?thesis unfolding decode_cursor_def by simp
qed

text \<open>
  Some cursors crash the listing.  A cursor that is the base64 of a JSON document other than an
  object, such as an array, a string, a number or null, is not refused with REQ-4003: the handler
  raises \<^verbatim>\<open>TypeError\<close>, which it does not catch.
\<close>

theorem non_object_cursor_crashes:
  assumes "json_wf v" "json_depth v \<le> depth" "\<nexists>d. v = JObj d" "ascii_text (dumps None 0 v)"
  shows "decode_cursor other depth num cal (b64_encode (dumps None 0 v)) = Crashed TypeError"
proof -
  have "loads_bytes other depth (dumps None 0 v) = Inr v"
    by (simp add: loads_bytes_def json_text_ascii [OF assms(4)] loads_dumps [OF assms(1,2)])
  moreover have "decode_payload num cal v = Crashed TypeError"
    using assms(3) by (auto simp: decode_payload_def split: json.splits)
  ultimately show ?thesis
    by (simp add: decode_cursor_def b64_encode_ascii b64_decode_ascii [OF assms(4)])
qed

definition demo_calendar :: calendar where
  "demo_calendar = \<lparr>cal_isoformat = (\<lambda>t. if t = 60 then u ''00:01:00'' else u ''00:00:00''),
     cal_fromisoformat = (\<lambda>s. if s = u ''00:01:00'' then Some 60 else if s = u ''00:00:00'' then Some 0 else None)\<rparr>"

theorem non_object_cursor_crashes_witness:
  "decode_cursor (\<lambda>_. None) 900 (\<lambda>_. None) demo_calendar (u ''W10='') = Crashed TypeError"
proof -
  have "b64_encode (dumps None 0 (JArr [])) = u ''W10=''"
    by (simp add: wrap_def b64_char_def u_def)
  moreover have "ascii_text (dumps None 0 (JArr []))" by (simp add: wrap_def)
  ultimately show ?thesis
    using non_object_cursor_crashes [of "JArr []" 900] by fastforce
qed

end
