(* ===== verification/Audit_Trail.thy ===== *)
theory Audit_Trail
  imports Detect Hmac_Auth Settings Cursor
begin

text \<open>
  The audit trail: the middleware that builds one row per request
  (\<^verbatim>\<open>app/security/audit_middleware.py\<close>, \<^verbatim>\<open>audit.py\<close>), the table with its append-only trigger and its
  retention sweep (\<^verbatim>\<open>app/db/crud.py\<close>, \<^verbatim>\<open>app/db/models.py\<close>), and the paginated admin listing
  (\<^verbatim>\<open>app/api/admin_audit.py\<close>).  The database accepts a row when its columns are wide enough and its
  texts can be stored; an insert that fails is swallowed, as in the code.
\<close>

section \<open>Rows and table\<close>

record audit_row =
  au_id :: nat
  au_occurred_at :: rat
  au_request_id :: ustr
  au_api_key_id :: "ustr option"
  au_source_ip :: ustr
  au_method :: ustr
  au_path :: ustr
  au_http_status :: nat
  au_response_code :: "ustr option"
  au_detected_entity_count :: nat
  au_detected_entity_types :: "ustr option"
  au_processing_ms :: int
  au_body_hash :: "ustr option"
  au_shadow_hit_types :: "ustr option"
  au_request_body_text :: "ustr option"
  au_response_body_text :: "ustr option"
  au_request_headers_text :: "ustr option"

record audit_table =
  tb_rows :: "audit_row list"
  tb_next_id :: nat

text \<open>Postgres stores neither NUL nor surrogates and refuses values longer than their column.\<close>

definition pg_text :: "ustr \<Rightarrow> bool" where
  "pg_text s \<longleftrightarrow> 0 \<notin> set s \<and> encodable s"

definition fits :: "nat \<Rightarrow> ustr \<Rightarrow> bool" where
  "fits n s \<longleftrightarrow> length s \<le> n \<and> pg_text s"

definition opt_ok :: "(ustr \<Rightarrow> bool) \<Rightarrow> ustr option \<Rightarrow> bool" where
  "opt_ok P x = (case x of None \<Rightarrow> True | Some s \<Rightarrow> P s)"

definition storable :: "audit_row \<Rightarrow> bool" where
  "storable r \<longleftrightarrow>
     fits 64 (au_request_id r) \<and> opt_ok (fits 64) (au_api_key_id r) \<and> fits 45 (au_source_ip r) \<and>
     fits 8 (au_method r) \<and> fits 256 (au_path r) \<and> au_http_status r < 2 ^ 31 \<and>
     opt_ok (fits 16) (au_response_code r) \<and> au_detected_entity_count r < 2 ^ 31 \<and>
     opt_ok pg_text (au_detected_entity_types r) \<and> \<bar>au_processing_ms r\<bar> < 2 ^ 31 \<and> opt_ok (fits 64) (au_body_hash r) \<and>
     opt_ok pg_text (au_shadow_hit_types r) \<and> opt_ok pg_text (au_request_body_text r) \<and>
     opt_ok pg_text (au_response_body_text r) \<and> opt_ok pg_text (au_request_headers_text r)"

text \<open>The id comes from the sequence and the time from the server.\<close>

definition insert_audit_event :: "rat \<Rightarrow> audit_row \<Rightarrow> audit_table \<Rightarrow> exn + audit_table" where
  "insert_audit_event now row t =
     (if storable row then
        Inr \<lparr>tb_rows = tb_rows t @ [row\<lparr>au_id := tb_next_id t, au_occurred_at := now\<rparr>], tb_next_id = Suc (tb_next_id t)\<rparr>
      else Inl RuntimeError)"

definition record_request :: "bool \<Rightarrow> rat \<Rightarrow> audit_row \<Rightarrow> audit_table \<Rightarrow> audit_table" where
  "record_request db now row t =
     (if db then (case insert_audit_event now row t of Inl e \<Rightarrow> t | Inr t' \<Rightarrow> t') else t)"

text \<open>
  The trigger: a statement that would change or delete a row fails unless the session has set the
  bypass; a statement that matches no row fires no row trigger.
\<close>

definition delete_rows :: "bool \<Rightarrow> (audit_row \<Rightarrow> bool) \<Rightarrow> audit_table \<Rightarrow> exn + audit_table" where
  "delete_rows bypass P t =
     (if bypass then Inr (t\<lparr>tb_rows := filter (\<lambda>r. \<not> P r) (tb_rows t)\<rparr>)
      else if list_ex P (tb_rows t) then Inl RuntimeError else Inr t)"

definition update_rows :: "bool \<Rightarrow> (audit_row \<Rightarrow> bool) \<Rightarrow> (audit_row \<Rightarrow> audit_row) \<Rightarrow> audit_table \<Rightarrow> exn + audit_table" where
  "update_rows bypass P g t =
     (if bypass then Inr (t\<lparr>tb_rows := map (\<lambda>r. if P r then g r else r) (tb_rows t)\<rparr>)
      else if list_ex P (tb_rows t) then Inl RuntimeError else Inr t)"

definition cleanup_expired_audit_events :: "rat \<Rightarrow> int \<Rightarrow> audit_table \<Rightarrow> (exn + nat) \<times> audit_table" where
  "cleanup_expired_audit_events now retention_days t =
     (let cutoff = now - of_int (retention_days * 86400); expired = (\<lambda>r. au_occurred_at r < cutoff) in
      case delete_rows True expired t of
        Inl e \<Rightarrow> (Inl e, t)
      | Inr t' \<Rightarrow> (Inr (length (filter expired (tb_rows t))), t'))"

section \<open>Listing\<close>

record audit_query =
  aq_since :: "rat option"
  aq_until :: "rat option"
  aq_request_id :: "ustr option"
  aq_api_key_id :: "ustr option"
  aq_response_code :: "ustr option"

definition audit_key :: "audit_row \<Rightarrow> stamp" where
  "audit_key r = (au_occurred_at r, au_id r)"

definition audit_selects :: "audit_query \<Rightarrow> audit_row \<Rightarrow> bool" where
  "audit_selects q r \<longleftrightarrow>
     (case aq_since q of None \<Rightarrow> True | Some s \<Rightarrow> s \<le> au_occurred_at r) \<and>
     (case aq_until q of None \<Rightarrow> True | Some s \<Rightarrow> au_occurred_at r \<le> s) \<and>
     (aq_request_id q = None \<or> aq_request_id q = Some (au_request_id r)) \<and>
     (aq_api_key_id q = None \<or> aq_api_key_id q = au_api_key_id r) \<and>
     (aq_response_code q = None \<or> aq_response_code q = au_response_code r)"

definition list_audit_events :: "audit_query \<Rightarrow> stamp option \<Rightarrow> int \<Rightarrow> audit_row list \<Rightarrow> audit_row list" where
  "list_audit_events q c limit rows =
     take (page_size limit) (newest_first audit_key (filter (\<lambda>r. before c (audit_key r)) (filter (audit_selects q) rows)))"

record audit_event_out =
  ao_occurred_at :: rat
  ao_request_id :: ustr
  ao_api_key_id :: "ustr option"
  ao_source_ip :: ustr
  ao_method :: ustr
  ao_path :: ustr
  ao_http_status :: nat
  ao_response_code :: "ustr option"
  ao_detected_entity_count :: nat
  ao_detected_entity_types :: "ustr option"
  ao_processing_ms :: int
  ao_body_hash :: "ustr option"

definition event_out :: "audit_row \<Rightarrow> audit_event_out" where
  "event_out r = \<lparr>ao_occurred_at = au_occurred_at r, ao_request_id = au_request_id r, ao_api_key_id = au_api_key_id r,
     ao_source_ip = au_source_ip r, ao_method = au_method r, ao_path = au_path r, ao_http_status = au_http_status r,
     ao_response_code = au_response_code r, ao_detected_entity_count = au_detected_entity_count r,
     ao_detected_entity_types = au_detected_entity_types r, ao_processing_ms = au_processing_ms r, ao_body_hash = au_body_hash r\<rparr>"

text \<open>Reading cursors: how other encodings decode, the recursion limit, \<^verbatim>\<open>int\<close> of a string, the calendar.\<close>

record cursor_env =
  cv_other :: "nat list \<Rightarrow> ustr option"
  cv_depth :: nat
  cv_int :: "ustr \<Rightarrow> int option"
  cv_calendar :: calendar

datatype listing = Events "audit_event_out list" "ustr option" | Invalid_cursor | Listing_crash exn

text \<open>
  The endpoint after \<^verbatim>\<open>require_admin\<close> and the range check of \<open>limit\<close>.  A negative id in a cursor selects
  only strictly earlier times, as zero does.
\<close>

definition list_events :: "cursor_env \<Rightarrow> rat \<Rightarrow> audit_query \<Rightarrow> nat \<Rightarrow> ustr option \<Rightarrow> audit_row list \<Rightarrow> listing" where
  "list_events ce now q limit cursor rows =
     (let q' = q\<lparr>aq_since := Some (case aq_since q of Some s \<Rightarrow> s | None \<Rightarrow> now - 86400),
                 aq_until := Some (case aq_until q of Some s \<Rightarrow> s | None \<Rightarrow> now)\<rparr>;
          run = (\<lambda>c. let page = list_audit_events q' c (int limit) rows in
             Events (map event_out page)
               (if length page = limit \<and> page \<noteq> [] then Some (encode_cursor (cv_calendar ce) (audit_key (last page))) else None))
      in case cursor of
           None \<Rightarrow> run None
         | Some s \<Rightarrow>
             if s = [] then run None
             else (case decode_cursor (cv_other ce) (cv_depth ce) (cv_int ce) (cv_calendar ce) s of
                     Cursor (t, i) \<Rightarrow> run (Some (t, nat i))
                   | Rejected \<Rightarrow> Invalid_cursor
                   | Crashed e \<Rightarrow> Listing_crash e))"

section \<open>The middleware\<close>

definition BODY_LIMIT :: nat where "BODY_LIMIT = 16 * 1024"

definition MASKED_HEADERS :: "ustr list" where
  "MASKED_HEADERS = [u ''authorization'', u ''cookie'', u ''x-signature'', u ''x-api-key'', u ''x-nonce'']"

definition SKIP_PATHS :: "ustr list" where
  "SKIP_PATHS = [u ''/healthz'', u ''/v1/healthz'']"

definition capture_body :: "bytes \<Rightarrow> ustr option" where
  "capture_body raw =
     (if raw = [] then None
      else Some (case utf8_decode (take BODY_LIMIT raw) of
          None \<Rightarrow> u ''<binary '' @ show_nat (length raw) @ u ''B>''
        | Some txt \<Rightarrow>
            if length raw > BODY_LIMIT
            then txt @ [10] @ u ''... [TRUNCATED, total '' @ show_nat (length raw) @ u ''B]'' else txt))"

definition mask_header :: "ustr \<times> ustr \<Rightarrow> ustr \<times> ustr" where
  "mask_header h = (fst h, if lower (fst h) \<in> set MASKED_HEADERS then u ''***'' else snd h)"

definition capture_headers :: "(ustr \<times> ustr) list \<Rightarrow> ustr option" where
  "capture_headers hs =
     Some (dumps None 0 (JObj (map (\<lambda>(k, v). (k, JStr v)) (dict_of (map mask_header hs)))))"

definition metric_path :: "ustr \<Rightarrow> ustr" where
  "metric_path p =
     (if starts_with p (u ''/v1/jobs/'') then u ''/v1/jobs/{job_id}''
      else if starts_with p (u ''/v1/masked-artifacts/'') then u ''/v1/masked-artifacts/{token}'' else p)"

text \<open>Only \<^verbatim>\<open>ValueError\<close> is caught; \<^verbatim>\<open>RecursionError\<close> leaves the function.\<close>

definition extract_request_id :: "cursor_env \<Rightarrow> bytes \<Rightarrow> exn + ustr option" where
  "extract_request_id ce body =
     (if body = [] \<or> length body > 1000000 then Inr None
      else case loads_bytes (cv_other ce) (cv_depth ce) (map unat body) of
        Inl (Json_error RecursionError) \<Rightarrow> Inl RuntimeError
      | Inl _ \<Rightarrow> Inr None
      | Inr (JObj d) \<Rightarrow> (case map_of d (u ''request_id'') of Some (JStr s) \<Rightarrow> Inr (Some s) | _ \<Rightarrow> Inr None)
      | Inr _ \<Rightarrow> Inr None)"

record raw_response =
  ro_status :: nat
  ro_headers :: "(ustr \<times> ustr) list"
  ro_body :: bytes

datatype outcome = Responded raw_response | Raised exn

text \<open>What the endpoint did: its outcome, the metadata and the caller it left on the request.\<close>

record handled =
  ha_outcome :: outcome
  ha_payload :: "audit_payload option"
  ha_caller :: "ustr option"

record audit_env =
  ae_cursor :: cursor_env
  ae_trust_forwarded :: bool
  ae_limits :: recursion_limits
  ae_settings :: settings_file
  ae_db :: bool
  ae_now :: rat
  ae_ms :: int

definition rewrap :: "raw_response \<Rightarrow> raw_response" where
  "rewrap r = r\<lparr>ro_headers := dict_of (filter (\<lambda>(k, v). lower k \<noteq> u ''content-length'') (ro_headers r))\<rparr>"

definition detail_enabled :: "audit_env \<Rightarrow> bool" where
  "detail_enabled env =
     (case get_setting (ae_limits env) (ae_settings env) AUDIT_DETAIL of None \<Rightarrow> False | Some v \<Rightarrow> truthy_json v)"

definition audit_row_for :: "audit_env \<Rightarrow> http_request \<Rightarrow> bytes \<Rightarrow> ustr option \<Rightarrow> handled \<Rightarrow> audit_row" where
  "audit_row_for env rq body rid h =
     (let detail = detail_enabled env; p = ha_payload h in
      \<lparr>au_id = 0, au_occurred_at = 0,
       au_request_id = (case rid of None \<Rightarrow> [] | Some s \<Rightarrow> s),
       au_api_key_id = ha_caller h,
       au_source_ip = client_ip (ae_trust_forwarded env) rq,
       au_method = rq_method rq, au_path = rq_path rq,
       au_http_status = (case ha_outcome h of Responded r \<Rightarrow> ro_status r | Raised e \<Rightarrow> 0),
       au_response_code = map_option (\<lambda>x. u (ap_response_code x)) p,
       au_detected_entity_count = (case p of None \<Rightarrow> 0 | Some x \<Rightarrow> ap_detected_entity_count x),
       au_detected_entity_types = (case p of None \<Rightarrow> None | Some x \<Rightarrow> map_option u (ap_detected_entity_types x)),
       au_processing_ms = ae_ms env,
       au_body_hash = (if body = [] then None else Some (hexdigest (sha256 body))),
       au_shadow_hit_types = (case p of None \<Rightarrow> None | Some x \<Rightarrow> map_option u (ap_shadow_hit_types x)),
       au_request_body_text = (if detail then capture_body body else None),
       au_response_body_text = (if detail then (case ha_outcome h of Responded r \<Rightarrow> capture_body (ro_body r) | Raised e \<Rightarrow> None) else None),
       au_request_headers_text = (if detail then capture_headers (rq_headers rq) else None)\<rparr>)"

definition metric_code :: "handled \<Rightarrow> ustr" where
  "metric_code h =
     (case ha_payload h of
        Some x \<Rightarrow> if ap_response_code x \<noteq> [] then u (ap_response_code x)
                  else (case ha_outcome h of Responded r \<Rightarrow> u ''http_'' @ show_nat (ro_status r) | Raised e \<Rightarrow> u ''http_0'')
      | None \<Rightarrow> (case ha_outcome h of Responded r \<Rightarrow> u ''http_'' @ show_nat (ro_status r) | Raised e \<Rightarrow> u ''http_0''))"

text \<open>\<open>readable\<close> says whether reading the body succeeded; \<open>h\<close> is what the inner application does.\<close>

definition audit_dispatch ::
  "audit_env \<Rightarrow> http_request \<Rightarrow> bool \<Rightarrow> handled \<Rightarrow> audit_table \<Rightarrow> outcome \<times> audit_table \<times> (ustr \<times> ustr \<times> ustr) list" where
  "audit_dispatch env rq readable h t =
     (if rq_path rq \<in> set SKIP_PATHS then (ha_outcome h, t, [])
      else let body = (if readable then rq_body rq else []) in
        case extract_request_id (ae_cursor env) body of
          Inl e \<Rightarrow> (Raised e, t, [])
        | Inr rid \<Rightarrow>
            (case ha_outcome h of
               Responded r \<Rightarrow> Responded (if detail_enabled env then rewrap r else r)
             | Raised e \<Rightarrow> Raised e,
             record_request (ae_db env) (ae_now env) (audit_row_for env rq body rid h) t,
             [(rq_method rq, metric_path (rq_path rq), metric_code h)]))"

section \<open>Pages\<close>

lemma newest_first_filter: "newest_first key (filter P rows) = filter P (newest_first key rows)"
  by (simp add: newest_first_def filter_sort flip: rev_filter)

interpretation audit_pages: keyset audit_key audit_selects list_audit_events
proof
  show "list_audit_events q c limit rows =
     take (page_size limit) (filter (\<lambda>r. audit_selects q r \<and> before c (audit_key r)) (newest_first audit_key rows))" for q c limit rows
    by (simp add: list_audit_events_def newest_first_filter conj_commute)
qed

text \<open>
  A client that asks for pages until no cursor comes back, at most so many times; None means that it
  gave up or was refused.  The clock and the table may advance between the calls.
\<close>

fun drain ::
  "cursor_env \<Rightarrow> (nat \<Rightarrow> rat) \<Rightarrow> audit_query \<Rightarrow> nat \<Rightarrow> nat \<Rightarrow> ustr option \<Rightarrow> (nat \<Rightarrow> audit_row list) \<Rightarrow> audit_event_out list option" where
  "drain ce clock q limit 0 cursor tables = None"
| "drain ce clock q limit (Suc n) cursor tables =
     (case list_events ce (clock n) q limit cursor (tables n) of
        Events es None \<Rightarrow> Some es
      | Events es (Some c) \<Rightarrow> map_option ((@) es) (drain ce clock q limit n (Some c) tables)
      | _ \<Rightarrow> None)"

definition cursors_ok :: "cursor_env \<Rightarrow> audit_row list \<Rightarrow> bool" where
  "cursors_ok ce rows \<longleftrightarrow> 1 \<le> cv_depth ce \<and>
     list_all (\<lambda>r. iso_faithful (cv_calendar ce) (au_occurred_at r) \<and> length (show_nat (au_id r)) \<le> 4300) rows"

lemma encode_cursor_ne: "encode_cursor cal k \<noteq> []"
proof -
  have "b64_encode (x # xs) \<noteq> []" for x xs by (induction "x # xs" rule: b64_encode.induct) auto
  then show ?thesis by (simp add: encode_cursor_def wrap_def)
qed

lemma list_events_page:
  assumes "aq_since q = Some a" "aq_until q = Some b"
    and "cursor = map_option (encode_cursor (cv_calendar ce)) c"
    and "\<forall>k. c = Some k \<longrightarrow> iso_faithful (cv_calendar ce) (fst k) \<and> length (show_nat (snd k)) \<le> 4300" "1 \<le> cv_depth ce"
  shows "list_events ce now q limit cursor rows =
     (let page = list_audit_events q c (int limit) rows in
      Events (map event_out page)
        (if length page = limit \<and> page \<noteq> [] then Some (encode_cursor (cv_calendar ce) (audit_key (last page))) else None))"
proof -
  have "q\<lparr>aq_since := Some (case aq_since q of Some s \<Rightarrow> s | None \<Rightarrow> now - 86400),
                 aq_until := Some (case aq_until q of Some s \<Rightarrow> s | None \<Rightarrow> now)\<rparr> = q"
    using assms(1,2) by simp
  then show ?thesis
    using assms(3-5) cursor_round_trip [of "cv_calendar ce" _ "cv_depth ce" "cv_other ce" "cv_int ce"] encode_cursor_ne
    by (cases c) (simp_all add: list_events_def Let_def)
qed

text \<open>Rows recorded after the end of the interval do not change a page of it.\<close>

lemma later_events_unselected:
  assumes "aq_until q = Some b" "list_all (\<lambda>r. b < au_occurred_at r) new"
  shows "list_audit_events q c limit (rows @ new) = list_audit_events q c limit rows"
proof -
  have "filter (audit_selects q) new = []"
    using assms by (auto simp: filter_empty_conv list_all_iff audit_selects_def)
  then show ?thesis by (simp add: list_audit_events_def)
qed

lemma drain_rest:
  assumes d: "distinct (map audit_key rows)" and n: "1 \<le> limit" "limit \<le> 500"
    and q: "aq_since q = Some a" "aq_until q = Some b" and ok: "cursors_ok ce rows"
    and t: "\<And>n. \<exists>new. tables n = rows @ new \<and> list_all (\<lambda>r. b < au_occurred_at r) new"
  shows "filter (audit_selects q) (newest_first audit_key rows) = xs @ ys \<Longrightarrow> length ys < fuel \<Longrightarrow>
     c = (if xs = [] then None else Some (audit_key (last xs))) \<Longrightarrow>
     drain ce clock q limit fuel (map_option (encode_cursor (cv_calendar ce)) c) tables = Some (map event_out ys)"
proof (induction fuel arbitrary: xs ys c)
  case (Suc fuel)
  have "\<forall>r \<in> set xs. r \<in> set rows"
    using arg_cong [OF Suc.prems(1), of set] by auto
  then have "\<forall>k. c = Some k \<longrightarrow> iso_faithful (cv_calendar ce) (fst k) \<and> length (show_nat (snd k)) \<le> 4300"
    using Suc.prems(3) ok by (auto simp: cursors_ok_def list_all_iff audit_key_def)
  moreover have "1 \<le> cv_depth ce" using ok by (simp add: cursors_ok_def)
  moreover have "list_audit_events q c (int limit) (tables fuel) = take limit ys"
    using t [of fuel] later_events_unselected [OF q(2)] audit_pages.listing_rest [OF d Suc.prems(1) n Suc.prems(3)] by auto
  ultimately have pg: "list_events ce (clock fuel) q limit (map_option (encode_cursor (cv_calendar ce)) c) (tables fuel) =
      (let page = take limit ys in Events (map event_out page)
        (if length page = limit \<and> page \<noteq> [] then Some (encode_cursor (cv_calendar ce) (audit_key (last page))) else None))"
    using list_events_page [OF q refl, of c ce "clock fuel" limit "tables fuel"] by simp
  show ?case
  proof (cases "length (take limit ys) = limit \<and> take limit ys \<noteq> []")
    case True
    have "drain ce clock q limit fuel (map_option (encode_cursor (cv_calendar ce)) (Some (audit_key (last (take limit ys))))) tables =
        Some (map event_out (drop limit ys))"
      using True Suc.prems n(1) by (intro Suc.IH [of "xs @ take limit ys"]) (auto simp: last_append)
    with True show ?thesis by (simp add: pg Let_def flip: map_append)
  next
    case False
    then have "take limit ys = ys" using n(1) by (cases "length ys < limit") (auto simp: min_def split: if_splits)
    with False show ?thesis by (auto simp: pg Let_def)
  qed
qed simp

text \<open>
  C29: the pages are the log.  A client that gives the interval explicitly and follows the cursors of
  the audit listing, with any page size the endpoint admits, is told after finitely many pages (at
  most one more than there are rows) that there is no further one, and has then received every row of
  the interval that matches its filters exactly once, newest first.  Rows recorded meanwhile, such as
  those of its own calls, may be added to the table as long as they lie after the end of the interval.
\<close>

theorem audit_pages_complete:
  assumes "distinct (map audit_key rows)" "1 \<le> limit" "limit \<le> 500"
    and "aq_since q = Some a" "aq_until q = Some b" "cursors_ok ce rows"
    and "\<And>n. \<exists>new. tables n = rows @ new \<and> list_all (\<lambda>r. b < au_occurred_at r) new"
  shows "drain ce clock q limit (Suc (length rows)) None tables =
     Some (map event_out (filter (audit_selects q) (newest_first audit_key rows)))"
proof -
  have "length (filter (audit_selects q) (newest_first audit_key rows)) \<le> length (newest_first audit_key rows)"
    by (rule length_filter_le)
  then have "length (filter (audit_selects q) (newest_first audit_key rows)) < Suc (length rows)"
    by (simp add: newest_first_def)
  then show ?thesis using drain_rest [OF assms, where xs = "[]" and c = None] by (simp del: drain.simps)
qed

section \<open>The table only grows\<close>

datatype audit_op =
    Insert rat audit_row
  | Sweep rat int
  | Delete_without_bypass "audit_row \<Rightarrow> bool"
  | Update_without_bypass "audit_row \<Rightarrow> bool" "audit_row \<Rightarrow> audit_row"

definition keep_on_error :: "audit_table \<Rightarrow> exn + audit_table \<Rightarrow> audit_table" where
  "keep_on_error t r = (case r of Inl e \<Rightarrow> t | Inr t' \<Rightarrow> t')"

fun audit_step :: "audit_table \<Rightarrow> audit_op \<Rightarrow> audit_table" where
  "audit_step t (Insert now row) = keep_on_error t (insert_audit_event now row t)"
| "audit_step t (Sweep now days) = snd (cleanup_expired_audit_events now days t)"
| "audit_step t (Delete_without_bypass P) = keep_on_error t (delete_rows False P t)"
| "audit_step t (Update_without_bypass P g) = keep_on_error t (update_rows False P g t)"

definition table_ok :: "audit_table \<Rightarrow> bool" where
  "table_ok t \<longleftrightarrow> distinct (map au_id (tb_rows t)) \<and> list_all (\<lambda>r. au_id r < tb_next_id t) (tb_rows t)"

lemma audit_step_ok: "table_ok t \<Longrightarrow> table_ok (audit_step t op)"
  by (cases op)
    (auto simp: table_ok_def keep_on_error_def insert_audit_event_def cleanup_expired_audit_events_def delete_rows_def
      update_rows_def Let_def list_all_iff distinct_map_filter less_Suc_eq split: sum.splits if_splits)

definition spares :: "rat \<Rightarrow> audit_op \<Rightarrow> bool" where
  "spares t op = (case op of Sweep now days \<Rightarrow> now - of_int (days * 86400) \<le> t | _ \<Rightarrow> True)"

lemma audit_step_keeps: "r \<in> set (tb_rows t) \<Longrightarrow> spares (au_occurred_at r) op \<Longrightarrow> r \<in> set (tb_rows (audit_step t op))"
  by (cases op)
    (auto simp: keep_on_error_def insert_audit_event_def cleanup_expired_audit_events_def delete_rows_def update_rows_def
      spares_def Let_def split: sum.splits if_splits)

lemma audit_steps_keep:
  "r \<in> set (tb_rows t) \<Longrightarrow> list_all (spares (au_occurred_at r)) ops \<Longrightarrow> r \<in> set (tb_rows (foldl audit_step t ops))"
  by (induction ops arbitrary: t) (auto simp: audit_step_keeps)

lemma audit_steps_ok: "table_ok t \<Longrightarrow> table_ok (foldl audit_step t ops)"
  by (induction ops arbitrary: t) (auto simp: audit_step_ok)

text \<open>
  C28: the trail is append-only.  Whatever inserts, sweeps, and attempts to change or delete rows
  without the bypass happen, in any order, a recorded row stays in the table unchanged until a
  retention sweep whose cutoff lies after its time, and the ids stay unique.
\<close>

theorem audit_append_only:
  assumes "table_ok t" "r \<in> set (tb_rows t)" "list_all (spares (au_occurred_at r)) ops"
  shows "r \<in> set (tb_rows (foldl audit_step t ops)) \<and> table_ok (foldl audit_step t ops)"
  using audit_steps_keep [OF assms(2,3)] audit_steps_ok [OF assms(1)] by blast

section \<open>One row per request\<close>

lemma record_request_cases:
  "record_request db now row t =
     (if db \<and> storable row
      then \<lparr>tb_rows = tb_rows t @ [row\<lparr>au_id := tb_next_id t, au_occurred_at := now\<rparr>], tb_next_id = Suc (tb_next_id t)\<rparr> else t)"
  by (simp add: record_request_def insert_audit_event_def)





section \<open>What the row holds\<close>

lemma fold_put_keys: "fst ` set (fold (\<lambda>(k, v) m. put k v m) xs a) = fst ` set xs \<union> fst ` set a"
proof (induction xs arbitrary: a)
  case (Cons x xs)
  obtain k v where "x = (k, v)" by (cases x)
  then show ?case by (simp only: fold_simps o_apply case_prod_conv Cons put_keys set_simps image_insert fst_conv) blast
qed simp

lemma fold_put_subset: "set (fold (\<lambda>(k, v) m. put k v m) xs a) \<subseteq> set xs \<union> set a"
proof (induction xs arbitrary: a)
  case (Cons x xs)
  have "set (put k v a) \<subseteq> insert (k, v) (set a)" for k v by (induction a) (auto split: if_splits)
  with Cons [of "put (fst x) (snd x) a"] show ?case by (cases x) force
qed simp

lemma dict_of_keys: "fst ` set (dict_of kvs) = fst ` set kvs"
  using fold_put_keys [of kvs "[]"] by (simp add: dict_of_def)

lemma dict_of_subset: "set (dict_of kvs) \<subseteq> set kvs"
  using fold_put_subset [of kvs "[]"] by (simp add: dict_of_def)

text \<open>
  Credentials in headers are masked.  The header text of a row is a JSON object with the header
  names of the request, in which every value of the masked headers (authorization, cookie,
  signature, key and nonce) is three stars.
\<close>

theorem captured_headers_masked:
  "\<exists>kvs. loads (Suc d) (the (capture_headers hs)) = Inr (JObj kvs) \<and> set (map fst kvs) = set (map fst hs) \<and>
     list_all (\<lambda>(k, v). v = JStr (u ''***'')) (filter (\<lambda>(k, v). lower k \<in> set MASKED_HEADERS) kvs)"
proof -
  define m where "m = dict_of (map mask_header hs)"
  let ?kvs = "map (\<lambda>(k, v). (k, JStr v)) m"
  have fst_m: "fst ` set m = fst ` set hs"
    unfolding m_def dict_of_keys by (simp add: mask_header_def image_image)
  have sub: "set m \<subseteq> mask_header ` set hs"
    using dict_of_subset [of "map mask_header hs"] by (simp add: m_def)
  have "distinct (map fst m)"
    using dict_of_props [of "\<lambda>_. True" "map mask_header hs"] by (simp add: m_def list_all_iff split_beta)
  then have "distinct (map fst ?kvs)" by (simp add: comp_def split_beta)
  then have "loads (Suc d) (dumps None 0 (JObj ?kvs)) = Inr (JObj ?kvs)"
    by (intro loads_dumps) (auto simp: list_all_iff foldr_max_le)
  moreover have "set (map fst ?kvs) = set (map fst hs)" using fst_m by (simp add: image_image split_beta)
  moreover have "list_all (\<lambda>(k, v). v = JStr (u ''***'')) (filter (\<lambda>(k, v). lower k \<in> set MASKED_HEADERS) ?kvs)"
    using sub by (auto simp: list_all_iff mask_header_def)
  moreover have "the (capture_headers hs) = dumps None 0 (JObj ?kvs)" by (simp add: capture_headers_def m_def)
  ultimately show ?thesis by (intro exI [of _ ?kvs] conjI) (simp_all only:)
qed

text \<open>
  By default the row holds the body in plain text.  With no settings file, the row of a request
  stores the whole body, up to 16 KiB, as readable text, whatever personal data or credentials it
  carries.
\<close>

theorem default_audit_stores_body:
  assumes "ae_settings env = Missing" "rq_path rq \<notin> set SKIP_PATHS" "extract_request_id (ae_cursor env) (rq_body rq) = Inr rid"
    and "ae_db env" "storable (audit_row_for env rq (rq_body rq) rid h)"
    and "rq_body rq \<noteq> []" "length (rq_body rq) \<le> BODY_LIMIT" "utf8_decode (rq_body rq) = Some txt"
  shows "au_request_body_text (last (tb_rows (fst (snd (audit_dispatch env rq True h t))))) = Some txt"
proof -
  have "detail_enabled env"
    using assms(1) by (simp add: detail_enabled_def get_setting_def get_settings_dict_def DEFAULTS_def)
  then have "au_request_body_text (audit_row_for env rq (rq_body rq) rid h) = Some txt"
    using assms(6-8) by (simp add: audit_row_for_def Let_def capture_body_def)
  with assms(2-5) show ?thesis by (simp add: audit_dispatch_def Let_def record_request_cases)
qed

lemma nested_brackets: "d < n \<Longrightarrow> parse_value d (replicate n 91) = Inl RecursionError"
proof (induction d arbitrary: n)
  case 0
  then show ?case by (cases n) (simp_all add: starts_with_iff)
next
  case (Suc d)
  then obtain n' where n: "n = Suc n'" "d < n'" by (cases n) auto
  then obtain n'' where n'': "n' = Suc n''" by (cases n') auto
  have "skip_ws (replicate n' 91) = replicate n' 91" using n'' by (simp add: skip_ws_def is_ws_def)
  then show ?case
    using Suc.IH [OF n(2)] n'' by (simp add: n(1) starts_with_iff Let_def)
qed

text \<open>
  A deeply nested body is answered with a server error and leaves no row.  A body of more opening
  brackets than the JSON scanner may nest makes the middleware itself raise before the endpoint
  runs, so not even a rejection is recorded.
\<close>

theorem bracket_bomb_unaudited:
  assumes "rq_path rq \<notin> set SKIP_PATHS" "rq_body rq = replicate n 91" "cv_depth (ae_cursor env) < n" "n \<le> 1000000"
  shows "audit_dispatch env rq True h t = (Raised RuntimeError, t, [])"
proof -
  have a: "ascii_text (replicate n 91)" by (auto simp: ascii_text_def list_all_iff)
  have "skip_ws (replicate n 91) = replicate n 91" by (cases n) (simp_all add: skip_ws_def is_ws_def)
  then have "loads (cv_depth (ae_cursor env)) (replicate n 91) = Inl RecursionError"
    using nested_brackets [OF assms(3)] by (cases n) (simp_all add: loads_def starts_with_iff)
  then have "loads_bytes (cv_other (ae_cursor env)) (cv_depth (ae_cursor env)) (map unat (rq_body rq)) = Inl (Json_error RecursionError)"
    by (simp add: assms(2) loads_bytes_def json_text_ascii [OF a])
  moreover have "rq_body rq \<noteq> []" "length (rq_body rq) \<le> 1000000" using assms(2-4) by auto
  ultimately show ?thesis using assms(1) by (simp add: audit_dispatch_def extract_request_id_def)
qed

section \<open>Concrete requests\<close>

definition demo_cursor_env :: cursor_env where
  "demo_cursor_env = \<lparr>cv_other = (\<lambda>_. None), cv_depth = 900, cv_int = (\<lambda>_. None), cv_calendar = demo_calendar\<rparr>"

definition demo_audit_row :: "nat \<Rightarrow> rat \<Rightarrow> audit_row" where
  "demo_audit_row i t = \<lparr>au_id = i, au_occurred_at = t, au_request_id = [], au_api_key_id = None, au_source_ip = u ''192.0.2.1'',
     au_method = u ''GET'', au_path = u ''/v1/jobs/1'', au_http_status = 200, au_response_code = None, au_detected_entity_count = 0,
     au_detected_entity_types = None, au_processing_ms = 3, au_body_hash = None, au_shadow_hit_types = None,
     au_request_body_text = None, au_response_body_text = None, au_request_headers_text = None\<rparr>"

definition demo_query :: audit_query where
  "demo_query = \<lparr>aq_since = Some 0, aq_until = Some 100, aq_request_id = None, aq_api_key_id = None, aq_response_code = None\<rparr>"

definition demo_audit_env :: audit_env where
  "demo_audit_env = \<lparr>ae_cursor = demo_cursor_env, ae_trust_forwarded = False, ae_limits = \<lparr>load_depth = 900, dump_depth = 300\<rparr>,
     ae_settings = Missing, ae_db = True, ae_now = 60, ae_ms = 3\<rparr>"

definition demo_login :: http_request where
  "demo_login = \<lparr>rq_method = u ''POST'', rq_path = u ''/admin/login'', rq_body = utf8_encode (u ''password=x''), rq_headers = [],
     rq_client = Some (u ''192.0.2.1'')\<rparr>"

definition demo_handled :: handled where
  "demo_handled = \<lparr>ha_outcome = Responded \<lparr>ro_status = 303, ro_headers = [], ro_body = []\<rparr>, ha_payload = None, ha_caller = None\<rparr>"

definition demo_table :: audit_table where
  "demo_table = \<lparr>tb_rows = [demo_audit_row 1 0, demo_audit_row 2 60], tb_next_id = 3\<rparr>"

lemma unat_utf8_ascii: "list_all (\<lambda>c. c < 128) s \<Longrightarrow> map unat (utf8_encode s) = s"
  by (induction s) (simp_all add: utf8_encode_def utf8_char_def unat_of_nat)

lemma demo_login_text: "map unat (rq_body demo_login) = u ''password=x''" "utf8_decode (rq_body demo_login) = Some (u ''password=x'')"
proof -
  show m: "map unat (rq_body demo_login) = u ''password=x''"
    unfolding demo_login_def by (simp add: u_def unat_utf8_ascii)
  show "utf8_decode (rq_body demo_login) = Some (u ''password=x'')"
    unfolding utf8_decode_def m by (rule utf8_dec_ascii) (simp add: u_def)
qed

lemma demo_login_length: "length (rq_body demo_login) = 10" "rq_body demo_login \<noteq> []"
proof -
  show l: "length (rq_body demo_login) = 10"
    using arg_cong [OF demo_login_text(1), of length] by simp
  then show "rq_body demo_login \<noteq> []" by auto
qed

lemma demo_login_id: "extract_request_id demo_cursor_env (rq_body demo_login) = Inr None"
proof -
  have a: "ascii_text (u ''password=x'')" by (simp add: u_def)
  have "parse_scalar (u ''password=x'') = Inl JSONDecodeError"
    by (simp add: parse_scalar_def parse_number_def starts_with_iff u_def is09_def Let_def)
  then have "parse_value d (u ''password=x'') = Inl JSONDecodeError" for d
    by (cases d) (simp_all add: starts_with_iff u_def)
  moreover have "skip_ws (u ''password=x'') = u ''password=x''" "\<not> starts_with (u ''password=x'') [65279]"
    by (simp_all add: skip_ws_def is_ws_def starts_with_iff u_def)
  ultimately have "loads d (u ''password=x'') = Inl JSONDecodeError" for d by (simp add: loads_def)
  then show ?thesis
    by (simp add: extract_request_id_def demo_login_length demo_login_text(1) loads_bytes_def json_text_ascii [OF a])
qed

lemma pg_text_hexdigest: "pg_text (hexdigest bs)"
  by (force simp: pg_text_def encodable_def list_all_iff dest: hexdigest_range)

lemma pg_text_literal: "pg_text (u s) \<longleftrightarrow> 0 \<notin> set (u s)"
proof -
  have "\<not> 55296 \<le> (of_char c :: nat)" for c :: char
  proof -
    have "of_char c < (256 :: nat)" by simp
    then show ?thesis by linarith
  qed
  then have "encodable (u s)" by (simp add: u_def encodable_def list_all_iff)
  then show ?thesis by (simp add: pg_text_def)
qed

lemma demo_login_storable: "storable (audit_row_for demo_audit_env demo_login (rq_body demo_login) None demo_handled)"
proof -
  have d: "detail_enabled demo_audit_env"
    by (simp add: detail_enabled_def demo_audit_env_def get_setting_def get_settings_dict_def DEFAULTS_def)
  have b: "capture_body (rq_body demo_login) = Some (u ''password=x'')"
    by (simp add: capture_body_def demo_login_length demo_login_text BODY_LIMIT_def)
  have h: "capture_headers [] = Some (u ''{}'')" by (simp add: capture_headers_def dict_of_def wrap_def u_def)
  have "fits 64 (hexdigest bs)" if "length bs = 32" for bs
    using that by (simp add: fits_def pg_text_hexdigest length_hexdigest)
  then have "fits 64 (hexdigest (sha256 bs))" for bs by (simp add: length_sha256)
  then show ?thesis
    by (simp add: storable_def audit_row_for_def Let_def d demo_login_length b opt_ok_def client_ip_def)
      (simp add: demo_login_def demo_handled_def demo_audit_env_def fits_def pg_text_literal h capture_body_def,
        simp add: u_def pg_text_def)
qed

lemma demo_login_path: "rq_path demo_login \<notin> set SKIP_PATHS"
  by (simp add: demo_login_def SKIP_PATHS_def)

lemma demo_env_fields: "ae_cursor demo_audit_env = demo_cursor_env" "ae_db demo_audit_env" "ae_settings demo_audit_env = Missing"
  by (simp_all add: demo_audit_env_def)


theorem default_audit_stores_body_witness:
  "au_request_body_text (last (tb_rows (fst (snd (audit_dispatch demo_audit_env demo_login True demo_handled demo_table))))) =
     Some (u ''password=x'')"
  by (rule default_audit_stores_body [where rid = None])
    (simp_all add: demo_env_fields demo_login_path demo_login_id demo_login_storable demo_login_length demo_login_text BODY_LIMIT_def)

theorem bracket_bomb_unaudited_witness:
  "audit_dispatch demo_audit_env (demo_login\<lparr>rq_body := replicate 2000 91\<rparr>) True demo_handled demo_table =
     (Raised RuntimeError, demo_table, [])"
  by (rule bracket_bomb_unaudited [where n = 2000]) (simp_all add: demo_login_def SKIP_PATHS_def demo_env_fields demo_cursor_env_def)


theorem audit_append_only_witness:
  "demo_audit_row 2 60 \<in> set (tb_rows (foldl audit_step demo_table
     [Sweep 86430 1, Delete_without_bypass (\<lambda>r. True), Update_without_bypass (\<lambda>r. True) id, Insert 90 (demo_audit_row 0 0)]))"
proof -
  have "table_ok demo_table" by (simp add: table_ok_def demo_table_def demo_audit_row_def)
  then show ?thesis
    using audit_append_only [of demo_table "demo_audit_row 2 60"
        "[Sweep 86430 1, Delete_without_bypass (\<lambda>r. True), Update_without_bypass (\<lambda>r. True) id, Insert 90 (demo_audit_row 0 0)]"]
    by (simp add: demo_table_def spares_def) (simp add: demo_audit_row_def)
qed

theorem audit_pages_complete_witness:
  "drain demo_cursor_env (\<lambda>_. 0) demo_query 1 3 None
       (\<lambda>n. [demo_audit_row 1 0, demo_audit_row 2 60] @ (if n = 2 then [] else [demo_audit_row 3 101])) =
     Some (map event_out [demo_audit_row 2 60, demo_audit_row 1 0])"
proof -
  let ?tables = "\<lambda>n :: nat. [demo_audit_row 1 0, demo_audit_row 2 60] @ (if n = 2 then [] else [demo_audit_row 3 101])"
  have "\<exists>new. ?tables n = [demo_audit_row 1 0, demo_audit_row 2 60] @ new \<and> list_all (\<lambda>r. 100 < au_occurred_at r) new" for n
    by (cases "n = 2") (simp_all add: demo_audit_row_def)
  note tables = this
  have "iso_faithful demo_calendar 0" "iso_faithful demo_calendar 60"
    by (simp_all add: iso_faithful_def demo_calendar_def u_def)
  moreover have "length (show_nat 1) \<le> 4300" "length (show_nat 2) \<le> 4300" by (simp_all add: show_nat.simps)
  ultimately have "cursors_ok demo_cursor_env [demo_audit_row 1 0, demo_audit_row 2 60]"
    by (simp add: cursors_ok_def demo_cursor_env_def demo_audit_row_def)
  note ok = this
  have nf: "newest_first audit_key [demo_audit_row 1 0, demo_audit_row 2 60] = [demo_audit_row 2 60, demo_audit_row 1 0]"
    by (simp add: newest_first_def audit_key_def demo_audit_row_def)
  have sel: "audit_selects demo_query (demo_audit_row 1 0)" "audit_selects demo_query (demo_audit_row 2 60)"
    by (simp_all add: audit_selects_def demo_query_def demo_audit_row_def)
  have k: "distinct (map audit_key [demo_audit_row 1 0, demo_audit_row 2 60])" "aq_since demo_query = Some 0"
    "aq_until demo_query = Some 100"
    by (simp_all add: audit_key_def demo_query_def demo_audit_row_def)
  have "drain demo_cursor_env (\<lambda>_. 0) demo_query 1 (Suc (length [demo_audit_row 1 0, demo_audit_row 2 60])) None ?tables =
      Some (map event_out (filter (audit_selects demo_query) (newest_first audit_key [demo_audit_row 1 0, demo_audit_row 2 60])))"
    by (rule audit_pages_complete [OF k(1) _ _ k(2,3) ok tables]) simp_all
  then show ?thesis unfolding nf using sel by (simp add: numeral_3_eq_3 del: drain.simps)
qed

end
