(* ===== verification/Feedback.thy ===== *)
theory Feedback
  imports Auth Audit_Trail Log_Filter "HOL-Library.List_Lexorder" "HOL-Library.Multiset"
begin

text \<open>
  False-positive reports and the operator statistics: the feedback table and its queries
  (\<^verbatim>\<open>app/db/crud.py\<close>), \<^verbatim>\<open>POST /v1/feedback\<close> (\<^verbatim>\<open>app/api/feedback.py\<close>) and the
  endpoints under \<^verbatim>\<open>/v1/admin/stats\<close> (\<^verbatim>\<open>app/api/admin_stats.py\<close>), which aggregate the
  audit rows and the reports.  The listing is an instance of the pagination contract; the counters
  are shown to be the multiplicities of what the rows hold.
\<close>

section \<open>The feedback table\<close>

record feedback_row =
  fb_id :: nat
  fb_request_id :: uuid
  fb_original_code :: ustr
  fb_reason :: ustr
  fb_reporter_hash :: "ustr option"
  fb_created_at :: rat

record feedback_table =
  ft_rows :: "feedback_row list"
  ft_next_id :: nat

definition feedback_storable :: "feedback_row \<Rightarrow> bool" where
  "feedback_storable r \<longleftrightarrow>
     fits 16 (fb_original_code r) \<and> pg_text (fb_reason r) \<and> opt_ok (fits 64) (fb_reporter_hash r)"

definition insert_feedback ::
  "rat \<Rightarrow> uuid \<Rightarrow> ustr \<Rightarrow> ustr \<Rightarrow> ustr option \<Rightarrow> feedback_table \<Rightarrow> exn + feedback_row \<times> feedback_table" where
  "insert_feedback now request_id original_code reason reporter_hash t =
     (let row = \<lparr>fb_id = ft_next_id t, fb_request_id = request_id, fb_original_code = original_code,
                 fb_reason = reason, fb_reporter_hash = reporter_hash, fb_created_at = now\<rparr> in
      if feedback_storable row then Inr (row, \<lparr>ft_rows = ft_rows t @ [row], ft_next_id = Suc (ft_next_id t)\<rparr>)
      else Inl RuntimeError)"

record feedback_query =
  fq_since :: "rat option"
  fq_until :: "rat option"
  fq_original_code :: "ustr option"

definition feedback_key :: "feedback_row \<Rightarrow> stamp" where
  "feedback_key r = (fb_created_at r, fb_id r)"

definition feedback_selects :: "feedback_query \<Rightarrow> feedback_row \<Rightarrow> bool" where
  "feedback_selects q r \<longleftrightarrow>
     (case fq_since q of None \<Rightarrow> True | Some a \<Rightarrow> a \<le> fb_created_at r) \<and>
     (case fq_until q of None \<Rightarrow> True | Some b \<Rightarrow> fb_created_at r \<le> b) \<and>
     (case fq_original_code q of None \<Rightarrow> True | Some c \<Rightarrow> fb_original_code r = c)"

definition list_feedback :: "feedback_query \<Rightarrow> stamp option \<Rightarrow> int \<Rightarrow> feedback_row list \<Rightarrow> feedback_row list" where
  "list_feedback q cursor limit rows =
     take (page_size limit) (filter (\<lambda>r. feedback_selects q r \<and> before cursor (feedback_key r)) (newest_first feedback_key rows))"

interpretation feedback_pages: keyset feedback_key feedback_selects list_feedback
  by unfold_locales (simp add: list_feedback_def)

section \<open>Counters\<close>

text \<open>
  \<^verbatim>\<open>counter[k] += 1\<close> over a list, as a dictionary in order of first insertion; a
  \<^verbatim>\<open>GROUP BY\<close> with \<^verbatim>\<open>count\<close> gives the same dictionary up to its order.
\<close>

fun bump :: "'k \<Rightarrow> ('k \<times> nat) list \<Rightarrow> ('k \<times> nat) list" where
  "bump k [] = [(k, 1)]"
| "bump k ((k', n) # kvs) = (if k' = k then (k', Suc n) # kvs else (k', n) # bump k kvs)"

definition counter :: "'k list \<Rightarrow> ('k \<times> nat) list" where
  "counter ks = fold bump ks []"

lemma bump_keys: "fst ` set (bump k kvs) = insert k (fst ` set kvs)"
  by (induction k kvs rule: bump.induct) auto

lemma bump_distinct: "distinct (map fst kvs) \<Longrightarrow> distinct (map fst (bump k kvs))"
proof (induction k kvs rule: bump.induct)
  case (2 k k' n kvs)
  then show ?case using bump_keys [of k kvs] by (auto simp flip: set_map)
qed simp

lemma bump_value: "map_of (bump k kvs) j = (if j = k then Some (case map_of kvs k of None \<Rightarrow> 1 | Some n \<Rightarrow> Suc n) else map_of kvs j)"
  by (induction k kvs rule: bump.induct) auto

lemma counter_distinct: "distinct (map fst (counter ks))"
proof -
  have "distinct (map fst kvs) \<Longrightarrow> distinct (map fst (fold bump ks kvs))" for kvs
    by (induction ks arbitrary: kvs) (simp_all add: bump_distinct)
  then show ?thesis by (simp add: counter_def)
qed

lemma counter_value: "map_of (counter ks) k = (if k \<in> set ks then Some (count_list ks k) else None)"
proof (induction ks rule: rev_induct)
  case (snoc x ks)
  then show ?case by (auto simp: counter_def bump_value count_list_append)
qed (simp add: counter_def)

lemma in_counter: "(k, n) \<in> set (counter ks) \<longleftrightarrow> k \<in> set ks \<and> n = count_list ks k"
  using map_of_eq_Some_iff [OF counter_distinct, of ks k n] counter_value [of ks k] by (auto split: if_splits)

lemma sum_counter: "sum_list (map snd (counter ks)) = length ks"
proof -
  have "sum_list (map snd (bump k kvs)) = Suc (sum_list (map snd kvs))" for k :: 'a and kvs
    by (induction k kvs rule: bump.induct) auto
  then show ?thesis by (induction ks rule: rev_induct) (simp_all add: counter_def)
qed

definition count_feedback_by_code :: "rat option \<Rightarrow> rat option \<Rightarrow> feedback_row list \<Rightarrow> (ustr \<times> nat) list" where
  "count_feedback_by_code since until rows =
     counter (map fb_original_code
       (filter (feedback_selects \<lparr>fq_since = since, fq_until = until, fq_original_code = None\<rparr>) rows))"

section \<open>POST /v1/feedback\<close>

record feedback_request =
  fr_request_id :: uuid
  fr_original_code :: ustr
  fr_reason :: ustr
  fr_reporter_email :: "ustr option"

text \<open>
  \<^verbatim>\<open>_EMAIL_RX.match\<close>: the expression between \<^verbatim>\<open>^\<close> and \<^verbatim>\<open>$\<close>, and \<^verbatim>\<open>$\<close> also
  holds before a final line feed.
\<close>

definition email_rx_match :: "ustr \<Rightarrow> bool" where
  "email_rx_match v \<longleftrightarrow> list_ex (\<lambda>e. e = length v \<or> (Suc e = length v \<and> v ! e = 10)) (ends EMAIL v 0)"

definition check_email :: "ustr option \<Rightarrow> exn + ustr option" where
  "check_email v =
     (case v of None \<Rightarrow> Inr None
      | Some e \<Rightarrow> if e = [] then Inr None else if email_rx_match e then Inr (Some e) else Inl ValueError)"

definition validate_feedback :: "uuid \<Rightarrow> ustr \<Rightarrow> ustr \<Rightarrow> ustr option \<Rightarrow> exn + feedback_request" where
  "validate_feedback request_id original_code reason email =
     (if 1 \<le> length original_code \<and> length original_code \<le> 16 \<and> 1 \<le> length reason \<and> length reason \<le> 2000 \<and>
         (case email of None \<Rightarrow> True | Some e \<Rightarrow> length e \<le> 320)
      then (case check_email email of Inl e \<Rightarrow> Inl e
            | Inr v \<Rightarrow> Inr \<lparr>fr_request_id = request_id, fr_original_code = original_code, fr_reason = reason, fr_reporter_email = v\<rparr>)
      else Inl ValueError)"

definition hash_reporter :: "ustr \<Rightarrow> ustr \<Rightarrow> ustr" where
  "hash_reporter pii_encryption_key email_or_ip =
     (let salt = (if pii_encryption_key = [] then u ''fallback-salt'' else pii_encryption_key) in
      hexdigest (sha256 (utf8_encode salt @ utf8_encode (u '':'') @ utf8_encode email_or_ip)))"

record feedback_response =
  fo_status :: nat
  fo_request_id :: uuid
  fo_code :: string
  fo_feedback_id :: nat
  fo_user_message :: ustr
  fo_processed_at :: rat
  fo_processing_ms :: int

text \<open>
  The handler behind \<^verbatim>\<open>require_auth\<close>: the row is committed before the answer is built.  The
  result carries the answer, the audit payload left in the request state, and the table.
\<close>

definition submit_feedback ::
  "ustr \<Rightarrow> rat \<Rightarrow> int \<Rightarrow> authed_caller \<Rightarrow> feedback_request \<Rightarrow> feedback_table \<Rightarrow>
     (exn + feedback_response \<times> audit_payload) \<times> feedback_table" where
  "submit_feedback pii_encryption_key now processing_ms caller payload t =
     (let reporter_source = (case fr_reporter_email payload of Some e \<Rightarrow> e | None \<Rightarrow> ac_client_ip caller);
          reporter_hash = hash_reporter pii_encryption_key reporter_source in
      case insert_feedback now (fr_request_id payload) (fr_original_code payload) (fr_reason payload) (Some reporter_hash) t of
        Inl e \<Rightarrow> (Inl e, t)
      | Inr (row, t') \<Rightarrow>
          let code = ''ACK-3010'' in
          (case get_code code of Inl e \<Rightarrow> (Inl e, t') | Inr rc \<Rightarrow>
           case build_response (fr_request_id payload) code [] processing_ms [] None None now of
             Inl e \<Rightarrow> (Inl e, t')
           | Inr env \<Rightarrow>
               (Inr (\<lparr>fo_status = rc_http_status rc, fo_request_id = fr_request_id payload, fo_code = code,
                      fo_feedback_id = fb_id row, fo_user_message = r_user_message env, fo_processed_at = now,
                      fo_processing_ms = r_processing_ms env\<rparr>,
                     \<lparr>ap_response_code = code, ap_detected_entity_count = 0, ap_detected_entity_types = None,
                      ap_shadow_hit_types = None\<rparr>), t')))"

section \<open>GET /v1/admin/stats\<close>

definition floor_hour :: "rat \<Rightarrow> rat" where
  "floor_hour t = of_int (\<lfloor>t / 3600\<rfloor> * 3600)"

definition split_types :: "ustr option \<Rightarrow> ustr list" where
  "split_types raw = (case raw of None \<Rightarrow> [] | Some r \<Rightarrow> if r = [] then [] else csv_list r)"

record detections_stats =
  dt_since :: rat
  dt_until :: rat
  dt_buckets :: "((rat \<times> ustr) \<times> nat) list"
  dt_shadow_buckets :: "((rat \<times> ustr) \<times> nat) list"

definition window_rows :: "rat \<Rightarrow> rat \<Rightarrow> audit_row list \<Rightarrow> audit_row list" where
  "window_rows since until rows = filter (\<lambda>r. since \<le> au_occurred_at r \<and> au_occurred_at r \<le> until) rows"

definition hits_of :: "(audit_row \<Rightarrow> ustr option) \<Rightarrow> audit_row list \<Rightarrow> (rat \<times> ustr) list" where
  "hits_of col rows = concat (map (\<lambda>r. map (Pair (floor_hour (au_occurred_at r))) (split_types (col r))) rows)"

definition since_or :: "rat \<Rightarrow> rat \<Rightarrow> rat option \<Rightarrow> rat" where
  "since_or now back since = (case since of None \<Rightarrow> now - back | Some a \<Rightarrow> a)"

definition stats_detections :: "rat \<Rightarrow> rat option \<Rightarrow> rat option \<Rightarrow> bool \<Rightarrow> audit_row list \<Rightarrow> detections_stats" where
  "stats_detections now since until include_shadow rows =
     (let a = since_or now (24 * 3600) since; b = since_or now 0 until; ev = window_rows a b rows in
      \<lparr>dt_since = a, dt_until = b,
       dt_buckets = sort (counter (hits_of au_detected_entity_types ev)),
       dt_shadow_buckets = sort (counter (if include_shadow then hits_of au_shadow_hit_types ev else []))\<rparr>)"

record verdicts_stats =
  vs_since :: rat
  vs_until :: rat
  vs_total :: nat
  vs_block :: nat
  vs_warn :: nat
  vs_pass :: nat
  vs_error :: nat
  vs_block_ratio :: rat
  vs_warn_ratio :: rat
  vs_pass_ratio :: rat

text \<open>The verdict a row counts for: none without a response code or with one the catalogue lacks.\<close>

definition row_verdict :: "audit_row \<Rightarrow> verdict option" where
  "row_verdict r =
     (case au_response_code r of None \<Rightarrow> None
      | Some c \<Rightarrow> if c = [] then None
                  else (case find (\<lambda>(k, rc). u k = c) CODES of None \<Rightarrow> None | Some (k, rc) \<Rightarrow> Some (rc_verdict rc)))"

text \<open>\<open>ratio4 n d\<close> stands for \<^verbatim>\<open>round(n / float(d), 4)\<close> in floating point.\<close>

definition stats_verdicts ::
  "(nat \<Rightarrow> nat \<Rightarrow> rat) \<Rightarrow> rat \<Rightarrow> rat option \<Rightarrow> rat option \<Rightarrow> audit_row list \<Rightarrow> verdicts_stats" where
  "stats_verdicts ratio4 now since until rows =
     (let a = since_or now (24 * 3600) since; b = since_or now 0 until;
          vs = map row_verdict (window_rows a b rows);
          n = (\<lambda>v. count_list vs (Some v));
          tot = n BLOCK + n WARN + n PASS + n ERROR;
          denom = (if tot = 0 then 1 else tot) in
      \<lparr>vs_since = a, vs_until = b, vs_total = tot, vs_block = n BLOCK, vs_warn = n WARN, vs_pass = n PASS,
       vs_error = n ERROR, vs_block_ratio = ratio4 (n BLOCK) denom, vs_warn_ratio = ratio4 (n WARN) denom,
       vs_pass_ratio = ratio4 (n PASS) denom\<rparr>)"

record feedback_out =
  fw_id :: nat
  fw_request_id :: uuid
  fw_original_code :: ustr
  fw_reason :: ustr
  fw_created_at :: rat

record feedback_stats =
  fs_since :: rat
  fs_until :: rat
  fs_total :: nat
  fs_by_code :: "(ustr \<times> nat) list"
  fs_rows :: "feedback_out list"

definition feedback_out_of :: "feedback_row \<Rightarrow> feedback_out" where
  "feedback_out_of r = \<lparr>fw_id = fb_id r, fw_request_id = fb_request_id r, fw_original_code = fb_original_code r,
     fw_reason = fb_reason r, fw_created_at = fb_created_at r\<rparr>"

definition stats_feedback :: "rat \<Rightarrow> rat option \<Rightarrow> rat option \<Rightarrow> int \<Rightarrow> feedback_row list \<Rightarrow> feedback_stats" where
  "stats_feedback now since until limit rows =
     (let a = since_or now (7 * 86400) since; b = since_or now 0 until;
          rs = list_feedback \<lparr>fq_since = Some a, fq_until = Some b, fq_original_code = None\<rparr> None limit rows;
          by_code = count_feedback_by_code (Some a) (Some b) rows in
      \<lparr>fs_since = a, fs_until = b, fs_total = sum_list (map snd by_code), fs_by_code = by_code,
       fs_rows = map feedback_out_of rs\<rparr>)"

section \<open>A report is stored without the address of its author\<close>

lemma hash_reporter_fits: "fits 64 (hash_reporter key src) \<and> length (hash_reporter key src) = 64"
  by (simp add: hash_reporter_def Let_def fits_def pg_text_hexdigest length_hexdigest length_sha256)

lemma validate_feedbackD:
  assumes "validate_feedback rid code reason email = Inr req"
  shows "length code \<le> 16 \<and> fr_request_id req = rid \<and> fr_original_code req = code \<and> fr_reason req = reason \<and>
     (fr_reporter_email req = None \<and> (email = None \<or> email = Some []) \<or>
      (\<exists>e. email = Some e \<and> fr_reporter_email req = Some e \<and> email_rx_match e))"
  using assms by (auto simp: validate_feedback_def check_email_def split: option.splits if_splits sum.splits)

lemma get_ACK_3010: "\<exists>rc. get_code ''ACK-3010'' = Inr rc \<and> rc_http_status rc = 202"
  by (simp add: get_code_def catalogue_defs)

lemma build_ACK_3010: "\<exists>env. build_response rid ''ACK-3010'' [] ms [] None None now = Inr env \<and> r_processing_ms env = ms"
  by (simp add: build_response_def get_code_def catalogue_defs render_def Let_def u_def)

text \<open>
  A report is accepted and kept.  A report that passes validation, without NUL characters or
  surrogates, is answered 202 with the id of the one new row; the row holds the code and the reason
  as sent and, for the reporter, the 64 hexadecimal digits of the salted hash of the address given
  or, when none was, of the client address.
\<close>

theorem feedback_accepted:
  assumes "validate_feedback rid code reason email = Inr req" "pg_text code" "pg_text reason"
  shows "\<exists>resp ap row. submit_feedback key now ms caller req t =
       (Inr (resp, ap), \<lparr>ft_rows = ft_rows t @ [row], ft_next_id = Suc (ft_next_id t)\<rparr>) \<and>
     fo_status resp = 202 \<and> fo_code resp = ''ACK-3010'' \<and> fo_request_id resp = rid \<and> fo_processing_ms resp = ms \<and>
     fo_feedback_id resp = ft_next_id t \<and> fb_id row = ft_next_id t \<and> fb_request_id row = rid \<and>
     fb_original_code row = code \<and> fb_reason row = reason \<and> ap_response_code ap = ''ACK-3010'' \<and>
     fb_reporter_hash row = Some (hash_reporter key (if email = None \<or> email = Some [] then ac_client_ip caller else the email)) \<and>
     length (the (fb_reporter_hash row)) = 64"
proof -
  note v = validate_feedbackD [OF assms(1)]
  let ?src = "case fr_reporter_email req of Some e \<Rightarrow> e | None \<Rightarrow> ac_client_ip caller"
  have src: "?src = (if email = None \<or> email = Some [] then ac_client_ip caller else the email)"
    using v by (auto simp: email_rx_match_def EMAIL_def)
  have ok: "feedback_storable \<lparr>fb_id = ft_next_id t, fb_request_id = fr_request_id req, fb_original_code = fr_original_code req,
      fb_reason = fr_reason req, fb_reporter_hash = Some (hash_reporter key ?src), fb_created_at = now\<rparr>"
    using v assms(2,3) hash_reporter_fits by (simp add: feedback_storable_def fits_def opt_ok_def)
  obtain rc env where "get_code ''ACK-3010'' = Inr rc" "rc_http_status rc = 202"
      "build_response (fr_request_id req) ''ACK-3010'' [] ms [] None None now = Inr env" "r_processing_ms env = ms"
    using get_ACK_3010 build_ACK_3010 by metis
  with ok v show ?thesis
    by (simp add: submit_feedback_def insert_feedback_def Let_def hash_reporter_fits flip: src)
qed

text \<open>
  A NUL character in a report is a server error.  Validation lets a reason with the character
  U+0000 pass, the database refuses it, and the handler raises with nothing stored.
\<close>

theorem feedback_nul_crashes:
  assumes "validate_feedback rid code reason email = Inr req" "0 \<in> set reason"
  shows "submit_feedback key now ms caller req t = (Inl RuntimeError, t)"
  using validate_feedbackD [OF assms(1)] assms(2)
  by (simp add: submit_feedback_def insert_feedback_def feedback_storable_def pg_text_def Let_def)

section \<open>The statistics count\<close>

lemma sort_counter:
  "sorted_wrt (<) (map fst (sort (counter ks)))" "(k, n) \<in> set (sort (counter ks)) \<longleftrightarrow> 0 < n \<and> n = count_list ks k"
proof -
  have "sorted (map fst (sort (counter ks)))"
    by (rule sorted_map_mono [of "sort (counter ks)"]) (auto simp: monotone_on_def less_eq_prod_def intro: sorted_sort)
  moreover have "distinct (map fst (sort (counter ks)))"
    using counter_distinct [of ks] by (simp add: distinct_map)
  ultimately show "sorted_wrt (<) (map fst (sort (counter ks)))" by (simp add: strict_sorted_iff)
  show "(k, n) \<in> set (sort (counter ks)) \<longleftrightarrow> 0 < n \<and> n = count_list ks k"
    using count_list_0_iff [of ks k] by (auto simp: in_counter)
qed

lemma count_hits:
  "count_list (hits_of col rows) (h, t) =
     (\<Sum>r \<leftarrow> rows. if floor_hour (au_occurred_at r) = h then count_list (split_types (col r)) t else 0)"
proof -
  have "count_list (map (Pair a) ts) (h, t) = (if a = h then count_list ts t else 0)" for a and ts :: "ustr list"
    by (induction ts) auto
  then show ?thesis by (induction rows) (simp_all add: hits_of_def count_list_append)
qed

text \<open>
  The hourly statistics count every detection once.  The buckets are strictly ordered by hour
  and entity type, a bucket is present exactly when its count is positive, and its count is the
  number of times the type occurs in the rows of the window that fall into the hour; the shadow
  buckets do the same for the shadow column when asked for and are empty otherwise.
\<close>

theorem stats_detections_counts:
  "sorted_wrt (<) (map fst (dt_buckets (stats_detections now since until shadow rows))) \<and>
   (((h, t), n) \<in> set (dt_buckets (stats_detections now since until shadow rows)) \<longleftrightarrow>
     0 < n \<and> n = (\<Sum>r \<leftarrow> window_rows (since_or now (24 * 3600) since) (since_or now 0 until) rows.
       if floor_hour (au_occurred_at r) = h then count_list (split_types (au_detected_entity_types r)) t else 0)) \<and>
   (((h, t), n) \<in> set (dt_shadow_buckets (stats_detections now since until shadow rows)) \<longleftrightarrow>
     shadow \<and> 0 < n \<and> n = (\<Sum>r \<leftarrow> window_rows (since_or now (24 * 3600) since) (since_or now 0 until) rows.
       if floor_hour (au_occurred_at r) = h then count_list (split_types (au_shadow_hit_types r)) t else 0))"
  unfolding stats_detections_def Let_def
  by (simp add: sort_counter del: set_sort) (auto simp: count_hits)

definition reported_in :: "rat \<Rightarrow> rat \<Rightarrow> feedback_row \<Rightarrow> bool" where
  "reported_in a b = feedback_selects \<lparr>fq_since = Some a, fq_until = Some b, fq_original_code = None\<rparr>"

lemma length_filter_newest: "length (filter P (newest_first key rows)) = length (filter P rows)"
proof -
  have "mset (filter P (newest_first key rows)) = mset (filter P rows)" by (simp add: newest_first_def mset_filter)
  then show ?thesis by (metis size_mset)
qed

text \<open>
  The totals of the feedback statistics do not depend on the page.  The total and the counts per
  code cover every report of the window, and the rows shown are the newest of them, as many as the
  limit admits.
\<close>

theorem stats_feedback_totals:
  assumes "1 \<le> limit" "limit \<le> 500"
  shows "fs_total (stats_feedback now (Some a) (Some b) limit rows) = length (filter (reported_in a b) rows) \<and>
     fs_rows (stats_feedback now (Some a) (Some b) limit rows) =
       map feedback_out_of (take (nat limit) (filter (reported_in a b) (newest_first feedback_key rows))) \<and>
     length (fs_rows (stats_feedback now (Some a) (Some b) limit rows)) = min (nat limit) (length (filter (reported_in a b) rows)) \<and>
     map_of (fs_by_code (stats_feedback now (Some a) (Some b) limit rows)) code =
       (let n = length (filter (\<lambda>r. reported_in a b r \<and> fb_original_code r = code) rows) in if n = 0 then None else Some n)"
proof -
  have cnt: "count_list (map fb_original_code xs) code = length (filter (\<lambda>r. fb_original_code r = code) xs)" for xs
    by (induction xs) auto
  have mem: "code \<in> set (map fb_original_code xs) \<longleftrightarrow> length (filter (\<lambda>r. fb_original_code r = code) xs) \<noteq> 0" for xs
    by (auto simp: filter_empty_conv)
  have "page_size limit = nat limit" using assms(1,2) by (simp add: page_size_def)
  then show ?thesis
    unfolding stats_feedback_def reported_in_def
    by (simp add: Let_def since_or_def list_feedback_def count_feedback_by_code_def sum_counter counter_value cnt mem
        length_filter_newest conj_commute del: length_0_conv set_map)
qed

section \<open>Instances\<close>

definition demo_reporter :: authed_caller where
  "demo_reporter = \<lparr>ac_key_id = u ''board'', ac_name = u ''Board'', ac_rate_per_minute = 60, ac_rate_per_hour = 600,
     ac_ip_allowlist = None, ac_client_ip = u ''10.0.0.7'', ac_is_admin = False\<rparr>"

definition demo_report :: "ustr \<Rightarrow> feedback_request" where
  "demo_report reason = \<lparr>fr_request_id = 7, fr_original_code = u ''BLOCK-2001'', fr_reason = reason, fr_reporter_email = None\<rparr>"

lemma demo_report_valid:
  "1 \<le> length reason \<Longrightarrow> length reason \<le> 2000 \<Longrightarrow>
   validate_feedback 7 (u ''BLOCK-2001'') reason None = Inr (demo_report reason)"
  by (simp add: validate_feedback_def check_email_def demo_report_def)

definition demo_reports :: "feedback_row list" where
  "demo_reports = [\<lparr>fb_id = 1, fb_request_id = 7, fb_original_code = u ''BLOCK-2001'', fb_reason = u ''x'',
     fb_reporter_hash = None, fb_created_at = 5\<rparr>]"

theorem feedback_accepted_witness:
  "\<exists>resp ap row. submit_feedback [] 9 3 demo_reporter (demo_report (u ''not mine'')) \<lparr>ft_rows = [], ft_next_id = 1\<rparr> =
       (Inr (resp, ap), \<lparr>ft_rows = [row], ft_next_id = 2\<rparr>) \<and> fo_status resp = 202 \<and>
     fb_reporter_hash row = Some (hash_reporter [] (u ''10.0.0.7''))"
  using feedback_accepted [OF demo_report_valid, of "u ''not mine''" "[]" 9 3 demo_reporter "\<lparr>ft_rows = [], ft_next_id = 1\<rparr>"]
  by (auto simp: pg_text_def encodable_def u_def demo_reporter_def numeral_2_eq_2)

theorem feedback_nul_crashes_witness:
  "submit_feedback [] 9 3 demo_reporter (demo_report [0]) \<lparr>ft_rows = [], ft_next_id = 1\<rparr> =
     (Inl RuntimeError, \<lparr>ft_rows = [], ft_next_id = 1\<rparr>)"
  by (rule feedback_nul_crashes [OF demo_report_valid]) simp_all

theorem stats_feedback_totals_witness:
  "fs_total (stats_feedback 9 (Some 0) (Some 9) 50 demo_reports) = 1 \<and>
   map_of (fs_by_code (stats_feedback 9 (Some 0) (Some 9) 50 demo_reports)) (u ''BLOCK-2001'') = Some 1"
  using stats_feedback_totals [of 50 9 0 9 demo_reports "u ''BLOCK-2001''"]
  by (simp add: demo_reports_def reported_in_def feedback_selects_def)

end
