(* ===== verification/Alerter.thy ===== *)
theory Alerter
  imports Feedback Analyzer
begin

text \<open>
  The hourly feedback alert (\<^verbatim>\<open>app/workers/feedback_alerter.py\<close>): the window of the previous
  hour, the anti-flap state, the mail with its scrubbed snippets, the SMTP dialogue, one pass, and
  the endless loop as the sequence of its pass times.  Shown are what a snippet can no longer hold,
  when exactly a pass sends a mail, that the windows of the mails rise strictly over any sequence of
  passes, what happens when the state cannot be written, and that the loop skips hours.
\<close>

section \<open>Snippets\<close>

definition ALERT_RRN :: rx where
  "ALERT_RRN = seq [digits 6, optional (Lit 45), digits 7]"

definition ALERT_PHONE :: rx where
  "ALERT_PHONE = seq [digits_between 2 3, hyphen, digits_between 3 4, hyphen, digits 4]"

definition ALERT_CARD :: rx where
  "ALERT_CARD = seq [digits 4, hyphen, digits 4, hyphen, digits 4, hyphen, digits 4]"

definition PII_PATTERNS :: "rx list" where
  "PII_PATTERNS = [ALERT_RRN, ALERT_PHONE, EMAIL, ALERT_CARD]"

text \<open>\<open>8230\<close> is the horizontal ellipsis.\<close>

definition scrub :: "ustr \<Rightarrow> ustr" where
  "scrub text =
     (let out = fold (\<lambda>rx t. sub_all rx (u ''***'') t) PII_PATTERNS text in
      if length out > 80 then take 80 out @ [8230] else out)"

section \<open>Windows and state\<close>

definition previous_hour_window :: "rat \<Rightarrow> rat \<times> rat" where
  "previous_hour_window now = (let end = floor_hour now in (end - 3600, end))"

definition ALERTER_KEY :: ustr where "ALERTER_KEY = u ''feedback''"

record alerter_state =
  al_last_alert_at :: "rat option"
  al_last_count :: nat
  al_updated_at :: rat

type_synonym alerter_table = "ustr \<rightharpoonup> alerter_state"

definition get_state :: "alerter_table \<Rightarrow> alerter_state option" where
  "get_state t = t ALERTER_KEY"

definition record_alert :: "rat \<Rightarrow> nat \<Rightarrow> rat \<Rightarrow> alerter_table \<Rightarrow> alerter_table" where
  "record_alert now n alerted_at t =
     t(ALERTER_KEY \<mapsto> \<lparr>al_last_alert_at = Some alerted_at, al_last_count = n, al_updated_at = now\<rparr>)"

section \<open>The mail\<close>

record mail =
  ma_subject :: ustr
  ma_from :: ustr
  ma_to :: ustr
  ma_body :: ustr

text \<open>\<^verbatim>\<open>EmailMessage\<close> refuses a header value of more than one line.\<close>

definition header_ok :: "ustr \<Rightarrow> bool" where
  "header_ok v \<longleftrightarrow> length (splitlines v) \<le> 1"

definition or_none :: "ustr \<Rightarrow> ustr" where
  "or_none ls = (if ls = [] then u ''  (none)'' else ls)"

definition build_email ::
  "(rat \<Rightarrow> ustr) \<Rightarrow> nat \<Rightarrow> (ustr \<times> nat) list \<Rightarrow> ustr list \<Rightarrow> rat \<Rightarrow> rat \<Rightarrow> ustr \<Rightarrow> ustr list \<Rightarrow> exn + mail" where
  "build_email isoformat tot by_code reasons window_start window_end sender recipients =
     (let to = join (u '', '') recipients;
          top_codes_lines = join [10] (map (\<lambda>(code, n). u ''  - '' @ code @ u '': '' @ show_nat n) (take 5 by_code));
          top_reasons_lines = join [10] (map (\<lambda>r. u ''  - '' @ scrub r) (take 5 reasons)) in
      if \<not> header_ok sender \<or> \<not> header_ok to then Inl ValueError
      else Inr \<lparr>ma_subject = u ''[PII API] feedback volume alert: '' @ show_nat tot @ u '' reports/hour'',
                ma_from = sender, ma_to = to,
                ma_body = u ''Feedback volume exceeded the configured threshold.'' @ [10, 10] @
                  u ''Window  : '' @ isoformat window_start @ [32, 8594, 32] @ isoformat window_end @ [10] @
                  u ''Total   : '' @ show_nat tot @ [10, 10] @
                  u ''Top codes:'' @ [10] @ or_none top_codes_lines @ [10, 10] @
                  u ''Reason snippets:'' @ [10] @ or_none top_reasons_lines @ [10, 10] @
                  u ''Review queue: GET /v1/admin/stats/feedback'' @ [10]\<rparr>)"

section \<open>SMTP\<close>

datatype smtp_step = Connect_ssl | Connect | Starttls | Login | Send_message

definition send_steps :: "int \<Rightarrow> ustr \<Rightarrow> smtp_step list" where
  "send_steps port user =
     (if port = 465 then [Connect_ssl] else [Connect] @ (if port = 587 then [Starttls] else [])) @
     (if user \<noteq> [] then [Login] else []) @ [Send_message]"

text \<open>The library call of a step may raise; the mail is out once the last step succeeded.\<close>

definition send_mail :: "(smtp_step \<Rightarrow> bool) \<Rightarrow> int \<Rightarrow> ustr \<Rightarrow> bool" where
  "send_mail ok port user = list_all ok (send_steps port user)"

section \<open>One pass\<close>

record alert_settings =
  as_smtp_host :: ustr
  as_smtp_port :: int
  as_smtp_user :: ustr
  as_alert_email_from :: ustr
  as_alert_email_to :: ustr
  as_threshold :: int

text \<open>
  What a pass meets: the clock, the rows the query returns (in the order the database likes), the
  outcome of each SMTP step, and whether the state can be written.
\<close>

record pass_env =
  pe_now :: rat
  pe_rows :: "feedback_row list"
  pe_smtp :: "smtp_step \<Rightarrow> bool"
  pe_write :: bool

definition window_reports :: "rat \<times> rat \<Rightarrow> feedback_row list \<Rightarrow> feedback_row list" where
  "window_reports w rows = filter (\<lambda>r. fst w \<le> fb_created_at r \<and> fb_created_at r < snd w) rows"

text \<open>\<^verbatim>\<open>sorted(items, key=count, reverse=True)\<close> keeps the order of equal counts.\<close>

definition by_count :: "(ustr \<times> nat) list \<Rightarrow> (ustr \<times> nat) list" where
  "by_count kvs = sort_key (\<lambda>kv. - int (snd kv)) kvs"

definition enabled :: "alert_settings \<Rightarrow> bool" where
  "enabled s \<longleftrightarrow> as_smtp_host s \<noteq> [] \<and> strip (as_alert_email_to s) \<noteq> []"

definition already_alerted :: "rat \<Rightarrow> alerter_table \<Rightarrow> bool" where
  "already_alerted window_end t =
     (case get_state t of None \<Rightarrow> False
      | Some st \<Rightarrow> (case al_last_alert_at st of None \<Rightarrow> False | Some a \<Rightarrow> window_end \<le> a))"

definition sender_of :: "alert_settings \<Rightarrow> exn + ustr" where
  "sender_of s =
     (if as_alert_email_from s \<noteq> [] then Inr (as_alert_email_from s)
      else case csv_list (as_alert_email_to s) of [] \<Rightarrow> Inl IndexError | r # _ \<Rightarrow> Inr r)"

definition compose :: "alert_settings \<Rightarrow> (rat \<Rightarrow> ustr) \<Rightarrow> rat \<times> rat \<Rightarrow> feedback_row list \<Rightarrow> exn + mail" where
  "compose s isoformat w rows =
     (case sender_of s of Inl e \<Rightarrow> Inl e
      | Inr sender \<Rightarrow> build_email isoformat (length rows) (by_count (counter (map fb_original_code rows)))
          (map fb_reason (take 5 rows)) (fst w) (snd w) sender (csv_list (as_alert_email_to s)))"

text \<open>The result, the mail that left if one did, and the state table.\<close>

definition run_once ::
  "alert_settings \<Rightarrow> (rat \<Rightarrow> ustr) \<Rightarrow> pass_env \<Rightarrow> alerter_table \<Rightarrow> (exn + bool) \<times> mail option \<times> alerter_table" where
  "run_once s isoformat env t =
     (if \<not> enabled s then (Inr False, None, t)
      else let w = previous_hour_window (pe_now env) in
      if already_alerted (snd w) t then (Inr False, None, t)
      else let rows = window_reports w (pe_rows env) in
      if int (length rows) < as_threshold s then (Inr False, None, t)
      else case compose s isoformat w rows of
        Inl e \<Rightarrow> (Inl e, None, t)
      | Inr msg \<Rightarrow>
          if \<not> send_mail (pe_smtp env) (as_smtp_port s) (as_smtp_user s) then (Inr False, None, t)
          else if \<not> pe_write env then (Inl RuntimeError, Some msg, t)
          else (Inr True, Some msg, record_alert (pe_now env) (length rows) (snd w) t))"

section \<open>The loop\<close>

definition loop_interval :: "alert_settings \<Rightarrow> int \<Rightarrow> int option \<Rightarrow> int" where
  "loop_interval s configured given =
     (let interval = (case given of None \<Rightarrow> configured | Some i \<Rightarrow> if i = 0 then configured else i) in
      if \<not> enabled s then max interval 300 else interval)"

text \<open>
  The time of the \<open>k\<close>-th pass, when pass \<open>j\<close> takes \<open>d j\<close> seconds: the sleep starts when the pass
  has ended, whether it returned or raised.
\<close>

fun pass_time :: "rat \<Rightarrow> (nat \<Rightarrow> rat) \<Rightarrow> int \<Rightarrow> nat \<Rightarrow> rat" where
  "pass_time t0 d interval 0 = t0"
| "pass_time t0 d interval (Suc k) = pass_time t0 d interval k + d k + of_int interval"

text \<open>Passes one after the other, over the same state table; exceptions are logged and swallowed.\<close>

fun passes ::
  "alert_settings \<Rightarrow> (rat \<Rightarrow> ustr) \<Rightarrow> pass_env list \<Rightarrow> alerter_table \<Rightarrow> (rat \<times> mail) list \<times> alerter_table" where
  "passes s isoformat [] t = ([], t)"
| "passes s isoformat (env # envs) t =
     (let (res, m, t') = run_once s isoformat env t; (ms, t'') = passes s isoformat envs t' in
      ((case m of None \<Rightarrow> [] | Some msg \<Rightarrow> [(snd (previous_hour_window (pe_now env)), msg)]) @ ms, t''))"

section \<open>A snippet holds no identifiers\<close>

lemma redactable_redaction: "redactable r rep \<Longrightarrow> redaction r rep"
  using redactable_words by unfold_locales (auto simp: redactable_def)

text \<open>Substitutions with a replacement no pattern can use leave no word of any of the patterns.\<close>

lemma fold_redact:
  assumes "list_all (\<lambda>r. redactable r rep) rs" "r \<in> set rs"
  shows "\<not> occurs (lang r) (fold (\<lambda>r t. sub_all r rep t) rs s)"
  using assms
proof (induction rs rule: rev_induct)
  case (snoc x rs)
  then have x: "redaction x rep" by (simp add: redactable_redaction)
  show ?case
  proof (cases "r = x")
    case True
    then show ?thesis using redaction.none_left [OF x] by simp
  next
    case False
    then have "redactable r rep" "\<not> occurs (lang r) (fold (\<lambda>r t. sub_all r rep t) rs s)"
      using snoc by (auto simp: list_all_iff)
    then show ?thesis using redaction.keeps_absence [OF x, of "lang r"] redactable_words by auto
  qed
qed simp

lemma occurs_cut:
  assumes "occurs A (take n s @ [c])" "\<And>w. w \<in> A \<Longrightarrow> w \<noteq> [] \<and> c \<notin> set w"
  shows "occurs A s"
proof -
  obtain p w q where w: "w \<in> A" "take n s @ [c] = p @ w @ q" using assms(1) by (auto simp: occurs_def)
  then have "q \<noteq> []"
    using assms(2) [OF w(1)] by (metis append.right_neutral last_appendR last_in_set last_snoc)
  then have "take n s = p @ w @ butlast q"
    using w(2) by (metis butlast_append butlast_snoc append_is_Nil_conv)
  then have "s = p @ w @ butlast q @ drop n s" by (metis append.assoc append_take_drop_id)
  with w(1) show ?thesis by (auto simp: occurs_def)
qed

lemma no_occurs_finditer: "plain r \<Longrightarrow> \<not> occurs (lang r) s \<Longrightarrow> finditer r s = []"
proof -
  assume a: "plain r" "\<not> occurs (lang r) s"
  have "match_at r s j = None" if j: "j \<le> length s" for j
  proof -
    have "e \<notin> set (ends r s j)" for e
    proof
      assume "e \<in> set (ends r s j)"
      then obtain w q where "w \<in> lang r" "drop j s = w @ q"
        using ends_lang [OF a(1) j, of e] by (auto simp: starts_def)
      then have "occurs (lang r) (take j s @ drop j s)" unfolding occurs_def by metis
      then show False using a(2) by simp
    qed
    then show ?thesis by (metis all_not_in_conv match_at_None_iff)
  qed
  then show "finditer r s = []" by (simp add: finditer_def find_from_Nil)
qed

lemmas alert_pattern_defs = ALERT_RRN_def ALERT_PHONE_def ALERT_CARD_def log_pattern_defs

lemma patterns_redactable: "list_all (\<lambda>r. redactable r (u ''***'')) PII_PATTERNS"
  by (simp add: PII_PATTERNS_def redactable_def some_cls_def u_def is_decimal_ascii alert_pattern_defs)

lemma ellipsis_not_decimal: "\<not> is_decimal 8230"
  by (simp add: is_decimal_def decimal_value_def decimal_zeros_def)

lemma patterns_no_ellipsis: "r \<in> set PII_PATTERNS \<Longrightarrow> \<not> some_cls (all_cls r) 8230"
  by (auto simp: PII_PATTERNS_def alert_pattern_defs some_cls_def ellipsis_not_decimal)

text \<open>
  C33: a reason quoted in the mail is short and free of identifiers.  Whatever a reporter writes,
  the snippet has at most 81 characters and none of the four patterns (resident number, telephone
  number, mail address, card number) matches anywhere in it.
\<close>

theorem snippet_clean: "length (scrub txt) \<le> 81 \<and> list_all (\<lambda>p. finditer p (scrub txt) = []) PII_PATTERNS"
proof -
  let ?out = "fold (\<lambda>r t. sub_all r (u ''***'') t) PII_PATTERNS txt"
  have "\<not> occurs (lang r) (scrub txt)" if r: "r \<in> set PII_PATTERNS" for r
  proof
    assume "occurs (lang r) (scrub txt)"
    moreover have "w \<noteq> [] \<and> 8230 \<notin> set w" if "w \<in> lang r" for w
      using that redactable_words [of r "u ''***''" w] patterns_redactable r lang_all [OF that] patterns_no_ellipsis [OF r]
      by (auto simp: list_all_iff)
    ultimately have "occurs (lang r) ?out"
      using occurs_cut [of "lang r" 80 ?out 8230] by (auto simp: scrub_def Let_def split: if_splits)
    then show False using fold_redact [OF patterns_redactable r] by blast
  qed
  moreover have "plain r" if "r \<in> set PII_PATTERNS" for r
    using that patterns_redactable by (auto simp: list_all_iff redactable_def)
  ultimately have "list_all (\<lambda>p. finditer p (scrub txt) = []) PII_PATTERNS"
    by (auto simp: list_all_iff intro: no_occurs_finditer)
  then show ?thesis by (simp add: scrub_def Let_def)
qed

section \<open>One mail per hour\<close>

lemma run_once_cases:
  "run_once s isoformat env t = (res, m, t') \<Longrightarrow>
     m = None \<and> t' = t \<or>
     (\<exists>msg. m = Some msg \<and> enabled s \<and> \<not> already_alerted (snd (previous_hour_window (pe_now env))) t \<and>
        as_threshold s \<le> int (length (window_reports (previous_hour_window (pe_now env)) (pe_rows env))) \<and>
        compose s isoformat (previous_hour_window (pe_now env)) (window_reports (previous_hour_window (pe_now env)) (pe_rows env)) = Inr msg \<and>
        send_mail (pe_smtp env) (as_smtp_port s) (as_smtp_user s) \<and>
        (if pe_write env then res = Inr True \<and> t' = record_alert (pe_now env)
           (length (window_reports (previous_hour_window (pe_now env)) (pe_rows env))) (snd (previous_hour_window (pe_now env))) t
         else res = Inl RuntimeError \<and> t' = t))"
  unfolding run_once_def Let_def by (auto split: if_splits sum.splits)

lemma already_alerted_record: "already_alerted e (record_alert now n a t) \<longleftrightarrow> e \<le> a"
  by (simp add: already_alerted_def get_state_def record_alert_def)

lemma already_alerted_less: "already_alerted a t \<Longrightarrow> \<not> already_alerted e t \<Longrightarrow> a < e"
  by (auto simp: already_alerted_def split: option.splits)

lemma passes_after:
  "list_all pe_write envs \<Longrightarrow> already_alerted a t \<Longrightarrow> (e, m) \<in> set (fst (passes s isoformat envs t)) \<Longrightarrow> a < e"
proof (induction envs arbitrary: t)
  case (Cons env envs)
  obtain res mo t' where r: "run_once s isoformat env t = (res, mo, t')" by (cases "run_once s isoformat env t")
  have "already_alerted a t'" "mo \<noteq> None \<Longrightarrow> a < snd (previous_hour_window (pe_now env))"
    using run_once_cases [OF r] Cons.prems(1,2)
    by (auto simp: already_alerted_record dest: already_alerted_less)
  then show ?case
    using Cons.IH [of t'] Cons.prems r by (auto simp: case_prod_beta split: option.splits)
qed simp

text \<open>
  At most one mail per hour.  Over any sequence of passes, with any clock, any reports and any
  failures of the mail server, the windows of the mails sent rise strictly, as long as the state
  could be written after each of them; restarts between passes do not matter because the state is
  in the database.
\<close>

theorem alert_windows_rise:
  assumes "list_all pe_write envs"
  shows "sorted_wrt (<) (map fst (fst (passes s isoformat envs t)))"
  using assms
proof (induction envs arbitrary: t)
  case (Cons env envs)
  obtain res mo t' where r: "run_once s isoformat env t = (res, mo, t')" by (cases "run_once s isoformat env t")
  have "already_alerted (snd (previous_hour_window (pe_now env))) t'" if "mo \<noteq> None"
    using run_once_cases [OF r] Cons.prems that by (auto simp: already_alerted_record)
  with passes_after [of envs _ t' _ _ s isoformat] Cons r show ?case
    by (auto simp: case_prod_beta split: option.splits)
qed simp

text \<open>
  A failed state write repeats the mail.  When the mail went out but the state could not be
  written, the pass raises, the loop swallows it, and the next pass within the hour sends the same
  mail again.
\<close>

theorem alert_repeated:
  assumes "run_once s isoformat env t = (Inl RuntimeError, Some msg, t')"
    and "floor_hour (pe_now env') = floor_hour (pe_now env)" "pe_rows env' = pe_rows env"
    and "send_mail (pe_smtp env') (as_smtp_port s) (as_smtp_user s)"
  shows "fst (snd (run_once s isoformat env' t')) = Some msg"
proof -
  have "previous_hour_window (pe_now env') = previous_hour_window (pe_now env)"
    using assms(2) by (simp add: previous_hour_window_def)
  with run_once_cases [OF assms(1)] assms(3,4) show ?thesis
    by (auto simp: run_once_def Let_def split: if_splits)
qed

section \<open>The loop skips hours\<close>

lemma pass_time_grows:
  assumes "\<And>k. \<delta> \<le> d k"
  shows "t0 + of_nat k * (\<delta> + of_int interval) \<le> pass_time t0 d interval k"
proof (induction k)
  case (Suc k)
  have "t0 + of_nat (Suc k) * (\<delta> + of_int interval) = t0 + of_nat k * (\<delta> + of_int interval) + \<delta> + of_int interval"
    by (simp add: algebra_simps)
  also have "\<dots> \<le> pass_time t0 d interval k + d k + of_int interval"
    using Suc assms [of k] by simp
  finally show ?case by simp
qed simp

definition hour_no :: "rat \<Rightarrow> int" where "hour_no t = \<lfloor>t / 3600\<rfloor>"

lemma window_end: "snd (previous_hour_window t) = of_int (hour_no t * 3600)"
  by (simp add: previous_hour_window_def floor_hour_def hour_no_def Let_def)

lemma window_end_iff: "snd (previous_hour_window t) = of_int (h * 3600) \<longleftrightarrow> hour_no t = h"
  unfolding window_end of_int_eq_iff by simp

lemma hour_no_mono: "s \<le> t \<Longrightarrow> hour_no s \<le> hour_no t"
  by (simp add: hour_no_def floor_mono divide_right_mono)

lemma jump_over:
  fixes f :: "nat \<Rightarrow> int"
  assumes "\<And>k. f k \<le> f (Suc k)" "f 0 + int n < f n"
  obtains k where "f k + 1 < f (Suc k)"
proof (rule ccontr)
  assume no: "\<not> thesis"
  then have "f k \<le> f 0 + int k" for k
  proof (induction k)
    case (Suc k)
    moreover have "\<not> f k + 1 < f (Suc k)" using no that by blast
    ultimately show ?case by simp
  qed simp
  from this [of n] assms(2) show False by simp
qed

text \<open>
  The loop never looks at some hours.  With the default interval of one hour and passes that
  take any time bounded away from zero, there is an hour after the start whose reports no pass ever
  counts, because the next pass falls behind the end of the following hour.
\<close>

theorem alerter_skips_hour:
  assumes "0 < \<delta>" "\<forall>k. \<delta> \<le> d k"
  shows "\<exists>h. floor_hour t0 < of_int (h * 3600) \<and>
     (\<forall>j. snd (previous_hour_window (pass_time t0 d 3600 j)) \<noteq> of_int (h * 3600))"
proof -
  let ?t = "pass_time t0 d 3600" and ?f = "\<lambda>k. hour_no (pass_time t0 d 3600 k)"
  have d: "\<delta> \<le> d k" for k using assms(2) by simp
  have step: "?t k \<le> ?t (Suc k)" for k using d [of k] assms(1) by simp
  then have "?t i \<le> ?t j" if "i \<le> j" for i j
    using that by (rule lift_Suc_mono_le [of ?t])
  then have mono: "i \<le> j \<Longrightarrow> ?f i \<le> ?f j" for i j
    by (simp add: hour_no_mono)
  obtain n where n: "2 * 3600 / \<delta> < of_nat n" using reals_Archimedean2 by blast
  have "?f 0 + int n < ?f n"
  proof -
    have "2 * 3600 < of_nat n * \<delta>" using n assms(1) by (simp add: field_simps)
    then have "t0 / 3600 + of_nat n + 2 < ?t n / 3600"
      using pass_time_grows [of \<delta> d t0 n 3600, OF d] by (simp add: field_simps)
    then show ?thesis unfolding hour_no_def by simp linarith
  qed
  then obtain k where k: "?f k + 1 < ?f (Suc k)"
    using jump_over [of ?f n] mono by (metis le_add2 plus_1_eq_Suc)
  have "?f j \<noteq> ?f k + 1" for j
    using k mono [of j k] mono [of "Suc k" j] by (cases "j \<le> k") auto
  moreover have "?f 0 < ?f k + 1" using mono [of 0 k] by simp
  ultimately have "floor_hour t0 < of_int ((?f k + 1) * 3600)"
      "\<forall>j. snd (previous_hour_window (?t j)) \<noteq> of_int ((?f k + 1) * 3600)"
    unfolding window_end_iff floor_hour_def of_int_less_iff by (simp_all add: hour_no_def)
  then show ?thesis by blast
qed

section \<open>Instances\<close>

definition demo_alerts :: alert_settings where
  "demo_alerts = \<lparr>as_smtp_host = u ''mail'', as_smtp_port = 587, as_smtp_user = [], as_alert_email_from = u ''a@b.kr'',
     as_alert_email_to = u ''c@d.kr'', as_threshold = 1\<rparr>"

definition demo_pass :: "rat \<Rightarrow> bool \<Rightarrow> pass_env" where
  "demo_pass now w = \<lparr>pe_now = now, pe_rows = demo_reports, pe_smtp = (\<lambda>_. True), pe_write = w\<rparr>"

lemma demo_floor: "floor_hour 3700 = 3600" "floor_hour 3800 = 3600"
  by (simp_all add: floor_hour_def floor_eq_iff)

lemma demo_window: "previous_hour_window 3700 = (0, 3600)" "previous_hour_window 3800 = (0, 3600)"
  by (simp_all add: previous_hour_window_def demo_floor Let_def)

lemma demo_run:
  "\<exists>msg. run_once demo_alerts (\<lambda>_. []) (demo_pass 3700 w) Map.empty =
     (if w then (Inr True, Some msg, record_alert 3700 1 3600 Map.empty) else (Inl RuntimeError, Some msg, Map.empty))"
proof -
  have "csv_list (u ''c@d.kr'') = [u ''c@d.kr'']" "strip (u ''c@d.kr'') \<noteq> []"
    by (simp_all add: csv_list_def u_def strip_def is_space_ascii)
  moreover have "header_ok (u ''c@d.kr'')" "header_ok (u ''a@b.kr'')"
    by (simp_all add: header_ok_def u_def is_line_break_def)
  ultimately show ?thesis
    by (simp add: run_once_def Let_def demo_window demo_pass_def enabled_def demo_alerts_def already_alerted_def get_state_def
        window_reports_def demo_reports_def compose_def sender_of_def build_email_def send_mail_def send_steps_def)
qed

theorem alert_windows_rise_witness:
  "list_all pe_write [demo_pass 3700 True, demo_pass 3800 True] \<and>
   sorted_wrt (<) (map fst (fst (passes demo_alerts (\<lambda>_. []) [demo_pass 3700 True, demo_pass 3800 True] Map.empty)))"
proof -
  have w: "list_all pe_write [demo_pass 3700 True, demo_pass 3800 True]" by (simp add: demo_pass_def)
  show ?thesis using w alert_windows_rise [OF w] by blast
qed

theorem alert_repeated_witness:
  "\<exists>msg. fst (snd (run_once demo_alerts (\<lambda>_. []) (demo_pass 3700 False) Map.empty)) = Some msg \<and>
     fst (snd (run_once demo_alerts (\<lambda>_. []) (demo_pass 3800 True) Map.empty)) = Some msg"
proof -
  obtain msg where r: "run_once demo_alerts (\<lambda>_. []) (demo_pass 3700 False) Map.empty = (Inl RuntimeError, Some msg, Map.empty)"
    using demo_run [of False] by auto
  have "fst (snd (run_once demo_alerts (\<lambda>_. []) (demo_pass 3800 True) Map.empty)) = Some msg"
    by (rule alert_repeated [OF r])
      (simp_all add: demo_pass_def demo_floor send_mail_def send_steps_def demo_alerts_def)
  with r show ?thesis by simp
qed

theorem alerter_skips_hour_witness:
  "\<exists>h. floor_hour 0 < of_int (h * 3600) \<and>
     (\<forall>j. snd (previous_hour_window (pass_time 0 (\<lambda>_. 1) 3600 j)) \<noteq> of_int (h * 3600))"
  by (rule alerter_skips_hour [of 1]) simp_all

end
