(* ===== verification/Dashboard.thy ===== *)
theory Dashboard
  imports Auth Settings Audit_Trail Analyzer
begin

text \<open>
  The operator dashboard (\<^verbatim>\<open>app/api/dashboard.py\<close>): credentials, the address gate, sessions,
  the login and settings pages, the two address tables with their caches, and the audit views.
  HTML templates are represented by the data they are given.  Shown are that a page is served only
  in a session that a login with the right credentials opened from the same allowed address less
  than four hours before, when a password change takes effect and when it locks everybody out, and
  that the address caches always hold what the tables hold.
\<close>

section \<open>Credentials and the address gate\<close>

record dash_config =
  dc_username :: ustr
  dc_password :: ustr
  dc_ip_allowlist :: ustr
  dc_trust_forwarded_for :: bool
  dc_limits :: recursion_limits

definition PASSWORD_KEY :: ustr where "PASSWORD_KEY = u ''admin_dashboard_password_override''"

definition active_credentials :: "dash_config \<Rightarrow> settings_file \<Rightarrow> ustr \<times> ustr" where
  "active_credentials cfg f =
     (let pw_override = get_setting (dc_limits cfg) f PASSWORD_KEY;
          pw = (case pw_override of Some (JStr s) \<Rightarrow> if s \<noteq> [] then s else dc_password cfg | _ \<Rightarrow> dc_password cfg) in
      (dc_username cfg, pw))"

definition dashboard_allowlist :: "dash_config \<Rightarrow> ustr list" where
  "dashboard_allowlist cfg = csv_list (strip (dc_ip_allowlist cfg))"

fun dash_ip_loop :: "ip_addr \<Rightarrow> ustr list \<Rightarrow> bool" where
  "dash_ip_loop addr [] = False"
| "dash_ip_loop addr (c # cs) =
     (case ip_network c of
        None \<Rightarrow> dash_ip_loop addr cs
      | Some net \<Rightarrow> if in_net addr net then True else dash_ip_loop addr cs)"

definition ip_allowed :: "dash_config \<Rightarrow> ustr \<Rightarrow> bool" where
  "ip_allowed cfg ip =
     (let cidrs = dashboard_allowlist cfg in
      if cidrs = [] then False
      else case ip_address ip of None \<Rightarrow> False | Some addr \<Rightarrow> dash_ip_loop addr cidrs)"

section \<open>Sessions\<close>

record dash_session =
  se_ip :: ustr
  se_expires :: rat

type_synonym dash_sessions = "(ustr \<times> dash_session) list"

definition SESSION_TTL :: rat where "SESSION_TTL = 4 * 3600"

definition pop_key :: "'k \<Rightarrow> ('k \<times> 'v) list \<Rightarrow> ('k \<times> 'v) list" where
  "pop_key k m = filter (\<lambda>(k', v). k' \<noteq> k) m"

definition create_session :: "ustr \<Rightarrow> ustr \<Rightarrow> rat \<Rightarrow> dash_sessions \<Rightarrow> dash_sessions" where
  "create_session token ip now ss = put token \<lparr>se_ip = ip, se_expires = now + SESSION_TTL\<rparr> ss"

definition purge_expired :: "rat \<Rightarrow> dash_sessions \<Rightarrow> dash_sessions" where
  "purge_expired now ss =
     (let stale = map fst (filter (\<lambda>(sid, meta). se_expires meta < now) ss) in fold pop_key stale ss)"

definition valid_session :: "ustr option \<Rightarrow> ustr \<Rightarrow> rat \<Rightarrow> dash_sessions \<Rightarrow> bool \<times> dash_sessions" where
  "valid_session session_id ip now ss =
     (case session_id of None \<Rightarrow> (False, ss)
      | Some sid \<Rightarrow>
          if sid = [] then (False, ss)
          else let ss' = purge_expired now ss in
            (case map_of ss' sid of None \<Rightarrow> (False, ss')
             | Some meta \<Rightarrow> if se_ip meta \<noteq> ip then (False, ss') else (now \<le> se_expires meta, ss')))"

section \<open>Login and logout\<close>

record dash_state =
  dz_sessions :: dash_sessions
  dz_file :: settings_file

datatype dash_answer =
    Forbidden ustr
  | See_other ustr "(ustr \<times> nat) option"
  | Login_form bool
  | Settings_page settings_dict "string option" bool
  | Dash_error exn

text \<open>\<^verbatim>\<open>secrets.compare_digest\<close> on strings raises for characters outside ASCII.\<close>

definition is_ascii :: "ustr \<Rightarrow> bool" where
  "is_ascii s = list_all (\<lambda>c. c < 128) s"

definition compare_digest :: "ustr \<Rightarrow> ustr \<Rightarrow> exn + bool" where
  "compare_digest a b = (if is_ascii a \<and> is_ascii b then Inr (a = b) else Inl TypeError)"

definition LOGIN_URL :: ustr where "LOGIN_URL = u ''/admin/login''"

text \<open>The dependency of every page: the session id, or the answer \<^verbatim>\<open>DashboardAuthError\<close> carries.\<close>

definition get_dashboard_session ::
  "dash_config \<Rightarrow> http_request \<Rightarrow> ustr option \<Rightarrow> rat \<Rightarrow> dash_state \<Rightarrow> (dash_answer + ustr) \<times> dash_state" where
  "get_dashboard_session cfg rq cookie now st =
     (let ip = client_ip (dc_trust_forwarded_for cfg) rq in
      if \<not> ip_allowed cfg ip then (Inl (Forbidden ip), st)
      else case valid_session cookie ip now (dz_sessions st) of
        (ok, ss) \<Rightarrow>
          (if ok then Inr (the cookie) else Inl (See_other LOGIN_URL None), st\<lparr>dz_sessions := ss\<rparr>))"

definition login_page :: "dash_config \<Rightarrow> http_request \<Rightarrow> dash_answer" where
  "login_page cfg rq =
     (let ip = client_ip (dc_trust_forwarded_for cfg) rq in
      if \<not> ip_allowed cfg ip then Forbidden ip else Login_form False)"

definition credentials_match :: "dash_config \<Rightarrow> settings_file \<Rightarrow> ustr \<Rightarrow> ustr \<Rightarrow> exn + bool" where
  "credentials_match cfg f username password =
     (case active_credentials cfg f of (expected_user, expected_pass) \<Rightarrow>
        case compare_digest username expected_user of
          Inl e \<Rightarrow> Inl e
        | Inr b \<Rightarrow> if b then compare_digest password expected_pass else Inr False)"

definition login_submit ::
  "dash_config \<Rightarrow> http_request \<Rightarrow> ustr \<Rightarrow> ustr \<Rightarrow> ustr \<Rightarrow> rat \<Rightarrow> dash_state \<Rightarrow> dash_answer \<times> dash_state" where
  "login_submit cfg rq username password token now st =
     (let ip = client_ip (dc_trust_forwarded_for cfg) rq in
      if \<not> ip_allowed cfg ip then (Forbidden ip, st)
      else case credentials_match cfg (dz_file st) username password of
        Inl e \<Rightarrow> (Dash_error e, st)
      | Inr False \<Rightarrow> (Login_form True, st)
      | Inr True \<Rightarrow>
          (See_other (u ''/admin/'') (Some (token, 14400)),
           st\<lparr>dz_sessions := create_session token ip now (dz_sessions st)\<rparr>))"

definition logout :: "ustr option \<Rightarrow> dash_state \<Rightarrow> dash_answer \<times> dash_state" where
  "logout cookie st =
     (See_other LOGIN_URL None,
      (case cookie of None \<Rightarrow> st
       | Some sid \<Rightarrow> if sid = [] then st else st\<lparr>dz_sessions := pop_key sid (dz_sessions st)\<rparr>))"

section \<open>Settings pages\<close>

text \<open>A page behind the dependency.\<close>

definition behind_login ::
  "dash_config \<Rightarrow> http_request \<Rightarrow> ustr option \<Rightarrow> rat \<Rightarrow> (dash_state \<Rightarrow> dash_answer \<times> dash_state) \<Rightarrow> dash_state \<Rightarrow>
     dash_answer \<times> dash_state" where
  "behind_login cfg rq cookie now body st =
     (case get_dashboard_session cfg rq cookie now st of
        (Inl a, st') \<Rightarrow> (a, st')
      | (Inr sid, st') \<Rightarrow> body st')"

definition settings_page :: "dash_config \<Rightarrow> dash_state \<Rightarrow> dash_answer \<times> dash_state" where
  "settings_page cfg st = (Settings_page (get_settings_dict (dc_limits cfg) (dz_file st)) None False, st)"

definition settings_change_password ::
  "dash_config \<Rightarrow> ustr \<Rightarrow> ustr \<Rightarrow> ustr \<Rightarrow> dash_state \<Rightarrow> dash_answer \<times> dash_state" where
  "settings_change_password cfg current_password new_password confirm_password st =
     (let refuse = (\<lambda>msg. (Settings_page (get_settings_dict (dc_limits cfg) (dz_file st)) (Some msg) False, st)) in
      case compare_digest current_password (snd (active_credentials cfg (dz_file st))) of
        Inl e \<Rightarrow> (Dash_error e, st)
      | Inr same \<Rightarrow>
          if \<not> same then refuse ''wrong current password''
          else if new_password \<noteq> confirm_password then refuse ''confirmation differs''
          else if length new_password < 4 then refuse ''too short''
          else if new_password = current_password then refuse ''unchanged''
          else case set_value (dc_limits cfg) PASSWORD_KEY (JStr new_password) (dz_file st) of
            (Inl e, f) \<Rightarrow> (Dash_error RuntimeError, st\<lparr>dz_file := f\<rparr>)
          | (Inr _, f) \<Rightarrow> (Settings_page (get_settings_dict (dc_limits cfg) f) None True, st\<lparr>dz_file := f\<rparr>))"

definition settings_toggle :: "dash_config \<Rightarrow> ustr \<Rightarrow> ustr \<Rightarrow> dash_state \<Rightarrow> dash_answer \<times> dash_state" where
  "settings_toggle cfg key enabled st =
     (case set_value (dc_limits cfg) key (JBool (enabled = u ''on'')) (dz_file st) of
        (Inl e, f) \<Rightarrow> (Dash_error RuntimeError, st\<lparr>dz_file := f\<rparr>)
      | (Inr _, f) \<Rightarrow> (See_other (u ''/admin/settings'') None, st\<lparr>dz_file := f\<rparr>))"

definition settings_audit_detail :: "dash_config \<Rightarrow> ustr \<Rightarrow> dash_state \<Rightarrow> dash_answer \<times> dash_state" where
  "settings_audit_detail cfg enabled st = settings_toggle cfg AUDIT_DETAIL enabled st"

definition settings_attachment_scan :: "dash_config \<Rightarrow> ustr \<Rightarrow> dash_state \<Rightarrow> dash_answer \<times> dash_state" where
  "settings_attachment_scan cfg enabled st = settings_toggle cfg ATTACHMENT_SCAN enabled st"

section \<open>A page needs a login\<close>

text \<open>
  What can happen to the sessions of a process: logins, requests of pages, logouts, and writes to
  the settings file by any page.
\<close>

datatype dash_event =
    Login_attempt http_request ustr ustr ustr rat
  | Visit http_request "ustr option" rat
  | Leave "ustr option"
  | Settings_written settings_file

fun dash_step :: "dash_config \<Rightarrow> dash_event \<Rightarrow> dash_state \<Rightarrow> dash_state" where
  "dash_step cfg (Login_attempt rq user pw token now) st = snd (login_submit cfg rq user pw token now st)"
| "dash_step cfg (Visit rq cookie now) st = snd (get_dashboard_session cfg rq cookie now st)"
| "dash_step cfg (Leave cookie) st = snd (logout cookie st)"
| "dash_step cfg (Settings_written f) st = st\<lparr>dz_file := f\<rparr>"

definition dash_run :: "dash_config \<Rightarrow> settings_file \<Rightarrow> dash_event list \<Rightarrow> dash_state" where
  "dash_run cfg f evs = fold (dash_step cfg) evs \<lparr>dz_sessions = [], dz_file = f\<rparr>"

lemma map_of_pop_key: "map_of (pop_key k m) j = (if j = k then None else map_of m j)"
  by (induction m) (auto simp: pop_key_def)

lemma map_of_pops: "map_of (fold pop_key ks m) j = (if j \<in> set ks then None else map_of m j)"
  by (induction ks arbitrary: m) (auto simp: map_of_pop_key)

lemma purge_expired_sub: "map_of (purge_expired now ss) sid = Some m \<Longrightarrow> map_of ss sid = Some m"
  by (auto simp: purge_expired_def map_of_pops split: if_splits)

lemma create_session_lookup:
  "map_of (create_session token ip now ss) sid =
     (if sid = token then Some \<lparr>se_ip = ip, se_expires = now + SESSION_TTL\<rparr> else map_of ss sid)"
  by (simp add: create_session_def map_of_put)

lemma valid_session_accepts:
  assumes "valid_session cookie ip now ss = (True, ss')"
  obtains sid m where "cookie = Some sid" "sid \<noteq> []" "map_of ss sid = Some m" "se_ip m = ip" "now \<le> se_expires m"
  using assms by (auto simp: valid_session_def Let_def dest: purge_expired_sub split: option.splits if_splits)

lemma valid_session_sub: "valid_session cookie ip now ss = (b, ss') \<Longrightarrow> map_of ss' sid = Some m \<Longrightarrow> map_of ss sid = Some m"
  by (auto simp: valid_session_def Let_def dest: purge_expired_sub split: option.splits if_splits)

text \<open>An accepted login opened every session that is in the store.\<close>

definition opened_by :: "dash_config \<Rightarrow> settings_file \<Rightarrow> dash_event list \<Rightarrow> ustr \<Rightarrow> dash_session \<Rightarrow> bool" where
  "opened_by cfg f evs sid m \<longleftrightarrow>
     (\<exists>pre post rq user pw t. evs = pre @ Login_attempt rq user pw sid t # post \<and>
        se_ip m = client_ip (dc_trust_forwarded_for cfg) rq \<and> se_expires m = t + SESSION_TTL \<and> ip_allowed cfg (se_ip m) \<and>
        (user, pw) = active_credentials cfg (dz_file (dash_run cfg f pre)) \<and> Leave (Some sid) \<notin> set post)"

lemma credentials_matchD: "credentials_match cfg f user pw = Inr True \<Longrightarrow> (user, pw) = active_credentials cfg f"
  by (auto simp: credentials_match_def compare_digest_def split: prod.splits if_splits sum.splits)

lemma opened_by_later:
  assumes "opened_by cfg f evs sid m" "ev \<noteq> Leave (Some sid)"
  shows "opened_by cfg f (evs @ [ev]) sid m"
proof -
  obtain pre post rq user pw t where w: "evs = pre @ Login_attempt rq user pw sid t # post"
    "se_ip m = client_ip (dc_trust_forwarded_for cfg) rq" "se_expires m = t + SESSION_TTL" "ip_allowed cfg (se_ip m)"
    "(user, pw) = active_credentials cfg (dz_file (dash_run cfg f pre))" "Leave (Some sid) \<notin> set post"
    using assms(1) unfolding opened_by_def by blast
  have "evs @ [ev] = pre @ Login_attempt rq user pw sid t # (post @ [ev])" "Leave (Some sid) \<notin> set (post @ [ev])"
    using w assms(2) by auto
  with w show ?thesis unfolding opened_by_def by blast
qed

lemma opened_now:
  assumes "credentials_match cfg (dz_file (dash_run cfg f evs)) user pw = Inr True"
    and "ip_allowed cfg (client_ip (dc_trust_forwarded_for cfg) rq)"
  shows "opened_by cfg f (evs @ [Login_attempt rq user pw sid now]) sid
     \<lparr>se_ip = client_ip (dc_trust_forwarded_for cfg) rq, se_expires = now + SESSION_TTL\<rparr>"
  unfolding opened_by_def
  by (rule exI [of _ evs], rule exI [of _ "[]"], rule exI [of _ rq], rule exI [of _ user], rule exI [of _ pw], rule exI [of _ now])
    (simp add: assms(2) credentials_matchD [OF assms(1)])

lemma sessions_opened: "map_of (dz_sessions (dash_run cfg f evs)) sid = Some m \<Longrightarrow> sid \<noteq> [] \<Longrightarrow> opened_by cfg f evs sid m"
proof (induction evs arbitrary: m rule: rev_induct)
  case Nil
  then show ?case by (simp add: dash_run_def)
next
  case (snoc ev evs)
  let ?st = "dash_run cfg f evs"
  have st: "dash_run cfg f (evs @ [ev]) = dash_step cfg ev ?st" by (simp add: dash_run_def)
  have keep: "opened_by cfg f (evs @ [ev]) sid m" if "map_of (dz_sessions ?st) sid = Some m" "ev \<noteq> Leave (Some sid)"
    using snoc.IH [OF that(1) snoc.prems(2)] that(2) by (rule opened_by_later)
  show ?case
  proof (cases ev)
    case (Login_attempt rq user pw token now)
    let ?ip = "client_ip (dc_trust_forwarded_for cfg) rq"
    show ?thesis
    proof (cases "sid = token \<and> ip_allowed cfg ?ip \<and> credentials_match cfg (dz_file ?st) user pw = Inr True")
      case True
      then have "m = \<lparr>se_ip = ?ip, se_expires = now + SESSION_TTL\<rparr>"
        using snoc.prems(1) Login_attempt st by (simp add: login_submit_def Let_def create_session_lookup)
      then show ?thesis
        using opened_now Login_attempt True by simp
    next
      case False
      then have "map_of (dz_sessions ?st) sid = Some m"
        using snoc.prems(1) Login_attempt st
        by (auto simp: login_submit_def Let_def create_session_lookup split: if_splits sum.splits bool.splits)
      then show ?thesis using keep Login_attempt by simp
    qed
  next
    case (Visit rq cookie now)
    then have "map_of (dz_sessions ?st) sid = Some m"
      using snoc.prems(1) st
      by (auto simp: get_dashboard_session_def Let_def dest: valid_session_sub split: if_splits prod.splits)
    then show ?thesis using keep Visit by simp
  next
    case (Leave cookie)
    then have "map_of (dz_sessions ?st) sid = Some m \<and> cookie \<noteq> Some sid"
      using snoc.prems st by (auto simp: logout_def map_of_pop_key split: option.splits if_splits)
    then show ?thesis using keep Leave by simp
  next
    case (Settings_written g)
    then show ?thesis using keep snoc.prems(1) st by simp
  qed
qed

text \<open>
  C32: a page is served only to somebody who logged in.  Whatever logins, visits, logouts and
  settings changes a process has seen, a request passes the dashboard dependency only if its
  session was opened by a login that presented the user name and the password in force at that
  time, from the same and an allowed address, at most four hours before, with no logout of that
  session since.
\<close>

theorem dashboard_needs_login:
  assumes "fst (get_dashboard_session cfg rq cookie now (dash_run cfg f evs)) = Inr sid"
  shows "\<exists>pre post rq' user pw t. evs = pre @ Login_attempt rq' user pw sid t # post \<and>
     (user, pw) = active_credentials cfg (dz_file (dash_run cfg f pre)) \<and>
     client_ip (dc_trust_forwarded_for cfg) rq' = client_ip (dc_trust_forwarded_for cfg) rq \<and>
     ip_allowed cfg (client_ip (dc_trust_forwarded_for cfg) rq) \<and>
     now \<le> t + SESSION_TTL \<and> Leave (Some sid) \<notin> set post \<and> cookie = Some sid"
proof -
  let ?ip = "client_ip (dc_trust_forwarded_for cfg) rq"
  obtain ss' where ok: "ip_allowed cfg ?ip" "valid_session cookie ?ip now (dz_sessions (dash_run cfg f evs)) = (True, ss')" "sid = the cookie"
    using assms by (auto simp: get_dashboard_session_def Let_def split: if_splits prod.splits)
  from valid_session_accepts [OF ok(2)] obtain m where
    m: "cookie = Some sid" "sid \<noteq> []" "map_of (dz_sessions (dash_run cfg f evs)) sid = Some m" "se_ip m = ?ip" "now \<le> se_expires m"
    using ok(3) by (metis option.sel)
  from sessions_opened [OF m(3,2)] m ok(1) show ?thesis
    unfolding opened_by_def by metis
qed

section \<open>Changing the password\<close>

lemma change_succeeds:
  assumes "settings_change_password cfg cur new conf st = (Settings_page d None True, st')" "dump_depth (dc_limits cfg) \<le> load_depth (dc_limits cfg)"
  shows "active_credentials cfg (dz_file st') = (dc_username cfg, new) \<and> dz_sessions st' = dz_sessions st \<and>
     cur = snd (active_credentials cfg (dz_file st)) \<and> new = conf \<and> new \<noteq> cur \<and> 4 \<le> length new"
proof -
  obtain f where f: "set_value (dc_limits cfg) PASSWORD_KEY (JStr new) (dz_file st) = (Inr (), f)" "st' = st\<lparr>dz_file := f\<rparr>"
    "cur = snd (active_credentials cfg (dz_file st))" "new = conf" "new \<noteq> cur" "4 \<le> length new"
    using assms(1) by (auto simp: settings_change_password_def compare_digest_def Let_def split: if_splits sum.splits prod.splits)
  have "get_setting (dc_limits cfg) f PASSWORD_KEY = Some (JStr new)"
    unfolding get_setting_def set_value_dict [OF f(1) _ assms(2), simplified] by (simp add: map_of_put)
  then have "active_credentials cfg f = (dc_username cfg, new)"
    using f(6) by (auto simp: active_credentials_def Let_def)
  with f show ?thesis by simp
qed

text \<open>
  A new password is in force at once, and only it.  After the page has confirmed a change, the
  login accepts from an allowed address exactly the configured user name with the new password, if
  both are ASCII; the sessions that were open stay open.
\<close>

theorem password_change_effective:
  assumes "settings_change_password cfg cur new conf st = (Settings_page d None True, st')" "dump_depth (dc_limits cfg) \<le> load_depth (dc_limits cfg)"
    and "ip_allowed cfg (client_ip (dc_trust_forwarded_for cfg) rq)" "is_ascii (dc_username cfg)" "is_ascii new"
    and "is_ascii user" "is_ascii pw"
  shows "fst (login_submit cfg rq user pw token now st') =
       (if user = dc_username cfg \<and> pw = new then See_other (u ''/admin/'') (Some (token, 14400)) else Login_form True) \<and>
     cur \<noteq> new \<and> dz_sessions st' = dz_sessions st"
  using change_succeeds [OF assms(1,2)] assms(3-)
  by (auto simp: login_submit_def Let_def credentials_match_def compare_digest_def)

text \<open>
  A password with a character outside ASCII locks everybody out.  The page accepts and stores
  such a password; from then on no login from any address with any credentials opens a session, and
  the page that could change the password again raises for every input.
\<close>

theorem non_ascii_password_locks_out:
  assumes "settings_change_password cfg cur new conf st = (Settings_page d None True, st')" "dump_depth (dc_limits cfg) \<le> load_depth (dc_limits cfg)"
    and "\<not> is_ascii new" "dz_file st'' = dz_file st'"
  shows "snd (login_submit cfg rq user pw token now st'') = st'' \<and>
     settings_change_password cfg cur' new' conf' st'' = (Dash_error TypeError, st'')"
proof -
  have c: "active_credentials cfg (dz_file st'') = (dc_username cfg, new)"
    using change_succeeds [OF assms(1,2)] assms(4) by simp
  then have "credentials_match cfg (dz_file st'') user pw \<noteq> Inr True"
    using assms(3) by (simp add: credentials_match_def compare_digest_def split: sum.splits)
  then have "snd (login_submit cfg rq user pw token now st'') = st''"
    by (auto simp: login_submit_def Let_def split: sum.splits bool.splits)
  with c assms(3) show ?thesis by (simp add: settings_change_password_def compare_digest_def)
qed

section \<open>Address tables and their caches\<close>

text \<open>
  A table with a cache in front of it: if every operation leaves the cache what a load of the table
  would give, so does every sequence of operations.
\<close>

locale write_through =
  fixes rows :: "'s \<Rightarrow> 'r list" and cache :: "'s \<Rightarrow> 'c" and load :: "'r list \<Rightarrow> 'c" and step :: "'op \<Rightarrow> 's \<Rightarrow> 's"
  assumes step_coherent: "cache s = load (rows s) \<Longrightarrow> cache (step op s) = load (rows (step op s))"
begin

lemma run_coherent: "cache s = load (rows s) \<Longrightarrow> cache (fold step ops s) = load (rows (fold step ops s))"
  by (induction ops arbitrary: s) (simp_all add: step_coherent)

end

record exception_ip =
  xi_id :: nat
  xi_label :: ustr
  xi_row :: exception_row

record exception_store =
  xs_rows :: "exception_ip list"
  xs_next :: nat
  xs_cache :: "ustr list"

datatype table_answer = Bad_cidr ustr | Back_to_list

text \<open>Whether the write commits and whether the query of the reload succeeds.\<close>

record db_health =
  db_commit :: bool
  db_query :: bool

definition reload_exceptions :: "db_health \<Rightarrow> exception_store \<Rightarrow> exception_store" where
  "reload_exceptions db st =
     st\<lparr>xs_cache := snd (reload_exception_ips (if db_query db then Some (map xi_row (xs_rows st)) else None) (xs_cache st))\<rparr>"

definition exception_ips_create :: "db_health \<Rightarrow> ustr \<Rightarrow> ustr \<Rightarrow> exception_store \<Rightarrow> table_answer \<times> exception_store" where
  "exception_ips_create db cidr0 label0 st =
     (let cidr = strip cidr0; label = strip label0 in
      if ip_network cidr = None then (Bad_cidr cidr, st)
      else if db_commit db \<and> fits 50 cidr \<and> fits 200 label \<and> cidr \<notin> set (map (ex_cidr \<circ> xi_row) (xs_rows st))
      then (Back_to_list, reload_exceptions db
              (st\<lparr>xs_rows := xs_rows st @ [\<lparr>xi_id = xs_next st, xi_label = label, xi_row = \<lparr>ex_cidr = cidr, ex_enabled = True\<rparr>\<rparr>],
                 xs_next := Suc (xs_next st)\<rparr>))
      else (Back_to_list, st))"

definition exception_ips_delete :: "db_health \<Rightarrow> nat \<Rightarrow> exception_store \<Rightarrow> table_answer \<times> exception_store" where
  "exception_ips_delete db row_id st =
     (if db_commit db then (Back_to_list, reload_exceptions db (st\<lparr>xs_rows := filter (\<lambda>x. xi_id x \<noteq> row_id) (xs_rows st)\<rparr>))
      else (Back_to_list, st))"

text \<open>Newest first, for the page.\<close>

definition list_exception_ips :: "db_health \<Rightarrow> exception_store \<Rightarrow> exception_ip list" where
  "list_exception_ips db st = (if db_query db then rev (sort_key xi_id (xs_rows st)) else [])"

record caller_ip =
  ci_id :: nat
  ci_row :: ip_caller_row

record caller_store =
  cs_rows :: "caller_ip list"
  cs_next :: nat
  cs_cache :: "ip_caller_entry list"

definition reload_callers :: "db_health \<Rightarrow> caller_store \<Rightarrow> caller_store" where
  "reload_callers db st =
     st\<lparr>cs_cache := snd (reload_api_ip_callers (if db_query db then Some (map ci_row (cs_rows st)) else None) (cs_cache st))\<rparr>"

definition api_callers_create :: "db_health \<Rightarrow> ustr \<Rightarrow> ustr \<Rightarrow> int \<Rightarrow> int \<Rightarrow> caller_store \<Rightarrow> table_answer \<times> caller_store" where
  "api_callers_create db cidr0 name0 rate_per_minute rate_per_hour st =
     (let cidr = strip cidr0; name = strip name0 in
      if ip_network cidr = None then (Back_to_list, st)
      else if rate_per_minute \<le> 0 \<or> rate_per_hour \<le> 0 then (Back_to_list, st)
      else if db_commit db \<and> fits 50 cidr \<and> fits 200 name \<and> rate_per_minute < 2 ^ 31 \<and> rate_per_hour < 2 ^ 31 \<and>
              cidr \<notin> set (map (ce_cidr \<circ> cr_entry \<circ> ci_row) (cs_rows st))
      then (Back_to_list, reload_callers db
              (st\<lparr>cs_rows := cs_rows st @ [\<lparr>ci_id = cs_next st,
                   ci_row = \<lparr>cr_entry = \<lparr>ce_cidr = cidr, ce_name = name, ce_rate_per_minute = nat rate_per_minute,
                                         ce_rate_per_hour = nat rate_per_hour\<rparr>, cr_enabled = True\<rparr>\<rparr>],
                 cs_next := Suc (cs_next st)\<rparr>))
      else (Back_to_list, st))"

definition api_callers_delete :: "db_health \<Rightarrow> nat \<Rightarrow> caller_store \<Rightarrow> table_answer \<times> caller_store" where
  "api_callers_delete db row_id st =
     (if db_commit db then (Back_to_list, reload_callers db (st\<lparr>cs_rows := filter (\<lambda>x. ci_id x \<noteq> row_id) (cs_rows st)\<rparr>))
      else (Back_to_list, st))"

datatype exception_op = Add_exception bool ustr ustr | Drop_exception bool nat
datatype caller_op = Add_caller bool ustr ustr int int | Drop_caller bool nat

text \<open>Operations with a database that may refuse the write but answers the query.\<close>

fun exception_step :: "exception_op \<Rightarrow> exception_store \<Rightarrow> exception_store" where
  "exception_step (Add_exception ok cidr label) st = snd (exception_ips_create \<lparr>db_commit = ok, db_query = True\<rparr> cidr label st)"
| "exception_step (Drop_exception ok i) st = snd (exception_ips_delete \<lparr>db_commit = ok, db_query = True\<rparr> i st)"

fun caller_step :: "caller_op \<Rightarrow> caller_store \<Rightarrow> caller_store" where
  "caller_step (Add_caller ok cidr name rpm rph) st = snd (api_callers_create \<lparr>db_commit = ok, db_query = True\<rparr> cidr name rpm rph st)"
| "caller_step (Drop_caller ok i) st = snd (api_callers_delete \<lparr>db_commit = ok, db_query = True\<rparr> i st)"

definition load_exceptions :: "exception_ip list \<Rightarrow> ustr list" where
  "load_exceptions rows = snd (reload_exception_ips (Some (map xi_row rows)) [])"

definition load_callers :: "caller_ip list \<Rightarrow> ip_caller_entry list" where
  "load_callers rows = snd (reload_api_ip_callers (Some (map ci_row rows)) [])"

lemma reload_exceptions_load: "db_query db \<Longrightarrow> xs_cache (reload_exceptions db st) = load_exceptions (xs_rows (reload_exceptions db st))"
  by (simp add: reload_exceptions_def load_exceptions_def reload_exception_ips_def Let_def)

lemma reload_callers_load: "db_query db \<Longrightarrow> cs_cache (reload_callers db st) = load_callers (cs_rows (reload_callers db st))"
  by (simp add: reload_callers_def load_callers_def reload_api_ip_callers_def Let_def)

interpretation exception_table: write_through xs_rows xs_cache load_exceptions exception_step
proof
  fix s :: exception_store and op assume c: "xs_cache s = load_exceptions (xs_rows s)"
  show "xs_cache (exception_step op s) = load_exceptions (xs_rows (exception_step op s))"
    by (cases op) (simp_all add: exception_ips_create_def exception_ips_delete_def Let_def c reload_exceptions_load)
qed

interpretation caller_table: write_through cs_rows cs_cache load_callers caller_step
proof
  fix s :: caller_store and op assume c: "cs_cache s = load_callers (cs_rows s)"
  show "cs_cache (caller_step op s) = load_callers (cs_rows (caller_step op s))"
    by (cases op) (simp_all add: api_callers_create_def api_callers_delete_def Let_def c reload_callers_load)
qed

lemma exception_loop_iff:
  "exception_loop addr cs \<longleftrightarrow> (\<exists>c \<in> set cs. \<exists>net. ip_network (strip c) = Some net \<and> in_net addr net)"
  by (induction addr cs rule: exception_loop.induct) (auto split: option.splits)

lemma parse_empty: "ip_address [] = None" "ip_network (strip []) = None"
  by (simp_all add: ip_address_def parse_ipv4_def parse_ipv6_def parse_ipv6_int_def ip_network_def network4_def network6_def strip_def)

definition in_exception :: "ustr \<Rightarrow> exception_ip \<Rightarrow> bool" where
  "in_exception ip x \<longleftrightarrow> ex_enabled (xi_row x) \<and>
     (case (ip_address ip, ip_network (strip (ex_cidr (xi_row x)))) of (Some addr, Some net) \<Rightarrow> in_net addr net | _ \<Rightarrow> False)"

lemma is_exception_load: "is_exception_ip (load_exceptions rows) ip \<longleftrightarrow> list_ex (in_exception ip) rows"
proof (cases "ip_address ip")
  case None
  then show ?thesis by (auto simp: is_exception_ip_def in_exception_def list_ex_iff)
next
  case (Some addr)
  then have ne: "ip \<noteq> []" using parse_empty(1) by auto
  have "is_exception_ip (load_exceptions rows) ip \<longleftrightarrow> exception_loop addr (load_exceptions rows)"
    using Some ne by (auto simp: is_exception_ip_def)
  also have "\<dots> \<longleftrightarrow> list_ex (in_exception ip) rows"
    using Some parse_empty(2)
    by (fastforce simp: exception_loop_iff load_exceptions_def reload_exception_ips_def Let_def in_exception_def list_ex_iff
        split: option.splits)
  finally show ?thesis .
qed

definition table_wf :: "exception_store \<Rightarrow> bool" where
  "table_wf st \<longleftrightarrow> distinct (map (ex_cidr \<circ> xi_row) (xs_rows st)) \<and>
     list_all (\<lambda>x. ip_network (ex_cidr (xi_row x)) \<noteq> None \<and> fits 50 (ex_cidr (xi_row x))) (xs_rows st)"

lemma table_wf_step: "table_wf st \<Longrightarrow> table_wf (exception_step op st)"
  by (cases op) (auto simp: table_wf_def exception_ips_create_def exception_ips_delete_def reload_exceptions_def Let_def
      list_all_iff distinct_map_filter)

text \<open>
  The exception page is what detection uses.  After any sequence of additions and deletions
  through the page, with any refused writes, an author address counts as exempt exactly when an
  enabled row of the table names a network that contains it; every row holds a well-formed network
  and no network is listed twice.
\<close>

theorem exception_page_effective:
  "is_exception_ip (xs_cache (fold exception_step ops \<lparr>xs_rows = [], xs_next = 1, xs_cache = []\<rparr>)) ip =
     list_ex (in_exception ip) (xs_rows (fold exception_step ops \<lparr>xs_rows = [], xs_next = 1, xs_cache = []\<rparr>)) \<and>
   table_wf (fold exception_step ops \<lparr>xs_rows = [], xs_next = 1, xs_cache = []\<rparr>)"
proof -
  let ?st = "\<lparr>xs_rows = [], xs_next = 1, xs_cache = []\<rparr>"
  have "table_wf st \<Longrightarrow> table_wf (fold exception_step ops st)" for st
    by (induction ops arbitrary: st) (simp_all add: table_wf_step)
  then have "table_wf (fold exception_step ops ?st)" by (simp add: table_wf_def)
  moreover have "xs_cache ?st = load_exceptions (xs_rows ?st)" by (simp add: load_exceptions_def reload_exception_ips_def)
  ultimately show ?thesis
    using exception_table.run_coherent [of ?st ops] is_exception_load by simp
qed

section \<open>Audit views\<close>

definition AUDIT_PAGE_SIZE :: nat where "AUDIT_PAGE_SIZE = 100"

definition is_blocked_response :: "int option \<Rightarrow> ustr option \<Rightarrow> bool" where
  "is_blocked_response http_status response_code =
     (if (case http_status of None \<Rightarrow> False | Some n \<Rightarrow> 400 \<le> n) then True
      else case response_code of None \<Rightarrow> False
        | Some c \<Rightarrow> c \<noteq> [] \<and> (starts_with c (u ''BLOCK-'') \<or> starts_with c (u ''REQ-'') \<or> starts_with c (u ''SVR-'')))"

text \<open>\<^verbatim>\<open>ORDER BY occurred_at DESC LIMIT 100\<close>; rows of the same instant come in some order.\<close>

definition newest_page :: "audit_row list \<Rightarrow> audit_row list" where
  "newest_page rows = take AUDIT_PAGE_SIZE (rev (sort_key au_occurred_at rows))"

definition audit_list :: "audit_row list option \<Rightarrow> audit_row list" where
  "audit_list db = (case db of None \<Rightarrow> [] | Some rows \<Rightarrow> newest_page rows)"

definition code_like :: "string \<Rightarrow> audit_row \<Rightarrow> bool" where
  "code_like p r = (case au_response_code r of None \<Rightarrow> False | Some c \<Rightarrow> starts_with c (u p))"

record pii_audit_view =
  pv_rows :: "audit_row list"
  pv_tab :: ustr
  pv_all :: nat
  pv_pass :: nat
  pv_block :: nat

definition pii_audit_list :: "ustr \<Rightarrow> audit_row list option \<Rightarrow> pii_audit_view" where
  "pii_audit_list tab db =
     (let base = (case db of None \<Rightarrow> [] | Some rows \<Rightarrow> filter (\<lambda>r. au_path r = u ''/v1/detect/post'') rows);
          shown = (if tab = u ''pass'' then filter (code_like ''OK-'') base
                   else if tab = u ''block'' then filter (code_like ''BLOCK-'') base else base) in
      \<lparr>pv_rows = newest_page shown,
       pv_tab = (if tab \<in> {u ''all'', u ''pass'', u ''block''} then tab else u ''all''),
       pv_all = length base, pv_pass = length (filter (code_like ''OK-'') base),
       pv_block = length (filter (code_like ''BLOCK-'') base)\<rparr>)"

definition verdict_for_code :: "ustr \<Rightarrow> string" where
  "verdict_for_code code =
     (if starts_with code (u ''BLOCK-'') then ''BLOCK''
      else if starts_with code (u ''WARN-'') then ''WARN'' else ''PASS'')"

text \<open>
  Iterating over a JSON value as \<^verbatim>\<open>for d in (x or [])\<close> does: a string gives its characters and
  an object its keys, neither of which is an object; numbers and \<^verbatim>\<open>true\<close> cannot be iterated.
\<close>

fun objects_in :: "json option \<Rightarrow> exn + json list" where
  "objects_in None = Inr []"
| "objects_in (Some v) =
     (if \<not> truthy_json v then Inr []
      else case v of JArr vs \<Rightarrow> Inr (filter (\<lambda>d. case d of JObj _ \<Rightarrow> True | _ \<Rightarrow> False) vs)
        | JStr _ \<Rightarrow> Inr [] | JObj _ \<Rightarrow> Inr [] | _ \<Rightarrow> Inl TypeError)"

definition extract_detections :: "nat \<Rightarrow> ustr option \<Rightarrow> exn + json list" where
  "extract_detections depth response_body_text =
     (case response_body_text of None \<Rightarrow> Inr []
      | Some s \<Rightarrow>
          if s = [] then Inr []
          else case loads depth s of
            Inr (JObj env) \<Rightarrow>
              (case objects_in (map_of env (u ''detections'')) of Inl e \<Rightarrow> Inl e
               | Inr ds \<Rightarrow>
                   (case map_of env (u ''body_result'') of
                      Some (JObj br) \<Rightarrow> map_sum id ((@) ds) (objects_in (map_of br (u ''detections'')))
                    | _ \<Rightarrow> Inr ds))
          | _ \<Rightarrow> Inr [])"

datatype detail_page = Not_found | Detail audit_row "json list" | Detail_error exn

definition audit_detail :: "nat \<Rightarrow> nat \<Rightarrow> audit_row list option \<Rightarrow> detail_page" where
  "audit_detail depth event_id db =
     (case db of None \<Rightarrow> Not_found
      | Some rows \<Rightarrow>
          (case find (\<lambda>r. au_id r = event_id) rows of None \<Rightarrow> Not_found
           | Some row \<Rightarrow>
               (case extract_detections depth (au_response_body_text row) of
                  Inl e \<Rightarrow> Detail_error e | Inr ds \<Rightarrow> Detail row ds)))"

text \<open>
  The filter that re-prints JSON with its Korean text readable; what does not parse is shown as it
  is, and a value too deep for the printer raises.
\<close>

definition pretty_json_filter :: "recursion_limits \<Rightarrow> ustr \<Rightarrow> exn + ustr" where
  "pretty_json_filter rl s =
     (if s = [] then Inr []
      else let stripped = dropWhile is_space s in
        if stripped = [] \<or> hd stripped \<notin> {123, 91} then Inr s
        else case loads (load_depth rl) s of Inl e \<Rightarrow> Inr s
          | Inr v \<Rightarrow> if dump_depth rl < json_depth v then Inl RuntimeError else Inr (dumps (Some 2) 0 v))"

text \<open>
  Re-printing changes the layout only.  What the filter shows for a stored body that is a JSON
  document parses to the same document; a body that is none is shown unchanged.
\<close>

theorem pretty_json_faithful:
  assumes "pretty_json_filter rl s = Inr t" "dump_depth rl \<le> load_depth rl"
  shows "loads (load_depth rl) t = loads (load_depth rl) s \<and> (case loads (load_depth rl) s of Inl e \<Rightarrow> t = s | Inr v \<Rightarrow> True)"
  using assms loads_wf [of "load_depth rl" s] loads_dumps
  by (fastforce simp: pretty_json_filter_def Let_def split: if_splits sum.splits)

section \<open>Instances\<close>

definition demo_dash :: dash_config where
  "demo_dash = \<lparr>dc_username = u ''admin'', dc_password = u ''first'', dc_ip_allowlist = u ''10.0.0.7'',
     dc_trust_forwarded_for = False, dc_limits = \<lparr>load_depth = 900, dump_depth = 300\<rparr>\<rparr>"

definition demo_visitor :: http_request where
  "demo_visitor = \<lparr>rq_method = u ''POST'', rq_path = u ''/admin/login'', rq_body = [], rq_headers = [], rq_client = Some (u ''10.0.0.7'')\<rparr>"

lemma demo_dash_client: "client_ip (dc_trust_forwarded_for demo_dash) demo_visitor = u ''10.0.0.7''"
  by (simp add: client_ip_def demo_dash_def demo_visitor_def)

lemma demo_dash_ip: "ip_allowed demo_dash (u ''10.0.0.7'')"
proof -
  have st: "strip (u ''10.0.0.7'') = u ''10.0.0.7''"
    by (rule strip_no_space) (auto simp: u_def is_space_ascii)
  have p: "parse_ipv4 (u ''10.0.0.7'') = Some 167772167"
    by (simp add: u_def parse_ipv4_def parse_octet_def ascii_digits_def int_of_digits_def)
  have "csv_list (u ''10.0.0.7'') = [u ''10.0.0.7'']"
    using st by (simp add: csv_list_def) (simp add: u_def)
  moreover have "ip_network (u ''10.0.0.7'') = Some (Net4 167772167 32)"
    using p by (simp add: ip_network_def network4_def) (simp add: u_def)
  moreover have "ip_address (u ''10.0.0.7'') = Some (V4 167772167)"
    using p by (simp add: ip_address_def) (simp add: u_def)
  moreover have "mask 32 = (- 1 :: 32 word)" by (rule bit_word_eqI) (simp add: bit_simps)
  ultimately show ?thesis
    using st by (simp add: ip_allowed_def dashboard_allowlist_def demo_dash_def Let_def mask4_def)
qed

lemma demo_dash_credentials: "active_credentials demo_dash Missing = (u ''admin'', u ''first'')"
  by (simp add: active_credentials_def get_setting_def get_settings_dict_def DEFAULTS_def demo_dash_def
      PASSWORD_KEY_def AUDIT_DETAIL_def ATTACHMENT_SCAN_def)

lemma demo_dash_visit:
  "fst (get_dashboard_session demo_dash demo_visitor (Some (u ''t'')) 5
     (dash_run demo_dash Missing [Login_attempt demo_visitor (u ''admin'') (u ''first'') (u ''t'') 0])) = Inr (u ''t'')"
proof -
  have "credentials_match demo_dash Missing (u ''admin'') (u ''first'') = Inr True"
    by (simp add: credentials_match_def demo_dash_credentials compare_digest_def is_ascii_def u_def)
  then show ?thesis
    by (simp add: get_dashboard_session_def dash_run_def login_submit_def Let_def demo_dash_client demo_dash_ip
        create_session_def valid_session_def purge_expired_def SESSION_TTL_def)
qed

lemma demo_dash_change:
  assumes "new = u ''second'' \<or> new = [51204, 51204, 51204, 51204]"
  shows "\<exists>d st'. settings_change_password demo_dash (u ''first'') new new \<lparr>dz_sessions = [], dz_file = Missing\<rparr> =
     (Settings_page d None True, st')"
proof -
  have g: "get_settings_dict (dc_limits demo_dash) Missing = DEFAULTS" by (simp add: get_settings_dict_def)
  have "fst (set_value (dc_limits demo_dash) PASSWORD_KEY (JStr new) Missing) = Inr ()"
    using assms by (intro set_value_succeeds; unfold g)
      (auto simp: DEFAULTS_def AUDIT_DETAIL_def ATTACHMENT_SCAN_def PASSWORD_KEY_def demo_dash_def u_def encodable_def)
  then show ?thesis
    using assms demo_dash_credentials
    by (cases "set_value (dc_limits demo_dash) PASSWORD_KEY (JStr new) Missing")
      (auto simp: settings_change_password_def compare_digest_def is_ascii_def u_def)
qed

theorem dashboard_needs_login_witness:
  "\<exists>pre post rq' user pw t. [Login_attempt demo_visitor (u ''admin'') (u ''first'') (u ''t'') 0] =
     pre @ Login_attempt rq' user pw (u ''t'') t # post \<and> 5 \<le> t + SESSION_TTL"
  using dashboard_needs_login [OF demo_dash_visit] by blast

theorem password_change_effective_witness:
  "\<exists>st'. fst (login_submit demo_dash demo_visitor (u ''admin'') (u ''second'') (u ''t'') 0 st') = See_other (u ''/admin/'') (Some (u ''t'', 14400)) \<and>
     fst (login_submit demo_dash demo_visitor (u ''admin'') (u ''first'') (u ''t'') 0 st') = Login_form True"
proof -
  obtain d st' where c: "settings_change_password demo_dash (u ''first'') (u ''second'') (u ''second'') \<lparr>dz_sessions = [], dz_file = Missing\<rparr> =
     (Settings_page d None True, st')" using demo_dash_change by blast
  have n: "dc_username demo_dash = u ''admin''" "dump_depth (dc_limits demo_dash) \<le> load_depth (dc_limits demo_dash)"
    by (simp_all add: demo_dash_def)
  have a: "is_ascii (u ''admin'')" "is_ascii (u ''second'')" "is_ascii (u ''first'')"
    by (simp_all add: is_ascii_def u_def)
  show ?thesis
    using password_change_effective [OF c n(2), of demo_visitor "u ''admin''" "u ''second''" "u ''t''" 0]
      password_change_effective [OF c n(2), of demo_visitor "u ''admin''" "u ''first''" "u ''t''" 0]
    by (intro exI [of _ st']) (simp add: n a demo_dash_client demo_dash_ip)
qed

theorem non_ascii_password_locks_out_witness:
  "\<exists>st'. settings_change_password demo_dash (u ''second'') (u ''third'') (u ''third'') st' = (Dash_error TypeError, st')"
proof -
  obtain d st' where c: "settings_change_password demo_dash (u ''first'') [51204, 51204, 51204, 51204] [51204, 51204, 51204, 51204]
     \<lparr>dz_sessions = [], dz_file = Missing\<rparr> = (Settings_page d None True, st')" using demo_dash_change by blast
  have "settings_change_password demo_dash (u ''second'') (u ''third'') (u ''third'') st' = (Dash_error TypeError, st')"
    using non_ascii_password_locks_out [OF c, of st'] by (simp add: demo_dash_def is_ascii_def)
  then show ?thesis by blast
qed

theorem pretty_json_faithful_witness:
  "loads 900 (dumps (Some 2) 0 (JArr [])) = loads 900 (u ''[]'')"
proof -
  have "loads 900 (u ''[]'') = Inr (JArr [])"
    using loads_dumps [of "JArr []" 900 None 0] by (simp add: wrap_def u_def)
  then have "pretty_json_filter \<lparr>load_depth = 900, dump_depth = 300\<rparr> (u ''[]'') = Inr (dumps (Some 2) 0 (JArr []))"
    by (simp add: pretty_json_filter_def u_def is_space_ascii)
  from pretty_json_faithful [OF this] show ?thesis by simp
qed

end
