(* ===== verification/Test_Page.thy ===== *)
theory Test_Page
  imports Dashboard Json
begin

text \<open>
  The test page of the dashboard: the process-local store of test runs
  (\<^verbatim>\<open>app/api/dashboard_test_runtime.py\<close>), the two endpoints the worker calls back, the API key the
  page issues for itself, and the handler that stages the uploads, signs a request to the gateway's
  own detection endpoint, waits for the callback and merges the answers
  (\<^verbatim>\<open>app/api/dashboard.py\<close>).  Shown are the bound on the store, that a run is visible to its
  token only and ends, that the key is reused, and that the request the page builds is one the
  authentication of the gateway accepts.
\<close>

section \<open>Test runs\<close>

record staged_file =
  sf_attachment_id :: ustr
  sf_filename :: ustr
  sf_mime_type :: ustr
  sf_data :: bytes
  sf_sha256 :: ustr

record test_session =
  ts_token :: ustr
  ts_files :: "(ustr \<times> staged_file) list"
  ts_callback_event :: bool
  ts_callback_payload :: "json option"
  ts_created_at :: rat

type_synonym test_sessions = "(ustr \<times> test_session) list"

definition TTL_SECONDS :: rat where "TTL_SECONDS = 600"
definition MAX_SESSIONS :: nat where "MAX_SESSIONS = 32"

definition prune_expired :: "rat \<Rightarrow> test_sessions \<Rightarrow> test_sessions" where
  "prune_expired now ss =
     fold pop_key (map fst (filter (\<lambda>(t, s). now - ts_created_at s > TTL_SECONDS) ss)) ss"

text \<open>\<^verbatim>\<open>min(..., key=created_at)\<close>: the first of the oldest.\<close>

definition oldest :: "test_sessions \<Rightarrow> test_session" where
  "oldest ss = hd (sort_key ts_created_at (map snd ss))"

definition create_test_session :: "ustr \<Rightarrow> rat \<Rightarrow> test_sessions \<Rightarrow> test_session \<times> test_sessions" where
  "create_test_session token now ss =
     (let sess = \<lparr>ts_token = token, ts_files = [], ts_callback_event = False, ts_callback_payload = None, ts_created_at = now\<rparr>;
          ss1 = prune_expired now ss;
          ss2 = (if length ss1 \<ge> MAX_SESSIONS then pop_key (ts_token (oldest ss1)) ss1 else ss1) in
      (sess, put token sess ss2))"

definition get_test_session :: "ustr \<Rightarrow> rat \<Rightarrow> test_sessions \<Rightarrow> test_session option \<times> test_sessions" where
  "get_test_session token now ss =
     (case map_of ss token of None \<Rightarrow> (None, ss)
      | Some sess \<Rightarrow> if now - ts_created_at sess > TTL_SECONDS then (None, pop_key token ss) else (Some sess, ss))"

definition end_test_session :: "ustr \<Rightarrow> test_sessions \<Rightarrow> test_sessions" where
  "end_test_session token ss = pop_key token ss"

section \<open>The endpoints of the worker\<close>

text \<open>\<^verbatim>\<open>filename.encode("ascii", "replace")\<close> and \<^verbatim>\<open>urllib.parse.quote\<close>.\<close>

definition ascii_replace :: "ustr \<Rightarrow> ustr" where
  "ascii_replace s = map (\<lambda>c. if c < 128 then c else 63) s"

definition quote_safe :: "nat \<Rightarrow> bool" where
  "quote_safe b \<longleftrightarrow> 48 \<le> b \<and> b \<le> 57 \<or> 65 \<le> b \<and> b \<le> 90 \<or> 97 \<le> b \<and> b \<le> 122 \<or> b \<in> {95, 46, 45, 126, 47}"

definition upper_hex :: "nat \<Rightarrow> nat" where
  "upper_hex d = (if d < 10 then 48 + d else 55 + d)"

definition urlquote :: "ustr \<Rightarrow> ustr" where
  "urlquote s = concat (map (\<lambda>b. let n = unat b in if quote_safe n then [n] else [37, upper_hex (n div 16), upper_hex (n mod 16)]) (utf8_encode s))"

datatype fetch_answer = No_session | Not_staged | Staged bytes ustr ustr

definition dashboard_test_fetch :: "ustr \<Rightarrow> ustr \<Rightarrow> rat \<Rightarrow> test_sessions \<Rightarrow> fetch_answer \<times> test_sessions" where
  "dashboard_test_fetch token attachment_id now ss =
     (case get_test_session token now ss of
        (None, ss') \<Rightarrow> (No_session, ss')
      | (Some sess, ss') \<Rightarrow>
          (case map_of (ts_files sess) attachment_id of
             None \<Rightarrow> (Not_staged, ss')
           | Some staged \<Rightarrow>
               (Staged (sf_data staged) (sf_mime_type staged)
                  (u ''inline; filename='' @ [34] @ ascii_replace (sf_filename staged) @ [34] @
                   u ''; filename*=UTF-8'' @ [39, 39] @ urlquote (sf_filename staged)), ss')))"

datatype callback_answer = Expired_ok | Invalid_json | Not_object | Callback_ok

text \<open>\<open>parsed\<close> is what \<^verbatim>\<open>await request.json()\<close> gives.\<close>

definition dashboard_test_callback ::
  "ustr \<Rightarrow> exn + json \<Rightarrow> rat \<Rightarrow> test_sessions \<Rightarrow> callback_answer \<times> test_sessions" where
  "dashboard_test_callback token parsed now ss =
     (case get_test_session token now ss of
        (None, ss') \<Rightarrow> (Expired_ok, ss')
      | (Some sess, ss') \<Rightarrow>
          (case parsed of
             Inl e \<Rightarrow> (Invalid_json, ss')
           | Inr (JObj kvs) \<Rightarrow>
               (Callback_ok, put token (sess\<lparr>ts_callback_payload := Some (JObj kvs), ts_callback_event := True\<rparr>) ss')
           | Inr _ \<Rightarrow> (Not_object, ss')))"

section \<open>The key of the page\<close>

definition TEST_KEY_ID :: ustr where "TEST_KEY_ID = u ''dashboard_test_api_key_id''"
definition TEST_SECRET :: ustr where "TEST_SECRET = u ''dashboard_test_api_secret''"

definition stored_key :: "recursion_limits \<Rightarrow> api_key list \<Rightarrow> settings_file \<Rightarrow> (ustr \<times> ustr) option" where
  "stored_key rl keys f =
     (case (get_setting rl f TEST_KEY_ID, get_setting rl f TEST_SECRET) of
        (Some (JStr key_id), Some (JStr secret)) \<Rightarrow>
          (case find_active_key keys key_id of
             None \<Rightarrow> None
           | Some row \<Rightarrow> if ak_enabled row \<and> ak_revoked_at row = None then Some (key_id, secret) else None)
      | _ \<Rightarrow> None)"

text \<open>
  The new key id and secret are random; the key is committed before the two settings are written.
\<close>

definition ensure_dashboard_test_key ::
  "recursion_limits \<Rightarrow> ustr \<Rightarrow> ustr \<Rightarrow> rat \<Rightarrow> api_key list \<Rightarrow> settings_file \<Rightarrow>
     (exn + ustr \<times> ustr) \<times> api_key list \<times> settings_file" where
  "ensure_dashboard_test_key rl new_id new_secret now keys f =
     (case stored_key rl keys f of
        Some ks \<Rightarrow> (Inr ks, keys, f)
      | None \<Rightarrow>
          (case issue_api_key keys new_id new_secret (u ''__dashboard_test__'') None 600 10000 (u ''admin-dashboard'') False now of
             Inl e \<Rightarrow> (Inl RuntimeError, keys, f)
           | Inr ((row, secret), keys') \<Rightarrow>
               (case set_value rl TEST_KEY_ID (JStr (ak_key_id row)) f of
                  (Inl e, f1) \<Rightarrow> (Inl RuntimeError, keys', f1)
                | (Inr _, f1) \<Rightarrow>
                    (case set_value rl TEST_SECRET (JStr secret) f1 of
                       (Inl e, f2) \<Rightarrow> (Inl RuntimeError, keys', f2)
                     | (Inr _, f2) \<Rightarrow> (Inr (ak_key_id row, secret), keys', f2)))))"

section \<open>The handler\<close>

definition DASHBOARD_TEST_MAX_ATTACHMENTS :: nat where "DASHBOARD_TEST_MAX_ATTACHMENTS = 3"
definition DASHBOARD_TEST_MAX_ATTACHMENT_BYTES :: nat where "DASHBOARD_TEST_MAX_ATTACHMENT_BYTES = 20 * 1024 * 1024"

definition DASHBOARD_TEST_ALLOWED_MIME :: "string list" where
  "DASHBOARD_TEST_ALLOWED_MIME =
     [''application/pdf'',
      ''application/vnd.openxmlformats-officedocument.wordprocessingml.document'',
      ''application/vnd.openxmlformats-officedocument.spreadsheetml.sheet'',
      ''application/vnd.openxmlformats-officedocument.presentationml.presentation'',
      ''image/png'', ''image/jpeg'', ''image/tiff'', ''image/bmp'', ''image/webp'', ''image/gif'', ''text/plain'']"

record upload =
  up_filename :: "ustr option"
  up_content_type :: "ustr option"
  up_data :: bytes

datatype test_error = Too_many_files | Key_failed | File_too_large ustr | Mime_refused ustr ustr | Api_failed exn

text \<open>
  The staging loop: empty files are skipped, the first file that is too large or of a type that is
  not allowed ends it.  \<open>ids\<close> are the random attachment ids.
\<close>

fun stage_uploads ::
  "(ustr \<Rightarrow> ustr) \<Rightarrow> ustr list \<Rightarrow> upload list \<Rightarrow> (ustr \<times> staged_file) list \<Rightarrow> json list \<Rightarrow>
     test_error + (ustr \<times> staged_file) list \<times> json list" where
  "stage_uploads url ids [] files models = Inr (files, models)"
| "stage_uploads url ids (up # ups) files models =
     (let data = up_data up; name = (case up_filename up of Some f \<Rightarrow> f | None \<Rightarrow> u ''unnamed.bin'') in
      if data = [] then stage_uploads url ids ups files models
      else if length data > DASHBOARD_TEST_MAX_ATTACHMENT_BYTES then Inl (File_too_large name)
      else let mime = (case up_content_type up of Some m \<Rightarrow> if m = [] then u ''application/octet-stream'' else m
                       | None \<Rightarrow> u ''application/octet-stream'') in
      if mime \<notin> set (map u DASHBOARD_TEST_ALLOWED_MIME) then Inl (Mime_refused name mime)
      else let att_id = u ''att_'' @ hd ids; digest = hexdigest (sha256 data) in
        stage_uploads url (tl ids) ups
          (put att_id \<lparr>sf_attachment_id = att_id, sf_filename = name, sf_mime_type = mime, sf_data = data, sf_sha256 = digest\<rparr> files)
          (models @ [JObj [(u ''attachment_id'', JStr att_id), (u ''filename'', JStr name),
             (u ''size_bytes'', JInt (int (length data))), (u ''mime_type'', JStr mime), (u ''sha256'', JStr digest),
             (u ''fetch_url'', JStr (url att_id))]]))"

text \<open>\<^verbatim>\<open>json.dumps(..., separators=(",", ":"), ensure_ascii=False)\<close>.\<close>

fun compact :: "json \<Rightarrow> ustr" where
  "compact (JArr vs) = [91] @ join [44] (map compact vs) @ [93]"
| "compact (JObj kvs) = [123] @ join [44] (map (\<lambda>(k, v). json_str k @ [58] @ compact v) kvs) @ [125]"
| "compact v = dumps None 0 v"

record test_form =
  tf_title :: ustr
  tf_body :: ustr
  tf_strictness :: ustr
  tf_author_ip :: ustr
  tf_uploads :: "upload list"

definition test_payload :: "ustr \<Rightarrow> test_form \<Rightarrow> json list \<Rightarrow> ustr \<Rightarrow> json" where
  "test_payload request_id form models callback_url =
     JObj ([(u ''request_id'', JStr request_id),
            (u ''author'', JObj [(u ''name'', JStr (u ''dashboard-test'')),
               (u ''ip'', JStr (let ip = strip (tf_author_ip form) in if ip = [] then u ''203.0.113.5'' else ip))]),
            (u ''post'', JObj [(u ''board_id'', JStr (u ''dashboard-test'')), (u ''title'', JStr (tf_title form)),
               (u ''body'', JStr (tf_body form))]),
            (u ''options'', JObj [(u ''strictness'', JStr (tf_strictness form))])] @
           (if models \<noteq> [] then [(u ''attachments'', JArr models), (u ''callback_url'', JStr callback_url)] else []))"

definition DETECT_PATH :: ustr where "DETECT_PATH = u ''/v1/detect/post''"

text \<open>The request the page sends to the gateway itself, through the in-process transport.\<close>

definition test_request :: "ustr \<Rightarrow> ustr \<Rightarrow> ustr \<Rightarrow> ustr \<Rightarrow> bytes \<Rightarrow> http_request" where
  "test_request key_id secret timestamp nonce body =
     \<lparr>rq_method = u ''POST'', rq_path = DETECT_PATH, rq_body = body,
      rq_headers = [(u ''content-type'', u ''application/json''), (u ''x-api-key'', key_id), (u ''x-timestamp'', timestamp),
        (u ''x-nonce'', nonce), (u ''x-signature'', compute_signature secret timestamp nonce (u ''POST'') DETECT_PATH body)],
      rq_client = Some (u ''127.0.0.1'')\<rparr>"

definition test_headers :: "http_request \<Rightarrow> hmac_headers" where
  "test_headers rq = \<lparr>hh_api_key = header rq ''x-api-key'', hh_timestamp = header rq ''x-timestamp'',
     hh_nonce = header rq ''x-nonce'', hh_signature = header rq ''x-signature''\<rparr>"

record test_env =
  te_token :: ustr
  te_ids :: "ustr list"
  te_request_id :: ustr
  te_nonce :: ustr
  te_clock :: rat
  te_time :: rat
  te_base_url :: ustr
  te_key :: "exn + ustr \<times> ustr"
  te_api :: "http_request \<Rightarrow> exn + nat \<times> json"
  te_callback :: "json option"

record test_result =
  tr_error :: "test_error option"
  tr_http_status :: nat
  tr_verdict :: "json option"
  tr_code :: "json option"
  tr_user_message :: "json option"
  tr_detections :: "(json \<times> string) list"
  tr_attachment_results :: "(json \<times> (json \<times> string) list) list"
  tr_callback_received :: bool
  tr_callback_timed_out :: bool
  tr_inputs :: "json list"

definition failed_result :: "test_error \<Rightarrow> test_result" where
  "failed_result e = \<lparr>tr_error = Some e, tr_http_status = 0, tr_verdict = None, tr_code = None, tr_user_message = None,
     tr_detections = [], tr_attachment_results = [], tr_callback_received = False, tr_callback_timed_out = False, tr_inputs = []\<rparr>"

text \<open>\<^verbatim>\<open>x.get(k)\<close> and \<^verbatim>\<open>x.get(k) or y\<close>; only objects have \<^verbatim>\<open>get\<close>.\<close>

fun json_get :: "json \<Rightarrow> string \<Rightarrow> exn + json option" where
  "json_get (JObj kvs) k = Inr (map_of kvs (u k))"
| "json_get _ k = Inl RuntimeError"

definition or_else :: "json option \<Rightarrow> json option \<Rightarrow> json option" where
  "or_else x y = (case x of Some v \<Rightarrow> if truthy_json v then Some v else y | None \<Rightarrow> y)"

text \<open>The text of a container begins with a bracket, whatever its exact form.\<close>

definition detection_view :: "json \<Rightarrow> json \<times> string" where
  "detection_view d =
     (d, verdict_for_code (case json_get d ''code'' of Inr (Some v) \<Rightarrow> if truthy_json v then py_str (dumps None 0) v else [] | _ \<Rightarrow> []))"

definition detections_of :: "json \<Rightarrow> exn + (json \<times> string) list" where
  "detections_of v = (case json_get v ''detections'' of Inl e \<Rightarrow> Inl e | Inr ds \<Rightarrow> map_sum id (map detection_view) (objects_in ds))"

fun attachment_views :: "json list \<Rightarrow> exn + (json \<times> (json \<times> string) list) list" where
  "attachment_views [] = Inr []"
| "attachment_views (entry # es) =
     (case detections_of entry of Inl e \<Rightarrow> Inl e
      | Inr ds \<Rightarrow> map_sum id ((#) (entry, ds)) (attachment_views es))"

definition present_result :: "nat \<Rightarrow> json \<Rightarrow> json option \<Rightarrow> bool \<Rightarrow> json list \<Rightarrow> test_error option \<Rightarrow> exn + test_result" where
  "present_result http_status body_json callback timed_out models err =
     (case json_get body_json ''body_result'' of Inl e \<Rightarrow> Inl e
      | Inr br \<Rightarrow>
        let src = (case br of Some v \<Rightarrow> if truthy_json v then v else body_json | None \<Rightarrow> body_json);
            cb = (case callback of Some v \<Rightarrow> if truthy_json v then Some v else None | None \<Rightarrow> None);
            field = (\<lambda>k. case json_get body_json k of Inr x \<Rightarrow> x | Inl e \<Rightarrow> None);
            final = (\<lambda>k. case cb of None \<Rightarrow> field k
                       | Some p \<Rightarrow> or_else (case json_get p k of Inr x \<Rightarrow> x | Inl e \<Rightarrow> None) (field k)) in
        case detections_of src of Inl e \<Rightarrow> Inl e
        | Inr ds \<Rightarrow>
            (case (case cb of None \<Rightarrow> Inr []
                   | Some p \<Rightarrow> (case json_get p ''attachment_results'' of Inl e \<Rightarrow> Inl e
                       | Inr rs \<Rightarrow> (case objects_in rs of Inl e \<Rightarrow> Inl e | Inr es \<Rightarrow> attachment_views es))) of
               Inl e \<Rightarrow> Inl e
             | Inr as \<Rightarrow>
                 Inr \<lparr>tr_error = err, tr_http_status = http_status, tr_verdict = final ''verdict'', tr_code = final ''code'',
                      tr_user_message = final ''user_message'', tr_detections = ds, tr_attachment_results = as,
                      tr_callback_received = (callback \<noteq> None), tr_callback_timed_out = timed_out, tr_inputs = models\<rparr>))"

definition test_submit :: "test_env \<Rightarrow> test_form \<Rightarrow> test_sessions \<Rightarrow> (exn + test_result) \<times> test_sessions" where
  "test_submit env form ss =
     (let ups = filter (\<lambda>up. up_filename up \<noteq> None \<and> up_filename up \<noteq> Some []) (tf_uploads form) in
      if length ups > DASHBOARD_TEST_MAX_ATTACHMENTS then (Inr (failed_result Too_many_files), ss)
      else case te_key env of
        Inl e \<Rightarrow> (Inr (failed_result Key_failed), ss)
      | Inr (key_id, secret) \<Rightarrow>
          (case create_test_session (te_token env) (te_clock env) ss of (sess, ss1) \<Rightarrow>
           let url = (\<lambda>att. te_base_url env @ u ''/admin/test/_fetch/'' @ te_token env @ u ''/'' @ att) in
           case stage_uploads url (te_ids env) ups [] [] of
             Inl e \<Rightarrow> (Inr (failed_result e), end_test_session (te_token env) ss1)
           | Inr (files, models) \<Rightarrow>
               let callback_url = te_base_url env @ u ''/admin/test/_callback/'' @ te_token env;
                   body = utf8_encode (compact (test_payload (te_request_id env) form models callback_url));
                   rq = test_request key_id secret (str_int \<lfloor>te_time env\<rfloor>) (te_nonce env) body;
                   ss2 = put (te_token env) (sess\<lparr>ts_files := files\<rparr>) ss1;
                   ended = end_test_session (te_token env) ss2 in
               (case te_api env rq of
                  Inl e \<Rightarrow> (present_result 0 (JObj []) None False models (Some (Api_failed e)), ended)
                | Inr (status, body_json) \<Rightarrow>
                    let waits = (status = 202 \<and> models \<noteq> []);
                        cb = (if waits then te_callback env else None) in
                    (present_result status body_json cb (waits \<and> te_callback env = None) models None, ended))))"

section \<open>The store is bounded\<close>

datatype test_op =
    New_run ustr rat
  | Fetch_file ustr ustr rat
  | Call_back ustr "exn + json" rat
  | End_run ustr
  | Stage_files ustr "(ustr \<times> staged_file) list"

text \<open>Staging changes the files of the session object that the store holds, if it still does.\<close>

fun test_step :: "test_op \<Rightarrow> test_sessions \<Rightarrow> test_sessions" where
  "test_step (New_run token now) ss = snd (create_test_session token now ss)"
| "test_step (Fetch_file token att now) ss = snd (dashboard_test_fetch token att now ss)"
| "test_step (Call_back token parsed now) ss = snd (dashboard_test_callback token parsed now ss)"
| "test_step (End_run token) ss = end_test_session token ss"
| "test_step (Stage_files token files) ss =
     (case map_of ss token of None \<Rightarrow> ss | Some sess \<Rightarrow> put token (sess\<lparr>ts_files := files\<rparr>) ss)"

definition store_ok :: "test_sessions \<Rightarrow> bool" where
  "store_ok ss \<longleftrightarrow> distinct (map fst ss) \<and> list_all (\<lambda>(t, s). ts_token s = t) ss \<and> length ss \<le> MAX_SESSIONS"

lemma store_ok_sub:
  assumes "store_ok ss" "distinct (map fst ss')" "set ss' \<subseteq> set ss"
  shows "store_ok ss'"
proof -
  have "card (set ss') \<le> card (set ss)" using assms(3) by (intro card_mono) auto
  then have "length ss' \<le> length ss"
    using assms(1,2) distinct_card [of ss] distinct_card [of ss'] by (simp add: store_ok_def distinct_map)
  then show ?thesis using assms by (auto simp: store_ok_def list_all_iff)
qed

lemma pop_key_distinct: "distinct (map fst ss) \<Longrightarrow> distinct (map fst (pop_key k ss))"
  unfolding pop_key_def by (induction ss) auto

lemma pop_key_subset: "set (pop_key k ss) \<subseteq> set ss"
  by (auto simp: pop_key_def)

lemma pops_distinct: "distinct (map fst ss) \<Longrightarrow> distinct (map fst (fold pop_key ks ss))"
  by (induction ks arbitrary: ss) (simp_all add: pop_key_distinct)

lemma pops_subset: "set (fold pop_key ks ss) \<subseteq> set ss"
  using pop_key_subset by (induction ks arbitrary: ss) fastforce+

lemma store_ok_pops: "store_ok ss \<Longrightarrow> store_ok (fold pop_key ks ss)"
  by (rule store_ok_sub [of ss]) (simp_all add: pops_subset pops_distinct store_ok_def)

lemma store_ok_pop: "store_ok ss \<Longrightarrow> store_ok (pop_key k ss)"
  using store_ok_pops [of ss "[k]"] by simp

lemma length_pop_present: "k \<in> fst ` set ss \<Longrightarrow> length (pop_key k ss) < length ss"
  by (auto simp: pop_key_def intro!: length_filter_less)

lemma length_put_iff: "length (put k v m) = (if k \<in> fst ` set m then length m else Suc (length m))"
  by (induction m) force+

lemma put_tokens: "ts_token v = k \<Longrightarrow> list_all (\<lambda>(t, s). ts_token s = t) m \<Longrightarrow> list_all (\<lambda>(t, s). ts_token s = t) (put k v m)"
  by (induction m) auto

lemma oldest_in: "ss \<noteq> [] \<Longrightarrow> oldest ss \<in> snd ` set ss"
  unfolding oldest_def by (metis hd_in_set list.map_disc_iff list.set_map length_0_conv length_sort set_sort)

lemma store_ok_put:
  assumes "store_ok ss" "ts_token v = k" "k \<in> fst ` set ss \<or> length ss < MAX_SESSIONS"
  shows "store_ok (put k v ss)"
  using assms by (auto simp: store_ok_def put_distinct length_put_iff put_tokens)

lemma store_ok_create: "store_ok ss \<Longrightarrow> store_ok (snd (create_test_session token now ss))"
proof -
  assume "store_ok ss"
  then have p: "store_ok (prune_expired now ss)" by (simp add: prune_expired_def store_ok_pops)
  let ?p = "prune_expired now ss"
  have "length (pop_key (ts_token (oldest ?p)) ?p) < length ?p" if "MAX_SESSIONS \<le> length ?p"
  proof (rule length_pop_present)
    have "?p \<noteq> []" using that by (auto simp: MAX_SESSIONS_def)
    then show "ts_token (oldest ?p) \<in> fst ` set ?p"
      using oldest_in [of ?p] p by (force simp: store_ok_def list_all_iff)
  qed
  then have "length (pop_key (ts_token (oldest ?p)) ?p) < MAX_SESSIONS" if "MAX_SESSIONS \<le> length ?p"
    using that p by (simp add: store_ok_def)
  then show ?thesis
    using p store_ok_pop [OF p] by (simp add: create_test_session_def Let_def store_ok_put)
qed

lemma store_ok_get: "store_ok ss \<Longrightarrow> store_ok (snd (get_test_session token now ss))"
  by (auto simp: get_test_session_def store_ok_pop split: option.splits)

lemma get_token: "store_ok (ss :: test_sessions) \<Longrightarrow> get_test_session token now ss = (Some sess, ss') \<Longrightarrow> ts_token sess = token \<and> token \<in> fst ` set ss' \<and> ss' = ss"
  by (force simp: get_test_session_def store_ok_def list_all_iff dest!: map_of_SomeD split: option.splits if_splits)

lemma map_of_key: "map_of ss t = Some s \<Longrightarrow> t \<in> fst ` set ss"
  by (force dest: map_of_SomeD)

lemma map_of_token: "store_ok ss \<Longrightarrow> map_of ss t = Some s \<Longrightarrow> ts_token s = t"
  by (auto simp: store_ok_def list_all_iff dest: map_of_SomeD)

lemma store_ok_step: "store_ok ss \<Longrightarrow> store_ok (test_step op ss)"
proof (cases op)
  case (Call_back token parsed now)
  assume ok: "store_ok ss"
  obtain r ss' where g: "get_test_session token now ss = (r, ss')" by (cases "get_test_session token now ss")
  then have ok': "store_ok ss'" using store_ok_get [OF ok, of token now] by simp
  show ?thesis
  proof (cases r)
    case (Some sess)
    then show ?thesis
      using Call_back g ok' get_token [OF ok, of token now sess ss']
      by (auto simp: dashboard_test_callback_def intro!: store_ok_put split: sum.splits json.splits)
  qed (use Call_back g ok' in \<open>simp add: dashboard_test_callback_def\<close>)
next
  case (Fetch_file token att now)
  assume "store_ok ss"
  then show ?thesis
    using Fetch_file store_ok_get [of ss token now] by (auto simp: dashboard_test_fetch_def split: prod.splits option.splits)
next
  case (Stage_files token files)
  assume "store_ok ss"
  then show ?thesis
    using Stage_files map_of_key [of ss token] map_of_token [of ss token]
    by (simp add: store_ok_put split: option.splits)
qed (simp_all add: store_ok_create store_ok_pop end_test_session_def)

text \<open>
  The store of test runs is bounded.  Whatever runs are opened, fetched from, called back and
  ended, the process holds at most 32 of them, each under its own token.
\<close>

theorem test_store_bounded: "store_ok (fold test_step ops [])"
proof -
  have "store_ok ss \<Longrightarrow> store_ok (fold test_step ops ss)" for ss
    by (induction ops arbitrary: ss) (simp_all add: store_ok_step)
  then show ?thesis by (simp add: store_ok_def)
qed

section \<open>A run ends, and its files are what was admitted\<close>

definition admitted :: "ustr \<times> staged_file \<Rightarrow> bool" where
  "admitted = (\<lambda>(k, sf). sf_attachment_id sf = k \<and> sf_data sf \<noteq> [] \<and> length (sf_data sf) \<le> DASHBOARD_TEST_MAX_ATTACHMENT_BYTES \<and>
     sf_mime_type sf \<in> set (map u DASHBOARD_TEST_ALLOWED_MIME) \<and> sf_sha256 sf = hexdigest (sha256 (sf_data sf)))"

lemma admitted_iff:
  "admitted (k, sf) \<longleftrightarrow> sf_attachment_id sf = k \<and> sf_data sf \<noteq> [] \<and> length (sf_data sf) \<le> DASHBOARD_TEST_MAX_ATTACHMENT_BYTES \<and>
     sf_mime_type sf \<in> set (map u DASHBOARD_TEST_ALLOWED_MIME) \<and> sf_sha256 sf = hexdigest (sha256 (sf_data sf))"
  by (simp add: admitted_def)

lemma put_admitted: "admitted (k, v) \<Longrightarrow> list_all admitted m \<Longrightarrow> list_all admitted (put k v m)"
  by (induction m) auto

text \<open>
  What a test run stages obeys the limits.  When the staging loop succeeds, every staged file is
  non-empty, at most 20 MB, of an allowed type and carries the digest of its bytes, and one
  description is sent per non-empty upload.
\<close>

theorem staged_files_admitted:
  "stage_uploads url ids ups files models = Inr (files', models') \<Longrightarrow> list_all admitted files \<Longrightarrow>
   list_all admitted files' \<and> length models' = length models + length (filter (\<lambda>up. up_data up \<noteq> []) ups)"
proof (induction url ids ups files models arbitrary: files' models' rule: stage_uploads.induct)
  case (2 url ids up ups files models)
  then show ?case
    by (auto simp: Let_def put_admitted admitted_iff split: if_splits)
qed simp

section \<open>The page can authenticate\<close>

lemma last_digit: "r < 10 \<Longrightarrow> digits_value x prev ((48 + r) # s) = digits_value (x * 10 + int r) True s"
  by (simp add: decimal_value_ascii)

lemma digits_value_show:
  "digits_value a prev (show_nat n @ s) = digits_value (a * 10 ^ length (show_nat n) + int n) True s"
proof (induction n arbitrary: a prev s rule: show_nat.induct)
  case (1 n)
  show ?case
  proof (cases "n < 10")
    case True
    then show ?thesis by (simp add: show_nat.simps [of n] decimal_value_ascii)
  next
    case False
    have d: "int n = int (n div 10) * 10 + int (n mod 10)"
      by (metis div_mult_mod_eq mult.commute of_nat_add of_nat_mult of_nat_numeral)
    have "show_nat n = show_nat (n div 10) @ [48 + n mod 10]" using False by (subst show_nat.simps) simp
    then show ?thesis
      using 1 [OF False] d last_digit [of "n mod 10"] by (simp add: algebra_simps)
  qed
qed

lemma py_int_show: "0 \<le> i \<Longrightarrow> i < 10 ^ 15 \<Longrightarrow> py_int (str_int i) = Some i"
proof -
  assume i: "0 \<le> i" and b: "i < 10 ^ 15"
  have "nat i < 10 ^ 15" using b by simp
  then have "length (show_nat (nat i)) \<le> 15" by (intro length_show_nat) simp_all
  then have len: "length (filter p (show_nat (nat i))) \<le> 15" for p
    using length_filter_le le_trans by blast
  obtain c ds where c: "show_nat (nat i) = c # ds" using show_nat_ne by (meson list.exhaust)
  have "c \<noteq> 45" "c \<noteq> 43" using show_nat_hd [of _ "nat i"] c by (metis list.sel(1) less_numeral_extra(4) numeral_less_iff semiring_norm)+
  moreover have "strip (show_nat (nat i)) = show_nat (nat i)"
    using show_nat_digits [of "nat i"] by (intro strip_no_space) (auto simp: list_all_iff is09_def is_space_ascii)
  moreover have "digits_value 0 False (show_nat (nat i)) = Some i"
    using digits_value_show [of 0 False "nat i" "[]"] i by simp
  ultimately show ?thesis using i c len [of "\<lambda>c. c \<noteq> 95"] by (simp add: py_int_def str_int_def read_digits_def)
qed

lemma test_request_acceptable:
  assumes "ak_enabled row" "ak_revoked_at row = None" "ak_key_id row \<noteq> []"
    and "0 \<le> t" "t < 10 ^ 15" "t \<le> now" "now \<le> t + 299" "nonce \<noteq> []" "length nonce \<le> 64"
    and "\<forall>n \<in> set ns. nn_nonce n \<noteq> nonce"
  shows "acceptable row (test_request (ak_key_id row) (ak_secret row) (str_int \<lfloor>t\<rfloor>) nonce body)
     (test_headers (test_request (ak_key_id row) (ak_secret row) (str_int \<lfloor>t\<rfloor>) nonce body)) now ns"
proof -
  have "\<bar>now - of_int \<lfloor>t\<rfloor>\<bar> \<le> TIMESTAMP_WINDOW_SECONDS"
    using assms(6,7) unfolding TIMESTAMP_WINDOW_SECONDS_def by linarith
  moreover have b: "0 \<le> \<lfloor>t\<rfloor>" "\<lfloor>t\<rfloor> < 10 ^ 15" using assms(4,5) by (simp_all add: floor_less_iff)
  then have "py_int (str_int \<lfloor>t\<rfloor>) = Some \<lfloor>t\<rfloor>" by (rule py_int_show)
  moreover have "\<bar>\<lfloor>t\<rfloor>\<bar> < FLOAT_LIMIT" using b by (simp add: FLOAT_LIMIT_def)
  ultimately show ?thesis
    using assms unfolding acceptable_def
    by (auto simp: test_headers_def test_request_def header_def intro!: exI [of _ "\<lfloor>t\<rfloor>"])
qed

lemma ensure_issues:
  assumes "stored_key rl keys f = None" "ensure_dashboard_test_key rl k s now keys f = (Inr ks, keys', f')"
    and "dump_depth rl \<le> load_depth rl"
  obtains row where "ks = (k, s)" "keys' = keys @ [row]" "ak_key_id row = k" "ak_secret row = s" "ak_enabled row"
    "ak_revoked_at row = None" "k \<notin> set (map ak_key_id keys)" "stored_key rl keys' f' = Some (k, s)"
proof -
  obtain row f1 where r: "issue_api_key keys k s (u ''__dashboard_test__'') None 600 10000 (u ''admin-dashboard'') False now = Inr ((row, s), keys')"
    "set_value rl TEST_KEY_ID (JStr k) f = (Inr (), f1)" "set_value rl TEST_SECRET (JStr s) f1 = (Inr (), f')" "ks = (k, s)"
    using assms(1,2)
    by (auto simp: ensure_dashboard_test_key_def issue_api_key_def Let_def split: sum.splits prod.splits if_splits)
  have row: "keys' = keys @ [row]" "ak_key_id row = k" "ak_secret row = s" "ak_enabled row" "ak_revoked_at row = None"
    "k \<notin> set (map ak_key_id keys)"
    using r(1) by (auto simp: issue_api_key_def Let_def split: if_splits)
  have "get_setting rl f' TEST_KEY_ID = Some (JStr k)" "get_setting rl f' TEST_SECRET = Some (JStr s)"
    unfolding get_setting_def set_value_dict [OF r(3) _ assms(3), simplified] set_value_dict [OF r(2) _ assms(3), simplified]
    by (simp_all add: map_of_put TEST_KEY_ID_def TEST_SECRET_def)
  moreover have "find_active_key keys' k = Some row"
    unfolding find_active_key_def find_Some_split 
    by (rule exI [of _ keys], rule exI [of _ "[]"]) (use row in \<open>auto simp: image_iff\<close>)
  ultimately have "stored_key rl keys' f' = Some (k, s)" using row by (simp add: stored_key_def)
  with r(4) row show ?thesis by (rule that)
qed

text \<open>
  The test page can always call the gateway.  A key the page issues for itself is kept in the
  settings: the next call of the page returns the same key and issues no other.  A request that the
  page builds with it, whatever its body, passes the signature check of the gateway within 299
  seconds if its nonce is new.
\<close>

theorem test_key_works:
  assumes "stored_key rl keys f = None" "ensure_dashboard_test_key rl k s t0 keys f = (Inr ks, keys', f')"
    and "dump_depth rl \<le> load_depth rl" "distinct (map ak_key_id keys)" "k \<noteq> []"
    and "0 \<le> t" "t < 10 ^ 15" "t \<le> now" "now \<le> t + 299" "nonce \<noteq> []" "length nonce \<le> 64" "list_all (\<lambda>n. nn_nonce n \<noteq> nonce) ns"
  shows "ks = (k, s) \<and> ensure_dashboard_test_key rl k2 s2 t2 keys' f' = (Inr (k, s), keys', f') \<and>
     (\<exists>caller ns'. verify_request trust keys' (test_request k s (str_int \<lfloor>t\<rfloor>) nonce body)
        (test_headers (test_request k s (str_int \<lfloor>t\<rfloor>) nonce body)) now dbnow ns = (Inr caller, ns'))"
proof -
  from ensure_issues [OF assms(1-3)] obtain row where row: "ks = (k, s)" "keys' = keys @ [row]" "ak_key_id row = k" "ak_secret row = s"
    "ak_enabled row" "ak_revoked_at row = None" "k \<notin> set (map ak_key_id keys)" "stored_key rl keys' f' = Some (k, s)" .
  have "acceptable row (test_request k s (str_int \<lfloor>t\<rfloor>) nonce body) (test_headers (test_request k s (str_int \<lfloor>t\<rfloor>) nonce body)) now ns"
    using test_request_acceptable [of row t now nonce ns body] row assms(5-) by (simp add: list_all_iff)
  moreover have "distinct (map ak_key_id keys')" "row \<in> set keys'" using row assms(4) by auto
  ultimately show ?thesis
    using verify_request_complete row(1,8) by (simp add: ensure_dashboard_test_key_def)
qed

text \<open>However a submission ends, its token opens nothing afterwards.\<close>

lemma test_run_ended:
  assumes "map_of ss (te_token env) = None"
  shows "map_of (snd (test_submit env form ss)) (te_token env) = None"
  using assms
  by (auto simp: test_submit_def Let_def end_test_session_def map_of_pop_key split: sum.splits prod.splits)

section \<open>Instances\<close>

theorem staged_files_admitted_witness:
  "\<exists>files models. stage_uploads (\<lambda>a. a) [u ''x''] [\<lparr>up_filename = Some (u ''a.txt''), up_content_type = Some (u ''text/plain''), up_data = [65]\<rparr>] [] [] =
     Inr (files, models) \<and> list_all admitted files \<and> length models = 1"
proof -
  let ?run = "stage_uploads (\<lambda>a. a) [u ''x''] [\<lparr>up_filename = Some (u ''a.txt''), up_content_type = Some (u ''text/plain''), up_data = [65]\<rparr>] [] []"
  have "\<exists>files models. ?run = Inr (files, models)"
    by (simp add: Let_def DASHBOARD_TEST_MAX_ATTACHMENT_BYTES_def DASHBOARD_TEST_ALLOWED_MIME_def)
  then obtain files models where r: "?run = Inr (files, models)" by blast
  from staged_files_admitted [OF r] r show ?thesis by simp
qed

definition demo_page_limits :: recursion_limits where
  "demo_page_limits = \<lparr>load_depth = 900, dump_depth = 300\<rparr>"

lemma demo_test_key:
  "\<exists>keys' f'. ensure_dashboard_test_key demo_page_limits (u ''tk'') (u ''sec'') 0 [] Missing = (Inr (u ''tk'', u ''sec''), keys', f')"
proof -
  have g: "get_settings_dict demo_page_limits Missing = DEFAULTS" by (simp add: get_settings_dict_def)
  note defs = DEFAULTS_def AUDIT_DETAIL_def ATTACHMENT_SCAN_def TEST_KEY_ID_def TEST_SECRET_def demo_page_limits_def u_def encodable_def
  have "fst (set_value demo_page_limits TEST_KEY_ID (JStr (u ''tk'')) Missing) = Inr ()"
    by (rule set_value_succeeds; unfold g) (simp_all add: defs)
  then obtain f1 where f1: "set_value demo_page_limits TEST_KEY_ID (JStr (u ''tk'')) Missing = (Inr (), f1)"
    by (metis prod.collapse)
  have "get_settings_dict demo_page_limits f1 = put TEST_KEY_ID (JStr (u ''tk'')) DEFAULTS"
    using set_value_dict [OF f1] g by (simp add: demo_page_limits_def)
  then have "fst (set_value demo_page_limits TEST_SECRET (JStr (u ''sec'')) f1) = Inr ()"
    by (intro set_value_succeeds; simp only:) (simp_all add: defs)
  then obtain f2 where f2: "set_value demo_page_limits TEST_SECRET (JStr (u ''sec'')) f1 = (Inr (), f2)"
    by (metis prod.collapse)
  have "stored_key demo_page_limits [] Missing = None"
    by (auto simp: stored_key_def find_active_key_def split: option.splits json.splits)
  with f1 f2 show ?thesis by (simp add: ensure_dashboard_test_key_def issue_api_key_def Let_def)
qed

theorem test_key_works_witness:
  "\<exists>keys' f' caller ns'. ensure_dashboard_test_key demo_page_limits (u ''other'') (u ''new'') 9 keys' f' = (Inr (u ''tk'', u ''sec''), keys', f') \<and>
     verify_request False keys' (test_request (u ''tk'') (u ''sec'') (str_int \<lfloor>100 :: rat\<rfloor>) (u ''n'') [])
       (test_headers (test_request (u ''tk'') (u ''sec'') (str_int \<lfloor>100 :: rat\<rfloor>) (u ''n'') [])) 100 0 [] = (Inr caller, ns')"
proof -
  obtain keys' f' where e: "ensure_dashboard_test_key demo_page_limits (u ''tk'') (u ''sec'') 0 [] Missing = (Inr (u ''tk'', u ''sec''), keys', f')"
    using demo_test_key by blast
  have "stored_key demo_page_limits [] Missing = None"
    by (auto simp: stored_key_def find_active_key_def split: option.splits json.splits)
  from test_key_works [OF this e, of 100 100 "u ''n''" "[]" "u ''other''" "u ''new''" 9 False "[]" 0] show ?thesis
    by (simp add: demo_page_limits_def) blast
qed

end
