(* ===== verification/Validation.thy ===== *)
theory Validation
  imports Responses Json Hmac_Auth
begin

text \<open>
  The application's own answers to requests no handler sees (\<^verbatim>\<open>app/main.py\<close>): the translation
  of schema violations into \<^verbatim>\<open>REQ-4xxx\<close> envelopes, the request id echoed with them, and the
  health probes (\<^verbatim>\<open>app/api/health.py\<close>).  Shown is that every violation gets a 400 envelope with
  the code of the documented priority, naming the missing fields, and that the echoed request id is
  the caller's whenever it can be read.
\<close>

section \<open>Schema violations\<close>

datatype loc_part = Key ustr | Index int

record violation =
  vi_type :: ustr
  vi_loc :: "loc_part list"
  vi_msg :: ustr

fun str_part :: "loc_part \<Rightarrow> ustr" where
  "str_part (Key k) = k"
| "str_part (Index i) = str_int i"

definition mentions :: "string \<Rightarrow> violation \<Rightarrow> bool" where
  "mentions w e = contains (u w) (vi_type e)"

definition missing_fields :: "violation list \<Rightarrow> ustr list" where
  "missing_fields errors =
     map (\<lambda>e. join (u ''.'') (map str_part (filter (\<lambda>p. p \<noteq> Key (u ''body'')) (drop 1 (vi_loc e)))))
       (filter (mentions ''missing'') errors)"

definition at_author :: "nat \<Rightarrow> violation \<Rightarrow> bool" where
  "at_author n e \<longleftrightarrow> n \<le> length (vi_loc e) \<and> vi_loc e ! 1 = Key (u ''author'')"

definition classify_validation :: "violation list \<Rightarrow> exn + string \<times> (string \<times> ustr) list" where
  "classify_validation errors =
     (if list_ex (mentions ''uuid'') errors then Inr (''REQ-4004'', [])
      else if list_ex (mentions ''json'') errors then Inr (''REQ-4003'', [(''detail'', vi_msg (hd errors))])
      else let missing = missing_fields errors in
      if missing \<noteq> [] then Inr (''REQ-4001'', [(''fields'', join (u '', '') missing)])
      else if list_ex (at_author 2) errors then
        (let field = (case find (at_author 3) errors of None \<Rightarrow> u ''?'' | Some e \<Rightarrow> str_part (vi_loc e ! 2)) in
         Inr (''REQ-4002'', [(''field'', field)]))
      else case errors of [] \<Rightarrow> Inl IndexError | e # _ \<Rightarrow> Inr (''REQ-4003'', [(''detail'', vi_msg e)]))"

section \<open>The request id of the answer\<close>

text \<open>\<^verbatim>\<open>int(s, 16)\<close>: like \<^verbatim>\<open>int(s)\<close> with letters, and an optional \<^verbatim>\<open>0x\<close>.\<close>

definition hex_digit_value :: "nat \<Rightarrow> nat option" where
  "hex_digit_value c =
     (if 97 \<le> c \<and> c \<le> 102 then Some (c - 87) else if 65 \<le> c \<and> c \<le> 70 then Some (c - 55) else decimal_value c)"

fun hex_digits :: "nat \<Rightarrow> bool \<Rightarrow> ustr \<Rightarrow> nat option" where
  "hex_digits n prev [] = (if prev then Some n else None)"
| "hex_digits n prev (c # s) =
     (if c = 95 then (if prev then hex_digits n False s else None)
      else case hex_digit_value c of None \<Rightarrow> None | Some d \<Rightarrow> hex_digits (n * 16 + d) True s)"

definition int16 :: "ustr \<Rightarrow> int option" where
  "int16 s =
     (let t = strip s; neg = (t \<noteq> [] \<and> hd t = 45);
          b = (if t \<noteq> [] \<and> hd t \<in> {43, 45} then tl t else t);
          b' = (if starts_with b (u ''0x'') \<or> starts_with b (u ''0X'')
                then (let r = drop 2 b in if r \<noteq> [] \<and> hd r = 95 then tl r else r) else b) in
      map_option (\<lambda>n. if neg then - int n else int n) (hex_digits 0 False b'))"

definition strip_chars :: "nat set \<Rightarrow> ustr \<Rightarrow> ustr" where
  "strip_chars cs s = rev (dropWhile (\<lambda>c. c \<in> cs) (rev (dropWhile (\<lambda>c. c \<in> cs) s)))"

text \<open>\<^verbatim>\<open>uuid.UUID(raw)\<close>.\<close>

definition parse_uuid :: "ustr \<Rightarrow> uuid option" where
  "parse_uuid raw =
     (let h = replace_all (u ''uuid:'') [] (replace_all (u ''urn:'') [] raw);
          h' = replace_all (u ''-'') [] (strip_chars {123, 125} h) in
      if length h' \<noteq> 32 then None
      else case int16 h' of None \<Rightarrow> None | Some i \<Rightarrow> if 0 \<le> i \<and> i < 2 ^ 128 then Some (nat i) else None)"

definition safe_request_id :: "json option \<Rightarrow> uuid \<Rightarrow> uuid" where
  "safe_request_id body fresh =
     (case body of
        Some (JObj kvs) \<Rightarrow>
          (case map_of kvs (u ''request_id'') of
             Some (JStr raw) \<Rightarrow> (case parse_uuid raw of Some i \<Rightarrow> i | None \<Rightarrow> fresh)
           | _ \<Rightarrow> fresh)
      | _ \<Rightarrow> fresh)"

definition validation_handler ::
  "violation list \<Rightarrow> json option \<Rightarrow> uuid \<Rightarrow> rat \<Rightarrow> exn + nat \<times> detect_response" where
  "validation_handler errors body fresh now =
     (case classify_validation errors of Inl e \<Rightarrow> Inl e
      | Inr (code, vars) \<Rightarrow>
          (case get_code code of Inl e \<Rightarrow> Inl e
           | Inr rc \<Rightarrow>
               (case build_response (safe_request_id body fresh) code [] 0 vars None None now of
                  Inl e \<Rightarrow> Inl e | Inr resp \<Rightarrow> Inr (rc_http_status rc, resp))))"

section \<open>Probes\<close>

record probe_answer =
  pa_status :: nat
  pa_text :: string
  pa_env :: ustr
  pa_database :: "bool \<times> ustr option"
  pa_redis :: "bool \<times> ustr option"

text \<open>A probe gives its error text, or nothing when the dependency answered in time.\<close>

definition check_db :: "ustr option \<Rightarrow> bool \<times> ustr option" where
  "check_db failure = (case failure of None \<Rightarrow> (True, None) | Some m \<Rightarrow> (False, Some m))"

definition check_redis :: "ustr + bool \<Rightarrow> bool \<times> ustr option" where
  "check_redis ping =
     (case ping of Inl m \<Rightarrow> (False, Some m)
      | Inr pong \<Rightarrow> if \<not> pong then (False, Some (u ''redis ping returned falsy value'')) else (True, None))"

definition readyz :: "ustr \<Rightarrow> ustr option \<Rightarrow> ustr + bool \<Rightarrow> probe_answer" where
  "readyz env db ping =
     (let d = check_db db; r = check_redis ping in
      \<lparr>pa_status = (if fst d \<and> fst r then 200 else 503), pa_text = (if fst d \<and> fst r then ''ok'' else ''degraded''),
       pa_env = env, pa_database = d, pa_redis = r\<rparr>)"

lemma readyz_iff: "pa_status (readyz env db ping) = 200 \<longleftrightarrow> db = None \<and> ping = Inr True"
  by (auto simp: readyz_def check_db_def check_redis_def Let_def split: option.splits sum.splits)

section \<open>Every violation is answered\<close>

definition expected_code :: "violation list \<Rightarrow> string" where
  "expected_code errors =
     (if list_ex (mentions ''uuid'') errors then ''REQ-4004''
      else if list_ex (mentions ''json'') errors then ''REQ-4003''
      else if list_ex (mentions ''missing'') errors then ''REQ-4001''
      else if list_ex (at_author 2) errors then ''REQ-4002'' else ''REQ-4003'')"

lemma classify_code:
  assumes "errors \<noteq> []"
  shows "\<exists>vars. classify_validation errors = Inr (expected_code errors, vars) \<and>
     (if expected_code errors = ''REQ-4001'' then vars = [(''fields'', join (u '', '') (missing_fields errors))] else True)"
proof -
  have "missing_fields errors = [] \<longleftrightarrow> \<not> list_ex (mentions ''missing'') errors"
    by (auto simp: missing_fields_def filter_empty_conv list_ex_iff)
  then show ?thesis
    using assms by (auto simp: classify_validation_def expected_code_def Let_def split: list.splits)
qed

lemma expected_codes: "expected_code errors \<in> {''REQ-4001'', ''REQ-4002'', ''REQ-4003'', ''REQ-4004''}"
  by (simp add: expected_code_def)

lemma missing_template: "py_format [(''fields'', v)] ([45572, 46973, 32, 54596, 46300] @ u '': {fields}'') = Inr ([45572, 46973, 32, 54596, 46300] @ u '': '' @ v)"
  by (simp add: u_def field_value_def)

lemma violation_entries:
  "\<exists>rc. get_code ''REQ-4001'' = Inr rc \<and> rc_http_status rc = 400 \<and> rc_verdict rc = ERROR \<and>
     rc_developer_message_template rc = Some ([45572, 46973, 32, 54596, 46300] @ u '': {fields}'')"
  "\<exists>rc. get_code ''REQ-4002'' = Inr rc \<and> rc_http_status rc = 400 \<and> rc_verdict rc = ERROR"
  "\<exists>rc. get_code ''REQ-4003'' = Inr rc \<and> rc_http_status rc = 400 \<and> rc_verdict rc = ERROR"
  "\<exists>rc. get_code ''REQ-4004'' = Inr rc \<and> rc_http_status rc = 400 \<and> rc_verdict rc = ERROR"
  by (simp_all add: get_code_def catalogue_defs)

lemma get_violation_codes:
  "c \<in> {''REQ-4001'', ''REQ-4002'', ''REQ-4003'', ''REQ-4004''} \<Longrightarrow>
   \<exists>rc. get_code c = Inr rc \<and> rc_http_status rc = 400 \<and> rc_verdict rc = ERROR"
  using violation_entries by blast

lemma build_missing:
  assumes "build_response i ''REQ-4001'' [] 0 [(''fields'', v)] None None now = Inr r"
  shows "r_developer_message r = Some ([45572, 46973, 32, 54596, 46300] @ u '': '' @ v)"
proof -
  obtain rc where rc: "get_code ''REQ-4001'' = Inr rc" "rc_verdict rc = ERROR"
    "rc_developer_message_template rc = Some ([45572, 46973, 32, 54596, 46300] @ u '': {fields}'')"
    using violation_entries(1) by blast
  have "render (rc_developer_message_template rc) [(''fields'', v)] = Inr (Some ([45572, 46973, 32, 54596, 46300] @ u '': '' @ v))"
    unfolding rc(3) render_def option.case missing_template sum.case ..
  with assms rc(1,2) show ?thesis by (auto simp: build_response_def Let_def split: sum.splits)
qed

text \<open>
  Every schema violation is answered.  Whatever violations the framework reports, the handler
  returns a 400 envelope with verdict ERROR and no detections whose code follows the documented
  priority (request id, JSON, missing fields, author, anything else), carries the request id that
  could be read from the body, and for missing fields lists all of them in the developer message.
\<close>

theorem violations_answered:
  assumes "errors \<noteq> []"
  shows "\<exists>r. validation_handler errors body fresh now = Inr (400, r) \<and> r_verdict r = ERROR \<and> r_code r = expected_code errors \<and>
     r_request_id r = safe_request_id body fresh \<and> r_detections r = [] \<and>
     (if r_code r = ''REQ-4001''
      then r_developer_message r = Some ([45572, 46973, 32, 54596, 46300] @ u '': '' @ join (u '', '') (missing_fields errors))
      else True)"
proof -
  obtain vars where v: "classify_validation errors = Inr (expected_code errors, vars)"
    "expected_code errors = ''REQ-4001'' \<Longrightarrow> vars = [(''fields'', join (u '', '') (missing_fields errors))]"
    using classify_code [OF assms] by (auto split: if_splits)
  obtain rc where rc: "get_code (expected_code errors) = Inr rc" "rc_http_status rc = 400" "rc_verdict rc = ERROR"
    using get_violation_codes [OF expected_codes] by blast
  obtain r where r: "build_response (safe_request_id body fresh) (expected_code errors) [] 0 vars None None now = Inr r"
    and f: "r_verdict r = ERROR" "r_code r = expected_code errors" "r_request_id r = safe_request_id body fresh" "r_detections r = []"
    using build_response_known [OF rc(1), of "safe_request_id body fresh" "[]" 0 vars None None now] rc(3) by auto
  have "r_developer_message r = Some ([45572, 46973, 32, 54596, 46300] @ u '': '' @ join (u '', '') (missing_fields errors))"
    if "expected_code errors = ''REQ-4001''"
    using build_missing r v(2) [OF that] that by simp
  with v(1) rc(1,2) r f show ?thesis by (simp add: validation_handler_def)
qed

section \<open>The echoed request id\<close>

text \<open>The canonical text of a UUID.\<close>

fun hex_text :: "nat \<Rightarrow> nat \<Rightarrow> ustr" where
  "hex_text 0 n = []"
| "hex_text (Suc k) n = hex_text k (n div 16) @ [hex_char (n mod 16)]"

definition show_uuid :: "uuid \<Rightarrow> ustr" where
  "show_uuid n = (let h = hex_text 32 n in
     take 8 h @ [45] @ take 4 (drop 8 h) @ [45] @ take 4 (drop 12 h) @ [45] @ take 4 (drop 16 h) @ [45] @ drop 20 h)"

lemma length_hex_text [simp]: "length (hex_text k n) = k"
  by (induction k arbitrary: n) simp_all

lemma hex_char_value: "d < 16 \<Longrightarrow> hex_digit_value (hex_char d) = Some d \<and> hex_char d \<notin> {45, 95, 123, 125, 117, 32}"
  by (auto simp: hex_digit_value_def hex_char_def decimal_value_ascii)

lemma hex_digits_text: "hex_digits a prev (hex_text k n @ s) = (if k = 0 then hex_digits a prev s else hex_digits (a * 16 ^ k + n mod 16 ^ k) True s)"
proof (induction k arbitrary: n s)
  case (Suc k)
  have "hex_digits x p (hex_char (n mod 16) # s) = hex_digits (x * 16 + n mod 16) True s" for x p
    using hex_char_value [of "n mod 16"] by simp
  moreover have "n mod (16 * 16 ^ k) = 16 * (n div 16 mod 16 ^ k) + n mod 16" by (metis mod_mult2_eq)
  ultimately show ?case using Suc [of "n div 16"] by (auto simp: algebra_simps)
qed simp

lemma hex_text_range: "c \<in> set (hex_text k n) \<Longrightarrow> 48 \<le> c \<and> c \<le> 57 \<or> 97 \<le> c \<and> c \<le> 102"
proof (induction k arbitrary: n)
  case (Suc k)
  then show ?case using hex_char_range [of "n mod 16"] by auto
qed simp

lemma replace_absent: "old \<noteq> [] \<Longrightarrow> hd old \<notin> set s \<Longrightarrow> replace_all old new s = s"
  by (induction s) (cases old; auto simp: starts_with_iff)+

lemma strip_chars_absent: "set s \<inter> cs = {} \<Longrightarrow> strip_chars cs s = s"
proof -
  have "dropWhile (\<lambda>c. c \<in> cs) t = t" if "set t \<inter> cs = {}" for t
    using that by (cases t) auto
  then show "set s \<inter> cs = {} \<Longrightarrow> ?thesis" by (simp add: strip_chars_def)
qed

lemma starts_with_set: "starts_with s p \<Longrightarrow> set p \<subseteq> set s"
  by (auto simp: starts_with_iff)

lemma drop_split: "drop a h = take k (drop a h) @ drop (a + k) h"
  by (metis add.commute append_take_drop_id drop_drop)

lemma int16_hex_text:
  assumes "0 < k"
  shows "int16 (hex_text k n) = Some (int (n mod 16 ^ k))"
proof -
  let ?h = "hex_text k n"
  have ne: "?h \<noteq> []" using length_hex_text [of k n] assms by (cases ?h) simp_all
  have r: "48 \<le> c \<and> c \<le> 57 \<or> 97 \<le> c \<and> c \<le> 102" if "c \<in> set ?h" for c using hex_text_range that .
  have st: "strip ?h = ?h" using r by (intro strip_no_space) (force simp: is_space_ascii)
  have hd: "hd ?h \<noteq> 45" "hd ?h \<noteq> 43" using r [OF hd_in_set [OF ne]] by auto
  have "120 \<notin> set ?h" "88 \<notin> set ?h" using r by fastforce+
  then have "\<not> starts_with ?h (u ''0x'')" "\<not> starts_with ?h (u ''0X'')"
    using starts_with_set [of ?h "u ''0x''"] starts_with_set [of ?h "u ''0X''"] by (auto simp: u_def)
  with st hd assms hex_digits_text [of 0 False k n "[]"] show ?thesis by (simp add: int16_def Let_def)
qed

lemma parse_show_uuid:
  assumes "n < 2 ^ 128"
  shows "parse_uuid (show_uuid n) = Some n"
proof -
  let ?h = "hex_text 32 n"
  have sub: "set (show_uuid n) \<subseteq> insert 45 (set ?h)"
    unfolding show_uuid_def Let_def by (auto dest: in_set_takeD in_set_dropD)
  have r: "48 \<le> c \<and> c \<le> 57 \<or> 97 \<le> c \<and> c \<le> 102" if "c \<in> set ?h" for c using hex_text_range that .
  have "117 \<notin> set (show_uuid n)" "set (show_uuid n) \<inter> {123, 125} = {}" using sub r by fastforce+
  moreover have "filter (\<lambda>c. c \<noteq> 45) (show_uuid n) = ?h"
  proof -
    have f: "filter (\<lambda>c. c \<noteq> 45) xs = xs" if "set xs \<subseteq> set ?h" for xs
      using that r by (fastforce simp: filter_id_conv)
    have "take 4 (drop 16 ?h) @ drop 20 ?h = drop 16 ?h" "take 4 (drop 12 ?h) @ drop 16 ?h = drop 12 ?h"
      "take 4 (drop 8 ?h) @ drop 12 ?h = drop 8 ?h"
      using drop_split [of 16 ?h 4] drop_split [of 12 ?h 4] drop_split [of 8 ?h 4] by simp_all
    then have "take 8 ?h @ take 4 (drop 8 ?h) @ take 4 (drop 12 ?h) @ take 4 (drop 16 ?h) @ drop 20 ?h = ?h"
      by (simp only: append_take_drop_id)
    moreover have "filter (\<lambda>c. c \<noteq> 45) (take a (drop b ?h)) = take a (drop b ?h)" "filter (\<lambda>c. c \<noteq> 45) (take a ?h) = take a ?h"
        "filter (\<lambda>c. c \<noteq> 45) (drop a ?h) = drop a ?h" for a b
      by (rule f, blast dest: in_set_takeD in_set_dropD)+
    ultimately show ?thesis
      unfolding show_uuid_def Let_def by (simp only: filter_append filter.simps simp_thms if_False append_Nil)
  qed
  moreover have "int16 ?h = Some (int n)"
    using int16_hex_text [of 32 n] assms by simp
  ultimately show ?thesis
    using assms by (simp add: parse_uuid_def Let_def replace_absent strip_chars_absent replace_all_char_empty u_def)
qed

text \<open>
  The answer carries the caller's request id.  When the refused body is an object with a
  well-formed request id in canonical notation, the envelope echoes exactly that id, whatever else
  the body holds.
\<close>

theorem request_id_echoed:
  assumes "errors \<noteq> []" "map_of kvs (u ''request_id'') = Some (JStr (show_uuid n))" "n < 2 ^ 128"
  shows "\<exists>r. validation_handler errors (Some (JObj kvs)) fresh now = Inr (400, r) \<and> r_request_id r = n"
proof -
  have id: "safe_request_id (Some (JObj kvs)) fresh = n"
    using assms(2) parse_show_uuid [OF assms(3)] by (simp add: safe_request_id_def)
  obtain vars where v: "classify_validation errors = Inr (expected_code errors, vars)"
    using classify_code [OF assms(1)] by blast
  obtain rc where rc: "get_code (expected_code errors) = Inr rc" "rc_http_status rc = 400"
    using get_violation_codes [OF expected_codes] by blast
  from build_response_known [OF rc(1), of "safe_request_id (Some (JObj kvs)) fresh" "[]" 0 vars None None now] v rc id
  show ?thesis by (auto simp: validation_handler_def)
qed

section \<open>Instances\<close>

definition demo_violation :: violation where
  "demo_violation = \<lparr>vi_type = u ''missing'', vi_loc = [Key (u ''body''), Key (u ''author''), Key (u ''ip'')], vi_msg = u ''Field required''\<rparr>"

theorem violations_answered_witness:
  "\<exists>r. validation_handler [demo_violation] None 5 0 = Inr (400, r) \<and> r_code r = ''REQ-4001'' \<and> r_request_id r = 5 \<and>
     r_developer_message r = Some ([45572, 46973, 32, 54596, 46300] @ u '': '' @ u ''author.ip'')"
proof -
  have e: "expected_code [demo_violation] = ''REQ-4001''" "missing_fields [demo_violation] = [u ''author.ip'']"
    by (simp_all add: expected_code_def missing_fields_def mentions_def demo_violation_def u_def)
  show ?thesis
    using violations_answered [of "[demo_violation]" None 5 0] by (auto simp: e safe_request_id_def)
qed

theorem request_id_echoed_witness:
  "\<exists>r. validation_handler [demo_violation] (Some (JObj [(u ''request_id'', JStr (show_uuid 77))])) 5 0 = Inr (400, r) \<and> r_request_id r = 77"
  by (rule request_id_echoed) simp_all

end
