(* ===== verification/Encryption.thy ===== *)
theory Encryption
  imports Cursor Hmac_Auth Overrides
begin

text \<open>
  Application-level encryption (\<^verbatim>\<open>app/security/encryption.py\<close>): the hexadecimal master key, the
  retired keys, the versioned envelope in base64, and the choice of the key at decryption.  The
  cipher itself (AES-GCM of the \<^verbatim>\<open>cryptography\<close> package) is a pair of functions; what is relied on
  is that decryption inverts encryption under the same key and nonce and that the tag adds sixteen
  bytes.  Shown is that a value stays readable through key rotations that keep the old key listed.
\<close>

section \<open>Standard base64\<close>

definition std_char :: "nat \<Rightarrow> nat" where
  "std_char v =
     (if v < 26 then 65 + v else if v < 52 then 71 + v else if v < 62 then v - 4 else if v = 62 then 43 else 47)"

definition std_value :: "nat \<Rightarrow> nat option" where
  "std_value c =
     (if 65 \<le> c \<and> c \<le> 90 then Some (c - 65)
      else if 97 \<le> c \<and> c \<le> 122 then Some (c - 71)
      else if 48 \<le> c \<and> c \<le> 57 then Some (c + 4)
      else if c = 43 then Some 62 else if c = 47 then Some 63 else None)"

fun b64encode :: "nat list \<Rightarrow> ustr" where
  "b64encode [] = []"
| "b64encode [a] = [std_char (a div 4), std_char (a mod 4 * 16), 61, 61]"
| "b64encode [a, b] = [std_char (a div 4), std_char (a mod 4 * 16 + b div 16), std_char (b mod 16 * 4), 61]"
| "b64encode (a # b # c # s) =
     [std_char (a div 4), std_char (a mod 4 * 16 + b div 16), std_char (b mod 16 * 4 + c div 64), std_char (c mod 64)]
     @ b64encode s"

text \<open>
  \<^verbatim>\<open>b64decode(s, validate=True)\<close>: groups of four characters of the alphabet, padding only in the
  last group; the unused bits of a padded group are ignored.
\<close>

fun b64decode_strict :: "ustr \<Rightarrow> nat list option" where
  "b64decode_strict [] = Some []"
| "b64decode_strict [w, x, y, z] =
     (case (std_value w, std_value x, std_value y, std_value z) of
        (Some a, Some b, Some c, Some d) \<Rightarrow> Some [a * 4 + b div 16, b mod 16 * 16 + c div 4, c mod 4 * 64 + d]
      | (Some a, Some b, Some c, None) \<Rightarrow> if z = 61 then Some [a * 4 + b div 16, b mod 16 * 16 + c div 4] else None
      | (Some a, Some b, None, None) \<Rightarrow> if y = 61 \<and> z = 61 then Some [a * 4 + b div 16] else None
      | _ \<Rightarrow> None)"
| "b64decode_strict (w # x # y # z # s) =
     (case (std_value w, std_value x, std_value y, std_value z) of
        (Some a, Some b, Some c, Some d) \<Rightarrow>
          map_option (\<lambda>r. [a * 4 + b div 16, b mod 16 * 16 + c div 4, c mod 4 * 64 + d] @ r) (b64decode_strict s)
      | _ \<Rightarrow> None)"
| "b64decode_strict _ = None"

section \<open>Keys\<close>

datatype enc_error = EncryptionError | Enc_crash exn

record enc_config =
  ec_key :: ustr
  ec_key_id :: int
  ec_old_keys :: ustr
  ec_depth :: nat

text \<open>\<^verbatim>\<open>bytes.fromhex\<close>: pairs of hexadecimal digits, with ASCII blanks allowed between the pairs.\<close>

definition hex_nibble :: "nat \<Rightarrow> nat option" where
  "hex_nibble c =
     (if 48 \<le> c \<and> c \<le> 57 then Some (c - 48)
      else if 97 \<le> c \<and> c \<le> 102 then Some (c - 87)
      else if 65 \<le> c \<and> c \<le> 70 then Some (c - 55) else None)"

fun fromhex :: "ustr \<Rightarrow> bytes option" where
  "fromhex [] = Some []"
| "fromhex (c # s) =
     (if c \<in> {32, 9, 10, 11, 12, 13} then fromhex s
      else case s of [] \<Rightarrow> None
        | d # r \<Rightarrow>
            (case (hex_nibble c, hex_nibble d) of
               (Some x, Some y) \<Rightarrow> map_option (Cons (of_nat (x * 16 + y))) (fromhex r)
             | _ \<Rightarrow> None))"

definition decode_master_key :: "ustr \<Rightarrow> enc_error + bytes" where
  "decode_master_key hex_str =
     (if hex_str = [] then Inl EncryptionError
      else case fromhex hex_str of None \<Rightarrow> Inl EncryptionError
        | Some key \<Rightarrow> if length key \<noteq> 32 then Inl EncryptionError else Inr key)"

definition kid_of :: "int \<Rightarrow> nat" where
  "kid_of i = nat (i mod 256)"

text \<open>The dictionary of retired keys; a document that is no object has no \<^verbatim>\<open>items\<close>.\<close>

fun old_entries :: "(ustr \<times> json) list \<Rightarrow> (nat \<times> bytes) list \<Rightarrow> enc_error + (nat \<times> bytes) list" where
  "old_entries [] acc = Inr acc"
| "old_entries ((k, v) # kvs) acc =
     (case py_int k of None \<Rightarrow> Inl EncryptionError
      | Some i \<Rightarrow>
          (case decode_master_key (py_str (dumps None 0) v) of Inl e \<Rightarrow> Inl e
           | Inr key \<Rightarrow> old_entries kvs (put (kid_of i) key acc)))"

definition old_ciphers :: "enc_config \<Rightarrow> enc_error + (nat \<times> bytes) list" where
  "old_ciphers cfg =
     (let raw = strip (ec_old_keys cfg) in
      if raw = [] then Inr []
      else case loads (ec_depth cfg) raw of
        Inl JSONDecodeError \<Rightarrow> Inl EncryptionError
      | Inl _ \<Rightarrow> Inl (Enc_crash RuntimeError)
      | Inr (JObj kvs) \<Rightarrow> old_entries kvs []
      | Inr _ \<Rightarrow> Inl (Enc_crash RuntimeError))"

definition cipher_for :: "enc_config \<Rightarrow> nat \<Rightarrow> enc_error + bytes" where
  "cipher_for cfg kid =
     (if kid = kid_of (ec_key_id cfg) then decode_master_key (ec_key cfg)
      else case old_ciphers cfg of Inl e \<Rightarrow> Inl e
        | Inr olds \<Rightarrow> (case map_of olds kid of Some key \<Rightarrow> Inr key | None \<Rightarrow> decode_master_key (ec_key cfg)))"

section \<open>Envelopes\<close>

type_synonym cipher = "bytes \<Rightarrow> bytes \<Rightarrow> bytes \<Rightarrow> bytes"
type_synonym decipher = "bytes \<Rightarrow> bytes \<Rightarrow> bytes \<Rightarrow> bytes option"

definition encrypt_str :: "cipher \<Rightarrow> enc_config \<Rightarrow> bytes \<Rightarrow> ustr \<Rightarrow> enc_error + ustr" where
  "encrypt_str enc cfg nonce plaintext =
     (if plaintext = [] then Inr []
      else case decode_master_key (ec_key cfg) of Inl e \<Rightarrow> Inl e
        | Inr key \<Rightarrow>
            if \<not> encodable plaintext then Inl (Enc_crash ValueError)
            else Inr (b64encode ([118, kid_of (ec_key_id cfg)] @ map unat nonce @ map unat (enc key nonce (utf8_encode plaintext)))))"

definition decrypt_str :: "decipher \<Rightarrow> enc_config \<Rightarrow> ustr \<Rightarrow> enc_error + ustr" where
  "decrypt_str dec cfg body =
     (if body = [] then Inr []
      else case b64decode_strict body of None \<Rightarrow> Inl EncryptionError
        | Some raw \<Rightarrow>
            if length raw < 1 + 1 + 12 + 16 then Inl EncryptionError
            else if hd raw \<noteq> 118 then Inl EncryptionError
            else (case cipher_for cfg (raw ! 1) of Inl e \<Rightarrow> Inl e
              | Inr key \<Rightarrow>
                  (case dec key (map of_nat (take 12 (drop 2 raw))) (map of_nat (drop 14 raw)) of
                     None \<Rightarrow> Inl EncryptionError
                   | Some pt \<Rightarrow> (case utf8_decode pt of None \<Rightarrow> Inl (Enc_crash ValueError) | Some s \<Rightarrow> Inr s))))"

text \<open>What is relied on of AES-GCM.\<close>

definition aead :: "cipher \<Rightarrow> decipher \<Rightarrow> bool" where
  "aead enc dec \<longleftrightarrow> (\<forall>k n p. dec k n (enc k n p) = Some p \<and> length (enc k n p) = length p + 16)"

section \<open>Round trips\<close>

lemma std_value_char [simp]: "v < 64 \<Longrightarrow> std_value (std_char v) = Some v"
  by (auto simp: std_value_def std_char_def)

lemma std_value_pad [simp]: "std_value 61 = None"
  by (simp add: std_value_def)

lemma strict_cons:
  "s \<noteq> [] \<Longrightarrow> b64decode_strict (w # x # y # z # s) =
     (case (std_value w, std_value x, std_value y, std_value z) of
        (Some a, Some b, Some c, Some d) \<Rightarrow>
          map_option (\<lambda>r. [a * 4 + b div 16, b mod 16 * 16 + c div 4, c mod 4 * 64 + d] @ r) (b64decode_strict s)
      | _ \<Rightarrow> None)"
  by (cases s) (simp_all split: option.splits)

lemma b64encode_ne: "s \<noteq> [] \<Longrightarrow> b64encode s \<noteq> []"
  by (cases s rule: b64encode.cases) simp_all

lemma b64_strict_round_trip: "list_all (\<lambda>b. b < 256) bs \<Longrightarrow> b64decode_strict (b64encode bs) = Some bs"
proof (induction bs rule: b64encode.induct)
  case (2 a)
  then show ?case by (simp add: sextets(1-6) [of a 0 0])
next
  case (3 a b)
  then show ?case by (simp add: sextets(1-6) [of a b 0] high_bits)
next
  case (4 a b c s)
  then show ?case by (cases "s = []") (simp_all add: strict_cons b64encode_ne sextets(1-6) [of a b c] high_bits)
qed simp

definition still_known :: "enc_config \<Rightarrow> enc_config \<Rightarrow> bool" where
  "still_known cfg cfg' \<longleftrightarrow>
     (if kid_of (ec_key_id cfg') = kid_of (ec_key_id cfg) then ec_key cfg' = ec_key cfg
      else case (old_ciphers cfg', decode_master_key (ec_key cfg)) of
        (Inr olds, Inr key) \<Rightarrow> map_of olds (kid_of (ec_key_id cfg)) = Some key
      | _ \<Rightarrow> False)"

lemma known_cipher:
  "still_known cfg cfg' \<Longrightarrow> decode_master_key (ec_key cfg) = Inr key \<Longrightarrow> cipher_for cfg' (kid_of (ec_key_id cfg)) = Inr key"
  by (auto simp: still_known_def cipher_for_def split: if_splits sum.splits)

lemma kid_of_bound: "kid_of i < 256"
  by (simp add: kid_of_def nat_less_iff)

lemma of_nat_unat_bytes: "map (of_nat :: nat \<Rightarrow> 8 word) (map unat (bs :: bytes)) = bs"
  by (simp add: map_idI)

text \<open>
  C34: stored values survive key rotation.  A text encrypted under one configuration decrypts to
  itself under every later configuration that still has the key, either as the current one under
  the same id or in the list of retired keys under the old id, given that the cipher inverts itself
  and adds a tag of sixteen bytes.
\<close>

theorem rotation_round_trip:
  assumes "aead enc dec" "encrypt_str enc cfg nonce pt = Inr body" "length nonce = 12" "list_all scalar pt" "still_known cfg cfg'"
  shows "decrypt_str dec cfg' body = Inr pt"
proof (cases "pt = []")
  case True
  then show ?thesis using assms(2) by (simp add: encrypt_str_def decrypt_str_def)
next
  case False
  then obtain key where key: "decode_master_key (ec_key cfg) = Inr key"
    and body: "body = b64encode ([118, kid_of (ec_key_id cfg)] @ map unat nonce @ map unat (enc key nonce (utf8_encode pt)))"
    using assms(2) by (auto simp: encrypt_str_def split: sum.splits if_splits)
  let ?raw = "[118, kid_of (ec_key_id cfg)] @ map unat nonce @ map unat (enc key nonce (utf8_encode pt))"
  have "unat b < 256" for b :: "8 word" using unsigned_less [of b] by simp
  then have "list_all (\<lambda>b. b < 256) ?raw" by (auto simp: list_all_iff kid_of_bound)
  then have d: "b64decode_strict body = Some ?raw" unfolding body by (rule b64_strict_round_trip)
  have c: "length (enc key nonce (utf8_encode pt)) = length (utf8_encode pt) + 16" "dec key nonce (enc key nonce (utf8_encode pt)) = Some (utf8_encode pt)"
    using assms(1) by (simp_all add: aead_def)
  have "take 12 (drop 2 ?raw) = map unat nonce" "drop 14 ?raw = map unat (enc key nonce (utf8_encode pt))"
    using assms(3) by simp_all
  moreover have "body \<noteq> []" unfolding body by (rule b64encode_ne) simp
  ultimately show ?thesis
    using d c assms(3) known_cipher [OF assms(5) key] utf8_roundtrip [OF assms(4)]
    by (simp add: decrypt_str_def of_nat_unat_bytes [unfolded map_map])
qed

section \<open>Instances\<close>

definition toy_enc :: cipher where "toy_enc k n p = p @ replicate 16 7"
definition toy_dec :: decipher where
  "toy_dec k n c = (if drop (length c - 16) c = replicate 16 7 then Some (take (length c - 16) c) else None)"

lemma toy_aead: "aead toy_enc toy_dec"
  by (simp add: aead_def toy_enc_def toy_dec_def)

definition demo_enc :: "int \<Rightarrow> ustr \<Rightarrow> enc_config" where
  "demo_enc i old = \<lparr>ec_key = replicate 64 48, ec_key_id = i, ec_old_keys = old, ec_depth = 900\<rparr>"

lemma fromhex_zeros: "fromhex (replicate (2 * n) 48) = Some (replicate n 0)"
  by (induction n) (simp_all add: hex_nibble_def)

theorem rotation_round_trip_witness:
  "\<exists>body. encrypt_str toy_enc (demo_enc 1 []) (replicate 12 0) (u ''secret'') = Inr body \<and>
     decrypt_str toy_dec (demo_enc 257 []) body = Inr (u ''secret'')"
proof -
  have "decode_master_key (ec_key (demo_enc 1 [])) = Inr (replicate 32 0)"
    using fromhex_zeros [of 32] by (simp add: decode_master_key_def demo_enc_def)
  then obtain body where b: "encrypt_str toy_enc (demo_enc 1 []) (replicate 12 0) (u ''secret'') = Inr body"
    by (auto simp: encrypt_str_def encodable_def u_def)
  have "decrypt_str toy_dec (demo_enc 257 []) body = Inr (u ''secret'')"
    by (rule rotation_round_trip [OF toy_aead b]) (simp_all add: scalar_def u_def still_known_def demo_enc_def kid_of_def)
  with b show ?thesis by blast
qed

end
