(* ===== verification/Vlm.thy ===== *)
theory Vlm
  imports Regex Json Responses Overrides Cursor
begin

text \<open>
  OCR through the vision model (\<^verbatim>\<open>app/extractors/ocr_vlm.py\<close>): the request, the classification of
  transport failures, and the tolerant reading of the model's answer.  The HTTP exchange, the PNG
  encoder, the truncation of floating point coordinates and \<^verbatim>\<open>repr\<close> are parameters.  Shown: the boxes of an
  answer have the size of the image and ordered corners, every failure of the transport becomes the
  error the caller expects, and answers that are JSON but no object escape the error handling.
\<close>

section \<open>The answer of the model\<close>

text \<open>\<^verbatim>\<open>^\<close> and \<^verbatim>\<open>$\<close> with \<^verbatim>\<open>re.MULTILINE\<close>: no character other than a line feed before, or after.\<close>

definition not_newline :: cls where "not_newline = Either (Range 0 9) (Range 11 1114111)"

definition backticks :: rx where "backticks = seq [RCls (Lit 96), RCls (Lit 96), RCls (Lit 96)]"

definition FENCE_RE :: rx where
  "FENCE_RE = RAlt (seq [RBehindNot not_newline, backticks, RRep (chars ''json'') 0 1, RMany Space 0])
                   (seq [RMany Space 0, backticks, RAheadNot not_newline])"

definition strip_fences :: "ustr \<Rightarrow> ustr" where
  "strip_fences s = strip (sub_all FENCE_RE [] s)"

text \<open>\<^verbatim>\<open>s.find(c)\<close> and \<^verbatim>\<open>s.rfind(c)\<close>.\<close>

definition find_char :: "nat \<Rightarrow> ustr \<Rightarrow> nat option" where
  "find_char c s = (if c \<in> set s then Some (length (takeWhile (\<lambda>x. x \<noteq> c) s)) else None)"

definition rfind_char :: "nat \<Rightarrow> ustr \<Rightarrow> nat option" where
  "rfind_char c s = (if c \<in> set s then Some (length s - 1 - length (takeWhile (\<lambda>x. x \<noteq> c) (rev s))) else None)"

datatype read_result = Document json | Nothing_readable | Read_crash exn

definition read_json :: "nat \<Rightarrow> ustr \<Rightarrow> read_result" where
  "read_json depth cleaned =
     (case loads depth cleaned of
        Inr v \<Rightarrow> Document v
      | Inl JSONDecodeError \<Rightarrow>
          (case (find_char 123 cleaned, rfind_char 125 cleaned) of
             (Some i, Some j) \<Rightarrow>
               if i < j then
                 (case loads depth (substr cleaned i (Suc j)) of
                    Inr v \<Rightarrow> Document v
                  | Inl JSONDecodeError \<Rightarrow> Nothing_readable
                  | Inl _ \<Rightarrow> Read_crash RuntimeError)
               else Nothing_readable
           | _ \<Rightarrow> Nothing_readable)
      | Inl _ \<Rightarrow> Read_crash RuntimeError)"

text \<open>
  \<^verbatim>\<open>int(v)\<close> of a coordinate; booleans count as integers.  \<open>trunc m k\<close> is \<^verbatim>\<open>int\<close> of the float
  read from the decimal \<open>m / 10^k\<close>.  \<open>None\<close>: not a number.
\<close>

fun coordinate :: "(int \<Rightarrow> nat \<Rightarrow> int) \<Rightarrow> json \<Rightarrow> (exn + int) option" where
  "coordinate trunc (JInt i) = Some (Inr i)"
| "coordinate trunc (JBool b) = Some (Inr (if b then 1 else 0))"
| "coordinate trunc (JDec m k) = Some (Inr (trunc m k))"
| "coordinate trunc (JSpecial n) = Some (Inl (if n = ''NaN'' then ValueError else OverflowError))"
| "coordinate trunc _ = None"

definition ordered_box :: "int \<Rightarrow> int \<Rightarrow> int \<Rightarrow> int \<Rightarrow> ustr \<Rightarrow> ocr_box" where
  "ordered_box x1 y1 x2 y2 txt = \<lparr>ob_x1 = min x1 x2, ob_y1 = min y1 y2, ob_x2 = max x1 x2, ob_y2 = max y1 y2, ob_text = txt\<rparr>"

text \<open>\<^verbatim>\<open>str(x.get(k) or "")\<close>; \<open>rep\<close> is the \<^verbatim>\<open>repr\<close> that \<^verbatim>\<open>str\<close> gives for lists and dictionaries.\<close>

definition text_of :: "(json \<Rightarrow> ustr) \<Rightarrow> (ustr \<times> json) list \<Rightarrow> ustr" where
  "text_of rep kvs = (case map_of kvs (u ''text'') of Some v \<Rightarrow> if truthy_json v then py_str rep v else [] | None \<Rightarrow> [])"

definition box_of :: "(json \<Rightarrow> ustr) \<Rightarrow> (int \<Rightarrow> nat \<Rightarrow> int) \<Rightarrow> (ustr \<times> json) list \<Rightarrow> exn + ocr_box option" where
  "box_of rep trunc blk =
     (case map_of blk (u ''bbox'') of
        Some (JArr [a, b, c, d]) \<Rightarrow>
          (case (coordinate trunc a, coordinate trunc b, coordinate trunc c, coordinate trunc d) of
             (Some ra, Some rb, Some rc, Some rd) \<Rightarrow>
               (case ra of Inl e \<Rightarrow> Inl e | Inr x1 \<Rightarrow> case rb of Inl e \<Rightarrow> Inl e | Inr y1 \<Rightarrow>
                case rc of Inl e \<Rightarrow> Inl e | Inr x2 \<Rightarrow> case rd of Inl e \<Rightarrow> Inl e | Inr y2 \<Rightarrow>
                Inr (Some (ordered_box x1 y1 x2 y2 (text_of rep blk))))
           | _ \<Rightarrow> Inr None)
      | _ \<Rightarrow> Inr None)"

fun boxes_of :: "(json \<Rightarrow> ustr) \<Rightarrow> (int \<Rightarrow> nat \<Rightarrow> int) \<Rightarrow> json list \<Rightarrow> exn + ocr_box list" where
  "boxes_of rep trunc [] = Inr []"
| "boxes_of rep trunc (JObj blk # vs) =
     (case box_of rep trunc blk of Inl e \<Rightarrow> Inl e
      | Inr b \<Rightarrow> map_sum id (\<lambda>bs. (case b of None \<Rightarrow> bs | Some x \<Rightarrow> x # bs)) (boxes_of rep trunc vs))"
| "boxes_of rep trunc (v # vs) = boxes_of rep trunc vs"

definition parse_response :: "(json \<Rightarrow> ustr) \<Rightarrow> (int \<Rightarrow> nat \<Rightarrow> int) \<Rightarrow> nat \<Rightarrow> ustr \<Rightarrow> exn + ustr \<times> ocr_box list" where
  "parse_response rep trunc depth content =
     (case read_json depth (strip_fences content) of
        Nothing_readable \<Rightarrow> Inr ([], [])
      | Read_crash e \<Rightarrow> Inl e
      | Document (JObj data) \<Rightarrow>
          (case map_of data (u ''blocks'') of
             Some (JArr vs) \<Rightarrow> map_sum id (Pair (text_of rep data)) (boxes_of rep trunc vs)
           | _ \<Rightarrow> Inr (text_of rep data, []))
      | Document _ \<Rightarrow> Inl RuntimeError)"

section \<open>The exchange\<close>

record vlm_settings =
  vl_model_id :: ustr
  vl_api_key :: ustr
  vl_endpoint :: ustr

datatype exchange = Timed_out | Transport_error | Answered nat "json option"

definition rstrip_slash :: "ustr \<Rightarrow> ustr" where
  "rstrip_slash s = rev (dropWhile (\<lambda>c. c = 47) (rev s))"

definition vlm_url :: "vlm_settings \<Rightarrow> ustr" where
  "vlm_url s = rstrip_slash (vl_endpoint s) @ u ''/chat/completions''"

definition vlm_headers :: "vlm_settings \<Rightarrow> (ustr \<times> ustr) list" where
  "vlm_headers s = (u ''content-type'', u ''application/json'') #
     (if vl_api_key s \<noteq> [] then [(u ''authorization'', u ''Bearer '' @ vl_api_key s)] else [])"

text \<open>
  \<^verbatim>\<open>body["choices"][0]["message"]\<close>: \<open>Inl True\<close> is an error the code wraps (a missing key or index),
  \<open>Inl False\<close> one it does not (subscripting a value of another type).
\<close>

definition message_of :: "json \<Rightarrow> bool + json" where
  "message_of body =
     (case body of
        JObj kvs \<Rightarrow>
          (case map_of kvs (u ''choices'') of
             None \<Rightarrow> Inl True
           | Some (JArr []) \<Rightarrow> Inl True
           | Some (JArr (JObj c # _)) \<Rightarrow> (case map_of c (u ''message'') of None \<Rightarrow> Inl True | Some m \<Rightarrow> Inr m)
           | Some (JObj _) \<Rightarrow> Inl True
           | Some (JStr []) \<Rightarrow> Inl True
           | Some _ \<Rightarrow> Inl False)
      | _ \<Rightarrow> Inl False)"

definition content_of :: "(json \<Rightarrow> ustr) \<Rightarrow> (ustr \<times> json) list \<Rightarrow> ustr" where
  "content_of rep msg =
     (case map_of msg (u ''content'') of
        Some v \<Rightarrow> if truthy_json v then py_str rep v
                   else (case map_of msg (u ''reasoning'') of Some w \<Rightarrow> if truthy_json w then py_str rep w else [] | None \<Rightarrow> [])
      | None \<Rightarrow> (case map_of msg (u ''reasoning'') of Some w \<Rightarrow> if truthy_json w then py_str rep w else [] | None \<Rightarrow> []))"

definition vlm_ocr ::
  "(json \<Rightarrow> ustr) \<Rightarrow> (int \<Rightarrow> nat \<Rightarrow> int) \<Rightarrow> nat \<Rightarrow> (image \<Rightarrow> exchange) \<Rightarrow> image \<Rightarrow> vlm_outcome" where
  "vlm_ocr rep trunc depth post img =
     (case post img of
        Timed_out \<Rightarrow> Vlm_error (u ''VLM timeout'')
      | Transport_error \<Rightarrow> Vlm_error (u ''VLM transport error'')
      | Answered status body \<Rightarrow>
          if status \<ge> 400 then Vlm_error (u ''VLM HTTP'')
          else (case body of None \<Rightarrow> Vlm_error (u ''VLM malformed response'')
            | Some b \<Rightarrow>
                (case message_of b of
                   Inl True \<Rightarrow> Vlm_error (u ''VLM malformed response'')
                 | Inl False \<Rightarrow> Vlm_raise (u ''TypeError'')
                 | Inr (JObj msg) \<Rightarrow>
                     (case parse_response rep trunc depth (content_of rep msg) of
                        Inl e \<Rightarrow> Vlm_raise (u ''unhandled'')
                      | Inr (txt, boxes) \<Rightarrow>
                          Vlm_ok \<lparr>or_text = txt, or_boxes = boxes, or_width = im_width img, or_height = im_height img\<rparr>)
                 | Inr _ \<Rightarrow> Vlm_raise (u ''AttributeError''))))"

section \<open>What the caller can rely on\<close>

definition box_ordered :: "ocr_box \<Rightarrow> bool" where
  "box_ordered b \<longleftrightarrow> ob_x1 b \<le> ob_x2 b \<and> ob_y1 b \<le> ob_y2 b"

lemma box_of_ordered: "box_of rep trunc blk = Inr (Some b) \<Longrightarrow> box_ordered b"
  by (auto simp: box_of_def box_ordered_def ordered_box_def split: option.splits json.splits list.splits sum.splits)

lemma boxes_of_ordered: "boxes_of rep trunc vs = Inr bs \<Longrightarrow> list_all box_ordered bs"
proof (induction rep trunc vs arbitrary: bs rule: boxes_of.induct)
  case (2 rep trunc blk vs)
  then show ?case
    by (auto simp: map_sum_eq_Inr_iff split: sum.splits option.splits dest: box_of_ordered)
qed simp_all

lemma parse_response_ordered: "parse_response rep trunc depth c = Inr (t, bs) \<Longrightarrow> list_all box_ordered bs"
  by (auto simp: parse_response_def map_sum_eq_Inr_iff dest: boxes_of_ordered split: read_result.splits json.splits option.splits)

text \<open>An answer in which the key or index on the way to the message is missing.\<close>

definition lacks_message :: "json \<Rightarrow> bool" where
  "lacks_message b \<longleftrightarrow>
     (\<exists>kvs. b = JObj kvs \<and>
        (case map_of kvs (u ''choices'') of
           None \<Rightarrow> True
         | Some v \<Rightarrow> v = JArr [] \<or> v = JStr [] \<or> (\<exists>members. v = JObj members) \<or>
             (\<exists>c cs. v = JArr (JObj c # cs) \<and> map_of c (u ''message'') = None)))"

lemma message_of_lacks: "message_of b = Inl True \<longleftrightarrow> lacks_message b"
  by (auto simp: message_of_def lacks_message_def split: json.splits option.splits list.splits)

text \<open>
  C35: the result of the model is usable as it is, and its failures are told apart.  The step ends in
  the error that the caller maps to SVR-5004 exactly when the exchange timed out, broke off, came
  back with a status from 400 on, with a body that is no JSON, or without a message.  When it gives a
  result, the answer was below 400 and had a message that is an object, the result has the size of the
  image, and every box has its corners in order.
\<close>

theorem vlm_result_usable:
  "((\<exists>m. vlm_ocr rep trunc depth post img = Vlm_error m) \<longleftrightarrow>
      post img = Timed_out \<or> post img = Transport_error \<or>
      (\<exists>status body. post img = Answered status body \<and>
         (400 \<le> status \<or> body = None \<or> (\<exists>b. body = Some b \<and> lacks_message b)))) \<and>
   (case vlm_ocr rep trunc depth post img of
      Vlm_ok r \<Rightarrow> (\<exists>status b msg. post img = Answered status (Some b) \<and> status < 400 \<and> message_of b = Inr (JObj msg)) \<and>
        or_width r = im_width img \<and> or_height r = im_height img \<and>
        list_all (\<lambda>box. ob_x1 box \<le> ob_x2 box \<and> ob_y1 box \<le> ob_y2 box) (or_boxes r)
    | _ \<Rightarrow> True)"
proof -
  have "list_all (\<lambda>box. ob_x1 box \<le> ob_x2 box \<and> ob_y1 box \<le> ob_y2 box) bs"
    if "parse_response rep trunc depth c = Inr (t, bs)" for c t bs
    using parse_response_ordered [OF that] by (simp add: box_ordered_def list_all_iff)
  then show ?thesis
    unfolding message_of_lacks [symmetric]
    by (auto simp: vlm_ocr_def split: exchange.splits option.splits sum.splits bool.splits json.splits)
qed

definition demo_document :: json where
  "demo_document = JObj [(u ''text'', JStr (u ''hi'')), (u ''blocks'',
     JArr [JObj [(u ''bbox'', JArr [JInt 9, JInt 2, JInt 3, JInt 4])]])]"

definition demo_answer :: json where
  "demo_answer = JObj [(u ''choices'', JArr [JObj [(u ''message'',
     JObj [(u ''content'', JStr (dumps None 0 demo_document))])]])]"

lemma no_fence:
  assumes "96 \<notin> set s"
  shows "sub_all FENCE_RE [] s = s"
proof -
  have "ends (RCls (Lit 96)) s i = []" for i using assms by (auto simp: in_set_conv_nth)
  then have e: "ends backticks s i = []" "ends (RSeq backticks r) s = (\<lambda>_. [])" for i r
    by (auto simp: backticks_def fun_eq_iff)
  have c: "concat (map (\<lambda>_. []) xs) = ([] :: nat list)" for xs :: "nat list" by (induction xs) auto
  have "match_at FENCE_RE s i = None" for i
    by (simp add: match_at_def FENCE_RE_def e c)
  then show ?thesis unfolding sub_all_def by (subst sub_from_id) simp_all
qed

lemma demo_answer_read:
  "vlm_ocr (\<lambda>_. []) (\<lambda>m k. 0) 900 (\<lambda>_. Answered 200 (Some demo_answer))
     \<lparr>im_width = 20, im_height = 10, im_mode = ''RGB'', im_pixels = []\<rparr> =
   Vlm_ok \<lparr>or_text = u ''hi'', or_boxes = [\<lparr>ob_x1 = 3, ob_y1 = 2, ob_x2 = 9, ob_y2 = 4, ob_text = []\<rparr>],
     or_width = 20, or_height = 10\<rparr>"
proof -
  let ?c = "dumps None 0 demo_document"
  have c: "96 \<notin> set ?c" "strip ?c = ?c" "?c \<noteq> []"
    by (simp_all add: demo_document_def wrap_def newline_def item_sep_def join_Cons json_str_def json_char_def u_def
        str_int_def show_nat.simps strip_def is_space_ascii)
  have "loads 900 ?c = Inr demo_document"
    by (rule loads_dumps) (simp_all add: demo_document_def u_def show_nat.simps)
  with c have "parse_response (\<lambda>_. []) (\<lambda>m k. 0) 900 ?c =
      Inr (u ''hi'', [\<lparr>ob_x1 = 3, ob_y1 = 2, ob_x2 = 9, ob_y2 = 4, ob_text = []\<rparr>])"
    by (simp add: parse_response_def strip_fences_def no_fence read_json_def)
      (simp add: demo_document_def box_of_def ordered_box_def text_of_def u_def)
  with c(3) show ?thesis by (simp add: vlm_ocr_def demo_answer_def message_of_def content_of_def)
qed

theorem vlm_result_usable_witness:
  "(\<exists>m. vlm_ocr (\<lambda>_. []) (\<lambda>m k. 0) 900 (\<lambda>_. Answered 503 None)
      \<lparr>im_width = 20, im_height = 10, im_mode = ''RGB'', im_pixels = []\<rparr> = Vlm_error m) \<and>
   (\<exists>r. vlm_ocr (\<lambda>_. []) (\<lambda>m k. 0) 900 (\<lambda>_. Answered 200 (Some demo_answer))
      \<lparr>im_width = 20, im_height = 10, im_mode = ''RGB'', im_pixels = []\<rparr> = Vlm_ok r \<and>
      list_all (\<lambda>box. ob_x1 box \<le> ob_x2 box \<and> ob_y1 box \<le> ob_y2 box) (or_boxes r))"
  using vlm_result_usable [where rep = "\<lambda>_. []" and trunc = "\<lambda>m k. 0" and depth = 900 and post = "\<lambda>_. Answered 503 None"
      and img = "\<lparr>im_width = 20, im_height = 10, im_mode = ''RGB'', im_pixels = []\<rparr>"]
    vlm_result_usable [where rep = "\<lambda>_. []" and trunc = "\<lambda>m k. 0" and depth = 900 and post = "\<lambda>_. Answered 200 (Some demo_answer)"
      and img = "\<lparr>im_width = 20, im_height = 10, im_mode = ''RGB'', im_pixels = []\<rparr>"]
  unfolding demo_answer_read by simp

text \<open>
  Some readable answers crash the page.  An answer whose content is a JSON document other than
  an object is neither a result nor the expected error: the exception leaves the OCR step.
\<close>

theorem vlm_array_answer_crashes:
  assumes "post img = Answered 200 (Some (JObj [(u ''choices'', JArr [JObj [(u ''message'', JObj [(u ''content'', JStr c)])]])]))"
    and "loads depth (strip_fences c) = Inr (JArr vs)" "c \<noteq> []"
  shows "\<exists>m. vlm_ocr rep trunc depth post img = Vlm_raise m"
  using assms by (simp add: vlm_ocr_def message_of_def content_of_def parse_response_def read_json_def)

theorem vlm_array_answer_crashes_witness:
  "\<exists>m. vlm_ocr (\<lambda>_. []) (\<lambda>m k. 0) 900 (\<lambda>_. Answered 200 (Some (JObj [(u ''choices'', JArr [JObj [(u ''message'', JObj [(u ''content'', JStr (u ''[]''))])]])])))
     \<lparr>im_width = 1, im_height = 1, im_mode = ''RGB'', im_pixels = []\<rparr> = Vlm_raise m"
proof (rule vlm_array_answer_crashes [OF refl])
  have none: "match_at FENCE_RE (u ''[]'') j = None" if "j \<le> 2" for j
  proof -
    have "j = 0 \<or> j = 1 \<or> j = 2" using that by arith
    then show ?thesis
      by (auto simp: match_at_def FENCE_RE_def backticks_def u_def is_space_ascii chars_def not_newline_def)
  qed
  then have "sub_all FENCE_RE [] (u ''[]'') = u ''[]''"
    unfolding sub_all_def by (subst sub_from_id) simp_all
  moreover have "strip (u ''[]'') = u ''[]''" by (rule strip_no_space) (auto simp: u_def is_space_ascii)
  moreover have "loads 900 (u ''[]'') = Inr (JArr [])"
    using loads_dumps [of "JArr []" 900 None 0] by (simp add: wrap_def u_def)
  ultimately show "loads 900 (strip_fences (u ''[]'')) = Inr (JArr [])" by (simp add: strip_fences_def)
qed simp

end
