(* ===== verification/Schema.thy ===== *)
theory Schema
  imports Json
begin

text \<open>
  The database side of the migrations under \<^verbatim>\<open>app/db/migrations/versions\<close>: what PostgreSQL documents
  of the schema changes and data statements that Alembic's \<^verbatim>\<open>op\<close> functions emit.  All tables of the
  program live in the schema \<^verbatim>\<open>pii\<close>; a call without the \<^verbatim>\<open>schema\<close> argument names a table through the
  search path of the connection.  Rows are kept, so that a statement that existing data refuses fails
  here as well, and the row triggers only send notifications and so leave the tables alone.
\<close>

section \<open>Tables\<close>

datatype sql_value = VNull | VInt int | VDec int nat | VText ustr | VBool bool | VTexts "ustr list" | VTime int

datatype sql_type = Integer | BigInteger | Float | Boolean | Text | String nat | DateTime | ARRAY sql_type

text \<open>A server default is \<^verbatim>\<open>now()\<close> or a literal.\<close>

datatype sql_default = Now | Literal sql_value

record column =
  cl_name :: string
  cl_type :: sql_type
  cl_nullable :: bool
  cl_default :: "sql_default option"
  cl_auto :: bool

text \<open>A required column, an optional one, a serial key, and a required column with a server default.\<close>

definition col :: "string \<Rightarrow> sql_type \<Rightarrow> column" where
  "col n ty = \<lparr>cl_name = n, cl_type = ty, cl_nullable = False, cl_default = None, cl_auto = False\<rparr>"

definition nullable :: "string \<Rightarrow> sql_type \<Rightarrow> column" where
  "nullable n ty = (col n ty)\<lparr>cl_nullable := True\<rparr>"

definition serial :: "string \<Rightarrow> sql_type \<Rightarrow> column" where
  "serial n ty = (col n ty)\<lparr>cl_auto := True\<rparr>"

definition with_default :: "string \<Rightarrow> sql_type \<Rightarrow> sql_default \<Rightarrow> column" where
  "with_default n ty v = (col n ty)\<lparr>cl_default := Some v\<rparr>"

text \<open>The conditions of the check constraints, with the three-valued logic of SQL.\<close>

datatype check =
    One_of string "string list"
  | At_least string int
  | At_most string int
  | Above string int
  | Not_over string string
  | Not_null string
  | Both check check
  | Any check check

datatype constraint =
    Primary_key "string list"
  | Check string check
  | Unique string "string list"
  | Foreign_key string "string list" string "string list" string

type_synonym row = "(string \<times> sql_value) list"

record rel =
  tb_columns :: "column list"
  tb_constraints :: "constraint list"
  tb_rows :: "row list"
  tb_next :: int

datatype index_item = Asc string | Desc string

record index =
  ix_name :: string
  ix_table :: string
  ix_items :: "index_item list"
  ix_unique :: bool

record trigger =
  tg_name :: string
  tg_table :: string
  tg_events :: string
  tg_function :: string

record db =
  db_tables :: "(string \<times> rel) list"
  db_indexes :: "index list"
  db_triggers :: "trigger list"
  db_functions :: "string list"

datatype db_error =
    Undefined_table | Undefined_column | Undefined_object | Duplicate_table | Duplicate_column | Duplicate_object
  | Not_null_violation | Check_violation | Unique_violation | Foreign_key_violation | Value_too_long
  | Dependent_objects | Unnamed_constraint | Invalid_reference

text \<open>The connection: the time of the transaction and whether its search path reaches \<^verbatim>\<open>pii\<close>.\<close>

record conn =
  cn_now :: int
  cn_path :: bool

definition no_db :: db where
  "no_db = \<lparr>db_tables = [], db_indexes = [], db_triggers = [], db_functions = []\<rparr>"

section \<open>Rows and constraints\<close>

definition cell :: "row \<Rightarrow> string \<Rightarrow> sql_value" where
  "cell r c = (case map_of r c of None \<Rightarrow> VNull | Some v \<Rightarrow> v)"

fun number :: "sql_value \<Rightarrow> rat option" where
  "number (VInt i) = Some (of_int i)"
| "number (VDec m k) = Some (of_int m / 10 ^ k)"
| "number _ = None"

definition compare_with :: "(rat \<Rightarrow> bool) \<Rightarrow> sql_value \<Rightarrow> bool option" where
  "compare_with p v = map_option p (number v)"

fun and3 :: "bool option \<Rightarrow> bool option \<Rightarrow> bool option" where
  "and3 (Some False) _ = Some False"
| "and3 _ (Some False) = Some False"
| "and3 (Some True) (Some True) = Some True"
| "and3 _ _ = None"

definition or3 :: "bool option \<Rightarrow> bool option \<Rightarrow> bool option" where
  "or3 a b = map_option Not (and3 (map_option Not a) (map_option Not b))"

fun check_value :: "row \<Rightarrow> check \<Rightarrow> bool option" where
  "check_value r (One_of c vs) = (case cell r c of VText t \<Rightarrow> Some (t \<in> u ` set vs) | _ \<Rightarrow> None)"
| "check_value r (At_least c k) = compare_with (\<lambda>x. of_int k \<le> x) (cell r c)"
| "check_value r (At_most c k) = compare_with (\<lambda>x. x \<le> of_int k) (cell r c)"
| "check_value r (Above c k) = compare_with (\<lambda>x. of_int k < x) (cell r c)"
| "check_value r (Not_over c d) =
     (case (number (cell r c), number (cell r d)) of (Some x, Some y) \<Rightarrow> Some (x \<le> y) | _ \<Rightarrow> None)"
| "check_value r (Not_null c) = Some (cell r c \<noteq> VNull)"
| "check_value r (Both a b) = and3 (check_value r a) (check_value r b)"
| "check_value r (Any a b) = or3 (check_value r a) (check_value r b)"

fun check_cols :: "check \<Rightarrow> string list" where
  "check_cols (One_of c vs) = [c]"
| "check_cols (At_least c k) = [c]"
| "check_cols (At_most c k) = [c]"
| "check_cols (Above c k) = [c]"
| "check_cols (Not_over c d) = [c, d]"
| "check_cols (Not_null c) = [c]"
| "check_cols (Both a b) = check_cols a @ check_cols b"
| "check_cols (Any a b) = check_cols a @ check_cols b"

fun con_cols :: "constraint \<Rightarrow> string list" where
  "con_cols (Primary_key cs) = cs"
| "con_cols (Check n e) = check_cols e"
| "con_cols (Unique n cs) = cs"
| "con_cols (Foreign_key n cs t rs od) = cs"

text \<open>The name PostgreSQL gives to a constraint that has none.\<close>

definition fkey_name :: "string \<Rightarrow> string list \<Rightarrow> string" where
  "fkey_name t cs = concat (map (\<lambda>s. s @ ''_'') (t # cs)) @ ''fkey''"

fun con_name :: "string \<Rightarrow> constraint \<Rightarrow> string" where
  "con_name t (Primary_key cs) = t @ ''_pkey''"
| "con_name t (Check n e) = n"
| "con_name t (Unique n cs) = n"
| "con_name t (Foreign_key n cs s rs od) = n"

definition keys_of :: "rel \<Rightarrow> string list list" where
  "keys_of t = concat (map (\<lambda>c. case c of Primary_key cs \<Rightarrow> [cs] | Unique n cs \<Rightarrow> [cs] | _ \<Rightarrow> []) (tb_constraints t))"

definition columns_of :: "rel \<Rightarrow> string list" where
  "columns_of t = map cl_name (tb_columns t)"

fun item_col :: "index_item \<Rightarrow> string" where
  "item_col (Asc c) = c"
| "item_col (Desc c) = c"

definition same_key :: "string list \<Rightarrow> row \<Rightarrow> row \<Rightarrow> bool" where
  "same_key cs r s \<longleftrightarrow> list_all (\<lambda>c. cell r c \<noteq> VNull \<and> cell r c = cell s c) cs"

fun no_twins :: "string list \<Rightarrow> row list \<Rightarrow> bool" where
  "no_twins cs [] = True"
| "no_twins cs (r # rs) = (\<not> list_ex (same_key cs r) rs \<and> no_twins cs rs)"

fun fits_type :: "sql_type \<Rightarrow> sql_value \<Rightarrow> bool" where
  "fits_type (String n) (VText t) = (length t \<le> n)"
| "fits_type _ _ = True"

text \<open>The uniqueness rules of a table: its keys and its unique indexes.\<close>

definition unique_rules :: "db \<Rightarrow> string \<Rightarrow> rel \<Rightarrow> string list list" where
  "unique_rules d n t = keys_of t @ map (map item_col \<circ> ix_items) (filter (\<lambda>i. ix_unique i \<and> ix_table i = n) (db_indexes d))"

definition referenced :: "db \<Rightarrow> row \<Rightarrow> constraint \<Rightarrow> bool" where
  "referenced d r c =
     (case c of Foreign_key n cs s rs od \<Rightarrow>
        list_ex (\<lambda>x. cell r x = VNull) cs \<or>
        (case map_of (db_tables d) s of None \<Rightarrow> False
         | Some t \<Rightarrow> list_ex (\<lambda>q. list_all (\<lambda>(x, y). cell r x = cell q y) (zip cs rs)) (tb_rows t))
      | _ \<Rightarrow> True)"

definition row_error :: "db \<Rightarrow> rel \<Rightarrow> row \<Rightarrow> db_error option" where
  "row_error d t r =
     (if list_ex (\<lambda>c. \<not> cl_nullable c \<and> cell r (cl_name c) = VNull) (tb_columns t) then Some Not_null_violation
      else if list_ex (\<lambda>c. \<not> fits_type (cl_type c) (cell r (cl_name c))) (tb_columns t) then Some Value_too_long
      else if list_ex (\<lambda>c. case c of Check n e \<Rightarrow> check_value r e = Some False | _ \<Rightarrow> False) (tb_constraints t) then Some Check_violation
      else if \<not> list_all (referenced d r) (tb_constraints t) then Some Foreign_key_violation
      else None)"

section \<open>Schema changes\<close>

text \<open>Tables, indexes and the indexes behind keys share one name space.\<close>

definition relation_names :: "db \<Rightarrow> string list" where
  "relation_names d =
     map fst (db_tables d) @ map ix_name (db_indexes d) @
     concat (map (\<lambda>(n, t). map (con_name n) (filter (\<lambda>c. case c of Primary_key _ \<Rightarrow> True | Unique _ _ \<Rightarrow> True | _ \<Rightarrow> False) (tb_constraints t))) (db_tables d))"

definition reference_ok :: "db \<Rightarrow> constraint \<Rightarrow> bool" where
  "reference_ok d c =
     (case c of Foreign_key n cs s rs od \<Rightarrow> (case map_of (db_tables d) s of None \<Rightarrow> False | Some t \<Rightarrow> rs \<in> set (keys_of t)) | _ \<Rightarrow> True)"

definition with_table :: "db \<Rightarrow> string \<Rightarrow> (rel \<Rightarrow> db_error + db) \<Rightarrow> db_error + db" where
  "with_table d n f = (case map_of (db_tables d) n of None \<Rightarrow> Inl Undefined_table | Some t \<Rightarrow> f t)"

definition set_table :: "string \<Rightarrow> rel \<Rightarrow> db \<Rightarrow> db" where
  "set_table n t d = d\<lparr>db_tables := put n t (db_tables d)\<rparr>"

text \<open>Other tables that refer to a table through a foreign key.\<close>

definition refers_to :: "string \<Rightarrow> constraint \<Rightarrow> bool" where
  "refers_to n c = (case c of Foreign_key m cs s rs od \<Rightarrow> s = n | _ \<Rightarrow> False)"

definition referrers :: "db \<Rightarrow> string \<Rightarrow> string list" where
  "referrers d n = map fst (filter (\<lambda>(m, t). m \<noteq> n \<and> list_ex (refers_to n) (tb_constraints t)) (db_tables d))"

text \<open>A schema argument: \<^verbatim>\<open>schema="pii"\<close>, or none, which leaves the lookup to the search path.\<close>

datatype place = Pii | Unqualified

definition visible :: "conn \<Rightarrow> place \<Rightarrow> bool" where
  "visible cn p \<longleftrightarrow> p = Pii \<or> cn_path cn"

datatype op =
    Create_table string "column list" "constraint list"
  | Drop_table string
  | Create_index place string string "index_item list" bool
  | Drop_index place string
  | Add_column place string column
  | Drop_column place string string
  | Set_nullable place string string bool
  | Rename_column place string string string
  | Drop_constraint place "string option" string
  | Create_foreign_key place "string option" string string "string list" "string list" string
  | Create_check place string string check
  | Create_function string
  | Drop_function string bool
  | Create_trigger string string string string
  | Drop_trigger string string
  | Update_rows string "row \<Rightarrow> row"

fun default_value :: "conn \<Rightarrow> sql_default option \<Rightarrow> sql_value" where
  "default_value cn None = VNull"
| "default_value cn (Some Now) = VTime (cn_now cn)"
| "default_value cn (Some (Literal v)) = v"

definition rename :: "string \<Rightarrow> string \<Rightarrow> string \<Rightarrow> string" where
  "rename a b c = (if c = a then b else c)"

fun rename_check :: "string \<Rightarrow> string \<Rightarrow> check \<Rightarrow> check" where
  "rename_check a b (One_of c vs) = One_of (rename a b c) vs"
| "rename_check a b (At_least c k) = At_least (rename a b c) k"
| "rename_check a b (At_most c k) = At_most (rename a b c) k"
| "rename_check a b (Above c k) = Above (rename a b c) k"
| "rename_check a b (Not_over c d) = Not_over (rename a b c) (rename a b d)"
| "rename_check a b (Not_null c) = Not_null (rename a b c)"
| "rename_check a b (Both e f) = Both (rename_check a b e) (rename_check a b f)"
| "rename_check a b (Any e f) = Any (rename_check a b e) (rename_check a b f)"

fun rename_con :: "string \<Rightarrow> string \<Rightarrow> constraint \<Rightarrow> constraint" where
  "rename_con a b (Primary_key cs) = Primary_key (map (rename a b) cs)"
| "rename_con a b (Check n e) = Check n (rename_check a b e)"
| "rename_con a b (Unique n cs) = Unique n (map (rename a b) cs)"
| "rename_con a b (Foreign_key n cs t rs od) = Foreign_key n (map (rename a b) cs) t rs od"

fun rename_item :: "string \<Rightarrow> string \<Rightarrow> index_item \<Rightarrow> index_item" where
  "rename_item a b (Asc c) = Asc (rename a b c)"
| "rename_item a b (Desc c) = Desc (rename a b c)"

fun rename_ref :: "string \<Rightarrow> string \<Rightarrow> string \<Rightarrow> constraint \<Rightarrow> constraint" where
  "rename_ref n a b (Foreign_key m cs t rs od) = Foreign_key m cs t (if t = n then map (rename a b) rs else rs) od"
| "rename_ref n a b c = c"

definition rename_in_table :: "string \<Rightarrow> string \<Rightarrow> rel \<Rightarrow> rel" where
  "rename_in_table a b t = t\<lparr>tb_columns := map (\<lambda>c. c\<lparr>cl_name := rename a b (cl_name c)\<rparr>) (tb_columns t),
     tb_constraints := map (rename_con a b) (tb_constraints t),
     tb_rows := map (map (\<lambda>(c, v). (rename a b c, v))) (tb_rows t)\<rparr>"

definition rename_column :: "string \<Rightarrow> string \<Rightarrow> string \<Rightarrow> db \<Rightarrow> db" where
  "rename_column n a b d = d\<lparr>
     db_tables := map (\<lambda>(m, t). (m, (if m = n then rename_in_table a b t else t)
        \<lparr>tb_constraints := map (rename_ref n a b) (tb_constraints (if m = n then rename_in_table a b t else t))\<rparr>)) (db_tables d),
     db_indexes := map (\<lambda>i. if ix_table i = n then i\<lparr>ix_items := map (rename_item a b) (ix_items i)\<rparr> else i) (db_indexes d)\<rparr>"

definition drop_column :: "string \<Rightarrow> string \<Rightarrow> rel \<Rightarrow> db \<Rightarrow> db" where
  "drop_column n c t d = set_table n
     (t\<lparr>tb_columns := filter (\<lambda>k. cl_name k \<noteq> c) (tb_columns t),
       tb_constraints := filter (\<lambda>k. c \<notin> set (con_cols k)) (tb_constraints t),
       tb_rows := map (filter (\<lambda>(k, v). k \<noteq> c)) (tb_rows t)\<rparr>)
     (d\<lparr>db_indexes := filter (\<lambda>i. \<not> (ix_table i = n \<and> c \<in> item_col ` set (ix_items i))) (db_indexes d)\<rparr>)"

definition add_constraint :: "string \<Rightarrow> constraint \<Rightarrow> db \<Rightarrow> db_error + db" where
  "add_constraint n c d = with_table d n (\<lambda>t.
     if con_name n c \<in> set (map (con_name n) (tb_constraints t)) then Inl Duplicate_object
     else if \<not> set (con_cols c) \<subseteq> set (columns_of t) then Inl Undefined_column
     else if \<not> reference_ok d c then Inl Invalid_reference
     else let t' = t\<lparr>tb_constraints := tb_constraints t @ [c]\<rparr> in
       case find (\<lambda>e. e \<noteq> None) (map (row_error (set_table n t' d) t') (tb_rows t)) of
         Some (Some e) \<Rightarrow> Inl e
       | _ \<Rightarrow> Inr (set_table n t' d))"

definition key_in_use :: "db \<Rightarrow> string \<Rightarrow> constraint \<Rightarrow> bool" where
  "key_in_use d n c =
     (case c of Primary_key cs \<Rightarrow> list_ex (\<lambda>(m, t). list_ex (\<lambda>k. case k of Foreign_key f ks s rs od \<Rightarrow> s = n \<and> rs = cs | _ \<Rightarrow> False) (tb_constraints t)) (db_tables d)
      | Unique f cs \<Rightarrow> list_ex (\<lambda>(m, t). list_ex (\<lambda>k. case k of Foreign_key g ks s rs od \<Rightarrow> s = n \<and> rs = cs | _ \<Rightarrow> False) (tb_constraints t)) (db_tables d)
      | _ \<Rightarrow> False)"

fun exec_op :: "conn \<Rightarrow> op \<Rightarrow> db \<Rightarrow> db_error + db" where
  "exec_op cn (Create_table n cols cons) d =
     (if n \<in> set (relation_names d) \<or> list_ex (\<lambda>c. con_name n c \<in> set (relation_names d)) cons then Inl Duplicate_table
      else if \<not> distinct (map cl_name cols) then Inl Duplicate_column
      else if \<not> distinct (map (con_name n) cons) then Inl Duplicate_object
      else if list_ex (\<lambda>c. \<not> set (con_cols c) \<subseteq> set (map cl_name cols)) cons then Inl Undefined_column
      else if \<not> list_all (reference_ok d) cons then Inl Invalid_reference
      else Inr (d\<lparr>db_tables := db_tables d @ [(n, \<lparr>tb_columns = cols, tb_constraints = cons, tb_rows = [], tb_next = 1\<rparr>)]\<rparr>))"
| "exec_op cn (Drop_table n) d =
     (if n \<notin> set (map fst (db_tables d)) then Inl Undefined_table
      else if referrers d n \<noteq> [] then Inl Dependent_objects
      else Inr (d\<lparr>db_tables := filter (\<lambda>(m, t). m \<noteq> n) (db_tables d), db_indexes := filter (\<lambda>i. ix_table i \<noteq> n) (db_indexes d),
              db_triggers := filter (\<lambda>g. tg_table g \<noteq> n) (db_triggers d)\<rparr>))"
| "exec_op cn (Create_index p i n items uq) d = (if \<not> visible cn p then Inl Undefined_table else with_table d n (\<lambda>t.
     if i \<in> set (relation_names d) then Inl Duplicate_table
     else if \<not> item_col ` set items \<subseteq> set (columns_of t) then Inl Undefined_column
     else if uq \<and> \<not> no_twins (map item_col items) (tb_rows t) then Inl Unique_violation
     else Inr (d\<lparr>db_indexes := db_indexes d @ [\<lparr>ix_name = i, ix_table = n, ix_items = items, ix_unique = uq\<rparr>]\<rparr>)))"
| "exec_op cn (Drop_index p i) d =
     (if \<not> visible cn p \<or> i \<notin> set (map ix_name (db_indexes d)) then Inl Undefined_object
      else Inr (d\<lparr>db_indexes := filter (\<lambda>x. ix_name x \<noteq> i) (db_indexes d)\<rparr>))"
| "exec_op cn (Add_column p n c) d =
     (if \<not> visible cn p then Inl Undefined_table else with_table d n (\<lambda>t.
        if cl_name c \<in> set (columns_of t) then Inl Duplicate_column
        else if \<not> cl_nullable c \<and> default_value cn (cl_default c) = VNull \<and> tb_rows t \<noteq> [] then Inl Not_null_violation
        else Inr (set_table n (t\<lparr>tb_columns := tb_columns t @ [c],
               tb_rows := map (\<lambda>r. r @ [(cl_name c, default_value cn (cl_default c))]) (tb_rows t)\<rparr>) d)))"
| "exec_op cn (Drop_column p n c) d =
     (if \<not> visible cn p then Inl Undefined_table else with_table d n (\<lambda>t.
        if c \<notin> set (columns_of t) then Inl Undefined_column
        else if list_ex (\<lambda>k. c \<in> set (con_cols k) \<and> key_in_use d n k) (tb_constraints t) then Inl Dependent_objects
        else Inr (drop_column n c t d)))"
| "exec_op cn (Set_nullable p n c b) d =
     (if \<not> visible cn p then Inl Undefined_table else with_table d n (\<lambda>t.
        if c \<notin> set (columns_of t) then Inl Undefined_column
        else if \<not> b \<and> list_ex (\<lambda>r. cell r c = VNull) (tb_rows t) then Inl Not_null_violation
        else Inr (set_table n (t\<lparr>tb_columns := map (\<lambda>k. if cl_name k = c then k\<lparr>cl_nullable := b\<rparr> else k) (tb_columns t)\<rparr>) d)))"
| "exec_op cn (Rename_column p n a b) d =
     (if \<not> visible cn p then Inl Undefined_table else with_table d n (\<lambda>t.
        if a \<notin> set (columns_of t) then Inl Undefined_column
        else if b \<in> set (columns_of t) then Inl Duplicate_column
        else Inr (rename_column n a b d)))"
| "exec_op cn (Drop_constraint p None n) d = Inl Unnamed_constraint"
| "exec_op cn (Drop_constraint p (Some k) n) d =
     (if \<not> visible cn p then Inl Undefined_table else with_table d n (\<lambda>t.
        if k \<notin> set (map (con_name n) (tb_constraints t)) then Inl Undefined_object
        else if list_ex (\<lambda>c. con_name n c = k \<and> key_in_use d n c) (tb_constraints t) then Inl Dependent_objects
        else Inr (set_table n (t\<lparr>tb_constraints := filter (\<lambda>c. con_name n c \<noteq> k) (tb_constraints t)\<rparr>) d)))"
| "exec_op cn (Create_foreign_key p k n s cs rs od) d =
     (if \<not> visible cn p then Inl Undefined_table
      else add_constraint n (Foreign_key (case k of None \<Rightarrow> fkey_name n cs | Some m \<Rightarrow> m) cs s rs od) d)"
| "exec_op cn (Create_check p k n e) d =
     (if \<not> visible cn p then Inl Undefined_table else add_constraint n (Check k e) d)"
| "exec_op cn (Create_function f) d = Inr (if f \<in> set (db_functions d) then d else d\<lparr>db_functions := db_functions d @ [f]\<rparr>)"
| "exec_op cn (Drop_function f cascade) d =
     (if f \<notin> set (db_functions d) then Inr d
      else if \<not> cascade \<and> list_ex (\<lambda>g. tg_function g = f) (db_triggers d) then Inl Dependent_objects
      else Inr (d\<lparr>db_functions := filter (\<lambda>g. g \<noteq> f) (db_functions d), db_triggers := filter (\<lambda>g. tg_function g \<noteq> f) (db_triggers d)\<rparr>))"
| "exec_op cn (Create_trigger g n ev f) d = with_table d n (\<lambda>t.
     if list_ex (\<lambda>x. tg_name x = g \<and> tg_table x = n) (db_triggers d) then Inl Duplicate_object
     else if f \<notin> set (db_functions d) then Inl Undefined_object
     else Inr (d\<lparr>db_triggers := db_triggers d @ [\<lparr>tg_name = g, tg_table = n, tg_events = ev, tg_function = f\<rparr>]\<rparr>))"
| "exec_op cn (Drop_trigger g n) d = Inr (d\<lparr>db_triggers := filter (\<lambda>x. \<not> (tg_name x = g \<and> tg_table x = n)) (db_triggers d)\<rparr>)"
| "exec_op cn (Update_rows n f) d = with_table d n (\<lambda>t.
     let t' = t\<lparr>tb_rows := map f (tb_rows t)\<rparr> in
     case find (\<lambda>e. e \<noteq> None) (map (row_error d t') (tb_rows t')) of
       Some (Some e) \<Rightarrow> Inl e
     | _ \<Rightarrow> if list_all (\<lambda>cs. no_twins cs (tb_rows t')) (unique_rules d n t') then Inr (set_table n t' d) else Inl Unique_violation)"

fun run_ops :: "conn \<Rightarrow> op list \<Rightarrow> db \<Rightarrow> db_error + db" where
  "run_ops cn [] d = Inr d"
| "run_ops cn (x # xs) d = (case exec_op cn x d of Inl e \<Rightarrow> Inl e | Inr d' \<Rightarrow> run_ops cn xs d')"

section \<open>Data statements\<close>

text \<open>
  \<^verbatim>\<open>INSERT\<close>: omitted columns get their default, a serial column the next value.  The result is the
  stored row; a row that clashes with a uniqueness rule is the error of the statement.
\<close>

definition complete_row :: "conn \<Rightarrow> rel \<Rightarrow> row \<Rightarrow> row" where
  "complete_row cn t r = map (\<lambda>c. (cl_name c,
     case map_of r (cl_name c) of Some v \<Rightarrow> v
     | None \<Rightarrow> if cl_auto c then VInt (tb_next t) else default_value cn (cl_default c))) (tb_columns t)"

definition clashes :: "string list \<Rightarrow> rel \<Rightarrow> row \<Rightarrow> bool" where
  "clashes cs t r \<longleftrightarrow> list_ex (same_key cs r) (tb_rows t)"

definition insert_into :: "conn \<Rightarrow> string \<Rightarrow> row \<Rightarrow> db \<Rightarrow> db_error + row \<times> db" where
  "insert_into cn n r d =
     (case map_of (db_tables d) n of
        None \<Rightarrow> Inl Undefined_table
      | Some t \<Rightarrow>
          if \<not> fst ` set r \<subseteq> set (columns_of t) then Inl Undefined_column
          else let q = complete_row cn t r in
            case row_error d t q of
              Some e \<Rightarrow> Inl e
            | None \<Rightarrow>
                if list_ex (\<lambda>cs. clashes cs t q) (unique_rules d n t) then Inl Unique_violation
                else Inr (q, set_table n (t\<lparr>tb_rows := tb_rows t @ [q], tb_next := tb_next t + 1\<rparr>) d))"

text \<open>\<^verbatim>\<open>INSERT ... ON CONFLICT (cs) DO NOTHING RETURNING\<close>: no row when the named key is taken.\<close>

definition insert_or_skip :: "conn \<Rightarrow> string \<Rightarrow> string list \<Rightarrow> row \<Rightarrow> db \<Rightarrow> db_error + row option \<times> db" where
  "insert_or_skip cn n cs r d =
     (case map_of (db_tables d) n of
        None \<Rightarrow> Inl Undefined_table
      | Some t \<Rightarrow>
          if fst ` set r \<subseteq> set (columns_of t) \<and> row_error d t (complete_row cn t r) = None \<and> clashes cs t (complete_row cn t r)
          then Inr (None, set_table n (t\<lparr>tb_next := tb_next t + 1\<rparr>) d)
          else map_sum id (\<lambda>(q, d'). (Some q, d')) (insert_into cn n r d))"

text \<open>\<^verbatim>\<open>DELETE\<close> with the \<^verbatim>\<open>ON DELETE SET NULL\<close> and \<^verbatim>\<open>CASCADE\<close> rules of the tables that refer to the rows.\<close>

definition points_at :: "row \<Rightarrow> string list \<Rightarrow> string list \<Rightarrow> row list \<Rightarrow> bool" where
  "points_at r cs rs gone \<longleftrightarrow>
     list_ex (\<lambda>q. list_all (\<lambda>(x, y). cell r x \<noteq> VNull \<and> cell r x = cell q y) (zip cs rs)) gone"

definition clear_cells :: "string list \<Rightarrow> row \<Rightarrow> row" where
  "clear_cells cs r = map (\<lambda>(c, v). (c, if c \<in> set cs then VNull else v)) r"

fun apply_set_null :: "string \<Rightarrow> row list \<Rightarrow> constraint \<Rightarrow> row \<Rightarrow> row" where
  "apply_set_null n gone (Foreign_key f cs s rs od) r =
     (if s = n \<and> od = ''SET NULL'' \<and> points_at r cs rs gone then clear_cells cs r else r)"
| "apply_set_null n gone c r = r"

fun cascades :: "string \<Rightarrow> row list \<Rightarrow> row \<Rightarrow> constraint \<Rightarrow> bool" where
  "cascades n gone r (Foreign_key f cs s rs od) \<longleftrightarrow> s = n \<and> od = ''CASCADE'' \<and> points_at r cs rs gone"
| "cascades n gone r c \<longleftrightarrow> False"

text \<open>Rows that leave a table take dependent rows along, at most once round the tables.\<close>

fun remove_rows :: "nat \<Rightarrow> string \<Rightarrow> (row \<Rightarrow> bool) \<Rightarrow> db \<Rightarrow> db" where
  "remove_rows 0 n p d = d"
| "remove_rows (Suc k) n p d =
     (case map_of (db_tables d) n of
        None \<Rightarrow> d
      | Some t \<Rightarrow>
          let gone = filter p (tb_rows t);
              d1 = set_table n (t\<lparr>tb_rows := filter (\<lambda>r. \<not> p r) (tb_rows t)\<rparr>) d;
              d2 = d1\<lparr>db_tables := map (\<lambda>(m, s). (m, s\<lparr>tb_rows := map (\<lambda>r. fold (apply_set_null n gone) (tb_constraints s) r) (tb_rows s)\<rparr>)) (db_tables d1)\<rparr>
          in fold (\<lambda>m. remove_rows k m (\<lambda>r. case map_of (db_tables d2) m of None \<Rightarrow> False
                 | Some s \<Rightarrow> gone \<noteq> [] \<and> list_ex (cascades n gone r) (tb_constraints s))) (referrers d2 n) d2)"

definition delete_from :: "string \<Rightarrow> (row \<Rightarrow> bool) \<Rightarrow> db \<Rightarrow> db_error + db" where
  "delete_from n p d =
     (if n \<notin> set (map fst (db_tables d)) then Inl Undefined_table
      else Inr (remove_rows (length (db_tables d)) n p d))"

end
