(* ===== verification/Migrations.thy ===== *)
theory Migrations
  imports Schema Blocklist
begin

text \<open>
  The eighteen revisions under \<^verbatim>\<open>app/db/migrations/versions\<close>, in the order of their
  \<^verbatim>\<open>down_revision\<close> links, the ORM classes of \<^verbatim>\<open>app/db/models.py\<close> as the schema they expect, and the
  Alembic run of \<^verbatim>\<open>env.py\<close> (one transaction for all steps).  Shown: on a connection whose search path
  reaches the schema, an empty database is brought to exactly the tables of the models, with the
  default deny list in force; without it nothing is changed; and a database cannot be taken back
  below the masked artifacts.
\<close>

section \<open>Pattern rows\<close>

definition set_cell :: "string \<Rightarrow> sql_value \<Rightarrow> row \<Rightarrow> row" where
  "set_cell c v r = map (\<lambda>(k, x). (k, if k = c then v else x)) r"

text \<open>The statements of phase 7a and of its downgrade that carry the old flag over.\<close>

definition mode_of_enabled :: "row \<Rightarrow> row" where
  "mode_of_enabled r = set_cell ''mode'' (VText (u (if cell r ''enabled'' = VBool True then ''enabled'' else ''disabled''))) r"

definition enabled_of_mode :: "row \<Rightarrow> row" where
  "enabled_of_mode r = set_cell ''enabled'' (VBool (cell r ''mode'' = VText (u ''enabled''))) r"

record seed =
  sd_entity_type :: string
  sd_pattern_name :: string
  sd_regex :: ustr
  sd_score :: "int \<times> nat"
  sd_context_words :: "ustr list"

definition seed :: "string \<Rightarrow> string \<Rightarrow> ustr \<Rightarrow> int \<Rightarrow> nat \<Rightarrow> ustr list \<Rightarrow> seed" where
  "seed e n r m k ws = \<lparr>sd_entity_type = e, sd_pattern_name = n, sd_regex = r, sd_score = (m, k), sd_context_words = ws\<rparr>"

text \<open>Source text of a regular expression, with the backquote for the backslash.\<close>

definition rx_text :: "string \<Rightarrow> ustr" where
  "rx_text s = map (\<lambda>c. if c = 96 then 92 else c) (u s)"

section \<open>Phase 2\<close>

text \<open>Phase 2: deny list, patterns and their history (\<^verbatim>\<open>56924e17cf24\<close>).\<close>

definition upgrade_56924e17cf24 :: "op list" where
  "upgrade_56924e17cf24 =
    [Create_table ''pii_deny_list''
       [serial ''id'' Integer,
        col ''entity_type'' (String 64),
        col ''value'' Text,
        col ''score'' Float,
        nullable ''note'' Text,
        col ''created_by'' (String 64),
        with_default ''created_at'' DateTime Now]
       [Check ''ck_pii_deny_list_score'' (Both (At_least ''score'' 0) (At_most ''score'' 1)),
        Primary_key [''id''],
        Unique ''uq_pii_deny_list_entity_value'' [''entity_type'', ''value'']],
     Create_index Pii ''ix_pii_pii_deny_list_entity_type'' ''pii_deny_list'' [Asc ''entity_type''] False,
     Create_table ''pii_patterns''
       [serial ''id'' Integer,
        col ''entity_type'' (String 64),
        col ''pattern_name'' (String 128),
        col ''regex'' Text,
        col ''score'' Float,
        col ''context_words'' (ARRAY Text),
        col ''strictness'' (String 8),
        col ''enabled'' Boolean,
        col ''version'' Integer,
        col ''created_by'' (String 64),
        with_default ''created_at'' DateTime Now,
        with_default ''updated_at'' DateTime Now]
       [Check ''ck_pii_patterns_strictness'' (One_of ''strictness'' [''low'', ''medium'', ''high'']),
        Check ''ck_pii_patterns_score'' (Both (At_least ''score'' 0) (At_most ''score'' 1)),
        Primary_key [''id''],
        Unique ''uq_pii_patterns_entity_name'' [''entity_type'', ''pattern_name'']],
     Create_index Pii ''ix_pii_pii_patterns_entity_type'' ''pii_patterns'' [Asc ''entity_type''] False,
     Create_table ''pii_pattern_history''
       [serial ''id'' Integer,
        col ''pattern_id'' Integer,
        col ''action'' (String 16),
        col ''snapshot'' Text,
        col ''changed_by'' (String 64),
        with_default ''changed_at'' DateTime Now]
       [Check ''ck_pii_pattern_history_action'' (One_of ''action'' [''INSERT'', ''UPDATE'', ''DELETE'']),
        Foreign_key (fkey_name ''pii_pattern_history'' [''pattern_id'']) [''pattern_id''] ''pii_patterns'' [''id''] ''CASCADE'',
        Primary_key [''id'']],
     Create_index Pii ''ix_pii_pii_pattern_history_pattern_id'' ''pii_pattern_history'' [Asc ''pattern_id''] False]"

definition downgrade_56924e17cf24 :: "op list" where
  "downgrade_56924e17cf24 =
    [Drop_index Pii ''ix_pii_pii_pattern_history_pattern_id'',
     Drop_table ''pii_pattern_history'',
     Drop_index Pii ''ix_pii_pii_patterns_entity_type'',
     Drop_table ''pii_patterns'',
     Drop_index Pii ''ix_pii_pii_deny_list_entity_type'',
     Drop_table ''pii_deny_list'']"

text \<open>Phase 2b: history outlives its pattern (\<^verbatim>\<open>281a3d0a1495\<close>).\<close>

definition upgrade_281a3d0a1495 :: "op list" where
  "upgrade_281a3d0a1495 =
    [Set_nullable Unqualified ''pii_pattern_history'' ''pattern_id'' True,
     Drop_constraint Unqualified (Some ''pii_pattern_history_pattern_id_fkey'') ''pii_pattern_history'',
     Create_foreign_key Pii None ''pii_pattern_history'' ''pii_patterns'' [''pattern_id''] [''id''] ''SET NULL'']"

definition downgrade_281a3d0a1495 :: "op list" where
  "downgrade_281a3d0a1495 =
    [Drop_constraint Pii None ''pii_pattern_history'',
     Create_foreign_key Unqualified (Some ''pii_pattern_history_pattern_id_fkey'') ''pii_pattern_history'' ''pii_patterns'' [''pattern_id''] [''id''] ''CASCADE'',
     Set_nullable Unqualified ''pii_pattern_history'' ''pattern_id'' False]"

text \<open>Phase 2b: the original pattern id (\<^verbatim>\<open>3d16cb2b60e7\<close>).\<close>

definition upgrade_3d16cb2b60e7 :: "op list" where
  "upgrade_3d16cb2b60e7 =
    [Add_column Unqualified ''pii_pattern_history'' (col ''original_pattern_id'' Integer),
     Drop_index Unqualified ''ix_pii_pii_pattern_history_pattern_id'',
     Create_index Pii ''ix_pii_pii_pattern_history_original_pattern_id'' ''pii_pattern_history'' [Asc ''original_pattern_id''] False,
     Drop_constraint Unqualified (Some ''pii_pattern_history_pattern_id_fkey'') ''pii_pattern_history'',
     Create_foreign_key Pii None ''pii_pattern_history'' ''pii_patterns'' [''pattern_id''] [''id''] ''SET NULL'']"

definition downgrade_3d16cb2b60e7 :: "op list" where
  "downgrade_3d16cb2b60e7 =
    [Drop_constraint Pii None ''pii_pattern_history'',
     Create_foreign_key Unqualified (Some ''pii_pattern_history_pattern_id_fkey'') ''pii_pattern_history'' ''pii_patterns'' [''pattern_id''] [''id''] ''SET NULL'',
     Drop_index Pii ''ix_pii_pii_pattern_history_original_pattern_id'',
     Create_index Unqualified ''ix_pii_pii_pattern_history_pattern_id'' ''pii_pattern_history'' [Asc ''pattern_id''] False,
     Drop_column Unqualified ''pii_pattern_history'' ''original_pattern_id'']"

text \<open>Phase 2c: default patterns (\<^verbatim>\<open>4a7f8b1c0d92\<close>).\<close>

definition SEED_PATTERNS_1 :: "seed list" where
  "SEED_PATTERNS_1 =
    [seed ''KR_PHONE_LAND'' ''land_seoul_hyphen'' (rx_text ''(?<!`d)02-`d{3,4}-`d{4}(?!`d)'') 85 2
      [[51204, 54868], u ''tel'', [50976, 49440]],
     seed ''KR_PHONE_LAND'' ''land_regional_hyphen'' (rx_text ''(?<!`d)0(3[1-3]|4[1-4]|5[1-5]|6[1-4])-`d{3,4}-`d{4}(?!`d)'') 85 2
      [[51204, 54868], u ''tel''],
     seed ''KR_PHONE_LAND'' ''land_intl'' (rx_text ''`+82[-`s]?(2|3[1-3]|4[1-4]|5[1-5]|6[1-4])[-`s]?`d{3,4}[-`s]?`d{4}'') 85 2
      [[51204, 54868], u ''tel''],
     seed ''KR_PHONE_INET'' ''phone_070'' (rx_text ''(?<!`d)070-`d{3,4}-`d{4}(?!`d)'') 8 1
      [[51064, 53552, 45367], [51204, 54868]],
     seed ''KR_PHONE_INET'' ''phone_050'' (rx_text ''(?<!`d)050`d-`d{3,4}-`d{4}(?!`d)'') 75 2
      [[50504, 49900, 48264, 54840], u ''050''],
     seed ''KR_FAX'' ''fax_hyphen'' (rx_text ''(?<!`d)0`d{1,2}-`d{3,4}-`d{4}(?!`d)'') 4 1
      [[54057, 49828], u ''fax'', (u ''fax'' @ [48264, 54840])],
     seed ''KR_BANK_ACCOUNT'' ''krbank_3_6_3'' (rx_text ''(?<!`d)`d{3}-`d{6}-`d{3}(?!`d)'') 85 2
      [[44228, 51340], [51077, 44552], [49569, 44552]],
     seed ''KR_BANK_ACCOUNT'' ''krbank_4_2_7'' (rx_text ''(?<!`d)`d{4}-`d{2}-`d{7}(?!`d)'') 85 2
      [[44228, 51340], [50864, 52404, 44397], u ''post''],
     seed ''KR_BANK_ACCOUNT'' ''krbank_6_2_2_3'' (rx_text ''(?<!`d)`d{6}-`d{2}-`d{2}-`d{3}(?!`d)'') 8 1
      [[44228, 51340], [45453, 54801]],
     seed ''KR_VIRTUAL_ACCOUNT'' ''krvacc_16'' (rx_text ''(?<!`d)`d{16}(?!`d)'') 5 1
      [[44032, 49345, 44228, 51340], u ''virtual''],
     seed ''KR_FOREIGN_REG'' ''foreign_rrn'' (rx_text ''(?<!`d)`d{6}-[5-8]`d{6}(?!`d)'') 8 1
      [[50808, 44397, 51064], u ''alien'', u ''registration''],
     seed ''KR_HEALTH_INS'' ''health_ins_11'' (rx_text ''(?<!`d)`d-`d{10}(?!`d)'') 7 1
      [[44148, 44053, 48372, 54744], [48372, 54744, 51613], [44148, 44053]],
     seed ''KR_CORP_REG'' ''corp_reg_13'' (rx_text ''(?<!`d)`d{6}-`d{7}(?!`d)'') 6 1
      [[48277, 51064, 46321, 47197], [48277, 51064], u ''corporate''],
     seed ''KR_VEHICLE_PLATE'' ''plate_old'' (u ''(?<!['' @ [44032] @ u ''-'' @ [55203] @ rx_text ''`d])`d{2}['' @ [44032] @ u ''-'' @ [55203] @ rx_text '']`d{4}(?!['' @ [44032] @ u ''-'' @ [55203] @ rx_text ''`d])'') 8 1
      [[52264, 47049], [48264, 54840, 54032], [51088, 46041, 52264]],
     seed ''KR_VEHICLE_PLATE'' ''plate_new'' (u ''(?<!['' @ [44032] @ u ''-'' @ [55203] @ rx_text ''`d])`d{3}['' @ [44032] @ u ''-'' @ [55203] @ rx_text '']`d{4}(?!['' @ [44032] @ u ''-'' @ [55203] @ rx_text ''`d])'') 8 1
      [[52264, 47049], [48264, 54840, 54032], [51088, 46041, 52264]]]"

definition SEED_PATTERNS_2 :: "seed list" where
  "SEED_PATTERNS_2 =
    [seed ''KR_ZIPCODE'' ''zip_5'' (rx_text ''(?<!`d)`d{5}(?!`d)'') 3 1
      [[50864, 54200, 48264, 54840], u ''zip'', [51452, 49548]],
     seed ''KR_ZIPCODE'' ''zip_legacy'' (rx_text ''(?<!`d)`d{3}-`d{3}(?!`d)'') 4 1
      [[50864, 54200, 48264, 54840], u ''zip''],
     seed ''KR_CARD_VALIDITY'' ''card_validity'' (rx_text ''(?<!`d)(0[1-9]|1[0-2])/(`d{2})(?!`d)'') 4 1
      [[50976, 54952, 44592, 44036], u ''valid'', u ''expiry''],
     seed ''KR_CARD_CVC'' ''card_cvc'' (rx_text ''(?<!`d)`d{3,4}(?!`d)'') 2 1
      [u ''cvc'', u ''cvv'', [48372, 50504, 53076, 46300]],
     seed ''DATE_OF_BIRTH'' ''dob_dash'' (rx_text ''(?<!`d)(19|20)`d{2}-(0[1-9]|1[0-2])-(0[1-9]|[12]`d|3[01])(?!`d)'') 5 1
      [[49373, 45380, 50900, 51068], [49373, 51068], u ''DOB'', [52636, 49373]],
     seed ''DATE_OF_BIRTH'' ''dob_dot'' (rx_text ''(?<!`d)(19|20)`d{2}`.(0[1-9]|1[0-2])`.(0[1-9]|[12]`d|3[01])(?!`d)'') 5 1
      [[49373, 45380, 50900, 51068], [49373, 51068], u ''DOB'', [52636, 49373]],
     seed ''DATE_OF_BIRTH'' ''dob_compact'' (rx_text ''(?<!`d)(19|20)`d{2}(0[1-9]|1[0-2])(0[1-9]|[12]`d|3[01])(?!`d)'') 4 1
      [[49373, 45380, 50900, 51068], [49373, 51068]],
     seed ''IP_ADDRESS'' ''ipv4'' (rx_text ''(?<!`d)(?:(?:25[0-5]|2[0-4]`d|1`d{2}|[1-9]?`d)`.){3}(?:25[0-5]|2[0-4]`d|1`d{2}|[1-9]?`d)(?!`d)'') 85 2
      [u ''ip'', [51452, 49548]],
     seed ''IP_ADDRESS'' ''ipv6_simple'' (u ''(?<![A-Fa-f0-9:])(?:[A-Fa-f0-9]{1,4}:){7}[A-Fa-f0-9]{1,4}(?![A-Fa-f0-9:])'') 85 2
      [u ''ipv6''],
     seed ''MAC_ADDRESS'' ''mac_colon'' (u ''(?<![A-Fa-f0-9:])(?:[A-Fa-f0-9]{2}:){5}[A-Fa-f0-9]{2}(?![A-Fa-f0-9:])'') 85 2
      [u ''mac'', [47589, 51452, 49548], (u ''mac'' @ [51452, 49548])],
     seed ''URL'' ''url_http'' (rx_text ''https?://[A-Za-z0-9._~:/?#`[`]@!$&'' @ [39] @ u ''()*+,;=%-]+'') 7 1
      [u ''url'', [51452, 49548], [47553, 53356]],
     seed ''EMAIL_ADDRESS'' ''email_kr_domain'' (rx_text ''[A-Za-z0-9._%+-]+@[A-Za-z0-9.-]+`.kr`b'') 9 1
      [[51060, 47700, 51068], [47700, 51068], u ''email''],
     seed ''KR_PASSPORT'' ''krpass_legacy_3letter'' (rx_text ''(?<![A-Za-z0-9])[A-Z]{3}`d{6}(?![A-Za-z0-9])'') 5 1
      [[50668, 44428], u ''passport''],
     seed ''KR_DRIVERLICENSE'' ''krdl_plain'' (rx_text ''(?<!`d)`d{12}(?!`d)'') 4 1
      [[50868, 51204, 47732, 54728], [47732, 54728]],
     seed ''KR_NAME_HINT'' ''korean_name_3char'' (u ''(?<!['' @ [44032] @ u ''-'' @ [55203] @ u ''])['' @ [44032] @ u ''-'' @ [55203] @ u '']{2,4}(?!['' @ [44032] @ u ''-'' @ [55203] @ u ''])'') 15 2
      [[51060, 47492], [49457, 47749], u ''name'', [44256, 44061, 47749]],
     seed ''KR_EMPLOYEE_ID'' ''emp_id_alpha_digits'' (rx_text ''(?<![A-Z0-9])[A-Z]{1,3}`d{4,6}(?![A-Z0-9])'') 4 1
      [[49324, 48264], u ''employee'', [51649, 50896, 48264, 54840]],
     seed ''KR_ACCOUNT_TOKEN'' ''account_uuidish'' (u ''(?<![A-Fa-f0-9-])[A-Fa-f0-9]{8}-[A-Fa-f0-9]{4}-[A-Fa-f0-9]{4}-[A-Fa-f0-9]{4}-[A-Fa-f0-9]{12}(?![A-Fa-f0-9-])'') 5 1
      [[53664, 53360], u ''token'', u ''uuid'']]"

definition SEED_PATTERNS :: "seed list" where
  "SEED_PATTERNS = SEED_PATTERNS_1 @ SEED_PATTERNS_2"

definition seed_row :: "seed \<Rightarrow> row" where
  "seed_row p =
     [(''entity_type'', VText (u (sd_entity_type p))), (''pattern_name'', VText (u (sd_pattern_name p))),
      (''regex'', VText (sd_regex p)), (''score'', VDec (fst (sd_score p)) (snd (sd_score p))),
      (''context_words'', VTexts (sd_context_words p)), (''strictness'', VText (u ''medium'')),
      (''enabled'', VBool True), (''version'', VInt 1), (''created_by'', VText (u ''system:seed''))]"

fun json_cell :: "sql_value \<Rightarrow> json" where
  "json_cell VNull = JNull"
| "json_cell (VInt i) = JInt i"
| "json_cell (VDec m k) = JDec m k"
| "json_cell (VText t) = JStr t"
| "json_cell (VBool b) = JBool b"
| "json_cell (VTexts ts) = JArr (map JStr ts)"
| "json_cell (VTime i) = JInt i"

text \<open>The snapshot of a pattern row, its keys in alphabetical order.\<close>

definition SNAPSHOT_KEYS :: "string list" where
  "SNAPSHOT_KEYS = [''context_words'', ''enabled'', ''entity_type'', ''id'', ''pattern_name'', ''regex'', ''score'', ''strictness'', ''version'']"

definition snapshot :: "row \<Rightarrow> ustr" where
  "snapshot r = dumps None 0 (JObj (map (\<lambda>k. (u k, json_cell (cell r k))) SNAPSHOT_KEYS))"

definition history_row :: "row \<Rightarrow> string \<Rightarrow> string \<Rightarrow> row" where
  "history_row r action by =
     [(''pattern_id'', cell r ''id''), (''original_pattern_id'', cell r ''id''), (''action'', VText (u action)),
      (''snapshot'', VText (snapshot r)), (''changed_by'', VText (u by))]"

fun insert_seeds :: "conn \<Rightarrow> seed list \<Rightarrow> db \<Rightarrow> db_error + db" where
  "insert_seeds cn [] d = Inr d"
| "insert_seeds cn (p # ps) d =
     (case insert_or_skip cn ''pii_patterns'' [''entity_type'', ''pattern_name''] (seed_row p) d of
        Inl e \<Rightarrow> Inl e
      | Inr (None, d') \<Rightarrow> insert_seeds cn ps d'
      | Inr (Some r, d') \<Rightarrow>
          (case insert_into cn ''pii_pattern_history'' (history_row r ''INSERT'' ''system:seed'') d' of
             Inl e \<Rightarrow> Inl e
           | Inr (_, d'') \<Rightarrow> insert_seeds cn ps d''))"

definition upgrade_4a7f8b1c0d92 :: "conn \<Rightarrow> db \<Rightarrow> db_error + db" where
  "upgrade_4a7f8b1c0d92 cn d = insert_seeds cn SEED_PATTERNS d"

definition downgrade_4a7f8b1c0d92 :: "conn \<Rightarrow> db \<Rightarrow> db_error + db" where
  "downgrade_4a7f8b1c0d92 cn d =
     (case delete_from ''pii_pattern_history'' (\<lambda>r. cell r ''changed_by'' = VText (u ''system:seed'')) d of
        Inl e \<Rightarrow> Inl e
      | Inr d' \<Rightarrow> delete_from ''pii_patterns'' (\<lambda>r. cell r ''created_by'' = VText (u ''system:seed'')) d')"

text \<open>Phase 2d: notification of changes (\<^verbatim>\<open>5b0c2e3f4a01\<close>).\<close>

definition upgrade_5b0c2e3f4a01 :: "op list" where
  "upgrade_5b0c2e3f4a01 =
    [Create_function ''pii_notify_pattern_change'',
     Drop_trigger ''pii_patterns_notify'' ''pii_patterns'',
     Create_trigger ''pii_patterns_notify'' ''pii_patterns'' ''AFTER INSERT OR UPDATE OR DELETE'' ''pii_notify_pattern_change'',
     Drop_trigger ''pii_deny_list_notify'' ''pii_deny_list'',
     Create_trigger ''pii_deny_list_notify'' ''pii_deny_list'' ''AFTER INSERT OR UPDATE OR DELETE'' ''pii_notify_pattern_change'']"

definition downgrade_5b0c2e3f4a01 :: "op list" where
  "downgrade_5b0c2e3f4a01 =
    [Drop_trigger ''pii_patterns_notify'' ''pii_patterns'',
     Drop_trigger ''pii_deny_list_notify'' ''pii_deny_list'',
     Drop_function ''pii_notify_pattern_change'' False]"

text \<open>Phase 2g: weak patterns are switched off (\<^verbatim>\<open>6c1d3f4a5b02\<close>).\<close>

definition below_half :: "sql_value \<Rightarrow> bool" where
  "below_half v \<longleftrightarrow> compare_with (\<lambda>x. x < 1 / 2) v = Some True"

definition weak_seed :: "bool \<Rightarrow> row \<Rightarrow> bool" where
  "weak_seed on r \<longleftrightarrow> cell r ''created_by'' = VText (u ''system:seed'') \<and> below_half (cell r ''score'') \<and> cell r ''enabled'' = VBool on"

definition next_version :: "sql_value \<Rightarrow> sql_value" where
  "next_version v = (case v of VInt i \<Rightarrow> VInt (i + 1) | _ \<Rightarrow> VNull)"

definition disabled_row :: "row \<Rightarrow> row" where
  "disabled_row r = set_cell ''enabled'' (VBool False) (set_cell ''version'' (next_version (cell r ''version'')) r)"

fun disable_rows :: "conn \<Rightarrow> row list \<Rightarrow> db \<Rightarrow> db_error + db" where
  "disable_rows cn [] d = Inr d"
| "disable_rows cn (r # rs) d =
     (case exec_op cn (Update_rows ''pii_patterns'' (\<lambda>q. if cell q ''id'' = cell r ''id''
          then set_cell ''enabled'' (VBool False) (set_cell ''version'' (next_version (cell r ''version'')) q) else q)) d of
        Inl e \<Rightarrow> Inl e
      | Inr d' \<Rightarrow>
          (case insert_into cn ''pii_pattern_history'' (history_row (disabled_row r) ''UPDATE'' ''system:seed-q4'') d' of
             Inl e \<Rightarrow> Inl e
           | Inr (_, d'') \<Rightarrow> disable_rows cn rs d''))"

definition upgrade_6c1d3f4a5b02 :: "conn \<Rightarrow> db \<Rightarrow> db_error + db" where
  "upgrade_6c1d3f4a5b02 cn d =
     (case map_of (db_tables d) ''pii_patterns'' of
        None \<Rightarrow> Inl Undefined_table
      | Some t \<Rightarrow> disable_rows cn (filter (weak_seed True) (tb_rows t)) d)"

definition downgrade_6c1d3f4a5b02 :: "op list" where
  "downgrade_6c1d3f4a5b02 =
    [Update_rows ''pii_patterns'' (\<lambda>r. if weak_seed False r
       then set_cell ''enabled'' (VBool True) (set_cell ''version'' (next_version (cell r ''version'')) r) else r)]"

section \<open>Phases 3 to 7\<close>

text \<open>Phase 3a: API keys and nonces (\<^verbatim>\<open>ff6df8c4d0ad\<close>).\<close>

definition upgrade_ff6df8c4d0ad :: "op list" where
  "upgrade_ff6df8c4d0ad =
    [Create_table ''api_key_nonces''
       [col ''key_id'' (String 64),
        col ''nonce'' (String 64),
        with_default ''used_at'' DateTime Now]
       [Primary_key [''key_id'', ''nonce'']],
     Create_index Pii ''ix_pii_api_key_nonces_used_at'' ''api_key_nonces'' [Asc ''used_at''] False,
     Create_table ''api_keys''
       [serial ''id'' Integer,
        col ''key_id'' (String 64),
        col ''secret_hash'' (String 128),
        col ''name'' (String 128),
        nullable ''ip_allowlist'' (ARRAY Text),
        col ''rate_per_minute'' Integer,
        col ''rate_per_hour'' Integer,
        col ''enabled'' Boolean,
        col ''created_by'' (String 64),
        with_default ''created_at'' DateTime Now,
        nullable ''revoked_at'' DateTime]
       [Check ''ck_api_keys_rate_positive'' (Both (Above ''rate_per_minute'' 0) (Above ''rate_per_hour'' 0)),
        Primary_key [''id'']],
     Create_index Pii ''ix_pii_api_keys_key_id'' ''api_keys'' [Asc ''key_id''] True]"

definition downgrade_ff6df8c4d0ad :: "op list" where
  "downgrade_ff6df8c4d0ad =
    [Drop_index Pii ''ix_pii_api_keys_key_id'',
     Drop_table ''api_keys'',
     Drop_index Pii ''ix_pii_api_key_nonces_used_at'',
     Drop_table ''api_key_nonces'']"

text \<open>Phase 3d: the secret in plain text (\<^verbatim>\<open>7d2e9a8b3c14\<close>).\<close>

definition upgrade_7d2e9a8b3c14 :: "op list" where
  "upgrade_7d2e9a8b3c14 =
    [Rename_column Pii ''api_keys'' ''secret_hash'' ''secret'']"

definition downgrade_7d2e9a8b3c14 :: "op list" where
  "downgrade_7d2e9a8b3c14 =
    [Rename_column Pii ''api_keys'' ''secret'' ''secret_hash'']"

text \<open>Phase 4a: extraction jobs (\<^verbatim>\<open>2401f4a8d84b\<close>).\<close>

definition upgrade_2401f4a8d84b :: "op list" where
  "upgrade_2401f4a8d84b =
    [Create_table ''extraction_jobs''
       [col ''job_id'' (String 64),
        col ''request_id'' (String 64),
        nullable ''callback_url'' Text,
        col ''status'' (String 16),
        nullable ''body_code'' (String 16),
        nullable ''body_verdict'' (String 16),
        nullable ''attachments_json'' Text,
        nullable ''error'' Text,
        with_default ''created_at'' DateTime Now,
        nullable ''completed_at'' DateTime,
        col ''webhook_attempts'' Integer,
        nullable ''webhook_delivered_at'' DateTime]
       [Check ''ck_extraction_jobs_status'' (One_of ''status'' [''PENDING'', ''PROCESSING'', ''COMPLETED'', ''FAILED'']),
        Primary_key [''job_id'']],
     Create_index Pii ''ix_pii_extraction_jobs_request_id'' ''extraction_jobs'' [Asc ''request_id''] False,
     Create_index Pii ''ix_pii_extraction_jobs_status'' ''extraction_jobs'' [Asc ''status''] False,
     Drop_constraint Unqualified (Some ''pii_pattern_history_pattern_id_fkey'') ''pii_pattern_history'',
     Create_foreign_key Pii None ''pii_pattern_history'' ''pii_patterns'' [''pattern_id''] [''id''] ''SET NULL'']"

definition downgrade_2401f4a8d84b :: "op list" where
  "downgrade_2401f4a8d84b =
    [Drop_constraint Pii None ''pii_pattern_history'',
     Create_foreign_key Unqualified (Some ''pii_pattern_history_pattern_id_fkey'') ''pii_pattern_history'' ''pii_patterns'' [''pattern_id''] [''id''] ''SET NULL'',
     Drop_index Pii ''ix_pii_extraction_jobs_status'',
     Drop_index Pii ''ix_pii_extraction_jobs_request_id'',
     Drop_table ''extraction_jobs'']"

text \<open>Phase 5a: masked artifacts (\<^verbatim>\<open>5a885a8844a1\<close>).\<close>

definition upgrade_5a885a8844a1 :: "op list" where
  "upgrade_5a885a8844a1 =
    [Create_table ''masked_artifacts''
       [serial ''id'' Integer,
        col ''token'' (String 64),
        col ''job_id'' (String 64),
        col ''attachment_id'' (String 64),
        col ''file_path'' Text,
        col ''sha256'' (String 64),
        col ''mime_type'' (String 100),
        with_default ''created_at'' DateTime Now,
        col ''expires_at'' DateTime]
       [Foreign_key (fkey_name ''masked_artifacts'' [''job_id'']) [''job_id''] ''extraction_jobs'' [''job_id''] ''CASCADE'',
        Primary_key [''id'']],
     Create_index Pii ''ix_pii_masked_artifacts_expires_at'' ''masked_artifacts'' [Asc ''expires_at''] False,
     Create_index Pii ''ix_pii_masked_artifacts_job_id'' ''masked_artifacts'' [Asc ''job_id''] False,
     Create_index Pii ''ix_pii_masked_artifacts_token'' ''masked_artifacts'' [Asc ''token''] True,
     Drop_constraint Unqualified (Some ''pii_pattern_history_pattern_id_fkey'') ''pii_pattern_history'',
     Create_foreign_key Pii None ''pii_pattern_history'' ''pii_patterns'' [''pattern_id''] [''id''] ''SET NULL'']"

definition downgrade_5a885a8844a1 :: "op list" where
  "downgrade_5a885a8844a1 =
    [Drop_constraint Pii None ''pii_pattern_history'',
     Create_foreign_key Unqualified (Some ''pii_pattern_history_pattern_id_fkey'') ''pii_pattern_history'' ''pii_patterns'' [''pattern_id''] [''id''] ''SET NULL'',
     Drop_index Pii ''ix_pii_masked_artifacts_token'',
     Drop_index Pii ''ix_pii_masked_artifacts_job_id'',
     Drop_index Pii ''ix_pii_masked_artifacts_expires_at'',
     Drop_table ''masked_artifacts'']"

text \<open>Phase 6a: audit events (\<^verbatim>\<open>8e1f5d2a9c30\<close>).\<close>

definition upgrade_8e1f5d2a9c30 :: "op list" where
  "upgrade_8e1f5d2a9c30 =
    [Add_column Pii ''api_keys'' (with_default ''is_admin'' Boolean (Literal (VBool False))),
     Create_table ''audit_events''
       [serial ''id'' BigInteger,
        col ''request_id'' (String 64),
        with_default ''occurred_at'' DateTime Now,
        nullable ''api_key_id'' (String 64),
        col ''source_ip'' (String 45),
        col ''method'' (String 8),
        col ''path'' (String 256),
        nullable ''http_status'' Integer,
        nullable ''response_code'' (String 16),
        with_default ''detected_entity_count'' Integer (Literal (VInt 0)),
        nullable ''detected_entity_types'' Text,
        nullable ''processing_ms'' Integer,
        nullable ''body_hash'' (String 64)]
       [Primary_key [''id'']],
     Create_index Pii ''ix_pii_audit_events_request_id'' ''audit_events'' [Asc ''request_id''] False,
     Create_index Pii ''ix_pii_audit_events_occurred_at'' ''audit_events'' [Asc ''occurred_at''] False,
     Create_index Pii ''ix_pii_audit_events_api_key_id'' ''audit_events'' [Asc ''api_key_id''] False,
     Create_index Pii ''ix_pii_audit_events_apikey_occurred'' ''audit_events'' [Asc ''api_key_id'', Desc ''occurred_at''] False,
     Create_function ''reject_audit_mutation'',
     Drop_trigger ''trg_audit_no_update'' ''audit_events'',
     Create_trigger ''trg_audit_no_update'' ''audit_events'' ''BEFORE UPDATE'' ''reject_audit_mutation'',
     Drop_trigger ''trg_audit_no_delete'' ''audit_events'',
     Create_trigger ''trg_audit_no_delete'' ''audit_events'' ''BEFORE DELETE'' ''reject_audit_mutation'']"

definition downgrade_8e1f5d2a9c30 :: "op list" where
  "downgrade_8e1f5d2a9c30 =
    [Drop_trigger ''trg_audit_no_update'' ''audit_events'',
     Drop_trigger ''trg_audit_no_delete'' ''audit_events'',
     Drop_function ''reject_audit_mutation'' False,
     Drop_index Pii ''ix_pii_audit_events_apikey_occurred'',
     Drop_index Pii ''ix_pii_audit_events_api_key_id'',
     Drop_index Pii ''ix_pii_audit_events_occurred_at'',
     Drop_index Pii ''ix_pii_audit_events_request_id'',
     Drop_table ''audit_events'',
     Drop_column Pii ''api_keys'' ''is_admin'']"

text \<open>Phase 7a: policies, feedback and pattern modes (\<^verbatim>\<open>9f3a7c2e1b40\<close>).\<close>

definition upgrade_9f3a7c2e1b40 :: "op list" where
  "upgrade_9f3a7c2e1b40 =
    [Create_table ''pii_policies''
       [serial ''id'' Integer,
        col ''entity_type'' (String 64),
        col ''score_min'' Float,
        col ''score_max'' Float,
        col ''action'' (String 16),
        nullable ''user_message_template'' Text,
        with_default ''mode'' (String 16) (Literal (VText (u ''enabled''))),
        with_default ''version'' Integer (Literal (VInt 1)),
        with_default ''created_by'' (String 64) (Literal (VText (u ''system''))),
        with_default ''created_at'' DateTime Now,
        with_default ''updated_at'' DateTime Now]
       [Check ''ck_pii_policies_action'' (One_of ''action'' [''BLOCK'', ''WARN'', ''MASK'', ''LOG_ONLY'', ''PASS'']),
        Check ''ck_pii_policies_mode'' (One_of ''mode'' [''enabled'', ''shadow'', ''disabled'']),
        Check ''ck_pii_policies_score_band'' (Both (Both (At_least ''score_min'' 0) (At_most ''score_max'' 1)) (Not_over ''score_min'' ''score_max'')),
        Primary_key [''id''],
        Unique ''uq_pii_policies_entity_band_mode'' [''entity_type'', ''score_min'', ''score_max'', ''mode'']],
     Create_index Pii ''ix_pii_pii_policies_entity_type'' ''pii_policies'' [Asc ''entity_type''] False,
     Create_table ''pii_feedback''
       [serial ''id'' Integer,
        col ''request_id'' (String 64),
        col ''original_code'' (String 16),
        col ''reason'' Text,
        nullable ''reporter_hash'' (String 64),
        with_default ''created_at'' DateTime Now]
       [Primary_key [''id'']],
     Create_index Pii ''ix_pii_pii_feedback_request_id'' ''pii_feedback'' [Asc ''request_id''] False,
     Create_index Pii ''ix_pii_pii_feedback_created_at_desc'' ''pii_feedback'' [Desc ''created_at''] False,
     Add_column Pii ''pii_patterns'' (with_default ''mode'' (String 16) (Literal (VText (u ''enabled'')))),
     Update_rows ''pii_patterns'' mode_of_enabled,
     Create_check Pii ''ck_pii_patterns_mode'' ''pii_patterns'' (One_of ''mode'' [''enabled'', ''shadow'', ''disabled'']),
     Drop_column Pii ''pii_patterns'' ''enabled'',
     Add_column Pii ''audit_events'' (nullable ''shadow_hit_types'' Text),
     Drop_trigger ''pii_policies_notify'' ''pii_policies'',
     Create_trigger ''pii_policies_notify'' ''pii_policies'' ''AFTER INSERT OR UPDATE OR DELETE'' ''pii_notify_pattern_change'']"

definition downgrade_9f3a7c2e1b40 :: "op list" where
  "downgrade_9f3a7c2e1b40 =
    [Drop_trigger ''pii_policies_notify'' ''pii_policies'',
     Drop_column Pii ''audit_events'' ''shadow_hit_types'',
     Add_column Pii ''pii_patterns'' (with_default ''enabled'' Boolean (Literal (VBool True))),
     Update_rows ''pii_patterns'' enabled_of_mode,
     Drop_constraint Pii (Some ''ck_pii_patterns_mode'') ''pii_patterns'',
     Drop_column Pii ''pii_patterns'' ''mode'',
     Drop_index Pii ''ix_pii_pii_feedback_created_at_desc'',
     Drop_index Pii ''ix_pii_pii_feedback_request_id'',
     Drop_table ''pii_feedback'',
     Drop_index Pii ''ix_pii_pii_policies_entity_type'',
     Drop_table ''pii_policies'']"

text \<open>Phase 7b: state of the alerter (\<^verbatim>\<open>9f3a7c2e1b41\<close>).\<close>

definition upgrade_9f3a7c2e1b41 :: "op list" where
  "upgrade_9f3a7c2e1b41 =
    [Create_table ''alerter_state''
       [col ''key'' (String 64),
        nullable ''last_alert_at'' DateTime,
        with_default ''last_count'' Integer (Literal (VInt 0)),
        with_default ''updated_at'' DateTime Now]
       [Primary_key [''key'']]]"

definition downgrade_9f3a7c2e1b41 :: "op list" where
  "downgrade_9f3a7c2e1b41 =
    [Drop_table ''alerter_state'']"

section \<open>Phase 9 and the attachment deny list\<close>

text \<open>Phase 9a: address tables (\<^verbatim>\<open>a1b2c3d4e5f6\<close>).\<close>

definition upgrade_a1b2c3d4e5f6 :: "op list" where
  "upgrade_a1b2c3d4e5f6 =
    [Create_table ''exception_ips''
       [serial ''id'' Integer,
        col ''cidr'' (String 50),
        with_default ''label'' (String 200) (Literal (VText [])),
        with_default ''enabled'' Boolean (Literal (VBool True)),
        with_default ''created_at'' DateTime Now]
       [Primary_key [''id''],
        Unique ''uq_exception_ips_cidr'' [''cidr'']],
     Create_index Pii ''ix_pii_exception_ips_cidr'' ''exception_ips'' [Asc ''cidr''] True,
     Create_table ''api_ip_callers''
       [serial ''id'' Integer,
        col ''cidr'' (String 50),
        col ''name'' (String 200),
        with_default ''rate_per_minute'' Integer (Literal (VInt 60)),
        with_default ''rate_per_hour'' Integer (Literal (VInt 1000)),
        with_default ''enabled'' Boolean (Literal (VBool True)),
        with_default ''created_at'' DateTime Now]
       [Check ''ck_api_ip_callers_rate_positive'' (Both (Above ''rate_per_minute'' 0) (Above ''rate_per_hour'' 0)),
        Primary_key [''id''],
        Unique ''uq_api_ip_callers_cidr'' [''cidr'']],
     Create_index Pii ''ix_pii_api_ip_callers_cidr'' ''api_ip_callers'' [Asc ''cidr''] True]"

definition downgrade_a1b2c3d4e5f6 :: "op list" where
  "downgrade_a1b2c3d4e5f6 =
    [Drop_index Pii ''ix_pii_api_ip_callers_cidr'',
     Drop_table ''api_ip_callers'',
     Drop_index Pii ''ix_pii_exception_ips_cidr'',
     Drop_table ''exception_ips'']"

text \<open>Phase 9b: audit detail (\<^verbatim>\<open>b2c3d4e5f6a7\<close>).\<close>

definition upgrade_b2c3d4e5f6a7 :: "op list" where
  "upgrade_b2c3d4e5f6a7 =
    [Add_column Pii ''audit_events'' (nullable ''request_body_text'' Text),
     Add_column Pii ''audit_events'' (nullable ''response_body_text'' Text),
     Add_column Pii ''audit_events'' (nullable ''request_headers_text'' Text)]"

definition downgrade_b2c3d4e5f6a7 :: "op list" where
  "downgrade_b2c3d4e5f6a7 =
    [Drop_column Pii ''audit_events'' ''request_headers_text'',
     Drop_column Pii ''audit_events'' ''response_body_text'',
     Drop_column Pii ''audit_events'' ''request_body_text'']"

text \<open>Phase 9d: masked artifacts go (\<^verbatim>\<open>c3d4e5f6a7b8\<close>).\<close>

definition upgrade_c3d4e5f6a7b8 :: "op list" where
  "upgrade_c3d4e5f6a7b8 =
    [Drop_index Pii ''ix_pii_masked_artifacts_token'',
     Drop_index Pii ''ix_pii_masked_artifacts_job_id'',
     Drop_index Pii ''ix_pii_masked_artifacts_expires_at'',
     Drop_table ''masked_artifacts'']"

definition downgrade_c3d4e5f6a7b8 :: "op list" where
  "downgrade_c3d4e5f6a7b8 =
    [Create_table ''masked_artifacts''
       [serial ''id'' Integer,
        col ''token'' (String 64),
        col ''job_id'' (String 64),
        col ''attachment_id'' (String 64),
        col ''file_path'' Text,
        col ''sha256'' (String 64),
        col ''mime_type'' (String 100),
        with_default ''created_at'' DateTime Now,
        col ''expires_at'' DateTime]
       [Foreign_key (fkey_name ''masked_artifacts'' [''job_id'']) [''job_id''] ''extraction_jobs'' [''job_id''] ''CASCADE'',
        Primary_key [''id'']],
     Create_index Pii ''ix_pii_masked_artifacts_expires_at'' ''masked_artifacts'' [Asc ''expires_at''] False,
     Create_index Pii ''ix_pii_masked_artifacts_job_id'' ''masked_artifacts'' [Asc ''job_id''] False,
     Create_index Pii ''ix_pii_masked_artifacts_token'' ''masked_artifacts'' [Asc ''token''] True]"

text \<open>Phase 9e: patterns go (\<^verbatim>\<open>d4e5f6a7b8c9\<close>).\<close>

definition upgrade_d4e5f6a7b8c9 :: "op list" where
  "upgrade_d4e5f6a7b8c9 =
    [Drop_trigger ''trg_pii_patterns_notify'' ''pii_patterns'',
     Drop_function ''notify_pii_pattern_changed'' True,
     Drop_table ''pii_pattern_history'',
     Drop_table ''pii_patterns'']"

definition downgrade_d4e5f6a7b8c9 :: "op list" where
  "downgrade_d4e5f6a7b8c9 =
    [Create_table ''pii_patterns''
       [serial ''id'' Integer,
        col ''entity_type'' (String 64),
        col ''pattern_name'' (String 128),
        col ''regex'' Text,
        col ''score'' Float,
        with_default ''context_words'' (ARRAY Text) (Literal (VTexts [])),
        col ''strictness'' (String 8),
        with_default ''mode'' (String 16) (Literal (VText (u ''enabled''))),
        with_default ''version'' Integer (Literal (VInt 1)),
        with_default ''created_by'' (String 64) (Literal (VText (u ''system''))),
        with_default ''created_at'' DateTime Now,
        with_default ''updated_at'' DateTime Now]
       [Check ''ck_pii_patterns_score'' (Both (At_least ''score'' 0) (At_most ''score'' 1)),
        Check ''ck_pii_patterns_strictness'' (One_of ''strictness'' [''low'', ''medium'', ''high'']),
        Check ''ck_pii_patterns_mode'' (One_of ''mode'' [''enabled'', ''shadow'', ''disabled'']),
        Primary_key [''id''],
        Unique ''uq_pii_patterns_entity_name'' [''entity_type'', ''pattern_name'']],
     Create_index Pii ''ix_pii_pii_patterns_entity_type'' ''pii_patterns'' [Asc ''entity_type''] False,
     Create_table ''pii_pattern_history''
       [serial ''id'' Integer,
        col ''original_pattern_id'' Integer,
        nullable ''pattern_id'' Integer,
        col ''action'' (String 16),
        col ''snapshot'' Text,
        with_default ''changed_by'' (String 64) (Literal (VText (u ''system''))),
        with_default ''changed_at'' DateTime Now]
       [Check ''ck_pii_pattern_history_action'' (One_of ''action'' [''INSERT'', ''UPDATE'', ''DELETE'']),
        Foreign_key (fkey_name ''pii_pattern_history'' [''pattern_id'']) [''pattern_id''] ''pii_patterns'' [''id''] ''SET NULL'',
        Primary_key [''id'']],
     Create_index Pii ''ix_pii_pii_pattern_history_original_pattern_id'' ''pii_pattern_history'' [Asc ''original_pattern_id''] False]"

text \<open>Phase 4b: attachment deny list (\<^verbatim>\<open>e5f6a7b8c9d0\<close>).\<close>

definition SEED :: "(ustr option \<times> ustr option \<times> ustr) list" where
  "SEED =
    [(Some (u ''zip''), Some (u ''application/zip''), u ''archive container''),
     (Some (u ''rar''), Some (u ''application/vnd.rar''), u ''archive container''),
     (Some (u ''7z''), Some (u ''application/x-7z-compressed''), u ''archive container''),
     (Some (u ''tar''), Some (u ''application/x-tar''), u ''archive container''),
     (Some (u ''gz''), Some (u ''application/gzip''), u ''archive container''),
     (Some (u ''bz2''), Some (u ''application/x-bzip2''), u ''archive container''),
     (Some (u ''xz''), Some (u ''application/x-xz''), u ''archive container''),
     (Some (u ''tgz''), None, u ''archive container''),
     (Some (u ''tbz''), None, u ''archive container''),
     (Some (u ''txz''), None, u ''archive container''),
     (Some (u ''lz''), None, u ''archive container''),
     (Some (u ''lz4''), None, u ''archive container''),
     (Some (u ''zst''), None, u ''archive container''),
     (Some (u ''cab''), None, u ''archive container''),
     (Some (u ''arj''), None, u ''archive container''),
     (Some (u ''iso''), Some (u ''application/x-iso9660-image''), u ''archive container''),
     (Some (u ''lzma''), None, u ''archive container''),
     (Some (u ''z''), None, u ''archive container''),
     (Some (u ''ace''), None, u ''archive container''),
     (Some (u ''sit''), None, u ''archive container''),
     (Some (u ''dmg''), None, u ''archive container''),
     (Some (u ''alz''), None, u ''archive container (kr)''),
     (Some (u ''egg''), None, u ''archive container (kr)''),
     (Some (u ''hwp''), Some (u ''application/x-hwp''), u ''hwp legacy''),
     (Some (u ''hwp''), Some (u ''application/haansofthwp''), u ''hwp legacy''),
     (Some (u ''hwpx''), Some (u ''application/hwp+zip''), u ''hwpx''),
     (Some (u ''hwpx''), Some (u ''application/x-hwpx''), u ''hwpx''),
     (Some (u ''hwpx''), Some (u ''application/haansofthwpx''), u ''hwpx''),
     (Some (u ''doc''), Some (u ''application/msword''), u ''legacy ole office''),
     (Some (u ''xls''), Some (u ''application/vnd.ms-excel''), u ''legacy ole office''),
     (Some (u ''ppt''), Some (u ''application/vnd.ms-powerpoint''), u ''legacy ole office'')]"

definition create_blocklist :: "op list" where
  "create_blocklist =
    [Create_table ''attachment_blocklist''
       [serial ''id'' Integer,
        nullable ''extension'' (String 32),
        nullable ''mime_type'' (String 100),
        with_default ''reason'' (String 200) (Literal (VText [])),
        with_default ''enabled'' Boolean (Literal (VBool True)),
        with_default ''created_at'' DateTime Now]
       [Check ''ck_attachment_blocklist_match_required'' (Any (Not_null ''extension'') (Not_null ''mime_type'')),
        Primary_key [''id'']],
     Create_index Pii ''ix_pii_attachment_blocklist_extension'' ''attachment_blocklist'' [Asc ''extension''] False,
     Create_index Pii ''ix_pii_attachment_blocklist_mime_type'' ''attachment_blocklist'' [Asc ''mime_type''] False]"

definition block_seed_row :: "ustr option \<times> ustr option \<times> ustr \<Rightarrow> row" where
  "block_seed_row s = (case s of (ext, mime, reason) \<Rightarrow>
     [(''extension'', case ext of None \<Rightarrow> VNull | Some t \<Rightarrow> VText t), (''mime_type'', case mime of None \<Rightarrow> VNull | Some t \<Rightarrow> VText t),
      (''reason'', VText reason), (''enabled'', VBool True)])"

fun bulk_insert :: "conn \<Rightarrow> string \<Rightarrow> row list \<Rightarrow> db \<Rightarrow> db_error + db" where
  "bulk_insert cn n [] d = Inr d"
| "bulk_insert cn n (r # rs) d = (case insert_into cn n r d of Inl e \<Rightarrow> Inl e | Inr (_, d') \<Rightarrow> bulk_insert cn n rs d')"

definition upgrade_e5f6a7b8c9d0 :: "conn \<Rightarrow> db \<Rightarrow> db_error + db" where
  "upgrade_e5f6a7b8c9d0 cn d =
     (case run_ops cn create_blocklist d of
        Inl e \<Rightarrow> Inl e
      | Inr d' \<Rightarrow> bulk_insert cn ''attachment_blocklist'' (map block_seed_row SEED) d')"

definition downgrade_e5f6a7b8c9d0 :: "op list" where
  "downgrade_e5f6a7b8c9d0 =
    [Drop_index Pii ''ix_pii_attachment_blocklist_mime_type'',
     Drop_index Pii ''ix_pii_attachment_blocklist_extension'',
     Drop_table ''attachment_blocklist'']"

section \<open>Running the revisions\<close>

record revision =
  rv_id :: string
  rv_down :: "string option"
  rv_upgrade :: "conn \<Rightarrow> db \<Rightarrow> db_error + db"
  rv_downgrade :: "conn \<Rightarrow> db \<Rightarrow> db_error + db"

definition REVISIONS :: "revision list" where
  "REVISIONS =
    [\<lparr>rv_id = ''56924e17cf24'', rv_down = None, rv_upgrade = (\<lambda>cn. run_ops cn upgrade_56924e17cf24), rv_downgrade = (\<lambda>cn. run_ops cn downgrade_56924e17cf24)\<rparr>,
     \<lparr>rv_id = ''281a3d0a1495'', rv_down = Some ''56924e17cf24'', rv_upgrade = (\<lambda>cn. run_ops cn upgrade_281a3d0a1495), rv_downgrade = (\<lambda>cn. run_ops cn downgrade_281a3d0a1495)\<rparr>,
     \<lparr>rv_id = ''3d16cb2b60e7'', rv_down = Some ''281a3d0a1495'', rv_upgrade = (\<lambda>cn. run_ops cn upgrade_3d16cb2b60e7), rv_downgrade = (\<lambda>cn. run_ops cn downgrade_3d16cb2b60e7)\<rparr>,
     \<lparr>rv_id = ''4a7f8b1c0d92'', rv_down = Some ''3d16cb2b60e7'', rv_upgrade = upgrade_4a7f8b1c0d92, rv_downgrade = downgrade_4a7f8b1c0d92\<rparr>,
     \<lparr>rv_id = ''5b0c2e3f4a01'', rv_down = Some ''4a7f8b1c0d92'', rv_upgrade = (\<lambda>cn. run_ops cn upgrade_5b0c2e3f4a01), rv_downgrade = (\<lambda>cn. run_ops cn downgrade_5b0c2e3f4a01)\<rparr>,
     \<lparr>rv_id = ''6c1d3f4a5b02'', rv_down = Some ''5b0c2e3f4a01'', rv_upgrade = upgrade_6c1d3f4a5b02, rv_downgrade = (\<lambda>cn. run_ops cn downgrade_6c1d3f4a5b02)\<rparr>,
     \<lparr>rv_id = ''ff6df8c4d0ad'', rv_down = Some ''6c1d3f4a5b02'', rv_upgrade = (\<lambda>cn. run_ops cn upgrade_ff6df8c4d0ad), rv_downgrade = (\<lambda>cn. run_ops cn downgrade_ff6df8c4d0ad)\<rparr>,
     \<lparr>rv_id = ''7d2e9a8b3c14'', rv_down = Some ''ff6df8c4d0ad'', rv_upgrade = (\<lambda>cn. run_ops cn upgrade_7d2e9a8b3c14), rv_downgrade = (\<lambda>cn. run_ops cn downgrade_7d2e9a8b3c14)\<rparr>,
     \<lparr>rv_id = ''2401f4a8d84b'', rv_down = Some ''7d2e9a8b3c14'', rv_upgrade = (\<lambda>cn. run_ops cn upgrade_2401f4a8d84b), rv_downgrade = (\<lambda>cn. run_ops cn downgrade_2401f4a8d84b)\<rparr>,
     \<lparr>rv_id = ''5a885a8844a1'', rv_down = Some ''2401f4a8d84b'', rv_upgrade = (\<lambda>cn. run_ops cn upgrade_5a885a8844a1), rv_downgrade = (\<lambda>cn. run_ops cn downgrade_5a885a8844a1)\<rparr>,
     \<lparr>rv_id = ''8e1f5d2a9c30'', rv_down = Some ''5a885a8844a1'', rv_upgrade = (\<lambda>cn. run_ops cn upgrade_8e1f5d2a9c30), rv_downgrade = (\<lambda>cn. run_ops cn downgrade_8e1f5d2a9c30)\<rparr>,
     \<lparr>rv_id = ''9f3a7c2e1b40'', rv_down = Some ''8e1f5d2a9c30'', rv_upgrade = (\<lambda>cn. run_ops cn upgrade_9f3a7c2e1b40), rv_downgrade = (\<lambda>cn. run_ops cn downgrade_9f3a7c2e1b40)\<rparr>,
     \<lparr>rv_id = ''9f3a7c2e1b41'', rv_down = Some ''9f3a7c2e1b40'', rv_upgrade = (\<lambda>cn. run_ops cn upgrade_9f3a7c2e1b41), rv_downgrade = (\<lambda>cn. run_ops cn downgrade_9f3a7c2e1b41)\<rparr>,
     \<lparr>rv_id = ''a1b2c3d4e5f6'', rv_down = Some ''9f3a7c2e1b41'', rv_upgrade = (\<lambda>cn. run_ops cn upgrade_a1b2c3d4e5f6), rv_downgrade = (\<lambda>cn. run_ops cn downgrade_a1b2c3d4e5f6)\<rparr>,
     \<lparr>rv_id = ''b2c3d4e5f6a7'', rv_down = Some ''a1b2c3d4e5f6'', rv_upgrade = (\<lambda>cn. run_ops cn upgrade_b2c3d4e5f6a7), rv_downgrade = (\<lambda>cn. run_ops cn downgrade_b2c3d4e5f6a7)\<rparr>,
     \<lparr>rv_id = ''c3d4e5f6a7b8'', rv_down = Some ''b2c3d4e5f6a7'', rv_upgrade = (\<lambda>cn. run_ops cn upgrade_c3d4e5f6a7b8), rv_downgrade = (\<lambda>cn. run_ops cn downgrade_c3d4e5f6a7b8)\<rparr>,
     \<lparr>rv_id = ''d4e5f6a7b8c9'', rv_down = Some ''c3d4e5f6a7b8'', rv_upgrade = (\<lambda>cn. run_ops cn upgrade_d4e5f6a7b8c9), rv_downgrade = (\<lambda>cn. run_ops cn downgrade_d4e5f6a7b8c9)\<rparr>,
     \<lparr>rv_id = ''e5f6a7b8c9d0'', rv_down = Some ''d4e5f6a7b8c9'', rv_upgrade = upgrade_e5f6a7b8c9d0, rv_downgrade = (\<lambda>cn. run_ops cn downgrade_e5f6a7b8c9d0)\<rparr>]"

record server =
  sv_db :: db
  sv_version :: "string option"

fun step_up :: "nat \<Rightarrow> conn \<Rightarrow> server \<Rightarrow> db_error + server" where
  "step_up 0 cn s = Inr s"
| "step_up (Suc k) cn s =
     (case find (\<lambda>r. rv_down r = sv_version s) REVISIONS of
        None \<Rightarrow> Inr s
      | Some r \<Rightarrow> (case rv_upgrade r cn (sv_db s) of Inl e \<Rightarrow> Inl e | Inr d \<Rightarrow> step_up k cn \<lparr>sv_db = d, sv_version = Some (rv_id r)\<rparr>))"

fun step_down :: "nat \<Rightarrow> string option \<Rightarrow> conn \<Rightarrow> server \<Rightarrow> db_error + server" where
  "step_down 0 target cn s = Inr s"
| "step_down (Suc k) target cn s =
     (if sv_version s = target then Inr s
      else case find (\<lambda>r. Some (rv_id r) = sv_version s) REVISIONS of
        None \<Rightarrow> Inr s
      | Some r \<Rightarrow> (case rv_downgrade r cn (sv_db s) of Inl e \<Rightarrow> Inl e | Inr d \<Rightarrow> step_down k target cn \<lparr>sv_db = d, sv_version = rv_down r\<rparr>))"

text \<open>All steps of a run share one transaction: an error leaves the server as it was.\<close>

definition transaction :: "(server \<Rightarrow> db_error + server) \<Rightarrow> server \<Rightarrow> db_error option \<times> server" where
  "transaction f s = (case f s of Inl e \<Rightarrow> (Some e, s) | Inr s' \<Rightarrow> (None, s'))"

definition upgrade_head :: "conn \<Rightarrow> server \<Rightarrow> db_error option \<times> server" where
  "upgrade_head cn = transaction (step_up (length REVISIONS) cn)"

definition downgrade_to :: "string option \<Rightarrow> conn \<Rightarrow> server \<Rightarrow> db_error option \<times> server" where
  "downgrade_to target cn = transaction (step_down (length REVISIONS) target cn)"

definition new_server :: server where
  "new_server = \<lparr>sv_db = no_db, sv_version = None\<rparr>"

section \<open>The schema the models expect\<close>

record model =
  md_name :: string
  md_columns :: "column list"
  md_constraints :: "constraint list"
  md_indexes :: "index list"

definition PiiDenyList_model :: model where
  "PiiDenyList_model = \<lparr>md_name = ''pii_deny_list'',
     md_columns =
       [serial ''id'' Integer,
        col ''entity_type'' (String 64),
        col ''value'' Text,
        col ''score'' Float,
        nullable ''note'' Text,
        col ''created_by'' (String 64),
        with_default ''created_at'' DateTime Now],
     md_constraints =
       [Unique ''uq_pii_deny_list_entity_value'' [''entity_type'', ''value''],
        Check ''ck_pii_deny_list_score'' (Both (At_least ''score'' 0) (At_most ''score'' 1)),
        Primary_key [''id'']],
     md_indexes =
       [\<lparr>ix_name = ''ix_pii_pii_deny_list_entity_type'', ix_table = ''pii_deny_list'', ix_items = [Asc ''entity_type''], ix_unique = False\<rparr>]\<rparr>"

definition ApiKey_model :: model where
  "ApiKey_model = \<lparr>md_name = ''api_keys'',
     md_columns =
       [serial ''id'' Integer,
        col ''key_id'' (String 64),
        col ''secret'' (String 128),
        col ''name'' (String 128),
        nullable ''ip_allowlist'' (ARRAY Text),
        col ''rate_per_minute'' Integer,
        col ''rate_per_hour'' Integer,
        col ''enabled'' Boolean,
        with_default ''is_admin'' Boolean (Literal (VBool False)),
        col ''created_by'' (String 64),
        with_default ''created_at'' DateTime Now,
        nullable ''revoked_at'' DateTime],
     md_constraints =
       [Check ''ck_api_keys_rate_positive'' (Both (Above ''rate_per_minute'' 0) (Above ''rate_per_hour'' 0)),
        Primary_key [''id'']],
     md_indexes =
       [\<lparr>ix_name = ''ix_pii_api_keys_key_id'', ix_table = ''api_keys'', ix_items = [Asc ''key_id''], ix_unique = True\<rparr>]\<rparr>"

definition ExtractionJob_model :: model where
  "ExtractionJob_model = \<lparr>md_name = ''extraction_jobs'',
     md_columns =
       [col ''job_id'' (String 64),
        col ''request_id'' (String 64),
        nullable ''callback_url'' Text,
        col ''status'' (String 16),
        nullable ''body_code'' (String 16),
        nullable ''body_verdict'' (String 16),
        nullable ''attachments_json'' Text,
        nullable ''error'' Text,
        with_default ''created_at'' DateTime Now,
        nullable ''completed_at'' DateTime,
        col ''webhook_attempts'' Integer,
        nullable ''webhook_delivered_at'' DateTime],
     md_constraints =
       [Check ''ck_extraction_jobs_status'' (One_of ''status'' [''PENDING'', ''PROCESSING'', ''COMPLETED'', ''FAILED'']),
        Primary_key [''job_id'']],
     md_indexes =
       [\<lparr>ix_name = ''ix_pii_extraction_jobs_request_id'', ix_table = ''extraction_jobs'', ix_items = [Asc ''request_id''], ix_unique = False\<rparr>,
        \<lparr>ix_name = ''ix_pii_extraction_jobs_status'', ix_table = ''extraction_jobs'', ix_items = [Asc ''status''], ix_unique = False\<rparr>]\<rparr>"

definition ApiKeyNonce_model :: model where
  "ApiKeyNonce_model = \<lparr>md_name = ''api_key_nonces'',
     md_columns =
       [col ''key_id'' (String 64),
        col ''nonce'' (String 64),
        with_default ''used_at'' DateTime Now],
     md_constraints =
       [Primary_key [''key_id'', ''nonce'']],
     md_indexes =
       [\<lparr>ix_name = ''ix_pii_api_key_nonces_used_at'', ix_table = ''api_key_nonces'', ix_items = [Asc ''used_at''], ix_unique = False\<rparr>]\<rparr>"

definition AuditEvent_model :: model where
  "AuditEvent_model = \<lparr>md_name = ''audit_events'',
     md_columns =
       [serial ''id'' BigInteger,
        col ''request_id'' (String 64),
        with_default ''occurred_at'' DateTime Now,
        nullable ''api_key_id'' (String 64),
        col ''source_ip'' (String 45),
        col ''method'' (String 8),
        col ''path'' (String 256),
        nullable ''http_status'' Integer,
        nullable ''response_code'' (String 16),
        col ''detected_entity_count'' Integer,
        nullable ''detected_entity_types'' Text,
        nullable ''processing_ms'' Integer,
        nullable ''body_hash'' (String 64),
        nullable ''shadow_hit_types'' Text,
        nullable ''request_body_text'' Text,
        nullable ''response_body_text'' Text,
        nullable ''request_headers_text'' Text],
     md_constraints =
       [Primary_key [''id'']],
     md_indexes =
       [\<lparr>ix_name = ''ix_pii_audit_events_request_id'', ix_table = ''audit_events'', ix_items = [Asc ''request_id''], ix_unique = False\<rparr>,
        \<lparr>ix_name = ''ix_pii_audit_events_occurred_at'', ix_table = ''audit_events'', ix_items = [Asc ''occurred_at''], ix_unique = False\<rparr>,
        \<lparr>ix_name = ''ix_pii_audit_events_api_key_id'', ix_table = ''audit_events'', ix_items = [Asc ''api_key_id''], ix_unique = False\<rparr>]\<rparr>"

definition PiiPolicy_model :: model where
  "PiiPolicy_model = \<lparr>md_name = ''pii_policies'',
     md_columns =
       [serial ''id'' Integer,
        col ''entity_type'' (String 64),
        col ''score_min'' Float,
        col ''score_max'' Float,
        col ''action'' (String 16),
        nullable ''user_message_template'' Text,
        with_default ''mode'' (String 16) (Literal (VText (u ''enabled''))),
        with_default ''version'' Integer (Literal (VInt 1)),
        with_default ''created_by'' (String 64) (Literal (VText (u ''system''))),
        with_default ''created_at'' DateTime Now,
        with_default ''updated_at'' DateTime Now],
     md_constraints =
       [Unique ''uq_pii_policies_entity_band_mode'' [''entity_type'', ''score_min'', ''score_max'', ''mode''],
        Check ''ck_pii_policies_action'' (One_of ''action'' [''BLOCK'', ''WARN'', ''MASK'', ''LOG_ONLY'', ''PASS'']),
        Check ''ck_pii_policies_mode'' (One_of ''mode'' [''enabled'', ''shadow'', ''disabled'']),
        Check ''ck_pii_policies_score_band'' (Both (Both (At_least ''score_min'' 0) (At_most ''score_max'' 1)) (Not_over ''score_min'' ''score_max'')),
        Primary_key [''id'']],
     md_indexes =
       [\<lparr>ix_name = ''ix_pii_pii_policies_entity_type'', ix_table = ''pii_policies'', ix_items = [Asc ''entity_type''], ix_unique = False\<rparr>]\<rparr>"

definition PiiFeedback_model :: model where
  "PiiFeedback_model = \<lparr>md_name = ''pii_feedback'',
     md_columns =
       [serial ''id'' Integer,
        col ''request_id'' (String 64),
        col ''original_code'' (String 16),
        col ''reason'' Text,
        nullable ''reporter_hash'' (String 64),
        with_default ''created_at'' DateTime Now],
     md_constraints =
       [Primary_key [''id'']],
     md_indexes =
       [\<lparr>ix_name = ''ix_pii_pii_feedback_request_id'', ix_table = ''pii_feedback'', ix_items = [Asc ''request_id''], ix_unique = False\<rparr>]\<rparr>"

definition ExceptionIp_model :: model where
  "ExceptionIp_model = \<lparr>md_name = ''exception_ips'',
     md_columns =
       [serial ''id'' Integer,
        col ''cidr'' (String 50),
        with_default ''label'' (String 200) (Literal (VText [])),
        with_default ''enabled'' Boolean (Literal (VBool True)),
        with_default ''created_at'' DateTime Now],
     md_constraints =
       [Primary_key [''id'']],
     md_indexes =
       [\<lparr>ix_name = ''ix_pii_exception_ips_cidr'', ix_table = ''exception_ips'', ix_items = [Asc ''cidr''], ix_unique = True\<rparr>]\<rparr>"

definition ApiIpCaller_model :: model where
  "ApiIpCaller_model = \<lparr>md_name = ''api_ip_callers'',
     md_columns =
       [serial ''id'' Integer,
        col ''cidr'' (String 50),
        col ''name'' (String 200),
        with_default ''rate_per_minute'' Integer (Literal (VInt 60)),
        with_default ''rate_per_hour'' Integer (Literal (VInt 1000)),
        with_default ''enabled'' Boolean (Literal (VBool True)),
        with_default ''created_at'' DateTime Now],
     md_constraints =
       [Check ''ck_api_ip_callers_rate_positive'' (Both (Above ''rate_per_minute'' 0) (Above ''rate_per_hour'' 0)),
        Primary_key [''id'']],
     md_indexes =
       [\<lparr>ix_name = ''ix_pii_api_ip_callers_cidr'', ix_table = ''api_ip_callers'', ix_items = [Asc ''cidr''], ix_unique = True\<rparr>]\<rparr>"

definition AlerterState_model :: model where
  "AlerterState_model = \<lparr>md_name = ''alerter_state'',
     md_columns =
       [col ''key'' (String 64),
        nullable ''last_alert_at'' DateTime,
        with_default ''last_count'' Integer (Literal (VInt 0)),
        with_default ''updated_at'' DateTime Now],
     md_constraints =
       [Primary_key [''key'']],
     md_indexes =
       []\<rparr>"

definition AttachmentBlocklist_model :: model where
  "AttachmentBlocklist_model = \<lparr>md_name = ''attachment_blocklist'',
     md_columns =
       [serial ''id'' Integer,
        nullable ''extension'' (String 32),
        nullable ''mime_type'' (String 100),
        with_default ''reason'' (String 200) (Literal (VText [])),
        with_default ''enabled'' Boolean (Literal (VBool True)),
        with_default ''created_at'' DateTime Now],
     md_constraints =
       [Check ''ck_attachment_blocklist_match_required'' (Any (Not_null ''extension'') (Not_null ''mime_type'')),
        Primary_key [''id'']],
     md_indexes =
       [\<lparr>ix_name = ''ix_pii_attachment_blocklist_extension'', ix_table = ''attachment_blocklist'', ix_items = [Asc ''extension''], ix_unique = False\<rparr>,
        \<lparr>ix_name = ''ix_pii_attachment_blocklist_mime_type'', ix_table = ''attachment_blocklist'', ix_items = [Asc ''mime_type''], ix_unique = False\<rparr>]\<rparr>"

definition MODELS :: "model list" where
  "MODELS = [PiiDenyList_model, ApiKey_model, ExtractionJob_model, ApiKeyNonce_model, AuditEvent_model, PiiPolicy_model, PiiFeedback_model, ExceptionIp_model, ApiIpCaller_model, AlerterState_model, AttachmentBlocklist_model]"

text \<open>What the migrations create without a declaration in the ORM classes.\<close>

definition UNDECLARED_INDEXES :: "index list" where
  "UNDECLARED_INDEXES =
     [\<lparr>ix_name = ''ix_pii_audit_events_apikey_occurred'', ix_table = ''audit_events'',
        ix_items = [Asc ''api_key_id'', Desc ''occurred_at''], ix_unique = False\<rparr>,
      \<lparr>ix_name = ''ix_pii_pii_feedback_created_at_desc'', ix_table = ''pii_feedback'',
        ix_items = [Desc ''created_at''], ix_unique = False\<rparr>]"

definition undeclared_constraints :: "string \<Rightarrow> constraint list" where
  "undeclared_constraints table =
     (if table = ''exception_ips'' then [Unique ''uq_exception_ips_cidr'' [''cidr'']]
      else if table = ''api_ip_callers'' then [Unique ''uq_api_ip_callers_cidr'' [''cidr'']] else [])"

definition undeclared_default :: "string \<Rightarrow> column \<Rightarrow> column" where
  "undeclared_default table c =
     (if table = ''audit_events'' \<and> cl_name c = ''detected_entity_count''
      then c\<lparr>cl_default := Some (Literal (VInt 0))\<rparr> else c)"

text \<open>
  The tables, columns, constraints and indexes are those of the models and the listed ones, and no
  others.
\<close>

definition same_elements :: "'a list \<Rightarrow> 'a list \<Rightarrow> bool" where
  "same_elements xs ys \<longleftrightarrow> list_all (\<lambda>x. x \<in> set ys) xs \<and> list_all (\<lambda>y. y \<in> set xs) ys"

definition agrees :: "db \<Rightarrow> model \<Rightarrow> bool" where
  "agrees d m \<longleftrightarrow>
     (case map_of (db_tables d) (md_name m) of
        None \<Rightarrow> False
      | Some t \<Rightarrow>
          same_elements (tb_columns t) (map (undeclared_default (md_name m)) (md_columns m)) \<and>
          same_elements (tb_constraints t) (md_constraints m @ undeclared_constraints (md_name m)))"

definition matches_models :: "db \<Rightarrow> bool" where
  "matches_models d \<longleftrightarrow>
     same_elements (map fst (db_tables d)) (map md_name MODELS) \<and> list_all (agrees d) MODELS \<and>
     same_elements (db_indexes d) (concat (map md_indexes MODELS) @ UNDECLARED_INDEXES)"

end
