(* ===== verification/Schema_Shape.thy ===== *)
theory Schema_Shape
  imports Schema
begin

text \<open>
  The shape of a database: its tables without their rows.  A schema operation that succeeds acts on
  the shape as on the database, and it succeeds when it succeeds on the shape and the rows that are
  there do not forbid it (\<open>data_ok\<close>).  Runs of operations that stay clear of the filled tables
  therefore behave as they do on an empty database.
\<close>

section \<open>Shapes\<close>

definition blank :: "rel \<Rightarrow> rel" where
  "blank t = t\<lparr>tb_rows := [], tb_next := 1\<rparr>"

definition shape :: "db \<Rightarrow> db" where
  "shape d = d\<lparr>db_tables := map (\<lambda>(n, t). (n, blank t)) (db_tables d)\<rparr>"

definition rows_of :: "db \<Rightarrow> string \<Rightarrow> row list" where
  "rows_of d n = (case map_of (db_tables d) n of None \<Rightarrow> [] | Some t \<Rightarrow> tb_rows t)"

named_theorems shape_simps \<open>what the schema operations read is the same in the shape\<close>

lemma blank_sel [simp]:
  "tb_columns (blank t) = tb_columns t" "tb_constraints (blank t) = tb_constraints t" "tb_rows (blank t) = []" "tb_next (blank t) = 1"
  by (simp_all add: blank_def)

lemma blank_upd [simp]:
  "blank (t\<lparr>tb_columns := a\<rparr>) = (blank t)\<lparr>tb_columns := a\<rparr>" "blank (t\<lparr>tb_constraints := b\<rparr>) = (blank t)\<lparr>tb_constraints := b\<rparr>"
  "blank (t\<lparr>tb_rows := c\<rparr>) = blank t" "blank (t\<lparr>tb_next := k\<rparr>) = blank t"
  by (simp_all add: blank_def)

lemma clear_rows [simp]: "tb_rows t = [] \<Longrightarrow> t\<lparr>tb_rows := []\<rparr> = t"
  by simp

lemma shape_sel [simp]:
  "db_indexes (shape d) = db_indexes d" "db_triggers (shape d) = db_triggers d" "db_functions (shape d) = db_functions d"
  by (simp_all add: shape_def)

lemma shape_upd [simp]:
  "shape (d\<lparr>db_indexes := a\<rparr>) = (shape d)\<lparr>db_indexes := a\<rparr>" "shape (d\<lparr>db_triggers := b\<rparr>) = (shape d)\<lparr>db_triggers := b\<rparr>"
  "shape (d\<lparr>db_functions := c\<rparr>) = (shape d)\<lparr>db_functions := c\<rparr>"
  by (simp_all add: shape_def)

lemma map_of_shape [shape_simps]: "map_of (db_tables (shape d)) n = map_option blank (map_of (db_tables d) n)"
  by (simp add: shape_def map_of_map)

lemma tables_shape [shape_simps]: "map fst (db_tables (shape d)) = map fst (db_tables d)"
  by (simp add: shape_def case_prod_beta comp_def)

lemma put_mapped: "put n (f t) (map (\<lambda>(m, x). (m, f x)) ts) = map (\<lambda>(m, x). (m, f x)) (put n t ts)"
  by (induction ts) auto

lemma shape_set_table [simp]: "shape (set_table n t d) = set_table n (blank t) (shape d)"
  by (simp add: shape_def set_table_def put_mapped)

lemma shape_append [simp]: "shape (d\<lparr>db_tables := db_tables d @ [(n, t)]\<rparr>) = (shape d)\<lparr>db_tables := db_tables (shape d) @ [(n, blank t)]\<rparr>"
  by (simp add: shape_def)

lemma shape_filter [simp]:
  "shape (d\<lparr>db_tables := filter (\<lambda>(m, t). m \<noteq> n) (db_tables d)\<rparr>) = (shape d)\<lparr>db_tables := filter (\<lambda>(m, t). m \<noteq> n) (db_tables (shape d))\<rparr>"
  by (simp add: shape_def filter_map comp_def case_prod_unfold)

lemma blank_empty [simp]: "tb_rows t = [] \<Longrightarrow> tb_next t = 1 \<Longrightarrow> blank t = t"
  by (simp add: blank_def)

lemma keys_of_blank [simp]: "keys_of (blank t) = keys_of t" "columns_of (blank t) = columns_of t"
  by (simp_all add: keys_of_def columns_of_def)

lemma relation_names_shape [shape_simps]: "relation_names (shape d) = relation_names d"
  by (simp add: relation_names_def shape_def case_prod_unfold comp_def)

lemma reference_ok_shape [shape_simps]: "reference_ok (shape d) = reference_ok d"
  by (auto simp: reference_ok_def map_of_shape fun_eq_iff split: constraint.splits option.splits)

lemma referrers_shape [shape_simps]: "referrers (shape d) n = referrers d n"
  by (simp add: referrers_def shape_def filter_map comp_def case_prod_unfold)

lemma key_in_use_shape [shape_simps]: "key_in_use (shape d) n c = key_in_use d n c"
  by (simp add: key_in_use_def shape_def list_ex_iff case_prod_unfold split: constraint.split)

lemma with_table_shape [shape_simps]:
  "with_table (shape d) n f = (case map_of (db_tables d) n of None \<Rightarrow> Inl Undefined_table | Some t \<Rightarrow> f (blank t))"
  by (simp add: with_table_def map_of_shape split: option.split)

lemma map_of_set_table: "map_of (db_tables (set_table n t d)) m = (if m = n then Some t else map_of (db_tables d) m)"
  by (simp add: set_table_def map_of_put)

lemma shape_rename: "shape (rename_column n a b d) = rename_column n a b (shape d)"
  by (simp add: shape_def rename_column_def rename_in_table_def blank_def case_prod_beta comp_def)

lemma shape_drop_column: "shape (drop_column n c t d) = drop_column n c (blank t) (shape d)"
  by (simp add: drop_column_def)

section \<open>Operations act on the shape\<close>

lemma add_constraint_shape:
  "add_constraint n c d = Inr d' \<Longrightarrow> add_constraint n c (shape d) = Inr (shape d')"
  by (auto simp: add_constraint_def with_table_def map_of_shape reference_ok_shape Let_def split: option.splits if_splits)

lemma exec_op_shape: "exec_op cn x d = Inr d' \<Longrightarrow> exec_op cn x (shape d) = Inr (shape d')"
proof (cases x)
  case (Drop_constraint p k n)
  then show "exec_op cn x d = Inr d' \<Longrightarrow> ?thesis"
    by (cases k) (auto simp: with_table_def map_of_shape key_in_use_shape split: option.splits if_splits)
qed (auto simp: with_table_def map_of_shape relation_names_shape reference_ok_shape referrers_shape key_in_use_shape tables_shape
      shape_rename shape_drop_column Let_def add_constraint_shape list.pred_True split: option.splits if_splits)

section \<open>What the rows may forbid\<close>

definition admits :: "db \<Rightarrow> string \<Rightarrow> constraint \<Rightarrow> bool" where
  "admits d n c = (case map_of (db_tables d) n of None \<Rightarrow> True
     | Some t \<Rightarrow> let t' = t\<lparr>tb_constraints := tb_constraints t @ [c]\<rparr> in list_all (\<lambda>r. row_error (set_table n t' d) t' r = None) (tb_rows t))"

definition admits_update :: "db \<Rightarrow> string \<Rightarrow> (row \<Rightarrow> row) \<Rightarrow> bool" where
  "admits_update d n f = (case map_of (db_tables d) n of None \<Rightarrow> True
     | Some t \<Rightarrow> let t' = t\<lparr>tb_rows := map f (tb_rows t)\<rparr> in
         list_all (\<lambda>r. row_error d t' r = None) (tb_rows t') \<and> list_all (\<lambda>cs. no_twins cs (tb_rows t')) (unique_rules d n t'))"

lemma admits_updateI:
  "map_of (db_tables d) n = Some t \<Longrightarrow> map f (tb_rows t) = rs \<Longrightarrow> list_all (\<lambda>r. row_error d (t\<lparr>tb_rows := rs\<rparr>) r = None) rs \<Longrightarrow>
   list_all (\<lambda>cs. no_twins cs rs) (unique_rules d n (t\<lparr>tb_rows := rs\<rparr>)) \<Longrightarrow> admits_update d n f"
  by (simp add: admits_update_def Let_def)

fun data_ok :: "conn \<Rightarrow> op \<Rightarrow> db \<Rightarrow> bool" where
  "data_ok cn (Create_index p i n items uq) d = (uq \<longrightarrow> no_twins (map item_col items) (rows_of d n))"
| "data_ok cn (Add_column p n c) d = (cl_nullable c \<or> default_value cn (cl_default c) \<noteq> VNull \<or> rows_of d n = [])"
| "data_ok cn (Set_nullable p n c b) d = (b \<or> \<not> list_ex (\<lambda>r. cell r c = VNull) (rows_of d n))"
| "data_ok cn (Create_foreign_key p k n s cs rs od) d = admits d n (Foreign_key (case k of None \<Rightarrow> fkey_name n cs | Some m \<Rightarrow> m) cs s rs od)"
| "data_ok cn (Create_check p k n e) d = admits d n (Check k e)"
| "data_ok cn (Update_rows n f) d = admits_update d n f"
| "data_ok cn _ d = True"

lemma find_no_error: "list_all (\<lambda>r. g r = None) xs \<Longrightarrow> find (\<lambda>e. e \<noteq> None) (map g xs) = None"
  by (induction xs) auto

lemma add_constraint_progress:
  "add_constraint n c (shape d) = Inr s \<Longrightarrow> admits d n c \<Longrightarrow> \<exists>d'. add_constraint n c d = Inr d'"
  by (auto simp: add_constraint_def with_table_def map_of_shape reference_ok_shape admits_def Let_def find_no_error simp del: not_None_eq
      split: option.splits if_splits)

lemma update_progress:
  assumes "map_of (db_tables d) n = Some t" "admits_update d n f"
  shows "exec_op cn (Update_rows n f) d = Inr (set_table n (t\<lparr>tb_rows := map f (tb_rows t)\<rparr>) d)"
  using assms by (simp add: with_table_def admits_update_def Let_def list.pred_map comp_def find_no_error del: not_None_eq)

lemma exec_op_progress: "exec_op cn x (shape d) = Inr s \<Longrightarrow> data_ok cn x d \<Longrightarrow> \<exists>d'. exec_op cn x d = Inr d' \<and> shape d' = s"
proof -
  assume s: "exec_op cn x (shape d) = Inr s" and ok: "data_ok cn x d"
  have "\<exists>d'. exec_op cn x d = Inr d'"
  proof (cases x)
    case (Drop_constraint p k n)
    then show ?thesis using s
      by (cases k) (auto simp: with_table_def map_of_shape key_in_use_shape split: option.splits if_splits)
  next
    case (Update_rows n f)
    then show ?thesis using s ok update_progress [of d n] by (auto simp: with_table_def map_of_shape split: option.splits)
  qed (use s ok in \<open>auto simp: with_table_def map_of_shape relation_names_shape reference_ok_shape referrers_shape key_in_use_shape tables_shape
      rows_of_def Let_def intro: add_constraint_progress split: option.splits if_splits\<close>)
  then obtain d' where "exec_op cn x d = Inr d'" by blast
  then show ?thesis using s exec_op_shape by fastforce
qed

section \<open>Rows that stay\<close>

fun touches :: "op \<Rightarrow> string \<Rightarrow> bool" where
  "touches (Drop_table n) m = (m = n)"
| "touches (Add_column p n c) m = (m = n)"
| "touches (Drop_column p n c) m = (m = n)"
| "touches (Rename_column p n a b) m = (m = n)"
| "touches (Update_rows n f) m = (m = n)"
| "touches _ m = False"

lemma rows_set_table [simp]: "rows_of (set_table n t d) m = (if m = n then tb_rows t else rows_of d m)"
  by (simp add: rows_of_def map_of_set_table)

lemma rows_upd [simp]:
  "rows_of (d\<lparr>db_indexes := a\<rparr>) = rows_of d" "rows_of (d\<lparr>db_triggers := b\<rparr>) = rows_of d" "rows_of (d\<lparr>db_functions := c\<rparr>) = rows_of d"
  by (simp_all add: rows_of_def fun_eq_iff)

lemma rows_append [simp]:
  "rows_of (d\<lparr>db_tables := db_tables d @ [(n, t)]\<rparr>) m = (if n = m \<and> map_of (db_tables d) n = None then tb_rows t else rows_of d m)"
  by (auto simp: rows_of_def map_add_def split: option.splits)

lemma rows_filter [simp]:
  "rows_of (d\<lparr>db_tables := filter (\<lambda>(m, t). m \<noteq> n) (db_tables d)\<rparr>) m = (if m = n then [] else rows_of d m)"
proof -
  have "map_of (filter (\<lambda>(m, t). m \<noteq> n) ts) m = (if m = n then None else map_of ts m)" for ts :: "(string \<times> rel) list"
    by (induction ts) auto
  then show ?thesis by (simp add: rows_of_def)
qed

lemma rows_rename: "rows_of (rename_column n a b d) m =
  (if m = n then map (map (\<lambda>(c, v). (rename a b c, v))) (rows_of d m) else rows_of d m)"
proof -
  have "map_of (map (\<lambda>(k, t). (k, f k t)) ts) m = map_option (f m) (map_of ts m)" for f :: "string \<Rightarrow> rel \<Rightarrow> rel" and ts
    by (induction ts) auto
  then show ?thesis by (simp add: rows_of_def rename_column_def rename_in_table_def split: option.splits)
qed

lemma rows_drop_column: "rows_of (drop_column n c t d) m = (if m = n then map (filter (\<lambda>(k, v). k \<noteq> c)) (tb_rows t) else rows_of d m)"
  by (simp add: drop_column_def)

lemma add_constraint_rows: "add_constraint n c d = Inr d' \<Longrightarrow> rows_of d' m = rows_of d m"
  by (auto simp: add_constraint_def with_table_def Let_def split: option.splits if_splits) (auto simp: rows_of_def)

lemmas row_effects = with_table_def rows_rename rows_drop_column add_constraint_rows Let_def

lemma rows_kept: "exec_op cn x d = Inr d' \<Longrightarrow> \<not> touches x m \<Longrightarrow> rows_of d' m = rows_of d m"
proof (cases x)
  case (Drop_constraint p k n)
  then show "exec_op cn x d = Inr d' \<Longrightarrow> \<not> touches x m \<Longrightarrow> ?thesis"
    by (cases k) (auto simp: row_effects split: option.splits if_splits, auto simp: rows_of_def)
qed (auto simp: row_effects split: option.splits if_splits, (auto simp: rows_of_def)?)

lemma empty_stays: "exec_op cn x d = Inr d' \<Longrightarrow> rows_of d m = [] \<Longrightarrow> rows_of d' m = []"
proof (cases "touches x m")
  case True
  then show "exec_op cn x d = Inr d' \<Longrightarrow> rows_of d m = [] \<Longrightarrow> ?thesis"
    by (cases x) (auto simp: row_effects split: option.splits if_splits, auto simp: rows_of_def)
qed (simp add: rows_kept)

section \<open>Runs that stay clear of the filled tables\<close>

text \<open>Operations that rows in the tables \<open>F\<close> cannot forbid when all other tables are empty.\<close>

fun clear_of :: "string list \<Rightarrow> op \<Rightarrow> bool" where
  "clear_of F (Create_index p i n items uq) = (\<not> uq \<or> n \<notin> set F)"
| "clear_of F (Add_column p n c) = (cl_nullable c \<or> n \<notin> set F \<or> (case cl_default c of None \<Rightarrow> False | Some v \<Rightarrow> v \<noteq> Literal VNull))"
| "clear_of F (Set_nullable p n c b) = (b \<or> n \<notin> set F)"
| "clear_of F (Create_foreign_key p k n s cs rs od) = (n \<notin> set F)"
| "clear_of F (Create_check p k n e) = (n \<notin> set F)"
| "clear_of F (Update_rows n f) = (n \<notin> set F)"
| "clear_of F _ = True"

definition empty_but :: "string list \<Rightarrow> db \<Rightarrow> bool" where
  "empty_but F d \<longleftrightarrow> (\<forall>n. n \<notin> set F \<longrightarrow> rows_of d n = [])"

lemma no_twins_Nil [simp]: "list_all (\<lambda>cs. no_twins cs []) css"
  by (simp add: list_all_iff)

lemma empty_butD: "empty_but F d \<Longrightarrow> n \<notin> set F \<Longrightarrow> rows_of d n = []"
  by (simp add: empty_but_def)

lemma empty_but_table: "empty_but F d \<Longrightarrow> n \<notin> set F \<Longrightarrow> map_of (db_tables d) n = Some t \<Longrightarrow> tb_rows t = []"
  using empty_butD [of F d n] by (simp add: rows_of_def)

lemma clear_data_ok:
  assumes "clear_of F x" "empty_but F d"
  shows "data_ok cn x d"
proof (cases x)
  case (Add_column p n c)
  have "v \<noteq> Literal VNull \<Longrightarrow> default_value cn (Some v) \<noteq> VNull" for v by (cases v) auto
  then show ?thesis using Add_column assms empty_butD by (auto split: option.splits)
qed (use assms in \<open>auto simp: admits_def admits_update_def Let_def list.pred_True empty_butD empty_but_table split: option.splits\<close>)

lemma run_clear:
  assumes "run_ops cn xs (shape d) = Inr s" "list_all (clear_of F) xs" "empty_but F d"
  shows "\<exists>d'. run_ops cn xs d = Inr d' \<and> shape d' = s \<and> empty_but F d' \<and>
    (\<forall>m. list_all (\<lambda>x. \<not> touches x m) xs \<longrightarrow> rows_of d' m = rows_of d m)"
  using assms
proof (induction xs arbitrary: d)
  case (Cons x xs)
  obtain s1 where s1: "exec_op cn x (shape d) = Inr s1" "run_ops cn xs s1 = Inr s"
    using Cons.prems(1) by (auto split: sum.splits)
  obtain d1 where d1: "exec_op cn x d = Inr d1" "shape d1 = s1"
    using exec_op_progress [OF s1(1) clear_data_ok] Cons.prems(2,3) by auto
  have "empty_but F d1" using empty_stays [OF d1(1)] Cons.prems(3) by (simp add: empty_but_def)
  then obtain d' where d': "run_ops cn xs d1 = Inr d'" "shape d' = s" "empty_but F d'"
    "\<forall>m. list_all (\<lambda>x. \<not> touches x m) xs \<longrightarrow> rows_of d' m = rows_of d1 m"
    using Cons.IH [of d1] Cons.prems(2) s1(2) d1(2) by auto
  then show ?case using d1(1) rows_kept [OF d1(1)] by auto
qed simp

lemma run_ops_append: "run_ops cn (xs @ ys) d = (case run_ops cn xs d of Inl e \<Rightarrow> Inl e | Inr d' \<Rightarrow> run_ops cn ys d')"
  by (induction xs arbitrary: d) (auto split: sum.splits)

lemma run_ops_shape: "run_ops cn xs d = Inr d' \<Longrightarrow> run_ops cn xs (shape d) = Inr (shape d')"
proof (induction xs arbitrary: d)
  case (Cons x xs)
  then obtain e where "exec_op cn x d = Inr e" "run_ops cn xs e = Inr d'" by (auto split: sum.splits)
  then show ?case using Cons.IH exec_op_shape by fastforce
qed simp

section \<open>Inserting rows\<close>

lemma unique_rules_shape: "unique_rules d n t = unique_rules (shape d) n (blank t)"
  by (simp add: unique_rules_def)

lemma table_of_shape:
  assumes "map_of (db_tables (shape d)) n = Some T"
  shows "\<exists>t. map_of (db_tables d) n = Some t \<and> tb_columns t = tb_columns T \<and> tb_constraints t = tb_constraints T"
  using assms by (auto simp: map_of_shape)

lemma shape_refill: "map_of (db_tables d) n = Some t \<Longrightarrow> blank t' = blank t \<Longrightarrow> shape (set_table n t' d) = shape d"
proof -
  assume t: "map_of (db_tables d) n = Some t" "blank t' = blank t"
  have "map_of ts n = Some x \<Longrightarrow> put n x ts = ts" for ts :: "(string \<times> rel) list" and x by (induction ts) auto
  then have "put n (blank t) (db_tables (shape d)) = db_tables (shape d)" using t(1) by (simp add: map_of_shape)
  then have "set_table n (blank t) (shape d) = shape d" by (simp add: set_table_def)
  then show ?thesis using t(2) by simp
qed

lemma shape_of_insert: "insert_into cn n r d = Inr (q, d') \<Longrightarrow> shape d' = shape d"
  by (auto simp: insert_into_def Let_def shape_refill simp del: shape_set_table split: if_splits option.splits)

end
