(* ===== verification/Migration_Runs.thy ===== *)
theory Migration_Runs
  imports Migrations Schema_Shape
begin

text \<open>
  Properties of the migration runs.  The shape of a database is what remains when its rows are
  dropped; every schema operation acts on the shape alone, so the shape after a successful run is
  that of the run on an empty database, which is computed.
\<close>

section \<open>Failing runs change nothing\<close>

lemma transaction_error: "fst (transaction f s) = Some e \<Longrightarrow> transaction f s = (Some e, s)"
  by (auto simp: transaction_def split: sum.splits)

text \<open>
  The migrations need the search path.  On a connection whose search path does not reach the
  schema, the upgrade of a new database ends with an undefined table and leaves the server as it was.
\<close>

theorem upgrade_needs_search_path:
  "upgrade_head \<lparr>cn_now = t, cn_path = False\<rparr> new_server = (Some Undefined_table, new_server)"
  unfolding upgrade_head_def
proof (rule transaction_error)
  show "fst (transaction (step_up (length REVISIONS) \<lparr>cn_now = t, cn_path = False\<rparr>) new_server) = Some Undefined_table"
    by code_simp
qed

section \<open>Downgrades\<close>

definition masked_revision :: nat where "masked_revision = 9"

lemma revision_ids:
  "map rv_id REVISIONS =
     [''56924e17cf24'', ''281a3d0a1495'', ''3d16cb2b60e7'', ''4a7f8b1c0d92'', ''5b0c2e3f4a01'', ''6c1d3f4a5b02'',
      ''ff6df8c4d0ad'', ''7d2e9a8b3c14'', ''2401f4a8d84b'', ''5a885a8844a1'', ''8e1f5d2a9c30'', ''9f3a7c2e1b40'',
      ''9f3a7c2e1b41'', ''a1b2c3d4e5f6'', ''b2c3d4e5f6a7'', ''c3d4e5f6a7b8'', ''d4e5f6a7b8c9'', ''e5f6a7b8c9d0'']"
  by (simp add: REVISIONS_def)

lemma distinct_ids: "distinct (map rv_id REVISIONS)"
  unfolding revision_ids by code_simp

lemma revision_links: "map rv_down REVISIONS = None # map Some (butlast (map rv_id REVISIONS))"
  by (simp add: REVISIONS_def)

lemma length_revisions: "length REVISIONS = 18"
  by (simp add: REVISIONS_def)

lemma find_by_id:
  assumes "distinct (map f xs)" "i < length xs"
  shows "find (\<lambda>r. f r = f (xs ! i)) xs = Some (xs ! i)"
  using assms
proof (induction xs arbitrary: i)
  case (Cons x xs)
  show ?case
  proof (cases i)
    case (Suc j)
    then have "f (xs ! j) \<in> set (map f xs)" using Cons.prems(2) by simp
    then have "f x \<noteq> f (xs ! j)" using Cons.prems(1) by (metis distinct.simps(2) list.simps(9))
    then show ?thesis using Cons Suc by simp
  qed simp
qed simp

lemma revision_found: "i < 18 \<Longrightarrow> find (\<lambda>r. Some (rv_id r) = Some (rv_id (REVISIONS ! i))) REVISIONS = Some (REVISIONS ! i)"
  using find_by_id [OF distinct_ids, of i] by (simp add: length_revisions)

lemma revision_down: "Suc i < 18 \<Longrightarrow> rv_down (REVISIONS ! Suc i) = Some (rv_id (REVISIONS ! i))"
proof -
  assume i: "Suc i < 18"
  then have "rv_down (REVISIONS ! Suc i) = map rv_down REVISIONS ! Suc i" by (simp add: length_revisions)
  also have "\<dots> = Some (rv_id (REVISIONS ! i))"
    using i by (simp add: revision_links nth_butlast length_revisions)
  finally show ?thesis .
qed

lemma masked_downgrade: "rv_downgrade (REVISIONS ! masked_revision) cn d = Inl Unnamed_constraint"
  by (simp add: REVISIONS_def masked_revision_def downgrade_5a885a8844a1_def)

definition version_at :: "nat \<Rightarrow> string option" where
  "version_at i = (if i = 0 then None else Some (rv_id (REVISIONS ! (i - 1))))"

lemma version_at_inj: "i \<le> 18 \<Longrightarrow> j \<le> 18 \<Longrightarrow> version_at i = version_at j \<longleftrightarrow> i = j"
proof -
  assume "i \<le> 18" "j \<le> 18"
  then show ?thesis
    using distinct_ids nth_eq_iff_index_eq [OF distinct_ids, of "i - 1" "j - 1"]
    by (auto simp: version_at_def length_revisions)
qed

lemma down_version: "i < 18 \<Longrightarrow> rv_down (REVISIONS ! i) = version_at i"
  using revision_down [of "i - 1"] by (cases i) (simp_all add: version_at_def REVISIONS_def)

lemma step_down_stuck:
  assumes "masked_revision < i" "i \<le> 18" "j \<le> masked_revision" "i - masked_revision \<le> k" "sv_version s = version_at i"
  shows "\<exists>e. step_down k (version_at j) cn s = Inl e"
  using assms
proof (induction k arbitrary: i s)
  case (Suc k)
  let ?r = "REVISIONS ! (i - 1)"
  have ne: "sv_version s \<noteq> version_at j"
    using Suc.prems by (simp add: version_at_inj masked_revision_def)
  have found: "find (\<lambda>r. Some (rv_id r) = sv_version s) REVISIONS = Some ?r"
    using Suc.prems revision_found [of "i - 1"] by (simp add: version_at_def masked_revision_def)
  show ?case
  proof (cases "i - 1 = masked_revision")
    case True
    then show ?thesis using ne found masked_downgrade by simp
  next
    case False
    have down: "rv_down ?r = version_at (i - 1)" using Suc.prems down_version [of "i - 1"] by (simp add: masked_revision_def)
    show ?thesis
    proof (cases "rv_downgrade ?r cn (sv_db s)")
      case (Inr d)
      have "\<exists>e. step_down k (version_at j) cn \<lparr>sv_db = d, sv_version = rv_down ?r\<rparr> = Inl e"
        using Suc.IH [of "i - 1" "\<lparr>sv_db = d, sv_version = rv_down ?r\<rparr>"] Suc.prems False down by (simp add: masked_revision_def)
      then show ?thesis using ne found Inr by simp
    qed (use ne found in simp)
  qed
qed simp

text \<open>
  C37: no way back below the masked artifacts.  A database at or above that revision, whatever its
  tables and rows, cannot be downgraded to an earlier one: the run fails and changes nothing, because
  the downgrade asks for a foreign key to be dropped without naming it.
\<close>

theorem downgrade_stuck:
  assumes "masked_revision < i" "i \<le> 18" "j \<le> masked_revision" "sv_version s = version_at i"
  shows "\<exists>e. downgrade_to (version_at j) cn s = (Some e, s)"
proof -
  have "i - masked_revision \<le> length REVISIONS" using assms(2) by (simp add: length_revisions masked_revision_def)
  then obtain e where "step_down (length REVISIONS) (version_at j) cn s = Inl e"
    using step_down_stuck [OF assms(1,2,3) _ assms(4)] by blast
  then show ?thesis by (simp add: downgrade_to_def transaction_def)
qed

theorem downgrade_stuck_witness:
  "\<exists>e. downgrade_to None \<lparr>cn_now = 0, cn_path = True\<rparr> \<lparr>sv_db = no_db, sv_version = Some ''5a885a8844a1''\<rparr> =
     (Some e, \<lparr>sv_db = no_db, sv_version = Some ''5a885a8844a1''\<rparr>)"
  using downgrade_stuck [of 10 0 "\<lparr>sv_db = no_db, sv_version = Some ''5a885a8844a1''\<rparr>" "\<lparr>cn_now = 0, cn_path = True\<rparr>"]
  by (simp add: version_at_def masked_revision_def REVISIONS_def)

section \<open>The default deny list\<close>

definition text_cell :: "row \<Rightarrow> string \<Rightarrow> ustr option" where
  "text_cell r c = (case cell r c of VText t \<Rightarrow> Some t | _ \<Rightarrow> None)"

text \<open>The rows of the table as the cache of \<open>Blocklist\<close> reads them.\<close>

definition block_row_of :: "row \<Rightarrow> block_row" where
  "block_row_of r =
     \<lparr>bl_id = (case cell r ''id'' of VInt i \<Rightarrow> nat i | _ \<Rightarrow> 0), bl_extension = text_cell r ''extension'', bl_mime_type = text_cell r ''mime_type'',
      bl_reason = (case text_cell r ''reason'' of Some t \<Rightarrow> t | None \<Rightarrow> []), bl_enabled = (cell r ''enabled'' = VBool True)\<rparr>"

definition migrated_blocklist :: "db \<Rightarrow> block_state" where
  "migrated_blocklist d =
     snd (reload_blocklist True \<lparr>bs_rows = map block_row_of (rows_of d ''attachment_blocklist''), bs_next_id = 1, bs_extensions = [], bs_mimes = []\<rparr>)"

lemma map_of_keyed: "y \<in> k ` set xs \<Longrightarrow> (\<And>c. c \<in> set xs \<Longrightarrow> k c = y \<Longrightarrow> f c = w) \<Longrightarrow> map_of (map (\<lambda>c. (k c, f c)) xs) y = Some w"
  by (induction xs) auto

lemma insert_into_rows:
  assumes "insert_into cn n r d = Inr (q, d')"
  shows "rows_of d' n = rows_of d n @ [q]"
    and "c \<in> fst ` set r \<Longrightarrow> cell q c = cell r c"
proof -
  obtain t where t: "map_of (db_tables d) n = Some t"
    using assms by (auto simp: insert_into_def split: option.splits)
  with assms have q: "q = complete_row cn t r" and sub: "fst ` set r \<subseteq> set (columns_of t)"
    and d': "d' = set_table n (t\<lparr>tb_rows := tb_rows t @ [q], tb_next := tb_next t + 1\<rparr>) d"
    by (auto simp: insert_into_def Let_def split: if_splits option.splits)
  show "rows_of d' n = rows_of d n @ [q]" using t d' by (simp add: rows_of_def map_of_set_table)
  assume "c \<in> fst ` set r"
  then obtain v where v: "map_of r c = Some v" by (metis map_of_eq_None_iff not_None_eq)
  have "c \<in> set (columns_of t)" using sub \<open>c \<in> fst ` set r\<close> by blast
  then have "map_of q c = Some v"
    unfolding q complete_row_def columns_of_def by (intro map_of_keyed) (use v in auto)
  then show "cell q c = cell r c" using v by (simp add: cell_def)
qed

lemma bulk_insert_rows:
  assumes "bulk_insert cn n rs d = Inr d'" "r \<in> set rs"
  shows "\<exists>q \<in> set (rows_of d' n). \<forall>c \<in> fst ` set r. cell q c = cell r c"
proof -
  have keep: "bulk_insert cn n rs d = Inr d' \<Longrightarrow> set (rows_of d n) \<subseteq> set (rows_of d' n)" for rs d
  proof (induction rs arbitrary: d)
    case (Cons a rs)
    then obtain q e where "insert_into cn n a d = Inr (q, e)" "bulk_insert cn n rs e = Inr d'"
      by (auto split: sum.splits)
    then show ?case using Cons.IH [of e] insert_into_rows(1) [of cn n a d q e] by auto
  qed simp
  show ?thesis
    using assms
  proof (induction rs arbitrary: d)
    case (Cons a rs)
    then obtain q e where q: "insert_into cn n a d = Inr (q, e)" "bulk_insert cn n rs e = Inr d'"
      by (auto split: sum.splits)
    show ?case
    proof (cases "r = a")
      case True
      have "q \<in> set (rows_of d' n)" using keep [OF q(2)] insert_into_rows(1) [OF q(1)] by auto
      then show ?thesis using insert_into_rows(2) [OF q(1)] True by blast
    qed (use Cons q in auto)
  qed simp
qed

lemma seed_extensions_alnum: "list_all (\<lambda>(ext, m, r). case ext of None \<Rightarrow> False | Some e \<Rightarrow> e \<noteq> [] \<and> list_all ascii_alnum e) SEED"
  by (simp add: SEED_def u_def ascii_alnum_def)

text \<open>
  C40: the seeded deny list is in force.  Whenever the last revision runs through, a cache loaded from
  the migrated table refuses every file name that ends in one of the seeded extensions, in any letter
  case and whatever its declared type.
\<close>

theorem seeded_formats_blocked:
  assumes "upgrade_e5f6a7b8c9d0 cn d = Inr d'" "(Some ext, m, reason) \<in> set SEED"
    and "list_all ascii_alnum e" "lower e = lower ext"
  shows "fst (is_blocked (migrated_blocklist d') (stem @ 46 # e) mime)"
proof -
  have ext: "ext \<noteq> []" "list_all ascii_alnum ext"
    using seed_extensions_alnum assms(2) by (auto simp: list_all_iff)
  obtain d1 where "bulk_insert cn ''attachment_blocklist'' (map block_seed_row SEED) d1 = Inr d'"
    using assms(1) by (auto simp: upgrade_e5f6a7b8c9d0_def split: sum.splits)
  then obtain q where q: "q \<in> set (rows_of d' ''attachment_blocklist'')"
    "\<forall>c \<in> fst ` set (block_seed_row (Some ext, m, reason)). cell q c = cell (block_seed_row (Some ext, m, reason)) c"
    using bulk_insert_rows [of cn _ _ d1 d' "block_seed_row (Some ext, m, reason)"] assms(2) by force
  then have "bl_extension (block_row_of q) = Some ext" "bl_enabled (block_row_of q)"
    by (simp_all add: block_row_of_def text_cell_def block_seed_row_def cell_def)
  then have "row_blocks (block_row_of q) (stem @ 46 # e) mime"
    using ext assms(3,4) lower_alnum(3) by (auto simp: row_blocks_def truthy_def norm_ext_file norm_ext_alnum)
  moreover have "coherent (migrated_blocklist d')" by (simp add: migrated_blocklist_def reload_coherent)
  moreover have "block_row_of q \<in> set (bs_rows (migrated_blocklist d'))"
    using q(1) by (simp add: migrated_blocklist_def reload_blocklist_def Let_def)
  ultimately show ?thesis by (auto simp: is_blocked_coherent)
qed

end
