(* ===== verification/Migration_Stages.thy ===== *)
theory Migration_Stages
  imports Migration_Runs
begin

text \<open>
  The shapes of the database between the revisions, evaluated on a database without rows, and the
  pattern and history tables as the data migrations find them.
\<close>

section \<open>The shapes between the revisions\<close>

definition DDL :: "op list list" where
  "DDL = [upgrade_56924e17cf24, upgrade_281a3d0a1495, upgrade_3d16cb2b60e7, [], upgrade_5b0c2e3f4a01, [], upgrade_ff6df8c4d0ad,
     upgrade_7d2e9a8b3c14, upgrade_2401f4a8d84b, upgrade_5a885a8844a1, upgrade_8e1f5d2a9c30, upgrade_9f3a7c2e1b40,
     upgrade_9f3a7c2e1b41, upgrade_a1b2c3d4e5f6, upgrade_b2c3d4e5f6a7, upgrade_c3d4e5f6a7b8, upgrade_d4e5f6a7b8c9, create_blocklist]"

definition link :: "int \<Rightarrow> conn" where "link t = \<lparr>cn_now = t, cn_path = True\<rparr>"

definition stage :: "int \<Rightarrow> nat \<Rightarrow> db" where
  "stage t k = projr (run_ops (link t) (concat (take k DDL)) no_db)"

lemma ddl_runs: "\<not> isl (run_ops (link t) (concat DDL) no_db)"
  by code_simp

lemma head_shape: "matches_models (stage t 18)"
  by code_simp

lemma stage_step: "k < 18 \<Longrightarrow> run_ops (link t) (DDL ! k) (stage t k) = Inr (stage t (Suc k))"
proof -
  assume k: "k < 18"
  have len: "length DDL = 18" by (simp add: DDL_def)
  have all: "concat DDL = concat (take (Suc k) DDL) @ concat (drop (Suc k) DDL)" by (metis append_take_drop_id concat_append)
  obtain d where d: "run_ops (link t) (concat (take (Suc k) DDL)) no_db = Inr d"
    using ddl_runs [of t] unfolding all run_ops_append by (auto split: sum.splits)
  have "concat (take (Suc k) DDL) = concat (take k DDL) @ DDL ! k" using k len by (simp add: take_Suc_conv_app_nth)
  with d obtain c where "run_ops (link t) (concat (take k DDL)) no_db = Inr c" "run_ops (link t) (DDL ! k) c = Inr d"
    by (auto simp: run_ops_append split: sum.splits)
  then show ?thesis using d by (simp add: stage_def)
qed

lemma stage_0: "stage t 0 = no_db"
  by (simp add: stage_def)

definition PAT :: string where "PAT = ''pii_patterns''"
definition HIST :: string where "HIST = ''pii_pattern_history''"

definition pattern_columns :: "column list" where
  "pattern_columns =
     [serial ''id'' Integer, col ''entity_type'' (String 64), col ''pattern_name'' (String 128), col ''regex'' Text, col ''score'' Float,
      col ''context_words'' (ARRAY Text), col ''strictness'' (String 8), col ''enabled'' Boolean, col ''version'' Integer,
      col ''created_by'' (String 64), with_default ''created_at'' DateTime Now, with_default ''updated_at'' DateTime Now]"

definition pattern_constraints :: "constraint list" where
  "pattern_constraints =
     [Check ''ck_pii_patterns_strictness'' (One_of ''strictness'' [''low'', ''medium'', ''high'']),
      Check ''ck_pii_patterns_score'' (Both (At_least ''score'' 0) (At_most ''score'' 1)),
      Primary_key [''id''], Unique ''uq_pii_patterns_entity_name'' [''entity_type'', ''pattern_name'']]"

definition history_columns :: "column list" where
  "history_columns =
     [serial ''id'' Integer, nullable ''pattern_id'' Integer, col ''action'' (String 16), col ''snapshot'' Text,
      col ''changed_by'' (String 64), with_default ''changed_at'' DateTime Now, col ''original_pattern_id'' Integer]"

definition history_key :: constraint where
  "history_key = Foreign_key ''pii_pattern_history_pattern_id_fkey'' [''pattern_id''] ''pii_patterns'' [''id''] ''SET NULL''"

definition history_constraints :: "constraint list" where
  "history_constraints =
     [Check ''ck_pii_pattern_history_action'' (One_of ''action'' [''INSERT'', ''UPDATE'', ''DELETE'']), Primary_key [''id'']]"

text \<open>The two tables while the data migrations run, with no unique index beside their keys.\<close>

definition pattern_stage :: "db \<Rightarrow> bool" where
  "pattern_stage s \<longleftrightarrow>
     map_of (db_tables s) PAT = Some \<lparr>tb_columns = pattern_columns, tb_constraints = pattern_constraints, tb_rows = [], tb_next = 1\<rparr> \<and>
     map_of (db_tables s) HIST = Some \<lparr>tb_columns = history_columns, tb_constraints = history_constraints @ [history_key], tb_rows = [], tb_next = 1\<rparr> \<and>
     filter (\<lambda>i. ix_unique i \<and> (ix_table i = PAT \<or> ix_table i = HIST)) (db_indexes s) = []"

lemma stage_3: "pattern_stage (stage t 3)"
  unfolding PAT_def HIST_def by code_simp

lemma stage_5: "pattern_stage (stage t 5)"
  by code_simp

definition jobs_start :: "op list" where "jobs_start = take 3 upgrade_2401f4a8d84b"
definition artifacts_start :: "op list" where "artifacts_start = take 4 upgrade_5a885a8844a1"
definition modes_start :: "op list" where "modes_start = take 5 upgrade_9f3a7c2e1b40"
definition modes_end :: "op list" where "modes_end = drop 9 upgrade_9f3a7c2e1b40"

lemma before_keys:
  "case run_ops (link t) jobs_start (stage t 8) of Inl e \<Rightarrow> False | Inr s \<Rightarrow> pattern_stage s"
  "case run_ops (link t) artifacts_start (stage t 9) of Inl e \<Rightarrow> False | Inr s \<Rightarrow> pattern_stage s"
  "case run_ops (link t) modes_start (stage t 11) of Inl e \<Rightarrow> False | Inr s \<Rightarrow> pattern_stage s"
  by code_simp+

definition deny_columns :: "column list" where
  "deny_columns =
     [serial ''id'' Integer, nullable ''extension'' (String 32), nullable ''mime_type'' (String 100),
      with_default ''reason'' (String 200) (Literal (VText [])), with_default ''enabled'' Boolean (Literal (VBool True)),
      with_default ''created_at'' DateTime Now]"

definition deny_constraints :: "constraint list" where
  "deny_constraints =
     [Check ''ck_attachment_blocklist_match_required'' (Any (Not_null ''extension'') (Not_null ''mime_type'')), Primary_key [''id'']]"

definition deny_stage :: "db \<Rightarrow> bool" where
  "deny_stage s \<longleftrightarrow>
     map_of (db_tables s) ''attachment_blocklist'' = Some \<lparr>tb_columns = deny_columns, tb_constraints = deny_constraints, tb_rows = [], tb_next = 1\<rparr> \<and>
     filter (\<lambda>i. ix_unique i \<and> ix_table i = ''attachment_blocklist'') (db_indexes s) = []"

lemma stage_18: "deny_stage (stage t 18)"
  by code_simp

end
