(* ===== verification/Migration_Head.thy ===== *)
theory Migration_Head
  imports Migration_Stages
begin

text \<open>
  The upgrade of an empty database.  The two data migrations are followed by an invariant on the
  pattern and history rows, which the later changes of those tables need; the remaining revisions
  stay clear of the filled tables and so go from one evaluated shape to the next.
\<close>

section \<open>Rows of the data migrations\<close>

definition pattern_row :: "int \<Rightarrow> int \<times> seed \<times> bool \<times> int \<Rightarrow> row" where
  "pattern_row t x = (case x of (i, p, on, v) \<Rightarrow>
     [(''id'', VInt i), (''entity_type'', VText (u (sd_entity_type p))), (''pattern_name'', VText (u (sd_pattern_name p))),
      (''regex'', VText (sd_regex p)), (''score'', VDec (fst (sd_score p)) (snd (sd_score p))), (''context_words'', VTexts (sd_context_words p)),
      (''strictness'', VText (u ''medium'')), (''enabled'', VBool on), (''version'', VInt v), (''created_by'', VText (u ''system:seed'')),
      (''created_at'', VTime t), (''updated_at'', VTime t)])"

definition change_row :: "int \<Rightarrow> int \<times> int \<times> string \<times> ustr \<times> string \<Rightarrow> row" where
  "change_row t x = (case x of (i, p, a, s, b) \<Rightarrow>
     [(''id'', VInt i), (''pattern_id'', VInt p), (''action'', VText (u a)), (''snapshot'', VText s), (''changed_by'', VText (u b)),
      (''changed_at'', VTime t), (''original_pattern_id'', VInt p)])"

definition seed_ok :: "seed \<Rightarrow> bool" where
  "seed_ok p \<longleftrightarrow> length (sd_entity_type p) \<le> 64 \<and> length (sd_pattern_name p) \<le> 128 \<and>
     0 \<le> fst (sd_score p) \<and> fst (sd_score p) \<le> 10 ^ snd (sd_score p)"

definition pattern_key :: "int \<times> seed \<times> bool \<times> int \<Rightarrow> string \<times> string" where
  "pattern_key x = (case x of (i, p, on, v) \<Rightarrow> (sd_entity_type p, sd_pattern_name p))"

text \<open>What is known of the rows: keys are distinct, ids are below the sequence, changes refer to patterns.\<close>

definition patterns_ok :: "int \<Rightarrow> (int \<times> seed \<times> bool \<times> int) list \<Rightarrow> bool" where
  "patterns_ok k ps \<longleftrightarrow> list_all (\<lambda>(i, p, on, v). i < k \<and> seed_ok p) ps \<and> distinct (map fst ps) \<and> distinct (map pattern_key ps)"

definition changes_ok :: "int set \<Rightarrow> int \<Rightarrow> (int \<times> int \<times> string \<times> ustr \<times> string) list \<Rightarrow> bool" where
  "changes_ok ids k hs \<longleftrightarrow>
     list_all (\<lambda>(i, p, a, s, b). i < k \<and> p \<in> ids \<and> (a = ''INSERT'' \<or> a = ''UPDATE'') \<and> length b \<le> 64) hs"

definition seeded :: "int \<Rightarrow> db \<Rightarrow> bool" where
  "seeded t d \<longleftrightarrow> empty_but [PAT, HIST] d \<and>
     (\<exists>tp th ps hs. map_of (db_tables d) PAT = Some tp \<and> map_of (db_tables d) HIST = Some th \<and>
        tb_rows tp = map (pattern_row t) ps \<and> patterns_ok (tb_next tp) ps \<and>
        tb_rows th = map (change_row t) hs \<and> changes_ok (fst ` set ps) (tb_next th) hs)"

lemma pattern_cells [simp]:
  "cell (pattern_row t (i, p, on, v)) ''id'' = VInt i"
  "cell (pattern_row t (i, p, on, v)) ''entity_type'' = VText (u (sd_entity_type p))"
  "cell (pattern_row t (i, p, on, v)) ''pattern_name'' = VText (u (sd_pattern_name p))"
  "cell (pattern_row t (i, p, on, v)) ''regex'' = VText (sd_regex p)"
  "cell (pattern_row t (i, p, on, v)) ''score'' = VDec (fst (sd_score p)) (snd (sd_score p))"
  "cell (pattern_row t (i, p, on, v)) ''context_words'' = VTexts (sd_context_words p)"
  "cell (pattern_row t (i, p, on, v)) ''strictness'' = VText (u ''medium'')"
  "cell (pattern_row t (i, p, on, v)) ''enabled'' = VBool on"
  "cell (pattern_row t (i, p, on, v)) ''version'' = VInt v"
  "cell (pattern_row t (i, p, on, v)) ''created_by'' = VText (u ''system:seed'')"
  "cell (pattern_row t (i, p, on, v)) ''created_at'' = VTime t"
  "cell (pattern_row t (i, p, on, v)) ''updated_at'' = VTime t"
  by (simp_all add: cell_def pattern_row_def)

lemma change_cells [simp]:
  "cell (change_row t (i, p, a, s, b)) ''id'' = VInt i"
  "cell (change_row t (i, p, a, s, b)) ''pattern_id'' = VInt p"
  "cell (change_row t (i, p, a, s, b)) ''action'' = VText (u a)"
  "cell (change_row t (i, p, a, s, b)) ''snapshot'' = VText s"
  "cell (change_row t (i, p, a, s, b)) ''changed_by'' = VText (u b)"
  "cell (change_row t (i, p, a, s, b)) ''changed_at'' = VTime t"
  "cell (change_row t (i, p, a, s, b)) ''original_pattern_id'' = VInt p"
  by (simp_all add: cell_def change_row_def)

lemmas column_defs = col_def nullable_def serial_def with_default_def

lemma score_checks:
  assumes "seed_ok p"
  shows "compare_with (\<lambda>x. 0 \<le> x) (VDec (fst (sd_score p)) (snd (sd_score p))) = Some True"
    and "compare_with (\<lambda>x. x \<le> 1) (VDec (fst (sd_score p)) (snd (sd_score p))) = Some True"
proof -
  have "of_int (fst (sd_score p)) \<le> (of_int (10 ^ snd (sd_score p)) :: rat)" using assms unfolding seed_ok_def of_int_le_iff by blast
  then show "compare_with (\<lambda>x. x \<le> 1) (VDec (fst (sd_score p)) (snd (sd_score p))) = Some True"
    by (simp add: compare_with_def divide_le_eq_1)
qed (use assms in \<open>simp add: compare_with_def seed_ok_def\<close>)

lemma pattern_row_fits:
  assumes "tb_columns tp = pattern_columns" "tb_constraints tp = pattern_constraints" "seed_ok p"
  shows "row_error d tp (pattern_row t (i, p, on, v)) = None"
  using assms score_checks [OF assms(3)]
  by (auto simp: row_error_def pattern_columns_def pattern_constraints_def column_defs seed_ok_def referenced_def)

lemma change_row_fits:
  assumes "tb_columns th = history_columns" "set (tb_constraints th) \<subseteq> set (history_constraints @ [history_key])"
    and "a = ''INSERT'' \<or> a = ''UPDATE''" "length b \<le> 64"
    and "map_of (db_tables d) PAT = Some tp" "tb_rows tp = map (pattern_row t) ps" "p \<in> fst ` set ps"
  shows "row_error d th (change_row t (i, p, a, s, b)) = None"
proof -
  have "referenced d (change_row t (i, p, a, s, b)) history_key"
    using assms(5-7) by (force simp: referenced_def history_key_def PAT_def list_ex_iff)
  then have "list_all (referenced d (change_row t (i, p, a, s, b))) (tb_constraints th)"
    using assms(2) by (auto simp: list_all_iff history_constraints_def referenced_def)
  moreover have "\<not> list_ex (\<lambda>c. case c of Check n e \<Rightarrow> check_value (change_row t (i, p, a, s, b)) e = Some False | _ \<Rightarrow> False) (tb_constraints th)"
    using assms(2,3) by (auto simp: list_ex_iff history_constraints_def history_key_def)
  ultimately show ?thesis
    using assms(1,3,4) by (auto simp: row_error_def history_columns_def column_defs)
qed

section \<open>Inserting the default patterns\<close>

lemma pattern_stage_tables:
  assumes "pattern_stage (shape d)" "map_of (db_tables d) PAT = Some tp" "map_of (db_tables d) HIST = Some th"
  shows "tb_columns tp = pattern_columns" "tb_constraints tp = pattern_constraints"
    and "tb_columns th = history_columns" "tb_constraints th = history_constraints @ [history_key]"
    and "unique_rules d PAT tp = [[''id''], [''entity_type'', ''pattern_name'']]" "unique_rules d HIST th = [[''id'']]"
proof -
  have tp: "blank tp = \<lparr>tb_columns = pattern_columns, tb_constraints = pattern_constraints, tb_rows = [], tb_next = 1\<rparr>"
    and th: "blank th = \<lparr>tb_columns = history_columns, tb_constraints = history_constraints @ [history_key], tb_rows = [], tb_next = 1\<rparr>"
    and ix: "filter (\<lambda>i. ix_unique i \<and> (ix_table i = PAT \<or> ix_table i = HIST)) (db_indexes d) = []"
    using assms by (auto simp: pattern_stage_def map_of_shape)
  show cols: "tb_columns tp = pattern_columns" "tb_constraints tp = pattern_constraints"
    "tb_columns th = history_columns" "tb_constraints th = history_constraints @ [history_key]"
    using arg_cong [OF tp, of tb_columns] arg_cong [OF tp, of tb_constraints]
      arg_cong [OF th, of tb_columns] arg_cong [OF th, of tb_constraints] by simp_all
  have none: "filter (\<lambda>i. ix_unique i \<and> ix_table i = PAT) (db_indexes d) = []" "filter (\<lambda>i. ix_unique i \<and> ix_table i = HIST) (db_indexes d) = []"
    using ix by (auto simp: filter_empty_conv)
  show "unique_rules d PAT tp = [[''id''], [''entity_type'', ''pattern_name'']]" "unique_rules d HIST th = [[''id'']]"
    using cols none by (simp_all add: unique_rules_def keys_of_def pattern_constraints_def history_constraints_def history_key_def)
qed

lemma completed_seed: "tb_columns tp = pattern_columns \<Longrightarrow> complete_row (link t) tp (seed_row p) = pattern_row t (tb_next tp, p, True, 1)"
  by (simp add: complete_row_def pattern_columns_def column_defs seed_row_def pattern_row_def link_def)

lemma completed_change:
  "tb_columns th = history_columns \<Longrightarrow> cell r ''id'' = VInt i \<Longrightarrow>
   complete_row (link t) th (history_row r a b) = change_row t (tb_next th, i, a, snapshot r, b)"
  by (simp add: complete_row_def history_columns_def column_defs history_row_def change_row_def link_def)

lemma fresh_pattern_id: "patterns_ok (tb_next tp) ps \<Longrightarrow> tb_rows tp = map (pattern_row t) ps \<Longrightarrow>
  \<not> clashes [''id''] tp (pattern_row t (tb_next tp, p, on, v))"
  by (auto simp: clashes_def same_key_def list_ex_iff patterns_ok_def list_all_iff)

lemma fresh_change_id: "changes_ok ids (tb_next th) hs \<Longrightarrow> tb_rows th = map (change_row t) hs \<Longrightarrow>
  \<not> clashes [''id''] th (change_row t (tb_next th, p, a, s, b))"
  by (auto simp: clashes_def same_key_def list_ex_iff changes_ok_def list_all_iff)

lemma changes_ok_mono: "changes_ok ids k hs \<Longrightarrow> ids \<subseteq> ids' \<Longrightarrow> k \<le> k' \<Longrightarrow> changes_ok ids' k' hs"
  by (fastforce simp: changes_ok_def list_all_iff)

lemma PAT_HIST [simp]: "PAT \<noteq> HIST" "HIST \<noteq> PAT"
  by (simp_all add: PAT_def HIST_def)

lemma record_change:
  assumes "pattern_stage (shape d)" "empty_but [PAT, HIST] d" "map_of (db_tables d) PAT = Some tp" "map_of (db_tables d) HIST = Some th"
    and "tb_rows tp = map (pattern_row t) ps" "patterns_ok (tb_next tp) ps"
    and "tb_rows th = map (change_row t) hs" "changes_ok (fst ` set ps) (tb_next th) hs"
    and "cell r ''id'' = VInt i" "i \<in> fst ` set ps" "a = ''INSERT'' \<or> a = ''UPDATE''" "length b \<le> 64"
  shows "\<exists>q d'. insert_into (link t) HIST (history_row r a b) d = Inr (q, d') \<and> shape d' = shape d \<and> seeded t d'"
proof -
  note st = pattern_stage_tables [OF assms(1,3,4)]
  let ?q = "change_row t (tb_next th, i, a, snapshot r, b)"
  let ?th = "th\<lparr>tb_rows := tb_rows th @ [?q], tb_next := tb_next th + 1\<rparr>"
  have sub: "fst ` set (history_row r a b) \<subseteq> set (columns_of th)"
    using st(3) by (simp add: history_row_def columns_of_def history_columns_def column_defs)
  have ins: "insert_into (link t) HIST (history_row r a b) d = Inr (?q, set_table HIST ?th d)"
    using assms(4) sub completed_change [OF st(3) assms(9)] change_row_fits [OF st(3) _ assms(11,12,3,5,10)] st(4,6)
      fresh_change_id [OF assms(8,7)] by (simp add: insert_into_def Let_def)
  have "seeded t (set_table HIST ?th d)"
    unfolding seeded_def
  proof (intro conjI exI)
    show "empty_but [PAT, HIST] (set_table HIST ?th d)" using assms(2) by (simp add: empty_but_def)
    show "map_of (db_tables (set_table HIST ?th d)) PAT = Some tp" "map_of (db_tables (set_table HIST ?th d)) HIST = Some ?th"
      using assms(3) by (simp_all add: map_of_set_table)
    show "tb_rows ?th = map (change_row t) (hs @ [(tb_next th, i, a, snapshot r, b)])" using assms(7) by simp
    show "changes_ok (fst ` set ps) (tb_next ?th) (hs @ [(tb_next th, i, a, snapshot r, b)])"
      using changes_ok_mono [OF assms(8) subset_refl, of "tb_next th + 1"] assms(10-12) by (simp add: changes_ok_def)
  qed (fact assms(5), fact assms(6))
  then show ?thesis using ins shape_of_insert by blast
qed

lemma seededE:
  assumes "seeded t d"
  obtains tp th ps hs where "empty_but [PAT, HIST] d" "map_of (db_tables d) PAT = Some tp" "map_of (db_tables d) HIST = Some th"
    "tb_rows tp = map (pattern_row t) ps" "patterns_ok (tb_next tp) ps" "tb_rows th = map (change_row t) hs" "changes_ok (fst ` set ps) (tb_next th) hs"
  using assms unfolding seeded_def by blast

lemma seed_step:
  assumes "pattern_stage (shape d)" "seeded t d" "seed_ok p"
  shows "\<exists>d'. insert_seeds (link t) (p # qs) d = insert_seeds (link t) qs d' \<and> shape d' = shape d \<and> seeded t d'"
proof -
  obtain tp th ps hs where d: "empty_but [PAT, HIST] d" "map_of (db_tables d) PAT = Some tp" "map_of (db_tables d) HIST = Some th"
    "tb_rows tp = map (pattern_row t) ps" "patterns_ok (tb_next tp) ps" "tb_rows th = map (change_row t) hs" "changes_ok (fst ` set ps) (tb_next th) hs"
    using assms(2) by (rule seededE)
  note st = pattern_stage_tables [OF assms(1) d(2,3)]
  let ?x = "(tb_next tp, p, True, 1 :: int)"
  have sub: "fst ` set (seed_row p) \<subseteq> set (columns_of tp)"
    using st(1) by (simp add: seed_row_def columns_of_def pattern_columns_def column_defs)
  have fit: "row_error d tp (pattern_row t ?x) = None" using pattern_row_fits [OF st(1,2) assms(3)] .
  show ?thesis
  proof (cases "clashes [''entity_type'', ''pattern_name''] tp (pattern_row t ?x)")
    case True
    let ?tp = "tp\<lparr>tb_next := tb_next tp + 1\<rparr>"
    have "insert_or_skip (link t) PAT [''entity_type'', ''pattern_name''] (seed_row p) d = Inr (None, set_table PAT ?tp d)"
      using d(2) sub fit True completed_seed [OF st(1)] by (simp add: insert_or_skip_def)
    moreover have "patterns_ok (tb_next ?tp) ps" using d(5) by (fastforce simp: patterns_ok_def list_all_iff)
    then have "seeded t (set_table PAT ?tp d)"
      using d by (auto simp: seeded_def map_of_set_table empty_but_def rows_of_def)
    ultimately show ?thesis using shape_refill [OF d(2)] by (auto simp: PAT_def)
  next
    case False
    let ?tp = "tp\<lparr>tb_rows := tb_rows tp @ [pattern_row t ?x], tb_next := tb_next tp + 1\<rparr>"
    let ?d = "set_table PAT ?tp d"
    have ins: "insert_or_skip (link t) PAT [''entity_type'', ''pattern_name''] (seed_row p) d = Inr (Some (pattern_row t ?x), ?d)"
      using d(2) sub fit False completed_seed [OF st(1)] fresh_pattern_id [OF d(5,4)] st(5)
      by (simp add: insert_or_skip_def insert_into_def Let_def)
    have sh: "shape ?d = shape d" using shape_refill [OF d(2)] by simp
    have new: "pattern_key ?x \<notin> pattern_key ` set ps" "tb_next tp \<notin> fst ` set ps"
      using False d(4,5) by (auto simp: clashes_def same_key_def list_ex_iff pattern_key_def patterns_ok_def list_all_iff)
    have "patterns_ok (tb_next tp + 1) (ps @ [?x])"
      using d(5) new assms(3) by (fastforce simp: patterns_ok_def list_all_iff)
    moreover have "changes_ok (fst ` set (ps @ [?x])) (tb_next th) hs" by (rule changes_ok_mono [OF d(7)]) auto
    ultimately obtain q d' where "insert_into (link t) HIST (history_row (pattern_row t ?x) ''INSERT'' ''system:seed'') ?d = Inr (q, d')"
      "shape d' = shape ?d" "seeded t d'"
      using record_change [of ?d ?tp th t "ps @ [?x]" hs "pattern_row t ?x" "tb_next tp" "''INSERT''" "''system:seed''"] assms(1) d sh
      by (auto simp: map_of_set_table empty_but_def)
    then show ?thesis using ins sh by (auto simp: PAT_def HIST_def)
  qed
qed

lemma seeds_inserted:
  "pattern_stage (shape d) \<Longrightarrow> seeded t d \<Longrightarrow> list_all seed_ok ps \<Longrightarrow>
   \<exists>d'. insert_seeds (link t) ps d = Inr d' \<and> shape d' = shape d \<and> seeded t d'"
proof (induction ps arbitrary: d)
  case (Cons p ps)
  obtain d1 where "insert_seeds (link t) (p # ps) d = insert_seeds (link t) ps d1" "shape d1 = shape d" "seeded t d1"
    using seed_step [of d t p ps] Cons.prems by auto
  then show ?case using Cons.IH [of d1] Cons.prems by auto
qed simp

lemma default_seeds_ok: "list_all seed_ok SEED_PATTERNS"
  by (simp add: SEED_PATTERNS_def SEED_PATTERNS_1_def SEED_PATTERNS_2_def seed_def seed_ok_def)

section \<open>Switching off the weak patterns\<close>

definition switch_off :: "int \<Rightarrow> int \<Rightarrow> int \<times> seed \<times> bool \<times> int \<Rightarrow> int \<times> seed \<times> bool \<times> int" where
  "switch_off i v x = (case x of (j, p, on, w) \<Rightarrow> if j = i then (j, p, False, v) else (j, p, on, w))"

definition off_row :: "int \<Rightarrow> int \<Rightarrow> row \<Rightarrow> row" where
  "off_row i v q = (if cell q ''id'' = VInt i then set_cell ''enabled'' (VBool False) (set_cell ''version'' (VInt v) q) else q)"

lemma switch_off_same: "fst (switch_off i v x) = fst x" "pattern_key (switch_off i v x) = pattern_key x"
  by (auto simp: switch_off_def pattern_key_def split: prod.split)

lemma off_pattern_row: "off_row i v (pattern_row t x) = pattern_row t (switch_off i v x)"
  by (cases x) (simp add: off_row_def switch_off_def, simp add: set_cell_def pattern_row_def)

lemma patterns_ok_switch: "patterns_ok k ps \<Longrightarrow> patterns_ok k (map (switch_off i v) ps)"
proof -
  assume "patterns_ok k ps"
  moreover have "map fst (map (switch_off i v) ps) = map fst ps" "map pattern_key (map (switch_off i v) ps) = map pattern_key ps"
    by (simp_all add: switch_off_same)
  moreover have "list_all (\<lambda>(i, p, on, w). i < k \<and> seed_ok p) ps \<Longrightarrow> list_all (\<lambda>(i, p, on, w). i < k \<and> seed_ok p) (map (switch_off i v) ps)"
    by (auto simp: list_all_iff switch_off_def split: if_splits)
  ultimately show ?thesis unfolding patterns_ok_def by (auto simp del: map_map)
qed

lemma no_twin_ids: "distinct (map fst ps) \<Longrightarrow> no_twins [''id''] (map (pattern_row t) ps)"
  by (induction ps) (auto simp: list_ex_iff same_key_def image_iff)

lemma no_twin_keys: "distinct (map pattern_key ps) \<Longrightarrow> no_twins [''entity_type'', ''pattern_name''] (map (pattern_row t) ps)"
  by (induction ps) (auto simp: list_ex_iff same_key_def image_iff pattern_key_def)

definition pattern_ids :: "db \<Rightarrow> int set" where
  "pattern_ids d = {i. \<exists>r \<in> set (rows_of d PAT). cell r ''id'' = VInt i}"

lemma pattern_ids_rows: "map_of (db_tables d) PAT = Some tp \<Longrightarrow> tb_rows tp = map (pattern_row t) ps \<Longrightarrow> pattern_ids d = fst ` set ps"
  by (auto simp: pattern_ids_def rows_of_def image_iff) force+

lemma insert_rows_other: "insert_into cn n r d = Inr (q, d') \<Longrightarrow> m \<noteq> n \<Longrightarrow> rows_of d' m = rows_of d m"
  by (auto simp: insert_into_def Let_def split: option.splits if_splits)

lemma disable_step:
  assumes "pattern_stage (shape d)" "seeded t d" "i \<in> pattern_ids d" "x = (i, p, True, v)"
  shows "\<exists>d'. disable_rows (link t) (pattern_row t x # rs) d = disable_rows (link t) rs d' \<and> shape d' = shape d \<and>
    seeded t d' \<and> pattern_ids d' = pattern_ids d"
proof -
  obtain tp th ps hs where d: "empty_but [PAT, HIST] d" "map_of (db_tables d) PAT = Some tp" "map_of (db_tables d) HIST = Some th"
    "tb_rows tp = map (pattern_row t) ps" "patterns_ok (tb_next tp) ps" "tb_rows th = map (change_row t) hs" "changes_ok (fst ` set ps) (tb_next th) hs"
    using assms(2) by (rule seededE)
  note st = pattern_stage_tables [OF assms(1) d(2,3)]
  define ps' where "ps' = map (switch_off i (v + 1)) ps"
  let ?tp = "tp\<lparr>tb_rows := map (off_row i (v + 1)) (tb_rows tp)\<rparr>"
  have rows: "tb_rows ?tp = map (pattern_row t) ps'" using d(4) by (simp add: ps'_def off_pattern_row)
  have ok: "patterns_ok (tb_next ?tp) ps'" using patterns_ok_switch [OF d(5)] by (simp add: ps'_def)
  have "list_all (\<lambda>r. row_error d ?tp r = None) (map (pattern_row t) ps')"
    using ok pattern_row_fits [of ?tp _ d t] st(1,2) by (fastforce simp: patterns_ok_def list_all_iff)
  moreover have "unique_rules d PAT ?tp = [[''id''], [''entity_type'', ''pattern_name'']]" using st(5) by (simp add: unique_rules_def keys_of_def)
  ultimately have "admits_update d PAT (off_row i (v + 1))"
    using d(2) rows ok no_twin_ids no_twin_keys by (simp add: admits_update_def Let_def patterns_ok_def)
  then have upd: "exec_op (link t) (Update_rows PAT (off_row i (v + 1))) d = Inr (set_table PAT ?tp d)" (is "_ = Inr ?d")
    by (rule update_progress [OF d(2)])
  have sh: "shape ?d = shape d" using shape_refill [OF d(2)] by simp
  have ids: "fst ` set ps' = fst ` set ps" by (simp add: ps'_def image_image switch_off_same)
  have "cell (disabled_row (pattern_row t x)) ''id'' = VInt i"
    using assms(4) by (simp add: disabled_row_def set_cell_def pattern_row_def cell_def next_version_def)
  then obtain q d' where rec: "insert_into (link t) HIST (history_row (disabled_row (pattern_row t x)) ''UPDATE'' ''system:seed-q4'') ?d = Inr (q, d')"
    "shape d' = shape ?d" "seeded t d'"
    using record_change [of ?d ?tp th t ps' hs "disabled_row (pattern_row t x)" i "''UPDATE''" "''system:seed-q4''"] assms(1,3) d sh rows ok ids
      pattern_ids_rows [OF d(2,4)] by (auto simp: map_of_set_table empty_but_def)
  have "pattern_ids d' = pattern_ids d"
    using insert_rows_other [OF rec(1), of PAT] pattern_ids_rows [OF d(2,4)] rows ids pattern_ids_rows [of ?d ?tp t ps']
    by (simp add: map_of_set_table pattern_ids_def)
  moreover have "(\<lambda>q. if cell q ''id'' = cell (pattern_row t x) ''id''
      then set_cell ''enabled'' (VBool False) (set_cell ''version'' (next_version (cell (pattern_row t x) ''version'')) q) else q) = off_row i (v + 1)"
    using assms(4) by (simp add: off_row_def next_version_def fun_eq_iff)
  ultimately show ?thesis using upd rec sh by (auto simp: PAT_def HIST_def)
qed

lemma rows_disabled:
  "pattern_stage (shape d) \<Longrightarrow> seeded t d \<Longrightarrow> list_all (\<lambda>r. \<exists>i p v. r = pattern_row t (i, p, True, v) \<and> i \<in> pattern_ids d) rs \<Longrightarrow>
   \<exists>d'. disable_rows (link t) rs d = Inr d' \<and> shape d' = shape d \<and> seeded t d'"
proof (induction rs arbitrary: d)
  case (Cons r rs)
  then obtain i p v where r: "r = pattern_row t (i, p, True, v)" "i \<in> pattern_ids d" by auto
  then obtain d1 where d1: "disable_rows (link t) (r # rs) d = disable_rows (link t) rs d1" "shape d1 = shape d" "seeded t d1" "pattern_ids d1 = pattern_ids d"
    using disable_step [of d t i _ p v rs] Cons.prems by metis
  then show ?case using Cons.IH [of d1] Cons.prems by auto
qed simp

lemma weak_disabled:
  assumes "pattern_stage (shape d)" "seeded t d"
  shows "\<exists>d'. upgrade_6c1d3f4a5b02 (link t) d = Inr d' \<and> shape d' = shape d \<and> seeded t d'"
proof -
  obtain tp th ps hs where d: "map_of (db_tables d) PAT = Some tp" "tb_rows tp = map (pattern_row t) ps"
    using assms(2) by (auto elim: seededE)
  have "list_all (\<lambda>r. \<exists>i p v. r = pattern_row t (i, p, True, v) \<and> i \<in> pattern_ids d) (filter (weak_seed True) (tb_rows tp))"
    using d by (force simp: list_all_iff weak_seed_def pattern_ids_rows)
  then show ?thesis using rows_disabled [OF assms] d(1) by (simp add: upgrade_6c1d3f4a5b02_def PAT_def)
qed

section \<open>The later changes of the two tables\<close>

text \<open>Dropping and recreating the foreign key of the history.\<close>

definition key_again :: "op list" where
  "key_again =
     [Drop_constraint Unqualified (Some ''pii_pattern_history_pattern_id_fkey'') ''pii_pattern_history'',
      Create_foreign_key Pii None ''pii_pattern_history'' ''pii_patterns'' [''pattern_id''] [''id''] ''SET NULL'']"

lemma clear_starts:
  "upgrade_2401f4a8d84b = jobs_start @ key_again" "upgrade_5a885a8844a1 = artifacts_start @ key_again"
  "list_all (clear_of [PAT, HIST]) jobs_start" "list_all (clear_of [PAT, HIST]) artifacts_start"
  "list_all (\<lambda>x. \<not> touches x PAT \<and> \<not> touches x HIST) jobs_start" "list_all (\<lambda>x. \<not> touches x PAT \<and> \<not> touches x HIST) artifacts_start"
  by (simp_all add: jobs_start_def artifacts_start_def upgrade_2401f4a8d84b_def upgrade_5a885a8844a1_def key_again_def PAT_def HIST_def)

text \<open>What remains to be known of the rows once no more are inserted.\<close>

definition settled :: "int \<Rightarrow> db \<Rightarrow> bool" where
  "settled t d \<longleftrightarrow> empty_but [PAT, HIST] d \<and>
     (\<exists>k l ps hs. rows_of d PAT = map (pattern_row t) ps \<and> patterns_ok k ps \<and> rows_of d HIST = map (change_row t) hs \<and> changes_ok (fst ` set ps) l hs)"

lemma seeded_settled: "seeded t d \<Longrightarrow> settled t d"
  by (fastforce simp: settled_def rows_of_def elim!: seededE)

lemma settled_rows: "settled t d \<Longrightarrow> empty_but [PAT, HIST] d' \<Longrightarrow> rows_of d' PAT = rows_of d PAT \<Longrightarrow> rows_of d' HIST = rows_of d HIST \<Longrightarrow> settled t d'"
  by (simp add: settled_def)

lemma settled_tables:
  assumes "pattern_stage (shape d)" "settled t d"
  obtains tp th k l ps hs where "map_of (db_tables d) PAT = Some tp" "map_of (db_tables d) HIST = Some th"
    "tb_rows tp = map (pattern_row t) ps" "patterns_ok k ps" "tb_rows th = map (change_row t) hs" "changes_ok (fst ` set ps) l hs"
proof -
  obtain tp th where "map_of (db_tables d) PAT = Some tp" "map_of (db_tables d) HIST = Some th"
    using assms(1) by (auto simp: pattern_stage_def map_of_shape)
  moreover from this obtain k l ps hs where "tb_rows tp = map (pattern_row t) ps" "patterns_ok k ps" "tb_rows th = map (change_row t) hs" "changes_ok (fst ` set ps) l hs"
    using assms(2) by (auto simp: settled_def rows_of_def)
  ultimately show thesis by (rule that)
qed

lemma key_recreated:
  assumes "pattern_stage (shape d)" "settled t d" "run_ops (link t) key_again (shape d) = Inr s"
  shows "\<exists>d'. run_ops (link t) key_again d = Inr d' \<and> shape d' = s \<and> settled t d'"
proof -
  obtain tp th k l ps hs where d: "map_of (db_tables d) PAT = Some tp" "map_of (db_tables d) HIST = Some th"
    "tb_rows tp = map (pattern_row t) ps" "patterns_ok k ps" "tb_rows th = map (change_row t) hs" "changes_ok (fst ` set ps) l hs"
    using assms(1,2) by (rule settled_tables)
  note st = pattern_stage_tables [OF assms(1) d(1,2)]
  let ?th = "th\<lparr>tb_constraints := history_constraints\<rparr>" and ?th' = "th\<lparr>tb_constraints := history_constraints @ [history_key]\<rparr>"
  let ?d = "set_table HIST ?th d"
  let ?drop = "Drop_constraint Unqualified (Some ''pii_pattern_history_pattern_id_fkey'') ''pii_pattern_history''"
  let ?add = "Create_foreign_key Pii None ''pii_pattern_history'' ''pii_patterns'' [''pattern_id''] [''id''] ''SET NULL''"
  have drop: "exec_op (link t) ?drop d = Inr ?d"
    using d(2) st(4) by (simp add: visible_def link_def with_table_def HIST_def history_constraints_def history_key_def key_in_use_def)
  then obtain s1 where s1: "exec_op (link t) ?drop (shape d) = Inr s1" "exec_op (link t) ?add s1 = Inr s" "s1 = shape ?d"
    using assms(3) exec_op_shape [OF drop] by (auto simp: key_again_def split: sum.splits)
  have cells: "row_error (set_table HIST ?th' ?d) ?th' (change_row t x) = None" if "x \<in> set hs" for x
  proof -
    obtain i p a w b where x: "x = (i, p, a, w, b)" by (cases x)
    have "p \<in> fst ` set ps" "a = ''INSERT'' \<or> a = ''UPDATE''" "length b \<le> 64" using d(6) that x by (auto simp: changes_ok_def list_all_iff)
    then show ?thesis unfolding x using st(3) d(1,3) by (intro change_row_fits [of ?th']) (simp_all add: map_of_set_table)
  qed
  have "fkey_name ''pii_pattern_history'' [''pattern_id''] = ''pii_pattern_history_pattern_id_fkey''" by (simp add: fkey_name_def)
  then have "data_ok (link t) ?add ?d"
    using cells d(5) by (simp add: admits_def Let_def map_of_set_table HIST_def history_key_def list_all_iff)
  then obtain d' where d': "exec_op (link t) ?add ?d = Inr d'" "shape d' = s"
    using exec_op_progress [of "link t" ?add ?d s] s1 by auto
  then have "d' = set_table HIST ?th' ?d"
    by (auto simp: visible_def add_constraint_def with_table_def map_of_set_table HIST_def history_key_def fkey_name_def Let_def split: if_splits option.splits)
  then have "settled t d'"
    using assms(2) d(2) by (intro settled_rows [OF assms(2)]) (auto simp: settled_def empty_but_def, simp add: rows_of_def)
  then show ?thesis using drop d' by (simp add: key_again_def)
qed

lemma key_revision:
  assumes "settled t d" "shape d = stage t k" "k < 18" "DDL ! k = xs @ key_again" "list_all (clear_of [PAT, HIST]) xs"
    and "list_all (\<lambda>x. \<not> touches x PAT \<and> \<not> touches x HIST) xs"
    and "\<And>s. run_ops (link t) xs (stage t k) = Inr s \<Longrightarrow> pattern_stage s"
  shows "\<exists>d'. run_ops (link t) (DDL ! k) d = Inr d' \<and> shape d' = stage t (Suc k) \<and> settled t d'"
proof -
  have "run_ops (link t) (xs @ key_again) (shape d) = Inr (stage t (Suc k))"
    using stage_step [OF assms(3), of t] assms(2,4) by simp
  then obtain s where s: "run_ops (link t) xs (shape d) = Inr s" "run_ops (link t) key_again s = Inr (stage t (Suc k))"
    by (auto simp: run_ops_append split: sum.splits)
  have em: "empty_but [PAT, HIST] d" using assms(1) by (simp add: settled_def)
  obtain d1 where d1: "run_ops (link t) xs d = Inr d1" "shape d1 = s" "empty_but [PAT, HIST] d1" "rows_of d1 PAT = rows_of d PAT" "rows_of d1 HIST = rows_of d HIST"
    using run_clear [OF s(1) assms(5) em] assms(6) by (auto simp: list_all_iff)
  then have "pattern_stage (shape d1)" "settled t d1" "run_ops (link t) key_again (shape d1) = Inr (stage t (Suc k))"
    using assms(1,2,7) s settled_rows by auto
  then show ?thesis using key_recreated [of d1 t] d1(1) assms(4) by (auto simp: run_ops_append)
qed

lemma clear_revision:
  assumes "settled t d" "shape d = stage t k" "k < 18" "list_all (clear_of [PAT, HIST]) (DDL ! k)"
    and "list_all (\<lambda>x. \<not> touches x PAT \<and> \<not> touches x HIST) (DDL ! k)"
  shows "\<exists>d'. run_ops (link t) (DDL ! k) d = Inr d' \<and> shape d' = stage t (Suc k) \<and> settled t d'"
proof -
  have "run_ops (link t) (DDL ! k) (shape d) = Inr (stage t (Suc k))" using stage_step [OF assms(3)] assms(2) by simp
  moreover have "empty_but [PAT, HIST] d" using assms(1) by (simp add: settled_def)
  ultimately obtain d' where d': "run_ops (link t) (DDL ! k) d = Inr d'" "shape d' = stage t (Suc k)" "empty_but [PAT, HIST] d'"
    "rows_of d' PAT = rows_of d PAT" "rows_of d' HIST = rows_of d HIST"
    using run_clear [OF _ assms(4), of "link t" d] assms(5) by (auto simp: list_all_iff)
  then show ?thesis using settled_rows [OF assms(1)] by blast
qed

section \<open>From the flag to the mode\<close>

definition mode_column :: column where
  "mode_column = with_default ''mode'' (String 16) (Literal (VText (u ''enabled'')))"

definition mode_check :: constraint where
  "mode_check = Check ''ck_pii_patterns_mode'' (One_of ''mode'' [''enabled'', ''shadow'', ''disabled''])"

definition to_mode :: "op list" where
  "to_mode =
     [Add_column Pii ''pii_patterns'' mode_column, Update_rows ''pii_patterns'' mode_of_enabled,
      Create_check Pii ''ck_pii_patterns_mode'' ''pii_patterns'' (One_of ''mode'' [''enabled'', ''shadow'', ''disabled'']),
      Drop_column Pii ''pii_patterns'' ''enabled'']"

definition moded_row :: "int \<Rightarrow> string \<Rightarrow> int \<times> seed \<times> bool \<times> int \<Rightarrow> row" where
  "moded_row t m x = pattern_row t x @ [(''mode'', VText (u m))]"

lemma moded_cell: "cell (moded_row t m x) c = (if c = ''mode'' then VText (u m) else cell (pattern_row t x) c)"
  by (cases x) (auto simp: cell_def moded_row_def pattern_row_def map_add_def split: option.splits)

lemma moded_row_fits:
  assumes "tb_columns tp = pattern_columns @ [mode_column]" "set (tb_constraints tp) \<subseteq> set (pattern_constraints @ [mode_check])"
    and "seed_ok p" "m = ''enabled'' \<or> m = ''disabled''"
  shows "row_error d tp (moded_row t m (i, p, on, v)) = None"
proof -
  have "\<not> list_ex (\<lambda>c. case c of Check n e \<Rightarrow> check_value (moded_row t m (i, p, on, v)) e = Some False | _ \<Rightarrow> False) (tb_constraints tp)"
    using assms(2,4) score_checks [OF assms(3)] by (auto simp: list_ex_iff pattern_constraints_def mode_check_def moded_cell)
  moreover have "list_all (referenced d (moded_row t m (i, p, on, v))) (tb_constraints tp)"
    using assms(2) by (auto simp: list_all_iff pattern_constraints_def mode_check_def referenced_def)
  ultimately show ?thesis
    using assms(1,3,4) by (auto simp: row_error_def pattern_columns_def mode_column_def column_defs moded_cell seed_ok_def)
qed

lemma mode_carried: "mode_of_enabled (moded_row t m (i, p, on, v)) = moded_row t (if on then ''enabled'' else ''disabled'') (i, p, on, v)"
  by (simp add: mode_of_enabled_def moded_cell, simp add: set_cell_def moded_row_def pattern_row_def)

lemma moded_no_twins:
  "distinct (map fst ps) \<Longrightarrow> no_twins [''id''] (map (\<lambda>x. moded_row t (f x) x) ps)"
  "distinct (map pattern_key ps) \<Longrightarrow> no_twins [''entity_type'', ''pattern_name''] (map (\<lambda>x. moded_row t (f x) x) ps)"
  by (induction ps) (auto simp: list_ex_iff same_key_def image_iff pattern_key_def moded_cell)

lemma mode_revision:
  assumes "pattern_stage (shape d)" "settled t d"
  shows "\<exists>d'. run_ops (link t) to_mode d = Inr d' \<and> empty_but [PAT, HIST] d'"
proof -
  obtain tp th k l ps hs where d: "map_of (db_tables d) PAT = Some tp" "map_of (db_tables d) HIST = Some th"
    "tb_rows tp = map (pattern_row t) ps" "patterns_ok k ps" "tb_rows th = map (change_row t) hs" "changes_ok (fst ` set ps) l hs"
    using assms(1,2) by (rule settled_tables)
  note st = pattern_stage_tables [OF assms(1) d(1,2)]
  define g where "g x = (case x of (i :: int, p :: seed, on, v :: int) \<Rightarrow> if on then ''enabled'' else ''disabled'')" for x
  let ?t1 = "tp\<lparr>tb_columns := pattern_columns @ [mode_column], tb_rows := map (moded_row t ''enabled'') ps\<rparr>"
  let ?d1 = "set_table PAT ?t1 d"
  let ?t2 = "?t1\<lparr>tb_rows := map (\<lambda>x. moded_row t (g x) x) ps\<rparr>"
  let ?d2 = "set_table PAT ?t2 ?d1"
  let ?t3 = "?t2\<lparr>tb_constraints := pattern_constraints @ [mode_check]\<rparr>"
  let ?d3 = "set_table PAT ?t3 ?d2"
  have add: "exec_op (link t) (Add_column Pii PAT mode_column) d = Inr ?d1"
    using d(1,3) st(1) by (simp add: visible_def with_table_def columns_of_def pattern_columns_def column_defs mode_column_def moded_row_def [abs_def] comp_def)
  have fit: "row_error e T (moded_row t (g x) x) = None"
    if "x \<in> set ps" "tb_columns T = pattern_columns @ [mode_column]" "set (tb_constraints T) \<subseteq> set (pattern_constraints @ [mode_check])" for e T x
  proof -
    obtain i p on v where x: "x = (i, p, on, v)" by (cases x)
    then show ?thesis using that d(4) by (auto simp: g_def patterns_ok_def list_all_iff intro!: moded_row_fits)
  qed
  have upd: "map mode_of_enabled (tb_rows ?t1) = tb_rows ?t2" by (auto simp: mode_carried g_def split: prod.split)
  have "admits_update ?d1 PAT mode_of_enabled"
  proof (rule admits_updateI [OF _ upd])
    show "map_of (db_tables ?d1) PAT = Some ?t1" by (simp add: map_of_set_table)
    show "list_all (\<lambda>r. row_error ?d1 (?t1\<lparr>tb_rows := tb_rows ?t2\<rparr>) r = None) (tb_rows ?t2)"
      using st(2) by (auto simp: list_all_iff intro!: fit)
    have "unique_rules ?d1 PAT (?t1\<lparr>tb_rows := tb_rows ?t2\<rparr>) = [[''id''], [''entity_type'', ''pattern_name'']]"
      using st(5) by (simp add: unique_rules_def keys_of_def set_table_def)
    then show "list_all (\<lambda>cs. no_twins cs (tb_rows ?t2)) (unique_rules ?d1 PAT (?t1\<lparr>tb_rows := tb_rows ?t2\<rparr>))"
      using d(4) moded_no_twins by (simp add: patterns_ok_def)
  qed
  then have "exec_op (link t) (Update_rows PAT mode_of_enabled) ?d1 = Inr (set_table PAT (?t1\<lparr>tb_rows := map mode_of_enabled (tb_rows ?t1)\<rparr>) ?d1)"
    by (intro update_progress) (simp_all add: map_of_set_table)
  then have update: "exec_op (link t) (Update_rows PAT mode_of_enabled) ?d1 = Inr ?d2"
    unfolding upd by (simp del: exec_op.simps)
  have fits3: "list_all (\<lambda>r. row_error (set_table PAT ?t3 ?d2) ?t3 r = None) (tb_rows ?t2)"
    using fit by (simp add: list_all_iff)
  have "tb_constraints ?t2 @ [mode_check] = pattern_constraints @ [mode_check]" using st(2) by simp
  then have "add_constraint PAT mode_check ?d2 = Inr ?d3"
    using find_no_error [OF fits3] st(2)
    by (simp add: add_constraint_def with_table_def map_of_set_table reference_ok_def columns_of_def Let_def
        mode_check_def pattern_constraints_def pattern_columns_def column_defs mode_column_def del: not_None_eq)
  then have check: "exec_op (link t) (Create_check Pii ''ck_pii_patterns_mode'' PAT (One_of ''mode'' [''enabled'', ''shadow'', ''disabled''])) ?d2 = Inr ?d3"
    by (simp add: visible_def mode_check_def)
  have drop: "exec_op (link t) (Drop_column Pii PAT ''enabled'') ?d3 = Inr (drop_column PAT ''enabled'' ?t3 ?d3)"
    by (simp add: visible_def with_table_def map_of_set_table columns_of_def pattern_columns_def column_defs mode_column_def
        pattern_constraints_def mode_check_def)
  have "empty_but [PAT, HIST] (drop_column PAT ''enabled'' ?t3 ?d3)"
    using assms(2) by (simp add: settled_def empty_but_def rows_drop_column)
  then show ?thesis using add update check drop by (simp add: to_mode_def PAT_def)
qed

lemma modes_split:
  "upgrade_9f3a7c2e1b40 = modes_start @ to_mode @ modes_end"
  "list_all (clear_of [PAT, HIST]) modes_start" "list_all (\<lambda>x. \<not> touches x PAT \<and> \<not> touches x HIST) modes_start" "list_all (clear_of [PAT, HIST]) modes_end"
  by (simp_all add: modes_start_def modes_end_def to_mode_def mode_column_def upgrade_9f3a7c2e1b40_def PAT_def HIST_def nullable_def)

lemma modes_revision:
  assumes "settled t d" "shape d = stage t 11"
  shows "\<exists>d'. run_ops (link t) upgrade_9f3a7c2e1b40 d = Inr d' \<and> shape d' = stage t 12 \<and> empty_but [PAT, HIST] d'"
proof -
  have "run_ops (link t) upgrade_9f3a7c2e1b40 (shape d) = Inr (stage t 12)"
    using stage_step [of 11 t] assms(2) by (simp add: DDL_def)
  then obtain s1 s2 where s: "run_ops (link t) modes_start (shape d) = Inr s1" "run_ops (link t) to_mode s1 = Inr s2" "run_ops (link t) modes_end s2 = Inr (stage t 12)"
    by (auto simp: modes_split(1) run_ops_append split: sum.splits)
  have em: "empty_but [PAT, HIST] d" using assms(1) by (simp add: settled_def)
  obtain d1 where d1: "run_ops (link t) modes_start d = Inr d1" "shape d1 = s1" "empty_but [PAT, HIST] d1" "rows_of d1 PAT = rows_of d PAT" "rows_of d1 HIST = rows_of d HIST"
    using run_clear [OF s(1) modes_split(2) em] modes_split(3) by (auto simp: list_all_iff)
  have "pattern_stage (shape d1)" using before_keys(3) [of t] s(1) assms(2) d1(2) by simp
  then obtain d2 where d2: "run_ops (link t) to_mode d1 = Inr d2" "empty_but [PAT, HIST] d2"
    using mode_revision [of d1 t] settled_rows [OF assms(1) d1(3-5)] by blast
  have "shape d2 = s2" using run_ops_shape [OF d2(1)] s(2) d1(2) by simp
  then obtain d' where "run_ops (link t) modes_end d2 = Inr d'" "shape d' = stage t 12" "empty_but [PAT, HIST] d'"
    using run_clear [of "link t" modes_end d2 "stage t 12" "[PAT, HIST]"] s(3) modes_split(4) d2(2) by auto
  then show ?thesis using d1(1) d2(1) by (auto simp: modes_split(1) run_ops_append)
qed

section \<open>The default deny list\<close>

definition block_seed_ok :: "ustr option \<times> ustr option \<times> ustr \<Rightarrow> bool" where
  "block_seed_ok x = (case x of (e, m, r) \<Rightarrow> (e \<noteq> None \<or> m \<noteq> None) \<and> length r \<le> 200 \<and>
     (case e of None \<Rightarrow> True | Some s \<Rightarrow> length s \<le> 32) \<and> (case m of None \<Rightarrow> True | Some s \<Rightarrow> length s \<le> 100))"

lemma SEED_ok: "list_all block_seed_ok SEED"
  by (simp add: SEED_def block_seed_ok_def)

definition deny_ready :: "db \<Rightarrow> bool" where
  "deny_ready d \<longleftrightarrow> deny_stage (shape d) \<and>
     (\<forall>t. map_of (db_tables d) ''attachment_blocklist'' = Some t \<longrightarrow> list_all (\<lambda>r. \<exists>i < tb_next t. cell r ''id'' = VInt i) (tb_rows t))"

lemma deny_insert:
  assumes "deny_ready d" "block_seed_ok x"
  shows "\<exists>q d'. insert_into (link t) ''attachment_blocklist'' (block_seed_row x) d = Inr (q, d') \<and> shape d' = shape d \<and> deny_ready d'"
proof -
  let ?n = "''attachment_blocklist''"
  obtain b where b: "map_of (db_tables d) ?n = Some b" "blank b = \<lparr>tb_columns = deny_columns, tb_constraints = deny_constraints, tb_rows = [], tb_next = 1\<rparr>"
    using assms(1) by (auto simp: deny_ready_def deny_stage_def map_of_shape)
  have cols: "tb_columns b = deny_columns" "tb_constraints b = deny_constraints"
    using arg_cong [OF b(2), of tb_columns] arg_cong [OF b(2), of tb_constraints] by simp_all
  obtain e m r where x: "x = (e, m, r)" by (cases x)
  define q where "q = complete_row (link t) b (block_seed_row x)"
  have q: "q = [(''id'', VInt (tb_next b)), (''extension'', case e of None \<Rightarrow> VNull | Some s \<Rightarrow> VText s),
      (''mime_type'', case m of None \<Rightarrow> VNull | Some s \<Rightarrow> VText s), (''reason'', VText r), (''enabled'', VBool True), (''created_at'', VTime t)]"
    by (simp add: q_def complete_row_def cols deny_columns_def column_defs block_seed_row_def x link_def)
  have "row_error d b q = None"
    using assms(2) by (auto simp: row_error_def cols deny_columns_def deny_constraints_def column_defs q cell_def x block_seed_ok_def
        referenced_def or3_def split: option.splits)
  moreover have "unique_rules d ?n b = [[''id'']]"
    using assms(1) cols(2) by (simp add: unique_rules_def keys_of_def deny_constraints_def deny_ready_def deny_stage_def)
  moreover have "\<not> clashes [''id''] b q"
    using assms(1) b(1) by (auto simp: clashes_def same_key_def list_ex_iff deny_ready_def list_all_iff q) (auto simp: cell_def)
  moreover have "fst ` set (block_seed_row x) \<subseteq> set (columns_of b)"
    by (simp add: x block_seed_row_def columns_of_def cols deny_columns_def column_defs)
  ultimately have ins: "insert_into (link t) ?n (block_seed_row x) d = Inr (q, set_table ?n (b\<lparr>tb_rows := tb_rows b @ [q], tb_next := tb_next b + 1\<rparr>) d)"
    using b(1) by (simp add: insert_into_def Let_def q_def [symmetric])
  have "list_all (\<lambda>r. \<exists>i < tb_next b + 1. cell r ''id'' = VInt i) (tb_rows b @ [q])"
    using assms(1) b(1) by (fastforce simp: deny_ready_def list_all_iff q cell_def)
  then show ?thesis using ins shape_of_insert [OF ins] assms(1) by (auto simp: deny_ready_def map_of_set_table simp del: shape_set_table)
qed

lemma deny_bulk:
  "deny_ready d \<Longrightarrow> list_all block_seed_ok xs \<Longrightarrow>
   \<exists>d'. bulk_insert (link t) ''attachment_blocklist'' (map block_seed_row xs) d = Inr d' \<and> shape d' = shape d"
proof (induction xs arbitrary: d)
  case (Cons x xs)
  then obtain q d1 where "insert_into (link t) ''attachment_blocklist'' (block_seed_row x) d = Inr (q, d1)" "shape d1 = shape d" "deny_ready d1"
    using deny_insert [of d x t] by auto
  then show ?case using Cons.IH [of d1] Cons.prems by auto
qed simp

lemma deny_revision:
  assumes "shape d = stage t 17" "empty_but [PAT, HIST] d"
  shows "\<exists>d'. upgrade_e5f6a7b8c9d0 (link t) d = Inr d' \<and> shape d' = stage t 18"
proof -
  have "run_ops (link t) create_blocklist (shape d) = Inr (stage t 18)" using stage_step [of 17 t] assms(1) by (simp add: DDL_def)
  moreover have "list_all (clear_of [PAT, HIST]) create_blocklist" by (simp add: create_blocklist_def)
  ultimately obtain d1 where d1: "run_ops (link t) create_blocklist d = Inr d1" "shape d1 = stage t 18" "empty_but [PAT, HIST] d1"
    using run_clear [of "link t" create_blocklist d "stage t 18" "[PAT, HIST]"] assms(2) by auto
  have "tb_rows b = []" if "map_of (db_tables d1) ''attachment_blocklist'' = Some b" for b
    using empty_but_table [OF d1(3) _ that] by (simp add: PAT_def HIST_def)
  then have "deny_ready d1" using stage_18 [of t] d1(2) by (simp add: deny_ready_def)
  then show ?thesis using deny_bulk [OF _ SEED_ok, of d1 t] d1 by (auto simp: upgrade_e5f6a7b8c9d0_def)
qed

section \<open>The whole run\<close>

lemma up_found: "k < 18 \<Longrightarrow> find (\<lambda>r. rv_down r = version_at k) REVISIONS = Some (REVISIONS ! k)"
proof -
  have "distinct (map rv_down REVISIONS)"
    using distinct_ids by (auto simp: revision_links distinct_map distinct_butlast)
  then show "k < 18 \<Longrightarrow> ?thesis" using find_by_id [of rv_down REVISIONS k] down_version [of k] by (simp add: length_revisions)
qed

definition reaches :: "int \<Rightarrow> nat \<Rightarrow> db \<Rightarrow> bool" where
  "reaches t k d \<longleftrightarrow> step_up 18 (link t) new_server = step_up (18 - k) (link t) \<lparr>sv_db = d, sv_version = version_at k\<rparr>"

lemma reaches_0: "reaches t 0 no_db"
  by (simp add: reaches_def new_server_def version_at_def)

lemma reaches_Suc: "reaches t k d \<Longrightarrow> k < 18 \<Longrightarrow> rv_upgrade (REVISIONS ! k) (link t) d = Inr d' \<Longrightarrow> reaches t (Suc k) d'"
proof -
  assume *: "reaches t k d" "k < 18" "rv_upgrade (REVISIONS ! k) (link t) d = Inr d'"
  have "step_up (Suc m) (link t) \<lparr>sv_db = d, sv_version = version_at k\<rparr> = step_up m (link t) \<lparr>sv_db = d', sv_version = version_at (Suc k)\<rparr>" for m
    using * up_found [of k] by (simp add: version_at_def)
  from this [of "17 - k"] have "step_up (18 - k) (link t) \<lparr>sv_db = d, sv_version = version_at k\<rparr> =
      step_up (18 - Suc k) (link t) \<lparr>sv_db = d', sv_version = version_at (Suc k)\<rparr>"
    using *(2) by (simp add: Suc_diff_le [symmetric] del: step_up.simps)
  then show ?thesis using *(1) by (simp add: reaches_def)
qed

lemma ddl_revisions: "k < 18 \<Longrightarrow> k \<notin> {3, 5, 17} \<Longrightarrow> rv_upgrade (REVISIONS ! k) cn = run_ops cn (DDL ! k)"
proof -
  assume "k < 18" "k \<notin> {3, 5, 17}"
  then have "k \<in> {0, 1, 2, 4, 6, 7, 8, 9, 10, 11, 12, 13, 14, 15, 16}" by (simp, presburger)
  then show ?thesis by (auto simp: REVISIONS_def DDL_def)
qed

lemma data_revisions:
  "rv_upgrade (REVISIONS ! 3) = upgrade_4a7f8b1c0d92" "rv_upgrade (REVISIONS ! 5) = upgrade_6c1d3f4a5b02" "rv_upgrade (REVISIONS ! 17) = upgrade_e5f6a7b8c9d0"
  by (simp_all add: REVISIONS_def)

lemma run_from_empty: "run_ops cn xs no_db = Inr d \<Longrightarrow> shape d = d \<and> rows_of d n = []"
proof -
  have "run_ops cn xs e = Inr d \<Longrightarrow> rows_of e n = [] \<Longrightarrow> rows_of d n = []" for e
  proof (induction xs arbitrary: e)
    case (Cons x xs)
    then obtain f where "exec_op cn x e = Inr f" "run_ops cn xs f = Inr d" by (auto split: sum.splits)
    then show ?case using Cons.IH [of f] empty_stays Cons.prems(2) by blast
  qed simp
  moreover assume "run_ops cn xs no_db = Inr d"
  moreover have "shape no_db = no_db" "rows_of no_db n = []" by (simp_all add: shape_def no_db_def rows_of_def)
  ultimately show ?thesis using run_ops_shape [of cn xs no_db d] by auto
qed

lemma stage_empty: "k \<le> 18 \<Longrightarrow> shape (stage t k) = stage t k \<and> rows_of (stage t k) n = []"
proof -
  assume "k \<le> 18"
  have "concat DDL = concat (take k DDL) @ concat (drop k DDL)" by (metis append_take_drop_id concat_append)
  then obtain d where "run_ops (link t) (concat (take k DDL)) no_db = Inr d"
    using ddl_runs [of t] by (auto simp: run_ops_append split: sum.splits)
  then show ?thesis using run_from_empty [of "link t"] by (simp add: stage_def)
qed

lemma reaches_3: "reaches t 3 (stage t 3)"
proof -
  have "reaches t (Suc k) (stage t (Suc k))" if "k < 3" "reaches t k (stage t k)" for k
    using reaches_Suc [OF that(2)] that(1) ddl_revisions [of k "link t"] stage_step [of k t] by simp
  from this [of 0] this [of 1] this [of 2] show ?thesis using reaches_0 by (simp add: stage_0 numeral_eq_Suc)
qed

lemma seeded_stage: "seeded t (stage t 3)"
  using stage_3 [of t] stage_empty [of 3 t]
  by (auto simp: seeded_def empty_but_def pattern_stage_def patterns_ok_def changes_ok_def)

fun tableless :: "op \<Rightarrow> bool" where
  "tableless (Create_function f) = True"
| "tableless (Drop_function f c) = True"
| "tableless (Create_trigger g n e f) = True"
| "tableless (Drop_trigger g n) = True"
| "tableless _ = False"

lemma tableless_run: "list_all tableless xs \<Longrightarrow> run_ops cn xs d = Inr d' \<Longrightarrow> db_tables d' = db_tables d"
proof (induction xs arbitrary: d)
  case (Cons x xs)
  then obtain f where "exec_op cn x d = Inr f" "run_ops cn xs f = Inr d'" by (auto split: sum.splits)
  moreover from this have "db_tables f = db_tables d" using Cons.prems(1) by (cases x) (auto simp: with_table_def split: option.splits if_splits)
  ultimately show ?case using Cons by auto
qed simp

lemma ddl_reaches:
  "reaches t k d \<Longrightarrow> k < 18 \<Longrightarrow> k \<notin> {3, 5, 17} \<Longrightarrow> run_ops (link t) (DDL ! k) d = Inr d' \<Longrightarrow> reaches t (Suc k) d'"
  using reaches_Suc [of t k d d'] ddl_revisions [of k "link t"] by simp

text \<open>With both data migrations done, the patterns are seeded and the weak ones switched off.\<close>

lemma reaches_6: "\<exists>d. reaches t 6 d \<and> shape d = stage t 6 \<and> settled t d"
proof -
  have sh3: "shape (stage t 3) = stage t 3" using stage_empty [of 3 t] by simp
  then obtain d4 where d4: "upgrade_4a7f8b1c0d92 (link t) (stage t 3) = Inr d4" "shape d4 = stage t 3" "seeded t d4"
    using seeds_inserted [OF _ seeded_stage [of t] default_seeds_ok] stage_3 [of t] by (auto simp: upgrade_4a7f8b1c0d92_def)
  have r4: "reaches t 4 d4" using reaches_Suc [OF reaches_3] d4(1) data_revisions(1) by (simp add: numeral_eq_Suc)
  have same: "stage t 4 = stage t 3" "stage t 6 = stage t 5" by (simp_all add: stage_def DDL_def numeral_eq_Suc)
  have op4: "DDL ! 4 = upgrade_5b0c2e3f4a01" by (simp add: DDL_def)
  have "run_ops (link t) (DDL ! 4) (shape d4) = Inr (stage t 5)" using stage_step [of 4 t] d4(2) same by simp
  moreover have "list_all (clear_of [PAT, HIST]) (DDL ! 4)" by (simp add: op4 upgrade_5b0c2e3f4a01_def)
  ultimately obtain d5 where d5: "run_ops (link t) (DDL ! 4) d4 = Inr d5" "shape d5 = stage t 5"
    using run_clear [of "link t" "DDL ! 4" d4 "stage t 5" "[PAT, HIST]"] d4(3) by (auto simp: seeded_def)
  have "db_tables d5 = db_tables d4" using tableless_run [OF _ d5(1)] by (simp add: op4 upgrade_5b0c2e3f4a01_def)
  then have "seeded t d5" using d4(3) by (simp add: seeded_def empty_but_def rows_of_def)
  then obtain d6 where d6: "upgrade_6c1d3f4a5b02 (link t) d5 = Inr d6" "shape d6 = stage t 5" "seeded t d6"
    using weak_disabled [of d5 t] stage_5 [of t] d5(2) by auto
  have "reaches t 5 d5" using ddl_reaches [OF r4 _ _ d5(1)] by (simp add: numeral_eq_Suc)
  then have "reaches t 6 d6" using reaches_Suc [of t 5 d5 d6] d6(1) data_revisions(2) by (simp add: numeral_eq_Suc)
  then show ?thesis using d6 same seeded_settled by auto
qed

lemma settled_step:
  assumes "\<exists>d. reaches t k d \<and> shape d = stage t k \<and> settled t d" "k < 18" "k \<notin> {3, 5, 17}"
    and "list_all (clear_of [PAT, HIST]) (DDL ! k)" "list_all (\<lambda>x. \<not> touches x PAT \<and> \<not> touches x HIST) (DDL ! k)"
  shows "\<exists>d. reaches t (Suc k) d \<and> shape d = stage t (Suc k) \<and> settled t d"
  using assms clear_revision [of t _ k] ddl_reaches [of t k] by metis

lemma key_step:
  assumes "\<exists>d. reaches t k d \<and> shape d = stage t k \<and> settled t d" "k < 18" "k \<notin> {3, 5, 17}" "DDL ! k = xs @ key_again"
    and "list_all (clear_of [PAT, HIST]) xs" "list_all (\<lambda>x. \<not> touches x PAT \<and> \<not> touches x HIST) xs"
    and "case run_ops (link t) xs (stage t k) of Inl e \<Rightarrow> False | Inr s \<Rightarrow> pattern_stage s"
  shows "\<exists>d. reaches t (Suc k) d \<and> shape d = stage t (Suc k) \<and> settled t d"
proof -
  obtain d where d: "reaches t k d" "shape d = stage t k" "settled t d" using assms(1) by blast
  have "\<And>s. run_ops (link t) xs (stage t k) = Inr s \<Longrightarrow> pattern_stage s" using assms(7) by simp
  from key_revision [OF d(3,2) assms(2,4-6) this] obtain d' where "run_ops (link t) (DDL ! k) d = Inr d'" "shape d' = stage t (Suc k)" "settled t d'"
    by blast
  then show ?thesis using ddl_reaches [OF d(1) assms(2,3)] by blast
qed

lemma reaches_11: "\<exists>d. reaches t 11 d \<and> shape d = stage t 11 \<and> settled t d"
proof -
  have ops: "DDL ! 6 = upgrade_ff6df8c4d0ad" "DDL ! 7 = upgrade_7d2e9a8b3c14" "DDL ! 8 = upgrade_2401f4a8d84b" "DDL ! 9 = upgrade_5a885a8844a1"
    "DDL ! 10 = upgrade_8e1f5d2a9c30" by (simp_all add: DDL_def)
  have r7: "\<exists>d. reaches t (Suc 6) d \<and> shape d = stage t (Suc 6) \<and> settled t d"
    by (rule settled_step [OF reaches_6]) (simp_all add: ops upgrade_ff6df8c4d0ad_def PAT_def HIST_def)
  have r8: "\<exists>d. reaches t (Suc 7) d \<and> shape d = stage t (Suc 7) \<and> settled t d"
    by (rule settled_step) (use r7 in \<open>simp_all add: ops upgrade_7d2e9a8b3c14_def PAT_def HIST_def\<close>)
  have r9: "\<exists>d. reaches t (Suc 8) d \<and> shape d = stage t (Suc 8) \<and> settled t d"
    by (rule key_step [of t 8 jobs_start]) (use r8 before_keys(1) [of t] in \<open>simp_all add: ops clear_starts(1,3,5)\<close>)
  have r10: "\<exists>d. reaches t (Suc 9) d \<and> shape d = stage t (Suc 9) \<and> settled t d"
    by (rule key_step [of t 9 artifacts_start]) (use r9 before_keys(2) [of t] in \<open>simp_all add: ops clear_starts(2,4,6)\<close>)
  have "\<exists>d. reaches t (Suc 10) d \<and> shape d = stage t (Suc 10) \<and> settled t d"
    by (rule settled_step) (use r10 in \<open>simp_all add: ops upgrade_8e1f5d2a9c30_def PAT_def HIST_def nullable_def with_default_def\<close>)
  then show ?thesis by simp
qed

lemma empty_step:
  assumes "\<exists>d. reaches t k d \<and> shape d = stage t k \<and> empty_but [PAT, HIST] d" "k < 18" "k \<notin> {3, 5, 17}"
    and "list_all (clear_of [PAT, HIST]) (DDL ! k)"
  shows "\<exists>d. reaches t (Suc k) d \<and> shape d = stage t (Suc k) \<and> empty_but [PAT, HIST] d"
proof -
  obtain d where d: "reaches t k d" "shape d = stage t k" "empty_but [PAT, HIST] d" using assms(1) by blast
  have "run_ops (link t) (DDL ! k) (shape d) = Inr (stage t (Suc k))" using stage_step [OF assms(2)] d(2) by simp
  from run_clear [OF this assms(4) d(3)] show ?thesis using ddl_reaches [OF d(1) assms(2,3)] by blast
qed

lemma reaches_17: "\<exists>d. reaches t 17 d \<and> shape d = stage t 17 \<and> empty_but [PAT, HIST] d"
proof -
  obtain d where d: "reaches t 11 d" "shape d = stage t 11" "settled t d" using reaches_11 by blast
  have "DDL ! 11 = upgrade_9f3a7c2e1b40" by (simp add: DDL_def)
  then have r12: "\<exists>d. reaches t (Suc 11) d \<and> shape d = stage t (Suc 11) \<and> empty_but [PAT, HIST] d"
    using modes_revision [OF d(3,2)] ddl_reaches [OF d(1)] by fastforce
  have ops: "list_all (clear_of [PAT, HIST]) (DDL ! k)" if "k \<in> {12, 13, 14, 15, 16}" for k
    using that by (auto simp: DDL_def upgrade_9f3a7c2e1b41_def upgrade_a1b2c3d4e5f6_def upgrade_b2c3d4e5f6a7_def upgrade_c3d4e5f6a7b8_def
        upgrade_d4e5f6a7b8c9_def PAT_def HIST_def nullable_def)
  have r13: "\<exists>d. reaches t (Suc 12) d \<and> shape d = stage t (Suc 12) \<and> empty_but [PAT, HIST] d"
    by (rule empty_step) (use r12 ops [of 12] in simp_all)
  have r14: "\<exists>d. reaches t (Suc 13) d \<and> shape d = stage t (Suc 13) \<and> empty_but [PAT, HIST] d"
    by (rule empty_step) (use r13 ops [of 13] in simp_all)
  have r15: "\<exists>d. reaches t (Suc 14) d \<and> shape d = stage t (Suc 14) \<and> empty_but [PAT, HIST] d"
    by (rule empty_step) (use r14 ops [of 14] in simp_all)
  have r16: "\<exists>d. reaches t (Suc 15) d \<and> shape d = stage t (Suc 15) \<and> empty_but [PAT, HIST] d"
    by (rule empty_step) (use r15 ops [of 15] in simp_all)
  have "\<exists>d. reaches t (Suc 16) d \<and> shape d = stage t (Suc 16) \<and> empty_but [PAT, HIST] d"
    by (rule empty_step) (use r16 ops [of 16] in simp_all)
  then show ?thesis by simp
qed

lemma matches_shape: "matches_models (shape d) = matches_models d"
  by (simp add: matches_models_def agrees_def [abs_def] map_of_shape tables_shape option.case_eq_if option.map_sel)

lemma upgrade_succeeds: "\<exists>d. upgrade_head (link t) new_server = (None, \<lparr>sv_db = d, sv_version = Some ''e5f6a7b8c9d0''\<rparr>) \<and> shape d = stage t 18"
proof -
  obtain d where d: "reaches t 17 d" "shape d = stage t 17" "empty_but [PAT, HIST] d" using reaches_17 by blast
  then obtain d' where d': "upgrade_e5f6a7b8c9d0 (link t) d = Inr d'" "shape d' = stage t 18" using deny_revision [of d t] by blast
  have "reaches t (Suc 17) d'" using reaches_Suc [OF d(1), of d'] d'(1) data_revisions(3) by simp
  then have "step_up 18 (link t) new_server = Inr \<lparr>sv_db = d', sv_version = version_at 18\<rparr>" by (simp add: reaches_def del: step_up.simps(2))
  moreover have "version_at 18 = Some ''e5f6a7b8c9d0''" by (simp add: version_at_def REVISIONS_def)
  ultimately have "upgrade_head (link t) new_server = (None, \<lparr>sv_db = d', sv_version = Some ''e5f6a7b8c9d0''\<rparr>)"
    unfolding upgrade_head_def transaction_def length_revisions by (simp only: sum.case)
  then show ?thesis using d'(2) by blast
qed

text \<open>
  C36: a new database is brought to the schema of the models.  On a connection whose search path
  reaches the schema, which the migration environment does not set and the continuous integration
  sets on the database, the upgrade of an empty database runs through all eighteen revisions,
  whatever the time.  It ends with the tables, columns (type, nullability, server default),
  constraints and indexes that the ORM classes declare and, beyond those, only two indexes, the
  unique constraints on the two address columns and the default of one counter.
\<close>

theorem upgrade_reaches_models:
  "\<exists>d. upgrade_head \<lparr>cn_now = t, cn_path = True\<rparr> new_server = (None, \<lparr>sv_db = d, sv_version = Some ''e5f6a7b8c9d0''\<rparr>) \<and> matches_models d"
  using upgrade_succeeds [of t] head_shape [of t] matches_shape unfolding link_def by metis

theorem seeded_formats_blocked_witness:
  "\<exists>d'. upgrade_e5f6a7b8c9d0 \<lparr>cn_now = 0, cn_path = True\<rparr> (stage 0 17) = Inr d' \<and>
     fst (is_blocked (migrated_blocklist d') (u ''a'' @ 46 # u ''ZIP'') (u ''text/plain''))"
proof -
  obtain d' where d': "upgrade_e5f6a7b8c9d0 (link 0) (stage 0 17) = Inr d'"
    using deny_revision [of "stage 0 17" 0] stage_empty [of 17 0] by (auto simp: empty_but_def)
  have zip: "(Some (u ''zip''), Some (u ''application/zip''), u ''archive container'') \<in> set SEED" by (simp add: SEED_def)
  have "list_all ascii_alnum (u ''ZIP'')" "lower (u ''ZIP'') = lower (u ''zip'')"
    by (simp_all add: u_def ascii_alnum_def lower_Cons lower_char_ascii)
  from seeded_formats_blocked [OF d' zip this]
  have "fst (is_blocked (migrated_blocklist d') (u ''a'' @ 46 # u ''ZIP'') (u ''text/plain''))" .
  then show ?thesis using d' by (auto simp: link_def)
qed

end
