(* ===== verification/Key_File.thy ===== *)
theory Key_File
  imports Hmac_Auth Settings
begin

text \<open>
  The two command lines that manage API keys: \<^verbatim>\<open>scripts/manage_keys.py\<close>, which keeps the keys in a
  JSON file and upserts them into the table \<^verbatim>\<open>pii.api_keys\<close>, and \<^verbatim>\<open>app/cli/apikey.py\<close>, which works on
  the table.  The file is read as \<^verbatim>\<open>json.loads\<close> reads it, whatever it holds, so a command may fail
  with the exception the missing or ill-typed member raises.  Random bytes and clock readings are
  arguments.  The lemmas show that issuing, disabling, enabling and revoking rewrite one entry of the
  file and that loading is all or nothing; the theorems show that a key revoked in the table stays
  dead however often the file is loaded, and that a key revoked in the file does not become a revoked
  key of the table.
\<close>

section \<open>How a command ends\<close>

datatype script_exit =
    Uncaught exn
  | Attribute_error
  | Unreadable
  | Bad_json jerr
  | Write_failed write_error
  | Db_error
  | Key_not_found ustr
  | Name_required
  | Usage int

section \<open>The file\<close>

definition EMPTY_REGISTRY :: json where
  "EMPTY_REGISTRY =
     JObj [(u ''version'', JInt 1),
           (u ''description'', JStr (u ''PII Detection API - HMAC-SHA256 '' @ [53412, 32, 47112, 51648, 49828, 53944, 47532])),
           (u ''warning'', JStr ([51060, 32, 54028, 51068, 50640, 45716, 32, 48708, 48128, 32, 53412, 44032, 32, 54252, 54632, 46121, 45768, 45796, 46, 32] @ u ''git'' @
              [50640, 32, 52964, 48139, 54616, 51648, 32, 47560, 49901, 49884, 50724, 46])),
           (u ''keys'', JArr [])]"

definition load_registry :: "recursion_limits \<Rightarrow> settings_file \<Rightarrow> script_exit + json" where
  "load_registry rl f =
     (case f of
        Missing \<Rightarrow> Inr EMPTY_REGISTRY
      | Undecodable \<Rightarrow> Inl Unreadable
      | Contents s \<Rightarrow> (case loads (load_depth rl) s of Inl e \<Rightarrow> Inl (Bad_json e) | Inr data \<Rightarrow> Inr data))"

text \<open>Opening truncates the file before the text is encoded, as in \<open>set_value\<close>.\<close>

definition save_registry :: "recursion_limits \<Rightarrow> json \<Rightarrow> settings_file \<Rightarrow> (script_exit + unit) \<times> settings_file" where
  "save_registry rl data f =
     (if dump_depth rl < json_depth data then (Inl (Write_failed Too_deep), f)
      else let s = dumps (Some 2) 0 data @ [10] in
        if encodable s then (Inr (), Contents s) else (Inl (Write_failed Not_encodable), Contents []))"

section \<open>Entries\<close>

text \<open>\<^verbatim>\<open>x["name"]\<close> of a JSON value: only an object has string subscripts.\<close>

definition subscript :: "json \<Rightarrow> string \<Rightarrow> script_exit + json" where
  "subscript x name =
     (case x of
        JObj kvs \<Rightarrow> (case map_of kvs (u name) of None \<Rightarrow> Inl (Uncaught KeyError) | Some v \<Rightarrow> Inr v)
      | _ \<Rightarrow> Inl (Uncaught TypeError))"

text \<open>What \<^verbatim>\<open>for k in x\<close> runs over: the keys of an object, the characters of a string.\<close>

definition iterate :: "json \<Rightarrow> script_exit + json list" where
  "iterate x =
     (case x of
        JArr vs \<Rightarrow> Inr vs
      | JObj kvs \<Rightarrow> Inr (map (\<lambda>(k, v). JStr k) kvs)
      | JStr s \<Rightarrow> Inr (map (\<lambda>c. JStr [c]) s)
      | _ \<Rightarrow> Inl (Uncaught TypeError))"

definition entries :: "json \<Rightarrow> script_exit + json list" where
  "entries data = (case subscript data ''keys'' of Inl e \<Rightarrow> Inl e | Inr ks \<Rightarrow> iterate ks)"

text \<open>The position of the first entry with the key id.\<close>

fun find_from :: "ustr \<Rightarrow> json list \<Rightarrow> script_exit + nat option" where
  "find_from key_id [] = Inr None"
| "find_from key_id (k # ks) =
     (case subscript k ''key_id'' of
        Inl e \<Rightarrow> Inl e
      | Inr v \<Rightarrow> if v = JStr key_id then Inr (Some 0)
                else (case find_from key_id ks of Inl e \<Rightarrow> Inl e | Inr r \<Rightarrow> Inr (map_option Suc r)))"

definition find_entry :: "json \<Rightarrow> ustr \<Rightarrow> script_exit + nat option" where
  "find_entry data key_id = (case entries data of Inl e \<Rightarrow> Inl e | Inr ks \<Rightarrow> find_from key_id ks)"

text \<open>\<^verbatim>\<open>entry["name"] = v\<close> for several names, on the entry at a position of \<^verbatim>\<open>data["keys"]\<close>.\<close>

definition set_members :: "(string \<times> json) list \<Rightarrow> json \<Rightarrow> json" where
  "set_members sets x =
     (case x of JObj kvs \<Rightarrow> JObj (fold (\<lambda>(n, v). put (u n) v) sets kvs) | _ \<Rightarrow> x)"

definition with_keys :: "(json list \<Rightarrow> json list) \<Rightarrow> json \<Rightarrow> json" where
  "with_keys f data =
     (case data of
        JObj kvs \<Rightarrow>
          (case map_of kvs (u ''keys'') of
             Some (JArr ks) \<Rightarrow> JObj (put (u ''keys'') (JArr (f ks)) kvs)
           | _ \<Rightarrow> data)
      | _ \<Rightarrow> data)"

section \<open>The commands on the file\<close>

definition KEY_ID_BYTES :: nat where "KEY_ID_BYTES = 16"
definition SECRET_BYTES :: nat where "SECRET_BYTES = 32"

text \<open>The random bytes come from \<^verbatim>\<open>secrets\<close>, which hands out \<open>KEY_ID_BYTES\<close> and \<open>SECRET_BYTES\<close> of them.\<close>

definition token_hex :: "nat \<Rightarrow> (nat \<Rightarrow> bytes) \<Rightarrow> ustr" where
  "token_hex n token_bytes = hexdigest (token_bytes n)"

definition new_entry :: "ustr \<Rightarrow> ustr \<Rightarrow> ustr \<Rightarrow> ustr list option \<Rightarrow> ustr \<Rightarrow> json" where
  "new_entry key_id secret name ip_allowlist now =
     JObj [(u ''key_id'', JStr key_id), (u ''secret'', JStr secret), (u ''name'', JStr name),
           (u ''description'', JStr []), (u ''rate_per_minute'', JInt 60), (u ''rate_per_hour'', JInt 1000),
           (u ''ip_allowlist'', (case ip_allowlist of None \<Rightarrow> JNull | Some l \<Rightarrow> JArr (map JStr l))),
           (u ''is_admin'', JBool False), (u ''created_by'', JStr (u ''admin'')), (u ''created_at'', JStr now),
           (u ''enabled'', JBool True), (u ''revoked_at'', JNull)]"

text \<open>\<^verbatim>\<open>data["keys"].append(entry)\<close>.\<close>

definition append_entry :: "json \<Rightarrow> json \<Rightarrow> script_exit + json" where
  "append_entry data entry =
     (case subscript data ''keys'' of
        Inl e \<Rightarrow> Inl e
      | Inr (JArr ks) \<Rightarrow> Inr (with_keys (\<lambda>ks. ks @ [entry]) data)
      | Inr _ \<Rightarrow> Inl Attribute_error)"

definition cmd_issue ::
  "recursion_limits \<Rightarrow> (nat \<Rightarrow> bytes) \<Rightarrow> (nat \<Rightarrow> bytes) \<Rightarrow> ustr \<Rightarrow> ustr \<Rightarrow> ustr list option \<Rightarrow> settings_file
     \<Rightarrow> (script_exit + ustr \<times> ustr) \<times> settings_file" where
  "cmd_issue rl id_bytes secret_bytes now name ip_allowlist f =
     (let key_id = u ''k_'' @ token_hex KEY_ID_BYTES id_bytes;
          secret = token_hex SECRET_BYTES secret_bytes
      in case load_registry rl f of
           Inl e \<Rightarrow> (Inl e, f)
         | Inr data \<Rightarrow>
             (case append_entry data (new_entry key_id secret name ip_allowlist now) of
                Inl e \<Rightarrow> (Inl e, f)
              | Inr data' \<Rightarrow>
                  (case save_registry rl data' f of
                     (Inl e, f') \<Rightarrow> (Inl e, f')
                   | (Inr _, f') \<Rightarrow> (Inr (key_id, secret), f'))))"

text \<open>
  \<^verbatim>\<open>cmd_disable\<close>, \<^verbatim>\<open>cmd_enable\<close> and \<^verbatim>\<open>cmd_revoke\<close> find the entry, assign members of it and save the whole file.
\<close>

definition rewrite_entry ::
  "recursion_limits \<Rightarrow> ustr \<Rightarrow> (string \<times> json) list \<Rightarrow> settings_file \<Rightarrow> (script_exit + unit) \<times> settings_file" where
  "rewrite_entry rl key_id sets f =
     (case load_registry rl f of
        Inl e \<Rightarrow> (Inl e, f)
      | Inr data \<Rightarrow>
          (case find_entry data key_id of
             Inl e \<Rightarrow> (Inl e, f)
           | Inr None \<Rightarrow> (Inl (Key_not_found key_id), f)
           | Inr (Some i) \<Rightarrow>
               save_registry rl (with_keys (\<lambda>ks. ks[i := set_members sets (ks ! i)]) data) f))"

definition cmd_disable :: "recursion_limits \<Rightarrow> ustr \<Rightarrow> settings_file \<Rightarrow> (script_exit + unit) \<times> settings_file" where
  "cmd_disable rl key_id = rewrite_entry rl key_id [(''enabled'', JBool False)]"

definition cmd_enable :: "recursion_limits \<Rightarrow> ustr \<Rightarrow> settings_file \<Rightarrow> (script_exit + unit) \<times> settings_file" where
  "cmd_enable rl key_id = rewrite_entry rl key_id [(''enabled'', JBool True)]"

definition cmd_revoke :: "recursion_limits \<Rightarrow> ustr \<Rightarrow> ustr \<Rightarrow> settings_file \<Rightarrow> (script_exit + unit) \<times> settings_file" where
  "cmd_revoke rl now key_id = rewrite_entry rl key_id [(''enabled'', JBool False), (''revoked_at'', JStr now)]"

section \<open>Loading the file into the table\<close>

text \<open>
  What the driver accepts for a column: text of bounded length without NUL or lone surrogates; for a
  boolean column whatever equals \<^verbatim>\<open>True\<close> or \<^verbatim>\<open>False\<close>; for a 32-bit column an integer, of which a boolean is
  one.  Anything else, and \<^verbatim>\<open>NULL\<close> in these columns, fails the statement.
\<close>

definition bind_text :: "nat option \<Rightarrow> json \<Rightarrow> ustr option" where
  "bind_text n v =
     (case v of
        JStr s \<Rightarrow> if encodable s \<and> 0 \<notin> set s \<and> (case n of None \<Rightarrow> True | Some k \<Rightarrow> length s \<le> k) then Some s else None
      | _ \<Rightarrow> None)"

definition bind_bool :: "json \<Rightarrow> bool option" where
  "bind_bool v =
     (case v of
        JBool b \<Rightarrow> Some b
      | JInt i \<Rightarrow> if i = 0 \<or> i = 1 then Some (i = 1) else None
      | JDec m k \<Rightarrow> if m = 0 \<or> m = 10 ^ k then Some (m \<noteq> 0) else None
      | _ \<Rightarrow> None)"

definition bind_int4 :: "json \<Rightarrow> int option" where
  "bind_int4 v =
     (case v of
        JInt i \<Rightarrow> if - (2 ^ 31) \<le> i \<and> i < 2 ^ 31 then Some i else None
      | JBool b \<Rightarrow> Some (if b then 1 else 0)
      | _ \<Rightarrow> None)"

fun bind_each :: "('a \<Rightarrow> 'b option) \<Rightarrow> 'a list \<Rightarrow> 'b list option" where
  "bind_each f [] = Some []"
| "bind_each f (x # xs) =
     (case f x of None \<Rightarrow> None | Some y \<Rightarrow> map_option (Cons y) (bind_each f xs))"

text \<open>\<^verbatim>\<open>ARRAY(Text)\<close>, nullable.\<close>

definition bind_text_array :: "json \<Rightarrow> ustr list option option" where
  "bind_text_array v =
     (case v of
        JNull \<Rightarrow> Some None
      | JArr vs \<Rightarrow> map_option Some (bind_each (bind_text None) vs)
      | _ \<Rightarrow> None)"

text \<open>\<^verbatim>\<open>entry.get(name, default)\<close>; the entry is an object once it has been subscripted.\<close>

definition get_member :: "json \<Rightarrow> string \<Rightarrow> json \<Rightarrow> json" where
  "get_member x name dflt =
     (case x of JObj kvs \<Rightarrow> (case map_of kvs (u name) of None \<Rightarrow> dflt | Some v \<Rightarrow> v) | _ \<Rightarrow> dflt)"

fun subscripts :: "json \<Rightarrow> string list \<Rightarrow> script_exit + json list" where
  "subscripts x [] = Inr []"
| "subscripts x (n # ns) =
     (case subscript x n of
        Inl e \<Rightarrow> Inl e
      | Inr v \<Rightarrow> (case subscripts x ns of Inl e \<Rightarrow> Inl e | Inr vs \<Rightarrow> Inr (v # vs)))"

text \<open>The row the insert proposes; the table checks that both rates are positive.\<close>

definition bind_row :: "json list \<Rightarrow> json \<Rightarrow> json \<Rightarrow> json \<Rightarrow> rat \<Rightarrow> api_key option" where
  "bind_row vs ips admin by now =
     (case vs of
        [kid, sec, nm, rpm, rph, en] \<Rightarrow>
          Option.bind (bind_text (Some 64) kid) (\<lambda>key_id.
          Option.bind (bind_text (Some 128) sec) (\<lambda>secret.
          Option.bind (bind_text (Some 128) nm) (\<lambda>name.
          Option.bind (bind_text_array ips) (\<lambda>allow.
          Option.bind (bind_int4 rpm) (\<lambda>per_minute.
          Option.bind (bind_int4 rph) (\<lambda>per_hour.
          Option.bind (bind_bool en) (\<lambda>enabled.
          Option.bind (bind_bool admin) (\<lambda>is_admin.
          Option.bind (bind_text (Some 64) by) (\<lambda>created_by.
            if 0 < per_minute \<and> 0 < per_hour
            then Some \<lparr>ak_key_id = key_id, ak_secret = secret, ak_name = name, ak_ip_allowlist = allow,
                       ak_rate_per_minute = per_minute, ak_rate_per_hour = per_hour, ak_enabled = enabled,
                       ak_is_admin = is_admin, ak_created_by = created_by, ak_created_at = now,
                       ak_revoked_at = None\<rparr>
            else None)))))))))
      | _ \<Rightarrow> None)"

definition entry_row :: "rat \<Rightarrow> json \<Rightarrow> script_exit + api_key" where
  "entry_row now entry =
     (case subscripts entry [''key_id'', ''secret'', ''name'', ''rate_per_minute'', ''rate_per_hour'', ''enabled''] of
        Inl e \<Rightarrow> Inl e
      | Inr vs \<Rightarrow>
          (case bind_row vs (get_member entry ''ip_allowlist'' JNull) (get_member entry ''is_admin'' (JBool False))
                  (get_member entry ''created_by'' (JStr (u ''import''))) now of
             None \<Rightarrow> Inl Db_error
           | Some row \<Rightarrow> Inr row))"

text \<open>\<^verbatim>\<open>ON CONFLICT (key_id) DO UPDATE SET secret, enabled, name\<close>.\<close>

definition upsert_key :: "api_key \<Rightarrow> api_key list \<Rightarrow> api_key list" where
  "upsert_key row keys =
     (if ak_key_id row \<in> set (map ak_key_id keys)
      then update_key (ak_key_id row)
             (\<lambda>k. k\<lparr>ak_secret := ak_secret row, ak_enabled := ak_enabled row, ak_name := ak_name row\<rparr>) keys
      else keys @ [row])"

fun upsert_all :: "rat \<Rightarrow> json list \<Rightarrow> api_key list \<Rightarrow> script_exit + api_key list" where
  "upsert_all now [] keys = Inr keys"
| "upsert_all now (e # es) keys =
     (case entry_row now e of Inl x \<Rightarrow> Inl x | Inr row \<Rightarrow> upsert_all now es (upsert_key row keys))"

text \<open>
  One session runs every statement and commits at the end, so a failing entry rolls all of them back.
  The result is the number of keys printed.
\<close>

definition cmd_load_db :: "recursion_limits \<Rightarrow> rat \<Rightarrow> settings_file \<Rightarrow> api_key list \<Rightarrow> (script_exit + nat) \<times> api_key list" where
  "cmd_load_db rl now f keys =
     (case load_registry rl f of
        Inl e \<Rightarrow> (Inl e, keys)
      | Inr data \<Rightarrow>
          (case entries data of
             Inl e \<Rightarrow> (Inl e, keys)
           | Inr ks \<Rightarrow>
               (case upsert_all now ks keys of
                  Inl e \<Rightarrow> (Inl e, keys)
                | Inr keys' \<Rightarrow> (Inr (length ks), keys'))))"

section \<open>The command line of the script\<close>

record key_world =
  kw_file :: settings_file
  kw_table :: "api_key list"

text \<open>What the script reads besides its arguments: random bytes, the clock as text, the database's clock.\<close>

record key_env =
  ke_limits :: recursion_limits
  ke_id_bytes :: "nat \<Rightarrow> bytes"
  ke_secret_bytes :: "nat \<Rightarrow> bytes"
  ke_now :: ustr
  ke_dbnow :: rat

definition comma_list :: "ustr \<Rightarrow> ustr list" where
  "comma_list s = map strip (filter (\<lambda>c. strip c \<noteq> []) (split_on 44 s))"

fun issue_options :: "ustr list \<Rightarrow> ustr option \<Rightarrow> ustr list option \<Rightarrow> ustr option \<times> ustr list option" where
  "issue_options [] name ips = (name, ips)"
| "issue_options [a] name ips = (name, ips)"
| "issue_options (a # b # rest) name ips =
     (if a = u ''--name'' then issue_options rest (Some b) ips
      else if a = u ''--ip'' then issue_options rest name (Some (comma_list b))
      else issue_options (b # rest) name ips)"

text \<open>
  The rows \<^verbatim>\<open>list\<close> prints, as the values it formats; the padding to columns is not modelled.  A slice of a
  dictionary is a missing key, and a width in the format refuses \<^verbatim>\<open>None\<close>, lists and dictionaries.
\<close>

definition slice_23 :: "json \<Rightarrow> script_exit + json" where
  "slice_23 v =
     (case v of
        JStr s \<Rightarrow> Inr (JStr (take 23 s))
      | JArr vs \<Rightarrow> Inr (JArr (take 23 vs))
      | JObj kvs \<Rightarrow> Inl (Uncaught KeyError)
      | _ \<Rightarrow> Inl (Uncaught TypeError))"

definition takes_width :: "json \<Rightarrow> bool" where
  "takes_width v = (case v of JNull \<Rightarrow> False | JArr vs \<Rightarrow> False | JObj kvs \<Rightarrow> False | _ \<Rightarrow> True)"

definition list_row :: "json \<Rightarrow> script_exit + json list" where
  "list_row k =
     (case subscripts k [''key_id'', ''name''] of
        Inl e \<Rightarrow> Inl e
      | Inr vs \<Rightarrow>
          (case slice_23 (vs ! 1) of
             Inl e \<Rightarrow> Inl e
           | Inr name \<Rightarrow>
               (case subscripts k [''enabled'', ''created_at''] of
                  Inl e \<Rightarrow> Inl e
                | Inr ws \<Rightarrow>
                    if takes_width (vs ! 0) \<and> takes_width name
                    then Inr [vs ! 0, name, JStr (u (if truthy_json (ws ! 0) then ''Y'' else ''n'')), ws ! 1]
                    else Inl (Uncaught TypeError))))"

fun list_rows :: "json list \<Rightarrow> script_exit + json list list" where
  "list_rows [] = Inr []"
| "list_rows (k # ks) =
     (case list_row k of
        Inl e \<Rightarrow> Inl e
      | Inr r \<Rightarrow> (case list_rows ks of Inl e \<Rightarrow> Inl e | Inr rs \<Rightarrow> Inr (r # rs)))"

definition cmd_list :: "recursion_limits \<Rightarrow> settings_file \<Rightarrow> script_exit + json list list" where
  "cmd_list rl f =
     (case load_registry rl f of
        Inl e \<Rightarrow> Inl e
      | Inr data \<Rightarrow> (case entries data of Inl e \<Rightarrow> Inl e | Inr ks \<Rightarrow> list_rows ks))"

datatype script_output = Done | Issued ustr ustr "ustr list option" | Loaded nat | Listed "json list list"

definition on_file ::
  "(settings_file \<Rightarrow> (script_exit + 'a) \<times> settings_file) \<Rightarrow> ('a \<Rightarrow> script_output) \<Rightarrow> key_world
     \<Rightarrow> (script_exit + script_output) \<times> key_world" where
  "on_file cmd out w =
     (let (r, f) = cmd (kw_file w)
      in ((case r of Inl e \<Rightarrow> Inl e | Inr x \<Rightarrow> Inr (out x)), w\<lparr>kw_file := f\<rparr>))"

definition keys_main :: "key_env \<Rightarrow> ustr list \<Rightarrow> key_world \<Rightarrow> (script_exit + script_output) \<times> key_world" where
  "keys_main env args w =
     (let rl = ke_limits env in
      if args = [] then (Inl (Usage 0), w)
      else let cmd = hd args in
      if cmd = u ''issue'' then
        (case issue_options (tl args) None None of
           (None, ips) \<Rightarrow> (Inl Name_required, w)
         | (Some name, ips) \<Rightarrow>
             if name = [] then (Inl Name_required, w)
             else on_file (cmd_issue rl (ke_id_bytes env) (ke_secret_bytes env) (ke_now env) name ips)
                    (\<lambda>(k, s). Issued k s ips) w)
      else if cmd = u ''list'' then on_file (\<lambda>f. (cmd_list rl f, f)) Listed w
      else if cmd = u ''disable'' \<and> 2 \<le> length args then on_file (cmd_disable rl (args ! 1)) (\<lambda>_. Done) w
      else if cmd = u ''enable'' \<and> 2 \<le> length args then on_file (cmd_enable rl (args ! 1)) (\<lambda>_. Done) w
      else if cmd = u ''revoke'' \<and> 2 \<le> length args then on_file (cmd_revoke rl (ke_now env) (args ! 1)) (\<lambda>_. Done) w
      else if cmd = u ''load-db'' then
        (let (r, keys) = cmd_load_db rl (ke_dbnow env) (kw_file w) (kw_table w)
         in ((case r of Inl e \<Rightarrow> Inl e | Inr n \<Rightarrow> Inr (Loaded n)), w\<lparr>kw_table := keys\<rparr>))
      else (Inl (Usage 1), w))"

section \<open>The command line on the table\<close>

text \<open>
  \<^verbatim>\<open>app/cli/apikey.py\<close>.  \<^verbatim>\<open>_with_session\<close> commits when the operation returns; an \<^verbatim>\<open>ApiKeyError\<close> becomes a usage
  error and nothing is committed.
\<close>

datatype cli_exit = Bad_parameter

definition with_session :: "(api_key list \<Rightarrow> api_key_error + 'a \<times> api_key list) \<Rightarrow> api_key list \<Rightarrow> (cli_exit + 'a) \<times> api_key list" where
  "with_session body keys =
     (case body keys of Inl e \<Rightarrow> (Inl Bad_parameter, keys) | Inr (x, keys') \<Rightarrow> (Inr x, keys'))"

definition no_result :: "api_key_error + api_key list \<Rightarrow> api_key_error + unit \<times> api_key list" where
  "no_result r = (case r of Inl e \<Rightarrow> Inl e | Inr keys \<Rightarrow> Inr ((), keys))"

definition apikey_issue ::
  "ustr \<Rightarrow> ustr \<Rightarrow> rat \<Rightarrow> ustr \<Rightarrow> int \<Rightarrow> int \<Rightarrow> ustr \<Rightarrow> bool \<Rightarrow> ustr \<Rightarrow> api_key list
     \<Rightarrow> (cli_exit + api_key \<times> ustr) \<times> api_key list" where
  "apikey_issue key_id secret now name rpm rph ip_allowlist admin created_by =
     (let l = comma_list ip_allowlist; cidrs = (if l = [] then None else Some l)
      in with_session (\<lambda>keys. issue_api_key keys key_id secret name cidrs rpm rph created_by admin now))"

definition apikey_disable :: "ustr \<Rightarrow> api_key list \<Rightarrow> (cli_exit + unit) \<times> api_key list" where
  "apikey_disable key_id = with_session (\<lambda>keys. no_result (set_enabled keys key_id False))"

definition apikey_enable :: "ustr \<Rightarrow> api_key list \<Rightarrow> (cli_exit + unit) \<times> api_key list" where
  "apikey_enable key_id = with_session (\<lambda>keys. no_result (set_enabled keys key_id True))"

definition apikey_revoke :: "rat \<Rightarrow> ustr \<Rightarrow> api_key list \<Rightarrow> (cli_exit + unit) \<times> api_key list" where
  "apikey_revoke now key_id = with_session (\<lambda>keys. no_result (revoke keys key_id now))"

text \<open>The rows \<^verbatim>\<open>list\<close> prints: key id, name, rates, flag and time of revocation.\<close>

definition apikey_list :: "bool \<Rightarrow> api_key list \<Rightarrow> (ustr \<times> ustr \<times> ustr \<times> ustr \<times> rat option) list" where
  "apikey_list include_revoked keys =
     map (\<lambda>r. (ak_key_id r, take 23 (ak_name r),
               str_int (ak_rate_per_minute r) @ u ''/'' @ str_int (ak_rate_per_hour r),
               u (if ak_enabled r then ''Y'' else ''n''), ak_revoked_at r))
       (list_keys keys include_revoked)"

text \<open>The table after each command is what the operation of the key lifecycle leaves.\<close>

lemma apikey_run_key_op:
  "snd (apikey_disable kid keys) = run_key_op (K_disable kid) keys"
  "snd (apikey_enable kid keys) = run_key_op (K_enable kid) keys"
  "snd (apikey_revoke now kid keys) = run_key_op (K_revoke kid now) keys"
  "snd (apikey_issue kid sec now nm rpm rph ips admin by keys) =
     run_key_op (K_issue kid sec nm (if comma_list ips = [] then None else Some (comma_list ips)) rpm rph by admin now) keys"
  by (simp_all add: apikey_disable_def apikey_enable_def apikey_revoke_def apikey_issue_def with_session_def
      no_result_def keep_on_error_def Let_def split: sum.splits)

section \<open>Loading, row by row\<close>

lemma entry_row_fields:
  assumes "entry_row now e = Inr row"
  shows "subscript e ''key_id'' = Inr (JStr (ak_key_id row)) \<and> ak_revoked_at row = None \<and>
         0 < ak_rate_per_minute row \<and> 0 < ak_rate_per_hour row"
  using assms
  by (auto simp: entry_row_def bind_row_def bind_text_def split: sum.splits option.splits list.splits
      Option.bind_splits if_splits json.splits)

lemma find_upsert_key:
  "find_active_key (upsert_key row keys) kid =
     (case find_active_key keys kid of
        Some r \<Rightarrow> Some (if kid = ak_key_id row
                       then r\<lparr>ak_secret := ak_secret row, ak_enabled := ak_enabled row, ak_name := ak_name row\<rparr> else r)
      | None \<Rightarrow> if kid = ak_key_id row then Some row else None)"
proof (cases "ak_key_id row \<in> set (map ak_key_id keys)")
  case True
  then have "find_active_key keys (ak_key_id row) \<noteq> None"
    by (auto simp: find_active_key_def find_None_iff)
  with True show ?thesis by (auto simp: upsert_key_def find_update_key split: option.splits)
next
  case False
  then show ?thesis
    by (induction keys) (auto simp: upsert_key_def find_active_key_def)
qed

lemma upsert_key_ok:
  "keys_ok keys \<Longrightarrow> 0 < ak_rate_per_minute row \<Longrightarrow> 0 < ak_rate_per_hour row \<Longrightarrow> keys_ok (upsert_key row keys)"
  by (auto simp: upsert_key_def intro!: keys_ok_update_key) (auto simp: keys_ok_def)

text \<open>Loading keeps the time of revocation of every key of the table, and gives a new key none.\<close>

lemma upsert_all_revoked_at:
  assumes "upsert_all now es keys = Inr keys'"
  shows "case find_active_key keys kid of
           Some r \<Rightarrow> \<exists>r'. find_active_key keys' kid = Some r' \<and> ak_revoked_at r' = ak_revoked_at r
         | None \<Rightarrow> \<forall>r'. find_active_key keys' kid = Some r' \<longrightarrow> ak_revoked_at r' = None"
  using assms
proof (induction es arbitrary: keys)
  case Nil
  then show ?case by (auto split: option.splits)
next
  case (Cons e es)
  from Cons.prems obtain row where row: "entry_row now e = Inr row"
    and rest: "upsert_all now es (upsert_key row keys) = Inr keys'"
    by (auto split: sum.splits)
  from Cons.IH [OF rest] entry_row_fields [OF row] show ?case
    by (auto simp: find_upsert_key split: option.splits if_splits)
qed

lemma upsert_all_ok: "upsert_all now es keys = Inr keys' \<Longrightarrow> keys_ok keys \<Longrightarrow> keys_ok keys'"
  by (induction es arbitrary: keys) (auto split: sum.splits intro: upsert_key_ok dest: entry_row_fields)

lemma upsert_all_keeps_present:
  "upsert_all now es keys = Inr keys' \<Longrightarrow> find_active_key keys kid \<noteq> None \<Longrightarrow> find_active_key keys' kid \<noteq> None"
  using upsert_all_revoked_at [of now es keys keys' kid] by (auto split: option.splits)

lemma upsert_all_present:
  assumes "upsert_all now es keys = Inr keys'" "e \<in> set es" "subscript e ''key_id'' = Inr (JStr kid)"
  shows "find_active_key keys' kid \<noteq> None"
  using assms
proof (induction es arbitrary: keys)
  case (Cons x es)
  from Cons.prems(1) obtain row where row: "entry_row now x = Inr row"
    and rest: "upsert_all now es (upsert_key row keys) = Inr keys'"
    by (auto split: sum.splits)
  show ?case
  proof (cases "x = e")
    case True
    with entry_row_fields [OF row] Cons.prems(3) have "ak_key_id row = kid" by simp
    then have "find_active_key (upsert_key row keys) kid \<noteq> None"
      by (simp add: find_upsert_key split: option.splits)
    with rest show ?thesis by (rule upsert_all_keeps_present)
  next
    case False
    with Cons rest show ?thesis by simp
  qed
qed simp

lemma cmd_load_db_cases:
  assumes "cmd_load_db rl now f keys = (r, keys')"
  obtains e where "r = Inl e" "keys' = keys"
  | data ks where "load_registry rl f = Inr data" "entries data = Inr ks" "r = Inr (length ks)"
      "upsert_all now ks keys = Inr keys'"
  using assms that by (auto simp: cmd_load_db_def split: sum.splits)

lemma cmd_load_db_ok: "keys_ok keys \<Longrightarrow> keys_ok (snd (cmd_load_db rl now f keys))"
  by (cases "cmd_load_db rl now f keys") (auto elim!: cmd_load_db_cases intro: upsert_all_ok)

lemma cmd_load_db_dead: "dead kid keys \<Longrightarrow> dead kid (snd (cmd_load_db rl now f keys))"
proof (cases "cmd_load_db rl now f keys")
  case (Pair r keys')
  assume d: "dead kid keys"
  from Pair show ?thesis
  proof (cases rule: cmd_load_db_cases)
    case 2
    from upsert_all_revoked_at [OF this(4), of kid] d Pair show ?thesis
      by (auto simp: dead_def)
  qed (use d Pair in simp)
qed

section \<open>Revocation in the table is final\<close>

text \<open>Everything the two command lines do to the table.\<close>

datatype table_op = Lifecycle key_op | Load recursion_limits rat settings_file

fun run_table_op :: "table_op \<Rightarrow> api_key list \<Rightarrow> api_key list" where
  "run_table_op (Lifecycle op) keys = run_key_op op keys"
| "run_table_op (Load rl now f) keys = snd (cmd_load_db rl now f keys)"

lemma run_table_op_ok: "keys_ok keys \<Longrightarrow> keys_ok (run_table_op op keys)"
  by (cases op) (simp_all add: run_key_op_ok cmd_load_db_ok)

lemma run_table_op_dead: "dead kid keys \<Longrightarrow> dead kid (run_table_op op keys)"
  by (cases op) (simp_all add: run_key_op_dead cmd_load_db_dead)

lemma dead_fold: "dead kid keys \<Longrightarrow> dead kid (fold run_table_op ops keys)"
  by (induction ops arbitrary: keys) (simp_all add: run_table_op_dead)

lemma dead_refused:
  assumes "dead kid keys" "hh_api_key h = Some kid"
  shows "verify_request trust keys rq h now dbnow ns \<noteq> (Inr caller, ns')"
    and "\<not> blank (hh_api_key h) \<Longrightarrow> \<not> blank (hh_timestamp h) \<Longrightarrow> \<not> blank (hh_nonce h) \<Longrightarrow> \<not> blank (hh_signature h) \<Longrightarrow>
         check_timestamp (the (hh_timestamp h)) now = Inr () \<Longrightarrow>
         verify_request trust keys rq h now dbnow ns = (Inl (HmacAuthError ''REQ-4014''), ns)"
  using assms by (auto simp: dead_def verify_request_def Let_def split: sum.splits)

text \<open>A file with one enabled entry, for the examples.\<close>

definition sample_limits :: recursion_limits where
  "sample_limits = \<lparr>load_depth = 900, dump_depth = 300\<rparr>"

definition sample_registry :: json where
  "sample_registry = JObj [(u ''keys'', JArr [new_entry (u ''k_1'') (u ''s3cret'') (u ''board'') None (u ''2025-01-01'')])]"

definition sample_file :: settings_file where
  "sample_file = Contents (dumps (Some 2) 0 sample_registry @ [10])"

text \<open>
  C18: revocation in the table is final.  Once a key has been revoked there, after any further sequence
  of issuing, enabling, disabling and revoking commands and of loads of any key files, every request
  that presents that key id is refused, with REQ-4014 whenever it carries all four headers and a
  timestamp inside the window.
\<close>

theorem revoked_forever:
  assumes "revoke keys kid t = Inr keys1" "hh_api_key h = Some kid"
  shows "(\<forall>caller ns'. verify_request trust (fold run_table_op ops keys1) rq h now dbnow ns \<noteq> (Inr caller, ns')) \<and>
         (\<not> blank (hh_api_key h) \<and> \<not> blank (hh_timestamp h) \<and> \<not> blank (hh_nonce h) \<and>
          \<not> blank (hh_signature h) \<and> check_timestamp (the (hh_timestamp h)) now = Inr () \<longrightarrow>
          verify_request trust (fold run_table_op ops keys1) rq h now dbnow ns =
            (Inl (HmacAuthError ''REQ-4014''), ns))"
proof -
  have "dead kid keys1"
    using assms(1) by (auto simp: dead_def revoke_def find_update_key split: option.splits)
  then have d: "dead kid (fold run_table_op ops keys1)" by (rule dead_fold)
  show ?thesis
    using dead_refused(1) [OF d assms(2)] dead_refused(2) [OF d assms(2)] by blast
qed

theorem revoked_forever_witness:
  "verify_request False (fold run_table_op [Lifecycle (K_enable (u ''k_1'')), Load sample_limits 9 sample_file]
      [sample_key\<lparr>ak_enabled := False, ak_revoked_at := Some 5\<rparr>]) sample_request sample_headers 900 900 [] =
     (Inl (HmacAuthError ''REQ-4014''), [])"
proof -
  have r: "revoke [sample_key] (u ''k_1'') 5 = Inr [sample_key\<lparr>ak_enabled := False, ak_revoked_at := Some 5\<rparr>]"
    by (simp add: revoke_def find_active_key_def update_key_def sample_key_def)
  have h: "hh_api_key sample_headers = Some (u ''k_1'')" by (simp add: sample_headers_def)
  have "compute_signature s t n m p b \<noteq> []" for s t n m p b
    using compute_signature_shape(1) by (metis length_0_conv zero_neq_numeral)
  then show ?thesis
    using revoked_forever [OF r h, of False "[Lifecycle (K_enable (u ''k_1'')), Load sample_limits 9 sample_file]"
        sample_request 900 900 "[]"]
    by (simp add: sample_headers_def blank_def check_timestamp_def py_int_1000 TIMESTAMP_WINDOW_SECONDS_def FLOAT_LIMIT_def)
qed

section \<open>Rewriting an entry of the file\<close>

lemma loads_dumps_newline:
  assumes "json_wf v" "json_depth v \<le> d"
  shows "loads d (dumps i l v @ [10]) = Inr v"
proof -
  have "skip_ws (dumps i l v @ [10]) = dumps i l v @ [10]" "\<not> starts_with (dumps i l v @ [10]) [65279]"
    using dumps_hd [OF assms(1), of i l]
    by (cases "dumps i l v"; auto intro!: skip_ws_id simp: starts_with_iff)+
  moreover have "parse_value d (dumps i l v @ [10]) = Inr (v, [10])"
    using parse_value_dumps [OF assms, of "[10]" i l] by (simp add: ends_number_def is09_def)
  ultimately show ?thesis by (simp add: loads_def skip_ws_def is_ws_def)
qed

lemma save_load:
  assumes "save_registry rl data f = (Inr (), f')" "json_wf data" "dump_depth rl \<le> load_depth rl"
  shows "load_registry rl f' = Inr data"
  using assms loads_dumps_newline [OF assms(2), of "load_depth rl" "Some 2" 0]
  by (auto simp: save_registry_def load_registry_def Let_def split: if_splits)

lemma load_registry_wf: "load_registry rl f = Inr data \<Longrightarrow> json_wf data"
  using length_show_nat [of 1 1]
  by (auto simp: load_registry_def EMPTY_REGISTRY_def u_def split: settings_file.splits sum.splits
      dest: loads_wf)

lemma map_of_wf: "list_all (\<lambda>(k, v). json_wf v) kvs \<Longrightarrow> map_of kvs k = Some v \<Longrightarrow> json_wf v"
  by (induction kvs) (auto split: if_splits)

lemma with_keys_wf:
  assumes "json_wf data" "\<And>ks. list_all json_wf ks \<Longrightarrow> list_all json_wf (f ks)"
  shows "json_wf (with_keys f data)"
proof -
  have "json_wf (JObj (put (u ''keys'') (JArr (f ks)) kvs))"
    if "data = JObj kvs" "map_of kvs (u ''keys'') = Some (JArr ks)" for kvs ks
    using assms that map_of_wf [OF _ that(2)] by (auto intro!: put_all put_distinct)
  with assms(1) show ?thesis by (auto simp: with_keys_def split: json.splits option.splits)
qed

lemma put_each_wf:
  "distinct (map fst kvs) \<Longrightarrow> list_all (\<lambda>(k, v). json_wf v) kvs \<Longrightarrow> list_all (\<lambda>(n, v). json_wf v) sets \<Longrightarrow>
   distinct (map fst (fold (\<lambda>(n, v). put (u n) v) sets kvs)) \<and>
   list_all (\<lambda>(k, v). json_wf v) (fold (\<lambda>(n, v). put (u n) v) sets kvs)"
  by (induction sets arbitrary: kvs) (auto intro: put_distinct put_all)

lemma set_members_wf:
  "json_wf x \<Longrightarrow> list_all (\<lambda>(n, v). json_wf v) sets \<Longrightarrow> json_wf (set_members sets x)"
  by (cases x) (use put_each_wf in \<open>auto simp: set_members_def\<close>)

lemma subscript_set_members:
  assumes "n \<notin> set (map fst sets)"
  shows "subscript (set_members sets x) n = subscript x n"
proof -
  have "map_of (fold (\<lambda>(n, v). put (u n) v) sets kvs) (u n) = map_of kvs (u n)" for kvs
    using assms by (induction sets arbitrary: kvs) (auto simp: map_of_put)
  then show ?thesis by (auto simp: subscript_def set_members_def split: json.splits)
qed

lemma entries_with_keys:
  "subscript data ''keys'' = Inr (JArr ks) \<Longrightarrow> entries (with_keys f data) = Inr (f ks)"
  by (auto simp: subscript_def entries_def with_keys_def iterate_def map_of_put
      split: json.splits option.splits)

lemma find_from_Some:
  "find_from kid ks = Inr (Some i) \<Longrightarrow> i < length ks \<and> subscript (ks ! i) ''key_id'' = Inr (JStr kid)"
  by (induction ks arbitrary: i) (auto split: sum.splits if_splits)

lemma find_from_strings: "\<forall>k \<in> set ks. \<exists>s. k = JStr s \<Longrightarrow> find_from kid ks \<noteq> Inr (Some i)"
  by (cases ks) (auto simp: subscript_def)

lemma find_entry_Some:
  assumes "find_entry data kid = Inr (Some i)"
  obtains ks where "subscript data ''keys'' = Inr (JArr ks)" "i < length ks"
    "subscript (ks ! i) ''key_id'' = Inr (JStr kid)"
proof -
  from assms obtain x ks where x: "subscript data ''keys'' = Inr x" "iterate x = Inr ks"
    and f: "find_from kid ks = Inr (Some i)"
    by (auto simp: find_entry_def entries_def split: sum.splits)
  have "x = JArr ks"
  proof (rule ccontr)
    assume "x \<noteq> JArr ks"
    with x(2) have "\<forall>k \<in> set ks. \<exists>s. k = JStr s"
      by (auto simp: iterate_def split: json.splits)
    with f find_from_strings show False by blast
  qed
  with x find_from_Some [OF f] that show thesis by simp
qed

text \<open>After a successful rewrite the file reads as before, with the members of that one entry set.\<close>

lemma rewrite_entry_reads:
  assumes "rewrite_entry rl kid sets f = (Inr (), f')" "dump_depth rl \<le> load_depth rl"
    and "list_all (\<lambda>(n, v). json_wf v) sets"
  obtains data ks i where "load_registry rl f = Inr data" "subscript data ''keys'' = Inr (JArr ks)"
    "i < length ks" "subscript (ks ! i) ''key_id'' = Inr (JStr kid)"
    "load_registry rl f' = Inr (with_keys (\<lambda>ks. ks[i := set_members sets (ks ! i)]) data)"
    "entries (with_keys (\<lambda>ks. ks[i := set_members sets (ks ! i)]) data) = Inr (ks[i := set_members sets (ks ! i)])"
proof -
  let ?f = "\<lambda>i ks. ks[i := set_members sets (ks ! i)]"
  from assms(1) obtain data i where d: "load_registry rl f = Inr data" "find_entry data kid = Inr (Some i)"
    and sv: "save_registry rl (with_keys (?f i) data) f = (Inr (), f')"
    by (auto simp: rewrite_entry_def split: sum.splits option.splits)
  obtain ks where ks: "subscript data ''keys'' = Inr (JArr ks)" "i < length ks"
    "subscript (ks ! i) ''key_id'' = Inr (JStr kid)"
    using d(2) by (rule find_entry_Some)
  have "list_all json_wf (?f i xs)" if "list_all json_wf xs" for xs
  proof (cases "i < length xs")
    case True
    with that assms(3) have "json_wf (set_members sets (xs ! i))"
      by (auto intro!: set_members_wf simp: list_all_length)
    with that show ?thesis by (auto simp: list_all_iff dest!: set_update_subset_insert [THEN subsetD])
  qed (use that in \<open>simp add: list_update_beyond\<close>)
  then have "json_wf (with_keys (?f i) data)"
    using load_registry_wf [OF d(1)] by (intro with_keys_wf)
  from save_load [OF sv this assms(2)] d ks that show thesis
    using entries_with_keys [OF ks(1), of "?f i"] by blast
qed

section \<open>Revocation in the file is not\<close>

definition signed_headers :: "api_key \<Rightarrow> http_request \<Rightarrow> ustr \<Rightarrow> ustr \<Rightarrow> hmac_headers" where
  "signed_headers row rq t n =
     \<lparr>hh_api_key = Some (ak_key_id row), hh_timestamp = Some t, hh_nonce = Some n,
      hh_signature = Some (compute_signature (ak_secret row) t n (rq_method rq) (rq_path rq) (rq_body rq))\<rparr>"

lemma live_key_accepted:
  assumes "keys_ok keys" "row \<in> set keys" "ak_key_id row \<noteq> []" "ak_enabled row" "ak_revoked_at row = None"
    and "py_int t = Some ts" "\<bar>ts\<bar> < FLOAT_LIMIT" "\<bar>now - of_int ts\<bar> \<le> TIMESTAMP_WINDOW_SECONDS" "n \<noteq> []" "length n \<le> 64"
  shows "\<exists>caller ns'. verify_request trust keys rq (signed_headers row rq t n) now dbnow [] = (Inr caller, ns')"
  using assms
  by (intro verify_request_complete [of keys row])
    (auto simp: keys_ok_def acceptable_def signed_headers_def)

lemma enable_live:
  assumes "find_active_key keys kid = Some r"
  shows "apikey_enable kid keys = (Inr (), update_key kid (\<lambda>k. k\<lparr>ak_enabled := True\<rparr>) keys)"
    "find_active_key (update_key kid (\<lambda>k. k\<lparr>ak_enabled := True\<rparr>) keys) kid = Some (r\<lparr>ak_enabled := True\<rparr>)"
  using assms by (simp_all add: apikey_enable_def with_session_def no_result_def set_enabled_def find_update_key)

lemma load_after_rewrite:
  assumes "rewrite_entry rl kid sets f = (Inr (), f1)" "dump_depth rl \<le> load_depth rl"
    and "list_all (\<lambda>(n, v). json_wf v) sets" "''key_id'' \<notin> set (map fst sets)"
    and "cmd_load_db rl t f1 keys = (Inr c, keys1)" "\<not> dead kid keys"
  shows "\<exists>r. find_active_key keys1 kid = Some r \<and> ak_revoked_at r = None"
proof -
  obtain data ks i where ks: "i < length ks" "subscript (ks ! i) ''key_id'' = Inr (JStr kid)"
    and l: "load_registry rl f1 = Inr (with_keys (\<lambda>ks. ks[i := set_members sets (ks ! i)]) data)"
      "entries (with_keys (\<lambda>ks. ks[i := set_members sets (ks ! i)]) data) = Inr (ks[i := set_members sets (ks ! i)])"
    using assms(1-3) by (rule rewrite_entry_reads)
  have up: "upsert_all t (ks[i := set_members sets (ks ! i)]) keys = Inr keys1"
    using assms(5) by (cases rule: cmd_load_db_cases) (use l in auto)
  moreover have "set_members sets (ks ! i) \<in> set (ks[i := set_members sets (ks ! i)])"
    using ks(1) by (rule set_update_memI)
  moreover have "subscript (set_members sets (ks ! i)) ''key_id'' = Inr (JStr kid)"
    using subscript_set_members [OF assms(4)] ks(2) by simp
  ultimately have "find_active_key keys1 kid \<noteq> None" by (rule upsert_all_present)
  with upsert_all_revoked_at [OF up, of kid] assms(6) show ?thesis
    by (auto simp: dead_def split: option.splits)
qed

text \<open>
  C38: a key revoked in the file is not revoked in the table.  When \<open>cmd_revoke\<close> of the script succeeds
  and the file is then loaded, the row of that key has no time of revocation unless it had one before;
  the enable command of the other command line therefore brings the key back, and every request
  signed with its secret within the timestamp window (and a timestamp a float can hold) is accepted.
\<close>

theorem file_revocation_undone:
  assumes "cmd_revoke rl tm kid f = (Inr (), f1)" "dump_depth rl \<le> load_depth rl"
    and "cmd_load_db rl t f1 keys = (Inr c, keys1)" "keys_ok keys" "\<not> dead kid keys" "kid \<noteq> []"
  shows "\<exists>keys2 row. apikey_enable kid keys1 = (Inr (), keys2) \<and> row \<in> set keys2 \<and> ak_key_id row = kid \<and>
    (\<forall>trust rq ts tx n now dbnow. py_int tx = Some ts \<and> \<bar>ts\<bar> < FLOAT_LIMIT \<and> \<bar>now - of_int ts\<bar> \<le> TIMESTAMP_WINDOW_SECONDS \<and>
        n \<noteq> [] \<and> length n \<le> 64 \<longrightarrow>
       (\<exists>caller ns'. verify_request trust keys2 rq (signed_headers row rq tx n) now dbnow [] = (Inr caller, ns')))"
proof -
  obtain r where r: "find_active_key keys1 kid = Some r" "ak_revoked_at r = None"
    using load_after_rewrite [OF assms(1) [unfolded cmd_revoke_def] assms(2) _ _ assms(3,5)] by auto
  let ?keys2 = "update_key kid (\<lambda>k. k\<lparr>ak_enabled := True\<rparr>) keys1" and ?row = "r\<lparr>ak_enabled := True\<rparr>"
  have "keys_ok keys1" using cmd_load_db_ok [OF assms(4), of rl t f1] assms(3) by simp
  then have ok: "keys_ok ?keys2" by (intro keys_ok_update_key) auto
  have row: "?row \<in> set ?keys2" "ak_key_id ?row = kid"
    using find_active_key_Some [OF enable_live(2) [OF r(1)]] by auto
  show ?thesis
    using enable_live(1) [OF r(1)] row live_key_accepted [OF ok row(1)] r(2) assms(6)
    by (intro exI [of _ ?keys2] exI [of _ ?row]) auto
qed

lemma sample_registry_wf: "json_wf sample_registry" "json_depth sample_registry \<le> 300"
  using length_show_nat [of 60 2] length_show_nat [of 1000 4]
  by (simp_all add: sample_registry_def new_entry_def u_def)

lemma sample_file_loads: "load_registry sample_limits sample_file = Inr sample_registry"
  using loads_dumps_newline [OF sample_registry_wf(1), of 900 "Some 2" 0] sample_registry_wf(2)
  by (simp add: load_registry_def sample_file_def sample_limits_def)

definition revoked_sample :: json where
  "revoked_sample = with_keys (\<lambda>ks. ks[0 := set_members [(''enabled'', JBool False), (''revoked_at'', JStr (u ''t''))] (ks ! 0)])
     sample_registry"

lemma revoked_sample_simp:
  "revoked_sample = JObj [(u ''keys'', JArr [JObj [(u ''key_id'', JStr (u ''k_1'')), (u ''secret'', JStr (u ''s3cret'')),
     (u ''name'', JStr (u ''board'')), (u ''description'', JStr []), (u ''rate_per_minute'', JInt 60),
     (u ''rate_per_hour'', JInt 1000), (u ''ip_allowlist'', JNull), (u ''is_admin'', JBool False),
     (u ''created_by'', JStr (u ''admin'')), (u ''created_at'', JStr (u ''2025-01-01'')), (u ''enabled'', JBool False),
     (u ''revoked_at'', JStr (u ''t''))]])]"
  by (simp add: revoked_sample_def with_keys_def sample_registry_def new_entry_def set_members_def)

lemma revoked_sample_wf: "json_wf revoked_sample" "json_depth revoked_sample \<le> 300" "json_encodable revoked_sample"
  using length_show_nat [of 60 2] length_show_nat [of 1000 4]
  by (simp_all add: revoked_sample_simp u_def)

lemma sample_revoke:
  "cmd_revoke sample_limits (u ''t'') (u ''k_1'') sample_file = (Inr (), Contents (dumps (Some 2) 0 revoked_sample @ [10]))"
proof -
  have "find_entry sample_registry (u ''k_1'') = Inr (Some 0)"
    by (simp add: find_entry_def entries_def subscript_def sample_registry_def iterate_def new_entry_def)
  then have "cmd_revoke sample_limits (u ''t'') (u ''k_1'') sample_file = save_registry sample_limits revoked_sample sample_file"
    by (simp add: cmd_revoke_def rewrite_entry_def sample_file_loads revoked_sample_def)
  with revoked_sample_wf(2) encodable_dumps [OF revoked_sample_wf(3), of "Some 2" 0] show ?thesis
    by (simp add: save_registry_def sample_limits_def)
qed

lemma sample_load:
  "cmd_load_db sample_limits 9 (Contents (dumps (Some 2) 0 revoked_sample @ [10])) [] =
     (Inr 1, [sample_key\<lparr>ak_enabled := False, ak_created_by := u ''admin'', ak_created_at := 9\<rparr>])"
proof -
  have "load_registry sample_limits (Contents (dumps (Some 2) 0 revoked_sample @ [10])) = Inr revoked_sample"
    using loads_dumps_newline [OF revoked_sample_wf(1), of 900 "Some 2" 0] revoked_sample_wf(2)
    by (simp add: load_registry_def sample_limits_def)
  then show ?thesis
    by (simp add: cmd_load_db_def) (simp add: revoked_sample_simp entries_def subscript_def iterate_def entry_row_def
        get_member_def bind_row_def bind_text_def bind_text_array_def bind_bool_def bind_int4_def upsert_key_def
        sample_key_def u_def)
qed

theorem file_revocation_undone_witness:
  "\<exists>keys2 row. apikey_enable (u ''k_1'')
      (snd (cmd_load_db sample_limits 9 (snd (cmd_revoke sample_limits (u ''t'') (u ''k_1'') sample_file)) [])) = (Inr (), keys2) \<and>
    row \<in> set keys2 \<and> ak_key_id row = u ''k_1'' \<and>
    (\<exists>caller ns'. verify_request False keys2 sample_request (signed_headers row sample_request (u ''1000'') (u ''n1''))
       900 900 [] = (Inr caller, ns'))"
proof -
  have "dump_depth sample_limits \<le> load_depth sample_limits" by (simp add: sample_limits_def)
  moreover have "keys_ok []" "\<not> dead (u ''k_1'') []" "u ''k_1'' \<noteq> []"
    by (simp_all add: keys_ok_def dead_def find_active_key_def)
  ultimately obtain keys2 row where k: "apikey_enable (u ''k_1'')
      [sample_key\<lparr>ak_enabled := False, ak_created_by := u ''admin'', ak_created_at := 9\<rparr>] = (Inr (), keys2)"
      "row \<in> set keys2" "ak_key_id row = u ''k_1''"
    and a: "\<forall>trust rq ts tx n now dbnow. py_int tx = Some ts \<and> \<bar>ts\<bar> < FLOAT_LIMIT \<and> \<bar>now - of_int ts\<bar> \<le> TIMESTAMP_WINDOW_SECONDS \<and>
        n \<noteq> [] \<and> length n \<le> 64 \<longrightarrow>
       (\<exists>caller ns'. verify_request trust keys2 rq (signed_headers row rq tx n) now dbnow [] = (Inr caller, ns'))"
    using file_revocation_undone [OF sample_revoke _ sample_load] by blast
  have "\<exists>caller ns'. verify_request False keys2 sample_request (signed_headers row sample_request (u ''1000'') (u ''n1''))
       900 900 [] = (Inr caller, ns')"
    using a [rule_format, of "u ''1000''" 1000 900 "u ''n1''"] py_int_1000
    by (simp add: TIMESTAMP_WINDOW_SECONDS_def FLOAT_LIMIT_def)
  with k show ?thesis by (auto simp: sample_revoke sample_load)
qed

end
