(* ===== verification/Paddle.thy ===== *)
theory Paddle
  imports Vlm Extract Hmac_Auth
begin

text \<open>
  \<^verbatim>\<open>app/extractors/ocr_paddle.py\<close>: the optional OCR engine.  PaddleOCR itself is a parameter, a
  function from the image to the value it returns; the model is the reading of that value, which may
  be the dictionaries of version 3 or the nested lists of version 2.  Values are those Python and
  NumPy give, with the exceptions that indexing, iterating, truth tests and \<^verbatim>\<open>int\<close> raise on each of them.
  \<open>str_of\<close> is \<^verbatim>\<open>str\<close> on values other than strings.  The lemmas show that the dictionaries and the nested
  lists are read completely and in order, that boxes have ordered corners, and that a flat list of
  rows, the other shape the code means to accept, is read as an empty page.
\<close>

section \<open>Values\<close>

datatype pv =
    V_none
  | V_int int
  | V_float rat
  | V_inf
  | V_nan
  | V_str ustr
  | V_list "pv list"
  | V_tuple "pv list"
  | V_array "pv list"
  | V_dict "(ustr \<times> pv) list"

text \<open>\<^verbatim>\<open>bool(v)\<close>; an array of several elements has no truth value.\<close>

fun py_truth :: "pv \<Rightarrow> exn + bool" where
  "py_truth V_none = Inr False"
| "py_truth (V_int i) = Inr (i \<noteq> 0)"
| "py_truth (V_float r) = Inr (r \<noteq> 0)"
| "py_truth V_inf = Inr True"
| "py_truth V_nan = Inr True"
| "py_truth (V_str s) = Inr (s \<noteq> [])"
| "py_truth (V_list vs) = Inr (vs \<noteq> [])"
| "py_truth (V_tuple vs) = Inr (vs \<noteq> [])"
| "py_truth (V_dict kvs) = Inr (kvs \<noteq> [])"
| "py_truth (V_array []) = Inr False"
| "py_truth (V_array [v]) = py_truth v"
| "py_truth (V_array (v # w # vs)) = Inl ValueError"

text \<open>\<^verbatim>\<open>list(v)\<close>, and what \<^verbatim>\<open>for p in v\<close> runs over.\<close>

fun py_iter :: "pv \<Rightarrow> exn + pv list" where
  "py_iter (V_list vs) = Inr vs"
| "py_iter (V_tuple vs) = Inr vs"
| "py_iter (V_array vs) = Inr vs"
| "py_iter (V_str s) = Inr (map (\<lambda>c. V_str [c]) s)"
| "py_iter (V_dict kvs) = Inr (map (\<lambda>(k, v). V_str k) kvs)"
| "py_iter _ = Inl TypeError"

text \<open>\<^verbatim>\<open>len(v)\<close>.\<close>

definition py_len :: "pv \<Rightarrow> exn + nat" where
  "py_len v = map_sum id length (py_iter v)"

text \<open>\<^verbatim>\<open>v[i]\<close> with a small literal index; the keys of a dictionary are strings.\<close>

definition py_index :: "pv \<Rightarrow> nat \<Rightarrow> exn + pv" where
  "py_index v i =
     (case v of
        V_dict kvs \<Rightarrow> Inl KeyError
      | _ \<Rightarrow> (case py_iter v of
               Inl e \<Rightarrow> Inl e
             | Inr vs \<Rightarrow> if i < length vs then Inr (vs ! i) else Inl IndexError))"

text \<open>\<^verbatim>\<open>int(v)\<close>.\<close>

fun py_int_of :: "pv \<Rightarrow> exn + int" where
  "py_int_of (V_int i) = Inr i"
| "py_int_of (V_float r) = Inr (if r < 0 then - \<lfloor>- r\<rfloor> else \<lfloor>r\<rfloor>)"
| "py_int_of V_inf = Inl OverflowError"
| "py_int_of V_nan = Inl ValueError"
| "py_int_of (V_str s) = (case py_int s of None \<Rightarrow> Inl ValueError | Some i \<Rightarrow> Inr i)"
| "py_int_of (V_array [v]) = py_int_of v"
| "py_int_of _ = Inl TypeError"

section \<open>Boxes\<close>

text \<open>\<^verbatim>\<open>[int(p[i]) for p in bbox]\<close>.\<close>

fun coordinates :: "nat \<Rightarrow> pv list \<Rightarrow> exn + int list" where
  "coordinates i [] = Inr []"
| "coordinates i (p # ps) =
     (case py_index p i of
        Inl e \<Rightarrow> Inl e
      | Inr v \<Rightarrow>
          (case py_int_of v of
             Inl e \<Rightarrow> Inl e
           | Inr x \<Rightarrow> (case coordinates i ps of Inl e \<Rightarrow> Inl e | Inr xs \<Rightarrow> Inr (x # xs))))"

definition bounding_box :: "pv \<Rightarrow> ustr \<Rightarrow> exn + ocr_box" where
  "bounding_box bbox text =
     (case py_iter bbox of
        Inl e \<Rightarrow> Inl e
      | Inr ps \<Rightarrow>
          (case coordinates 0 ps of
             Inl e \<Rightarrow> Inl e
           | Inr xs \<Rightarrow>
               (case coordinates 1 ps of
                  Inl e \<Rightarrow> Inl e
                | Inr ys \<Rightarrow>
                    if xs = [] then Inl ValueError
                    else Inr \<lparr>ob_x1 = Min (set xs), ob_y1 = Min (set ys), ob_x2 = Max (set xs), ob_y2 = Max (set ys),
                              ob_text = text\<rparr>)))"

text \<open>\<^verbatim>\<open>except (TypeError, IndexError, ValueError)\<close>: any other exception leaves the function.\<close>

definition box_or_none :: "pv \<Rightarrow> ustr \<Rightarrow> exn + ocr_box option" where
  "box_or_none bbox text =
     (case bounding_box bbox text of
        Inl e \<Rightarrow> if e \<in> {TypeError, IndexError, ValueError} then Inr None else Inl e
      | Inr b \<Rightarrow> Inr (Some b))"

section \<open>Version 3\<close>

definition to_text :: "(pv \<Rightarrow> ustr) \<Rightarrow> pv \<Rightarrow> ustr" where
  "to_text str_of v = (case v of V_str s \<Rightarrow> s | _ \<Rightarrow> str_of v)"

text \<open>\<^verbatim>\<open>list(page.get(name) or [])\<close>; only a dictionary has \<^verbatim>\<open>get\<close>, the error for the rest is any exception.\<close>

definition page_list :: "pv \<Rightarrow> string \<Rightarrow> exn + pv list" where
  "page_list page name =
     (case page of
        V_dict kvs \<Rightarrow>
          (let v = (case map_of kvs (u name) of None \<Rightarrow> V_none | Some v \<Rightarrow> v)
           in case py_truth v of Inl e \<Rightarrow> Inl e | Inr b \<Rightarrow> if b then py_iter v else Inr [])
      | _ \<Rightarrow> Inl RuntimeError)"

type_synonym reading = "ustr list \<times> ocr_box list"

definition add_reading :: "ustr \<Rightarrow> ocr_box option \<Rightarrow> reading \<Rightarrow> reading" where
  "add_reading text b r = (text # fst r, (case b of None \<Rightarrow> [] | Some x \<Rightarrow> [x]) @ snd r)"

fun read_texts :: "(pv \<Rightarrow> ustr) \<Rightarrow> nat \<Rightarrow> pv list \<Rightarrow> pv list \<Rightarrow> exn + reading" where
  "read_texts str_of idx polys [] = Inr ([], [])"
| "read_texts str_of idx polys (t # ts) =
     (let text = to_text str_of t;
          bbox = (if idx < length polys then polys ! idx else V_none)
      in case (if bbox = V_none then Inr None else box_or_none bbox text) of
           Inl e \<Rightarrow> Inl e
         | Inr b \<Rightarrow> map_sum id (add_reading text b) (read_texts str_of (Suc idx) polys ts))"

definition append_reading :: "reading \<Rightarrow> reading \<Rightarrow> reading" where
  "append_reading r s = (fst r @ fst s, snd r @ snd s)"

fun read_pages :: "(pv \<Rightarrow> ustr) \<Rightarrow> pv list \<Rightarrow> exn + reading" where
  "read_pages str_of [] = Inr ([], [])"
| "read_pages str_of (page # pages) =
     (case page_list page ''rec_texts'' of
        Inl e \<Rightarrow> Inl e
      | Inr texts \<Rightarrow>
          (case page_list page ''rec_polys'' of
             Inl e \<Rightarrow> Inl e
           | Inr polys \<Rightarrow>
               (case read_texts str_of 0 polys texts of
                  Inl e \<Rightarrow> Inl e
                | Inr r \<Rightarrow> map_sum id (append_reading r) (read_pages str_of pages))))"

section \<open>Version 2\<close>

text \<open>One candidate: the box, and a text that may stand in a pair with its confidence.\<close>

definition payload_text :: "(pv \<Rightarrow> ustr) \<Rightarrow> pv \<Rightarrow> ustr" where
  "payload_text str_of payload =
     (case payload of
        V_list (v # vs) \<Rightarrow> to_text str_of v
      | V_tuple (v # vs) \<Rightarrow> to_text str_of v
      | _ \<Rightarrow> to_text str_of payload)"

definition read_item :: "(pv \<Rightarrow> ustr) \<Rightarrow> pv \<Rightarrow> exn + reading" where
  "read_item str_of item =
     (case py_truth item of
        Inl e \<Rightarrow> Inl e
      | Inr b \<Rightarrow>
          if \<not> b then Inr ([], [])
          else case py_len item of
            Inl e \<Rightarrow> Inl e
          | Inr n \<Rightarrow>
              if n < 2 then Inr ([], [])
              else case py_index item 0 of
                Inl e \<Rightarrow> Inl e
              | Inr bbox \<Rightarrow>
                  (case py_index item 1 of
                     Inl e \<Rightarrow> Inl e
                   | Inr payload \<Rightarrow>
                       (let text = payload_text str_of payload
                        in case box_or_none bbox text of
                             Inl e \<Rightarrow> Inl e
                           | Inr None \<Rightarrow> Inr ([], [])
                           | Inr (Some x) \<Rightarrow> Inr ([text], [x]))))"

fun read_items :: "(pv \<Rightarrow> ustr) \<Rightarrow> pv list \<Rightarrow> exn + reading" where
  "read_items str_of [] = Inr ([], [])"
| "read_items str_of (item # items) =
     (case read_item str_of item of
        Inl e \<Rightarrow> Inl e
      | Inr r \<Rightarrow> map_sum id (append_reading r) (read_items str_of items))"

text \<open>\<^verbatim>\<open>items = row if isinstance(row[0], list) and len(row[0]) >= 2 else [row]\<close>.\<close>

definition row_items :: "pv \<Rightarrow> exn + pv list" where
  "row_items row =
     (case py_index row 0 of
        Inl e \<Rightarrow> Inl e
      | Inr (V_list vs) \<Rightarrow> if 2 \<le> length vs then py_iter row else Inr [row]
      | Inr v \<Rightarrow> Inr [row])"

fun read_rows :: "(pv \<Rightarrow> ustr) \<Rightarrow> pv list \<Rightarrow> exn + reading" where
  "read_rows str_of [] = Inr ([], [])"
| "read_rows str_of (row # rows) =
     (case py_truth row of
        Inl e \<Rightarrow> Inl e
      | Inr b \<Rightarrow>
          if \<not> b then read_rows str_of rows
          else case row_items row of
            Inl e \<Rightarrow> Inl e
          | Inr items \<Rightarrow>
              (case read_items str_of items of
                 Inl e \<Rightarrow> Inl e
               | Inr r \<Rightarrow> map_sum id (append_reading r) (read_rows str_of rows)))"

section \<open>The engine\<close>

text \<open>The engine returns a list, or \<^verbatim>\<open>None\<close> for a blank page.\<close>

definition is_v3 :: "pv list \<Rightarrow> bool" where
  "is_v3 raw = (case raw of V_dict kvs # _ \<Rightarrow> map_of kvs (u ''rec_texts'') \<noteq> None | _ \<Rightarrow> False)"

definition read_result :: "(pv \<Rightarrow> ustr) \<Rightarrow> pv list option \<Rightarrow> exn + reading" where
  "read_result str_of raw =
     (case raw of
        None \<Rightarrow> Inr ([], [])
      | Some vs \<Rightarrow> if is_v3 vs then read_pages str_of vs else read_rows str_of vs)"

text \<open>What the engine object offers: \<^verbatim>\<open>predict\<close>, and \<^verbatim>\<open>ocr\<close> with and without the argument \<^verbatim>\<open>cls\<close>.\<close>

datatype 'a call = Returns 'a | Attribute_missing | Type_error | Raises exn

record paddle_engine =
  pe_predict :: "image \<Rightarrow> pv list option call"
  pe_ocr_cls :: "image \<Rightarrow> pv list option call"
  pe_ocr :: "image \<Rightarrow> pv list option call"

definition finish :: "'a call \<Rightarrow> exn + 'a" where
  "finish c =
     (case c of Returns x \<Rightarrow> Inr x | Attribute_missing \<Rightarrow> Inl RuntimeError | Type_error \<Rightarrow> Inl TypeError | Raises e \<Rightarrow> Inl e)"

definition run_paddle :: "paddle_engine \<Rightarrow> image \<Rightarrow> exn + pv list option" where
  "run_paddle eng img =
     (case pe_predict eng img of
        Attribute_missing \<Rightarrow> (case pe_ocr_cls eng img of Type_error \<Rightarrow> finish (pe_ocr eng img) | c \<Rightarrow> finish c)
      | c \<Rightarrow> finish c)"

text \<open>The constructor of version 3, or that of version 2 when the keywords are refused.\<close>

definition build_paddle_engine :: "paddle_engine call \<Rightarrow> paddle_engine call \<Rightarrow> exn + paddle_engine" where
  "build_paddle_engine modern legacy = (case modern of Type_error \<Rightarrow> finish legacy | c \<Rightarrow> finish c)"

text \<open>The engine is built at the first use and kept; a failed construction is tried again at the next.\<close>

definition ocr_sync ::
  "exn + paddle_engine \<Rightarrow> (image \<Rightarrow> image) \<Rightarrow> (pv \<Rightarrow> ustr) \<Rightarrow> image \<Rightarrow> paddle_engine option
     \<Rightarrow> (exn + ocr_result) \<times> paddle_engine option" where
  "ocr_sync built to_rgb str_of img engine =
     (case (case engine of None \<Rightarrow> built | Some eng \<Rightarrow> Inr eng) of
        Inl e \<Rightarrow> (Inl e, None)
      | Inr eng \<Rightarrow>
          ((case run_paddle eng (to_rgb img) of
              Inl e \<Rightarrow> Inl e
            | Inr raw \<Rightarrow>
                (case read_result str_of raw of
                   Inl e \<Rightarrow> Inl e
                 | Inr (texts, boxes) \<Rightarrow>
                     Inr \<lparr>or_text = join [10] texts, or_boxes = boxes, or_width = im_width img, or_height = im_height img\<rparr>)),
           Some eng))"

text \<open>The lock runs one call at a time, so calls are a sequence.\<close>

definition paddle_ocr ::
  "bool \<Rightarrow> exn + paddle_engine \<Rightarrow> (image \<Rightarrow> image) \<Rightarrow> (pv \<Rightarrow> ustr) \<Rightarrow> image \<Rightarrow> paddle_engine option
     \<Rightarrow> (exn + ocr_result) \<times> paddle_engine option" where
  "paddle_ocr available built to_rgb str_of img engine =
     (if \<not> available then (Inl RuntimeError, engine) else ocr_sync built to_rgb str_of img engine)"

section \<open>Boxes are ordered\<close>

lemma coordinates_length: "coordinates i ps = Inr xs \<Longrightarrow> length xs = length ps"
  by (induction ps arbitrary: xs) (auto split: sum.splits)

lemma bounding_box_ordered:
  assumes "bounding_box bbox text = Inr b"
  shows "box_ordered b \<and> ob_text b = text"
proof -
  obtain ps xs ys where c: "coordinates 0 ps = Inr xs" "coordinates 1 ps = Inr ys" "xs \<noteq> []"
    and b: "b = \<lparr>ob_x1 = Min (set xs), ob_y1 = Min (set ys), ob_x2 = Max (set xs), ob_y2 = Max (set ys), ob_text = text\<rparr>"
    using assms by (auto simp: bounding_box_def split: sum.splits if_splits)
  have "ys \<noteq> []" using c coordinates_length by (metis length_0_conv)
  moreover have "Min (set zs) \<le> Max (set zs)" if "zs \<noteq> []" for zs :: "int list"
    using that by (metis List.finite_set Max_ge Min_in set_empty)
  ultimately show ?thesis using c(3) by (simp add: b box_ordered_def)
qed

lemma box_or_none_ordered: "box_or_none bbox text = Inr (Some b) \<Longrightarrow> box_ordered b"
  by (auto simp: box_or_none_def dest: bounding_box_ordered split: sum.splits if_splits)

lemma read_texts_ordered: "read_texts str_of idx polys ts = Inr r \<Longrightarrow> list_all box_ordered (snd r)"
proof (induction ts arbitrary: idx r)
  case (Cons t ts)
  then show ?case
    by (auto simp: Let_def map_sum_eq_Inr_iff add_reading_def dest!: box_or_none_ordered
        split: sum.splits if_splits option.splits)
qed simp

lemma read_pages_ordered: "read_pages str_of pages = Inr r \<Longrightarrow> list_all box_ordered (snd r)"
  by (induction pages arbitrary: r)
    (auto simp: map_sum_eq_Inr_iff append_reading_def dest: read_texts_ordered split: sum.splits)

lemma read_items_ordered: "read_items str_of items = Inr r \<Longrightarrow> list_all box_ordered (snd r)"
  by (induction items arbitrary: r)
    (auto simp: map_sum_eq_Inr_iff append_reading_def read_item_def Let_def dest: box_or_none_ordered
      split: sum.splits if_splits option.splits)

lemma read_rows_ordered: "read_rows str_of rows = Inr r \<Longrightarrow> list_all box_ordered (snd r)"
  by (induction rows arbitrary: r)
    (auto simp: map_sum_eq_Inr_iff append_reading_def dest: read_items_ordered split: sum.splits if_splits)

lemma ocr_sync_ordered:
  "ocr_sync built to_rgb str_of img engine = (Inr r, engine') \<Longrightarrow>
   list_all box_ordered (or_boxes r) \<and> or_width r = im_width img \<and> or_height r = im_height img"
  by (auto simp: ocr_sync_def read_result_def split: sum.splits option.splits if_splits
      dest: read_pages_ordered read_rows_ordered)

section \<open>What the shapes give\<close>

text \<open>A line of text as the engine reports it: the corner points, the text and the confidence.\<close>

type_synonym ocr_line = "(rat \<times> rat) list \<times> ustr \<times> rat"

definition corners :: "(rat \<times> rat) list \<Rightarrow> pv" where
  "corners pts = V_list (map (\<lambda>(x, y). V_list [V_float x, V_float y]) pts)"

definition v2_item :: "ocr_line \<Rightarrow> pv" where
  "v2_item l = (case l of (pts, t, c) \<Rightarrow> V_list [corners pts, V_tuple [V_str t, V_float c]])"

definition v3_page :: "ocr_line list \<Rightarrow> pv" where
  "v3_page ls = V_dict [(u ''rec_texts'', V_list (map (\<lambda>(pts, t, c). V_str t) ls)),
                        (u ''rec_polys'', V_list (map (\<lambda>(pts, t, c). corners pts) ls))]"

definition toward_zero :: "rat \<Rightarrow> int" where
  "toward_zero r = (if r < 0 then - \<lfloor>- r\<rfloor> else \<lfloor>r\<rfloor>)"

definition line_box :: "ocr_line \<Rightarrow> ocr_box" where
  "line_box l = (case l of (pts, t, c) \<Rightarrow>
     \<lparr>ob_x1 = Min (set (map (toward_zero \<circ> fst) pts)), ob_y1 = Min (set (map (toward_zero \<circ> snd) pts)),
      ob_x2 = Max (set (map (toward_zero \<circ> fst) pts)), ob_y2 = Max (set (map (toward_zero \<circ> snd) pts)), ob_text = t\<rparr>)"

definition line_text :: "ocr_line \<Rightarrow> ustr" where
  "line_text l = fst (snd l)"

definition has_corners :: "ocr_line \<Rightarrow> bool" where
  "has_corners l \<longleftrightarrow> 2 \<le> length (fst l)"

lemma coordinates_corners:
  "coordinates 0 (map (\<lambda>(x, y). V_list [V_float x, V_float y]) pts) = Inr (map (toward_zero \<circ> fst) pts)"
  "coordinates (Suc 0) (map (\<lambda>(x, y). V_list [V_float x, V_float y]) pts) = Inr (map (toward_zero \<circ> snd) pts)"
  by (induction pts) (auto simp: py_index_def toward_zero_def)

lemma box_corners:
  "has_corners (pts, t, c) \<Longrightarrow> box_or_none (corners pts) t = Inr (Some (line_box (pts, t, c)))"
  by (cases pts) (simp_all add: has_corners_def box_or_none_def bounding_box_def corners_def line_box_def
      coordinates_corners [where pts = "p # ps" for p ps, simplified])

lemma read_item_line:
  assumes "has_corners l"
  shows "read_item str_of (v2_item l) = Inr ([line_text l], [line_box l])"
proof -
  obtain pts t c where l: "l = (pts, t, c)" by (cases l)
  then have "box_or_none (corners pts) t = Inr (Some (line_box l))"
    using assms box_corners [of pts t c] by simp
  then show ?thesis
    by (simp add: l read_item_def v2_item_def py_len_def py_index_def payload_text_def to_text_def line_text_def)
qed

lemma read_items_lines:
  "list_all has_corners ls \<Longrightarrow> read_items str_of (map v2_item ls) = Inr (map line_text ls, map line_box ls)"
  by (induction ls) (simp_all add: read_item_line append_reading_def)

lemma read_rows_nested:
  "list_all (list_all has_corners) pages \<Longrightarrow>
   read_rows str_of (map (\<lambda>ls. V_list (map v2_item ls)) pages) =
     Inr (map line_text (concat pages), map line_box (concat pages))"
proof (induction pages)
  case (Cons ls pages)
  then show ?case
  proof (cases ls)
    case (Cons l ls')
    then have "row_items (V_list (map v2_item ls)) = Inr (map v2_item ls)"
      by (simp add: row_items_def py_index_def v2_item_def split: prod.splits)
    moreover have "py_truth (V_list (map v2_item ls)) = Inr True" using Cons by simp
    moreover have "read_items str_of (map v2_item ls) = Inr (map line_text ls, map line_box ls)"
      using Cons.prems by (simp add: read_items_lines)
    ultimately show ?thesis using Cons.IH Cons.prems by (simp add: append_reading_def)
  qed simp
qed simp

lemma read_texts_lines:
  "list_all has_corners ls \<Longrightarrow> length pre = idx \<Longrightarrow>
   read_texts str_of idx (pre @ map (\<lambda>(pts, t, c). corners pts) ls) (map (\<lambda>(pts, t, c). V_str t) ls) =
     Inr (map line_text ls, map line_box ls)"
proof (induction ls arbitrary: pre idx)
  case (Cons l ls)
  obtain pts t c where l: "l = (pts, t, c)" by (cases l)
  then have "box_or_none (corners pts) t = Inr (Some (line_box l))"
    using Cons.prems(1) box_corners [of pts t c] by simp
  moreover have "corners pts \<noteq> V_none" by (simp add: corners_def)
  ultimately show ?case
    using Cons.IH [of "pre @ [corners pts]" "Suc idx"] Cons.prems
    by (simp add: l to_text_def add_reading_def line_text_def nth_append)
qed simp

lemma page_list_v3:
  "page_list (v3_page ls) ''rec_texts'' = Inr (map (\<lambda>(pts, t, c). V_str t) ls)"
  "page_list (v3_page ls) ''rec_polys'' = Inr (map (\<lambda>(pts, t, c). corners pts) ls)"
  by (auto simp: page_list_def v3_page_def)

lemma read_pages_v3:
  "list_all (list_all has_corners) pages \<Longrightarrow>
   read_pages str_of (map v3_page pages) = Inr (map line_text (concat pages), map line_box (concat pages))"
  using read_texts_lines [of _ "[]" 0 str_of]
  by (induction pages) (simp_all add: page_list_v3 append_reading_def)

lemma read_result_shapes:
  assumes "list_all (list_all has_corners) pages"
    and "raw = map v3_page pages \<or> raw = map (\<lambda>ls. V_list (map v2_item ls)) pages"
  shows "read_result str_of (Some raw) = Inr (map line_text (concat pages), map line_box (concat pages))"
proof (cases pages)
  case (Cons ls rest)
  with assms read_rows_nested [OF assms(1), of str_of] read_pages_v3 [OF assms(1), of str_of] show ?thesis
    by (auto simp: read_result_def is_v3_def v3_page_def simp del: read_rows.simps read_pages.simps)
qed (use assms in \<open>auto simp: read_result_def is_v3_def\<close>)

section \<open>The flat shape\<close>

lemma point_no_box: "box_or_none (V_list [V_float x, V_float y]) t = Inr None"
  by (simp add: box_or_none_def bounding_box_def py_index_def)

lemma coordinates_chars:
  "s \<noteq> [] \<Longrightarrow> \<exists>e \<in> {IndexError, ValueError}. bounding_box (V_str s) t = Inl e"
proof -
  have "coordinates 0 (map (\<lambda>c. V_str [c]) s) = Inl ValueError \<or> (\<exists>xs. coordinates 0 (map (\<lambda>c. V_str [c]) s) = Inr xs)"
    by (induction s) (auto simp: py_index_def split: option.splits)
  moreover assume "s \<noteq> []"
  then have "coordinates (Suc 0) (map (\<lambda>c. V_str [c]) s) = Inl IndexError"
    by (cases s) (simp_all add: py_index_def)
  ultimately show ?thesis by (auto simp: bounding_box_def)
qed

lemma text_no_box: "box_or_none (V_str s) t = Inr None"
proof (cases "s = []")
  case True
  then show ?thesis by (simp add: box_or_none_def bounding_box_def)
next
  case False
  from coordinates_chars [OF this, of t] show ?thesis by (auto simp: box_or_none_def)
qed

lemma flat_row_empty:
  assumes "has_corners l"
  shows "\<exists>items. row_items (v2_item l) = Inr items \<and> read_items str_of items = Inr ([], [])"
proof -
  obtain p q pts t c where l: "l = (p # q # pts, t, c)"
    using assms by (cases l, cases "fst l", simp add: has_corners_def, cases "tl (fst l)")
      (auto simp: has_corners_def)
  have "row_items (v2_item l) = Inr [corners (p # q # pts), V_tuple [V_str t, V_float c]]"
    by (simp add: l row_items_def v2_item_def py_index_def corners_def)
  moreover have "read_item str_of (corners (p # q # pts)) = Inr ([], [])"
    by (simp add: read_item_def corners_def py_len_def py_index_def point_no_box split: prod.splits)
  moreover have "read_item str_of (V_tuple [V_str t, V_float c]) = Inr ([], [])"
    by (simp add: read_item_def py_len_def py_index_def text_no_box)
  ultimately show ?thesis by (auto simp: append_reading_def)
qed

lemma flat_rows_empty: "list_all has_corners ls \<Longrightarrow> read_rows str_of (map v2_item ls) = Inr ([], [])"
proof (induction ls)
  case (Cons l ls)
  from flat_row_empty [of l str_of] Cons obtain items
    where "row_items (v2_item l) = Inr items" "read_items str_of items = Inr ([], [])" by auto
  moreover have "py_truth (v2_item l) = Inr True" by (simp add: v2_item_def split: prod.splits)
  ultimately show ?case using Cons by (simp add: append_reading_def)
qed simp

section \<open>The engine behind the dispatcher\<close>

text \<open>The engine of the image extractor is this one, with whatever message its exceptions have.\<close>

definition uses_paddle ::
  "extract_libs \<Rightarrow> (exn \<Rightarrow> ustr) \<Rightarrow> (image \<Rightarrow> image) \<Rightarrow> (pv \<Rightarrow> ustr) \<Rightarrow> paddle_engine \<Rightarrow> image \<Rightarrow> bool" where
  "uses_paddle lib message to_rgb str_of eng img \<longleftrightarrow>
     xl_ocr_engine lib = ''paddle'' \<and> xl_paddle_available lib \<and>
     xl_paddle lib img = map_sum message id (fst (paddle_ocr True (Inr eng) to_rgb str_of img (Some eng)))"

lemma run_engine_paddle:
  assumes "uses_paddle lib message to_rgb str_of eng img" "run_paddle eng (to_rgb img) = Inr raw"
    and "read_result str_of raw = Inr (texts, boxes)"
  shows "run_engine lib img =
    Inr \<lparr>or_text = join [10] texts, or_boxes = boxes, or_width = im_width img, or_height = im_height img\<rparr>"
  using assms by (simp add: uses_paddle_def run_engine_def paddle_ocr_def ocr_sync_def)

text \<open>
  Pages are read completely.  When the engine reports lines as version 3 does, or as version 2
  does with one list per page, the dispatcher's result has the text of every line, in order, one per
  line, and the bounding box of the corner points of every line.
\<close>

theorem paddle_pages_read:
  assumes "uses_paddle lib message to_rgb str_of eng img" "run_paddle eng (to_rgb img) = Inr (Some raw)"
    and "list_all (list_all has_corners) pages"
    and "raw = map v3_page pages \<or> raw = map (\<lambda>ls. V_list (map v2_item ls)) pages"
  shows "run_engine lib img =
    Inr \<lparr>or_text = join [10] (map line_text (concat pages)), or_boxes = map line_box (concat pages),
         or_width = im_width img, or_height = im_height img\<rparr>"
  using run_engine_paddle [OF assms(1,2) read_result_shapes [OF assms(3,4)]] .

text \<open>
  C39: a flat list of lines is lost.  When the engine reports the lines of a page directly, as the
  comment in the code describes the result of version 2, the corner points of each line are taken for
  its list of lines, nothing in them has the shape of a line, and the dispatcher gets an empty result:
  no text, no box, no error, and the vision model is not asked instead.
\<close>

theorem paddle_flat_rows_lost:
  assumes "uses_paddle lib message to_rgb str_of eng img"
    and "run_paddle eng (to_rgb img) = Inr (Some (map v2_item ls))" "list_all has_corners ls"
  shows "run_engine lib img =
    Inr \<lparr>or_text = [], or_boxes = [], or_width = im_width img, or_height = im_height img\<rparr>"
proof -
  have "\<not> is_v3 (map v2_item ls)" by (cases ls) (auto simp: is_v3_def v2_item_def)
  with flat_rows_empty [OF assms(3), of str_of]
  have "read_result str_of (Some (map v2_item ls)) = Inr ([], [])" by (simp add: read_result_def)
  from run_engine_paddle [OF assms(1,2) this] show ?thesis by simp
qed

text \<open>An engine of version 2 that reports one line, and an extractor that uses it.\<close>

definition sample_line :: ocr_line where
  "sample_line = ([(0, 0), (9, 0), (9, 5), (0, 5)], u ''900101-1234568'', 9 / 10)"

definition sample_engine :: paddle_engine where
  "sample_engine = \<lparr>pe_predict = (\<lambda>i. Attribute_missing), pe_ocr_cls = (\<lambda>i. Returns (Some [v2_item sample_line])),
     pe_ocr = (\<lambda>i. Type_error)\<rparr>"

definition sample_libs :: extract_libs where
  "sample_libs = demo_libs\<lparr>xl_ocr_engine := ''paddle'', xl_paddle_available := True,
     xl_paddle := (\<lambda>i. map_sum (\<lambda>e. []) id (fst (paddle_ocr True (Inr sample_engine) id (\<lambda>v. []) i (Some sample_engine))))\<rparr>"

theorem paddle_flat_rows_lost_witness:
  "run_engine sample_libs \<lparr>im_width = 10, im_height = 6, im_mode = ''RGB'', im_pixels = []\<rparr> =
     Inr \<lparr>or_text = [], or_boxes = [], or_width = 10, or_height = 6\<rparr>"
proof -
  let ?img = "\<lparr>im_width = 10, im_height = 6, im_mode = ''RGB'', im_pixels = []\<rparr> :: image"
  have use: "uses_paddle sample_libs (\<lambda>e. []) id (\<lambda>v. []) sample_engine ?img"
    by (simp add: uses_paddle_def sample_libs_def)
  have run: "run_paddle sample_engine (id ?img) = Inr (Some (map v2_item [sample_line]))"
    by (simp add: run_paddle_def sample_engine_def finish_def)
  have "list_all has_corners [sample_line]" by (simp add: sample_line_def has_corners_def)
  from paddle_flat_rows_lost [OF use run this] show ?thesis by simp
qed

end
