(* ===== verification/Service.thy ===== *)
theory Service
  imports Dashboard Blocklist
begin

text \<open>
  The process around the endpoints.  \<^verbatim>\<open>app/security/metrics_collector.py\<close> and \<^verbatim>\<open>app/api/metrics.py\<close>: the
  calls each part makes on the metrics client and who may read the result; the metrics table and the
  counters of the dashboard's front page; \<^verbatim>\<open>app/main.py\<close>: which routers are mounted, the preloading of the
  caches at startup and the background tasks; \<^verbatim>\<open>app/api/legal.py\<close>: the privacy notice.  The metrics client
  is not part of the repository: the model records the calls made on it, and what it exposes is a
  parameter.  Shown are that the caches serve the tables from startup on, that a service without an
  administrator allowlist has no administrator routes and refuses the metrics route to everybody, that
  the metrics table of the front page is always empty, and that paths no route knows give new metric
  labels without bound.
\<close>

section \<open>Metrics\<close>

datatype metric_kind = Counter | Histogram "rat list"

text \<open>The metrics the module declares: name, label names, kind.\<close>

definition METRICS :: "(string \<times> string list \<times> metric_kind) list" where
  "METRICS =
     [(''http_requests_total'', [''method'', ''path'', ''response_code''], Counter),
      (''http_request_duration_seconds'', [''method'', ''path''], Histogram [1/20, 1/10, 1/5, 1/2, 1, 2, 5]),
      (''pii_detections_total'', [''entity_type'', ''verdict''], Counter),
      (''extraction_jobs_total'', [''status''], Counter),
      (''feedback_total'', [], Counter),
      (''rate_limit_rejections_total'', [''scope''], Counter),
      (''pii_detect_requests_total'', [''verdict''], Counter),
      (''ocr_duration_seconds'', [''engine''], Histogram [1/4, 1/2, 1, 2, 5, 10, 20, 30]),
      (''attachment_size_bytes'', [], Histogram [4 * 1024, 16 * 1024, 64 * 1024, 256 * 1024, 1024 * 1024,
          4 * 1024 * 1024, 16 * 1024 * 1024, 50 * 1024 * 1024])]"

datatype metric_call = Inc string "ustr list" | Observe string "ustr list" rat

text \<open>
  \<^verbatim>\<open>contextlib.suppress(Exception)\<close>: the calls of the block are made in order until the client refuses one.
\<close>

definition suppressed :: "(metric_call \<Rightarrow> bool) \<Rightarrow> metric_call list \<Rightarrow> metric_call list" where
  "suppressed accepts calls = takeWhile accepts calls"

definition observe_http :: "(metric_call \<Rightarrow> bool) \<Rightarrow> ustr \<Rightarrow> ustr \<Rightarrow> ustr \<Rightarrow> rat \<Rightarrow> metric_call list" where
  "observe_http accepts meth path response_code duration =
     suppressed accepts [Inc ''http_requests_total'' [meth, path, response_code],
                         Observe ''http_request_duration_seconds'' [meth, path] duration]"

definition observe_detection :: "(metric_call \<Rightarrow> bool) \<Rightarrow> ustr \<Rightarrow> ustr \<Rightarrow> metric_call list" where
  "observe_detection accepts entity_type verdict = suppressed accepts [Inc ''pii_detections_total'' [entity_type, verdict]]"

definition observe_extraction_job :: "(metric_call \<Rightarrow> bool) \<Rightarrow> ustr \<Rightarrow> metric_call list" where
  "observe_extraction_job accepts status = suppressed accepts [Inc ''extraction_jobs_total'' [status]]"

definition observe_feedback :: "(metric_call \<Rightarrow> bool) \<Rightarrow> metric_call list" where
  "observe_feedback accepts = suppressed accepts [Inc ''feedback_total'' []]"

definition observe_rate_limit_rejection :: "(metric_call \<Rightarrow> bool) \<Rightarrow> ustr \<Rightarrow> metric_call list" where
  "observe_rate_limit_rejection accepts scope = suppressed accepts [Inc ''rate_limit_rejections_total'' [scope]]"

definition observe_detect_request :: "(metric_call \<Rightarrow> bool) \<Rightarrow> ustr \<Rightarrow> metric_call list" where
  "observe_detect_request accepts verdict = suppressed accepts [Inc ''pii_detect_requests_total'' [verdict]]"

definition observe_ocr_duration :: "(metric_call \<Rightarrow> bool) \<Rightarrow> ustr \<Rightarrow> rat \<Rightarrow> metric_call list" where
  "observe_ocr_duration accepts engine seconds = suppressed accepts [Observe ''ocr_duration_seconds'' [engine] seconds]"

definition observe_attachment_size :: "(metric_call \<Rightarrow> bool) \<Rightarrow> nat \<Rightarrow> metric_call list" where
  "observe_attachment_size accepts size_bytes =
     suppressed accepts [Observe ''attachment_size_bytes'' [] (of_nat size_bytes)]"

text \<open>Every call names a declared metric with as many label values as it has labels.\<close>

definition well_labelled :: "metric_call \<Rightarrow> bool" where
  "well_labelled c =
     (case c of
        Inc n vs \<Rightarrow> list_ex (\<lambda>(m, ls, k). m = n \<and> length ls = length vs \<and> k = Counter) METRICS
      | Observe n vs x \<Rightarrow> list_ex (\<lambda>(m, ls, k). m = n \<and> length ls = length vs \<and> k \<noteq> Counter) METRICS)"

lemma suppressed_all: "list_all P calls \<Longrightarrow> list_all P (suppressed accepts calls)"
  by (auto simp: suppressed_def list_all_iff dest: set_takeWhileD)

lemma observe_well_labelled:
  "list_all well_labelled (observe_http a m p c d)" "list_all well_labelled (observe_detection a e v)"
  "list_all well_labelled (observe_extraction_job a s)" "list_all well_labelled (observe_feedback a)"
  "list_all well_labelled (observe_rate_limit_rejection a s)" "list_all well_labelled (observe_detect_request a v)"
  "list_all well_labelled (observe_ocr_duration a e t)" "list_all well_labelled (observe_attachment_size a n)"
  unfolding observe_http_def observe_detection_def observe_extraction_job_def observe_feedback_def
    observe_rate_limit_rejection_def observe_detect_request_def observe_ocr_duration_def observe_attachment_size_def
  by (rule suppressed_all, simp add: well_labelled_def METRICS_def)+

section \<open>The metrics routes\<close>

text \<open>\<open>exposition\<close> is the text the client renders.\<close>

definition metrics_route :: "auth_settings \<Rightarrow> authed_caller \<Rightarrow> rat \<Rightarrow> ustr \<Rightarrow> gate_error + ustr" where
  "metrics_route cfg caller now exposition =
     (case require_admin cfg caller now of Inl e \<Rightarrow> Inl e | Inr _ \<Rightarrow> Inr exposition)"

definition metrics_dev :: "ustr \<Rightarrow> ustr" where
  "metrics_dev exposition = exposition"

datatype router =
    R_detect | R_jobs | R_health | R_metrics | R_metrics_dev | R_legal | R_feedback | R_dashboard
  | R_admin_audit | R_admin_stats | R_admin_blocklist

definition get_dev_router :: "ustr \<Rightarrow> router option" where
  "get_dev_router app_env = (if app_env = u ''development'' then Some R_metrics_dev else None)"

section \<open>Routers\<close>

text \<open>In the order of \<^verbatim>\<open>include_router\<close>.\<close>

definition mounted :: "ustr \<Rightarrow> auth_settings \<Rightarrow> router list" where
  "mounted app_env cfg =
     [R_detect, R_jobs, R_health, R_metrics] @
     (case get_dev_router app_env of None \<Rightarrow> [] | Some r \<Rightarrow> [r]) @
     [R_legal, R_feedback, R_dashboard] @
     (if strip (cfg_admin_ip_allowlist cfg) \<noteq> [] then [R_admin_audit, R_admin_stats, R_admin_blocklist] else [])"

definition healthz :: "(string \<times> ustr) list" where
  "healthz = [(''status'', u ''ok'')]"

definition v1_healthz :: "ustr \<Rightarrow> (string \<times> ustr) list" where
  "v1_healthz app_env = [(''status'', u ''ok''), (''env'', app_env)]"

section \<open>The front page of the dashboard\<close>

record metric_sample =
  sa_name :: ustr
  sa_labels :: "(ustr \<times> ustr) list"
  sa_value :: rat

record metric_family =
  fm_name :: ustr
  fm_samples :: "metric_sample list"

definition INTERESTING :: "string list" where
  "INTERESTING = [''pii_http_requests_total'', ''pii_detections_total'', ''pii_rate_limit_rejections_total'']"

text \<open>\<^verbatim>\<open>str(int(value))\<close>; a counter value is not negative.\<close>

definition summary_line :: "metric_sample \<Rightarrow> ustr \<times> ustr" where
  "summary_line s =
     (let label_str = join (u '','') (map (\<lambda>(k, v). k @ u ''='' @ v) (sort_key fst (sa_labels s)));
          display = (if label_str = [] then sa_name s else sa_name s @ u ''{'' @ label_str @ u ''}'')
      in (display, str_int \<lfloor>sa_value s\<rfloor>))"

definition metrics_summary :: "metric_family list \<Rightarrow> (ustr \<times> ustr) list" where
  "metrics_summary families =
     concat (map (\<lambda>m. map summary_line (fm_samples m)) (filter (\<lambda>m. fm_name m \<in> set (map u INTERESTING)) families))"

text \<open>Each count has its own query; a failure keeps what was counted before it.\<close>

record home_page =
  hp_env :: ustr
  hp_exception_ips :: nat
  hp_api_callers :: nat
  hp_metrics :: "(ustr \<times> ustr) list"

definition dashboard_home ::
  "ustr \<Rightarrow> bool \<Rightarrow> bool \<Rightarrow> exception_store \<Rightarrow> caller_store \<Rightarrow> metric_family list \<Rightarrow> home_page" where
  "dashboard_home app_env query1 query2 xs cs families =
     \<lparr>hp_env = app_env,
      hp_exception_ips = (if query1 then length (xs_rows xs) else 0),
      hp_api_callers = (if query1 \<and> query2 then length (cs_rows cs) else 0),
      hp_metrics = metrics_summary families\<rparr>"

definition ip_allowlist_page ::
  "bool \<Rightarrow> bool \<Rightarrow> exception_store \<Rightarrow> caller_store \<Rightarrow> exception_ip list \<times> caller_ip list" where
  "ip_allowlist_page query1 query2 xs cs =
     (if query1 then rev (sort_key xi_id (xs_rows xs)) else [],
      if query1 \<and> query2 then rev (sort_key ci_id (cs_rows cs)) else [])"

section \<open>Startup\<close>

record service =
  sv_log_filter :: bool
  sv_exceptions :: exception_store
  sv_callers :: caller_store
  sv_block :: block_state
  sv_tasks :: "string list"

text \<open>Whether a session opens, and which of the three queries succeed.\<close>

record startup_db =
  sd_session :: bool
  sd_exceptions :: bool
  sd_callers :: bool
  sd_blocklist :: bool

definition preload :: "startup_db \<Rightarrow> service \<Rightarrow> service" where
  "preload db s =
     (if sd_session db then
        s\<lparr>sv_exceptions := reload_exceptions \<lparr>db_commit = True, db_query = sd_exceptions db\<rparr> (sv_exceptions s),
          sv_callers := reload_callers \<lparr>db_commit = True, db_query = sd_callers db\<rparr> (sv_callers s),
          sv_block := snd (reload_blocklist (sd_blocklist db) (sv_block s))\<rparr>
      else s)"

definition BACKGROUND_TASKS :: "string list" where
  "BACKGROUND_TASKS = [''pii-nonce-vacuum'', ''pii-job-cleanup'', ''pii-audit-cleanup'', ''pii-feedback-alerter'']"

definition lifespan_start :: "ustr \<Rightarrow> startup_db \<Rightarrow> service \<Rightarrow> service" where
  "lifespan_start app_env db s =
     (let s = preload db (s\<lparr>sv_log_filter := True\<rparr>)
      in s\<lparr>sv_tasks := (if app_env \<noteq> u ''test'' then BACKGROUND_TASKS else [])\<rparr>)"

definition lifespan_stop :: "service \<Rightarrow> service" where
  "lifespan_stop s = s\<lparr>sv_tasks := []\<rparr>"

section \<open>The privacy notice\<close>

definition FALLBACK_TEMPLATE :: ustr where
  "FALLBACK_TEMPLATE =
     [35, 32, 44060, 51064, 51221, 48372, 32, 52376, 47532, 48169, 52840] @
     u '' (PII Detection API)'' @
     [10, 10, 42, 42, 54924, 49324, 47749] @
     u ''**: {{COMPANY_NAME}}'' @
     [10, 42, 42, 47928, 51032, 32, 51060, 47700, 51068] @
     u ''**: {{COMPANY_CONTACT_EMAIL}}'' @
     [10, 42, 42, 47928, 51032, 32, 51204, 54868] @
     u ''**: {{COMPANY_CONTACT_PHONE}}'' @
     [10, 10, 42, 42, 44060, 51064, 51221, 48372, 32, 48372, 54840, 52293, 51076, 51088] @
     u ''**: {{DATA_PROTECTION_OFFICER_NAME}}'' @
     [10, 42, 42, 48372, 54840, 52293, 51076, 51088, 32, 51060, 47700, 51068] @
     u ''**: {{DATA_PROTECTION_OFFICER_EMAIL}}'' @
     [10, 10, 48376, 32, 65, 80, 73, 45716, 32, 44592, 44288, 32, 45824, 54364, 54856, 54168, 51060, 51648, 32,
      44172, 49884, 54032, 50640, 32, 44172, 49884, 46104, 45716, 32, 44544, 51032, 32, 44060, 51064, 51221, 48372,
      32, 51088, 46041, 32, 44160, 52636, 10, 48143, 32, 47560, 49828, 53433, 32, 52376, 47532, 47484, 32, 50948,
      54644, 32, 49324, 50857, 46121, 45768, 45796, 46, 10, 10, 51088, 49464, 54620, 32, 45236, 50857, 51008, 32,
      50868, 50689, 51088, 50640, 44172, 32, 47928, 51032, 54616, 49464, 50836, 46, 10]"

record company =
  cy_name :: ustr
  cy_contact_email :: ustr
  cy_contact_phone :: ustr
  cy_dpo_name :: ustr
  cy_dpo_email :: ustr

text \<open>Only a missing or unreadable file falls back; a file that is not UTF-8 raises.\<close>

definition load_template :: "settings_file \<Rightarrow> exn + ustr" where
  "load_template f =
     (case f of Missing \<Rightarrow> Inr FALLBACK_TEMPLATE | Undecodable \<Rightarrow> Inl ValueError | Contents s \<Rightarrow> Inr s)"

definition placeholders :: "company \<Rightarrow> (string \<times> ustr) list" where
  "placeholders c =
     [(''{{COMPANY_NAME}}'', cy_name c), (''{{COMPANY}}'', cy_name c), (''{{COMPANY_CONTACT_EMAIL}}'', cy_contact_email c),
      (''{{COMPANY_CONTACT_PHONE}}'', cy_contact_phone c), (''{{CONTACT}}'', cy_contact_email c),
      (''{{DPO_EMAIL}}'', cy_dpo_email c), (''{{DPO_NAME}}'', cy_dpo_name c),
      (''{{DATA_PROTECTION_OFFICER_NAME}}'', cy_dpo_name c), (''{{DATA_PROTECTION_OFFICER_EMAIL}}'', cy_dpo_email c)]"

definition render_notice :: "company \<Rightarrow> ustr \<Rightarrow> ustr" where
  "render_notice c template =
     fold (\<lambda>(placeholder, v) out. if v \<noteq> [] then replace_all (u placeholder) v out else out) (placeholders c) template"

definition privacy_notice :: "company \<Rightarrow> settings_file \<Rightarrow> exn + ustr" where
  "privacy_notice c f = (case load_template f of Inl e \<Rightarrow> Inl e | Inr t \<Rightarrow> Inr (render_notice c t))"

text \<open>Without configured values the notice is the template, placeholders included.\<close>

lemma privacy_notice_unset:
  "privacy_notice \<lparr>cy_name = [], cy_contact_email = [], cy_contact_phone = [], cy_dpo_name = [], cy_dpo_email = []\<rparr> f =
     load_template f"
  by (simp add: privacy_notice_def render_notice_def placeholders_def split: sum.splits)

section \<open>The administrator surface\<close>

lemma blank_allowlist: "strip (cfg_admin_ip_allowlist cfg) = [] \<Longrightarrow> admin_allowlist cfg = []"
  by (simp add: admin_allowlist_def csv_list_def)

text \<open>
  Without an administrator allowlist the administrator surface is closed.  Unless the service
  runs in development mode, no route for audit rows, statistics or the deny list is mounted and no
  unauthenticated metrics route is, and the metrics route refuses every caller.
\<close>

theorem admin_surface_closed:
  assumes "strip (cfg_admin_ip_allowlist cfg) = []" "app_env \<noteq> u ''development''"
  shows "set (mounted app_env cfg) \<inter> {R_admin_audit, R_admin_stats, R_admin_blocklist, R_metrics_dev} = {} \<and>
         (\<exists>e. metrics_route cfg caller now exposition = Inl e)"
  using assms blank_allowlist [OF assms(1)]
  by (auto simp: mounted_def get_dev_router_def metrics_route_def require_admin_def Let_def)

section \<open>Caches from startup on\<close>

text \<open>The operations that change a table or its cache, one component at a time.\<close>

inductive service_step :: "service \<Rightarrow> service \<Rightarrow> bool" where
  svc_exception: "service_step s (s\<lparr>sv_exceptions := exception_step op (sv_exceptions s)\<rparr>)"
| svc_caller: "service_step s (s\<lparr>sv_callers := caller_step op (sv_callers s)\<rparr>)"
| svc_block: "block_step (sv_block s) b \<Longrightarrow> service_step s (s\<lparr>sv_block := b\<rparr>)"
| svc_stop: "service_step s (lifespan_stop s)"

definition serves_tables :: "service \<Rightarrow> bool" where
  "serves_tables s \<longleftrightarrow>
     xs_cache (sv_exceptions s) = load_exceptions (xs_rows (sv_exceptions s)) \<and>
     cs_cache (sv_callers s) = load_callers (cs_rows (sv_callers s)) \<and> coherent (sv_block s)"

lemma service_step_serves: "service_step s s' \<Longrightarrow> serves_tables s \<Longrightarrow> serves_tables s'"
  by (induction rule: service_step.induct)
    (auto simp: serves_tables_def lifespan_stop_def exception_table.step_coherent caller_table.step_coherent
      intro: block_step_coherent)

lemma startup_serves: "sd_session db \<Longrightarrow> sd_exceptions db \<Longrightarrow> sd_callers db \<Longrightarrow> sd_blocklist db \<Longrightarrow>
   serves_tables (lifespan_start app_env db s)"
  by (simp add: lifespan_start_def preload_def serves_tables_def Let_def reload_exceptions_load reload_callers_load
      reload_coherent)

text \<open>
  From startup on the service decides by the tables.  When the caches are preloaded from a
  reachable database, then after every sequence of dashboard and administrator operations an author
  address is exempt exactly when an enabled row names its network, the caller cache is what the
  caller table holds, and the deny list cache is what the deny list table holds.
\<close>

theorem startup_serves_tables:
  assumes "service_step\<^sup>*\<^sup>* (lifespan_start app_env \<lparr>sd_session = True, sd_exceptions = True, sd_callers = True, sd_blocklist = True\<rparr> s0) s"
  shows "(is_exception_ip (xs_cache (sv_exceptions s)) ip \<longleftrightarrow> list_ex (in_exception ip) (xs_rows (sv_exceptions s))) \<and>
         cs_cache (sv_callers s) = load_callers (cs_rows (sv_callers s)) \<and> coherent (sv_block s)"
proof -
  have "serves_tables s"
    using assms by (induction rule: rtranclp_induct) (auto intro: startup_serves service_step_serves)
  then show ?thesis using is_exception_load [of "xs_rows (sv_exceptions s)" ip] by (simp add: serves_tables_def)
qed

section \<open>What the metrics table shows\<close>

text \<open>
  The metrics client reports a counter under its name without the suffix \<^verbatim>\<open>_total\<close>, a histogram under its
  name; the other families are those of its own collectors.
\<close>

definition exposed_name :: "string \<times> string list \<times> metric_kind \<Rightarrow> string" where
  "exposed_name m =
     (case m of (n, ls, k) \<Rightarrow> if k = Counter \<and> drop (length n - 6) n = ''_total'' then take (length n - 6) n else n)"

definition CLIENT_FAMILIES :: "string list" where
  "CLIENT_FAMILIES = [''python_gc_objects_collected'', ''python_gc_objects_uncollectable'', ''python_gc_collections'',
     ''python_info'', ''process_virtual_memory_bytes'', ''process_resident_memory_bytes'', ''process_start_time_seconds'',
     ''process_cpu_seconds'', ''process_open_fds'', ''process_max_fds'']"

definition client_names :: "(metric_call list \<Rightarrow> metric_family list) \<Rightarrow> bool" where
  "client_names collect \<longleftrightarrow>
     (\<forall>calls. \<forall>f \<in> set (collect calls). fm_name f \<in> set (map u (map exposed_name METRICS @ CLIENT_FAMILIES)))"

text \<open>
  The metrics table of the front page is always empty: whatever calls have been made, none of
  the three names it looks for is one the client reports.
\<close>

theorem metrics_summary_empty:
  assumes "client_names collect"
  shows "hp_metrics (dashboard_home app_env q1 q2 xs cs (collect calls)) = []"
proof -
  have "set INTERESTING \<inter> set (map exposed_name METRICS @ CLIENT_FAMILIES) = {}"
    by (simp add: INTERESTING_def METRICS_def exposed_name_def CLIENT_FAMILIES_def)
  then have "set (map u INTERESTING) \<inter> set (map u (map exposed_name METRICS @ CLIENT_FAMILIES)) = {}"
    by auto
  then have "\<forall>f \<in> set (collect calls). fm_name f \<notin> set (map u INTERESTING)"
    using assms unfolding client_names_def by blast
  then show ?thesis by (simp add: dashboard_home_def metrics_summary_def filter_empty_conv)
qed

theorem metrics_summary_empty_witness:
  "hp_metrics (dashboard_home (u ''production'') True True \<lparr>xs_rows = [], xs_next = 1, xs_cache = []\<rparr>
     \<lparr>cs_rows = [], cs_next = 1, cs_cache = []\<rparr>
     ((\<lambda>calls. [\<lparr>fm_name = u ''pii_detections'', fm_samples =
         [\<lparr>sa_name = u ''pii_detections_total'', sa_labels = [], sa_value = of_nat (length calls)\<rparr>]\<rparr>])
       (observe_detection (\<lambda>c. True) (u ''KR_RRN'') (u ''BLOCK'')))) = []"
  by (rule metrics_summary_empty)
    (simp add: client_names_def METRICS_def exposed_name_def)

text \<open>
  Metric labels grow without bound.  For every number there is a set of requests of that size,
  none of them to a job or artifact path, each of which gives the request counter a label of its own.
\<close>

theorem metric_labels_unbounded:
  "\<exists>paths. length paths = n \<and> distinct (map (\<lambda>p. observe_http (\<lambda>c. True) (u ''GET'') (metric_path p) code d) paths)"
proof -
  define path where "path i = u ''/x'' @ replicate i 120" for i :: nat
  have m: "metric_path (path i) = path i" for i
    by (cases i) (simp_all add: metric_path_def path_def u_def)
  have "inj path" by (rule injI) (auto simp: path_def dest: arg_cong [of _ _ length])
  then have "distinct (map (\<lambda>p. observe_http (\<lambda>c. True) (u ''GET'') (metric_path p) code d) (map path [0..<n]))"
    by (auto simp: distinct_map inj_on_def observe_http_def suppressed_def m)
  then show ?thesis by (intro exI [of _ "map path [0..<n]"]) simp
qed

end
