(* ===== verification/Retention.thy ===== *)
theory Retention
  imports Jobs Audit_Trail Hmac_Auth
begin

text \<open>
  The three background sweeps: \<^verbatim>\<open>app/workers/nonce_vacuum.py\<close>, \<^verbatim>\<open>job_cleanup.py\<close> and \<^verbatim>\<open>audit_cleanup.py\<close>.  Each
  is an endless loop of passes and sleeps; a pass that fails is logged and the loop goes on.  A run is
  the sequence of its passes, each with the clock it reads and whether the database let it through.
  The interface \<open>sweeper\<close> states what one pass deletes; its lemmas say which rows a run leaves, and they
  hold of the three tables by interpretation.
\<close>

section \<open>Runs\<close>

type_synonym passes = "(bool \<times> rat) list"

definition sweep_pass :: "(rat \<Rightarrow> 's \<Rightarrow> 's) \<Rightarrow> bool \<times> rat \<Rightarrow> 's \<Rightarrow> 's" where
  "sweep_pass sweep p s = (if fst p then sweep (snd p) s else s)"

definition sweep_loop :: "(rat \<Rightarrow> 's \<Rightarrow> 's) \<Rightarrow> passes \<Rightarrow> 's \<Rightarrow> 's" where
  "sweep_loop sweep ps s = fold (sweep_pass sweep) ps s"

text \<open>Passes that start at a time and follow each other after the interval, with their outcomes.\<close>

definition cadence :: "rat \<Rightarrow> rat \<Rightarrow> bool list \<Rightarrow> passes" where
  "cadence start interval oks = map (\<lambda>i. (oks ! i, start + of_nat i * interval)) [0..<length oks]"

definition NONCE_VACUUM_INTERVAL :: rat where "NONCE_VACUUM_INTERVAL = 600"
definition JOB_CLEANUP_INTERVAL :: rat where "JOB_CLEANUP_INTERVAL = 3600"
definition JOB_RETENTION_HOURS :: nat where "JOB_RETENTION_HOURS = 24"
definition AUDIT_CLEANUP_INTERVAL :: rat where "AUDIT_CLEANUP_INTERVAL = 3600"

definition nonce_vacuum_loop :: "rat \<Rightarrow> passes \<Rightarrow> nonce_row list \<Rightarrow> nonce_row list" where
  "nonce_vacuum_loop retention_seconds = sweep_loop (\<lambda>now ns. snd (vacuum_old_nonces retention_seconds now ns))"

definition job_cleanup_loop :: "nat \<Rightarrow> passes \<Rightarrow> extraction_job list \<Rightarrow> extraction_job list" where
  "job_cleanup_loop retention_hours = sweep_loop (\<lambda>now jobs. snd (cleanup_expired_jobs retention_hours now jobs))"

text \<open>\<^verbatim>\<open>retention_days or get_settings().audit_log_retention_days\<close>.\<close>

definition effective_days :: "int option \<Rightarrow> int \<Rightarrow> int" where
  "effective_days retention_days setting =
     (case retention_days of None \<Rightarrow> setting | Some d \<Rightarrow> if d = 0 then setting else d)"

definition audit_cleanup_loop :: "int option \<Rightarrow> int \<Rightarrow> passes \<Rightarrow> audit_table \<Rightarrow> audit_table" where
  "audit_cleanup_loop retention_days setting =
     sweep_loop (\<lambda>now t. snd (cleanup_expired_audit_events now (effective_days retention_days setting) t))"

section \<open>What a run leaves\<close>

text \<open>A row without a time never expires.\<close>

definition alive_at :: "rat \<Rightarrow> rat option \<Rightarrow> rat \<Rightarrow> bool" where
  "alive_at keep stamp now \<longleftrightarrow> (case stamp of None \<Rightarrow> True | Some t \<Rightarrow> now - keep \<le> t)"

locale sweeper =
  fixes rows :: "'s \<Rightarrow> 'r list" and stamp :: "'r \<Rightarrow> rat option" and keep :: rat and sweep :: "rat \<Rightarrow> 's \<Rightarrow> 's"
  assumes sweep_rows: "rows (sweep now s) = filter (\<lambda>r. alive_at keep (stamp r) now) (rows s)"
begin

lemma loop_rows:
  "rows (sweep_loop sweep ps s) = filter (\<lambda>r. \<forall>(ok, now) \<in> set ps. ok \<longrightarrow> alive_at keep (stamp r) now) (rows s)"
proof (induction ps arbitrary: s)
  case (Cons p ps)
  then show ?case
    by (cases "fst p") (auto simp: sweep_loop_def sweep_pass_def sweep_rows split_beta intro!: filter_cong)
qed (simp add: sweep_loop_def)

text \<open>Nothing inside its retention period is lost, nothing unstamped is, and no row appears.\<close>

lemma young_kept:
  assumes "r \<in> set (rows s)" "\<forall>(ok, now) \<in> set ps. alive_at keep (stamp r) now"
  shows "r \<in> set (rows (sweep_loop sweep ps s))"
  using assms by (auto simp: loop_rows)

text \<open>The first successful pass after the period has ended removes the row.\<close>

lemma old_gone:
  assumes "i < length oks" "oks ! i" "stamp r = Some t" "t + keep < start + of_nat i * interval"
  shows "r \<notin> set (rows (sweep_loop sweep (cadence start interval oks) s))"
proof -
  have "(True, start + of_nat i * interval) \<in> set (cadence start interval oks)"
    using assms(1,2) by (auto simp: cadence_def image_iff intro!: bexI [of _ i])
  moreover have "\<not> alive_at keep (stamp r) (start + of_nat i * interval)"
    using assms(3,4) by (simp add: alive_at_def)
  ultimately show ?thesis by (force simp: loop_rows)
qed

end

interpretation nonce_sweep: sweeper id "\<lambda>n. Some (nn_used_at n)" retention "\<lambda>now ns. snd (vacuum_old_nonces retention now ns)"
  for retention
  by unfold_locales (auto simp: vacuum_old_nonces_def Let_def alive_at_def not_less intro!: filter_cong)

interpretation job_sweep: sweeper id ej_completed_at "of_nat (hours * 3600)" "\<lambda>now jobs. snd (cleanup_expired_jobs hours now jobs)"
  for hours
  by unfold_locales
    (auto simp: cleanup_expired_jobs_def Let_def alive_at_def expired_def not_less split: option.splits intro!: filter_cong)

interpretation audit_sweep: sweeper tb_rows "\<lambda>r. Some (au_occurred_at r)" "of_int (days * 86400)"
    "\<lambda>now t. snd (cleanup_expired_audit_events now days t)" for days
  by unfold_locales
    (auto simp: cleanup_expired_audit_events_def delete_rows_def Let_def alive_at_def not_less intro!: filter_cong)

text \<open>
  Retention is exact.  Run each background loop with any outcomes of its passes: the tables keep
  exactly the rows that were inside their retention period at every pass that succeeded.  Unfinished
  jobs are always kept, and a row is gone after the first successful pass that starts after its period.
\<close>

theorem retention_exact:
  "nonce_vacuum_loop NONCE_RETENTION_SECONDS ps ns =
     filter (\<lambda>n. \<forall>(ok, now) \<in> set ps. ok \<longrightarrow> now - 600 \<le> nn_used_at n) ns \<and>
   job_cleanup_loop JOB_RETENTION_HOURS ps jobs =
     filter (\<lambda>j. \<forall>t. ej_completed_at j = Some t \<longrightarrow> (\<forall>(ok, now) \<in> set ps. ok \<longrightarrow> now - 86400 \<le> t)) jobs \<and>
   tb_rows (audit_cleanup_loop rd setting ps tab) =
     filter (\<lambda>r. \<forall>(ok, now) \<in> set ps. ok \<longrightarrow> now - of_int (effective_days rd setting * 86400) \<le> au_occurred_at r) (tb_rows tab)"
proof -
  have "nonce_vacuum_loop NONCE_RETENTION_SECONDS ps ns =
     filter (\<lambda>n. \<forall>(ok, now) \<in> set ps. ok \<longrightarrow> now - 600 \<le> nn_used_at n) ns"
    using nonce_sweep.loop_rows [of NONCE_RETENTION_SECONDS ps ns]
    by (simp add: nonce_vacuum_loop_def NONCE_RETENTION_SECONDS_def alive_at_def)
  moreover have "job_cleanup_loop JOB_RETENTION_HOURS ps jobs =
     filter (\<lambda>j. \<forall>t. ej_completed_at j = Some t \<longrightarrow> (\<forall>(ok, now) \<in> set ps. ok \<longrightarrow> now - 86400 \<le> t)) jobs"
    using job_sweep.loop_rows [of JOB_RETENTION_HOURS ps jobs]
    by (auto simp: job_cleanup_loop_def JOB_RETENTION_HOURS_def alive_at_def split: option.splits intro!: filter_cong)
  moreover have "tb_rows (audit_cleanup_loop rd setting ps tab) =
     filter (\<lambda>r. \<forall>(ok, now) \<in> set ps. ok \<longrightarrow> now - of_int (effective_days rd setting * 86400) \<le> au_occurred_at r) (tb_rows tab)"
    using audit_sweep.loop_rows [of "effective_days rd setting" ps tab]
    by (simp add: audit_cleanup_loop_def alive_at_def)
  ultimately show ?thesis by blast
qed

end
