(* ===== verification/Rate_Interleaving.thy ===== *)
theory Rate_Interleaving
  imports Rate_Limit
begin

text \<open>
  Concurrent use of the limiter of \<^verbatim>\<open>app/security/rate_limit.py\<close>.  Redis runs each script call as one
  step, but a call of \<^verbatim>\<open>check_caller\<close> is two of them, with other requests' calls in between, and the
  clock readings of different workers reach Redis in any order.  Calls in flight are a list of
  threads; a schedule says which thread makes its next script call and what the clocks read.  The
  bound on admitted calls is shown for every schedule.  A clock reading behind the previous one gives
  the bucket that time once more, so the refill is counted by the rises of the clock readings; with
  readings in order these add up to the length of the interval.
\<close>

section \<open>Calls in flight\<close>

datatype limiter_call =
    Caller_start ustr nat nat
  | Caller_hour ustr nat
  | Caller_done ustr rate_limit_outcome
  | Ip_start ustr nat
  | Ip_done ustr rate_limit_outcome

text \<open>One script call of a thread; \<^verbatim>\<open>check_caller\<close> goes on to the hour only when the minute allowed it.\<close>

fun call_step :: "rat \<times> rat \<Rightarrow> limiter_call \<Rightarrow> redis_store \<Rightarrow> limiter_call \<times> redis_store" where
  "call_step t (Caller_start k pm ph) st =
     (let (m, st') = consume (caller_key k ''m'') (of_nat pm) (of_nat pm / 60) 1 (fst t) (snd t) st
      in (if rl_allowed m then Caller_hour k ph else Caller_done k m, st'))"
| "call_step t (Caller_hour k ph) st =
     (let (h, st') = consume (caller_key k ''h'') (of_nat ph) (of_nat ph / 3600) 1 (fst t) (snd t) st
      in (Caller_done k h, st'))"
| "call_step t (Ip_start ip pm) st =
     (let (out, st') = check_ip ip pm t st in (Ip_done ip out, st'))"
| "call_step t c st = (c, st)"

type_synonym schedule = "(nat \<times> rat \<times> rat) list"

fun run_schedule :: "schedule \<Rightarrow> limiter_call list \<Rightarrow> redis_store \<Rightarrow> limiter_call list \<times> redis_store" where
  "run_schedule [] cs st = (cs, st)"
| "run_schedule ((i, t) # sch) cs st =
     (if i < length cs then
        let (c, st') = call_step t (cs ! i) st in run_schedule sch (cs[i := c]) st'
      else run_schedule sch cs st)"

text \<open>Undisturbed, the two steps of a caller's thread are one call of \<^verbatim>\<open>check_caller\<close>.\<close>

lemma call_steps_check_caller:
  "(case call_step t1 (Caller_start k pm ph) st of (c, st') \<Rightarrow> call_step t2 c st') =
     (let (out, st') = check_caller k pm ph t1 t2 st in (Caller_done k out, st'))"
  by (auto simp: check_caller_def Let_def split: prod.splits)

section \<open>Script calls of a schedule\<close>

fun call_prim :: "rat \<times> rat \<Rightarrow> limiter_call \<Rightarrow> prim list" where
  "call_prim t (Caller_start k pm ph) = [(caller_key k ''m'', of_nat pm, of_nat pm / 60, t)]"
| "call_prim t (Caller_hour k ph) = [(caller_key k ''h'', of_nat ph, of_nat ph / 3600, t)]"
| "call_prim t (Ip_start ip pm) = [(ip_key ip, of_nat pm, of_nat pm / 60, t)]"
| "call_prim t _ = []"

fun schedule_prims :: "schedule \<Rightarrow> limiter_call list \<Rightarrow> redis_store \<Rightarrow> prim list" where
  "schedule_prims [] cs st = []"
| "schedule_prims ((i, t) # sch) cs st =
     (if i < length cs then
        call_prim t (cs ! i) @
        (let (c, st') = call_step t (cs ! i) st in schedule_prims sch (cs[i := c]) st')
      else schedule_prims sch cs st)"

lemma call_step_prims: "snd (call_step t c st) = run_prims (call_prim t c) st"
  by (cases c) (auto simp: do_prim_def check_ip_def split: prod.splits)

text \<open>The clock readings a key's bucket sees, in the order Redis runs the script on it.\<close>

definition readings :: "ustr \<Rightarrow> schedule \<Rightarrow> limiter_call list \<Rightarrow> redis_store \<Rightarrow> rat list" where
  "readings key sch cs st = map fst (times_of key (schedule_prims sch cs st))"

section \<open>Who has been admitted\<close>

fun is_admitted :: "ustr \<Rightarrow> limiter_call \<Rightarrow> bool" where
  "is_admitted k (Caller_done k' out) = (k' = k \<and> rl_allowed out)"
| "is_admitted k _ = False"

fun is_waiting :: "ustr \<Rightarrow> limiter_call \<Rightarrow> bool" where
  "is_waiting k (Caller_hour k' ph) = (k' = k)"
| "is_waiting k _ = False"

fun ip_admitted :: "ustr \<Rightarrow> limiter_call \<Rightarrow> bool" where
  "ip_admitted ip (Ip_done ip' out) = (ip' = ip \<and> rl_allowed out)"
| "ip_admitted ip _ = False"

definition how_many :: "('a \<Rightarrow> bool) \<Rightarrow> 'a list \<Rightarrow> nat" where
  "how_many P xs = length (filter P xs)"

lemma how_many_update:
  "i < length xs \<Longrightarrow>
   how_many P (xs[i := x]) + (if P (xs ! i) then 1 else 0) = how_many P xs + (if P x then 1 else 0)"
proof (induction xs arbitrary: i)
  case (Cons y xs)
  then show ?case by (cases i) (fastforce simp: how_many_def)+
qed simp

text \<open>What is admitted in the end was admitted at the start or paid for in the schedule.\<close>

lemma schedule_pays:
  assumes "\<And>t c st. (if P (fst (call_step t c st)) then 1 else 0) \<le> (if P c then 1 else 0) + spent key (call_prim t c) st"
  shows "how_many P (fst (run_schedule sch cs st)) \<le> how_many P cs + spent key (schedule_prims sch cs st) st"
proof (induction sch arbitrary: cs st)
  case (Cons x sch)
  obtain i t where x: "x = (i, t)" by (cases x) auto
  show ?case
  proof (cases "i < length cs")
    case True
    obtain c st' where c: "call_step t (cs ! i) st = (c, st')" by (cases "call_step t (cs ! i) st") auto
    have st': "st' = run_prims (call_prim t (cs ! i)) st" using call_step_prims [of t "cs ! i" st] c by simp
    have "how_many P (cs[i := c]) \<le> how_many P cs + spent key (call_prim t (cs ! i)) st"
      using how_many_update [OF True, of P c] assms [of t "cs ! i" st] c by (auto split: if_splits)
    with Cons.IH [of "cs[i := c]" st'] True c show ?thesis
      by (simp add: x spent_append flip: st')
  qed (use Cons.IH x in simp)
qed simp

lemma step_pays:
  "(if is_admitted k (fst (call_step t c st)) \<or> is_waiting k (fst (call_step t c st)) then 1 else 0) \<le>
     (if is_admitted k c \<or> is_waiting k c then 1 else 0) + spent (caller_key k ''m'') (call_prim t c) st"
  "(if is_admitted k (fst (call_step t c st)) then 1 else 0) \<le>
     (if is_admitted k c then 1 else 0) + spent (caller_key k ''h'') (call_prim t c) st"
  "(if ip_admitted ip (fst (call_step t c st)) then 1 else 0) \<le>
     (if ip_admitted ip c then 1 else 0) + spent (ip_key ip) (call_prim t c) st"
  by (cases c; auto simp: do_prim_def check_ip_def split: prod.splits)+

section \<open>What a bucket can give\<close>

text \<open>The rises of a sequence of readings.\<close>

fun climb :: "rat list \<Rightarrow> rat" where
  "climb [] = 0"
| "climb [x] = 0"
| "climb (x # y # zs) = max 0 (y - x) + climb (y # zs)"

lemma climb_sorted: "sorted (x # xs) \<Longrightarrow> climb (x # xs) = last (x # xs) - x"
  by (induction xs arbitrary: x) auto

lemma climb_within:
  assumes "sorted xs" "\<forall>x \<in> set xs. a \<le> x \<and> x \<le> b" "a \<le> b"
  shows "climb xs \<le> b - a"
proof (cases xs)
  case (Cons y ys)
  have "last (y # ys) \<in> set xs" unfolding Cons by (rule last_in_set) simp
  with assms(2) Cons have "last (y # ys) \<le> b" "a \<le> y" by auto
  with climb_sorted assms(1) Cons show ?thesis by fastforce
qed (use assms(3) in simp)

text \<open>One use of a bucket: at most full, at most what it held and what the rise of the clock adds.\<close>

definition holds :: "rat \<Rightarrow> bucket option \<Rightarrow> rat" where
  "holds cap bo = (case bo of None \<Rightarrow> cap | Some b \<Rightarrow> bk_tokens b)"

lemma refill_le:
  assumes "0 < rate" "0 \<le> cap" "bucket_good cap rate bo" "skew_ok t"
  shows "0 \<le> refill rate cap (fst t) (hmget (snd t) bo) \<and> refill rate cap (fst t) (hmget (snd t) bo) \<le> cap \<and>
    (\<forall>b. bo = Some b \<longrightarrow> refill rate cap (fst t) (hmget (snd t) bo) \<le> bk_tokens b + rate * max 0 (fst t - bk_ts b))"
proof (cases "\<exists>b. bo = Some b \<and> \<not> snd t < bk_expires b")
  case True
  then obtain b where b: "bo = Some b" "bk_expires b \<le> snd t" by auto
  with assms(3,4) have g: "0 \<le> bk_tokens b" "cap / rate \<le> fst t - bk_ts b"
    by (auto simp: bucket_good_def skew_ok_def)
  with assms(1) have "cap \<le> rate * (fst t - bk_ts b)" by (simp add: field_simps)
  also have "\<dots> \<le> rate * max 0 (fst t - bk_ts b)" using assms(1) by simp
  finally show ?thesis using b g assms(2) by (simp add: hmget_def refill_def)
next
  case False
  then show ?thesis
    using assms by (cases bo) (auto simp: hmget_def refill_def bucket_good_def algebra_simps)
qed

lemma take_pays:
  assumes "0 < rate" "0 \<le> cap" "bucket_good cap rate bo" "skew_ok t"
  shows "bucket_good cap rate (snd (bucket_take cap rate t bo)) \<and>
    (\<exists>b'. snd (bucket_take cap rate t bo) = Some b' \<and> bk_ts b' = fst t \<and> 0 \<le> bk_tokens b' \<and>
       bk_tokens b' + (if fst (fst (bucket_take cap rate t bo)) then 1 else 0) = refill rate cap (fst t) (hmget (snd t) bo))"
proof -
  let ?l = "refill rate cap (fst t) (hmget (snd t) bo)"
  have l: "0 \<le> ?l" "?l \<le> cap" using refill_le [OF assms] by auto
  have bo': "snd (bucket_take cap rate t bo) = Some \<lparr>bk_tokens = (if 1 \<le> ?l then ?l - 1 else ?l), bk_ts = fst t,
      bk_expires = snd t + of_int (\<lceil>cap / rate\<rceil> + 60)\<rparr>" "fst (fst (bucket_take cap rate t bo)) = (1 \<le> ?l)"
    by (simp_all add: bucket_take_def lua_token_bucket_def Let_def)
  have "cap / rate \<le> of_int \<lceil>cap / rate\<rceil>" by simp
  moreover have "fst t - 30 \<le> snd t" using assms(4) by (auto simp: skew_ok_def)
  ultimately have "fst t + cap / rate + 30 \<le> snd t + (of_int \<lceil>cap / rate\<rceil> + 60)" by linarith
  with l show ?thesis by (auto simp: bo' bucket_good_def)
qed

lemma do_prim_pays:
  assumes "0 < rate" "0 \<le> cap" "bucket_good cap rate (st key)" "skew_ok t"
  shows "bucket_good cap rate (snd (do_prim (key, cap, rate, t) st) key)"
    "\<exists>b'. snd (do_prim (key, cap, rate, t) st) key = Some b' \<and> bk_ts b' = fst t \<and> 0 \<le> bk_tokens b' \<and>
       bk_tokens b' + (if rl_allowed (fst (do_prim (key, cap, rate, t) st)) then 1 else 0) =
         refill rate cap (fst t) (hmget (snd t) (st key))"
  using take_pays [OF assms] by (simp_all add: do_prim_take)

lemma spent_climb_from:
  assumes "0 < rate" "0 \<le> cap" "\<forall>(k, c, r, t) \<in> set qs. (k = key \<longrightarrow> c = cap \<and> r = rate) \<and> skew_ok t"
    and "bucket_good cap rate (Some b)" "st key = Some b"
  shows "of_nat (spent key qs st) \<le> bk_tokens b + rate * climb (bk_ts b # map fst (times_of key qs))"
  using assms(3-5)
proof (induction qs arbitrary: st b)
  case Nil
  then show ?case by (simp add: times_of_def bucket_good_def)
next
  case (Cons q qs)
  obtain k c r t where q: "q = (k, c, r, t)" by (cases q) auto
  show ?case
  proof (cases "k = key")
    case True
    then have q: "q = (key, cap, rate, t)" and sk: "skew_ok t" using Cons.prems(1) q by auto
    have g: "bucket_good cap rate (st key)" using Cons.prems by simp
    note pay = do_prim_pays [where st = st and key = key, OF assms(1,2) g sk]
    from pay(2) obtain b' where b': "snd (do_prim q st) key = Some b'" "bk_ts b' = fst t"
      "bk_tokens b' + (if rl_allowed (fst (do_prim q st)) then 1 else 0) = refill rate cap (fst t) (hmget (snd t) (st key))"
      unfolding q by blast
    have "of_nat (spent key qs (snd (do_prim q st))) \<le> bk_tokens b' + rate * climb (bk_ts b' # map fst (times_of key qs))"
      using Cons.prems(1) pay(1) b'(1) by (intro Cons.IH) (auto simp: q)
    moreover have "refill rate cap (fst t) (hmget (snd t) (st key)) \<le> bk_tokens b + rate * max 0 (fst t - bk_ts b)"
      using refill_le [OF assms(1,2) g sk] Cons.prems(3) by blast
    moreover have "times_of key (q # qs) = t # times_of key qs" by (simp add: q times_of_def)
    moreover have "of_nat (spent key (q # qs) st) =
        (if rl_allowed (fst (do_prim q st)) then 1 else 0) + of_nat (spent key qs (snd (do_prim q st)) ) + (0 :: rat)"
      by (simp add: q)
    ultimately show ?thesis using b'(2,3) by (simp add: distrib_left)
  next
    case False
    then have "snd (do_prim q st) key = st key" by (simp add: q do_prim_take)
    with Cons.IH [of b "snd (do_prim q st)"] Cons.prems False show ?thesis by (simp add: q times_of_def)
  qed
qed

lemma spent_climb:
  assumes "0 < rate" "0 \<le> cap" "\<forall>(k, c, r, t) \<in> set qs. (k = key \<longrightarrow> c = cap \<and> r = rate) \<and> skew_ok t"
    and "bucket_good cap rate (st key)"
  shows "of_nat (spent key qs st) \<le> cap + rate * climb (map fst (times_of key qs))"
  using assms(3,4)
proof (induction qs arbitrary: st)
  case (Cons q qs)
  obtain k c r t where q: "q = (k, c, r, t)" by (cases q) auto
  show ?case
  proof (cases "k = key")
    case True
    then have q: "q = (key, cap, rate, t)" and sk: "skew_ok t" using Cons.prems(1) q by auto
    note pay = do_prim_pays [where st = st and key = key, OF assms(1,2) Cons.prems(2) sk]
    from pay(2) obtain b' where b': "snd (do_prim q st) key = Some b'" "bk_ts b' = fst t"
      "bk_tokens b' + (if rl_allowed (fst (do_prim q st)) then 1 else 0) = refill rate cap (fst t) (hmget (snd t) (st key))"
      unfolding q by blast
    have "of_nat (spent key qs (snd (do_prim q st))) \<le> bk_tokens b' + rate * climb (bk_ts b' # map fst (times_of key qs))"
      using Cons.prems(1) pay(1) b'(1) by (intro spent_climb_from [OF assms(1,2)]) (auto simp: q)
    moreover have "refill rate cap (fst t) (hmget (snd t) (st key)) \<le> cap"
      using refill_le [OF assms(1,2) Cons.prems(2) sk] by blast
    moreover have "times_of key (q # qs) = t # times_of key qs" by (simp add: q times_of_def)
    moreover have "of_nat (spent key (q # qs) st) =
        (if rl_allowed (fst (do_prim q st)) then 1 else 0) + of_nat (spent key qs (snd (do_prim q st)) ) + (0 :: rat)"
      by (simp add: q)
    ultimately show ?thesis using b'(2,3) by simp
  next
    case False
    then have "snd (do_prim q st) key = st key" by (simp add: q do_prim_take)
    with Cons.IH [of "snd (do_prim q st)"] Cons.prems False show ?thesis by (simp add: q times_of_def)
  qed
qed (use assms(2) in \<open>simp add: times_of_def\<close>)

section \<open>The bound\<close>

fun fresh :: "limiter_call \<Rightarrow> bool" where
  "fresh (Caller_start k pm ph) = True"
| "fresh (Ip_start ip pm) = True"
| "fresh _ = False"

text \<open>The limits that the calls about one caller and one address carry.\<close>

fun carries :: "ustr \<Rightarrow> nat \<Rightarrow> nat \<Rightarrow> ustr \<Rightarrow> nat \<Rightarrow> limiter_call \<Rightarrow> bool" where
  "carries k pm ph ip pa (Caller_start k' pm' ph') = (k' = k \<longrightarrow> pm' = pm \<and> ph' = ph)"
| "carries k pm ph ip pa (Caller_hour k' ph') = (k' = k \<longrightarrow> ph' = ph)"
| "carries k pm ph ip pa (Ip_start ip' pa') = (ip' = ip \<longrightarrow> pa' = pa)"
| "carries k pm ph ip pa _ = True"

lemma call_step_carries: "carries k pm ph ip pa c \<Longrightarrow> carries k pm ph ip pa (fst (call_step t c st))"
  by (cases c) (auto split: prod.splits)

definition prim_ok :: "ustr \<Rightarrow> nat \<Rightarrow> nat \<Rightarrow> ustr \<Rightarrow> nat \<Rightarrow> prim \<Rightarrow> bool" where
  "prim_ok k pm ph ip pa q = (case q of (key, c, r, t) \<Rightarrow>
     (key = caller_key k ''m'' \<longrightarrow> c = of_nat pm \<and> r = of_nat pm / 60) \<and>
     (key = caller_key k ''h'' \<longrightarrow> c = of_nat ph \<and> r = of_nat ph / 3600) \<and>
     (key = ip_key ip \<longrightarrow> c = of_nat pa \<and> r = of_nat pa / 60) \<and> skew_ok t)"

lemma call_prim_ok: "carries k pm ph ip pa c \<Longrightarrow> skew_ok t \<Longrightarrow> list_all (prim_ok k pm ph ip pa) (call_prim t c)"
  by (cases c) (auto simp: prim_ok_def)

lemma schedule_prims_ok:
  "list_all (carries k pm ph ip pa) cs \<Longrightarrow> list_all (skew_ok \<circ> snd) sch \<Longrightarrow>
   list_all (prim_ok k pm ph ip pa) (schedule_prims sch cs st)"
proof (induction sch arbitrary: cs st)
  case (Cons x sch)
  obtain i t where x: "x = (i, t)" by (cases x) auto
  show ?case
  proof (cases "i < length cs")
    case True
    obtain c st' where c: "call_step t (cs ! i) st = (c, st')" by (cases "call_step t (cs ! i) st") auto
    have i: "carries k pm ph ip pa (cs ! i)" using Cons.prems(1) True by (simp add: list_all_length)
    then have "carries k pm ph ip pa c" using call_step_carries [OF i, of t st] c by simp
    then have "list_all (carries k pm ph ip pa) (cs[i := c])"
      using Cons.prems(1) by (auto simp: list_all_iff dest!: set_update_subset_insert [THEN subsetD])
    with Cons.IH [of "cs[i := c]" st'] Cons.prems(2) True c call_prim_ok [OF i, of t] show ?thesis by (simp add: x)
  qed (use Cons x in simp)
qed simp

lemma fresh_none: "list_all fresh cs \<Longrightarrow> how_many (is_admitted k) cs = 0 \<and>
    how_many (\<lambda>c. is_admitted k c \<or> is_waiting k c) cs = 0 \<and> how_many (ip_admitted ip) cs = 0"
  by (induction cs) (auto simp: how_many_def elim!: fresh.elims)

lemma how_many_mono: "(\<And>x. P x \<Longrightarrow> Q x) \<Longrightarrow> how_many P xs \<le> how_many Q xs"
  by (induction xs) (auto simp: how_many_def)

text \<open>A bucket whose tokens pay for the calls counted by \<open>P\<close>.\<close>

lemma key_bound:
  assumes "list_all (prim_ok k pm ph ip pa) (schedule_prims sch cs st)" "0 < n" "0 < d"
    and "\<And>c r t. prim_ok k pm ph ip pa (key, c, r, t) \<Longrightarrow> c = of_nat n \<and> r = of_nat n / d"
    and "bucket_good (of_nat n) (of_nat n / d) (st key)"
    and "how_many P (fst (run_schedule sch cs st)) \<le> spent key (schedule_prims sch cs st) st"
  shows "of_nat (how_many P (fst (run_schedule sch cs st))) \<le> of_nat n + of_nat n / d * climb (readings key sch cs st)"
proof -
  have "(kk = key \<longrightarrow> c = of_nat n \<and> r = of_nat n / d) \<and> skew_ok t"
    if "(kk, c, r, t) \<in> set (schedule_prims sch cs st)" for kk c r t
  proof -
    have q: "prim_ok k pm ph ip pa (kk, c, r, t)" using assms(1) that by (auto simp: list_all_iff)
    then have "skew_ok t" by (simp add: prim_ok_def)
    with q assms(4) show ?thesis by blast
  qed
  then have "\<forall>(kk, c, r, t) \<in> set (schedule_prims sch cs st). (kk = key \<longrightarrow> c = of_nat n \<and> r = of_nat n / d) \<and> skew_ok t"
    by blast
  from spent_climb [where st = st and key = key, OF _ _ this assms(5)] assms(2,3)
  have "of_nat (spent key (schedule_prims sch cs st) st) \<le> of_nat n + of_nat n / d * climb (readings key sch cs st)"
    unfolding readings_def by simp
  with assms(6) show ?thesis by (meson of_nat_mono order_trans)
qed

text \<open>
  C7: no caller exceeds its rate, whatever the interleaving.  Let any number of limiter calls, by
  any callers and addresses, be in flight, and run their script calls in any order, with clock
  readings in any order that stay within half a minute of the Redis clock.  The calls of a caller with
  limits \<open>pm\<close> per minute and \<open>ph\<close> per hour that are admitted number at most \<open>pm + pm / 60\<close> times the
  rises of the readings its minute bucket sees, and at most \<open>ph + ph / 3600\<close> times those its hour bucket
  sees; the failed authentications of an address that are let through number at most \<open>pa + pa / 60\<close>
  times the rises of its readings.  When a bucket sees its readings in order, their rises are the
  length of the interval they span.
\<close>

theorem rate_limit_bound:
  assumes "list_all fresh cs" "list_all (carries k pm ph ip pa) cs" "list_all (skew_ok \<circ> snd) sch"
    and "0 < pm" "0 < ph" "0 < pa"
    and "bucket_good (of_nat pm) (of_nat pm / 60) (st (caller_key k ''m''))"
    and "bucket_good (of_nat ph) (of_nat ph / 3600) (st (caller_key k ''h''))"
    and "bucket_good (of_nat pa) (of_nat pa / 60) (st (ip_key ip))"
  shows "of_nat (how_many (is_admitted k) (fst (run_schedule sch cs st))) \<le>
           of_nat pm + of_nat pm / 60 * climb (readings (caller_key k ''m'') sch cs st) \<and>
         of_nat (how_many (is_admitted k) (fst (run_schedule sch cs st))) \<le>
           of_nat ph + of_nat ph / 3600 * climb (readings (caller_key k ''h'') sch cs st) \<and>
         of_nat (how_many (ip_admitted ip) (fst (run_schedule sch cs st))) \<le>
           of_nat pa + of_nat pa / 60 * climb (readings (ip_key ip) sch cs st) \<and>
         (\<forall>key a b. sorted (readings key sch cs st) \<and> (\<forall>x \<in> set (readings key sch cs st). a \<le> x \<and> x \<le> b) \<and> a \<le> b
            \<longrightarrow> climb (readings key sch cs st) \<le> b - a)"
proof (intro conjI)
  note ok = schedule_prims_ok [OF assms(2,3), of st] and none = fresh_none [OF assms(1)]
  have "how_many (is_admitted k) (fst (run_schedule sch cs st)) \<le>
      how_many (\<lambda>c. is_admitted k c \<or> is_waiting k c) (fst (run_schedule sch cs st))"
    by (rule how_many_mono) simp
  also have "\<dots> \<le> spent (caller_key k ''m'') (schedule_prims sch cs st) st"
    using schedule_pays [OF step_pays(1) [of k], of sch cs st] none by simp
  finally show "of_nat (how_many (is_admitted k) (fst (run_schedule sch cs st))) \<le>
           of_nat pm + of_nat pm / 60 * climb (readings (caller_key k ''m'') sch cs st)"
    by (intro key_bound [OF ok assms(4)] assms(7)) (simp_all add: prim_ok_def)
  show "of_nat (how_many (is_admitted k) (fst (run_schedule sch cs st))) \<le>
           of_nat ph + of_nat ph / 3600 * climb (readings (caller_key k ''h'') sch cs st)"
    using schedule_pays [OF step_pays(2) [of k], of sch cs st] none
    by (intro key_bound [OF ok assms(5)] assms(8)) (simp_all add: prim_ok_def)
  show "of_nat (how_many (ip_admitted ip) (fst (run_schedule sch cs st))) \<le>
           of_nat pa + of_nat pa / 60 * climb (readings (ip_key ip) sch cs st)"
    using schedule_pays [OF step_pays(3) [of ip], of sch cs st] none
    by (intro key_bound [OF ok assms(6)] assms(9)) (simp_all add: prim_ok_def)
qed (use climb_within in blast)

text \<open>Two interleaved calls of one caller whose second worker's clock is three seconds behind.\<close>

theorem rate_limit_bound_witness:
  "let cs = [Caller_start (u ''k'') 1 9, Caller_start (u ''k'') 1 9, Ip_start (u ''i'') 1];
       sch = [(0, 8, 8), (1, 5, 8), (2, 6, 8), (0, 9, 9), (1, 9, 9)]
   in of_nat (how_many (is_admitted (u ''k'')) (fst (run_schedule sch cs Map.empty))) \<le>
        (of_nat 1 + of_nat 1 / 60 * climb (readings (caller_key (u ''k'') ''m'') sch cs Map.empty) :: rat)"
  using rate_limit_bound [of "[Caller_start (u ''k'') 1 9, Caller_start (u ''k'') 1 9, Ip_start (u ''i'') 1]"
      "u ''k''" 1 9 "u ''i''" 1 "[(0, 8, 8), (1, 5, 8), (2, 6, 8), (0, 9, 9), (1, 9, 9)]" Map.empty]
  unfolding Let_def by (simp add: skew_ok_def bucket_good_def)

end
