(* ===== verification/Spec2Isabelle.thy ===== *)
theory Spec2Isabelle
  imports Checksum Auth Detect Attachments Recognizers Log_Filter Body_Size Analyzer Audit_Trail Alerter Test_Page Validation Encryption Vlm Migration_Head Key_File Paddle Service Retention Rate_Interleaving
begin

text \<open>
  Verification of the Open PII Filter gateway: a FastAPI service that a web board asks, before a post
  is published, whether its text or its attachments hold personal data.

  \<^bold>\<open>The program.\<close>  A request to \<^verbatim>\<open>POST /v1/detect/post\<close> passes the middlewares
  (\<^verbatim>\<open>app/security/body_size.py\<close>, \<^verbatim>\<open>audit_middleware.py\<close>), the authentication dependency
  (\<^verbatim>\<open>auth.py\<close> over \<^verbatim>\<open>hmac_auth.py\<close>, \<^verbatim>\<open>ip_allowlist.py\<close> and \<^verbatim>\<open>rate_limit.py\<close>) and reaches the
  handler of \<^verbatim>\<open>app/api/detect.py\<close>.  The handler reserves the request id
  (\<^verbatim>\<open>idempotency.py\<close>), checks the attachments against the limits and the deny list
  (\<^verbatim>\<open>app/core/blocklist_cache.py\<close>), runs the analyzer (\<^verbatim>\<open>app/core/analyzer.py\<close> with the
  recognizers of \<^verbatim>\<open>app/core/recognizers\<close>), turns hits into codes (\<^verbatim>\<open>policies.py\<close>,
  \<^verbatim>\<open>policy_engine.py\<close>, \<^verbatim>\<open>codes.py\<close>) and answers at once or, with attachments, queues a job.  The
  worker (\<^verbatim>\<open>app/workers/attachment_processor.py\<close>) downloads, scans and extracts each attachment
  (\<^verbatim>\<open>app/extractors\<close>), analyses the text and calls the board back
  (\<^verbatim>\<open>webhook_sender.py\<close>).  Beside this stand the admin API, the operator dashboard
  (\<^verbatim>\<open>app/api/dashboard.py\<close>), the feedback endpoint with its hourly alert, the settings file and the
  database with its migrations.

  \<^bold>\<open>Theories and sources.\<close>
  \<^item> \<open>Prelude\<close>, \<open>Py_Unicode\<close>, \<open>Sha256\<close>, \<open>Json\<close>, \<open>Regex\<close>: Python strings as code points, the Unicode
    tables behind \<^verbatim>\<open>isdigit\<close>, \<^verbatim>\<open>strip\<close> and \<^verbatim>\<open>lower\<close>, SHA-256 and HMAC on words, the
    \<^verbatim>\<open>json\<close> module with its round trip, and the part of \<^verbatim>\<open>re\<close> that the source uses.
  \<^item> \<open>Checksum\<close>, \<open>Codes\<close>, \<open>Responses\<close>, \<open>Policies\<close>: \<^verbatim>\<open>app/core/checksum.py\<close>, \<^verbatim>\<open>codes.py\<close>,
    \<^verbatim>\<open>app/api/responses.py\<close>, \<^verbatim>\<open>app/core/policies.py\<close> and \<^verbatim>\<open>policy_engine.py\<close>: check digits, the
    catalogue, the building of answers, and the most specific policy.
  \<^item> \<open>Idempotency\<close>, \<open>Ip_Allow\<close>, \<open>Rate_Limit\<close>, \<open>Rate_Interleaving\<close>, \<open>Hmac_Auth\<close>, \<open>Auth\<close>: \<^verbatim>\<open>app/security\<close>:
    one winner per request id and replay of its answer, CIDR matching, the bound on admitted calls under
    every schedule of concurrent calls, exact acceptance and no replay of signed requests, and what a
    caller who passes the gate has shown and paid.
  \<^item> \<open>Blocklist\<close>, \<open>Jobs\<close>, \<open>Detect\<close>: the attachment deny list, the job table and the detection
    handler: a post is blocked exactly when a hit reaches its threshold, retries are idempotent,
    accepted attachments have one job, and the error paths keep or free the reservation.
  \<^item> \<open>Extract\<close>, \<open>Vlm\<close>, \<open>Paddle\<close>, \<open>Attachments\<close>, \<open>Webhook\<close>: extraction and OCR, the worker job and
    the signed callbacks: completion of a job, its row invariant under every failure, the exact block
    condition of an attachment, and the bound on retries.
  \<^item> \<open>Recognizers\<close>, \<open>Settings\<close>, \<open>Overrides\<close>, \<open>Analyzer\<close>: the recognizers, the settings file with its
    JSON text, operator edits, and the engine caches: numbers that are found, the settings as a map
    update, edits that survive the file, and changes a running process never serves.
  \<^item> \<open>Log_Filter\<close>, \<open>Body_Size\<close>, \<open>Audit_Trail\<close> over \<open>Cursor\<close> and \<open>Keyset\<close>, \<open>Encryption\<close>,
    \<open>Validation\<close>: log scrubbing, the body cap, the audit trail with its listing, column encryption,
    and the answers of \<^verbatim>\<open>app/main.py\<close> and \<^verbatim>\<open>app/api/health.py\<close>.
  \<^item> \<open>Feedback\<close>, \<open>Alerter\<close>, \<open>Dashboard\<close>, \<open>Test_Page\<close>: feedback and statistics, the hourly mail, the
    dashboard with its sessions and tables, and its test page.
  \<^item> \<open>Schema\<close>, \<open>Migrations\<close>, \<open>Schema_Shape\<close>, \<open>Migration_Runs\<close>, \<open>Migration_Stages\<close>, \<open>Migration_Head\<close>:
    \<^verbatim>\<open>app/db/migrations\<close> and \<^verbatim>\<open>app/db/models.py\<close>: the SQL statements the migrations use, on schemas with rows;
    the eighteen revisions and the run in one transaction; a simulation that forgets the rows; an
    upgrade from the empty database, with the schema in the search path, reaches what the models
    declare and a listed rest (two indexes, two unique constraints, one default), a downgrade below
    one revision never succeeds, and the seeded deny list blocks.
  \<^item> \<open>Key_File\<close>: \<^verbatim>\<open>scripts/manage_keys.py\<close> and \<^verbatim>\<open>app/cli/apikey.py\<close>: a key revoked in the table stays refused
    whatever is loaded, one revoked in the file does not.
  \<^item> \<open>Service\<close>: the rest of \<^verbatim>\<open>app/main.py\<close> (mounted routers, startup and its caches, background tasks),
    \<^verbatim>\<open>metrics_collector.py\<close>, \<^verbatim>\<open>app/api/metrics.py\<close>, the front page of the dashboard and \<^verbatim>\<open>app/api/legal.py\<close>.
  \<^item> \<open>Retention\<close>: the background loops of \<^verbatim>\<open>app/workers\<close> that delete nonces, jobs and audit rows: a run
    keeps exactly the rows that were inside their period at every pass that succeeded.
  \<^item> This theory: a valid resident number in a post leads to the BLOCK verdict, from the recognizer's
    regular expression through the analyzer to the answer.

  \<^bold>\<open>How the code is rendered.\<close>  Records stand for classes and table rows, sums for operations that can
  raise, explicit state passing for everything that mutates.  Times and scores that the code only
  compares are rationals; the width of a policy band, which the database subtracts, is rounded to doubles.  Interfaces are locales that are interpreted on the definitions here: the
  token bucket, the idempotency store, CIDR scanning, the retrying sender, the worker steps, keyset
  pagination, write-through tables, sweeps, bounded patterns and redactions.

  \<^bold>\<open>Bounds and fuel.\<close>  The client that follows cursors (\<open>Audit_Trail.drain\<close>) has one step more than
  there are rows, which is shown to bring it to the page without a cursor; running out of steps is a
  value of its own.  The exponent search of \<open>Policies.double_of\<close> goes to the subnormal numbers.  The element counters of the
  JSON parser are the length of the text.  The recursion limit of the JSON scanner and printer is a
  parameter.  The streaming loop of the body cap is a partial function, and when it returns is the
  property itself.  A migration run has as many steps as there are revisions.

  \<^bold>\<open>Parameters.\<close>  Presidio and spaCy (the engine as a function from text to scored spans), the
  document parsers and PaddleOCR, ClamAV, the HTTP client and server, SMTP, AES-GCM, the regular
  expression compiler for operator input, \<^verbatim>\<open>isoformat\<close> and its parser, float rounding, random bytes
  and clocks.  Where a property relies on one of them, the documented behaviour is a hypothesis and a
  witness instantiates it.

  \<^bold>\<open>Not modelled.\<close>  What has no decisions of its own: the OpenAPI texts of \<^verbatim>\<open>app/main.py\<close>, the declarations
  of \<^verbatim>\<open>app/config.py\<close>, the connection pool of \<^verbatim>\<open>app/db/session.py\<close>, the HTML templates and
  the static list of libraries of the dashboard, the layout of printed tables, the registration of subcommands (\<^verbatim>\<open>app/cli/main.py\<close>), and the checker of local test
  services \<^verbatim>\<open>scripts/check_test_prereqs.py\<close>, whose checks are probes of the machine it runs on.
\<close>

section \<open>From a resident number in a post to the BLOCK verdict\<close>

text \<open>
  What Presidio documents of a pattern recognizer: a match of one of its patterns whose
  \<^verbatim>\<open>validate_result\<close> is true is reported with the maximal score.
\<close>

definition presidio_reports :: "analyzer \<Rightarrow> bool" where
  "presidio_reports engine \<longleftrightarrow>
     (\<forall>txt raw p i e. engine txt = Inr raw \<and> p \<in> set (rz_patterns KrRrnRecognizer) \<and>
        (i, e) \<in> set (finditer (pt_regex p) txt) \<and> validate_rrn (substr txt i e) \<longrightarrow>
        (\<exists>r \<in> set raw. rr_entity_type r = rz_entity KrRrnRecognizer \<and> rr_start r = i \<and> rr_end r = e \<and> rr_score r = 1))"

text \<open>An engine that does just that.\<close>

definition rrn_engine :: analyzer where
  "rrn_engine txt =
     Inr (concat (map (\<lambda>p. map (\<lambda>(i, e). \<lparr>rr_entity_type = rz_entity KrRrnRecognizer, rr_start = i, rr_end = e, rr_score = 1\<rparr>)
       (filter (\<lambda>(i, e). validate_rrn (substr txt i e)) (finditer (pt_regex p) txt))) (rz_patterns KrRrnRecognizer)))"

lemma rrn_engine_reports: "presidio_reports rrn_engine"
  unfolding presidio_reports_def rrn_engine_def by fastforce

lemma engine_ok_rrn_engine: "engine_ok rrn_engine txt"
  by (auto simp: engine_ok_def rrn_engine_def list_all_iff)

lemma BLOCK_THRESHOLD_le_1: "BLOCK_THRESHOLD st \<le> 1"
  by (cases st) simp_all

text \<open>
  C2: a post with a valid resident number is blocked.  Given that the analyzer reports validated
  pattern matches as Presidio documents, every new valid post, at any strictness, whose body holds a
  valid resident registration number, written with or without the hyphen and not glued to further
  digits, is answered with verdict BLOCK, unless the author's address is an exception address or a
  database policy exists.
\<close>

theorem valid_rrn_blocked:
  assumes "analysable env req st" "resolve_runtime env = (engine, shadow, [])" "presidio_reports engine"
    and "\<not> is_exception_ip (en_exception_ips env) (dr_author_ip req)"
    and "dr_body req = pre @ (a @ sep @ c # b) @ post"
    and "decimals a" "length a = 6" "c \<in> {49..52}" "decimals b" "length b = 6" "sep \<in> {[], [45]}"
    and "pre = [] \<or> \<not> is_decimal (last pre)" "post = [] \<or> \<not> is_decimal (hd post)"
    and "validate_rrn (a @ sep @ c # b)"
  shows "\<exists>hr ap. fst (detect_post env req st) = Inr (hr, ap) \<and> r_verdict (hr_content hr) = BLOCK"
proof -
  let ?n = "a @ sep @ c # b" and ?s = "dr_body req"
  obtain p where p: "p \<in> set (rz_patterns KrRrnRecognizer)"
    "(length pre, length pre + length ?n) \<in> set (finditer (pt_regex p) ?s)"
    using rrn_reported [OF assms(6-13)] unfolding assms(5) by blast
  have sub: "substr ?s (length pre) (length pre + length ?n) = ?n"
    unfolding assms(5) substr_def by simp
  have ne: "?s \<noteq> []" using assms(5) by simp
  obtain raw where raw: "engine ?s = Inr raw"
    using assms(1,2) ne by (auto simp: analysable_def analysis_ok_def engine_ok_def split: sum.splits)
  obtain r where r: "r \<in> set raw" "rr_score r = 1"
    using assms(3,14) raw p sub unfolding presidio_reports_def by metis
  have "BLOCK_THRESHOLD (dr_strictness req) \<le> rr_score r"
    unfolding r(2) by (rule BLOCK_THRESHOLD_le_1)
  moreover have "0 < MAX_DETECTIONS_PER_SPAN" by (simp add: MAX_DETECTIONS_PER_SPAN_def)
  ultimately obtain h where "h \<in> set (topk_per_span MAX_DETECTIONS_PER_SPAN raw)" "blocking_hit (dr_strictness req) [] h"
    using topk_blocking_no_policy r(1) by blast
  then have "blocks env req"
    using assms(2,4) ne raw by (auto simp: blocks_def body_hits_def policies_of_def kept_hits_def)
  then obtain resp ap st' where "detect_post env req st =
       (Inr (\<lparr>hr_status = the (code_status (r_code resp)), hr_content = resp\<rparr>, ap), st')" "r_verdict resp = BLOCK"
    by (auto intro: detect_post_analysable [OF assms(1)])
  then show ?thesis by simp
qed

lemma demo_rrn_valid: "validate_rrn (u ''900101'' @ [45] @ 49 # u ''234568'')"
proof -
  have dv: "dval c = int (c - 48)" if "48 \<le> c" "c \<le> 57" for c
    using that by (simp add: dval_def decimal_value_ascii)
  have f: "filter is_decimal (u ''900101'' @ [45] @ 49 # u ''234568'') = u ''9001011234568''"
    by (simp add: u_def is_decimal_ascii)
  have "rrn_checksum (u ''900101123456'') = Inr 8"
    by (subst rrn_checksum_decimals) (simp_all add: u_def is_decimal_ascii dv weighted_sum_def rrn_weights_def)
  then show ?thesis
    unfolding validate_rrn_def f
    by (simp add: u_def dv GENDER_TO_CENTURY_def valid_date_def two_digits_def days_in_month_def)
qed

theorem valid_rrn_blocked_witness:
  "\<exists>hr ap. fst (detect_post (demo_env\<lparr>en_builtin := rrn_engine\<rparr>) demo_request demo_state) = Inr (hr, ap) \<and>
     r_verdict (hr_content hr) = BLOCK"
proof -
  let ?env = "demo_env\<lparr>en_builtin := rrn_engine\<rparr>"
  have rt: "resolve_runtime ?env = (rrn_engine, None, [])"
    by (simp add: resolve_runtime_def demo_env_def)
  have "analysis_ok ?env demo_request"
    by (simp add: analysis_ok_def rt engine_ok_rrn_engine) (simp add: demo_env_def)
  then have an: "analysable ?env demo_request demo_state"
    by (simp add: analysable_def preflight_None has_attachments_def MAX_TITLE_LEN_def MAX_BODY_LEN_def view_def
        new_cache_def cache_ok_def u_def demo_env_def demo_request_def demo_state_def)
  show ?thesis
    by (rule valid_rrn_blocked [OF an rt rrn_engine_reports, where pre = "[]" and a = "u ''900101''" and sep = "[45]"
          and c = 49 and b = "u ''234568''" and post = "u '' is mine''"])
      (simp_all add: demo_rrn_valid [simplified], simp_all add: demo_env_def demo_request_def u_def is_decimal_ascii is_exception_ip_def)
qed

end
